(* ===== verification/Prelude.thy ===== *)
theory Prelude
  imports Complex_Main
begin

text \<open>
  Shared ground of the development: results with errors, rows and tables, the decimal
  arithmetic of the money columns, and the JavaScript string helpers the services use.

  \<^item> A service method returns \<open>err + 'a\<close>: \<open>Inl e\<close> for every \<open>throw\<close> of a Nest HTTP exception
    (or for a constraint of the database that aborts a transaction), \<open>Inr\<close> otherwise.
    \<open>bindR\<close> is the sequencing of an \<open>await\<close>ed call whose exception propagates.
  \<^item> A table is the list of its rows; \<open>find\<close> is \<open>findFirst\<close>, \<open>update_many\<close> is \<open>updateMany\<close>,
    \<open>update_id\<close> is \<open>update\<close> by primary key.
  \<^item> A \<open>decimal\<close> is the exact rational a \<open>Prisma.Decimal\<close> denotes; \<open>dp2\<close> is
    \<open>toDecimalPlaces(2)\<close> (half away from zero), which is also what a \<open>Decimal(19,2)\<close> column
    does to a value stored in it.
\<close>

named_theorems inversion \<open>what a successful run of an operation says\<close>
named_theorems frame \<open>parts of the state an operation leaves alone\<close>

section \<open>Results\<close>

datatype err =
    Forbidden string
  | NotFound string
  | Unprocessable string
  | Conflict string
  | StaleVersion nat
  | BadRequest string
  | Unauthorized string
  | DbError string

type_synonym 'a result = "err + 'a"

definition bindR :: "'a result \<Rightarrow> ('a \<Rightarrow> 'b result) \<Rightarrow> 'b result" where
  "bindR m k = (case m of Inl e \<Rightarrow> Inl e | Inr x \<Rightarrow> k x)"

lemma bindR_Inr [simp]: "bindR (Inr x) k = k x"
  by (simp add: bindR_def)

lemma bindR_Inl [simp]: "bindR (Inl e) k = Inl e"
  by (simp add: bindR_def)

lemma bindR_eq_Inr [simp]: "bindR m k = Inr y \<longleftrightarrow> (\<exists>x. m = Inr x \<and> k x = Inr y)"
  by (cases m) simp_all

lemma bindR_cong [fundef_cong]:
  "m = m' \<Longrightarrow> (\<And>x. m' = Inr x \<Longrightarrow> k x = k' x) \<Longrightarrow> bindR m k = bindR m' k'"
  by (cases m') simp_all

lemma if_Inl_eq_Inr [simp]: "(if b then Inl e else m) = Inr y \<longleftrightarrow> \<not> b \<and> m = Inr y"
  by simp

definition is_ok :: "'a result \<Rightarrow> bool" where
  "is_ok m = (case m of Inl _ \<Rightarrow> False | Inr _ \<Rightarrow> True)"

lemma is_ok_simps [simp]: "is_ok (Inr x)" "\<not> is_ok (Inl e)"
  by (simp_all add: is_ok_def)

lemma is_ok_iff: "is_ok m \<longleftrightarrow> (\<exists>x. m = Inr x)"
  by (cases m) simp_all

text \<open>A \<open>for\<close> loop over a list whose body may throw.\<close>

fun foldR :: "('a \<Rightarrow> 's \<Rightarrow> 's result) \<Rightarrow> 'a list \<Rightarrow> 's \<Rightarrow> 's result" where
  "foldR f [] s = Inr s"
| "foldR f (x # xs) s = bindR (f x s) (foldR f xs)"

fun mapR :: "('a \<Rightarrow> 'b result) \<Rightarrow> 'a list \<Rightarrow> 'b list result" where
  "mapR f [] = Inr []"
| "mapR f (x # xs) = bindR (f x) (\<lambda>y. bindR (mapR f xs) (\<lambda>ys. Inr (y # ys)))"

lemma foldR_append: "foldR f (xs @ ys) s = bindR (foldR f xs s) (foldR f ys)"
  by (induction xs arbitrary: s) (auto simp: bindR_def split: sum.splits)

lemma foldR_invariant:
  assumes "foldR f xs s = Inr s'" and "P s"
    and "\<And>x t t'. x \<in> set xs \<Longrightarrow> P t \<Longrightarrow> f x t = Inr t' \<Longrightarrow> P t'"
  shows "P s'"
  using assms by (induction xs arbitrary: s) auto

lemma mapR_eq_Inr:
  "mapR f xs = Inr ys \<longleftrightarrow> length ys = length xs \<and> (\<forall>i < length xs. f (xs ! i) = Inr (ys ! i))"
proof (induction xs arbitrary: ys)
  case Nil
  then show ?case by auto
next
  case (Cons x xs)
  show ?case
  proof
    assume "mapR f (x # xs) = Inr ys"
    then obtain z zs where *: "f x = Inr z" "mapR f xs = Inr zs" "ys = z # zs" by auto
    then show "length ys = length (x # xs) \<and> (\<forall>i < length (x # xs). f ((x # xs) ! i) = Inr (ys ! i))"
      using Cons.IH [of zs] by (auto simp: nth_Cons split: nat.splits)
  next
    assume a: "length ys = length (x # xs) \<and> (\<forall>i < length (x # xs). f ((x # xs) ! i) = Inr (ys ! i))"
    then obtain z zs where ys: "ys = z # zs" by (cases ys) auto
    with a have "f x = Inr z" by auto
    moreover from a ys have "\<forall>i < length xs. f (xs ! i) = Inr (zs ! i)" by auto
    with a ys have "mapR f xs = Inr zs" using Cons.IH [of zs] by auto
    ultimately show "mapR f (x # xs) = Inr ys" using ys by simp
  qed
qed

section \<open>Tables\<close>

definition update_many :: "('r \<Rightarrow> bool) \<Rightarrow> ('r \<Rightarrow> 'r) \<Rightarrow> 'r list \<Rightarrow> 'r list" where
  "update_many P f rs = map (\<lambda>r. if P r then f r else r) rs"

definition update_id :: "('r \<Rightarrow> 'k) \<Rightarrow> 'k \<Rightarrow> ('r \<Rightarrow> 'r) \<Rightarrow> 'r list \<Rightarrow> 'r list" where
  "update_id key i f rs = update_many (\<lambda>r. key r = i) f rs"

definition count_where :: "('r \<Rightarrow> bool) \<Rightarrow> 'r list \<Rightarrow> nat" where
  "count_where P rs = length (filter P rs)"

definition row_by :: "('r \<Rightarrow> 'k) \<Rightarrow> 'k \<Rightarrow> 'r list \<Rightarrow> 'r option" where
  "row_by key i rs = find (\<lambda>r. key r = i) rs"

lemma find_Some_in: "find P xs = Some x \<Longrightarrow> x \<in> set xs \<and> P x"
  by (auto simp: find_Some_iff)

lemma row_by_SomeD: "row_by key i rs = Some r \<Longrightarrow> r \<in> set rs \<and> key r = i"
  by (auto simp: row_by_def dest: find_Some_in)

lemma row_by_distinct:
  "distinct (map key rs) \<Longrightarrow> r \<in> set rs \<Longrightarrow> row_by key (key r) rs = Some r"
  by (induction rs) (auto simp: row_by_def)

lemma update_many_map: "(\<And>r. P r \<Longrightarrow> g (f r) = g r) \<Longrightarrow> map g (update_many P f rs) = map g rs"
  by (simp add: update_many_def)

lemma map_update_id:
  "(\<And>r. key (f r) = key r) \<Longrightarrow> map key (update_id key i f rs) = map key rs"
  by (simp add: update_id_def update_many_map)

lemma set_update_id:
  "r \<in> set (update_id key i f rs) \<Longrightarrow>
     (\<exists>r0 \<in> set rs. key r0 = i \<and> r = f r0) \<or> (r \<in> set rs \<and> key r \<noteq> i)"
  by (auto simp: update_id_def update_many_def split: if_splits)

lemma row_by_update_id:
  assumes "\<And>r. key (f r) = key r"
  shows "row_by key j (update_id key i f rs) =
     (if j = i then map_option f (row_by key j rs) else row_by key j rs)"
  using assms by (induction rs) (auto simp: row_by_def update_id_def update_many_def)

lemma row_by_append: "row_by key j (rs @ ss) =
   (case row_by key j rs of Some r \<Rightarrow> Some r | None \<Rightarrow> row_by key j ss)"
  by (induction rs) (auto simp: row_by_def)

lemma row_by_Cons: "row_by key j (r # rs) = (if key r = j then Some r else row_by key j rs)"
  by (simp add: row_by_def)

lemma row_by_Nil [simp]: "row_by key j [] = None"
  by (simp add: row_by_def)

lemma row_by_None_iff: "row_by key i rs = None \<longleftrightarrow> i \<notin> key ` set rs"
  by (auto simp: row_by_def find_None_iff)

lemma update_id_id: "i \<notin> key ` set rs \<Longrightarrow> update_id key i f rs = rs"
  by (auto simp: update_id_def update_many_def intro!: map_idI)

lemma find_row_by:
  assumes "find (\<lambda>r. key r = i \<and> P r) rs = Some r" and "distinct (map key rs)"
  shows "row_by key i rs = Some r"
  using find_Some_in [OF assms(1)] row_by_distinct [OF assms(2), of r] by auto

lemma update_many_one:
  assumes "distinct (map key rs)" and "x \<in> set rs" and "P x" and "\<And>r. P r \<Longrightarrow> key r = key x"
  shows "update_many P f rs = update_id key (key x) f rs"
proof -
  have "P r \<longleftrightarrow> key r = key x" if "r \<in> set rs" for r
    using that assms by (metis row_by_distinct option.inject)
  then show ?thesis by (simp add: update_id_def update_many_def)
qed

lemma sum_list_update_id:
  fixes g :: "'r \<Rightarrow> 'a::ab_group_add"
  assumes "distinct (map key rs)" and "row_by key i rs = Some r" and "\<And>r. key (f r) = key r"
  shows "sum_list (map g (update_id key i f rs)) = sum_list (map g rs) + (g (f r) - g r)"
  using assms
proof (induction rs)
  case Nil
  then show ?case by simp
next
  case (Cons x xs)
  show ?case
  proof (cases "key x = i")
    case True
    with Cons.prems have "r = x" and "i \<notin> key ` set xs" by (auto simp: row_by_Cons)
    with True show ?thesis
      using update_id_id [of i key xs f] by (simp add: update_id_def update_many_def algebra_simps)
  next
    case False
    with Cons show ?thesis by (simp add: row_by_Cons update_id_def update_many_def algebra_simps)
  qed
qed

lemmas table_simps = map_update_id row_by_update_id row_by_append row_by_Cons

section \<open>Decimals\<close>

type_synonym decimal = rat

definition round_half_up :: "nat \<Rightarrow> decimal \<Rightarrow> decimal" where
  "round_half_up k x =
     (if x < 0 then - (of_int \<lfloor>(- x) * 10 ^ k + 1 / 2\<rfloor> / 10 ^ k)
      else of_int \<lfloor>x * 10 ^ k + 1 / 2\<rfloor> / 10 ^ k)"

abbreviation dp2 :: "decimal \<Rightarrow> decimal" where
  "dp2 \<equiv> round_half_up 2"

text \<open>Values of a column \<open>Decimal(19, k)\<close> are the multiples of \<open>1 / 10 ^ k\<close>.\<close>

definition scaled :: "nat \<Rightarrow> decimal \<Rightarrow> bool" where
  "scaled k x \<longleftrightarrow> x * 10 ^ k \<in> \<int>"

abbreviation cents :: "decimal \<Rightarrow> bool" where
  "cents \<equiv> scaled 2"

lemma scaled_code [code]: "scaled k x \<longleftrightarrow> of_int \<lfloor>x * 10 ^ k\<rfloor> = x * 10 ^ k"
  by (metis Ints_cases Ints_of_int floor_of_int scaled_def)

lemma floor_int_half: "\<lfloor>of_int n + 1 / 2 :: rat\<rfloor> = n"
  by linarith

lemma scaled_round: "scaled k (round_half_up k x)"
  by (simp add: scaled_def round_half_up_def)

lemma round_scaled: "scaled k x \<Longrightarrow> round_half_up k x = x"
proof -
  assume "scaled k x"
  then obtain n :: int where n: "x * 10 ^ k = of_int n"
    by (auto simp: scaled_def elim: Ints_cases)
  show ?thesis
  proof (cases "x < 0")
    case True
    from n have "(- x) * 10 ^ k = of_int (- n)" by simp
    then have "\<lfloor>(- x) * 10 ^ k + 1 / 2\<rfloor> = - n" using floor_int_half [of "- n"] by simp
    then have "round_half_up k x = of_int n / 10 ^ k"
      using True by (simp add: round_half_up_def)
    also have "\<dots> = x" using n [symmetric] by simp
    finally show ?thesis .
  next
    case False
    from n have "\<lfloor>x * 10 ^ k + 1 / 2\<rfloor> = n" using floor_int_half [of n] by simp
    then have "round_half_up k x = of_int n / 10 ^ k"
      using False by (simp add: round_half_up_def)
    also have "\<dots> = x" using n [symmetric] by simp
    finally show ?thesis .
  qed
qed

lemma scaled_add [intro]: "scaled k x \<Longrightarrow> scaled k y \<Longrightarrow> scaled k (x + y)"
  by (simp add: scaled_def distrib_right)

lemma scaled_diff [intro]: "scaled k x \<Longrightarrow> scaled k y \<Longrightarrow> scaled k (x - y)"
  by (simp add: scaled_def left_diff_distrib)

lemma scaled_mult_nat [intro]: "scaled k x \<Longrightarrow> scaled k (x * of_nat n)"
proof -
  assume "scaled k x"
  then have "(x * 10 ^ k) * of_nat n \<in> \<int>" unfolding scaled_def by (rule Ints_mult) simp
  then show ?thesis by (simp add: scaled_def mult_ac)
qed

lemma scaled_0 [intro, simp]: "scaled k 0"
  by (simp add: scaled_def)

lemma scaled_sum_list [intro]: "(\<And>x. x \<in> set xs \<Longrightarrow> scaled k x) \<Longrightarrow> scaled k (sum_list xs)"
  by (induction xs) auto

lemma round_error: "\<bar>round_half_up k x - x\<bar> \<le> 1 / (2 * 10 ^ k)"
proof -
  have fl: "\<bar>of_int \<lfloor>y * 10 ^ k + 1 / 2\<rfloor> / 10 ^ k - y\<bar> \<le> 1 / (2 * 10 ^ k)" for y :: rat
  proof -
    have "\<bar>of_int \<lfloor>y * 10 ^ k + 1 / 2\<rfloor> - y * 10 ^ k\<bar> \<le> 1 / 2"
      using floor_correct [of "y * 10 ^ k + 1 / 2"] by linarith
    moreover have "of_int \<lfloor>y * 10 ^ k + 1 / 2\<rfloor> / 10 ^ k - y =
        (of_int \<lfloor>y * 10 ^ k + 1 / 2\<rfloor> - y * 10 ^ k) / 10 ^ k"
      by (simp add: field_simps)
    ultimately show ?thesis by (simp add: abs_divide field_simps)
  qed
  show ?thesis
  proof (cases "x < 0")
    case True
    then have "round_half_up k x - x = - (of_int \<lfloor>(- x) * 10 ^ k + 1 / 2\<rfloor> / 10 ^ k - (- x))"
      by (simp add: round_half_up_def)
    then show ?thesis using fl [of "- x"] by (simp only: abs_minus_cancel)
  next
    case False
    then show ?thesis using fl [of x] by (simp add: round_half_up_def)
  qed
qed

lemma round_nonneg: "0 \<le> x \<Longrightarrow> 0 \<le> round_half_up k x"
  by (simp add: round_half_up_def)

lemma round_mono: "x \<le> y \<Longrightarrow> round_half_up k x \<le> round_half_up k y"
proof -
  assume le: "x \<le> y"
  have fl: "of_int \<lfloor>a * 10 ^ k + 1 / 2\<rfloor> / (10 ^ k :: rat) \<le> of_int \<lfloor>b * 10 ^ k + 1 / 2\<rfloor> / 10 ^ k"
    if "a \<le> b" for a b :: rat
    using that by (intro divide_right_mono) (auto intro!: floor_mono mult_right_mono)
  have pos: "0 \<le> of_int \<lfloor>a * 10 ^ k + 1 / 2\<rfloor> / (10 ^ k :: rat)" if "0 \<le> a" for a :: rat
    using that by simp
  consider "0 \<le> x" | "y < 0" | "x < 0" "0 \<le> y" by linarith
  then show ?thesis
  proof cases
    case 1
    with le fl [OF le] show ?thesis by (simp add: round_half_up_def)
  next
    case 2
    with le have "- y \<le> - x" and "x < 0" by simp_all
    with 2 fl [of "- y" "- x"] show ?thesis by (simp add: round_half_up_def)
  next
    case 3
    then have "round_half_up k x = - (of_int \<lfloor>(- x) * 10 ^ k + 1 / 2\<rfloor> / 10 ^ k)"
      by (simp add: round_half_up_def)
    with pos [of "- x"] 3 have "round_half_up k x \<le> 0" by simp
    with round_nonneg [OF 3(2), of k] show ?thesis by simp
  qed
qed

lemma scaled_minus [intro]: "scaled k x \<Longrightarrow> scaled k (- x)"
  by (simp add: scaled_def)

lemma scaled_abs_less: "scaled k x \<Longrightarrow> \<bar>x\<bar> < 1 / 10 ^ k \<Longrightarrow> x = 0"
proof -
  assume "scaled k x" and lt: "\<bar>x\<bar> < 1 / 10 ^ k"
  then obtain n :: int where n: "x * 10 ^ k = of_int n"
    by (auto simp: scaled_def elim: Ints_cases)
  from lt have "\<bar>x * 10 ^ k\<bar> < 1" by (simp add: abs_mult field_simps)
  with n have "\<bar>of_int n :: rat\<bar> < 1" by simp
  then have "n = 0" by linarith
  with n show "x = 0" by simp
qed

section \<open>Strings\<close>

definition js_space :: "char \<Rightarrow> bool" where
  "js_space c \<longleftrightarrow> of_char c \<in> {9, 10, 11, 12, 13, 32 :: nat}"

text \<open>\<open>String.prototype.trim\<close> on the ASCII white space characters.\<close>

definition trim :: "string \<Rightarrow> string" where
  "trim s = rev (dropWhile js_space (rev (dropWhile js_space s)))"

lemma dropWhile_rev_dropWhile:
  assumes "dropWhile P xs = xs"
  shows "dropWhile P (rev (dropWhile P (rev xs))) = rev (dropWhile P (rev xs))"
proof (cases "dropWhile P (rev xs) = []")
  case False
  obtain w where w: "rev xs = w @ dropWhile P (rev xs)" by (metis takeWhile_dropWhile_id)
  then have xs: "xs = rev (dropWhile P (rev xs)) @ rev w" by (metis rev_append rev_rev_ident)
  from False have ne: "xs \<noteq> []" by auto
  then have "\<not> P (hd xs)" using assms hd_dropWhile [of P xs] by auto
  moreover have "hd (rev (dropWhile P (rev xs))) = hd xs"
    using False xs by (metis hd_append2 rev_is_Nil_conv)
  ultimately show ?thesis using False by (cases "rev (dropWhile P (rev xs))") auto
qed (simp only: rev.simps dropWhile.simps)

lemma trim_idem [simp]: "trim (trim s) = trim s"
proof -
  let ?u = "dropWhile js_space s"
  have "dropWhile js_space ?u = ?u" by (simp only: dropWhile_idem)
  then have "dropWhile js_space (trim s) = trim s"
    unfolding trim_def by (rule dropWhile_rev_dropWhile)
  then show ?thesis by (simp add: trim_def)
qed

text \<open>\<open>s?.trim() || null\<close>: an absent or blank text is stored as null.\<close>

definition trim_or_null :: "string option \<Rightarrow> string option" where
  "trim_or_null s = (case s of None \<Rightarrow> None | Some t \<Rightarrow> if trim t = [] then None else Some (trim t))"

text \<open>\<open>s?.trim() || fallback\<close>.\<close>

definition trim_or :: "string \<Rightarrow> string option \<Rightarrow> string" where
  "trim_or d s = (case trim_or_null s of None \<Rightarrow> d | Some t \<Rightarrow> t)"

definition upper_char :: "char \<Rightarrow> char" where
  "upper_char c = (let n = (of_char c :: nat) in if 97 \<le> n \<and> n \<le> 122 then char_of (n - 32) else c)"

definition to_upper :: "string \<Rightarrow> string" where
  "to_upper s = map upper_char s"

definition alnum :: "char \<Rightarrow> bool" where
  "alnum c = (let n = (of_char c :: nat) in
     (48 \<le> n \<and> n \<le> 57) \<or> (65 \<le> n \<and> n \<le> 90) \<or> (97 \<le> n \<and> n \<le> 122))"

text \<open>\<open>String.split(',')\<close>: the pieces between the commas, one for the empty text.\<close>

fun split_comma :: "string \<Rightarrow> string list" where
  "split_comma [] = [[]]"
| "split_comma (ch # s) =
     (if ch = CHR '','' then [] # split_comma s
      else case split_comma s of [] \<Rightarrow> [[ch]] | p # ps \<Rightarrow> (ch # p) # ps)"

text \<open>Decimal notation of a number, \<open>String(n)\<close>, and \<open>padStart(w, '0')\<close>.\<close>

fun show_nat :: "nat \<Rightarrow> string" where
  "show_nat n = (if n < 10 then [char_of (48 + n)] else show_nat (n div 10) @ [char_of (48 + n mod 10)])"

declare show_nat.simps [simp del]

definition pad_start :: "nat \<Rightarrow> string \<Rightarrow> string" where
  "pad_start w s = replicate (w - length s) (CHR ''0'') @ s"

definition is_digit :: "char \<Rightarrow> bool" where
  "is_digit ch \<longleftrightarrow> 48 \<le> (of_char ch :: nat) \<and> (of_char ch :: nat) \<le> 57"

definition read_digits :: "string \<Rightarrow> nat" where
  "read_digits s = foldl (\<lambda>a c. 10 * a + (of_char c - 48)) 0 s"

lemma read_digits_snoc: "read_digits (s @ [c]) = 10 * read_digits s + (of_char c - 48)"
  by (simp add: read_digits_def)

lemma of_char_digit: "d < 10 \<Longrightarrow> of_char (char_of (48 + d) :: char) = (48 + d :: nat)"
  by (simp add: of_char_of take_bit_eq_mod)

lemma read_show_nat: "read_digits (show_nat n) = n"
proof (induction n rule: show_nat.induct)
  case (1 n)
  show ?case
  proof (cases "n < 10")
    case True
    then show ?thesis
      by (subst show_nat.simps) (simp add: read_digits_def of_char_digit)
  next
    case False
    with 1 have "read_digits (show_nat (n div 10)) = n div 10" by simp
    with False show ?thesis
      by (subst show_nat.simps) (simp add: read_digits_snoc of_char_digit)
  qed
qed

lemma read_digits_zeros: "read_digits (replicate k (CHR ''0'') @ s) = read_digits s"
  by (induction k) (simp_all add: read_digits_def)

lemma pad_show_inj: "pad_start w (show_nat m) = pad_start w (show_nat n) \<Longrightarrow> m = n"
  by (metis pad_start_def read_digits_zeros read_show_nat)

end
