(* ===== verification/Schema.thy ===== *)
theory Schema
  imports Prelude
begin

text \<open>
  The data model of \<open>prisma/schema.prisma\<close>: one record per model with the columns that the
  modelled services read or write, the enumerated columns as datatypes, and the database as
  the record of its tables. The constraints of \<open>prisma/migrations\<close> that can abort a
  transaction of these services are \<open>db_constraints\<close>; \<open>commit\<close> is the end of a transaction.

  Identifiers are uuids drawn by the database: \<open>next_id\<close> hands them out in order. A foreign
  row read through a relation (\<open>include\<close>) is looked up in its own table, except for rows owned
  by one parent (bill lines, item modifiers, modifier groups), which are kept inside it.
\<close>

section \<open>Columns with a fixed vocabulary\<close>

type_synonym id = nat
type_synonym time = int
type_synonym date = int

datatype session_status =
    S_OPEN | S_ACTIVE_ORDER | S_ATTENTION_REQUIRED | S_BILL_REQUESTED | S_BILL_READY
  | S_PAYMENT_PENDING | S_PAID | S_CLOSED

datatype session_kind = DINE_IN | CALL_PICKUP | COUNTER

datatype item_state =
    CONFIRMED | QUEUED | ACKNOWLEDGED | IN_PREPARATION | READY | SERVED
  | CANCELLATION_REQUESTED | CANCELLED | CHANGE_REQUESTED | CANNOT_PREPARE
  | BLOCKED | REJECTED_BY_STATION

datatype bill_status =
    B_GENERATED | B_PAYMENT_PENDING | B_PAID | B_CLOSED | B_REOPEN_REQUESTED | B_REOPENED

datatype request_status = R_PENDING | R_CANCELLED | R_FULFILLED

datatype approval_status = A_PENDING | A_APPROVED | A_REJECTED | A_APPLIED | A_CANCELLED | A_WITHDRAWN

datatype pay_method = CASH | TRANSFER

datatype drop_status =
    D_INITIATED | D_RECEIVED | D_DISPUTED | D_RESOLVED | D_CANCELLED_BEFORE_RECEIPT

datatype dispute_status =
    DS_OPEN | DS_RESOLVED | DS_RESOLVED_ACCEPT_COUNTED | DS_RESOLVED_ACCEPT_DECLARED | DS_RESOLVED_OTHER

datatype financial_status = F_OPEN | F_RECONCILIATION_PENDING | F_RECONCILED | F_CLOSED

datatype override_state = OV_SOLD_OUT | OV_TEMPORARILY_DISABLED | OV_LIMITED

datatype holder_type = WAITER_SHIFT | CASHIER_SESSION

section \<open>Rows\<close>

record dining_table =
  dt_id :: id
  dt_tenantId :: id
  dt_branchId :: id
  dt_locationId :: id
  dt_displayName :: string
  dt_displayNumber :: "string option"
  dt_status :: string
  dt_isVip :: bool
  dt_locationIsVip :: bool
  dt_locationCode :: string
  dt_assignedWaiter :: "id option"
  dt_archivedAt :: "time option"
  dt_sortOrder :: nat
  dt_version :: nat

record table_session =
  ts_id :: id
  ts_branchId :: id
  ts_tableId :: id
  ts_businessDate :: date
  ts_primaryWaiter :: id
  ts_primaryShift :: id
  ts_sessionKind :: session_kind
  ts_customerName :: "string option"
  ts_customerPhone :: "string option"
  ts_guestCount :: "nat option"
  ts_status :: session_status
  ts_openedAt :: time
  ts_billRequestedAt :: "time option"
  ts_closedAt :: "time option"
  ts_closedBy :: "id option"
  ts_closeReason :: "string option"
  ts_idleAlertAt :: "time option"
  ts_version :: nat

record room_session =
  rs_id :: id
  rs_branchId :: id
  rs_roomStayId :: id
  rs_hotelRoomId :: id
  rs_businessDate :: date
  rs_primaryWaiter :: id
  rs_primaryShift :: id
  rs_guestCount :: "nat option"
  rs_status :: session_status
  rs_openedAt :: time
  rs_billRequestedAt :: "time option"
  rs_closedAt :: "time option"
  rs_closedBy :: "id option"
  rs_closeReason :: "string option"
  rs_idleAlertAt :: "time option"
  rs_version :: nat

record hotel_room =
  hr_id :: id
  hr_branchId :: id
  hr_roomNumber :: string
  hr_floor :: "string option"
  hr_wing :: "string option"
  hr_status :: string
  hr_defaultWaiter :: "id option"
  hr_sortOrder :: nat
  hr_archivedAt :: "time option"

record room_stay =
  sy_id :: id
  sy_branchId :: id
  sy_hotelRoomId :: id
  sy_guestName :: string
  sy_guestPhone :: "string option"
  sy_adults :: nat
  sy_kids :: nat
  sy_mealPlan :: string
  sy_status :: string
  sy_guestIdImage :: "string option"
  sy_checkInAt :: time
  sy_plannedCheckOut :: time
  sy_checkedOutAt :: "time option"
  sy_checkedInBy :: id
  sy_checkedOutBy :: "id option"

record meal_entitlement =
  me_id :: id
  me_branchId :: id
  me_stayId :: id
  me_mealType :: string
  me_businessDate :: date
  me_allowed :: nat
  me_used :: nat

record room_coverage =
  fc_id :: id
  fc_branchId :: id
  fc_floor :: string
  fc_waiter :: id
  fc_definition :: "id option"

record outside_order =
  oo_id :: id
  oo_branchId :: id
  oo_businessDate :: date
  oo_createdBy :: id
  oo_requiresReturn :: bool
  oo_status :: session_status
  oo_closedAt :: "time option"
  oo_version :: nat

record order_row =
  od_id :: id
  od_branchId :: id
  od_businessDate :: date
  od_tableSessionId :: "id option"
  od_roomSessionId :: "id option"
  od_outsideOrderId :: "id option"
  od_createdBy :: id
  od_waiterShift :: id
  od_status :: string
  od_confirmedAt :: time

record item_modifier =
  im_groupId :: id
  im_optionId :: id
  im_groupName :: string
  im_optionName :: string
  im_priceDelta :: decimal
  im_sortOrder :: nat

record order_item =
  oi_id :: id
  oi_tenantId :: id
  oi_branchId :: id
  oi_businessDate :: date
  oi_orderId :: id
  oi_tableSessionId :: "id option"
  oi_roomSessionId :: "id option"
  oi_outsideOrderId :: "id option"
  oi_menuItemId :: "id option"
  oi_itemName :: string
  oi_unitPrice :: decimal
  oi_quantity :: nat
  oi_originalStation :: id
  oi_currentStation :: id
  oi_stationName :: string
  oi_prepMinutes :: "nat option"
  oi_instruction :: "string option"
  oi_state :: item_state
  oi_confirmedAt :: time
  oi_queuedAt :: "time option"
  oi_acknowledgedAt :: "time option"
  oi_preparationStartedAt :: "time option"
  oi_readyAt :: "time option"
  oi_servedAt :: "time option"
  oi_cancelledAt :: "time option"
  oi_cancelledBy :: "id option"
  oi_cancellationReason :: "string option"
  oi_unackAlertAt :: "time option"
  oi_delayAlertAt :: "time option"
  oi_version :: nat
  oi_modifiers :: "item_modifier list"

record bill_request =
  br_id :: id
  br_branchId :: id
  br_businessDate :: date
  br_tableSessionId :: "id option"
  br_roomSessionId :: "id option"
  br_requestedBy :: id
  br_requestedAt :: time
  br_status :: request_status
  br_cancelledAt :: "time option"
  br_fulfilledAt :: "time option"

record bill_line =
  ln_orderItemId :: "id option"
  ln_itemName :: string
  ln_quantity :: nat
  ln_unitPrice :: decimal
  ln_modifierTotal :: decimal
  ln_lineTotal :: decimal
  ln_chargeStatus :: string
  ln_sortOrder :: nat

record bill =
  bl_id :: id
  bl_branchId :: id
  bl_businessDate :: date
  bl_tableSessionId :: "id option"
  bl_roomSessionId :: "id option"
  bl_billNumber :: string
  bl_status :: bill_status
  bl_subtotal :: decimal
  bl_cancelled :: decimal
  bl_total :: decimal
  bl_amountPaid :: decimal
  bl_generatedBy :: id
  bl_generatedAt :: time
  bl_paidAt :: "time option"
  bl_closedAt :: "time option"
  bl_closedBy :: "id option"
  bl_version :: nat
  bl_lines :: "bill_line list"

record payment =
  py_id :: id
  py_branchId :: id
  py_businessDate :: date
  py_billId :: id
  py_method :: pay_method
  py_transferChannel :: "string option"
  py_status :: string
  py_amount :: decimal
  py_collector :: id
  py_collectorShift :: id
  py_cashTendered :: "decimal option"
  py_cashChange :: "decimal option"
  py_initiatedAt :: time
  py_collectedAt :: "time option"
  py_verifiedAt :: "time option"
  py_settledAt :: "time option"

record transfer_receipt =
  tr_paymentId :: id
  tr_fileId :: id
  tr_capturedBy :: id
  tr_capturedAt :: time

record cash_drop =
  cd_id :: id
  cd_branchId :: id
  cd_businessDate :: date
  cd_waiter :: id
  cd_waiterShift :: id
  cd_declared :: decimal
  cd_status :: drop_status
  cd_initiatedAt :: time
  cd_financialSession :: "id option"
  cd_receivedBy :: "id option"
  cd_counted :: "decimal option"
  cd_receivedAt :: "time option"
  cd_resolution :: "decimal option"
  cd_resolvedAt :: "time option"
  cd_version :: nat

record cash_dispute =
  dp_id :: id
  dp_branchId :: id
  dp_cashDropId :: id
  dp_declared :: decimal
  dp_counted :: decimal
  dp_variance :: decimal
  dp_status :: dispute_status
  dp_resolution :: "decimal option"
  dp_note :: "string option"
  dp_resolvedBy :: "id option"
  dp_resolvedAt :: "time option"

record ledger_entry =
  le_id :: id
  le_branchId :: id
  le_businessDate :: date
  le_holderType :: holder_type
  le_waiterShift :: "id option"
  le_financialSession :: "id option"
  le_entryType :: string
  le_amountDelta :: decimal
  le_sourceType :: string
  le_sourceId :: id
  le_createdBy :: "id option"

record financial_session =
  fs_id :: id
  fs_branchId :: id
  fs_businessDate :: date
  fs_cashier :: id
  fs_shiftSessionId :: id
  fs_status :: financial_status
  fs_openingFloat :: decimal
  fs_openedAt :: time
  fs_closedAt :: "time option"
  fs_version :: nat

record reconciliation =
  rn_id :: id
  rn_branchId :: id
  rn_businessDate :: date
  rn_financialSession :: id
  rn_expected :: decimal
  rn_counted :: decimal
  rn_variance :: decimal
  rn_comment :: "string option"
  rn_status :: string
  rn_submittedAt :: time
  rn_reviewedBy :: "id option"
  rn_reviewedAt :: "time option"
  rn_reviewComment :: "string option"
  rn_version :: nat

text \<open>Roles are named by their codes, which the code looks up by the id of the role.\<close>

record shift_session =
  sh_id :: id
  sh_branchId :: id
  sh_staff :: id
  sh_roleCode :: "string option"
  sh_assignment :: "id option"
  sh_scheduledStart :: "time option"
  sh_scheduledEnd :: "time option"
  sh_graceMinutes :: int
  sh_clockInAt :: time
  sh_clockOutAt :: "time option"
  sh_lateByMinutes :: nat
  sh_state :: string
  sh_businessDate :: date
  sh_version :: nat

text \<open>The times of a shift definition are minutes after midnight.\<close>

record shift_definition =
  df_id :: id
  df_branchId :: id
  df_name :: string
  df_start :: nat
  df_end :: nat
  df_graceMinutes :: int
  df_status :: string

record shift_assignment =
  sa_id :: id
  sa_branchId :: id
  sa_staff :: id
  sa_definition :: "id option"
  sa_roleCode :: "string option"
  sa_start :: time
  sa_end :: time
  sa_graceMinutes :: int
  sa_status :: string

record staff_day_shift =
  dy_staff :: id
  dy_dayCode :: string
  dy_definition :: id

record table_coverage =
  tc_branchId :: id
  tc_tableId :: id
  tc_definition :: id
  tc_dayCode :: string
  tc_waiter :: id

text \<open>
  A staff membership with the branches it is actively assigned to, the codes of its active
  roles and of those that were withdrawn, and the stored credential of its user (\<open>None\<close> when there is no user or no PIN).
\<close>

record membership =
  mb_id :: id
  mb_tenantId :: id
  mb_status :: string
  mb_branches :: "id list"
  mb_roles :: "string list"
  mb_pastRoles :: "string list"
  mb_hasUser :: bool
  mb_passwordHash :: "string option"
  mb_displayName :: string
  mb_userName :: string

record modifier_option =
  op_id :: id
  op_name :: string
  op_priceDelta :: decimal
  op_status :: string

record modifier_group =
  mg_id :: id
  mg_name :: string
  mg_status :: string
  mg_minSelections :: nat
  mg_maxSelections :: nat
  mg_requiredDefault :: bool
  mg_options :: "modifier_option list"

record modifier_assignment =
  ma_group :: modifier_group
  ma_minOverride :: "nat option"
  ma_maxOverride :: "nat option"
  ma_requiredOverride :: "bool option"

record menu_item =
  mi_id :: id
  mi_tenantId :: id
  mi_menuTenantId :: id
  mi_menuBranchId :: "id option"
  mi_menuStatus :: string
  mi_name :: string
  mi_currentPrice :: decimal
  mi_vipPercent :: "decimal option"
  mi_expectedPrepMinutes :: "nat option"
  mi_status :: string
  mi_soldOut :: bool
  mi_showOnQrMenu :: bool
  mi_stationId :: "id option"
  mi_modifiers :: "modifier_assignment list"
  mi_version :: nat

record availability_override =
  ov_id :: id
  ov_branchId :: id
  ov_menuItemId :: id
  ov_state :: override_state
  ov_reason :: string
  ov_remainingQty :: "nat option"
  ov_initialQty :: "nat option"
  ov_setBy :: id
  ov_startsAt :: time
  ov_endsAt :: "time option"

record station =
  sn_id :: id
  sn_branchId :: id
  sn_name :: string
  sn_status :: string
  sn_workflowMode :: "string option"

record branch =
  bc_id :: id
  bc_tenantId :: id
  bc_name :: string
  bc_displayCode :: string
  bc_serviceMode :: string

record branch_settings =
  bs_branchId :: id
  bs_rushModeEnabled :: bool
  bs_rushModeBufferMinutes :: nat
  bs_unackAlertMinutes :: nat
  bs_sessionIdleWarnMinutes :: nat

record tenant_settings =
  tn_tenantId :: id
  tn_defaultVipPercent :: decimal
  tn_roomServiceEnabled :: bool
  tn_breakfastEnabled :: bool
  tn_breakfastFrom :: string
  tn_breakfastTo :: string
  tn_breakfastMenuItem :: "id option"
  tn_autoApproveSupply :: bool
  tn_requireDriver :: bool
  tn_updatedBy :: "id option"
  tn_version :: nat

text \<open>
  The daily close with its lines and its blocking issues. The eleven amounts of its totals
  are one record, as \<open>totalsData\<close> copies them.
\<close>

datatype blocker_code =
    OPEN_TABLE_SESSION | OPEN_ROOM_SESSION | OPEN_KITCHEN_TICKET | PENDING_TRANSFER
  | DISPUTED_CASH_DROP | OPEN_CASH_DROP | CASHIER_RECONCILIATION_MISSING
  | CASHIER_RECONCILIATION_FLAGGED | UNDROPPED_WAITER_CASH

record blocker =
  bk_code :: blocker_code
  bk_entity :: id
  bk_version :: "nat option"

record close_totals =
  ct_gross :: decimal
  ct_cancelled :: decimal
  ct_netBilled :: decimal
  ct_cashSales :: decimal
  ct_verifiedTransfers :: decimal
  ct_pendingTransfers :: decimal
  ct_suspiciousTransfers :: decimal
  ct_cashierExpected :: decimal
  ct_cashierCounted :: decimal
  ct_cashierVariance :: decimal
  ct_undropped :: decimal

record waiter_line =
  wl_waiter :: id
  wl_shift :: id
  wl_orders :: nat
  wl_tables :: nat
  wl_netSales :: decimal
  wl_collected :: decimal
  wl_dropped :: decimal
  wl_undropped :: decimal
  wl_transfers :: decimal

record station_line =
  stl_station :: id
  stl_name :: string
  stl_handled :: nat
  stl_delayed :: nat
  stl_cannotPrepare :: nat

record daily_close =
  dc_id :: id
  dc_branchId :: id
  dc_businessDate :: date
  dc_status :: string
  dc_generatedBy :: id
  dc_approvedAt :: "time option"
  dc_approvedBy :: "id option"
  dc_lockedAt :: "time option"
  dc_lockedBy :: "id option"
  dc_totals :: close_totals
  dc_tableCount :: nat
  dc_orderCount :: nat
  dc_itemCount :: nat
  dc_blockers :: "blocker list"
  dc_version :: nat
  dc_waiterLines :: "waiter_line list"
  dc_stationLines :: "station_line list"

text \<open>
  \<open>RequestedChangeDto\<close>: a field left out is \<open>None\<close>; an instruction sent as \<open>null\<close> is
  \<open>Some None\<close>.
\<close>

record requested_change =
  rc_menuItemId :: "id option"
  rc_instruction :: "string option option"

record cancellation_request =
  cr_id :: id
  cr_branchId :: id
  cr_orderItemId :: id
  cr_requestedBy :: id
  cr_reason :: string
  cr_stateAtRequest :: item_state
  cr_status :: approval_status
  cr_requestedAt :: time
  cr_decidedBy :: "id option"
  cr_decidedAt :: "time option"
  cr_decisionReason :: "string option"

record change_request =
  ch_id :: id
  ch_branchId :: id
  ch_orderItemId :: id
  ch_requestedBy :: id
  ch_reason :: "string option"
  ch_change :: requested_change
  ch_stateAtRequest :: item_state
  ch_status :: approval_status
  ch_requestedAt :: time
  ch_decidedBy :: "id option"
  ch_decidedAt :: "time option"
  ch_decisionReason :: "string option"

record production_exception =
  px_id :: id
  px_branchId :: id
  px_orderItemId :: id
  px_stationId :: id
  px_reportedBy :: id
  px_reasonCode :: string
  px_reasonDetail :: string
  px_status :: string

record table_assignment =
  ta_id :: id
  ta_tableSessionId :: id
  ta_waiter :: id
  ta_shift :: id
  ta_assignedBy :: "id option"
  ta_reason :: "string option"
  ta_releasedAt :: "time option"

record inventory_location =
  lo_id :: id
  lo_tenantId :: id
  lo_branchId :: "id option"
  lo_code :: string
  lo_name :: string
  lo_type :: string
  lo_isDefault :: bool
  lo_status :: string

record ingredient =
  ig_id :: id
  ig_tenantId :: id
  ig_branchId :: "id option"
  ig_name :: string
  ig_unit :: string
  ig_itemKind :: string
  ig_unitCost :: decimal
  ig_yieldPercent :: "decimal option"
  ig_status :: string

record vendor =
  vd_id :: id
  vd_tenantId :: id
  vd_status :: string

record driver =
  dv_id :: id
  dv_tenantId :: id
  dv_displayName :: string
  dv_phone :: "string option"
  dv_status :: string
  dv_registeredBy :: "id option"

record transfer_line =
  tl_ingredientId :: id
  tl_sent :: decimal
  tl_unitSent :: "string option"
  tl_received :: "decimal option"

record transfer =
  it_id :: id
  it_tenantId :: id
  it_from :: id
  it_to :: id
  it_status :: string
  it_supplyRequest :: "id option"
  it_pushDrop :: "id option"
  it_driver :: "id option"
  it_sentBy :: "id option"
  it_receivedBy :: "id option"
  it_dispatchedAt :: "time option"
  it_sentAt :: "time option"
  it_receivedAt :: "time option"
  it_lines :: "transfer_line list"

record supply_line =
  sl_ingredientId :: id
  sl_quantity :: decimal
  sl_unit :: "string option"

record supply_request =
  sq_id :: id
  sq_tenantId :: id
  sq_from :: id
  sq_to :: id
  sq_status :: string
  sq_autoApprove :: bool
  sq_requestedBy :: "id option"
  sq_decidedBy :: "id option"
  sq_submittedAt :: "time option"
  sq_decidedAt :: "time option"
  sq_lines :: "supply_line list"

record push_drop =
  pu_id :: id
  pu_tenantId :: id
  pu_from :: id
  pu_status :: string
  pu_createdBy :: "id option"

record production_batch =
  pb_id :: id
  pb_tenantId :: id
  pb_locationId :: id
  pb_output :: id
  pb_outputQty :: decimal
  pb_expectedQty :: "decimal option"
  pb_yieldPercent :: "decimal option"
  pb_inputCostTotal :: decimal
  pb_outputUnitCost :: decimal
  pb_inputs :: "(id \<times> decimal) list"

record recipe_line =
  rl_menuItemId :: id
  rl_ingredientId :: id
  rl_quantityPerServing :: decimal
  rl_unit :: "string option"

record unit_conversion =
  uc_tenantId :: id
  uc_fromUnit :: string
  uc_toUnit :: string
  uc_factor :: decimal
  uc_status :: string

record stock_balance =
  sb_locationId :: id
  sb_ingredientId :: id
  sb_onHand :: decimal

record stock_entry =
  se_locationId :: id
  se_ingredientId :: id
  se_entryType :: string
  se_delta :: decimal
  se_orderItemId :: "id option"
  se_countSessionId :: "id option"

record count_line =
  cl_ingredientId :: id
  cl_bookQty :: decimal
  cl_countedQty :: "decimal option"
  cl_countedUnit :: "string option"

record count_session =
  cs_id :: id
  cs_tenantId :: id
  cs_branchId :: id
  cs_status :: string
  cs_notes :: "string option"
  cs_createdBy :: "id option"
  cs_postedAt :: "time option"
  cs_lines :: "count_line list"

record audit_event =
  ae_action :: string
  ae_entityId :: id
  ae_actorUser :: "id option"

end
