(* ===== verification/Database.thy ===== *)
theory Database
  imports Schema
begin

text \<open>
  The database as the record of its tables, the request and response bodies that the
  idempotency table stores, the notifications and timers a service emits, and \<open>commit\<close>,
  which ends a transaction: the constraints of the migrations hold of every committed state, and a
  transaction that would break one is rolled back with the constraint's name.
\<close>

section \<open>Request and response bodies\<close>

record confirm_line =
  li_menuItemId :: id
  li_quantity :: nat
  li_optionIds :: "id list option"
  li_instruction :: "string option"

record confirm_order_dto =
  co_tableSessionId :: "id option"
  co_roomSessionId :: "id option"
  co_outsideOrderId :: "id option"
  co_expectedTableVersion :: "nat option"
  co_expectedRoomVersion :: "nat option"
  co_expectedOutsideVersion :: "nat option"
  co_items :: "confirm_line list"

record transfer_dto =
  tf_amount :: string
  tf_expectedBillVersion :: nat
  tf_channel :: string
  tf_fileId :: id
  tf_reference :: "string option"
  tf_bankProvider :: "string option"
  tf_accountSuffix :: "string option"
  tf_phoneNumber :: "string option"

record start_session_dto =
  sg_tableId :: id
  sg_callPickup :: bool
  sg_customerName :: "string option"
  sg_customerPhone :: "string option"
  sg_guestCount :: "nat option"

datatype resolution = ACCEPT_COUNTED | ACCEPT_DECLARED | OTHER_APPROVED_AMOUNT

datatype request =
    Req_BillTable id nat
  | Req_BillRoom id nat
  | Req_GenerateBill id "nat option" "nat option"
  | Req_CounterSale "(id \<times> nat) list"
  | Req_PayCash id string string nat
  | Req_PayTransfer id transfer_dto
  | Req_BankReference string id
  | Req_ConfirmOrder confirm_order_dto
  | Req_InitiateDrop string
  | Req_ReceiveDrop id string nat
  | Req_ResolveDispute id resolution "string option" "string option"
  | Req_StartSession start_session_dto
  | Req_CloseSession id nat
  | Req_SubmitReconciliation id string "string option"
  | Req_CreateClose string
  | Req_LockClose id nat

datatype seat_snapshot = Table_seat session_status nat | Room_seat session_status nat

record bill_line_dto =
  bld_orderItemId :: "id option"
  bld_itemName :: string
  bld_quantity :: nat
  bld_unitPrice :: decimal
  bld_lineTotal :: decimal
  bld_chargeStatus :: string

record bill_dto =
  bd_billId :: id
  bd_tableSessionId :: "id option"
  bd_roomSessionId :: "id option"
  bd_billNumber :: string
  bd_isVip :: bool
  bd_status :: bill_status
  bd_subtotal :: decimal
  bd_total :: decimal
  bd_amountPaid :: decimal
  bd_generatedAt :: time
  bd_paidAt :: "time option"
  bd_version :: nat
  bd_lines :: "bill_line_dto list"

record payment_dto =
  pd_paymentId :: id
  pd_method :: pay_method
  pd_status :: string
  pd_amount :: decimal
  pd_transferChannel :: "string option"
  pd_collector :: id
  pd_settledAt :: "time option"

record payment_res =
  pr_payment :: payment_dto
  pr_change :: "decimal option"
  pr_tip :: "decimal option"
  pr_verifiedAmount :: "decimal option"
  pr_remaining :: decimal
  pr_billId :: id
  pr_billStatus :: bill_status
  pr_amountPaid :: decimal
  pr_billVersion :: nat
  pr_seat :: seat_snapshot

record order_item_dto =
  oid_orderItemId :: id
  oid_itemName :: string
  oid_quantity :: nat
  oid_unitPrice :: decimal
  oid_state :: item_state
  oid_version :: nat
  oid_stationId :: id
  oid_instruction :: "string option"
  oid_delayed :: bool
  oid_modifiers :: "(string \<times> decimal) list"

record order_res =
  or_orderId :: id
  or_tableSessionId :: "id option"
  or_roomSessionId :: "id option"
  or_confirmedAt :: time
  or_items :: "order_item_dto list"
  or_seat :: seat_snapshot

record drop_dto =
  dd_cashDropId :: id
  dd_declared :: decimal
  dd_status :: drop_status
  dd_initiatedAt :: time
  dd_receivedAt :: "time option"
  dd_businessDate :: date
  dd_counted :: "decimal option"
  dd_resolution :: "decimal option"
  dd_version :: nat
  dd_variance :: "decimal option"
  dd_disputeId :: "id option"
  dd_disputeStatus :: "dispute_status option"

record receive_res =
  rv_cashDropId :: id
  rv_status :: drop_status
  rv_declared :: decimal
  rv_counted :: decimal
  rv_accepted :: "decimal option"
  rv_variance :: "decimal option"
  rv_disputeId :: "id option"
  rv_receivedAt :: "time option"
  rv_version :: nat

record session_dto =
  sd_tableSessionId :: id
  sd_tableId :: id
  sd_status :: session_status
  sd_sessionKind :: session_kind
  sd_customerName :: "string option"
  sd_customerPhone :: "string option"
  sd_primaryWaiter :: id
  sd_guestCount :: "nat option"
  sd_openedAt :: time
  sd_closedAt :: "time option"
  sd_businessDate :: date
  sd_version :: nat
  sd_mine :: bool

record reconciliation_dto =
  rd_reconciliationId :: id
  rd_financialSession :: id
  rd_expected :: decimal
  rd_counted :: decimal
  rd_variance :: decimal
  rd_status :: string
  rd_comment :: "string option"
  rd_submittedAt :: time
  rd_review :: "(time option \<times> string option \<times> id option) option"
  rd_version :: nat

record close_dto =
  xd_closeId :: id
  xd_businessDate :: date
  xd_status :: string
  xd_totals :: close_totals
  xd_waiters :: "waiter_line list"
  xd_stations :: "station_line list"
  xd_ready :: bool
  xd_blockers :: "blocker list"
  xd_approvedAt :: "time option"
  xd_lockedAt :: "time option"
  xd_version :: nat

datatype response =
    Res_BillRequest id request_status time seat_snapshot
  | Res_Bill bill_dto
  | Res_Payment payment_res
  | Res_BankReference id id string decimal
  | Res_Order order_res
  | Res_Drop drop_dto
  | Res_Receive receive_res
  | Res_Session session_dto
  | Res_Reconciliation reconciliation_dto
  | Res_Close close_dto
  | Res_Lock id string date "time option" "id option" nat

record idempotency_row =
  ik_tenantId :: id
  ik_actorUser :: id
  ik_command :: string
  ik_key :: string
  ik_requestHash :: string
  ik_resourceId :: id
  ik_response :: "response option"

section \<open>Notifications and timers\<close>

text \<open>The socket rooms of \<open>src/realtime/ops-rooms.ts\<close>.\<close>

datatype room =
    Staff_room id | Branch_room id | Cashier_room id | Manager_room id | Station_room id
  | Tenant_room id

record notice =
  nt_type :: string
  nt_recipient :: "id option"
  nt_rooms :: "room list"
  nt_entity :: id

datatype effect =
    Notify notice
  | Broadcast notice
  | Notify_cashiers notice
  | Notify_waiters notice
  | Schedule_timers id nat nat
  | Cancel_unacknowledged_timer id
  | Cancel_all_timers id

section \<open>The database\<close>

record db =
  dining_tables :: "dining_table list"
  table_sessions :: "table_session list"
  room_sessions :: "room_session list"
  hotel_rooms :: "hotel_room list"
  room_stays :: "room_stay list"
  meal_entitlements :: "meal_entitlement list"
  room_coverages :: "room_coverage list"
  outside_orders :: "outside_order list"
  orders :: "order_row list"
  order_items :: "order_item list"
  bill_requests :: "bill_request list"
  bills :: "bill list"
  payments :: "payment list"
  receipts :: "transfer_receipt list"
  cash_drops :: "cash_drop list"
  cash_disputes :: "cash_dispute list"
  cash_ledger :: "ledger_entry list"
  financial_sessions :: "financial_session list"
  shift_sessions :: "shift_session list"
  shift_definitions :: "shift_definition list"
  shift_assignments :: "shift_assignment list"
  staff_day_shifts :: "staff_day_shift list"
  table_coverages :: "table_coverage list"
  memberships :: "membership list"
  reconciliations :: "reconciliation list"
  idempotency :: "idempotency_row list"
  menu_items :: "menu_item list"
  overrides :: "availability_override list"
  stations :: "station list"
  branches :: "branch list"
  branch_config :: "branch_settings list"
  tenant_config :: "tenant_settings list"
  daily_closes :: "daily_close list"
  cancellation_requests :: "cancellation_request list"
  change_requests :: "change_request list"
  production_exceptions :: "production_exception list"
  table_assignments :: "table_assignment list"
  locations :: "inventory_location list"
  ingredients :: "ingredient list"
  recipes :: "recipe_line list"
  conversions :: "unit_conversion list"
  stock :: "stock_balance list"
  stock_ledger :: "stock_entry list"
  counts :: "count_session list"
  vendors :: "vendor list"
  drivers :: "driver list"
  transfers :: "transfer list"
  supply_requests :: "supply_request list"
  push_drops :: "push_drop list"
  production_batches :: "production_batch list"
  files :: "id list"
  audits :: "audit_event list"
  effects :: "effect list"
  next_id :: id

definition empty_db :: db where
  "empty_db = \<lparr>dining_tables = [], table_sessions = [], room_sessions = [], hotel_rooms = [],
     room_stays = [], meal_entitlements = [], room_coverages = [],
     outside_orders = [], orders = [], order_items = [], bill_requests = [], bills = [],
     payments = [], receipts = [], cash_drops = [], cash_disputes = [], cash_ledger = [],
     financial_sessions = [], shift_sessions = [], shift_definitions = [], shift_assignments = [],
     staff_day_shifts = [], table_coverages = [],
     memberships = [], reconciliations = [], idempotency = [], menu_items = [],
     overrides = [], stations = [], branches = [], branch_config = [], tenant_config = [],
     daily_closes = [], cancellation_requests = [], change_requests = [],
     production_exceptions = [], table_assignments = [], locations = [], ingredients = [],
     recipes = [], conversions = [], stock = [], stock_ledger = [], counts = [],
     vendors = [], drivers = [], transfers = [], supply_requests = [], push_drops = [],
     production_batches = [], files = [],
     audits = [], effects = [], next_id = 1\<rparr>"

definition emit :: "effect \<Rightarrow> db \<Rightarrow> db" where
  "emit e d = d\<lparr>effects := effects d @ [e]\<rparr>"

section \<open>Constraints of the migrations\<close>

definition storable_states :: "item_state list" where
  "storable_states = [CONFIRMED, QUEUED, ACKNOWLEDGED, IN_PREPARATION, READY, SERVED,
     CANCELLATION_REQUESTED, CANCELLED, CHANGE_REQUESTED, BLOCKED, REJECTED_BY_STATION]"

definition storable_dispute :: "dispute_status list" where
  "storable_dispute = [DS_OPEN, DS_RESOLVED_ACCEPT_COUNTED, DS_RESOLVED_ACCEPT_DECLARED,
     DS_RESOLVED_OTHER]"

definition storable_entry_types :: "string list" where
  "storable_entry_types = [''CASH_PAYMENT_COLLECTED'', ''CASH_DROP_OUT'', ''OPENING_FLOAT'', ''CASH_DROP_IN'',
     ''APPROVED_ADJUSTMENT'', ''SAFE_DROP_OUT'', ''HANDOVER_OUT'', ''WAITER_HANDOVER_OUT'', ''WAITER_HANDOVER_IN'']"

definition storable_source_types :: "string list" where
  "storable_source_types = [''PAYMENT'', ''CASH_DROP'', ''FINANCIAL_SESSION'', ''ADJUSTMENT'', ''SHIFT_HANDOVER'',
     ''WAITER_SHIFT_HANDOVER'']"

definition ts_open :: "table_session \<Rightarrow> bool" where
  "ts_open s \<longleftrightarrow> ts_closedAt s = None \<and> ts_status s \<noteq> S_CLOSED"

definition billed_items :: "bill list \<Rightarrow> id list" where
  "billed_items bs = concat (map (\<lambda>b. List.map_filter ln_orderItemId (bl_lines b)) bs)"

definition keyed :: "('r \<Rightarrow> bool) \<Rightarrow> ('r \<Rightarrow> 'k) \<Rightarrow> 'r list \<Rightarrow> bool" where
  "keyed P key rs \<longleftrightarrow> distinct (map key (filter P rs))"

abbreviation primary_key :: "('r \<Rightarrow> 'k) \<Rightarrow> 'r list \<Rightarrow> bool" where
  "primary_key \<equiv> keyed (\<lambda>_. True)"

definition db_constraints :: "(string \<times> (db \<Rightarrow> bool)) list" where
  "db_constraints =
   [(''table_sessions_pkey'', \<lambda>d. primary_key ts_id (table_sessions d)),
    (''room_sessions_pkey'', \<lambda>d. primary_key rs_id (room_sessions d)),
    (''orders_pkey'', \<lambda>d. primary_key od_id (orders d)),
    (''order_items_pkey'', \<lambda>d. primary_key oi_id (order_items d)),
    (''bill_requests_pkey'', \<lambda>d. primary_key br_id (bill_requests d)),
    (''bills_pkey'', \<lambda>d. primary_key bl_id (bills d)),
    (''payments_pkey'', \<lambda>d. primary_key py_id (payments d)),
    (''cash_drops_pkey'', \<lambda>d. primary_key cd_id (cash_drops d)),
    (''cash_drop_disputes_pkey'', \<lambda>d. primary_key dp_id (cash_disputes d)),
    (''uq_table_sessions__one_active_per_table'',
       \<lambda>d. keyed ts_open ts_tableId (table_sessions d)),
    (''ck_order_items__state'',
       \<lambda>d. list_all (\<lambda>i. List.member storable_states (oi_state i)) (order_items d)),
    (''ck_order_items__quantity'', \<lambda>d. list_all (\<lambda>i. 0 < oi_quantity i) (order_items d)),
    (''ck_order_items__price'', \<lambda>d. list_all (\<lambda>i. 0 \<le> oi_unitPrice i) (order_items d)),
    (''uq_bill_requests__one_pending'',
       \<lambda>d. keyed (\<lambda>r. br_status r = R_PENDING \<and> br_tableSessionId r \<noteq> None) br_tableSessionId
             (bill_requests d)),
    (''bills_table_session_id_key'',
       \<lambda>d. keyed (\<lambda>b. bl_tableSessionId b \<noteq> None) bl_tableSessionId (bills d)),
    (''bills_room_session_id_key'',
       \<lambda>d. keyed (\<lambda>b. bl_roomSessionId b \<noteq> None) bl_roomSessionId (bills d)),
    (''uq_bills__branch_number'',
       \<lambda>d. primary_key (\<lambda>b. (bl_branchId b, bl_billNumber b)) (bills d)),
    (''ck_bills__amounts'',
       \<lambda>d. list_all (\<lambda>b. 0 \<le> bl_subtotal b \<and> 0 \<le> bl_cancelled b \<and> 0 \<le> bl_total b \<and>
              0 \<le> bl_amountPaid b) (bills d)),
    (''uq_bill_lines__order_item'', \<lambda>d. distinct (billed_items (bills d))),
    (''ck_payments__amount'', \<lambda>d. list_all (\<lambda>p. 0 < py_amount p) (payments d)),
    (''ck_cash_drops__declared'', \<lambda>d. list_all (\<lambda>c. 0 < cd_declared c) (cash_drops d)),
    (''ck_cash_drop_disputes__status'',
       \<lambda>d. list_all (\<lambda>c. List.member storable_dispute (dp_status c)) (cash_disputes d)),
    (''cash_drop_disputes_cash_drop_id_key'',
       \<lambda>d. primary_key dp_cashDropId (cash_disputes d)),
    (''ck_cash_ledger_entries__nonzero'',
       \<lambda>d. list_all (\<lambda>e. le_amountDelta e \<noteq> 0) (cash_ledger d)),
    (''ck_cash_ledger_entries__entry_type'',
       \<lambda>d. list_all (\<lambda>e. List.member storable_entry_types (le_entryType e)) (cash_ledger d)),
    (''ck_cash_ledger_entries__source_type'',
       \<lambda>d. list_all (\<lambda>e. List.member storable_source_types (le_sourceType e)) (cash_ledger d)),
    (''uq_cash_ledger_entries__source_effect_waiter'',
       \<lambda>d. keyed (\<lambda>e. le_waiterShift e \<noteq> None)
             (\<lambda>e. (le_sourceType e, le_sourceId e, le_entryType e, le_waiterShift e))
             (cash_ledger d)),
    (''uq_cash_ledger_entries__source_effect_cashier'',
       \<lambda>d. keyed (\<lambda>e. le_financialSession e \<noteq> None)
             (\<lambda>e. (le_sourceType e, le_sourceId e, le_entryType e, le_financialSession e))
             (cash_ledger d)),
    (''cashier_financial_sessions_shift_session_id_key'',
       \<lambda>d. primary_key fs_shiftSessionId (financial_sessions d)),
    (''cashier_financial_sessions_pkey'', \<lambda>d. primary_key fs_id (financial_sessions d)),
    (''uq_cashier_financial_sessions__one_open'',
       \<lambda>d. keyed (\<lambda>f. fs_closedAt f = None \<and> fs_status f \<noteq> F_CLOSED) (\<lambda>f. (fs_cashier f, fs_branchId f))
             (financial_sessions d)),
    (''ck_cashier_financial_sessions__float'',
       \<lambda>d. list_all (\<lambda>f. 0 \<le> fs_openingFloat f) (financial_sessions d)),
    (''cashier_reconciliations_cashier_financial_session_id_key'',
       \<lambda>d. primary_key rn_financialSession (reconciliations d)),
    (''ck_cashier_reconciliations__status'',
       \<lambda>d. list_all (\<lambda>r. rn_status r \<in> set [''SUBMITTED'', ''APPROVED'', ''FLAGGED'', ''RESOLVED'']) (reconciliations d)),
    (''uq_operational_daily_closes__branch_business_date'',
       \<lambda>d. primary_key (\<lambda>c. (dc_branchId c, dc_businessDate c)) (daily_closes d)),
    (''operational_daily_closes_pkey'', \<lambda>d. primary_key dc_id (daily_closes d)),
    (''ck_operational_daily_closes__status'',
       \<lambda>d. list_all (\<lambda>c. dc_status c \<in> set [''DRAFT'', ''READY_FOR_REVIEW'', ''APPROVED'', ''LOCKED'']) (daily_closes d)),
    (''ck_table_sessions__guest_count'',
       \<lambda>d. list_all (\<lambda>s. ts_guestCount s \<noteq> Some 0) (table_sessions d)),
    (''uq_dining_table_shift_coverages__table_shift_day'',
       \<lambda>d. primary_key (\<lambda>r. (tc_tableId r, tc_definition r, tc_dayCode r)) (table_coverages d)),
    (''dining_tables_pkey'', \<lambda>d. primary_key dt_id (dining_tables d)),
    (''ck_dining_tables__status'',
       \<lambda>d. list_all (\<lambda>t. dt_status t \<in> set [''AVAILABLE'', ''OCCUPIED'', ''INACTIVE'']) (dining_tables d)),
    (''hotel_rooms_pkey'', \<lambda>d. primary_key hr_id (hotel_rooms d)),
    (''uq_hotel_rooms__branch_number'',
       \<lambda>d. primary_key (\<lambda>r. (hr_branchId r, hr_roomNumber r)) (hotel_rooms d)),
    (''room_stays_pkey'', \<lambda>d. primary_key sy_id (room_stays d)),
    (''stay_meal_entitlements_pkey'', \<lambda>d. primary_key me_id (meal_entitlements d)),
    (''uq_stay_meal_entitlements__stay_meal_date'',
       \<lambda>d. primary_key (\<lambda>m. (me_stayId m, me_mealType m, me_businessDate m)) (meal_entitlements d)),
    (''uq_room_floor_coverages__branch_floor_waiter_shift'',
       \<lambda>d. keyed (\<lambda>r. fc_definition r \<noteq> None)
             (\<lambda>r. (fc_branchId r, fc_floor r, fc_waiter r, fc_definition r)) (room_coverages d)),
    (''inventory_transfers_pkey'', \<lambda>d. primary_key it_id (transfers d)),
    (''inventory_transfers_supply_request_id_key'',
       \<lambda>d. keyed (\<lambda>t. it_supplyRequest t \<noteq> None) it_supplyRequest (transfers d)),
    (''inventory_supply_requests_pkey'', \<lambda>d. primary_key sq_id (supply_requests d)),
    (''inventory_locations_pkey'', \<lambda>d. primary_key lo_id (locations d)),
    (''uq_inventory_locations__tenant_code'',
       \<lambda>d. primary_key (\<lambda>l. (lo_tenantId l, lo_code l)) (locations d)),
    (''shift_sessions_pkey'', \<lambda>d. primary_key sh_id (shift_sessions d)),
    (''uq_shift_sessions__one_open_per_staff_branch'',
       \<lambda>d. keyed (\<lambda>s. sh_clockOutAt s = None \<and> sh_state s \<noteq> ''CLOSED'') (\<lambda>s. (sh_staff s, sh_branchId s))
             (shift_sessions d)),
    (''cancellation_requests_pkey'', \<lambda>d. primary_key cr_id (cancellation_requests d)),
    (''order_change_requests_pkey'', \<lambda>d. primary_key ch_id (change_requests d)),
    (''uq_order_change_requests__one_pending'',
       \<lambda>d. keyed (\<lambda>r. ch_status r = A_PENDING) ch_orderItemId (change_requests d)),
    (''uq_cancellation_requests__one_pending'',
       \<lambda>d. keyed (\<lambda>r. cr_status r = A_PENDING) cr_orderItemId (cancellation_requests d)),
    (''uq_idempotency_commands__actor_key'',
       \<lambda>d. primary_key (\<lambda>r. (ik_tenantId r, ik_actorUser r, ik_command r, ik_key r))
             (idempotency d))]"

definition db_ok :: "db \<Rightarrow> bool" where
  "db_ok d \<longleftrightarrow> list_all (\<lambda>(n, c). c d) db_constraints"

definition commit :: "db \<Rightarrow> db result" where
  "commit d = (case find (\<lambda>(n, c). \<not> c d) db_constraints of
      None \<Rightarrow> Inr d
    | Some (n, c) \<Rightarrow> Inl (DbError n))"

lemma commit_eq_Inr [inversion]: "commit d = Inr d' \<longleftrightarrow> d' = d \<and> db_ok d"
proof (cases "find (\<lambda>(n, c). \<not> c d) db_constraints")
  case None
  then have "db_ok d" by (auto simp: db_ok_def find_None_iff list_all_iff)
  with None show ?thesis by (auto simp: commit_def)
next
  case (Some nc)
  then have "nc \<in> set db_constraints" and "\<not> (case nc of (n, c) \<Rightarrow> c d)"
    by (auto dest: find_Some_in)
  then have "\<not> db_ok d" by (auto simp: db_ok_def list_all_iff)
  with Some show ?thesis by (cases nc) (simp add: commit_def)
qed

text \<open>A notification touches no table.\<close>

lemma emit_frame [frame, simp]:
  "bills (emit x d) = bills d" "payments (emit x d) = payments d" "order_items (emit x d) = order_items d"
  "orders (emit x d) = orders d" "bill_requests (emit x d) = bill_requests d"
  "table_sessions (emit x d) = table_sessions d" "room_sessions (emit x d) = room_sessions d"
  "idempotency (emit x d) = idempotency d" "cash_drops (emit x d) = cash_drops d"
  "cash_disputes (emit x d) = cash_disputes d" "cash_ledger (emit x d) = cash_ledger d"
  "cancellation_requests (emit x d) = cancellation_requests d"
  "change_requests (emit x d) = change_requests d" "stock (emit x d) = stock d"
  "stock_ledger (emit x d) = stock_ledger d" "locations (emit x d) = locations d"
  "overrides (emit x d) = overrides d" "menu_items (emit x d) = menu_items d"
  "shift_sessions (emit x d) = shift_sessions d"
  "branches (emit x d) = branches d"
  "daily_closes (emit x d) = daily_closes d"
  "memberships (emit x d) = memberships d"
  "reconciliations (emit x d) = reconciliations d"
  "audits (emit x d) = audits d"
  "financial_sessions (emit x d) = financial_sessions d"
  "dining_tables (emit x d) = dining_tables d"
  "table_assignments (emit x d) = table_assignments d"
  "table_coverages (emit x d) = table_coverages d"
  "room_stays (emit x d) = room_stays d" "hotel_rooms (emit x d) = hotel_rooms d"
  "meal_entitlements (emit x d) = meal_entitlements d"
  "transfers (emit x d) = transfers d" "supply_requests (emit x d) = supply_requests d"
  "shift_assignments (emit x d) = shift_assignments d"
  "next_id (emit x d) = next_id d" "effects (emit x d) = effects d @ [x]"
  by (simp_all add: emit_def)

lemma db_ok_emit [simp]: "db_ok (emit x d) \<longleftrightarrow> db_ok d"
  by (simp add: db_ok_def db_constraints_def emit_def)

lemma commit_ok: "db_ok d \<Longrightarrow> commit d = Inr d"
  by (simp add: commit_eq_Inr)

text \<open>Each constraint by itself, for use as a destruction rule.\<close>

lemma db_okD:
  assumes "db_ok d"
  shows "primary_key ts_id (table_sessions d)" and "primary_key rs_id (room_sessions d)"
    and "primary_key oi_id (order_items d)" and "primary_key br_id (bill_requests d)"
    and "primary_key bl_id (bills d)" and "primary_key py_id (payments d)"
    and "primary_key cd_id (cash_drops d)" and "primary_key dp_id (cash_disputes d)"
    and "keyed ts_open ts_tableId (table_sessions d)"
    and "\<And>i. i \<in> set (order_items d) \<Longrightarrow> List.member storable_states (oi_state i)"
    and "\<And>b. b \<in> set (bills d) \<Longrightarrow> 0 \<le> bl_amountPaid b \<and> 0 \<le> bl_total b"
    and "\<And>p. p \<in> set (payments d) \<Longrightarrow> 0 < py_amount p"
    and "\<And>c. c \<in> set (cash_drops d) \<Longrightarrow> 0 < cd_declared c"
    and "\<And>c. c \<in> set (cash_disputes d) \<Longrightarrow> List.member storable_dispute (dp_status c)"
    and "\<And>e. e \<in> set (cash_ledger d) \<Longrightarrow> le_amountDelta e \<noteq> 0"
    and "keyed (\<lambda>b. bl_tableSessionId b \<noteq> None) bl_tableSessionId (bills d)"
    and "keyed (\<lambda>r. cr_status r = A_PENDING) cr_orderItemId (cancellation_requests d)"
    and "primary_key cr_id (cancellation_requests d)" and "primary_key ch_id (change_requests d)"
    and "keyed (\<lambda>r. ch_status r = A_PENDING) ch_orderItemId (change_requests d)"
    and "\<And>e. e \<in> set (cash_ledger d) \<Longrightarrow> List.member storable_entry_types (le_entryType e)"
    and "\<And>e. e \<in> set (cash_ledger d) \<Longrightarrow> List.member storable_source_types (le_sourceType e)"
    and "primary_key fs_shiftSessionId (financial_sessions d)" and "primary_key fs_id (financial_sessions d)"
    and "primary_key rn_financialSession (reconciliations d)" and "primary_key sh_id (shift_sessions d)"
    and "primary_key dc_id (daily_closes d)"
    and "primary_key (\<lambda>c. (dc_branchId c, dc_businessDate c)) (daily_closes d)"
    and "primary_key (\<lambda>r. (tc_tableId r, tc_definition r, tc_dayCode r)) (table_coverages d)"
    and "primary_key dt_id (dining_tables d)"
    and "primary_key hr_id (hotel_rooms d)" and "primary_key sy_id (room_stays d)"
    and "primary_key me_id (meal_entitlements d)" and "primary_key it_id (transfers d)"
    and "primary_key (\<lambda>m. (me_stayId m, me_mealType m, me_businessDate m)) (meal_entitlements d)"
    and "primary_key sq_id (supply_requests d)" and "primary_key lo_id (locations d)"
    and "keyed (\<lambda>s. sh_clockOutAt s = None \<and> sh_state s \<noteq> ''CLOSED'') (\<lambda>s. (sh_staff s, sh_branchId s)) (shift_sessions d)"
    and "primary_key dp_cashDropId (cash_disputes d)"
    and "keyed (\<lambda>e. le_waiterShift e \<noteq> None)
           (\<lambda>e. (le_sourceType e, le_sourceId e, le_entryType e, le_waiterShift e)) (cash_ledger d)"
    and "keyed (\<lambda>e. le_financialSession e \<noteq> None)
           (\<lambda>e. (le_sourceType e, le_sourceId e, le_entryType e, le_financialSession e)) (cash_ledger d)"
  by (insert assms [unfolded db_ok_def db_constraints_def list.pred_inject case_prod_conv, unfolded list_all_iff],
      (elim conjE, (assumption | erule (1) bspec | (drule (1) bspec, elim conjE, intro conjI; assumption)))+)

lemma primary_keyD: "primary_key key rs \<Longrightarrow> distinct (map key rs)"
  by (simp add: keyed_def)

end
