(* ===== verification/Access.thy ===== *)
theory Access
  imports Database
begin

text \<open>
  Who may do what: the rules \<open>src/casl/casl-ability.factory.ts\<close> builds from the caller's role
  and permission codes, \<open>can\<close> and \<open>assertCan\<close> of \<open>src/casl/casl.service.ts\<close>, and the guards
  every service starts with. The surroundings of a call (\<open>env\<close>) hold what lies outside the
  repository: the clock, the server's time zone, SHA-256, the parser of decimal texts, the
  bank verification service and the rule matcher of the package @casl/ability.

  The locale \<open>ability_service\<close> states what the package documents of that matcher
  (\<open>manage\<close> stands for every action, \<open>all\<close> for every subject); \<open>casl_can\<close> is the function
  with exactly that behaviour.
\<close>

section \<open>Actions, subjects and the caller\<close>

datatype app_action =
  Act_manage | Act_create | Act_read | Act_update | Act_delete | Act_request |
  Act_generate | Act_collect | Act_extract | Act_initiate | Act_receive | Act_resolve |
  Act_reconcile | Act_prepare | Act_approve | Act_lock | Act_operate | Act_acknowledge |
  Act_start_prep | Act_mark_ready | Act_report_cannot | Act_serve | Act_send_kitchen |
  Act_override | Act_assign | Act_issue | Act_return

datatype app_subject =
  Sub_all | Sub_Menu | Sub_Catalog | Sub_Site | Sub_Inventory | Sub_Order |
  Sub_WaiterMenu | Sub_Bill | Sub_BillQueue | Sub_Payment | Sub_Receipt | Sub_CashDrop |
  Sub_CashPouch | Sub_CashierDrawer | Sub_Table | Sub_Floor | Sub_Room | Sub_RoomStay |
  Sub_RoomSession | Sub_Station | Sub_Staff | Sub_Shift | Sub_Report | Sub_Dashboard |
  Sub_DailyClose | Sub_Audit | Sub_WaiterPerformance | Sub_Approval | Sub_QrMenuAdmin |
  Sub_InventoryMaterial | Sub_OutsideOrder | Sub_Finance

text \<open>\<open>AuthContextDto\<close>, what \<open>IdentityContextService.getByUserId\<close> resolves a user to.\<close>

record auth_ctx =
  ax_userId :: id
  ax_tenantId :: "id option"
  ax_branchId :: "id option"
  ax_staffMembershipId :: "id option"
  ax_roleCode :: string
  ax_stationId :: "id option"
  ax_shiftSessionId :: "id option"
  ax_permissions :: "string list"

text \<open>The ids behind the non-null assertions \<open>context.tenantId!\<close> and its like.\<close>

abbreviation tenant_of :: "auth_ctx \<Rightarrow> id" where "tenant_of c \<equiv> the (ax_tenantId c)"
abbreviation branch_of :: "auth_ctx \<Rightarrow> id" where "branch_of c \<equiv> the (ax_branchId c)"
abbreviation staff_of :: "auth_ctx \<Rightarrow> id" where "staff_of c \<equiv> the (ax_staffMembershipId c)"
abbreviation shift_of :: "auth_ctx \<Rightarrow> id" where "shift_of c \<equiv> the (ax_shiftSessionId c)"

record verify_request =
  vq_bank :: string
  vq_reference :: "string option"
  vq_accountSuffix :: "string option"
  vq_phoneNumber :: "string option"
  vq_idempotencyKey :: "id \<times> string"
  vq_fileId :: id

record verify_reply =
  vr_verified :: bool
  vr_confirmedBefore :: "bool option"
  vr_isFirstConfirmation :: "bool option"
  vr_timestamp :: "time option"
  vr_amount :: "decimal option"
  vr_reference :: "string option"

record env =
  env_now :: time
  env_tzOffset :: int
  env_hash :: "request \<Rightarrow> string"
  env_pinOk :: "string \<Rightarrow> string \<Rightarrow> bool"
  env_decimal :: "string \<Rightarrow> decimal"
  env_verifyEnabled :: bool
  env_verify :: "verify_request \<Rightarrow> verify_reply"
  env_ability :: "(app_action \<times> app_subject) list \<Rightarrow> app_action \<Rightarrow> app_subject \<Rightarrow> bool"

section \<open>The rule matcher\<close>

locale ability_service =
  fixes ability :: "(app_action \<times> app_subject) list \<Rightarrow> app_action \<Rightarrow> app_subject \<Rightarrow> bool"
  assumes ability_iff: "ability rules a s \<longleftrightarrow>
    (\<exists>(ra, rs) \<in> set rules. (ra = Act_manage \<or> ra = a) \<and> (rs = Sub_all \<or> rs = s))"
begin

lemma no_rules: "\<not> ability [] a s"
  by (simp add: ability_iff)

lemma manage_all: "(Act_manage, Sub_all) \<in> set rules \<Longrightarrow> ability rules a s"
  by (auto simp: ability_iff)

lemma granted: "(a, s) \<in> set rules \<Longrightarrow> ability rules a s"
  by (auto simp: ability_iff)

lemma manage_grants: "(Act_manage, s) \<in> set rules \<Longrightarrow> ability rules a s"
  by (auto simp: ability_iff)

lemma ability_mono: "set rules \<subseteq> set rules' \<Longrightarrow> ability rules a s \<Longrightarrow> ability rules' a s"
  by (auto simp: ability_iff)

lemma ability_append: "ability (rules @ rules') a s \<longleftrightarrow> ability rules a s \<or> ability rules' a s"
  by (auto simp: ability_iff)

end

definition casl_can :: "(app_action \<times> app_subject) list \<Rightarrow> app_action \<Rightarrow> app_subject \<Rightarrow> bool" where
  "casl_can rules a s =
     list_ex (\<lambda>(ra, rs). (ra = Act_manage \<or> ra = a) \<and> (rs = Sub_all \<or> rs = s)) rules"

interpretation casl: ability_service casl_can
  by unfold_locales (simp add: casl_can_def list_ex_iff)

section \<open>CaslAbilityFactory\<close>

definition permission_map :: "(string \<times> app_action \<times> app_subject) list" where
  "permission_map =
  [
   (''table.start_session'', (Act_manage, Sub_Table)),
   (''table.view_assigned'', (Act_manage, Sub_Table)),
   (''table.view_all'', (Act_manage, Sub_Table)),
   (''table.reassign'', (Act_manage, Sub_Table)),
   (''table.close_paid'', (Act_manage, Sub_Table)),
   (''floor.manage'', (Act_manage, Sub_Floor)), (''rooms.admin'', (Act_manage, Sub_Room)),
   (''rooms.operate'', (Act_operate, Sub_RoomStay)),
   (''rooms.read'', (Act_read, Sub_Room)), (''order.create'', (Act_create, Sub_Order)),
   (''order.confirm'', (Act_create, Sub_Order)),
   (''order.change_eligible'', (Act_update, Sub_Order)),
   (''order.cancel_eligible'', (Act_update, Sub_Order)),
   (''order.request_protected_cancel'', (Act_update, Sub_Order)),
   (''order.update'', (Act_update, Sub_Order)), (''order.serve'', (Act_serve, Sub_Order)),
   (''order.send_kitchen'', (Act_send_kitchen, Sub_Order)),
   (''waiter_menu.read'', (Act_read, Sub_WaiterMenu)),
   (''station.acknowledge'', (Act_acknowledge, Sub_Station)),
   (''station.start_preparation'', (Act_start_prep, Sub_Station)),
   (''station.mark_ready'', (Act_mark_ready, Sub_Station)),
   (''station.report_cannot_prepare'', (Act_report_cannot, Sub_Station)),
   (''station.operate'', (Act_operate, Sub_Station)),
   (''station.read'', (Act_read, Sub_Station)),
   (''station.manage'', (Act_manage, Sub_Station)),
   (''bill.request'', (Act_request, Sub_Bill)),
   (''bill.generate'', (Act_generate, Sub_Bill)),
   (''bill.queue_read'', (Act_read, Sub_BillQueue)),
   (''payment.collect_cash'', (Act_collect, Sub_Payment)),
   (''payment.verify_transfer'', (Act_collect, Sub_Payment)),
   (''payment.settle'', (Act_collect, Sub_Payment)),
   (''payment.exception_override'', (Act_override, Sub_Payment)),
   (''payment.read'', (Act_read, Sub_Payment)),
   (''receipt.extract'', (Act_extract, Sub_Receipt)),
   (''cash_drop.initiate'', (Act_initiate, Sub_CashDrop)),
   (''cash_drop.receive'', (Act_receive, Sub_CashDrop)),
   (''cash_drop.resolve_dispute'', (Act_resolve, Sub_CashDrop)),
   (''cash_drop.read'', (Act_read, Sub_CashDrop)),
   (''cash_pouch.read'', (Act_read, Sub_CashPouch)),
   (''cashier.reconcile'', (Act_reconcile, Sub_CashierDrawer)),
   (''menu.manage'', (Act_manage, Sub_Menu)),
   (''catalog.manage'', (Act_manage, Sub_Catalog)),
   (''site.manage'', (Act_manage, Sub_Site)),
   (''inventory.manage'', (Act_manage, Sub_Inventory)),
   (''inventory.view'', (Act_read, Sub_Inventory)),
   (''inventory.receive_purchase'', (Act_receive, Sub_Inventory)),
   (''inventory.transfer.send'', (Act_initiate, Sub_Inventory)),
   (''inventory.transfer.receive'', (Act_receive, Sub_Inventory)),
   (''inventory.supply.request'', (Act_request, Sub_Inventory)),
   (''inventory.supply.approve'', (Act_approve, Sub_Inventory)),
   (''inventory.produce'', (Act_create, Sub_Inventory)),
   (''inventory.location.manage'', (Act_manage, Sub_Inventory)),
   (''inventory.material.manage'', (Act_manage, Sub_InventoryMaterial)),
   (''inventory.material.read'', (Act_read, Sub_InventoryMaterial)),
   (''inventory.material.issue'', (Act_issue, Sub_InventoryMaterial)),
   (''inventory.material.return'', (Act_return, Sub_InventoryMaterial)),
   (''inventory.material.approve'', (Act_approve, Sub_InventoryMaterial)),
   (''staff.manage'', (Act_manage, Sub_Staff)),
   (''shift.manage'', (Act_manage, Sub_Shift)),
   (''approval.manage'', (Act_manage, Sub_Approval)),
   (''report.view'', (Act_read, Sub_Report)),
   (''report.manage'', (Act_manage, Sub_Report)),
   (''dashboard.manage'', (Act_manage, Sub_Dashboard)),
   (''waiter_performance.manage'', (Act_manage, Sub_WaiterPerformance)),
   (''qr_menu.manage'', (Act_manage, Sub_QrMenuAdmin)),
   (''finance.summary.read'', (Act_read, Sub_Finance)),
   (''finance.entry.manage'', (Act_manage, Sub_Finance)),
   (''finance.category.manage'', (Act_manage, Sub_Finance)),
   (''daily_close.prepare'', (Act_prepare, Sub_DailyClose)),
   (''daily_close.approve'', (Act_approve, Sub_DailyClose)),
   (''daily_close.lock'', (Act_lock, Sub_DailyClose)),
   (''audit.view'', (Act_read, Sub_Audit)), (''audit.manage'', (Act_manage, Sub_Audit))
  ]"

definition platform_roles :: "string list" where
  "platform_roles = [''PLATFORM_SUPER_ADMIN'', ''PLATFORM_ADMIN'', ''SUPER_ADMIN'']"

definition applyPermissionStrings :: "string list \<Rightarrow> (app_action \<times> app_subject) list" where
  "applyPermissionStrings ps = List.map_filter (map_of permission_map) ps"

definition createForUser :: "auth_ctx \<Rightarrow> (app_action \<times> app_subject) list" where
  "createForUser c =
     (if List.member platform_roles (ax_roleCode c) \<or> ax_roleCode c = ''OWNER_ADMIN''
      then [(Act_manage, Sub_all)]
      else applyPermissionStrings (ax_permissions c))"

definition can :: "env \<Rightarrow> auth_ctx \<Rightarrow> app_action \<Rightarrow> app_subject \<Rightarrow> bool" where
  "can e c a s = env_ability e (createForUser c) a s"

definition assertCan ::
  "env \<Rightarrow> auth_ctx \<Rightarrow> app_action \<Rightarrow> app_subject \<Rightarrow> string \<Rightarrow> unit result" where
  "assertCan e c a s msg = (if \<not> can e c a s then Inl (Forbidden msg) else Inr ())"

lemma assertCan_eq_Inr [inversion]: "assertCan e c a s m = Inr u \<longleftrightarrow> can e c a s"
  by (simp add: assertCan_def)

section \<open>Guards shared by the services\<close>

definition requireBranch :: "auth_ctx \<Rightarrow> auth_ctx result" where
  "requireBranch c =
     (if ax_tenantId c = None \<or> ax_branchId c = None
      then Inl (Forbidden ''No restaurant branch on this account.'') else Inr c)"

definition onShift :: "auth_ctx \<Rightarrow> auth_ctx result" where
  "onShift c =
     (if ax_staffMembershipId c = None \<or> ax_shiftSessionId c = None
      then Inl (Forbidden ''SHIFT_REQUIRED'') else Inr c)"

lemma requireBranch_eq_Inr [inversion]:
  "requireBranch c = Inr c' \<longleftrightarrow> c' = c \<and> ax_tenantId c \<noteq> None \<and> ax_branchId c \<noteq> None"
  by (auto simp: requireBranch_def)

lemma onShift_eq_Inr [inversion]:
  "onShift c = Inr c' \<longleftrightarrow> c' = c \<and> ax_staffMembershipId c \<noteq> None \<and> ax_shiftSessionId c \<noteq> None"
  by (auto simp: onShift_def)

definition shift_owner_roles :: "string list" where
  "shift_owner_roles = [''WAITER'', ''DISPATCHER'']"

text \<open>\<open>DailyCloseService.assertBusinessDayNotLocked\<close>.\<close>

definition assertBusinessDayNotLocked :: "id \<Rightarrow> date \<Rightarrow> db \<Rightarrow> unit result" where
  "assertBusinessDayNotLocked b day d =
     (case find (\<lambda>c. dc_branchId c = b \<and> dc_businessDate c = day) (daily_closes d) of
        Some c \<Rightarrow> (if dc_status c = ''LOCKED'' then Inl (Unprocessable ''BUSINESS_DAY_LOCKED'') else Inr ())
      | None \<Rightarrow> Inr ())"

definition day_locked :: "id \<Rightarrow> date \<Rightarrow> db \<Rightarrow> bool" where
  "day_locked b day d \<longleftrightarrow> \<not> is_ok (assertBusinessDayNotLocked b day d)"

lemma assertBusinessDayNotLocked_eq_Inr [inversion]:
  "assertBusinessDayNotLocked b day d = Inr u \<longleftrightarrow> \<not> day_locked b day d"
  by (cases "assertBusinessDayNotLocked b day d") (simp_all add: day_locked_def)

end
