(* ===== verification/Idempotency.thy ===== *)
theory Idempotency
  imports Access
begin

text \<open>
  The idempotency table of \<open>billing.service.ts\<close>, \<open>orders.service.ts\<close>,
  \<open>cash-custody.service.ts\<close> and \<open>floor.service.ts\<close>, whose private methods
  \<open>requireIdempotencyKey\<close>, \<open>findIdempotent\<close> and \<open>storeIdempotent\<close> are the same code.
  \<open>guarded_command\<close> is the opening of every command: look the key up, replay the stored
  response, otherwise run.

  The locale \<open>idempotency_store\<close> is the contract the commands rely on; \<open>replay\<close>
  is proved from it once: a command that stored its response is not run again by a
  retry with the same key and body, and a retry with another body is refused.
\<close>

section \<open>The contract\<close>

locale idempotency_store =
  fixes find_cmd :: "'k \<Rightarrow> 'b \<Rightarrow> 's \<Rightarrow> 'r option result"
    and store_cmd :: "'k \<Rightarrow> 'b \<Rightarrow> 'r \<Rightarrow> 's \<Rightarrow> 's"
    and same :: "'b \<Rightarrow> 'b \<Rightarrow> bool"
    and mismatch :: err
  assumes find_store:
      "find_cmd k b s = Inr None \<Longrightarrow>
       find_cmd k b' (store_cmd k b r s) = (if same b b' then Inr (Some r) else Inl mismatch)"
    and find_store_other:
      "k' \<noteq> k \<Longrightarrow> find_cmd k' b' (store_cmd k b r s) = find_cmd k' b' s"
    and same_refl: "same b b"
begin

lemma stored: "find_cmd k b s = Inr None \<Longrightarrow> find_cmd k b (store_cmd k b r s) = Inr (Some r)"
  by (simp add: find_store same_refl)

lemma stored_mismatch:
  "find_cmd k b s = Inr None \<Longrightarrow> \<not> same b b' \<Longrightarrow>
     find_cmd k b' (store_cmd k b r s) = Inl mismatch"
  by (simp add: find_store)

text \<open>A later store under another key does not disturb the first.\<close>

lemma stored_other:
  "find_cmd k b s = Inr None \<Longrightarrow> k' \<noteq> k \<Longrightarrow>
     find_cmd k b (store_cmd k' b' r' (store_cmd k b r s)) = Inr (Some r)"
  by (simp add: find_store_other stored)

end

section \<open>The table\<close>

datatype command_key =
  Command_key (ck_tenant: id) (ck_actor: id) (ck_command: string) (ck_key: string)

definition row_key :: "idempotency_row \<Rightarrow> command_key" where
  "row_key r = Command_key (ik_tenantId r) (ik_actorUser r) (ik_command r) (ik_key r)"

definition command_key :: "auth_ctx \<Rightarrow> string \<Rightarrow> string \<Rightarrow> command_key" where
  "command_key c cmd key = Command_key (tenant_of c) (ax_userId c) cmd key"

definition requireIdempotencyKey :: "string option \<Rightarrow> string result" where
  "requireIdempotencyKey key =
     (case key of
        None \<Rightarrow> Inl (Unprocessable ''idempotencyKey required'')
      | Some k \<Rightarrow> if trim k = [] then Inl (Unprocessable ''idempotencyKey required'')
                   else Inr (trim k))"

definition findIdempotent ::
  "(request \<Rightarrow> string) \<Rightarrow> command_key \<Rightarrow> request \<Rightarrow> db \<Rightarrow> response option result" where
  "findIdempotent h k body d =
     (case row_by row_key k (idempotency d) of
        None \<Rightarrow> Inr None
      | Some row \<Rightarrow> if ik_requestHash row \<noteq> h body then Inl (Conflict ''reuseMismatch'')
                     else Inr (ik_response row))"

definition storeIdempotent ::
  "(request \<Rightarrow> string) \<Rightarrow> id \<Rightarrow> command_key \<Rightarrow> request \<Rightarrow> response \<Rightarrow> db \<Rightarrow> db" where
  "storeIdempotent h rid k body res d =
     (case row_by row_key k (idempotency d) of
        Some _ \<Rightarrow> d\<lparr>idempotency := update_id row_key k (\<lambda>r. r\<lparr>ik_response := Some res\<rparr>)
                    (idempotency d)\<rparr>
      | None \<Rightarrow> d\<lparr>idempotency := idempotency d @
          [\<lparr>ik_tenantId = ck_tenant k, ik_actorUser = ck_actor k, ik_command = ck_command k,
            ik_key = ck_key k, ik_requestHash = h body, ik_resourceId = rid,
            ik_response = Some res\<rparr>]\<rparr>)"

lemma row_key_response [simp]: "row_key (r\<lparr>ik_response := x\<rparr>) = row_key r"
  by (simp add: row_key_def)

lemma row_key_make:
  "row_key \<lparr>ik_tenantId = ck_tenant k, ik_actorUser = ck_actor k, ik_command = ck_command k,
     ik_key = ck_key k, ik_requestHash = h, ik_resourceId = rid, ik_response = x\<rparr> = k"
  by (simp add: row_key_def)

lemma row_by_storeIdempotent:
  "row_by row_key k' (idempotency (storeIdempotent h rid k body res d)) =
     (if k' = k then
        Some (case row_by row_key k (idempotency d) of
            Some r \<Rightarrow> r\<lparr>ik_response := Some res\<rparr>
          | None \<Rightarrow> \<lparr>ik_tenantId = ck_tenant k, ik_actorUser = ck_actor k, ik_command = ck_command k,
              ik_key = ck_key k, ik_requestHash = h body, ik_resourceId = rid,
              ik_response = Some res\<rparr>)
      else row_by row_key k' (idempotency d))"
  by (auto simp: storeIdempotent_def table_simps row_key_make split: option.splits)

interpretation idem:
  idempotency_store "findIdempotent h" "storeIdempotent h rid" "\<lambda>b b'. h b = h b'"
    "Conflict ''reuseMismatch''" for h :: "request \<Rightarrow> string" and rid :: id
proof (unfold_locales, goal_cases)
  case (1 k b s b' r)
  then show ?case
    by (auto simp: findIdempotent_def row_by_storeIdempotent split: option.splits if_splits)
next
  case (2 k' k b' b r s)
  then show ?case by (simp add: findIdempotent_def row_by_storeIdempotent)
next
  case (3 b)
  show ?case by simp
qed

text \<open>Lookups read nothing but the idempotency table, stores write nothing else.\<close>

lemma storeIdempotent_cong:
  "idempotency d = idempotency d0 \<Longrightarrow>
     idempotency (storeIdempotent h i k b r d) = idempotency (storeIdempotent h i k b r d0)"
  by (simp add: storeIdempotent_def split: option.splits)

lemma findIdempotent_cong: "idempotency d = idempotency d' \<Longrightarrow> findIdempotent h k b d = findIdempotent h k b d'"
  by (simp add: findIdempotent_def)

lemma storeIdempotent_frame [frame, simp]:
  "order_items (storeIdempotent h rid k b r d) = order_items d"
  "orders (storeIdempotent h rid k b r d) = orders d"
  "bills (storeIdempotent h rid k b r d) = bills d"
  "bill_requests (storeIdempotent h rid k b r d) = bill_requests d"
  "payments (storeIdempotent h rid k b r d) = payments d"
  "table_sessions (storeIdempotent h rid k b r d) = table_sessions d"
  "room_sessions (storeIdempotent h rid k b r d) = room_sessions d"
  "outside_orders (storeIdempotent h rid k b r d) = outside_orders d"
  "dining_tables (storeIdempotent h rid k b r d) = dining_tables d"
  "table_assignments (storeIdempotent h rid k b r d) = table_assignments d"
  "cash_drops (storeIdempotent h rid k b r d) = cash_drops d"
  "cash_disputes (storeIdempotent h rid k b r d) = cash_disputes d"
  "cash_ledger (storeIdempotent h rid k b r d) = cash_ledger d"
  "financial_sessions (storeIdempotent h rid k b r d) = financial_sessions d"
  "menu_items (storeIdempotent h rid k b r d) = menu_items d"
  "overrides (storeIdempotent h rid k b r d) = overrides d"
  "stock (storeIdempotent h rid k b r d) = stock d"
  "stock_ledger (storeIdempotent h rid k b r d) = stock_ledger d"
  "effects (storeIdempotent h rid k b r d) = effects d"
  "next_id (storeIdempotent h rid k b r d) = next_id d"
  "cancellation_requests (storeIdempotent h rid k b r d) = cancellation_requests d"
  "change_requests (storeIdempotent h rid k b r d) = change_requests d"
  "shift_sessions (storeIdempotent h rid k b r d) = shift_sessions d"
  "branches (storeIdempotent h rid k b r d) = branches d"
  "daily_closes (storeIdempotent h rid k b r d) = daily_closes d"
  "memberships (storeIdempotent h rid k b r d) = memberships d"
  "reconciliations (storeIdempotent h rid k b r d) = reconciliations d"
  "audits (storeIdempotent h rid k b r d) = audits d"
  "locations (storeIdempotent h rid k b r d) = locations d"
  "table_coverages (storeIdempotent h rid k b r d) = table_coverages d"
  "shift_assignments (storeIdempotent h rid k b r d) = shift_assignments d"
  by (simp_all add: storeIdempotent_def split: option.splits)

section \<open>Commands\<close>

definition guarded_command ::
  "env \<Rightarrow> command_key \<Rightarrow> request \<Rightarrow> (db \<Rightarrow> (response \<times> db) result) \<Rightarrow> db \<Rightarrow> (response \<times> db) result" where
  "guarded_command e k body run d =
     (case findIdempotent (env_hash e) k body d of
        Inl err \<Rightarrow> Inl err
      | Inr (Some res) \<Rightarrow> Inr (res, d)
      | Inr None \<Rightarrow> run d)"

text \<open>
  What a command's body owes: the response it returns is the one it stored. A body with
  this property makes the command replayable.
\<close>

definition stores :: "env \<Rightarrow> command_key \<Rightarrow> request \<Rightarrow> (db \<Rightarrow> (response \<times> db) result) \<Rightarrow> bool" where
  "stores e k body run \<longleftrightarrow>
     (\<forall>d res d'. findIdempotent (env_hash e) k body d = Inr None \<longrightarrow> run d = Inr (res, d') \<longrightarrow>
        findIdempotent (env_hash e) k body d' = Inr (Some res))"

lemma storesI:
  assumes "\<And>d res d'. findIdempotent (env_hash e) k body d = Inr None \<Longrightarrow> run d = Inr (res, d') \<Longrightarrow>
     \<exists>d0 rid. idempotency d0 = idempotency d \<and>
       idempotency d' = idempotency (storeIdempotent (env_hash e) rid k body res d0)"
  shows "stores e k body run"
  unfolding stores_def
proof (intro allI impI)
  fix d res d'
  assume n: "findIdempotent (env_hash e) k body d = Inr None" and r: "run d = Inr (res, d')"
  from assms [OF n r] obtain d0 rid where d0: "idempotency d0 = idempotency d"
    and d': "idempotency d' = idempotency (storeIdempotent (env_hash e) rid k body res d0)" by blast
  from n d0 have "findIdempotent (env_hash e) k body d0 = Inr None"
    using findIdempotent_cong by metis
  then have "findIdempotent (env_hash e) k body (storeIdempotent (env_hash e) rid k body res d0) = Inr (Some res)"
    by (rule idem.stored)
  with d' show "findIdempotent (env_hash e) k body d' = Inr (Some res)"
    using findIdempotent_cong by metis
qed

lemma guarded_replay:
  assumes "stores e k body run" and "guarded_command e k body run d = Inr (res, d')"
    and "env_hash e' = env_hash e"
  shows "guarded_command e' k body run' d' = Inr (res, d')"
proof (cases "findIdempotent (env_hash e) k body d")
  case (Inl err)
  with assms(2) show ?thesis by (simp add: guarded_command_def)
next
  case (Inr x)
  then show ?thesis
  proof (cases x)
    case None
    with Inr assms(2) have "run d = Inr (res, d')" by (simp add: guarded_command_def)
    with Inr None assms(1) have "findIdempotent (env_hash e) k body d' = Inr (Some res)"
      unfolding stores_def by blast
    with assms(3) show ?thesis by (simp add: guarded_command_def)
  next
    case (Some r)
    with Inr assms(2,3) show ?thesis by (simp add: guarded_command_def)
  qed
qed

lemma guarded_fresh:
  "guarded_command e k body run d = Inr (res, d') \<Longrightarrow>
     (d' = d \<and> findIdempotent (env_hash e) k body d = Inr (Some res)) \<or>
     (findIdempotent (env_hash e) k body d = Inr None \<and> run d = Inr (res, d'))"
  by (auto simp: guarded_command_def split: sum.splits option.splits)

lemma requireIdempotencyKey_eq_Inr [inversion]:
  "requireIdempotencyKey key = Inr k \<longleftrightarrow> (\<exists>s. key = Some s \<and> trim s \<noteq> [] \<and> k = trim s)"
  by (auto simp: requireIdempotencyKey_def split: option.splits)

end
