(* ===== verification/Pricing.thy ===== *)
theory Pricing
  imports Access
begin

text \<open>
  Prices: the VIP surcharge of \<open>src/orders/vip-pricing.util.ts\<close>, the line totals and bill
  numbers at the end of \<open>src/billing/billing.service.ts\<close>. \<open>money\<close> is \<open>toFixed(2)\<close>; the
  model keeps the number its text denotes.
\<close>

section \<open>VIP prices\<close>

definition isEffectiveVip :: "dining_table \<Rightarrow> bool" where
  "isEffectiveVip t = (dt_isVip t \<or> dt_locationIsVip t)"

definition resolveVipUnitPrice ::
  "decimal \<Rightarrow> bool \<Rightarrow> decimal option \<Rightarrow> decimal \<Rightarrow> decimal" where
  "resolveVipUnitPrice base effectiveVip itemPct defaultPct =
     (if \<not> effectiveVip then base
      else let pct = (case itemPct of Some p \<Rightarrow> p | None \<Rightarrow> defaultPct)
           in if pct \<le> 0 then base else dp2 (base * (1 + pct / 100)))"

definition money :: "decimal \<Rightarrow> decimal" where
  "money x = dp2 x"

lemma money_cents: "cents x \<Longrightarrow> money x = x"
  by (simp add: money_def round_scaled)

lemma resolveVip_not_vip [simp]: "resolveVipUnitPrice b False p q = b"
  by (simp add: resolveVipUnitPrice_def)

lemma resolveVip_cents: "cents b \<Longrightarrow> cents (resolveVipUnitPrice b v p q)"
  by (simp add: resolveVipUnitPrice_def Let_def scaled_round)

lemma resolveVip_ge:
  assumes "cents b" and "0 \<le> b"
  shows "b \<le> resolveVipUnitPrice b v p q"
proof -
  have "b \<le> dp2 (b * (1 + pct / 100))" if "0 < pct" for pct
  proof -
    have "b \<le> b * (1 + pct / 100)"
      using that assms(2) by (simp add: distrib_left)
    then have "dp2 b \<le> dp2 (b * (1 + pct / 100))" by (rule round_mono)
    with assms(1) show ?thesis by (simp add: round_scaled)
  qed
  then show ?thesis by (auto simp: resolveVipUnitPrice_def Let_def not_le)
qed

lemma resolveVip_mono_percent:
  assumes "0 \<le> b" and "p \<le> p'" and "cents b"
  shows "resolveVipUnitPrice b v (Some p) q \<le> resolveVipUnitPrice b v (Some p') q"
proof (cases "p \<le> 0")
  case True
  then have "resolveVipUnitPrice b v (Some p) q = b" by (simp add: resolveVipUnitPrice_def)
  then show ?thesis using resolveVip_ge [OF assms(3,1)] by simp
next
  case False
  have "b * (1 + p / 100) \<le> b * (1 + p' / 100)"
    using assms(1,2) by (intro mult_left_mono) (simp_all add: divide_right_mono)
  then show ?thesis
    using False assms(2) round_mono [of "b * (1 + p / 100)" "b * (1 + p' / 100)" 2]
    by (simp add: resolveVipUnitPrice_def)
qed

section \<open>Line totals\<close>

definition modifierTotal :: "item_modifier list \<Rightarrow> decimal" where
  "modifierTotal ms = sum_list (map im_priceDelta ms)"

definition lineTotal :: "order_item \<Rightarrow> decimal" where
  "lineTotal i = (oi_unitPrice i + modifierTotal (oi_modifiers i)) * of_nat (oi_quantity i)"

definition priced :: "order_item \<Rightarrow> bool" where
  "priced i \<longleftrightarrow> cents (oi_unitPrice i) \<and> list_all (\<lambda>m. cents (im_priceDelta m)) (oi_modifiers i)"

lemma lineTotal_cents: "priced i \<Longrightarrow> cents (lineTotal i)"
  unfolding lineTotal_def modifierTotal_def priced_def
  by (intro scaled_mult_nat scaled_add scaled_sum_list) (auto simp: list_all_iff)

text \<open>\<open>CHARGEABLE_ITEM\<close>: what a bill charges for.\<close>

definition chargeable :: "order_item \<Rightarrow> bool" where
  "chargeable i \<longleftrightarrow> oi_cancelledAt i = None \<and> oi_state i \<noteq> CANCELLED"

section \<open>Bill numbers\<close>

text \<open>
  \<open>civil_from_days\<close> is the calendar date (year, month, day) of a day counted from
  1970-01-01, the \<open>getFullYear\<close>, \<open>getMonth\<close> and \<open>getDate\<close> of a JavaScript date.
\<close>

definition civil_from_days :: "int \<Rightarrow> int \<times> int \<times> int" where
  "civil_from_days z0 =
     (let z = z0 + 719468;
          era = z div 146097;
          doe = z - era * 146097;
          yoe = (doe - doe div 1460 + doe div 36524 - doe div 146096) div 365;
          doy = doe - (365 * yoe + yoe div 4 - yoe div 100);
          mp = (5 * doy + 2) div 153;
          d = doy - (153 * mp + 2) div 5 + 1;
          m = (if mp < 10 then mp + 3 else mp - 9);
          y = yoe + era * 400 + (if m \<le> 2 then 1 else 0)
      in (y, m, d))"

text \<open>The day of a calendar date; days past the end of the month carry over, as in \<open>Date.UTC\<close>.\<close>

definition days_from_civil :: "int \<Rightarrow> int \<Rightarrow> int \<Rightarrow> date" where
  "days_from_civil y0 m d =
     (let y = (if m \<le> 2 then y0 - 1 else y0); era = y div 400; yoe = y - era * 400;
          doy = (153 * (if 2 < m then m - 3 else m + 9) + 2) div 5 + d - 1;
          doe = yoe * 365 + yoe div 4 - yoe div 100 + doy
      in era * 146097 + doe - 719468)"

definition ms_per_day :: int where
  "ms_per_day = 86400000"

definition localYmd :: "int \<Rightarrow> date \<Rightarrow> string" where
  "localYmd tz day =
     (let (y, m, d) = civil_from_days ((day * ms_per_day + tz) div ms_per_day)
      in show_nat (nat y) @ pad_start 2 (show_nat (nat m)) @ pad_start 2 (show_nat (nat d)))"

definition bill_prefix :: "branch option \<Rightarrow> string" where
  "bill_prefix b =
     (let name = (case b of
          None \<Rightarrow> ''BILL''
        | Some r \<Rightarrow> if bc_displayCode r \<noteq> [] then bc_displayCode r
                     else if bc_name r \<noteq> [] then bc_name r else ''BILL'')
      in to_upper (take 8 (filter alnum name)))"

definition bill_number :: "string \<Rightarrow> string \<Rightarrow> nat \<Rightarrow> string" where
  "bill_number prefix day sequence = prefix @ ''-'' @ day @ ''-'' @ pad_start 4 (show_nat (sequence + 1))"

lemma bill_number_inj: "bill_number p d m = bill_number p d n \<Longrightarrow> m = n"
  using pad_show_inj [of 4 "m + 1" "n + 1"] by (simp add: bill_number_def)

lemma localYmd_utc: "localYmd 0 day = localYmd (ms_per_day - 1) day"
proof -
  have "(day * ms_per_day + (ms_per_day - 1)) div ms_per_day = day"
    by (simp add: ms_per_day_def)
  moreover have "(day * ms_per_day + 0) div ms_per_day = day"
    by (simp add: ms_per_day_def)
  ultimately show ?thesis by (simp add: localYmd_def)
qed

text \<open>\<open>businessDateUtc\<close> of \<open>src/common/business-date.ts\<close>: the calendar day in Addis Ababa (UTC+3).\<close>

definition addis_offset :: int where
  "addis_offset = 3 * 3600000"

definition businessDateUtc :: "time \<Rightarrow> date" where
  "businessDateUtc now = (now + addis_offset) div ms_per_day"

lemma businessDateUtc_mono: "t \<le> t' \<Longrightarrow> businessDateUtc t \<le> businessDateUtc t'"
  by (simp add: businessDateUtc_def ms_per_day_def zdiv_mono1)

lemma businessDateUtc_window:
  "businessDateUtc t = day \<longleftrightarrow>
     day * ms_per_day - addis_offset \<le> t \<and> t < (day + 1) * ms_per_day - addis_offset"
  by (auto simp: businessDateUtc_def ms_per_day_def addis_offset_def)

end
