(* ===== verification/Stock.thy ===== *)
theory Stock
  imports Access
begin

text \<open>
  Unit conversion (\<open>src/inventory/units.ts\<close>) and the part of
  \<open>src/inventory/inventory.service.ts\<close> that orders run through: the default location of a
  branch, \<open>applyDelta\<close>, the depletion of a recipe when an item is confirmed, its reversal
  when the item is cancelled, and the posting of a physical count.

  JavaScript numbers are read as the exact decimals they stand for; \<open>Decimal(19,4)\<close> columns
  round what is stored in them to four places.
\<close>

section \<open>Units\<close>

definition builtin_units :: "(string \<times> string \<times> decimal) list" where
  "builtin_units =
    [(''kg'', ''mass'', 1), (''g'', ''mass'', 1 / 1000), (''L'', ''volume'', 1),
     (''ml'', ''volume'', 1 / 1000), (''pcs'', ''count'', 1), (''dozen'', ''count'', 12)]"

definition builtInFactor :: "string \<Rightarrow> string \<Rightarrow> decimal option" where
  "builtInFactor u v =
     (case (map_of builtin_units u, map_of builtin_units v) of
        (Some (fa, a), Some (fb, b)) \<Rightarrow> if fa \<noteq> fb then None else Some (a / b)
      | _ \<Rightarrow> None)"

definition conversion :: "id \<Rightarrow> string \<Rightarrow> string \<Rightarrow> db \<Rightarrow> unit_conversion option" where
  "conversion tenant u v d = find (\<lambda>c. uc_tenantId c = tenant \<and> uc_fromUnit c = u \<and>
     uc_toUnit c = v \<and> uc_status c = ''ACTIVE'') (conversions d)"

definition toBaseQty :: "db \<Rightarrow> id \<Rightarrow> decimal \<Rightarrow> string option \<Rightarrow> string \<Rightarrow> decimal result" where
  "toBaseQty d tenant qty fromUnit baseUnit =
     (case fromUnit of
        None \<Rightarrow> Inr qty
      | Some u \<Rightarrow>
          if u = [] then Inr qty
          else if u = baseUnit then Inr qty
          else (case conversion tenant u baseUnit d of
              Some c \<Rightarrow> Inr (qty * uc_factor c)
            | None \<Rightarrow>
                (case conversion tenant baseUnit u d of
                   Some c \<Rightarrow>
                     if uc_factor c \<noteq> 0 then Inr (qty / uc_factor c)
                     else (case builtInFactor u baseUnit of
                             Some f \<Rightarrow> Inr (qty * f)
                           | None \<Rightarrow> Inl (BadRequest ''Cannot convert''))
                 | None \<Rightarrow>
                     (case builtInFactor u baseUnit of
                        Some f \<Rightarrow> Inr (qty * f)
                      | None \<Rightarrow> Inl (BadRequest ''Cannot convert'')))))"

definition compatibleUnitCodes :: "db \<Rightarrow> id \<Rightarrow> string \<Rightarrow> string list" where
  "compatibleUnitCodes d tenant baseUnit =
     (let fam = (case map_of builtin_units baseUnit of
            Some (f, _) \<Rightarrow> map fst (filter (\<lambda>(c, g, _). g = f) builtin_units)
          | None \<Rightarrow> []);
          pairs = filter (\<lambda>c. uc_tenantId c = tenant \<and> uc_status c = ''ACTIVE'' \<and>
            (uc_fromUnit c = baseUnit \<or> uc_toUnit c = baseUnit)) (conversions d)
      in remdups (baseUnit # fam @ concat (map (\<lambda>c. [uc_fromUnit c, uc_toUnit c]) pairs)))"

definition roundQty :: "decimal \<Rightarrow> decimal" where
  "roundQty n = of_int \<lfloor>n * 10000 + 1 / 2\<rfloor> / 10000"

lemma roundQty_scaled: "scaled 4 (roundQty n)"
  by (simp add: roundQty_def scaled_def)

lemma roundQty_id: "scaled 4 n \<Longrightarrow> roundQty n = n"
proof -
  assume "scaled 4 n"
  then obtain m :: int where m: "n * 10000 = of_int m" by (auto simp: scaled_def elim: Ints_cases)
  then have "\<lfloor>n * 10000 + 1 / 2\<rfloor> = m" using floor_int_half [of m] by simp
  then show ?thesis using m by (simp add: roundQty_def field_simps)
qed

lemma conversion_None_iff:
  "conversion t u v d = None \<longleftrightarrow>
     (\<forall>c \<in> set (conversions d). \<not> (uc_tenantId c = t \<and> uc_fromUnit c = u \<and> uc_toUnit c = v \<and>
        uc_status c = ''ACTIVE''))"
  by (auto simp: conversion_def find_None_iff)

lemma builtInFactor_iff:
  "builtInFactor u v \<noteq> None \<longleftrightarrow>
     (\<exists>f. map_option fst (map_of builtin_units v) = Some f \<and> map_option fst (map_of builtin_units u) = Some f)"
  by (auto simp: builtInFactor_def split: option.splits)

lemma builtin_family:
  "map_option fst (map_of builtin_units u) = Some f \<longleftrightarrow>
     u \<in> set (map fst (filter (\<lambda>(c, g, _). g = f) builtin_units))"
proof -
  have "distinct (map fst builtin_units)" by (simp add: builtin_units_def)
  then have "map_of builtin_units u = Some x \<longleftrightarrow> (u, x) \<in> set builtin_units" for x
    by (rule map_of_eq_Some_iff)
  then have "map_option fst (map_of builtin_units u) = Some f \<longleftrightarrow> (\<exists>a. (u, f, a) \<in> set builtin_units)"
    by auto
  then show ?thesis by force
qed

text \<open>A factor of the table is inverted by swapping the units.\<close>

lemma builtInFactor_inverse:
  "builtInFactor u v = Some f \<Longrightarrow> builtInFactor v u = Some (1 / f) \<and> 0 < f"
proof -
  assume "builtInFactor u v = Some f"
  then obtain g a b where u: "map_of builtin_units u = Some (g, a)" and v: "map_of builtin_units v = Some (g, b)"
    and f: "f = a / b"
    by (auto simp: builtInFactor_def split: option.splits if_splits)
  have pos: "0 < c" if "map_of builtin_units w = Some (h, c)" for w h c
    using that by (auto simp: builtin_units_def split: if_splits)
  from u v f pos [OF u] pos [OF v] show ?thesis by (simp add: builtInFactor_def)
qed

section \<open>Books kept in parallel\<close>

text \<open>
  A held quantity and the entries booked for it: if every posting moves both by the same
  amount, they stay equal through any sequence of postings.
\<close>

locale double_book =
  fixes held :: "'k \<Rightarrow> 's \<Rightarrow> decimal"
    and booked :: "'k \<Rightarrow> 's \<Rightarrow> decimal"
    and wf :: "'s \<Rightarrow> bool"
    and exact :: "'a \<Rightarrow> bool"
    and post :: "'a \<Rightarrow> 's \<Rightarrow> 's result"
  assumes post_both: "wf s \<Longrightarrow> exact a \<Longrightarrow> post a s = Inr s' \<Longrightarrow>
      held k s' - held k s = booked k s' - booked k s"
    and post_wf: "wf s \<Longrightarrow> exact a \<Longrightarrow> post a s = Inr s' \<Longrightarrow> wf s'"
begin

lemma posts_both:
  assumes "foldR post as s = Inr s'" and "wf s" and "\<And>a. a \<in> set as \<Longrightarrow> exact a"
  shows "wf s' \<and> held k s' - held k s = booked k s' - booked k s"
  using assms
proof (induction as arbitrary: s)
  case Nil
  then show ?case by simp
next
  case (Cons a as)
  then obtain t where t: "post a s = Inr t" and t': "foldR post as t = Inr s'" by auto
  from Cons.prems have ex: "exact a" and "wf s" by simp_all
  with t have "wf t" and step: "held k t - held k s = booked k t - booked k s"
    using post_wf post_both by blast+
  with Cons.IH [OF t'] Cons.prems(3) have "wf s' \<and> held k s' - held k t = booked k s' - booked k t"
    by simp
  with step show ?case by (simp add: algebra_simps)
qed

lemma posts_agree:
  "foldR post as s = Inr s' \<Longrightarrow> wf s \<Longrightarrow> (\<And>a. a \<in> set as \<Longrightarrow> exact a) \<Longrightarrow>
     held k s = booked k s \<Longrightarrow> held k s' = booked k s'"
  using posts_both [of as s s' k] by simp

end

section \<open>Stock movements\<close>

type_synonym stock_key = "id \<times> id"

record delta_meta =
  dm_entryType :: string
  dm_orderItemId :: "id option"
  dm_countSessionId :: "id option"
  dm_setAbsolute :: "decimal option"

definition sb_key :: "stock_balance \<Rightarrow> stock_key" where
  "sb_key b = (sb_locationId b, sb_ingredientId b)"

definition se_key :: "stock_entry \<Rightarrow> stock_key" where
  "se_key e = (se_locationId e, se_ingredientId e)"

definition on_hand :: "stock_key \<Rightarrow> db \<Rightarrow> decimal" where
  "on_hand k d = (case row_by sb_key k (stock d) of Some b \<Rightarrow> sb_onHand b | None \<Rightarrow> 0)"

definition booked_qty :: "stock_key \<Rightarrow> db \<Rightarrow> decimal" where
  "booked_qty k d = sum_list (map se_delta (filter (\<lambda>e. se_key e = k) (stock_ledger d)))"

definition ensureDefaultLocation :: "id \<Rightarrow> id \<Rightarrow> db \<Rightarrow> (id \<times> db) result" where
  "ensureDefaultLocation tenant b d =
     (case find (\<lambda>l. lo_tenantId l = tenant \<and> lo_branchId l = Some b \<and> lo_isDefault l \<and>
             lo_status l = ''ACTIVE'') (locations d) of
        Some l \<Rightarrow> Inr (lo_id l, d)
      | None \<Rightarrow>
          (case find (\<lambda>r. bc_id r = b \<and> bc_tenantId r = tenant) (branches d) of
             None \<Rightarrow> Inl (NotFound ''Branch not found for inventory location.'')
           | Some br \<Rightarrow>
               Inr (next_id d, d\<lparr>locations := locations d @
                   [\<lparr>lo_id = next_id d, lo_tenantId = tenant, lo_branchId = Some b,
                     lo_code = take 40 (''BRANCH_'' @ bc_displayCode br),
                     lo_name = take 120 (bc_name br @ '' store''), lo_type = ''BRANCH_STORE'', lo_isDefault = True,
                     lo_status = ''ACTIVE''\<rparr>],
                 next_id := next_id d + 1\<rparr>)))"

definition upsert_balance :: "stock_key \<Rightarrow> decimal \<Rightarrow> decimal option \<Rightarrow> db \<Rightarrow> db" where
  "upsert_balance k delta setAbs d =
     (case row_by sb_key k (stock d) of
        Some _ \<Rightarrow> d\<lparr>stock := update_id sb_key k
            (\<lambda>b. b\<lparr>sb_onHand := round_half_up 4
               (case setAbs of Some a \<Rightarrow> a | None \<Rightarrow> sb_onHand b + delta)\<rparr>) (stock d)\<rparr>
      | None \<Rightarrow> d\<lparr>stock := stock d @ [\<lparr>sb_locationId = fst k, sb_ingredientId = snd k,
            sb_onHand = round_half_up 4 (case setAbs of Some a \<Rightarrow> a | None \<Rightarrow> delta)\<rparr>]\<rparr>)"

definition applyDelta ::
  "id \<Rightarrow> id option \<Rightarrow> id option \<Rightarrow> id \<Rightarrow> decimal \<Rightarrow> delta_meta \<Rightarrow> db \<Rightarrow> db result" where
  "applyDelta tenant b loc ing delta meta d =
     bindR (case loc of
         Some l \<Rightarrow> Inr (l, d)
       | None \<Rightarrow> (case b of
             None \<Rightarrow> Inl (BadRequest ''locationId is required when no branch store is available.'')
           | Some br \<Rightarrow> ensureDefaultLocation tenant br d))
       (\<lambda>(l, d1).
          let d2 = upsert_balance (l, ing) delta (dm_setAbsolute meta) d1
          in Inr (d2\<lparr>stock_ledger := stock_ledger d2 @
               [\<lparr>se_locationId = l, se_ingredientId = ing, se_entryType = dm_entryType meta,
                 se_delta = round_half_up 4 delta, se_orderItemId = dm_orderItemId meta,
                 se_countSessionId = dm_countSessionId meta\<rparr>]\<rparr>))"

definition stock_wf :: "db \<Rightarrow> bool" where
  "stock_wf d \<longleftrightarrow> list_all (\<lambda>b. scaled 4 (sb_onHand b)) (stock d)"

lemma sb_key_onHand [simp]: "sb_key (b\<lparr>sb_onHand := x\<rparr>) = sb_key b"
  by (simp add: sb_key_def)

lemma ensureDefaultLocation_frame [frame]:
  "ensureDefaultLocation t b d = Inr (l, d') \<Longrightarrow> stock d' = stock d \<and> stock_ledger d' = stock_ledger d"
  by (auto simp: ensureDefaultLocation_def split: option.splits)

lemma on_hand_upsert:
  "on_hand k' (upsert_balance k delta sa d) =
     (if k' = k then round_half_up 4 (case sa of Some a \<Rightarrow> a | None \<Rightarrow> on_hand k d + delta)
      else on_hand k' d)"
  by (cases k) (auto simp: on_hand_def upsert_balance_def table_simps sb_key_def split: option.splits)

lemma upsert_wf: "stock_wf d \<Longrightarrow> stock_wf (upsert_balance k delta sa d)"
  by (auto simp: stock_wf_def upsert_balance_def update_id_def update_many_def list_all_iff
      scaled_round split: option.splits)

lemma upsert_ledger [simp]: "stock_ledger (upsert_balance k delta sa d) = stock_ledger d"
  by (simp add: upsert_balance_def split: option.splits)

lemma on_hand_scaled: "stock_wf d \<Longrightarrow> scaled 4 (on_hand k d)"
  by (auto simp: stock_wf_def on_hand_def list_all_iff split: option.splits dest: row_by_SomeD)

lemma on_hand_cong: "stock d = stock d' \<Longrightarrow> on_hand k d = on_hand k d'"
  by (simp add: on_hand_def)

text \<open>What one movement does: the balance moves and the entry is booked at one location.\<close>

lemma applyDelta_effect:
  assumes "applyDelta t b loc ing delta meta d = Inr d'"
  obtains l where
    "\<And>k. on_hand k d' = (if k = (l, ing)
        then round_half_up 4 (case dm_setAbsolute meta of Some a \<Rightarrow> a | None \<Rightarrow> on_hand k d + delta)
        else on_hand k d)"
    and "\<And>k. booked_qty k d' = booked_qty k d + (if k = (l, ing) then round_half_up 4 delta else 0)"
    and "loc = Some l \<or> (loc = None \<and> (\<exists>br d1. b = Some br \<and> ensureDefaultLocation t br d = Inr (l, d1)))"
    and "\<exists>d1. stock d1 = stock d \<and> stock_ledger d1 = stock_ledger d \<and>
       stock d' = stock (upsert_balance (l, ing) delta (dm_setAbsolute meta) d1) \<and>
       stock_ledger d' = stock_ledger d @ [\<lparr>se_locationId = l, se_ingredientId = ing,
          se_entryType = dm_entryType meta, se_delta = round_half_up 4 delta,
          se_orderItemId = dm_orderItemId meta, se_countSessionId = dm_countSessionId meta\<rparr>]"
proof -
  from assms obtain l d1 where
    src: "(loc = Some l \<and> d1 = d) \<or>
      (loc = None \<and> (\<exists>br. b = Some br \<and> ensureDefaultLocation t br d = Inr (l, d1)))"
    and d': "d' = (upsert_balance (l, ing) delta (dm_setAbsolute meta) d1)
      \<lparr>stock_ledger := stock_ledger d1 @ [\<lparr>se_locationId = l, se_ingredientId = ing,
          se_entryType = dm_entryType meta, se_delta = round_half_up 4 delta,
          se_orderItemId = dm_orderItemId meta, se_countSessionId = dm_countSessionId meta\<rparr>]\<rparr>"
    by (auto simp: applyDelta_def Let_def split: option.splits)
  from src have fr: "stock d1 = stock d \<and> stock_ledger d1 = stock_ledger d"
    using ensureDefaultLocation_frame by auto
  have oh: "on_hand k d1 = on_hand k d" for k using fr on_hand_cong by blast
  show thesis
  proof (rule that)
    show "on_hand k d' = (if k = (l, ing)
        then round_half_up 4 (case dm_setAbsolute meta of Some a \<Rightarrow> a | None \<Rightarrow> on_hand k d + delta)
        else on_hand k d)" for k
    proof -
      have "on_hand k d' = on_hand k (upsert_balance (l, ing) delta (dm_setAbsolute meta) d1)"
        by (rule on_hand_cong) (simp add: d')
      then show ?thesis using oh [of k] by (cases "k = (l, ing)") (simp_all only: on_hand_upsert if_True if_False)
    qed
    show "booked_qty k d' = booked_qty k d + (if k = (l, ing) then round_half_up 4 delta else 0)" for k
      by (simp add: booked_qty_def d' fr se_key_def)
    show "loc = Some l \<or> (loc = None \<and> (\<exists>br d1. b = Some br \<and> ensureDefaultLocation t br d = Inr (l, d1)))"
      using src by blast
    show "\<exists>d1. stock d1 = stock d \<and> stock_ledger d1 = stock_ledger d \<and>
       stock d' = stock (upsert_balance (l, ing) delta (dm_setAbsolute meta) d1) \<and>
       stock_ledger d' = stock_ledger d @ [\<lparr>se_locationId = l, se_ingredientId = ing,
          se_entryType = dm_entryType meta, se_delta = round_half_up 4 delta,
          se_orderItemId = dm_orderItemId meta, se_countSessionId = dm_countSessionId meta\<rparr>]"
      using fr d' by (intro exI [of _ d1]) simp
  qed
qed

lemma applyDelta_wf: "applyDelta t b loc ing delta meta d = Inr d' \<Longrightarrow> stock_wf d \<Longrightarrow> stock_wf d'"
proof (erule applyDelta_effect)
  fix l
  assume wf: "stock_wf d"
    and "\<exists>d1. stock d1 = stock d \<and> stock_ledger d1 = stock_ledger d \<and>
       stock d' = stock (upsert_balance (l, ing) delta (dm_setAbsolute meta) d1) \<and>
       stock_ledger d' = stock_ledger d @ [\<lparr>se_locationId = l, se_ingredientId = ing,
          se_entryType = dm_entryType meta, se_delta = round_half_up 4 delta,
          se_orderItemId = dm_orderItemId meta, se_countSessionId = dm_countSessionId meta\<rparr>]"
  then obtain d1 where "stock d1 = stock d"
    and "stock d' = stock (upsert_balance (l, ing) delta (dm_setAbsolute meta) d1)" by blast
  with wf upsert_wf [of d1] show "stock_wf d'" by (simp add: stock_wf_def)
qed

text \<open>Movements without an absolute setting, whose quantity fits the column, keep the books.\<close>

type_synonym movement = "id \<times> id option \<times> id option \<times> id \<times> decimal \<times> delta_meta"

definition exact_move :: "movement \<Rightarrow> bool" where
  "exact_move m = (case m of (t, b, loc, ing, delta, meta) \<Rightarrow> dm_setAbsolute meta = None \<and> scaled 4 delta)"

definition move :: "movement \<Rightarrow> db \<Rightarrow> db result" where
  "move m d = (case m of (t, b, loc, ing, delta, meta) \<Rightarrow> applyDelta t b loc ing delta meta d)"

interpretation stock: double_book on_hand booked_qty stock_wf exact_move move
proof (unfold_locales, goal_cases)
  case (1 d m d' k)
  obtain t b loc ing delta meta where m: "m = (t, b, loc, ing, delta, meta)" by (cases m) auto
  from 1 m have ap: "applyDelta t b loc ing delta meta d = Inr d'"
    and sa: "dm_setAbsolute meta = None" and sc: "scaled 4 delta"
    by (simp_all add: move_def exact_move_def)
  from ap obtain l where oh: "\<And>k. on_hand k d' = (if k = (l, ing)
        then round_half_up 4 (case dm_setAbsolute meta of Some a \<Rightarrow> a | None \<Rightarrow> on_hand k d + delta)
        else on_hand k d)"
    and bk: "\<And>k. booked_qty k d' = booked_qty k d + (if k = (l, ing) then round_half_up 4 delta else 0)"
    by (rule applyDelta_effect) blast
  have e: "round_half_up 4 (on_hand k d + delta) = on_hand k d + delta"
    using sc on_hand_scaled [OF 1(1)] by (intro round_scaled scaled_add)
  show ?case
  proof (cases "k = (l, ing)")
    case True
    have "on_hand k d' = on_hand k d + delta"
      using oh [of k] sa e by (simp only: True if_True option.case simp_thms refl)
    moreover have "booked_qty k d' = booked_qty k d + delta"
      using bk [of k] sc by (simp only: True if_True round_scaled simp_thms refl)
    ultimately show ?thesis by simp
  next
    case False
    with oh [of k] bk [of k] show ?thesis by simp
  qed
next
  case (2 d m d')
  then show ?case by (cases m) (auto simp: move_def intro: applyDelta_wf)
qed

end
