(* ===== verification/Depletion.thy ===== *)
theory Depletion
  imports Stock
begin

text \<open>
  The order hooks of the inventory (\<open>depleteForOrderItem\<close>, \<open>reverseForOrderItem\<close>) and the
  physical count (\<open>startCount\<close>, \<open>postCount\<close>).
\<close>

section \<open>Order hooks\<close>

definition has_entry :: "id \<Rightarrow> string \<Rightarrow> db \<Rightarrow> bool" where
  "has_entry item ty d \<longleftrightarrow>
     list_ex (\<lambda>e. se_orderItemId e = Some item \<and> se_entryType e = ty) (stock_ledger d)"

definition sale_meta :: "string \<Rightarrow> id \<Rightarrow> delta_meta" where
  "sale_meta ty item = \<lparr>dm_entryType = ty, dm_orderItemId = Some item, dm_countSessionId = None,
     dm_setAbsolute = None\<rparr>"

text \<open>The quantity one recipe line takes from stock for \<open>quantity\<close> servings, as a signed delta.\<close>

definition line_delta :: "id \<Rightarrow> nat \<Rightarrow> db \<Rightarrow> recipe_line \<Rightarrow> decimal result" where
  "line_delta tenant quantity d line =
     (case row_by ig_id (rl_ingredientId line) (ingredients d) of
        None \<Rightarrow> Inl (DbError ''menu_item_recipe_lines_ingredient_id_fkey'')
      | Some ig \<Rightarrow>
          let typedUnit = (case rl_unit line of Some u \<Rightarrow> u | None \<Rightarrow> ig_unit ig)
          in bindR (toBaseQty d tenant (rl_quantityPerServing line) (Some typedUnit) (ig_unit ig)) (\<lambda>q.
             let ep = roundQty q;
                 yieldPct = (case ig_yieldPercent ig of Some y \<Rightarrow> y | None \<Rightarrow> 0);
                 yieldFrac = (if 0 < yieldPct \<and> yieldPct \<le> 100 then yieldPct / 100 else 1)
             in Inr (- ((ep / yieldFrac) * of_nat quantity))))"

definition deplete_line ::
  "id \<Rightarrow> id \<Rightarrow> id \<Rightarrow> nat \<Rightarrow> recipe_line \<Rightarrow> db \<Rightarrow> db result" where
  "deplete_line tenant b item quantity line d =
     bindR (line_delta tenant quantity d line) (\<lambda>delta.
       applyDelta tenant (Some b) None (rl_ingredientId line) delta (sale_meta ''SALE_DEPLETE'' item) d)"

definition depleteForOrderItem :: "id \<Rightarrow> id \<Rightarrow> id \<Rightarrow> id option \<Rightarrow> nat \<Rightarrow> db \<Rightarrow> db result" where
  "depleteForOrderItem item tenant b menuItem quantity d =
     (case menuItem of
        None \<Rightarrow> Inr d
      | Some m \<Rightarrow>
          if has_entry item ''SALE_DEPLETE'' d then Inr d
          else foldR (deplete_line tenant b item quantity)
                 (filter (\<lambda>l. rl_menuItemId l = m) (recipes d)) d)"

definition reverse_entry :: "id \<Rightarrow> id \<Rightarrow> id \<Rightarrow> stock_entry \<Rightarrow> db \<Rightarrow> db result" where
  "reverse_entry item tenant b entry d =
     applyDelta tenant (Some b) None (se_ingredientId entry) (- se_delta entry)
       (sale_meta ''REVERSAL'' item) d"

definition reverseForOrderItem :: "id \<Rightarrow> id \<Rightarrow> id \<Rightarrow> db \<Rightarrow> db result" where
  "reverseForOrderItem item tenant b d =
     (let depleted = filter (\<lambda>e. se_orderItemId e = Some item \<and> se_entryType e = ''SALE_DEPLETE'')
            (stock_ledger d)
      in if depleted = [] then Inr d
         else if has_entry item ''REVERSAL'' d then Inr d
         else foldR (reverse_entry item tenant b) depleted d)"

text \<open>
  A movement at the default location of a branch, once that location exists: it stays the
  same through every movement, so a whole list of them happens at one place.
\<close>

definition default_location :: "id \<Rightarrow> id \<Rightarrow> db \<Rightarrow> id option" where
  "default_location tenant b d =
     map_option lo_id (find (\<lambda>l. lo_tenantId l = tenant \<and> lo_branchId l = Some b \<and> lo_isDefault l \<and>
       lo_status l = ''ACTIVE'') (locations d))"

lemma ensureDefaultLocation_existing:
  "default_location t b d = Some l \<Longrightarrow> ensureDefaultLocation t b d = Inr (l, d)"
  by (auto simp: default_location_def ensureDefaultLocation_def)

lemma find_append_new: "find P xs = None \<Longrightarrow> P x \<Longrightarrow> find P (xs @ [x]) = Some x"
  by (induction xs) auto

lemma ensureDefaultLocation_creates:
  "ensureDefaultLocation t b d = Inr (l, d') \<Longrightarrow> default_location t b d' = Some l"
  by (auto simp: ensureDefaultLocation_def default_location_def find_append_new split: option.splits)

definition at_default :: "id \<Rightarrow> id \<Rightarrow> id \<Rightarrow> decimal \<Rightarrow> delta_meta \<Rightarrow> db \<Rightarrow> db" where
  "at_default l ing i delta meta d =
     (upsert_balance (l, i) delta (dm_setAbsolute meta) d)\<lparr>stock_ledger := stock_ledger d @
        [\<lparr>se_locationId = l, se_ingredientId = i, se_entryType = dm_entryType meta,
          se_delta = round_half_up 4 delta, se_orderItemId = dm_orderItemId meta,
          se_countSessionId = dm_countSessionId meta\<rparr>]\<rparr>"

lemma applyDelta_at_default:
  "default_location t b d = Some l \<Longrightarrow>
     applyDelta t (Some b) None i delta meta d = Inr (at_default l i i delta meta d)"
  by (simp add: applyDelta_def at_default_def ensureDefaultLocation_existing Let_def)

lemma at_default_locations [simp]:
  "locations (at_default l x i delta meta d) = locations d"
  "default_location t b (at_default l x i delta meta d) = default_location t b d"
  by (auto simp: at_default_def upsert_balance_def default_location_def split: option.splits)

lemma at_default_reads [simp]:
  "ingredients (at_default l x i delta meta d) = ingredients d"
  "recipes (at_default l x i delta meta d) = recipes d"
  "conversions (at_default l x i delta meta d) = conversions d"
  by (auto simp: at_default_def upsert_balance_def split: option.splits)

lemma on_hand_at_default:
  "dm_setAbsolute meta = None \<Longrightarrow> scaled 4 delta \<Longrightarrow> stock_wf d \<Longrightarrow>
     on_hand k (at_default l x i delta meta d) = on_hand k d + (if k = (l, i) then delta else 0)"
proof -
  assume a: "dm_setAbsolute meta = None" "scaled 4 delta" "stock_wf d"
  have "on_hand k (at_default l x i delta meta d) = on_hand k (upsert_balance (l, i) delta None d)"
    by (rule on_hand_cong) (simp add: at_default_def a(1))
  also have "\<dots> = (if k = (l, i) then round_half_up 4 (on_hand (l, i) d + delta) else on_hand k d)"
    by (cases "k = (l, i)") (simp_all only: on_hand_upsert option.case if_True if_False)
  finally show ?thesis
    using a(2) on_hand_scaled [OF a(3), of "(l, i)"] by (auto simp: round_scaled scaled_add)
qed

lemma at_default_wf: "stock_wf d \<Longrightarrow> stock_wf (at_default l x i delta meta d)"
  using upsert_wf [of d "(l, i)" delta "dm_setAbsolute meta"] by (simp add: stock_wf_def at_default_def)

text \<open>The depletion of a recipe as one list of movements.\<close>

definition deltas_for :: "id \<Rightarrow> nat \<Rightarrow> db \<Rightarrow> recipe_line list \<Rightarrow> (id \<times> decimal) list result" where
  "deltas_for tenant q d ls =
     mapR (\<lambda>l. bindR (line_delta tenant q d l) (\<lambda>x. Inr (rl_ingredientId l, x))) ls"

fun post_deltas :: "id \<Rightarrow> delta_meta \<Rightarrow> (id \<times> decimal) list \<Rightarrow> db \<Rightarrow> db" where
  "post_deltas l meta [] d = d"
| "post_deltas l meta ((i, x) # xs) d = post_deltas l meta xs (at_default l i i x meta d)"

lemma toBaseQty_cong:
  assumes same: "conversions d' = conversions d"
  shows "toBaseQty d' t q u v = toBaseQty d t q u v"
  unfolding toBaseQty_def conversion_def same ..

lemma line_delta_cong:
  assumes "ingredients d' = ingredients d" and "conversions d' = conversions d"
  shows "line_delta t q d' l = line_delta t q d l"
  unfolding line_delta_def assms(1) toBaseQty_cong [OF assms(2)] ..

lemma deplete_as_deltas:
  assumes "default_location t b d = Some l"
  shows "foldR (deplete_line t b item q) ls d =
    bindR (deltas_for t q d ls) (\<lambda>xs. Inr (post_deltas l (sale_meta ''SALE_DEPLETE'' item) xs d))"
  using assms
proof (induction ls arbitrary: d)
  case Nil
  then show ?case by (simp add: deltas_for_def)
next
  case (Cons r ls)
  let ?m = "sale_meta ''SALE_DEPLETE'' item"
  show ?case
  proof (cases "line_delta t q d r")
    case (Inl e)
    then show ?thesis by (simp add: deplete_line_def deltas_for_def)
  next
    case (Inr x)
    let ?d1 = "at_default l (rl_ingredientId r) (rl_ingredientId r) x ?m d"
    have same: "deltas_for t q ?d1 ls = deltas_for t q d ls"
      using line_delta_cong [of ?d1 d t q] by (simp add: deltas_for_def)
    from Cons.prems Inr have "deplete_line t b item q r d = Inr ?d1"
      by (simp add: deplete_line_def applyDelta_at_default)
    moreover have "default_location t b ?d1 = Some l" using Cons.prems by simp
    ultimately have "foldR (deplete_line t b item q) (r # ls) d =
        bindR (deltas_for t q d ls) (\<lambda>xs. Inr (post_deltas l ?m xs ?d1))"
      using Cons.IH [of ?d1] same by simp
    then show ?thesis using Inr
      by (cases "deltas_for t q d ls") (simp_all add: deltas_for_def)
  qed
qed

definition delta_sum :: "id \<Rightarrow> (id \<times> decimal) list \<Rightarrow> decimal" where
  "delta_sum i xs = sum_list (map snd (filter (\<lambda>p. fst p = i) xs))"

lemma on_hand_post_deltas:
  assumes "stock_wf d" and "list_all (\<lambda>p. scaled 4 (snd p)) xs" and "dm_setAbsolute meta = None"
  shows "on_hand (l', i) (post_deltas l meta xs d) =
     on_hand (l', i) d + (if l' = l then delta_sum i xs else 0)"
  using assms
proof (induction xs arbitrary: d)
  case Nil
  then show ?case by (simp add: delta_sum_def)
next
  case (Cons p xs)
  obtain j x where p: "p = (j, x)" by (cases p)
  with Cons.prems have sx: "scaled 4 x" and rest: "list_all (\<lambda>p. scaled 4 (snd p)) xs" by simp_all
  let ?d1 = "at_default l j j x meta d"
  have "on_hand (l', i) (post_deltas l meta (p # xs) d) = on_hand (l', i) (post_deltas l meta xs ?d1)"
    using p by simp
  also have "\<dots> = on_hand (l', i) ?d1 + (if l' = l then delta_sum i xs else 0)"
    using Cons.IH [OF at_default_wf [OF Cons.prems(1)] rest Cons.prems(3)] .
  also have "on_hand (l', i) ?d1 = on_hand (l', i) d + (if (l', i) = (l, j) then x else 0)"
    using on_hand_at_default [OF Cons.prems(3) sx Cons.prems(1)] .
  finally show ?case using p by (auto simp: delta_sum_def)
qed

lemma ledger_post_deltas:
  "stock_ledger (post_deltas l meta xs d) = stock_ledger d @ map (\<lambda>(i, x).
     \<lparr>se_locationId = l, se_ingredientId = i, se_entryType = dm_entryType meta,
      se_delta = round_half_up 4 x, se_orderItemId = dm_orderItemId meta,
      se_countSessionId = dm_countSessionId meta\<rparr>) xs"
  by (induction l meta xs d rule: post_deltas.induct) (simp_all add: at_default_def)

lemma post_deltas_location [simp]:
  "default_location t b (post_deltas l meta xs d) = default_location t b d"
  by (induction l meta xs d rule: post_deltas.induct) simp_all

lemma post_deltas_wf: "stock_wf d \<Longrightarrow> stock_wf (post_deltas l meta xs d)"
  by (induction l meta xs d rule: post_deltas.induct) (simp_all add: at_default_wf)

lemma reverse_as_deltas:
  assumes "default_location t b d = Some l"
  shows "foldR (reverse_entry item t b) es d =
    Inr (post_deltas l (sale_meta ''REVERSAL'' item) (map (\<lambda>e. (se_ingredientId e, - se_delta e)) es) d)"
  using assms
  by (induction es arbitrary: d) (simp_all add: reverse_entry_def applyDelta_at_default)

lemma delta_sum_neg:
  "delta_sum i (map (\<lambda>p. (fst p, - snd p)) xs) = - delta_sum i xs"
  by (induction xs) (auto simp: delta_sum_def)

text \<open>
  Cancelling what was confirmed: with an existing default location and quantities the
  column can hold, reversing a fresh depletion restores every stock balance.
\<close>

lemma deplete_reverse_restores:
  assumes loc: "default_location t b d = Some l" and wf: "stock_wf d"
    and fresh: "\<And>ty. \<not> has_entry item ty d"
    and dep: "depleteForOrderItem item t b (Some m) q d = Inr d1"
    and ds: "deltas_for t q d (filter (\<lambda>r. rl_menuItemId r = m) (recipes d)) = Inr xs"
    and sc: "list_all (\<lambda>p. scaled 4 (snd p)) xs"
  shows "\<exists>d2. reverseForOrderItem item t b d1 = Inr d2 \<and> (\<forall>k. on_hand k d2 = on_hand k d)"
proof -
  let ?m1 = "sale_meta ''SALE_DEPLETE'' item" and ?m2 = "sale_meta ''REVERSAL'' item"
  from dep fresh ds have d1: "d1 = post_deltas l ?m1 xs d"
    by (simp add: depleteForOrderItem_def deplete_as_deltas [OF loc])
  let ?es = "map (\<lambda>(i, x). \<lparr>se_locationId = l, se_ingredientId = i, se_entryType = ''SALE_DEPLETE'',
      se_delta = round_half_up 4 x, se_orderItemId = Some item, se_countSessionId = None\<rparr>) xs"
  have led: "stock_ledger d1 = stock_ledger d @ ?es"
    by (simp add: d1 ledger_post_deltas sale_meta_def)
  have old: "filter (\<lambda>e. se_orderItemId e = Some item \<and> se_entryType e = ''SALE_DEPLETE'') (stock_ledger d) = []"
    using fresh [of "''SALE_DEPLETE''"] by (auto simp: has_entry_def list_ex_iff filter_empty_conv)
  have filt: "filter (\<lambda>e. se_orderItemId e = Some item \<and> se_entryType e = ''SALE_DEPLETE'') (stock_ledger d1) = ?es"
    unfolding led filter_append old by (auto simp: filter_id_conv)
  have norev: "\<not> has_entry item ''REVERSAL'' d1"
    using fresh [of "''REVERSAL''"] by (auto simp: has_entry_def list_ex_iff led)
  have loc1: "default_location t b d1 = Some l" using loc by (simp add: d1)
  have neg: "map (\<lambda>e. (se_ingredientId e, - se_delta e)) ?es = map (\<lambda>p. (fst p, - snd p)) xs"
    using sc by (auto simp: list_all_iff round_scaled)
  show ?thesis
  proof (cases "xs = []")
    case True
    then have "reverseForOrderItem item t b d1 = Inr d1" using filt by (simp add: reverseForOrderItem_def)
    with True d1 show ?thesis by simp
  next
    case False
    let ?d2 = "post_deltas l ?m2 (map (\<lambda>p. (fst p, - snd p)) xs) d1"
    have "reverseForOrderItem item t b d1 = Inr ?d2"
      using False norev reverse_as_deltas [OF loc1, of item ?es]
      unfolding reverseForOrderItem_def Let_def filt neg by simp
    moreover have "on_hand k ?d2 = on_hand k d" for k
    proof -
      obtain l' i where k: "k = (l', i)" by (cases k)
      have wf1: "stock_wf d1" using wf by (simp add: d1 post_deltas_wf)
      have sc': "list_all (\<lambda>p. scaled 4 (snd p)) (map (\<lambda>p. (fst p, - snd p)) xs)"
        using sc by (auto simp: list_all_iff)
      have "on_hand (l', i) ?d2 = on_hand (l', i) d1 + (if l' = l then - delta_sum i xs else 0)"
        using on_hand_post_deltas [OF wf1 sc', of ?m2 l' i l] by (simp add: sale_meta_def delta_sum_neg)
      also have "on_hand (l', i) d1 = on_hand (l', i) d + (if l' = l then delta_sum i xs else 0)"
        using on_hand_post_deltas [OF wf sc, of ?m1 l' i l] by (simp add: sale_meta_def d1)
      finally show ?thesis by (simp add: k)
    qed
    ultimately show ?thesis by blast
  qed
qed

text \<open>Reversing twice does nothing the second time, depleting twice neither.\<close>

lemma has_entry_post:
  "xs \<noteq> [] \<Longrightarrow> has_entry item ty (post_deltas l (sale_meta ty item) xs d)"
  by (cases xs) (auto simp: has_entry_def ledger_post_deltas sale_meta_def)

lemma reverse_twice:
  assumes loc: "default_location t b d = Some l" and r: "reverseForOrderItem item t b d = Inr d'"
  shows "reverseForOrderItem item t b d' = Inr d'"
proof -
  let ?es = "filter (\<lambda>e. se_orderItemId e = Some item \<and> se_entryType e = ''SALE_DEPLETE'') (stock_ledger d)"
  consider "d' = d" | "?es \<noteq> []" "d' = post_deltas l (sale_meta ''REVERSAL'' item)
       (map (\<lambda>e. (se_ingredientId e, - se_delta e)) ?es) d"
    using r reverse_as_deltas [OF loc, of item ?es]
    by (auto simp: reverseForOrderItem_def Let_def split: if_splits)
  then show ?thesis
  proof cases
    case 1
    with r show ?thesis by simp
  next
    case 2
    then have "has_entry item ''REVERSAL'' d'" by (simp add: has_entry_post)
    then show ?thesis by (simp add: reverseForOrderItem_def Let_def)
  qed
qed

section \<open>What an item has taken\<close>

text \<open>The net quantity the ledger books on an order item at one place: what its sale took
  and what its reversal gave back.\<close>

definition sale_entry :: "id \<Rightarrow> stock_entry \<Rightarrow> bool" where
  "sale_entry item e \<longleftrightarrow> se_orderItemId e = Some item \<and>
     (se_entryType e = ''SALE_DEPLETE'' \<or> se_entryType e = ''REVERSAL'')"

definition item_booked :: "id \<Rightarrow> stock_key \<Rightarrow> db \<Rightarrow> decimal" where
  "item_booked item k d =
     sum_list (map se_delta (filter (\<lambda>e. sale_entry item e \<and> se_key e = k) (stock_ledger d)))"

lemma item_booked_cong: "stock_ledger d = stock_ledger d' \<Longrightarrow> item_booked item k d = item_booked item k d'"
  by (simp add: item_booked_def)

lemma delta_sum_entries:
  "delta_sum i (map (\<lambda>e. (se_ingredientId e, - se_delta e)) es) =
     - sum_list (map se_delta (filter (\<lambda>e. se_ingredientId e = i) es))"
  by (induction es) (auto simp: delta_sum_def)

lemma item_booked_sales:
  assumes "\<not> has_entry item ''REVERSAL'' d"
    and "\<And>e. e \<in> set (stock_ledger d) \<Longrightarrow> sale_entry item e \<Longrightarrow> se_locationId e = l"
  shows "item_booked item (l', i) d = (if l' = l then
     sum_list (map se_delta (filter (\<lambda>e. se_ingredientId e = i)
       (filter (\<lambda>e. se_orderItemId e = Some item \<and> se_entryType e = ''SALE_DEPLETE'') (stock_ledger d)))) else 0)"
proof -
  have nr: "se_entryType e \<noteq> ''REVERSAL''" if "e \<in> set (stock_ledger d)" "se_orderItemId e = Some item" for e
    using assms(1) that by (auto simp: has_entry_def list_ex_iff)
  have "filter (\<lambda>e. sale_entry item e \<and> se_key e = (l', i)) (stock_ledger d) =
      (if l' = l then filter (\<lambda>e. se_ingredientId e = i)
         (filter (\<lambda>e. se_orderItemId e = Some item \<and> se_entryType e = ''SALE_DEPLETE'') (stock_ledger d)) else [])"
    using assms(2) nr by (auto simp: sale_entry_def se_key_def filter_empty_conv intro!: filter_cong)
  then show ?thesis by (simp add: item_booked_def)
qed

lemma reverse_effect:
  assumes loc: "default_location t b d = Some l" and wf: "stock_wf d"
    and sc: "\<And>e. e \<in> set (stock_ledger d) \<Longrightarrow> scaled 4 (se_delta e)"
    and norev: "\<not> has_entry item ''REVERSAL'' d"
    and at_l: "\<And>e. e \<in> set (stock_ledger d) \<Longrightarrow> sale_entry item e \<Longrightarrow> se_locationId e = l"
    and rev: "reverseForOrderItem item t b d = Inr d'"
  shows "on_hand k d' = on_hand k d - item_booked item k d \<and> item_booked item k d' = 0"
proof -
  let ?es = "filter (\<lambda>e. se_orderItemId e = Some item \<and> se_entryType e = ''SALE_DEPLETE'') (stock_ledger d)"
  let ?xs = "map (\<lambda>e. (se_ingredientId e, - se_delta e)) ?es"
  let ?m = "sale_meta ''REVERSAL'' item"
  obtain l' i where k: "k = (l', i)" by (cases k)
  note booked = item_booked_sales [OF norev at_l, of l' i]
  show ?thesis
  proof (cases "?es = []")
    case True
    with rev have "d' = d" by (simp add: reverseForOrderItem_def)
    moreover have "item_booked item k d = 0" using booked True by (simp add: k)
    ultimately show ?thesis by simp
  next
    case False
    with rev norev reverse_as_deltas [OF loc, of item ?es]
    have d': "d' = post_deltas l ?m ?xs d" by (simp add: reverseForOrderItem_def)
    have sx: "list_all (\<lambda>p. scaled 4 (snd p)) ?xs" using sc by (auto simp: list_all_iff)
    have oh: "on_hand (l', i) d' = on_hand (l', i) d + (if l' = l then delta_sum i ?xs else 0)"
      unfolding d' using on_hand_post_deltas [OF wf sx, of ?m l' i l] by (simp add: sale_meta_def)
    have new: "filter (\<lambda>e. sale_entry item e \<and> se_key e = (l', i)) (map (\<lambda>(i, x).
        \<lparr>se_locationId = l, se_ingredientId = i, se_entryType = dm_entryType ?m,
         se_delta = round_half_up 4 x, se_orderItemId = dm_orderItemId ?m,
         se_countSessionId = dm_countSessionId ?m\<rparr>) (map (\<lambda>e. (se_ingredientId e, - se_delta e)) es)) =
       (if l' = l then map (\<lambda>e. \<lparr>se_locationId = l, se_ingredientId = i, se_entryType = dm_entryType ?m,
         se_delta = round_half_up 4 (- se_delta e), se_orderItemId = dm_orderItemId ?m,
         se_countSessionId = dm_countSessionId ?m\<rparr>) (filter (\<lambda>e. se_ingredientId e = i) es) else [])" for es
      by (induction es) (auto simp: sale_entry_def se_key_def sale_meta_def)
    have rnd: "sum_list (map (\<lambda>e. round_half_up 4 (- se_delta e)) es) = - sum_list (map se_delta es)"
      if "set es \<subseteq> set (stock_ledger d)" for es :: "stock_entry list"
      using that sc by (induction es) (auto simp: round_scaled scaled_minus)
    have sub: "set (filter (\<lambda>e. se_ingredientId e = i) ?es) \<subseteq> set (stock_ledger d)" by auto
    have "item_booked item (l', i) d' = item_booked item (l', i) d +
        (if l' = l then - sum_list (map se_delta (filter (\<lambda>e. se_ingredientId e = i) ?es)) else 0)"
      unfolding item_booked_def d' ledger_post_deltas filter_append new
      by (simp add: o_def rnd [OF sub] del: filter_filter)
    with oh booked show ?thesis by (simp add: k delta_sum_entries)
  qed
qed

section \<open>What a movement touches\<close>

definition stock_only :: "db \<Rightarrow> db \<Rightarrow> bool" where
  "stock_only d d' \<longleftrightarrow> next_id d \<le> next_id d' \<and>
     d' = d\<lparr>stock := stock d', stock_ledger := stock_ledger d', locations := locations d', next_id := next_id d'\<rparr>"

lemma stock_only_refl [intro, simp]: "stock_only d d"
  by (simp add: stock_only_def)

lemma stock_only_trans: "stock_only a b \<Longrightarrow> stock_only b c \<Longrightarrow> stock_only a c"
  unfolding stock_only_def by (cases a; cases b; cases c) auto

lemma stock_only_frame [frame]:
  assumes "stock_only d d'"
  shows "order_items d' = order_items d" "orders d' = orders d" "bills d' = bills d"
    "table_sessions d' = table_sessions d" "room_sessions d' = room_sessions d"
    "outside_orders d' = outside_orders d" "idempotency d' = idempotency d" "effects d' = effects d"
    "overrides d' = overrides d" "menu_items d' = menu_items d" "payments d' = payments d"
    "cancellation_requests d' = cancellation_requests d" "change_requests d' = change_requests d"
    "stations d' = stations d" "branches d' = branches d"
    "cash_drops d' = cash_drops d" "cash_ledger d' = cash_ledger d" "shift_sessions d' = shift_sessions d"
    "financial_sessions d' = financial_sessions d" "reconciliations d' = reconciliations d"
    "daily_closes d' = daily_closes d"
  using assms by (cases d; cases d'; simp add: stock_only_def)+

lemma ensureDefaultLocation_stock_only:
  "ensureDefaultLocation t b d = Inr (l, d') \<Longrightarrow> stock_only d d'"
  by (auto simp: ensureDefaultLocation_def stock_only_def split: option.splits)

lemma upsert_stock_only: "stock_only d (upsert_balance k x s d)"
  by (auto simp: upsert_balance_def stock_only_def split: option.splits)

lemma stock_only_ledger: "stock_only d d' \<Longrightarrow> stock_only d (d'\<lparr>stock_ledger := x\<rparr>)"
  unfolding stock_only_def by (cases d; cases d') auto

lemma applyDelta_stock_only:
  assumes "applyDelta t b loc ing x meta d = Inr d'"
  shows "stock_only d d'"
proof -
  from assms obtain l d1 where d1: "stock_only d d1"
    and d': "d' = (upsert_balance (l, ing) x (dm_setAbsolute meta) d1)\<lparr>stock_ledger :=
       stock_ledger (upsert_balance (l, ing) x (dm_setAbsolute meta) d1) @
       [\<lparr>se_locationId = l, se_ingredientId = ing, se_entryType = dm_entryType meta,
         se_delta = round_half_up 4 x, se_orderItemId = dm_orderItemId meta,
         se_countSessionId = dm_countSessionId meta\<rparr>]\<rparr>"
    by (auto simp: applyDelta_def Let_def split: option.splits dest: ensureDefaultLocation_stock_only)
  show ?thesis unfolding d'
    by (rule stock_only_ledger, rule stock_only_trans [OF d1 upsert_stock_only])
qed

lemma foldR_stock_only:
  assumes "foldR f xs d = Inr d'" and "\<And>x t t'. x \<in> set xs \<Longrightarrow> f x t = Inr t' \<Longrightarrow> stock_only t t'"
  shows "stock_only d d'"
  using foldR_invariant [OF assms(1), of "stock_only d"] assms(2) stock_only_trans by blast

lemma deplete_stock_only:
  "depleteForOrderItem i t b m q d = Inr d' \<Longrightarrow> stock_only d d'"
  by (auto simp: depleteForOrderItem_def deplete_line_def split: option.splits if_splits
      elim!: foldR_stock_only dest!: applyDelta_stock_only)

lemma reverse_stock_only:
  "reverseForOrderItem i t b d = Inr d' \<Longrightarrow> stock_only d d'"
  by (auto simp: reverseForOrderItem_def reverse_entry_def Let_def split: if_splits
      elim!: foldR_stock_only dest!: applyDelta_stock_only)

end
