(* ===== verification/Seating.thy ===== *)
theory Seating
  imports Idempotency Pricing Depletion
begin

text \<open>
  What a bill, a bill request or an order is seated at: a table session or a room session.
  The two tables have the same life; \<open>seat_view\<close> is what the services read of either, and
  \<open>bump_table\<close>, \<open>bump_room\<close> are \<open>tx.tableSession.update\<close> and \<open>tx.roomSession.update\<close> with
  \<open>version: { increment: 1 }\<close>. The role guards of \<open>billing.service.ts\<close> follow.
\<close>

section \<open>Sessions\<close>

datatype seat = At_table id | At_room id

record seat_view =
  sv_seat :: seat
  sv_branch :: id
  sv_businessDate :: date
  sv_owner :: id
  sv_kind :: "session_kind option"
  sv_status :: session_status
  sv_openedAt :: time
  sv_version :: nat

definition view_table :: "table_session \<Rightarrow> seat_view" where
  "view_table s = \<lparr>sv_seat = At_table (ts_id s), sv_branch = ts_branchId s,
     sv_businessDate = ts_businessDate s, sv_owner = ts_primaryWaiter s,
     sv_kind = Some (ts_sessionKind s), sv_status = ts_status s, sv_openedAt = ts_openedAt s,
     sv_version = ts_version s\<rparr>"

definition view_room :: "room_session \<Rightarrow> seat_view" where
  "view_room s = \<lparr>sv_seat = At_room (rs_id s), sv_branch = rs_branchId s,
     sv_businessDate = rs_businessDate s, sv_owner = rs_primaryWaiter s, sv_kind = None,
     sv_status = rs_status s, sv_openedAt = rs_openedAt s, sv_version = rs_version s\<rparr>"

fun seat_of :: "seat \<Rightarrow> db \<Rightarrow> seat_view option" where
  "seat_of (At_table i) d = map_option view_table (row_by ts_id i (table_sessions d))"
| "seat_of (At_room i) d = map_option view_room (row_by rs_id i (room_sessions d))"

text \<open>\<open>row.tableSession ?? row.roomSession\<close> of a row with two nullable foreign keys.\<close>

definition seat_ref :: "id option \<Rightarrow> id option \<Rightarrow> seat option" where
  "seat_ref t r = (case t of Some i \<Rightarrow> Some (At_table i) | None \<Rightarrow> map_option At_room r)"

definition seating_of :: "id option \<Rightarrow> id option \<Rightarrow> db \<Rightarrow> seat_view option" where
  "seating_of t r d = Option.bind (seat_ref t r) (\<lambda>s. seat_of s d)"

fun seat_orders :: "seat \<Rightarrow> db \<Rightarrow> order_row list" where
  "seat_orders (At_table i) d = filter (\<lambda>o'. od_tableSessionId o' = Some i) (orders d)"
| "seat_orders (At_room i) d = filter (\<lambda>o'. od_roomSessionId o' = Some i) (orders d)"

fun seat_bill :: "seat \<Rightarrow> db \<Rightarrow> bill option" where
  "seat_bill (At_table i) d = find (\<lambda>b. bl_tableSessionId b = Some i) (bills d)"
| "seat_bill (At_room i) d = find (\<lambda>b. bl_roomSessionId b = Some i) (bills d)"

fun seat_requests :: "seat \<Rightarrow> db \<Rightarrow> bill_request list" where
  "seat_requests (At_table i) d = filter (\<lambda>r. br_tableSessionId r = Some i) (bill_requests d)"
| "seat_requests (At_room i) d = filter (\<lambda>r. br_roomSessionId r = Some i) (bill_requests d)"

text \<open>
  \<open>session.orders.flatMap(order => order.items.filter(CHARGEABLE_ITEM))\<close>, the orders and the
  items of each in the order of their confirmation.
\<close>

definition order_items_of :: "db \<Rightarrow> order_row \<Rightarrow> order_item list" where
  "order_items_of d o' = sort_key oi_confirmedAt (filter (\<lambda>i. oi_orderId i = od_id o') (order_items d))"

definition chargeable_items :: "seat \<Rightarrow> db \<Rightarrow> order_item list" where
  "chargeable_items s d =
     concat (map (\<lambda>o'. filter chargeable (order_items_of d o')) (sort_key od_confirmedAt (seat_orders s d)))"

definition seatingVip :: "table_session option \<Rightarrow> db \<Rightarrow> bool" where
  "seatingVip ts d = (case Option.bind ts (\<lambda>s. row_by dt_id (ts_tableId s) (dining_tables d)) of
      None \<Rightarrow> False | Some t \<Rightarrow> isEffectiveVip t)"

definition station_of_item :: "menu_item \<Rightarrow> db \<Rightarrow> station option" where
  "station_of_item m d = Option.bind (mi_stationId m) (\<lambda>s. row_by sn_id s (stations d))"

text \<open>A notice about one row, addressed by the fan-out it is handed to.\<close>

definition request_notice :: "string \<Rightarrow> id \<Rightarrow> notice" where
  "request_notice ty i = \<lparr>nt_type = ty, nt_recipient = None, nt_rooms = [], nt_entity = i\<rparr>"

section \<open>Updates\<close>

definition bump_table :: "id \<Rightarrow> (table_session \<Rightarrow> table_session) \<Rightarrow> db \<Rightarrow> db" where
  "bump_table i f d = d\<lparr>table_sessions :=
     update_id ts_id i (\<lambda>s. (f s)\<lparr>ts_version := ts_version s + 1\<rparr>) (table_sessions d)\<rparr>"

definition bump_room :: "id \<Rightarrow> (room_session \<Rightarrow> room_session) \<Rightarrow> db \<Rightarrow> db" where
  "bump_room i f d = d\<lparr>room_sessions :=
     update_id rs_id i (\<lambda>s. (f s)\<lparr>rs_version := rs_version s + 1\<rparr>) (room_sessions d)\<rparr>"

fun set_seat_status :: "seat \<Rightarrow> session_status \<Rightarrow> db \<Rightarrow> db" where
  "set_seat_status (At_table i) st d = bump_table i (ts_status_update (\<lambda>_. st)) d"
| "set_seat_status (At_room i) st d = bump_room i (rs_status_update (\<lambda>_. st)) d"

fun set_seat_requested :: "seat \<Rightarrow> session_status \<Rightarrow> time option \<Rightarrow> db \<Rightarrow> db" where
  "set_seat_requested (At_table i) st since d =
     bump_table i (\<lambda>s. s\<lparr>ts_status := st, ts_billRequestedAt := since\<rparr>) d"
| "set_seat_requested (At_room i) st since d =
     bump_room i (\<lambda>s. s\<lparr>rs_status := st, rs_billRequestedAt := since\<rparr>) d"

definition seat_snapshot_of :: "seat_view \<Rightarrow> seat_snapshot" where
  "seat_snapshot_of v = (case sv_seat v of
      At_table _ \<Rightarrow> Table_seat (sv_status v) (sv_version v)
    | At_room _ \<Rightarrow> Room_seat (sv_status v) (sv_version v))"

text \<open>\<open>findUniqueOrThrow\<close> on the session.\<close>

definition snapshot :: "seat \<Rightarrow> db \<Rightarrow> seat_snapshot result" where
  "snapshot s d = (case seat_of s d of
      None \<Rightarrow> Inl (DbError ''P2025'') | Some v \<Rightarrow> Inr (seat_snapshot_of v))"

lemma bump_table_frame [frame, simp]:
  "bills (bump_table i f d) = bills d" "payments (bump_table i f d) = payments d"
  "order_items (bump_table i f d) = order_items d" "orders (bump_table i f d) = orders d"
  "bill_requests (bump_table i f d) = bill_requests d"
  "room_sessions (bump_table i f d) = room_sessions d"
  "idempotency (bump_table i f d) = idempotency d" "effects (bump_table i f d) = effects d"
  "cash_drops (bump_table i f d) = cash_drops d" "cash_ledger (bump_table i f d) = cash_ledger d"
  "next_id (bump_table i f d) = next_id d" "dining_tables (bump_table i f d) = dining_tables d"
  by (simp_all add: bump_table_def)

lemma bump_room_frame [frame, simp]:
  "bills (bump_room i f d) = bills d" "payments (bump_room i f d) = payments d"
  "order_items (bump_room i f d) = order_items d" "orders (bump_room i f d) = orders d"
  "bill_requests (bump_room i f d) = bill_requests d"
  "table_sessions (bump_room i f d) = table_sessions d"
  "idempotency (bump_room i f d) = idempotency d" "effects (bump_room i f d) = effects d"
  "cash_drops (bump_room i f d) = cash_drops d" "cash_ledger (bump_room i f d) = cash_ledger d"
  "next_id (bump_room i f d) = next_id d"
  by (simp_all add: bump_room_def)

lemma set_seat_frame [frame, simp]:
  "bills (set_seat_status s st d) = bills d" "payments (set_seat_status s st d) = payments d"
  "order_items (set_seat_status s st d) = order_items d" "orders (set_seat_status s st d) = orders d"
  "bill_requests (set_seat_status s st d) = bill_requests d"
  "idempotency (set_seat_status s st d) = idempotency d" "effects (set_seat_status s st d) = effects d"
  "next_id (set_seat_status s st d) = next_id d"
  by (cases s; simp)+

lemma set_seat_requested_frame [frame, simp]:
  "bills (set_seat_requested s st a d) = bills d" "payments (set_seat_requested s st a d) = payments d"
  "order_items (set_seat_requested s st a d) = order_items d"
  "orders (set_seat_requested s st a d) = orders d"
  "bill_requests (set_seat_requested s st a d) = bill_requests d"
  "idempotency (set_seat_requested s st a d) = idempotency d"
  "effects (set_seat_requested s st a d) = effects d"
  "next_id (set_seat_requested s st a d) = next_id d"
  by (cases s; simp)+

lemma view_simps [simp]:
  "sv_seat (view_table t) = At_table (ts_id t)" "sv_status (view_table t) = ts_status t"
  "sv_version (view_table t) = ts_version t" "sv_owner (view_table t) = ts_primaryWaiter t"
  "sv_branch (view_table t) = ts_branchId t" "sv_businessDate (view_table t) = ts_businessDate t"
  "sv_kind (view_table t) = Some (ts_sessionKind t)"
  "sv_seat (view_room r) = At_room (rs_id r)" "sv_status (view_room r) = rs_status r"
  "sv_version (view_room r) = rs_version r" "sv_owner (view_room r) = rs_primaryWaiter r"
  "sv_branch (view_room r) = rs_branchId r" "sv_businessDate (view_room r) = rs_businessDate r"
  "sv_kind (view_room r) = None"
  by (simp_all add: view_table_def view_room_def)

lemma seating_of_eq_Some [inversion]:
  "seating_of t r d = Some v \<longleftrightarrow> (\<exists>s. seat_ref t r = Some s \<and> seat_of s d = Some v)"
  by (simp add: seating_of_def bind_eq_Some_conv)

lemma seat_of_SomeD: "seat_of s d = Some v \<Longrightarrow> sv_seat v = s"
  by (cases s) (auto dest: row_by_SomeD)

text \<open>A bump is read back through the view: the new status, the next version.\<close>

lemma seat_of_set_status:
  "seat_of s (set_seat_status s' st d) =
     (if s' = s then map_option (\<lambda>v. v\<lparr>sv_status := st, sv_version := sv_version v + 1\<rparr>) (seat_of s d)
      else seat_of s d)"
  by (cases s; cases s')
    (simp_all add: bump_table_def bump_room_def table_simps option.map_comp o_def view_table_def view_room_def)

lemma seat_of_set_requested:
  "seat_of s (set_seat_requested s' st a d) =
     (if s' = s then map_option (\<lambda>v. v\<lparr>sv_status := st, sv_version := sv_version v + 1\<rparr>) (seat_of s d)
      else seat_of s d)"
  by (cases s; cases s')
    (simp_all add: bump_table_def bump_room_def table_simps option.map_comp o_def view_table_def view_room_def)

lemma seat_of_cong:
  "table_sessions d = table_sessions d' \<Longrightarrow> room_sessions d = room_sessions d' \<Longrightarrow> seat_of s d = seat_of s d'"
  by (cases s) simp_all

section \<open>Guards of the billing service\<close>

definition requireWaiterOnShift :: "auth_ctx \<Rightarrow> auth_ctx result" where
  "requireWaiterOnShift c =
     bindR (requireBranch c) (\<lambda>c.
       if \<not> List.member shift_owner_roles (ax_roleCode c)
       then Inl (Forbidden ''Only the waiter can request the bill.'')
       else onShift c)"

definition requireCashierOnShift :: "env \<Rightarrow> auth_ctx \<Rightarrow> auth_ctx result" where
  "requireCashierOnShift e c =
     bindR (requireBranch c) (\<lambda>c.
     bindR (assertCan e c Act_read Sub_BillQueue ''Only the cashier can start a counter sale.'') (\<lambda>_.
       onShift c))"

definition requireCollectorOnShift :: "env \<Rightarrow> auth_ctx \<Rightarrow> auth_ctx result" where
  "requireCollectorOnShift e c =
     bindR (requireBranch c) (\<lambda>c.
     bindR (if \<not> can e c Act_collect Sub_Payment \<and> \<not> can e c Act_read Sub_BillQueue
            then assertCan e c Act_collect Sub_Payment ''Only the waiter can collect payment.''
            else Inr ()) (\<lambda>_.
       onShift c))"

definition assertPrimaryWaiter :: "auth_ctx \<Rightarrow> seat_view \<Rightarrow> unit result" where
  "assertPrimaryWaiter c v =
     (if Some (sv_owner v) \<noteq> ax_staffMembershipId c \<and> List.member shift_owner_roles (ax_roleCode c)
      then Inl (Forbidden ''This is not your table.'') else Inr ())"

definition assertCollectorForBill :: "auth_ctx \<Rightarrow> seat_view option \<Rightarrow> unit result" where
  "assertCollectorForBill c v =
     (if ax_roleCode c = ''CASHIER'' then Inr ()
      else if List.member shift_owner_roles (ax_roleCode c) then
        (if map_option sv_owner v \<noteq> ax_staffMembershipId c
         then Inl (Forbidden ''This is not your seating.'') else Inr ())
      else Inr ())"

lemma requireWaiterOnShift_eq_Inr [inversion]:
  "requireWaiterOnShift c = Inr c' \<longleftrightarrow> c' = c \<and> ax_tenantId c \<noteq> None \<and> ax_branchId c \<noteq> None \<and>
     ax_roleCode c \<in> {''WAITER'', ''DISPATCHER''} \<and>
     ax_staffMembershipId c \<noteq> None \<and> ax_shiftSessionId c \<noteq> None"
  by (auto simp: requireWaiterOnShift_def inversion shift_owner_roles_def)

lemma requireCollectorOnShift_eq_Inr [inversion]:
  "requireCollectorOnShift e c = Inr c' \<longleftrightarrow> c' = c \<and> ax_tenantId c \<noteq> None \<and> ax_branchId c \<noteq> None \<and>
     (can e c Act_collect Sub_Payment \<or> can e c Act_read Sub_BillQueue) \<and>
     ax_staffMembershipId c \<noteq> None \<and> ax_shiftSessionId c \<noteq> None"
  by (auto simp: requireCollectorOnShift_def inversion)

lemma requireCashierOnShift_eq_Inr [inversion]:
  "requireCashierOnShift e c = Inr c' \<longleftrightarrow> c' = c \<and> ax_tenantId c \<noteq> None \<and> ax_branchId c \<noteq> None \<and>
     can e c Act_read Sub_BillQueue \<and> ax_staffMembershipId c \<noteq> None \<and> ax_shiftSessionId c \<noteq> None"
  by (auto simp: requireCashierOnShift_def inversion)

lemma assertPrimaryWaiter_eq_Inr [inversion]:
  "assertPrimaryWaiter c v = Inr u \<longleftrightarrow>
     ax_staffMembershipId c = Some (sv_owner v) \<or> ax_roleCode c \<notin> {''WAITER'', ''DISPATCHER''}"
  by (auto simp: assertPrimaryWaiter_def shift_owner_roles_def)

lemma assertCollectorForBill_eq_Inr [inversion]:
  "assertCollectorForBill c v = Inr u \<longleftrightarrow>
     ax_roleCode c \<notin> {''WAITER'', ''DISPATCHER''} \<or> map_option sv_owner v = ax_staffMembershipId c"
  by (auto simp: assertCollectorForBill_def shift_owner_roles_def)

end
