(* ===== verification/Scenario.thy ===== *)
theory Scenario
  imports Access
begin

text \<open>
  One evening at one branch, the concrete state on which the properties are exercised: a
  waiter, a cashier, a kitchen and a manager; a table with an order of two dishes (one of
  them cancelled), a bill request, a bill, a cash pouch, a menu with a recipe.
\<close>

section \<open>Surroundings\<close>

text \<open>A parser of decimal texts and an injective enough digest of the bodies used below.\<close>

definition digit_value :: "char \<Rightarrow> nat" where
  "digit_value ch = of_char ch - 48"

definition read_nat :: "string \<Rightarrow> nat" where
  "read_nat s = foldl (\<lambda>a ch. 10 * a + digit_value ch) 0 s"

definition read_decimal :: "string \<Rightarrow> decimal" where
  "read_decimal s =
     (let whole = takeWhile (\<lambda>ch. ch \<noteq> CHR ''.'') s; frac = drop 1 (dropWhile (\<lambda>ch. ch \<noteq> CHR ''.'') s)
      in of_nat (read_nat whole) + of_nat (read_nat frac) / 10 ^ length frac)"

fun digest :: "request \<Rightarrow> string" where
  "digest (Req_PayCash b a t v) = ''cash'' @ show_nat b @ '','' @ a @ '','' @ t @ '','' @ show_nat v"
| "digest (Req_InitiateDrop a) = ''drop'' @ a"
| "digest (Req_GenerateBill r t m) = ''bill'' @ show_nat r"
| "digest (Req_BillTable s v) = ''request'' @ show_nat s @ '','' @ show_nat v"
| "digest _ = ''other''"

definition bank_reply :: "verify_request \<Rightarrow> verify_reply" where
  "bank_reply q = \<lparr>vr_verified = True, vr_confirmedBefore = Some False,
     vr_isFirstConfirmation = Some True, vr_timestamp = Some 990000, vr_amount = Some 250,
     vr_reference = Some ''ft100''\<rparr>"

definition evening :: env where
  "evening = \<lparr>env_now = 1000000, env_tzOffset = 10800000, env_hash = digest, env_pinOk = (=),
     env_decimal = read_decimal, env_verifyEnabled = True, env_verify = bank_reply,
     env_ability = casl_can\<rparr>"

definition later :: env where
  "later = evening\<lparr>env_now := 1060000\<rparr>"

section \<open>Staff\<close>

definition staff_member :: "id \<Rightarrow> id \<Rightarrow> string \<Rightarrow> id option \<Rightarrow> id \<Rightarrow> string list \<Rightarrow> auth_ctx" where
  "staff_member u m role st sh ps = \<lparr>ax_userId = u, ax_tenantId = Some 1, ax_branchId = Some 2,
     ax_staffMembershipId = Some m, ax_roleCode = role, ax_stationId = st,
     ax_shiftSessionId = Some sh, ax_permissions = ps\<rparr>"

definition waiter :: auth_ctx where
  "waiter = staff_member 100 10 ''WAITER'' None 30
     [''order.create'', ''order.serve'', ''order.update'', ''order.send_kitchen'', ''bill.request'',
      ''payment.collect_cash'', ''cash_drop.initiate'', ''cash_pouch.read'', ''table.start_session'']"

definition cashier :: auth_ctx where
  "cashier = staff_member 101 11 ''CASHIER'' None 31
     [''bill.generate'', ''bill.queue_read'', ''cash_drop.receive'', ''cash_drop.read'',
      ''cashier.reconcile'']"

definition cook :: auth_ctx where
  "cook = staff_member 102 12 ''STATION_STAFF'' (Some 7) 32
     [''station.acknowledge'', ''station.start_preparation'', ''station.mark_ready'',
      ''station.report_cannot_prepare'', ''station.operate'', ''station.read'']"

definition manager :: auth_ctx where
  "manager = staff_member 103 13 ''MANAGER'' None 33
     [''approval.manage'', ''order.update'', ''cash_drop.resolve_dispute'', ''inventory.manage'',
      ''table.close_paid'', ''station.manage'', ''menu.manage'', ''payment.settle'']"

section \<open>The floor\<close>

definition table_20 :: dining_table where
  "table_20 = \<lparr>dt_id = 20, dt_tenantId = 1, dt_branchId = 2, dt_locationId = 21,
     dt_displayName = ''Table 20'', dt_displayNumber = Some ''20'', dt_status = ''OCCUPIED'', dt_isVip = False,
     dt_locationIsVip = False, dt_locationCode = ''MAIN'', dt_assignedWaiter = Some 10,
     dt_archivedAt = None, dt_sortOrder = 1, dt_version = 1\<rparr>"

definition session_40 :: table_session where
  "session_40 = \<lparr>ts_id = 40, ts_branchId = 2, ts_tableId = 20, ts_businessDate = 0,
     ts_primaryWaiter = 10, ts_primaryShift = 30, ts_sessionKind = DINE_IN, ts_customerName = None,
     ts_customerPhone = None, ts_guestCount = Some 4,
     ts_status = S_ACTIVE_ORDER, ts_openedAt = 500000, ts_billRequestedAt = None,
     ts_closedAt = None, ts_closedBy = None, ts_closeReason = None, ts_idleAlertAt = None,
     ts_version = 2\<rparr>"

definition order_41 :: order_row where
  "order_41 = \<lparr>od_id = 41, od_branchId = 2, od_businessDate = 0, od_tableSessionId = Some 40,
     od_roomSessionId = None, od_outsideOrderId = None, od_createdBy = 10, od_waiterShift = 30,
     od_status = ''CONFIRMED'', od_confirmedAt = 600000\<rparr>"

definition item_42 :: order_item where
  "item_42 = \<lparr>oi_id = 42, oi_tenantId = 1, oi_branchId = 2, oi_businessDate = 0, oi_orderId = 41,
     oi_tableSessionId = Some 40, oi_roomSessionId = None, oi_outsideOrderId = None,
     oi_menuItemId = Some 80, oi_itemName = ''Tibs'', oi_unitPrice = 100, oi_quantity = 2,
     oi_originalStation = 7, oi_currentStation = 7, oi_stationName = ''Kitchen'',
     oi_prepMinutes = Some 15, oi_instruction = None, oi_state = QUEUED,
     oi_confirmedAt = 600000, oi_queuedAt = Some 600000, oi_acknowledgedAt = None,
     oi_preparationStartedAt = None, oi_readyAt = None, oi_servedAt = None,
     oi_cancelledAt = None, oi_cancelledBy = None, oi_cancellationReason = None,
     oi_unackAlertAt = None, oi_delayAlertAt = None, oi_version = 1,
     oi_modifiers = [\<lparr>im_groupId = 90, im_optionId = 91, im_groupName = ''Extra'',
       im_optionName = ''Awaze'', im_priceDelta = 25 / 2, im_sortOrder = 0\<rparr>]\<rparr>"

definition item_43 :: order_item where
  "item_43 = item_42\<lparr>oi_id := 43, oi_state := CANCELLED, oi_cancelledAt := Some 650000,
     oi_version := 2, oi_modifiers := []\<rparr>"

definition kitchen :: station where
  "kitchen = \<lparr>sn_id = 7, sn_branchId = 2, sn_name = ''Kitchen'', sn_status = ''ACTIVE'',
     sn_workflowMode = Some ''FULL''\<rparr>"

definition tibs :: menu_item where
  "tibs = \<lparr>mi_id = 80, mi_tenantId = 1, mi_menuTenantId = 1, mi_menuBranchId = Some 2,
     mi_menuStatus = ''ACTIVE'', mi_name = ''Tibs'', mi_currentPrice = 100, mi_vipPercent = None,
     mi_expectedPrepMinutes = Some 15, mi_status = ''ACTIVE'', mi_soldOut = False,
     mi_showOnQrMenu = True,
     mi_stationId = Some 7, mi_modifiers = [], mi_version = 1\<rparr>"

definition bole :: branch where
  "bole = \<lparr>bc_id = 2, bc_tenantId = 1, bc_name = ''Bole branch'', bc_displayCode = ''BOLE'',
     bc_serviceMode = ''FULL_SERVICE''\<rparr>"

definition shift_of_staff :: "id \<Rightarrow> id \<Rightarrow> string \<Rightarrow> shift_session" where
  "shift_of_staff i m role = \<lparr>sh_id = i, sh_branchId = 2, sh_staff = m, sh_roleCode = Some role,
     sh_assignment = None, sh_scheduledStart = Some 0, sh_scheduledEnd = Some 28800000, sh_graceMinutes = 15,
     sh_clockInAt = 100000,
     sh_clockOutAt = None, sh_lateByMinutes = 0, sh_state = ''OPEN'', sh_businessDate = 0, sh_version = 1\<rparr>"

definition floor_db :: db where
  "floor_db = empty_db\<lparr>dining_tables := [table_20], table_sessions := [session_40],
     orders := [order_41], order_items := [item_42, item_43], stations := [kitchen],
     menu_items := [tibs], branches := [bole],
     shift_sessions := [shift_of_staff 30 10 ''WAITER'', shift_of_staff 31 11 ''CASHIER''], files := [70],
     next_id := 1000\<rparr>"

definition request_50 :: bill_request where
  "request_50 = \<lparr>br_id = 50, br_branchId = 2, br_businessDate = 0, br_tableSessionId = Some 40,
     br_roomSessionId = None, br_requestedBy = 10, br_requestedAt = 700000,
     br_status = R_PENDING, br_cancelledAt = None, br_fulfilledAt = None\<rparr>"

definition requested_db :: db where
  "requested_db = floor_db\<lparr>bill_requests := [request_50],
     table_sessions := [session_40\<lparr>ts_status := S_BILL_REQUESTED,
       ts_billRequestedAt := Some 700000, ts_version := 3\<rparr>]\<rparr>"

definition bill_60 :: bill where
  "bill_60 = \<lparr>bl_id = 60, bl_branchId = 2, bl_businessDate = 0, bl_tableSessionId = Some 40,
     bl_roomSessionId = None, bl_billNumber = ''BOLE-19700101-0001'', bl_status = B_GENERATED,
     bl_subtotal = 225, bl_cancelled = 0, bl_total = 225, bl_amountPaid = 0, bl_generatedBy = 11,
     bl_generatedAt = 800000, bl_paidAt = None, bl_closedAt = None, bl_closedBy = None,
     bl_version = 1,
     bl_lines = [\<lparr>ln_orderItemId = Some 42, ln_itemName = ''Tibs'', ln_quantity = 2,
       ln_unitPrice = 100, ln_modifierTotal = 25 / 2, ln_lineTotal = 225,
       ln_chargeStatus = ''CHARGED'', ln_sortOrder = 0\<rparr>]\<rparr>"

definition billed_db :: db where
  "billed_db = floor_db\<lparr>bills := [bill_60],
     bill_requests := [request_50\<lparr>br_status := R_FULFILLED, br_fulfilledAt := Some 800000\<rparr>],
     table_sessions := [session_40\<lparr>ts_status := S_BILL_READY, ts_version := 4\<rparr>]\<rparr>"

definition no_totals :: close_totals where
  "no_totals = \<lparr>ct_gross = 0, ct_cancelled = 0, ct_netBilled = 0, ct_cashSales = 0,
     ct_verifiedTransfers = 0, ct_pendingTransfers = 0, ct_suspiciousTransfers = 0,
     ct_cashierExpected = 0, ct_cashierCounted = 0, ct_cashierVariance = 0, ct_undropped = 0\<rparr>"

definition locked_close :: daily_close where
  "locked_close = \<lparr>dc_id = 15, dc_branchId = 2, dc_businessDate = 0, dc_status = ''LOCKED'',
     dc_generatedBy = 13, dc_approvedAt = Some 950000, dc_approvedBy = Some 13,
     dc_lockedAt = Some 960000, dc_lockedBy = Some 13, dc_totals = no_totals, dc_tableCount = 0,
     dc_orderCount = 0, dc_itemCount = 0, dc_blockers = [], dc_version = 3, dc_waiterLines = [],
     dc_stationLines = []\<rparr>"

section \<open>Runs\<close>

lemma run_result:
  "(case m of Inl _ \<Rightarrow> False | Inr (r, d) \<Rightarrow> P r d) \<Longrightarrow> \<exists>r d. m = Inr (r, d) \<and> P r d"
  by (auto split: sum.splits prod.splits)

lemma run_results:
  assumes "case m of Inl _ \<Rightarrow> False | Inr (r, d) \<Rightarrow>
     (case k d of Inl _ \<Rightarrow> False | Inr (r', d') \<Rightarrow> P r d r' d')"
  shows "\<exists>r d r' d'. m = Inr (r, d) \<and> k d = Inr (r', d') \<and> P r d r' d'"
proof -
  from assms obtain r d where m: "m = Inr (r, d)" by (auto split: sum.splits)
  with assms show ?thesis by (cases "k d") (auto split: prod.splits)
qed

lemma run_pairE:
  assumes "bindR m (\<lambda>(a, b). k a b) = Inr y"
  obtains a b where "m = Inr (a, b)" and "k a b = Inr y"
  using assms by (cases m) auto

lemma floor_db_ok: "db_ok floor_db"
  by code_simp

lemma requested_db_ok: "db_ok requested_db"
  by code_simp

lemma billed_db_ok: "db_ok billed_db"
  by code_simp

end
