(* ===== verification/BillRequests.thy ===== *)
theory BillRequests
  imports Seating Scenario "HOL-Library.Multiset"
begin

text \<open>
  The life of a bill up to its payment (\<open>src/billing/billing.service.ts\<close>): a waiter requests
  the bill of a table or a room or withdraws the request, the cashier lists the requests and
  generates the bill, and a bakery sells over the counter (session, order and bill in one
  transaction). Texts that only name things on a screen are left out of the responses.
\<close>

section \<open>Requesting a bill\<close>

definition requestable :: "session_status list" where
  "requestable = [S_OPEN, S_ACTIVE_ORDER, S_ATTENTION_REQUIRED]"

definition checkRequestable :: "auth_ctx \<Rightarrow> nat \<Rightarrow> seat_view \<Rightarrow> db \<Rightarrow> unit result" where
  "checkRequestable c expected v d =
     bindR (assertPrimaryWaiter c v) (\<lambda>_.
       if sv_version v \<noteq> expected then Inl (StaleVersion (sv_version v))
       else if sv_status v \<notin> set requestable then Inl (Unprocessable ''SESSION_NOT_BILLABLE'')
       else if seat_bill (sv_seat v) d \<noteq> None then Inl (Conflict ''BILL_ALREADY_EXISTS'')
       else if filter (\<lambda>r. br_status r = R_PENDING) (seat_requests (sv_seat v) d) \<noteq> []
         then Inl (Conflict ''BILL_REQUEST_PENDING'')
       else if chargeable_items (sv_seat v) d = [] then Inl (Unprocessable ''BILL_REQUEST_EMPTY'')
       else Inr ())"

definition bill_request_row :: "auth_ctx \<Rightarrow> seat_view \<Rightarrow> time \<Rightarrow> id \<Rightarrow> bill_request" where
  "bill_request_row c v now i = \<lparr>br_id = i, br_branchId = branch_of c,
     br_businessDate = sv_businessDate v,
     br_tableSessionId = (case sv_seat v of At_table t \<Rightarrow> Some t | At_room _ \<Rightarrow> None),
     br_roomSessionId = (case sv_seat v of At_room r \<Rightarrow> Some r | At_table _ \<Rightarrow> None),
     br_requestedBy = staff_of c, br_requestedAt = now, br_status = R_PENDING,
     br_cancelledAt = None, br_fulfilledAt = None\<rparr>"

text \<open>The transaction of \<open>requestBill\<close> and the alert to the cashiers after it.\<close>

definition requestTx ::
  "env \<Rightarrow> auth_ctx \<Rightarrow> command_key \<Rightarrow> request \<Rightarrow> seat_view \<Rightarrow> db \<Rightarrow> (response \<times> db) result" where
  "requestTx e c k body v d =
     (let now = env_now e; i = next_id d;
          d1 = d\<lparr>bill_requests := bill_requests d @ [bill_request_row c v now i], next_id := i + 1\<rparr>;
          d2 = set_seat_requested (sv_seat v) S_BILL_REQUESTED (Some now) d1
      in bindR (snapshot (sv_seat v) d2) (\<lambda>s.
         let created = Res_BillRequest i R_PENDING now s
         in bindR (commit (storeIdempotent (env_hash e) i k body created d2)) (\<lambda>d3.
            Inr (created, emit (Notify_cashiers (request_notice ''bill.request.created'' i)) d3))))"

definition requestBillBody :: "env \<Rightarrow> auth_ctx \<Rightarrow> command_key \<Rightarrow> id \<Rightarrow> nat \<Rightarrow> db \<Rightarrow> (response \<times> db) result" where
  "requestBillBody e c k sid expected d =
     (case find (\<lambda>s. ts_id s = sid \<and> ts_branchId s = branch_of c) (table_sessions d) of
        None \<Rightarrow> Inl (NotFound ''Table session not found.'')
      | Some s \<Rightarrow>
          bindR (checkRequestable c expected (view_table s) d) (\<lambda>_.
            requestTx e c k (Req_BillTable sid expected) (view_table s) d))"

definition requestBill ::
  "env \<Rightarrow> auth_ctx \<Rightarrow> id \<Rightarrow> nat \<Rightarrow> string option \<Rightarrow> db \<Rightarrow> (response \<times> db) result" where
  "requestBill e c sid expected key d =
     bindR (requireWaiterOnShift c) (\<lambda>c.
     bindR (requireIdempotencyKey key) (\<lambda>s.
       let k = command_key c ''bill.request'' s
       in guarded_command e k (Req_BillTable sid expected) (requestBillBody e c k sid expected) d))"

definition requestRoomBody :: "env \<Rightarrow> auth_ctx \<Rightarrow> command_key \<Rightarrow> id \<Rightarrow> nat \<Rightarrow> db \<Rightarrow> (response \<times> db) result" where
  "requestRoomBody e c k sid expected d =
     (case find (\<lambda>s. rs_id s = sid \<and> rs_branchId s = branch_of c) (room_sessions d) of
        None \<Rightarrow> Inl (NotFound ''Room session not found.'')
      | Some s \<Rightarrow>
          bindR (checkRequestable c expected (view_room s) d) (\<lambda>_.
            requestTx e c k (Req_BillRoom sid expected) (view_room s) d))"

definition requestBillForRoom ::
  "env \<Rightarrow> auth_ctx \<Rightarrow> id \<Rightarrow> nat \<Rightarrow> string option \<Rightarrow> db \<Rightarrow> (response \<times> db) result" where
  "requestBillForRoom e c sid expected key d =
     bindR (requireWaiterOnShift c) (\<lambda>c.
     bindR (requireIdempotencyKey key) (\<lambda>s.
       let k = command_key c ''bill.request'' s
       in guarded_command e k (Req_BillRoom sid expected) (requestRoomBody e c k sid expected) d))"

definition cancelBillRequest :: "env \<Rightarrow> auth_ctx \<Rightarrow> id \<Rightarrow> db \<Rightarrow> (response \<times> db) result" where
  "cancelBillRequest e c rid d =
     bindR (requireWaiterOnShift c) (\<lambda>c.
       case find (\<lambda>r. br_id r = rid \<and> br_branchId r = branch_of c) (bill_requests d) of
         None \<Rightarrow> Inl (NotFound ''Bill request not found.'')
       | Some r \<Rightarrow>
           (case seating_of (br_tableSessionId r) (br_roomSessionId r) d of
              None \<Rightarrow> Inl (NotFound ''Bill request seating missing.'')
            | Some v \<Rightarrow>
                bindR (assertPrimaryWaiter c v) (\<lambda>_.
                  if br_status r \<noteq> R_PENDING then Inl (Unprocessable ''BILL_REQUEST_NOT_PENDING'')
                  else
                    let d1 = d\<lparr>bill_requests := update_id br_id rid
                          (\<lambda>r. r\<lparr>br_status := R_CANCELLED, br_cancelledAt := Some (env_now e)\<rparr>)
                          (bill_requests d)\<rparr>;
                        hasOrders = length (seat_orders (sv_seat v) d);
                        d2 = set_seat_requested (sv_seat v)
                          (if hasOrders > 0 then S_ACTIVE_ORDER else S_OPEN) None d1
                    in bindR (snapshot (sv_seat v) d2) (\<lambda>s.
                       bindR (commit d2) (\<lambda>d3.
                         Inr (Res_BillRequest rid R_CANCELLED (br_requestedAt r) s, d3))))))"

section \<open>The cashier's queue\<close>

record cashier_request =
  cq_billRequestId :: id
  cq_tableSessionId :: "id option"
  cq_roomSessionId :: "id option"
  cq_waiter :: id
  cq_requestedAt :: time
  cq_ageSeconds :: int
  cq_estimated :: decimal
  cq_expectedVersion :: "nat option"
  cq_warnings :: "string list"

definition seat_items_or_none :: "seat_view option \<Rightarrow> db \<Rightarrow> order_item list" where
  "seat_items_or_none v d = (case v of None \<Rightarrow> [] | Some v \<Rightarrow> chargeable_items (sv_seat v) d)"

definition request_warnings :: "order_item list \<Rightarrow> string list" where
  "request_warnings is =
     (if list_ex (\<lambda>i. oi_state i \<in> set [QUEUED, ACKNOWLEDGED, IN_PREPARATION, READY]) is
      then [''UNSERVED_ITEMS''] else []) @
     (if list_ex (\<lambda>i. oi_state i = CANNOT_PREPARE) is then [''PRODUCTION_EXCEPTION''] else [])"

definition cashier_request_of :: "env \<Rightarrow> db \<Rightarrow> bill_request \<Rightarrow> cashier_request" where
  "cashier_request_of e d r =
     (let v = seating_of (br_tableSessionId r) (br_roomSessionId r) d;
          items = seat_items_or_none v d
      in \<lparr>cq_billRequestId = br_id r, cq_tableSessionId = br_tableSessionId r,
          cq_roomSessionId = br_roomSessionId r, cq_waiter = br_requestedBy r,
          cq_requestedAt = br_requestedAt r,
          cq_ageSeconds = max 0 ((env_now e - br_requestedAt r) div 1000),
          cq_estimated = money (sum_list (map lineTotal items)),
          cq_expectedVersion = map_option sv_version v,
          cq_warnings = request_warnings items\<rparr>)"

definition listCashierBillRequests :: "env \<Rightarrow> auth_ctx \<Rightarrow> db \<Rightarrow> cashier_request list result" where
  "listCashierBillRequests e c d =
     bindR (requireBranch c) (\<lambda>c.
     bindR (assertCan e c Act_read Sub_BillQueue ''Bill request queue is for cashiers.'') (\<lambda>_.
       Inr (map (cashier_request_of e d) (sort_key br_requestedAt
         (filter (\<lambda>r. br_branchId r = branch_of c \<and> br_status r = R_PENDING) (bill_requests d))))))"

section \<open>Generating the bill\<close>

definition bill_lines_of :: "order_item list \<Rightarrow> bill_line list" where
  "bill_lines_of is = map (\<lambda>(k, i). \<lparr>ln_orderItemId = Some (oi_id i), ln_itemName = oi_itemName i,
     ln_quantity = oi_quantity i, ln_unitPrice = oi_unitPrice i,
     ln_modifierTotal = dp2 (modifierTotal (oi_modifiers i)), ln_lineTotal = dp2 (lineTotal i),
     ln_chargeStatus = ''CHARGED'', ln_sortOrder = k\<rparr>) (List.enumerate 0 is)"

definition bill_sequence :: "id \<Rightarrow> date \<Rightarrow> db \<Rightarrow> nat" where
  "bill_sequence b day d = count_where (\<lambda>x. bl_branchId x = b \<and> bl_businessDate x = day) (bills d)"

definition new_bill_number :: "env \<Rightarrow> id \<Rightarrow> date \<Rightarrow> db \<Rightarrow> string" where
  "new_bill_number e b day d =
     bill_number (bill_prefix (row_by bc_id b (branches d))) (localYmd (env_tzOffset e) day)
       (bill_sequence b day d)"

definition bill_row ::
  "auth_ctx \<Rightarrow> id option \<Rightarrow> id option \<Rightarrow> date \<Rightarrow> string \<Rightarrow> order_item list \<Rightarrow> time \<Rightarrow> id \<Rightarrow> bill" where
  "bill_row c t r day number is now i =
     (let subtotal = sum_list (map lineTotal is)
      in \<lparr>bl_id = i, bl_branchId = branch_of c, bl_businessDate = day, bl_tableSessionId = t,
          bl_roomSessionId = r, bl_billNumber = number, bl_status = B_GENERATED,
          bl_subtotal = dp2 subtotal, bl_cancelled = 0, bl_total = dp2 subtotal, bl_amountPaid = 0,
          bl_generatedBy = staff_of c, bl_generatedAt = now, bl_paidAt = None,
          bl_closedAt = None, bl_closedBy = None, bl_version = 1, bl_lines = bill_lines_of is\<rparr>)"

definition toBillDto :: "bill \<Rightarrow> bool \<Rightarrow> bill_dto" where
  "toBillDto b isVip =
     \<lparr>bd_billId = bl_id b, bd_tableSessionId = bl_tableSessionId b,
      bd_roomSessionId = bl_roomSessionId b, bd_billNumber = bl_billNumber b, bd_isVip = isVip,
      bd_status = bl_status b, bd_subtotal = money (bl_subtotal b), bd_total = money (bl_total b),
      bd_amountPaid = money (bl_amountPaid b), bd_generatedAt = bl_generatedAt b,
      bd_paidAt = bl_paidAt b, bd_version = bl_version b,
      bd_lines = map (\<lambda>l. \<lparr>bld_orderItemId = ln_orderItemId l, bld_itemName = ln_itemName l,
        bld_quantity = ln_quantity l, bld_unitPrice = money (ln_unitPrice l),
        bld_lineTotal = money (ln_lineTotal l), bld_chargeStatus = ln_chargeStatus l\<rparr>) (bl_lines b)\<rparr>"

definition dispatcherMayGenerate :: "auth_ctx \<Rightarrow> table_session option \<Rightarrow> unit result" where
  "dispatcherMayGenerate c ts =
     (if ax_roleCode c = ''DISPATCHER'' then
        (case ts of
           None \<Rightarrow> Inl (Forbidden ''Dispatchers can only generate bills for their call pickup orders.'')
         | Some s \<Rightarrow>
             if ts_sessionKind s \<noteq> CALL_PICKUP \<or> Some (ts_primaryWaiter s) \<noteq> ax_staffMembershipId c
             then Inl (Forbidden ''Dispatchers can only generate bills for their call pickup orders.'')
             else Inr ())
      else Inr ())"

text \<open>The transaction of \<open>generateBill\<close>.\<close>

definition generateTx ::
  "env \<Rightarrow> auth_ctx \<Rightarrow> command_key \<Rightarrow> request \<Rightarrow> bill_request \<Rightarrow> seat_view \<Rightarrow> order_item list \<Rightarrow> bool \<Rightarrow>
     db \<Rightarrow> (response \<times> db) result" where
  "generateTx e c k body r v is vip d =
     (let now = env_now e; i = next_id d;
          bill = bill_row c (br_tableSessionId r) (br_roomSessionId r) (sv_businessDate v)
            (new_bill_number e (branch_of c) (sv_businessDate v) d) is now i;
          d1 = d\<lparr>bills := bills d @ [bill], next_id := i + 1,
             bill_requests := update_id br_id (br_id r)
               (\<lambda>x. x\<lparr>br_status := R_FULFILLED, br_fulfilledAt := Some now\<rparr>) (bill_requests d)\<rparr>;
          d2 = set_seat_status (sv_seat v) S_BILL_READY d1;
          payload = Res_Bill (toBillDto bill vip)
      in bindR (commit (storeIdempotent (env_hash e) i k body payload d2)) (\<lambda>d3. Inr (payload, d3)))"

definition generateBody ::
  "env \<Rightarrow> auth_ctx \<Rightarrow> command_key \<Rightarrow> id \<Rightarrow> nat option \<Rightarrow> nat option \<Rightarrow> db \<Rightarrow> (response \<times> db) result" where
  "generateBody e c k rid expTable expRoom d =
     (case find (\<lambda>r. br_id r = rid \<and> br_branchId r = branch_of c) (bill_requests d) of
        None \<Rightarrow> Inl (NotFound ''Bill request not found.'')
      | Some r \<Rightarrow>
          let ts = Option.bind (br_tableSessionId r) (\<lambda>i. row_by ts_id i (table_sessions d))
          in case seating_of (br_tableSessionId r) (br_roomSessionId r) d of
               None \<Rightarrow> Inl (NotFound ''Bill request seating missing.'')
             | Some v \<Rightarrow>
                 bindR (dispatcherMayGenerate c ts) (\<lambda>_.
                 if br_status r \<noteq> R_PENDING then Inl (Unprocessable ''BILL_REQUEST_NOT_PENDING'')
                 else if seat_bill (sv_seat v) d \<noteq> None then Inl (Conflict ''BILL_ALREADY_EXISTS'')
                 else if Some (sv_version v) \<noteq> (if ts \<noteq> None then expTable else expRoom)
                   then Inl (StaleVersion (sv_version v))
                 else
                   let items = chargeable_items (sv_seat v) d
                   in if items = [] then Inl (Unprocessable ''BILL_GENERATION_BLOCKED'')
                      else generateTx e c k (Req_GenerateBill rid expTable expRoom) r v items
                             (seatingVip ts d) d))"

definition generateBill ::
  "env \<Rightarrow> auth_ctx \<Rightarrow> id \<Rightarrow> nat option \<Rightarrow> nat option \<Rightarrow> string option \<Rightarrow> db \<Rightarrow> (response \<times> db) result" where
  "generateBill e c rid expTable expRoom key d =
     bindR (requireBranch c) (\<lambda>c.
     bindR (assertCan e c Act_generate Sub_Bill ''Only cashier or manager can generate bills.'') (\<lambda>_.
       if ax_staffMembershipId c = None then Inl (Forbidden ''No restaurant membership for this account.'')
       else bindR (requireIdempotencyKey key) (\<lambda>s.
         let k = command_key c ''bill.generate'' s
         in guarded_command e k (Req_GenerateBill rid expTable expRoom)
              (generateBody e c k rid expTable expRoom) d)))"

section \<open>Counter sale\<close>

definition counterTable :: "auth_ctx \<Rightarrow> db \<Rightarrow> dining_table option" where
  "counterTable c d = (case sort_key dt_sortOrder
       (filter (\<lambda>t. dt_branchId t = branch_of c \<and> dt_status t \<noteq> ''RETIRED'') (dining_tables d)) of
      [] \<Rightarrow> None | t # _ \<Rightarrow> Some t)"

text \<open>\<open>menuById\<close>: the active items of the tenant that the lines name.\<close>

definition menuById :: "auth_ctx \<Rightarrow> id list \<Rightarrow> db \<Rightarrow> menu_item list" where
  "menuById c ids d =
     filter (\<lambda>m. mi_id m \<in> set ids \<and> mi_tenantId m = tenant_of c \<and> mi_status m = ''ACTIVE'') (menu_items d)"

definition counterLine ::
  "menu_item list \<Rightarrow> db \<Rightarrow> id \<times> nat \<Rightarrow> (menu_item \<times> station \<times> nat) result" where
  "counterLine menu d line =
     (case row_by mi_id (fst line) menu of
        None \<Rightarrow> Inl (Unprocessable ''MENU_ITEM_STATION_MISSING'')
      | Some m \<Rightarrow> (case station_of_item m d of
            None \<Rightarrow> Inl (Unprocessable ''MENU_ITEM_STATION_MISSING'')
          | Some s \<Rightarrow> if sn_status s \<noteq> ''ACTIVE'' then Inl (Unprocessable ''MENU_ITEM_STATION_MISSING'')
                       else Inr (m, s, snd line)))"

definition counter_item ::
  "auth_ctx \<Rightarrow> date \<Rightarrow> time \<Rightarrow> id \<Rightarrow> id \<Rightarrow> nat \<times> menu_item \<times> station \<times> nat \<Rightarrow> order_item" where
  "counter_item c day now sid oid = (\<lambda>(i, m, s, q).
     \<lparr>oi_id = i, oi_tenantId = tenant_of c, oi_branchId = branch_of c, oi_businessDate = day,
      oi_orderId = oid, oi_tableSessionId = Some sid, oi_roomSessionId = None,
      oi_outsideOrderId = None, oi_menuItemId = Some (mi_id m), oi_itemName = mi_name m,
      oi_unitPrice = mi_currentPrice m, oi_quantity = q, oi_originalStation = sn_id s,
      oi_currentStation = sn_id s, oi_stationName = sn_name s,
      oi_prepMinutes = mi_expectedPrepMinutes m, oi_instruction = None, oi_state = SERVED,
      oi_confirmedAt = now, oi_queuedAt = None, oi_acknowledgedAt = None,
      oi_preparationStartedAt = None, oi_readyAt = None, oi_servedAt = Some now,
      oi_cancelledAt = None, oi_cancelledBy = None, oi_cancellationReason = None,
      oi_unackAlertAt = None, oi_delayAlertAt = None, oi_version = 1, oi_modifiers = []\<rparr>)"

definition close_leftover :: "auth_ctx \<Rightarrow> id \<Rightarrow> time \<Rightarrow> table_session list \<Rightarrow> table_session list" where
  "close_leftover c tid now = update_many (\<lambda>s. ts_tableId s = tid \<and> ts_open s)
     (\<lambda>s. s\<lparr>ts_status := S_CLOSED, ts_closedAt := Some now, ts_closedBy := ax_staffMembershipId c,
            ts_version := ts_version s + 1\<rparr>)"

definition counter_session :: "auth_ctx \<Rightarrow> id \<Rightarrow> date \<Rightarrow> time \<Rightarrow> id \<Rightarrow> table_session" where
  "counter_session c tid day now sid =
     \<lparr>ts_id = sid, ts_branchId = branch_of c, ts_tableId = tid, ts_businessDate = day,
      ts_primaryWaiter = staff_of c, ts_primaryShift = shift_of c, ts_sessionKind = COUNTER,
      ts_customerName = None, ts_customerPhone = None, ts_guestCount = None,
      ts_status = S_OPEN, ts_openedAt = now, ts_billRequestedAt = None, ts_closedAt = None,
      ts_closedBy = None, ts_closeReason = None, ts_idleAlertAt = None, ts_version = 1\<rparr>"

definition counterTx ::
  "env \<Rightarrow> auth_ctx \<Rightarrow> command_key \<Rightarrow> request \<Rightarrow> dining_table \<Rightarrow> (menu_item \<times> station \<times> nat) list \<Rightarrow>
     db \<Rightarrow> (response \<times> db) result" where
  "counterTx e c k body table lines d =
     (let now = env_now e; day = businessDateUtc now; sid = next_id d; oid = sid + 1; bid = sid + 2;
          items = map (counter_item c day now sid oid) (List.enumerate (sid + 3) lines);
          bill = bill_row c (Some sid) None day (new_bill_number e (branch_of c) day d) items now bid;
          d1 = d\<lparr>table_sessions := close_leftover c (dt_id table) now (table_sessions d) @
                   [counter_session c (dt_id table) day now sid],
                 orders := orders d @ [\<lparr>od_id = oid, od_branchId = branch_of c, od_businessDate = day,
                   od_tableSessionId = Some sid, od_roomSessionId = None, od_outsideOrderId = None,
                   od_createdBy = staff_of c, od_waiterShift = shift_of c, od_status = ''CONFIRMED'',
                   od_confirmedAt = now\<rparr>],
                 order_items := order_items d @ items,
                 bills := bills d @ [bill],
                 next_id := sid + 3 + length lines\<rparr>;
          payload = Res_Bill (toBillDto bill False)
      in bindR (commit (storeIdempotent (env_hash e) bid k body payload d1)) (\<lambda>d2. Inr (payload, d2)))"

definition counterBody ::
  "env \<Rightarrow> auth_ctx \<Rightarrow> command_key \<Rightarrow> (id \<times> nat) list \<Rightarrow> db \<Rightarrow> (response \<times> db) result" where
  "counterBody e c k items d =
     (case counterTable c d of
        None \<Rightarrow> Inl (Unprocessable ''COUNTER_TABLE_MISSING'')
      | Some table \<Rightarrow>
          let ids = remdups (map fst items); menu = menuById c ids d
          in if length menu \<noteq> length ids then Inl (Unprocessable ''MENU_ITEM_NOT_FOUND'')
             else bindR (mapR (counterLine menu d) items) (\<lambda>lines.
               counterTx e c k (Req_CounterSale items) table lines d))"

definition createCounterSale ::
  "env \<Rightarrow> auth_ctx \<Rightarrow> (id \<times> nat) list \<Rightarrow> string option \<Rightarrow> db \<Rightarrow> (response \<times> db) result" where
  "createCounterSale e c items key d =
     bindR (requireCashierOnShift e c) (\<lambda>c.
       if map_option bc_serviceMode (row_by bc_id (branch_of c) (branches d)) \<noteq> Some ''BAKERY''
       then Inl (Forbidden ''Counter sale is only for bakery branches.'')
       else bindR (requireIdempotencyKey key) (\<lambda>s.
         let k = command_key c ''bill.counter_sale'' s
         in guarded_command e k (Req_CounterSale items) (counterBody e c k items) d))"

section \<open>Totals\<close>

lemma ln_lineTotal_bill_lines: "map ln_lineTotal (bill_lines_of is) = map (\<lambda>i. dp2 (lineTotal i)) is"
  by (simp add: bill_lines_of_def case_prod_beta o_def)
    (metis (no_types) map_map map_snd_enumerate comp_apply map_eq_conv)

lemma dp2_sum_list:
  "(\<And>x. x \<in> set xs \<Longrightarrow> cents (f x)) \<Longrightarrow>
     dp2 (sum_list (map f xs)) = sum_list (map (\<lambda>x. dp2 (f x)) xs)"
proof -
  assume c: "\<And>x. x \<in> set xs \<Longrightarrow> cents (f x)"
  then have "cents (sum_list (map f xs))" by (intro scaled_sum_list) auto
  then have "dp2 (sum_list (map f xs)) = sum_list (map f xs)" by (rule round_scaled)
  moreover have "map (\<lambda>x. dp2 (f x)) xs = map f xs" using c by (simp add: round_scaled)
  ultimately show ?thesis by (simp only:)
qed

lemma bill_row_total:
  "list_all priced is \<Longrightarrow>
     bl_total (bill_row c t r day n is now i) = sum_list (map ln_lineTotal (bl_lines (bill_row c t r day n is now i)))"
  by (simp add: bill_row_def Let_def ln_lineTotal_bill_lines dp2_sum_list lineTotal_cents list_all_iff)

lemma bill_line_items: "map ln_orderItemId (bill_lines_of is) = map (Some \<circ> oi_id) is"
  by (simp add: bill_lines_of_def case_prod_beta o_def)
    (metis (no_types) map_map map_snd_enumerate comp_apply map_eq_conv)

lemma billed_order_items: "List.map_filter ln_orderItemId (bill_lines_of is) = map oi_id is"
  by (simp add: bill_lines_of_def List.map_filter_def case_prod_beta o_def)
    (metis (no_types) map_map map_snd_enumerate comp_apply map_eq_conv)

section \<open>What a generated bill holds\<close>

lemma storeIdempotent_seat [frame, simp]:
  "seat_of s (storeIdempotent h i k b res d) = seat_of s d"
  by (rule seat_of_cong) simp_all

lemma generateTx_success:
  assumes "generateTx e c k body r v is vip d = Inr (res, d')"
  shows "\<exists>b. bills d' = bills d @ [b] \<and> db_ok d' \<and> effects d' = effects d \<and>
     b = bill_row c (br_tableSessionId r) (br_roomSessionId r) (sv_businessDate v)
            (new_bill_number e (branch_of c) (sv_businessDate v) d) is (env_now e) (next_id d) \<and>
     res = Res_Bill (toBillDto b vip) \<and>
     bill_requests d' = update_id br_id (br_id r)
               (\<lambda>x. x\<lparr>br_status := R_FULFILLED, br_fulfilledAt := Some (env_now e)\<rparr>) (bill_requests d) \<and>
     seat_of (sv_seat v) d' = map_option (\<lambda>v. v\<lparr>sv_status := S_BILL_READY, sv_version := sv_version v + 1\<rparr>)
        (seat_of (sv_seat v) d) \<and>
     idempotency d' = idempotency (storeIdempotent (env_hash e) (next_id d) k body res d)"
proof -
  let ?b = "bill_row c (br_tableSessionId r) (br_roomSessionId r) (sv_businessDate v)
            (new_bill_number e (branch_of c) (sv_businessDate v) d) is (env_now e) (next_id d)"
  let ?d1 = "d\<lparr>bills := bills d @ [?b], next_id := next_id d + 1,
             bill_requests := update_id br_id (br_id r)
               (\<lambda>x. x\<lparr>br_status := R_FULFILLED, br_fulfilledAt := Some (env_now e)\<rparr>) (bill_requests d)\<rparr>"
  let ?d2 = "set_seat_status (sv_seat v) S_BILL_READY ?d1"
  from assms have res: "res = Res_Bill (toBillDto ?b vip)"
    and d': "d' = storeIdempotent (env_hash e) (next_id d) k body res ?d2" and ok: "db_ok d'"
    by (auto simp: generateTx_def Let_def inversion)
  have "seat_of (sv_seat v) ?d1 = seat_of (sv_seat v) d" by (rule seat_of_cong) simp_all
  then have "seat_of (sv_seat v) d' = map_option (\<lambda>v. v\<lparr>sv_status := S_BILL_READY, sv_version := sv_version v + 1\<rparr>)
        (seat_of (sv_seat v) d)"
    by (simp add: d' seat_of_set_status)
  moreover have "idempotency d' = idempotency (storeIdempotent (env_hash e) (next_id d) k body res d)"
    unfolding d' by (rule storeIdempotent_cong) simp
  ultimately show ?thesis using res d' ok by (intro exI [of _ ?b]) auto
qed

text \<open>Every body ends by storing its response: the commands of this theory replay.\<close>

lemma requestTx_idem:
  assumes "requestTx e c k body v d = Inr (res, d')"
  shows "idempotency d' = idempotency (storeIdempotent (env_hash e) (next_id d) k body res d)"
proof -
  let ?d2 = "set_seat_requested (sv_seat v) S_BILL_REQUESTED (Some (env_now e))
    (d\<lparr>bill_requests := bill_requests d @ [bill_request_row c v (env_now e) (next_id d)], next_id := next_id d + 1\<rparr>)"
  from assms have "idempotency d' = idempotency (storeIdempotent (env_hash e) (next_id d) k body res ?d2)"
    by (auto simp: requestTx_def Let_def emit_def inversion)
  also have "\<dots> = idempotency (storeIdempotent (env_hash e) (next_id d) k body res d)"
    by (rule storeIdempotent_cong) simp
  finally show ?thesis .
qed

lemma counterTx_idem:
  assumes "counterTx e c k body t ls d = Inr (res, d')"
  shows "\<exists>rid. idempotency d' = idempotency (storeIdempotent (env_hash e) rid k body res d)"
  using assms by (auto simp: counterTx_def Let_def inversion intro!: exI storeIdempotent_cong)

lemma requestBill_stores: "stores e k (Req_BillTable sid v) (requestBillBody e c k sid v)"
  by (rule storesI) (auto simp: requestBillBody_def split: option.splits dest!: requestTx_idem)

lemma requestRoom_stores: "stores e k (Req_BillRoom sid v) (requestRoomBody e c k sid v)"
  by (rule storesI) (auto simp: requestRoomBody_def split: option.splits dest!: requestTx_idem)

lemma generateBody_eq_Inr [inversion]:
  "generateBody e c k rid et er d = Inr y \<longleftrightarrow>
     (\<exists>r v. let ts = Option.bind (br_tableSessionId r) (\<lambda>i. row_by ts_id i (table_sessions d)) in
        find (\<lambda>r. br_id r = rid \<and> br_branchId r = branch_of c) (bill_requests d) = Some r \<and>
        seating_of (br_tableSessionId r) (br_roomSessionId r) d = Some v \<and>
        dispatcherMayGenerate c ts = Inr () \<and> br_status r = R_PENDING \<and>
        seat_bill (sv_seat v) d = None \<and> Some (sv_version v) = (if ts \<noteq> None then et else er) \<and>
        chargeable_items (sv_seat v) d \<noteq> [] \<and>
        generateTx e c k (Req_GenerateBill rid et er) r v (chargeable_items (sv_seat v) d)
          (seatingVip ts d) d = Inr y)"
  by (simp add: generateBody_def Let_def split: option.split) auto

lemma generate_stores: "stores e k (Req_GenerateBill rid et er) (generateBody e c k rid et er)"
  by (rule storesI) (auto simp: generateBody_eq_Inr Let_def dest!: generateTx_success)

lemma counter_stores: "stores e k (Req_CounterSale is) (counterBody e c k is)"
  by (rule storesI)
    (auto simp: counterBody_def Let_def split: option.splits if_splits dest!: counterTx_idem)

section \<open>Properties\<close>

lemma db_ok_sessions: "db_ok d \<Longrightarrow> distinct (map ts_id (table_sessions d))"
  by (rule primary_keyD) (rule db_okD)

lemma requestBill_cases:
  assumes "requestBill e c sid n key d = Inr (res, d')" and "bill_requests d' \<noteq> bill_requests d"
  obtains s k where "find (\<lambda>s. ts_id s = sid \<and> ts_branchId s = branch_of c) (table_sessions d) = Some s"
    and "checkRequestable c n (view_table s) d = Inr ()" and "requireWaiterOnShift c = Inr c"
    and "requestTx e c k (Req_BillTable sid n) (view_table s) d = Inr (res, d')"
  using assms by (auto simp: requestBill_def requestBillBody_def Let_def inversion
      split: option.splits dest!: guarded_fresh intro: that)

lemma requestTx_success:
  assumes "requestTx e c k body v d = Inr (res, d')"
  shows "bill_requests d' = bill_requests d @ [bill_request_row c v (env_now e) (next_id d)]"
    and "seat_of (sv_seat v) d' =
      map_option (\<lambda>v. v\<lparr>sv_status := S_BILL_REQUESTED, sv_version := sv_version v + 1\<rparr>) (seat_of (sv_seat v) d)"
    and "effects d' = effects d @ [Notify_cashiers (request_notice ''bill.request.created'' (next_id d))]"
    and "orders d' = orders d"
proof -
  let ?d1 = "d\<lparr>bill_requests := bill_requests d @ [bill_request_row c v (env_now e) (next_id d)], next_id := next_id d + 1\<rparr>"
  let ?d2 = "set_seat_requested (sv_seat v) S_BILL_REQUESTED (Some (env_now e)) ?d1"
  obtain x where d': "d' = emit (Notify_cashiers (request_notice ''bill.request.created'' (next_id d)))
      (storeIdempotent (env_hash e) (next_id d) k body x ?d2)"
    using assms by (auto simp: requestTx_def Let_def inversion)
  then show "bill_requests d' = bill_requests d @ [bill_request_row c v (env_now e) (next_id d)]"
    and "effects d' = effects d @ [Notify_cashiers (request_notice ''bill.request.created'' (next_id d))]"
    and "orders d' = orders d"
    by (simp_all add: emit_def)
  have "seat_of (sv_seat v) d' = seat_of (sv_seat v) ?d2"
    unfolding d' by (rule seat_of_cong) (simp_all add: emit_def)
  also have "\<dots> = map_option (\<lambda>v. v\<lparr>sv_status := S_BILL_REQUESTED, sv_version := sv_version v + 1\<rparr>)
      (seat_of (sv_seat v) ?d1)"
    by (simp add: seat_of_set_requested)
  also have "seat_of (sv_seat v) ?d1 = seat_of (sv_seat v) d" by (rule seat_of_cong) simp_all
  finally show "seat_of (sv_seat v) d' =
      map_option (\<lambda>v. v\<lparr>sv_status := S_BILL_REQUESTED, sv_version := sv_version v + 1\<rparr>) (seat_of (sv_seat v) d)" .
qed

text \<open>
  A bill request that is accepted (and is not the replay of an earlier one) was sent by
  the waiter who owns the table, with the current version of the session; nothing was pending
  for that table before, exactly this request is pending after, the session is BILL_REQUESTED
  one version on, and the cashiers are alerted last.
\<close>

theorem requestBill_opens_one_request:
  assumes ok: "db_ok d" and run: "requestBill e c sid n key d = Inr (res, d')"
    and new: "bill_requests d' \<noteq> bill_requests d"
  shows "\<exists>v r. seat_of (At_table sid) d = Some v \<and> sv_version v = n \<and> sv_owner v = staff_of c \<and>
     chargeable_items (At_table sid) d \<noteq> [] \<and> seat_bill (At_table sid) d = None \<and>
     filter (\<lambda>r. br_status r = R_PENDING) (seat_requests (At_table sid) d) = [] \<and>
     filter (\<lambda>r. br_status r = R_PENDING) (seat_requests (At_table sid) d') = [r] \<and>
     br_requestedBy r = staff_of c \<and>
     seat_of (At_table sid) d' = Some (v\<lparr>sv_status := S_BILL_REQUESTED, sv_version := n + 1\<rparr>) \<and>
     effects d' = effects d @ [Notify_cashiers (request_notice ''bill.request.created'' (br_id r))]"
proof -
  from run new obtain s k where
    s: "find (\<lambda>s. ts_id s = sid \<and> ts_branchId s = branch_of c) (table_sessions d) = Some s"
    and chk: "checkRequestable c n (view_table s) d = Inr ()" and w: "requireWaiterOnShift c = Inr c"
    and tx: "requestTx e c k (Req_BillTable sid n) (view_table s) d = Inr (res, d')"
    by (rule requestBill_cases)
  from s have row: "row_by ts_id sid (table_sessions d) = Some s"
    using db_ok_sessions [OF ok] by (rule find_row_by)
  then have id: "ts_id s = sid" by (auto dest: row_by_SomeD)
  let ?r = "bill_request_row c (view_table s) (env_now e) (next_id d)"
  have "seat_requests (At_table sid) d' = seat_requests (At_table sid) d @ [?r]"
    using id by (simp add: requestTx_success(1) [OF tx] bill_request_row_def)
  with id row w chk requestTx_success [OF tx] show ?thesis
    by (intro exI [of _ "view_table s"] exI [of _ ?r])
      (auto simp: checkRequestable_def inversion bill_request_row_def)
qed

theorem requestBill_opens_one_request_witness:
  "\<exists>res d' v r. requestBill evening waiter 40 2 (Some ''k1'') floor_db = Inr (res, d') \<and>
     seat_of (At_table 40) floor_db = Some v \<and>
     filter (\<lambda>r. br_status r = R_PENDING) (seat_requests (At_table 40) d') = [r] \<and>
     seat_of (At_table 40) d' = Some (v\<lparr>sv_status := S_BILL_REQUESTED, sv_version := 3\<rparr>)"
proof -
  have "case requestBill evening waiter 40 2 (Some ''k1'') floor_db of Inl _ \<Rightarrow> False
     | Inr (res, d') \<Rightarrow> bill_requests d' \<noteq> bill_requests floor_db" by code_simp
  then obtain res d' where run: "requestBill evening waiter 40 2 (Some ''k1'') floor_db = Inr (res, d')"
    and new: "bill_requests d' \<noteq> bill_requests floor_db"
    by (blast dest: run_result)
  from requestBill_opens_one_request [OF floor_db_ok run new] run show ?thesis by auto
qed

lemma generateBill_fresh:
  assumes "generateBill e c rid et er key d = Inr (res, d')" and "bills d' \<noteq> bills d"
  obtains k where "generateBody e c k rid et er d = Inr (res, d')" and "can e c Act_generate Sub_Bill"
  using assms by (auto simp: generateBill_def Let_def inversion split: if_splits
      dest!: guarded_fresh intro: that)

lemma seating_seat: "seating_of t r d = Some v \<Longrightarrow> seat_of (sv_seat v) d = Some v"
  by (auto simp: seating_of_eq_Some dest: seat_of_SomeD)

lemma generate_seat_bill:
  assumes "seating_of (br_tableSessionId r) (br_roomSessionId r) d = Some v"
    and "bl_tableSessionId b = br_tableSessionId r" and "bl_roomSessionId b = br_roomSessionId r"
    and "bills d' = bills d @ [b]" and "seat_bill (sv_seat v) d = None"
  shows "seat_bill (sv_seat v) d' = Some b"
proof -
  from assms(1) have "seat_ref (br_tableSessionId r) (br_roomSessionId r) = Some (sv_seat v)"
    by (auto simp: seating_of_eq_Some dest: seat_of_SomeD)
  with assms(2-) show ?thesis
    by (cases "sv_seat v") (auto simp: seat_ref_def find_append_new split: option.splits)
qed

text \<open>
  What a bill has to charge for, read off the tables: the items of the seating's orders that carry
  no cancellation, neither a time nor the state. The list a bill is made from has each once.
\<close>

definition live_items_of :: "seat \<Rightarrow> db \<Rightarrow> order_item list" where
  "live_items_of s d = filter (\<lambda>i. oi_cancelledAt i = None \<and> oi_state i \<noteq> CANCELLED \<and>
     oi_orderId i \<in> od_id ` set (seat_orders s d)) (order_items d)"

lemma mset_filter_either:
  "(\<And>x. \<not> (Q x \<and> R x)) \<Longrightarrow> mset (filter (\<lambda>x. P x \<and> (Q x \<or> R x)) xs) =
     mset (filter (\<lambda>x. P x \<and> Q x) xs) + mset (filter (\<lambda>x. P x \<and> R x) xs)"
  by (induction xs) auto

lemma mset_items_of_orders:
  "distinct (map od_id os) \<Longrightarrow> mset (concat (map (\<lambda>r. filter P (order_items_of d r)) os)) =
     mset (filter (\<lambda>i. P i \<and> oi_orderId i \<in> od_id ` set os) (order_items d))"
proof (induction os)
  case (Cons r os)
  have "mset (filter P (order_items_of d r)) = mset (filter (\<lambda>i. P i \<and> oi_orderId i = od_id r) (order_items d))"
    by (simp add: order_items_of_def filter_filter_mset conj_commute)
  moreover have "mset (filter (\<lambda>i. P i \<and> (oi_orderId i = od_id r \<or> oi_orderId i \<in> od_id ` set os)) (order_items d)) =
      mset (filter (\<lambda>i. P i \<and> oi_orderId i = od_id r) (order_items d)) +
      mset (filter (\<lambda>i. P i \<and> oi_orderId i \<in> od_id ` set os) (order_items d))"
    using Cons.prems by (intro mset_filter_either) auto
  ultimately show ?case using Cons by simp
qed simp

lemma chargeable_items_live:
  assumes "distinct (map od_id (orders d))"
  shows "mset (chargeable_items s d) = mset (live_items_of s d)"
proof -
  have "distinct (map od_id (seat_orders s d))" using assms by (cases s) (simp_all add: distinct_map_filter)
  then have "distinct (map od_id (sort_key od_confirmedAt (seat_orders s d)))" by (simp add: distinct_map)
  from mset_items_of_orders [OF this, of chargeable d] show ?thesis
    by (simp add: chargeable_items_def live_items_of_def chargeable_def conj_assoc)
qed

lemma db_ok_orders: "db_ok d \<Longrightarrow> primary_key od_id (orders d)"
proof -
  have "(''orders_pkey'', \<lambda>d. primary_key od_id (orders d)) \<in> set db_constraints"
    unfolding db_constraints_def list.set by (rule insertI2, rule insertI2, rule insertI1)
  then show "db_ok d \<Longrightarrow> primary_key od_id (orders d)" by (auto simp: db_ok_def list_all_iff)
qed

lemma generateTx_orders: "generateTx e c k body r v is vip d = Inr (res, d') \<Longrightarrow> orders d' = orders d"
  by (auto simp: generateTx_def Let_def inversion)

text \<open>
  C6: generating a bill charges the seating for exactly what was ordered and not cancelled: one
  line per item of its orders that has neither a cancellation time nor the state CANCELLED, each
  once and no other, the total is the sum of the line totals and of these items' prices, nothing
  is paid yet; the seating had no bill and has this one, its session is BILL_READY one version on,
  and the answer quotes the bill that was stored.
\<close>

theorem generateBill_charges_the_seating:
  assumes run: "generateBill e c rid et er key d = Inr (res, d')" and new: "bills d' \<noteq> bills d"
    and prices: "\<And>i. i \<in> set (order_items d) \<Longrightarrow> priced i"
  shows "\<exists>v b items. seat_of (sv_seat v) d = Some v \<and> seat_bill (sv_seat v) d = None \<and>
     bills d' = bills d @ [b] \<and> seat_bill (sv_seat v) d' = Some b \<and> bl_lines b \<noteq> [] \<and>
     mset items = mset (filter (\<lambda>i. oi_cancelledAt i = None \<and> oi_state i \<noteq> CANCELLED \<and>
        oi_orderId i \<in> od_id ` set (seat_orders (sv_seat v) d)) (order_items d)) \<and>
     map ln_orderItemId (bl_lines b) = map (Some \<circ> oi_id) items \<and>
     bl_total b = sum_list (map ln_lineTotal (bl_lines b)) \<and>
     bl_total b = sum_list (map lineTotal items) \<and>
     bl_amountPaid b = 0 \<and> bl_status b = B_GENERATED \<and>
     seat_of (sv_seat v) d' = Some (v\<lparr>sv_status := S_BILL_READY, sv_version := sv_version v + 1\<rparr>) \<and>
     (\<exists>vip. res = Res_Bill (toBillDto b vip))"
proof -
  from run new obtain k where "generateBody e c k rid et er d = Inr (res, d')" by (rule generateBill_fresh)
  then obtain r v ts where seat: "seating_of (br_tableSessionId r) (br_roomSessionId r) d = Some v"
    and nobill: "seat_bill (sv_seat v) d = None" and ne: "chargeable_items (sv_seat v) d \<noteq> []"
    and tx: "generateTx e c k (Req_GenerateBill rid et er) r v (chargeable_items (sv_seat v) d) ts d = Inr (res, d')"
    by (auto simp: generateBody_eq_Inr Let_def)
  let ?is = "chargeable_items (sv_seat v) d"
  let ?b = "bill_row c (br_tableSessionId r) (br_roomSessionId r) (sv_businessDate v)
            (new_bill_number e (branch_of c) (sv_businessDate v) d) ?is (env_now e) (next_id d)"
  from generateTx_success [OF tx] have bills: "bills d' = bills d @ [?b]" and res: "res = Res_Bill (toBillDto ?b ts)"
    and seat': "seat_of (sv_seat v) d' = map_option (\<lambda>v. v\<lparr>sv_status := S_BILL_READY, sv_version := sv_version v + 1\<rparr>)
        (seat_of (sv_seat v) d)" and ok: "db_ok d'" by auto
  have "distinct (map od_id (orders d))"
    using primary_keyD [OF db_ok_orders [OF ok]] generateTx_orders [OF tx] by simp
  then have live: "mset ?is = mset (filter (\<lambda>i. oi_cancelledAt i = None \<and> oi_state i \<noteq> CANCELLED \<and>
        oi_orderId i \<in> od_id ` set (seat_orders (sv_seat v) d)) (order_items d))"
    by (simp only: chargeable_items_live live_items_of_def)
  have priced: "list_all priced ?is"
    using prices by (auto simp: list_all_iff chargeable_items_def order_items_of_def)
  have total: "bl_total ?b = sum_list (map lineTotal ?is)"
    using priced by (auto simp: bill_row_def Let_def list_all_iff intro!: round_scaled scaled_sum_list lineTotal_cents)
  have lines: "map ln_orderItemId (bl_lines ?b) = map (Some \<circ> oi_id) ?is"
    by (simp add: bill_row_def Let_def bill_line_items)
  have "bl_lines ?b \<noteq> []" using lines ne by (metis list.map_disc_iff)
  with nobill bills res seat' total lines priced seating_seat [OF seat]
    generate_seat_bill [OF seat _ _ bills nobill] show ?thesis
    by (intro exI [of _ v] exI [of _ ?b] exI [of _ ?is] conjI live)
      (auto simp: bill_row_total, simp_all add: bill_row_def Let_def)
qed

theorem generateBill_charges_the_seating_witness:
  "\<exists>res d' v b. generateBill evening cashier 50 (Some 3) None (Some ''k1'') requested_db = Inr (res, d') \<and>
     seat_of (sv_seat v) requested_db = Some v \<and> bills d' = [b] \<and>
     length (bl_lines b) = length (live_items_of (sv_seat v) requested_db)"
proof -
  let ?m = "generateBill evening cashier 50 (Some 3) None (Some ''k1'') requested_db"
  have "case ?m of Inl _ \<Rightarrow> False | Inr (res, d') \<Rightarrow> bills d' \<noteq> bills requested_db" by code_simp
  then obtain res d' where run: "?m = Inr (res, d')" and new: "bills d' \<noteq> bills requested_db"
    by (blast dest: run_result)
  have "list_all priced (order_items requested_db)" by code_simp
  then have "\<And>i. i \<in> set (order_items requested_db) \<Longrightarrow> priced i" by (auto simp only: list_all_iff)
  moreover have "bills requested_db = []" by code_simp
  ultimately obtain v b items where "seat_of (sv_seat v) requested_db = Some v" "bills d' = [b]"
    and m: "mset items = mset (live_items_of (sv_seat v) requested_db)"
    and l: "map ln_orderItemId (bl_lines b) = map (Some \<circ> oi_id) items"
    using generateBill_charges_the_seating [OF run new] unfolding live_items_of_def by auto
  moreover from m have "length items = length (live_items_of (sv_seat v) requested_db)" by (rule mset_eq_length)
  moreover have "length (bl_lines b) = length items" using arg_cong [OF l, of length] by simp
  ultimately show ?thesis using run by metis
qed

text \<open>
  C30: the amount the cashier's queue estimates for a request is the total of the bill that
  generating it then produces.
\<close>

theorem estimate_is_the_total:
  assumes run: "generateBill e c rid et er key d = Inr (res, d')" and new: "bills d' = bills d @ [b]"
  shows "\<exists>r. r \<in> set (bill_requests d) \<and> br_id r = rid \<and> cq_estimated (cashier_request_of e' d r) = bl_total b"
proof -
  from run new obtain k where "generateBody e c k rid et er d = Inr (res, d')"
    by (metis append_self_conv generateBill_fresh not_Cons_self)
  then obtain r v ts where seat: "seating_of (br_tableSessionId r) (br_roomSessionId r) d = Some v"
    and f: "find (\<lambda>r. br_id r = rid \<and> br_branchId r = branch_of c) (bill_requests d) = Some r"
    and tx: "generateTx e c k (Req_GenerateBill rid et er) r v (chargeable_items (sv_seat v) d) ts d = Inr (res, d')"
    by (auto simp: generateBody_eq_Inr Let_def)
  from generateTx_success [OF tx] new have
    "b = bill_row c (br_tableSessionId r) (br_roomSessionId r) (sv_businessDate v)
            (new_bill_number e (branch_of c) (sv_businessDate v) d) (chargeable_items (sv_seat v) d) (env_now e) (next_id d)"
    by auto
  with seat have "cq_estimated (cashier_request_of e' d r) = bl_total b"
    by (simp add: cashier_request_of_def Let_def seat_items_or_none_def bill_row_def money_def)
  with f show ?thesis by (blast dest: find_Some_in)
qed

theorem estimate_is_the_total_witness:
  "\<exists>res d' b r. generateBill evening cashier 50 (Some 3) None (Some ''k1'') requested_db = Inr (res, d') \<and>
     bills d' = bills requested_db @ [b] \<and>
     r \<in> set (bill_requests requested_db) \<and> cq_estimated (cashier_request_of later requested_db r) = bl_total b"
proof -
  let ?m = "generateBill evening cashier 50 (Some 3) None (Some ''k1'') requested_db"
  have "case ?m of Inl _ \<Rightarrow> False | Inr (res, d') \<Rightarrow> bills d' = bills requested_db @ [last (bills d')]"
    by code_simp
  then obtain res d' where run: "?m = Inr (res, d')" and new: "bills d' = bills requested_db @ [last (bills d')]"
    by (blast dest: run_result)
  from estimate_is_the_total [OF run new, of later] run new show ?thesis by auto
qed

text \<open>
  Withdrawing a bill request undoes it: the request is cancelled, nothing stays pending
  for the table, and the session is orderable again (ACTIVE_ORDER) two versions on, so that
  the bill can be requested anew.
\<close>

theorem request_then_withdraw:
  assumes ok: "db_ok d" and run: "requestBill e c sid n key d = Inr (res, d1)"
    and new: "bill_requests d1 \<noteq> bill_requests d" and fresh: "next_id d \<notin> br_id ` set (bill_requests d)"
    and cancel: "cancelBillRequest e' c (next_id d) d1 = Inr (res', d2)"
  shows "filter (\<lambda>r. br_status r = R_PENDING) (seat_requests (At_table sid) d2) = [] \<and>
     (\<exists>v. seat_of (At_table sid) d = Some v \<and>
        seat_of (At_table sid) d2 = Some (v\<lparr>sv_status := S_ACTIVE_ORDER, sv_version := n + 2\<rparr>))"
proof -
  from run new obtain s k where
    s: "find (\<lambda>s. ts_id s = sid \<and> ts_branchId s = branch_of c) (table_sessions d) = Some s"
    and chk: "checkRequestable c n (view_table s) d = Inr ()" and w: "requireWaiterOnShift c = Inr c"
    and tx: "requestTx e c k (Req_BillTable sid n) (view_table s) d = Inr (res, d1)"
    by (rule requestBill_cases)
  from s have row: "row_by ts_id sid (table_sessions d) = Some s"
    using db_ok_sessions [OF ok] by (rule find_row_by)
  then have id: "ts_id s = sid" by (auto dest: row_by_SomeD)
  note t = requestTx_success [OF tx]
  let ?r = "bill_request_row c (view_table s) (env_now e) (next_id d)"
  let ?upd = "\<lambda>r::bill_request. r\<lparr>br_status := R_CANCELLED, br_cancelledAt := Some (env_now e')\<rparr>"
  have found: "find (\<lambda>r. br_id r = next_id d \<and> br_branchId r = branch_of c) (bill_requests d1) = Some ?r"
  proof -
    have "find (\<lambda>r. br_id r = next_id d \<and> br_branchId r = branch_of c) (bill_requests d) = None"
      using fresh by (metis (mono_tags, lifting) find_None_iff image_eqI)
    then show ?thesis using t(1) by (simp add: find_append_new bill_request_row_def)
  qed
  have v1: "seat_of (At_table sid) d1 = Some ((view_table s)\<lparr>sv_status := S_BILL_REQUESTED, sv_version := n + 1\<rparr>)"
    using t(2) id row chk by (simp add: checkRequestable_def)
  have has: "seat_orders (At_table sid) d \<noteq> []"
  proof
    assume "seat_orders (At_table sid) d = []"
    then have "chargeable_items (At_table sid) d = []" by (simp add: chargeable_items_def)
    with chk id show False by (simp add: checkRequestable_def)
  qed
  let ?d2 = "set_seat_requested (At_table sid) S_ACTIVE_ORDER None
     (d1\<lparr>bill_requests := update_id br_id (next_id d) ?upd (bill_requests d1)\<rparr>)"
  have "seating_of (br_tableSessionId ?r) (br_roomSessionId ?r) d1 =
      Some ((view_table s)\<lparr>sv_status := S_BILL_REQUESTED, sv_version := n + 1\<rparr>)"
    using v1 id by (simp add: seating_of_def seat_ref_def bill_request_row_def)
  with cancel w found has id have d2: "d2 = ?d2"
    by (auto simp: cancelBillRequest_def Let_def inversion t(4) split: if_splits)
  have "seat_of (At_table sid) (d1\<lparr>bill_requests := x\<rparr>) = seat_of (At_table sid) d1" for x
    by (rule seat_of_cong) simp_all
  then have "seat_of (At_table sid) d2 = Some ((view_table s)\<lparr>sv_status := S_ACTIVE_ORDER, sv_version := n + 2\<rparr>)"
    unfolding d2 seat_of_set_requested using v1 by (simp del: seat_of.simps)
  moreover have "filter (\<lambda>r. br_status r = R_PENDING) (seat_requests (At_table sid) d2) = []"
    using chk id unfolding d2
    by (auto simp: t(1) update_id_def update_many_def checkRequestable_def filter_empty_conv bill_request_row_def)
  ultimately show ?thesis using row by auto
qed

theorem request_then_withdraw_witness:
  "\<exists>res d1 res' d2 v. requestBill evening waiter 40 2 (Some ''k1'') floor_db = Inr (res, d1) \<and>
     cancelBillRequest later waiter 1000 d1 = Inr (res', d2) \<and>
     seat_of (At_table 40) floor_db = Some v \<and>
     seat_of (At_table 40) d2 = Some (v\<lparr>sv_status := S_ACTIVE_ORDER, sv_version := 2 + 2\<rparr>)"
proof -
  let ?m = "requestBill evening waiter 40 2 (Some ''k1'') floor_db"
  have "case ?m of Inl _ \<Rightarrow> False | Inr (res, d1) \<Rightarrow> bill_requests d1 \<noteq> bill_requests floor_db \<and>
      is_ok (cancelBillRequest later waiter 1000 d1)"
    by code_simp
  then obtain res d1 res' d2 where run: "?m = Inr (res, d1)" and new: "bill_requests d1 \<noteq> bill_requests floor_db"
    and cancel: "cancelBillRequest later waiter 1000 d1 = Inr (res', d2)"
    by (auto dest!: run_result simp: is_ok_iff)
  have n: "next_id floor_db = 1000" by code_simp
  have "next_id floor_db \<notin> br_id ` set (bill_requests floor_db)" by code_simp
  from request_then_withdraw [OF floor_db_ok run new this, of later res' d2] cancel n run
  show ?thesis by auto
qed

end
