(* ===== verification/Versions.thy ===== *)
theory Versions
  imports Prelude
begin

text \<open>
  Optimistic locking. The rows that two devices may change at once (bills, order items, cash
  drops, sessions) carry a \<open>version\<close>; an operation names the version it saw and takes effect
  only on that one, raising it. The locale states this contract for a family of operations on
  one row; the components interpret it on their own.
\<close>

locale optimistic =
  fixes version :: "'s \<Rightarrow> nat option"
    and op :: "'o \<Rightarrow> nat \<Rightarrow> 's \<Rightarrow> ('r \<times> 's) result"
  assumes op_version: "op x n s = Inr (r, s') \<Longrightarrow> version s = Some n \<and> version s' = Some (n + 1)"
begin

lemma stale: "version s \<noteq> Some n \<Longrightarrow> \<not> is_ok (op x n s)"
  using op_version [of x n s] by (auto simp: is_ok_iff)

lemma second_refused: "op x n s = Inr (r, s') \<Longrightarrow> \<not> is_ok (op y n s')"
  using op_version [of x n s r s'] by (intro stale) auto

lemma next_version: "op x n s = Inr (r, s') \<Longrightarrow> op y m s' = Inr (r', s'') \<Longrightarrow> m = n + 1"
  using op_version [of x n s r s'] op_version [of y m s' r' s''] by auto

text \<open>A sequence of operations that all succeed sees the versions one after the other.\<close>

fun runs :: "('o \<times> nat) list \<Rightarrow> 's \<Rightarrow> 's result" where
  "runs [] s = Inr s"
| "runs ((x, n) # xs) s = bindR (op x n s) (\<lambda>(r, s'). runs xs s')"

lemma runs_versions:
  "runs xs s = Inr s' \<Longrightarrow> version s = Some n \<Longrightarrow>
     map snd xs = [n..<n + length xs] \<and> version s' = Some (n + length xs)"
proof (induction xs arbitrary: s n)
  case Nil
  then show ?case by simp
next
  case (Cons p xs)
  obtain x m where p: "p = (x, m)" by (cases p)
  with Cons.prems obtain r t where t: "op x m s = Inr (r, t)" and rest: "runs xs t = Inr s'" by auto
  from op_version [OF t] Cons.prems(2) have "m = n" and "version t = Some (n + 1)" by simp_all
  with Cons.IH [OF rest] p show ?case
    by (simp add: upt_conv_Cons del: upt_Suc)
qed

end

end
