(* ===== verification/Payments.thy ===== *)
theory Payments
  imports BillRequests Versions
begin

text \<open>
  Payments (\<open>payCash\<close>, \<open>payTransfer\<close> and their helpers in \<open>src/billing/billing.service.ts\<close>).
  What a command reads before its transaction (the bill, the amounts, the bank's answer) is a
  \<open>...Check\<close>, the transaction a \<open>...Tx\<close> that takes the bill as it was read.
\<close>

section \<open>The bill\<close>

definition payable_statuses :: "bill_status list" where
  "payable_statuses = [B_GENERATED, B_PAYMENT_PENDING]"

definition loadPayableBill :: "auth_ctx \<Rightarrow> id \<Rightarrow> db \<Rightarrow> bill result" where
  "loadPayableBill c bid d =
     (case find (\<lambda>b. bl_id b = bid \<and> bl_branchId b = branch_of c) (bills d) of
        None \<Rightarrow> Inl (NotFound ''Bill not found.'')
      | Some b \<Rightarrow> if bl_status b \<notin> set payable_statuses
                   then Inl (Unprocessable ''BILL_NOT_PAYABLE'') else Inr b)"

definition bill_seating :: "bill \<Rightarrow> db \<Rightarrow> seat_view option" where
  "bill_seating b d = seating_of (bl_tableSessionId b) (bl_roomSessionId b) d"

definition staleBill :: "bill \<Rightarrow> db \<Rightarrow> err" where
  "staleBill b d = StaleVersion (case row_by bl_id (bl_id b) (bills d) of
      Some x \<Rightarrow> bl_version x | None \<Rightarrow> bl_version b)"

text \<open>
  \<open>applyPartialBillPayment\<close>: the conditional \<open>updateMany\<close> on the bill, which fails as a stale
  version unless exactly one row has the expected version and may still be paid.
\<close>

definition applyPartialBillPayment ::
  "bill \<Rightarrow> nat \<Rightarrow> decimal \<Rightarrow> time \<Rightarrow> db \<Rightarrow> (bill \<times> bool \<times> decimal \<times> db) result" where
  "applyPartialBillPayment b expected amount now d =
     (let nextPaid = dp2 (bl_amountPaid b + amount);
          fullyPaid = (bl_total b \<le> nextPaid);
          remaining = (if fullyPaid then 0 else dp2 (bl_total b - nextPaid));
          P = (\<lambda>x. bl_id x = bl_id b \<and> bl_version x = expected \<and> bl_status x \<in> set payable_statuses);
          upd = (\<lambda>x. if fullyPaid
             then x\<lparr>bl_status := B_PAID, bl_amountPaid := bl_total b, bl_paidAt := Some now,
                    bl_version := bl_version x + 1\<rparr>
             else x\<lparr>bl_status := B_PAYMENT_PENDING, bl_amountPaid := nextPaid,
                    bl_version := bl_version x + 1\<rparr>)
      in if count_where P (bills d) \<noteq> 1 then Inl (staleBill b d)
         else let d1 = d\<lparr>bills := update_many P upd (bills d)\<rparr>
              in case row_by bl_id (bl_id b) (bills d1) of
                   None \<Rightarrow> Inl (DbError ''P2025'')
                 | Some u \<Rightarrow> Inr (u, fullyPaid, remaining, d1))"

definition loadSeatingSnapshot :: "bill \<Rightarrow> db \<Rightarrow> seat_snapshot result" where
  "loadSeatingSnapshot b d = (case seat_ref (bl_tableSessionId b) (bl_roomSessionId b) of
      None \<Rightarrow> Inl (Unprocessable ''BILL_SESSION_MISSING'')
    | Some s \<Rightarrow> snapshot s d)"

definition markSeatingPaid :: "bill \<Rightarrow> auth_ctx \<Rightarrow> time \<Rightarrow> bool \<Rightarrow> db \<Rightarrow> (seat_snapshot \<times> db) result" where
  "markSeatingPaid b c now closeCounter d =
     (case bl_tableSessionId b of
        Some t \<Rightarrow>
          let d1 = bump_table t (\<lambda>s. if closeCounter
               then s\<lparr>ts_status := S_CLOSED, ts_closedAt := Some now, ts_closedBy := ax_staffMembershipId c\<rparr>
               else s\<lparr>ts_status := S_PAID\<rparr>) d
          in bindR (snapshot (At_table t) d1) (\<lambda>s. Inr (s, d1))
      | None \<Rightarrow> (case bl_roomSessionId b of
          Some r \<Rightarrow>
            let d1 = bump_room r (\<lambda>s. s\<lparr>rs_status := S_PAID\<rparr>) d
            in bindR (snapshot (At_room r) d1) (\<lambda>s. Inr (s, d1))
        | None \<Rightarrow> Inl (Unprocessable ''BILL_SESSION_MISSING'')))"

text \<open>What both payments do in their transaction after the bill moved.\<close>

definition settleSeating ::
  "bill \<Rightarrow> auth_ctx \<Rightarrow> time \<Rightarrow> bool \<Rightarrow> bool \<Rightarrow> db \<Rightarrow> (seat_snapshot \<times> db) result" where
  "settleSeating b c now fullyPaid closeCounter d =
     (if fullyPaid then markSeatingPaid b c now closeCounter d
      else bindR (loadSeatingSnapshot b d) (\<lambda>s. Inr (s, d)))"

definition toPaymentDto :: "payment \<Rightarrow> payment_dto" where
  "toPaymentDto p = \<lparr>pd_paymentId = py_id p, pd_method = py_method p, pd_status = py_status p,
     pd_amount = money (py_amount p), pd_transferChannel = py_transferChannel p,
     pd_collector = py_collector p, pd_settledAt = py_settledAt p\<rparr>"

section \<open>Cash\<close>

definition payCashCheck ::
  "env \<Rightarrow> auth_ctx \<Rightarrow> id \<Rightarrow> string \<Rightarrow> string \<Rightarrow> db \<Rightarrow> (bill \<times> decimal \<times> decimal) result" where
  "payCashCheck e c bid amountText tenderedText d =
     bindR (loadPayableBill c bid d) (\<lambda>b.
     bindR (assertCollectorForBill c (bill_seating b d)) (\<lambda>_.
     bindR (assertBusinessDayNotLocked (branch_of c) (bl_businessDate b) d) (\<lambda>_.
       let due = bl_total b - bl_amountPaid b;
           amount = dp2 (env_decimal e amountText);
           tendered = dp2 (env_decimal e tenderedText)
       in if due \<le> 0 \<or> amount \<le> 0 \<or> due < amount then Inl (Unprocessable ''PAYMENT_AMOUNT_INVALID'')
          else if tendered < amount then Inl (Unprocessable ''CASH_TENDERED_INSUFFICIENT'')
          else Inr (b, amount, tendered))))"

definition cash_row :: "auth_ctx \<Rightarrow> bill \<Rightarrow> decimal \<Rightarrow> decimal \<Rightarrow> time \<Rightarrow> id \<Rightarrow> payment" where
  "cash_row c b amount tendered now i =
     \<lparr>py_id = i, py_branchId = branch_of c, py_businessDate = bl_businessDate b, py_billId = bl_id b,
      py_method = CASH, py_transferChannel = None, py_status = ''SETTLED'', py_amount = amount,
      py_collector = staff_of c, py_collectorShift = shift_of c, py_cashTendered = Some tendered,
      py_cashChange = Some (tendered - amount), py_initiatedAt = now, py_collectedAt = Some now, py_verifiedAt = None,
      py_settledAt = Some now\<rparr>"

definition payCashTx ::
  "env \<Rightarrow> auth_ctx \<Rightarrow> command_key \<Rightarrow> request \<Rightarrow> bill \<Rightarrow> bool \<Rightarrow> nat \<Rightarrow> decimal \<Rightarrow> decimal \<Rightarrow> db \<Rightarrow>
     (response \<times> db) result" where
  "payCashTx e c k body b counter expected amount tendered d =
     (let now = env_now e
      in bindR (applyPartialBillPayment b expected amount now d) (\<lambda>(u, fullyPaid, remaining, d1).
         let i = next_id d1;
             payment = cash_row c b amount tendered now i;
             d2 = d1\<lparr>payments := payments d1 @ [payment], next_id := i + 1\<rparr>
         in bindR (settleSeating b c now fullyPaid counter d2) (\<lambda>(seat, d3).
            let payload = Res_Payment
                  \<lparr>pr_payment = toPaymentDto payment, pr_change = Some (money (tendered - amount)),
                   pr_tip = None, pr_verifiedAmount = None, pr_remaining = money remaining,
                   pr_billId = bl_id u, pr_billStatus = bl_status u,
                   pr_amountPaid = money (bl_amountPaid u), pr_billVersion = bl_version u,
                   pr_seat = seat\<rparr>
            in bindR (commit (storeIdempotent (env_hash e) i k body payload d3)) (\<lambda>d4.
               Inr (payload, emit (Notify_cashiers (request_notice ''payment.settled'' i)) d4)))))"

definition isCounter :: "bill \<Rightarrow> db \<Rightarrow> bool" where
  "isCounter b d = (Option.bind (bl_tableSessionId b) (\<lambda>t. map_option ts_sessionKind
      (row_by ts_id t (table_sessions d))) = Some COUNTER)"

definition payCashBody ::
  "env \<Rightarrow> auth_ctx \<Rightarrow> command_key \<Rightarrow> id \<Rightarrow> string \<Rightarrow> string \<Rightarrow> nat \<Rightarrow> db \<Rightarrow> (response \<times> db) result" where
  "payCashBody e c k bid amountText tenderedText expected d =
     bindR (payCashCheck e c bid amountText tenderedText d) (\<lambda>(b, amount, tendered).
       payCashTx e c k (Req_PayCash bid amountText tenderedText expected) b (isCounter b d) expected
         amount tendered d)"

definition payCash ::
  "env \<Rightarrow> auth_ctx \<Rightarrow> id \<Rightarrow> string \<Rightarrow> string \<Rightarrow> nat \<Rightarrow> string option \<Rightarrow> db \<Rightarrow> (response \<times> db) result" where
  "payCash e c bid amountText tenderedText expected key d =
     bindR (requireCollectorOnShift e c) (\<lambda>c.
     bindR (requireIdempotencyKey key) (\<lambda>s.
       let k = command_key c ''payment.cash'' s
       in guarded_command e k (Req_PayCash bid amountText tenderedText expected)
            (payCashBody e c k bid amountText tenderedText expected) d))"

section \<open>Bank transfers\<close>

definition resolveVerifyBank :: "transfer_dto \<Rightarrow> string" where
  "resolveVerifyBank t = (case tf_bankProvider t of
      Some b \<Rightarrow> b
    | None \<Rightarrow> if tf_channel t = ''TELEBIRR'' then ''telebirr'' else ''cbe'')"

definition blank :: "string option \<Rightarrow> bool" where
  "blank s = (trim_or_null s = None)"

text \<open>What verification adds to a transfer: the tip, the label, the time, the reference.\<close>

record verification =
  vf_tip :: "decimal option"
  vf_amount :: "decimal option"
  vf_at :: "time option"
  vf_reference :: string

definition max_age_ms :: int where "max_age_ms = 7200000"
definition clock_drift_ms :: int where "clock_drift_ms = 600000"
definition session_slack_ms :: int where "session_slack_ms = 1800000"

text \<open>The guard on replayed receipts, and the guards on the time of the transfer.\<close>

definition checkConfirmations :: "verify_reply \<Rightarrow> unit result" where
  "checkConfirmations v =
     (if vr_confirmedBefore v = Some True \<or> vr_isFirstConfirmation v = Some False
      then Inl (Conflict ''TRANSFER_ALREADY_USED'') else Inr ())"

definition checkTransferTime :: "time \<Rightarrow> time option \<Rightarrow> time option \<Rightarrow> unit result" where
  "checkTransferTime now openedAt stamp =
     (case stamp of
        None \<Rightarrow> Inr ()
      | Some t \<Rightarrow>
          if now + clock_drift_ms < t then Inl (Unprocessable ''TRANSFER_INVALID_TIMESTAMP'')
          else if max_age_ms < now - t then Inl (Unprocessable ''TRANSFER_TOO_OLD'')
          else (case openedAt of
              None \<Rightarrow> Inr ()
            | Some o' \<Rightarrow> if t < o' - session_slack_ms then Inl (Unprocessable ''TRANSFER_PREDATES_SESSION'')
                         else Inr ()))"

definition verifyTransfer ::
  "env \<Rightarrow> string \<Rightarrow> bill \<Rightarrow> seat_view option \<Rightarrow> transfer_dto \<Rightarrow> decimal \<Rightarrow> verification result" where
  "verifyTransfer e key b v t claimed =
     (let reference = trim_or_null (tf_reference t);
          ref0 = (case reference of None \<Rightarrow> [] | Some r \<Rightarrow> to_upper r);
          bank = resolveVerifyBank t
      in if \<not> env_verifyEnabled e
         then Inr \<lparr>vf_tip = None, vf_amount = None, vf_at = None, vf_reference = ref0\<rparr>
         else if reference = None \<and> bank = ''cbebirr'' \<and> blank (tf_phoneNumber t)
           then Inl (Unprocessable ''VERIFY_PHONE_REQUIRED'')
         else if reference = None \<and> bank = ''boa'' \<and> blank (tf_accountSuffix t)
           then Inl (Unprocessable ''VERIFY_SUFFIX_REQUIRED'')
         else
           let q = env_verify e \<lparr>vq_bank = bank, vq_reference = map_option trim (tf_reference t),
                 vq_accountSuffix = tf_accountSuffix t, vq_phoneNumber = tf_phoneNumber t,
                 vq_idempotencyKey = (bl_id b, key), vq_fileId = tf_fileId t\<rparr>
           in if \<not> vr_verified q then Inl (Unprocessable ''TRANSFER_NOT_VERIFIED'')
              else bindR (checkConfirmations q) (\<lambda>_.
                   bindR (checkTransferTime (env_now e) (map_option sv_openedAt v) (vr_timestamp q)) (\<lambda>_.
                   case vr_amount q of
                     None \<Rightarrow> Inl (Unprocessable ''TRANSFER_AMOUNT_UNKNOWN'')
                   | Some a \<Rightarrow>
                       let verified = dp2 a;
                           ref = (case vr_reference q of
                               Some r \<Rightarrow> if r \<noteq> [] then to_upper (trim r) else ref0
                             | None \<Rightarrow> ref0)
                       in if verified < claimed then Inl (Unprocessable ''TRANSFER_UNDER_DUE'')
                          else Inr \<lparr>vf_tip = (if claimed < verified then Some (verified - claimed) else None),
                                    vf_amount = Some (money verified), vf_at = Some (env_now e),
                                    vf_reference = ref\<rparr>)))"

definition reference_command :: string where
  "reference_command = ''bank_transfer_reference''"

definition checkReferenceUse :: "auth_ctx \<Rightarrow> bill \<Rightarrow> string \<Rightarrow> db \<Rightarrow> unit result" where
  "checkReferenceUse c b ref d =
     (if ref = [] then Inr ()
      else case find (\<lambda>r. ik_tenantId r = tenant_of c \<and> ik_command r = reference_command \<and> ik_key r = ref)
             (idempotency d) of
          None \<Rightarrow> Inr ()
        | Some r \<Rightarrow> if ik_resourceId r \<noteq> bl_id b then Inl (Conflict ''TRANSFER_ALREADY_USED'') else Inr ())"

text \<open>What is checked before the transaction: the bank's answer, then the use of its reference.\<close>

definition transferGuards ::
  "env \<Rightarrow> auth_ctx \<Rightarrow> string \<Rightarrow> id \<Rightarrow> transfer_dto \<Rightarrow> db \<Rightarrow> (bill \<times> decimal \<times> verification) result" where
  "transferGuards e c key bid t d =
     bindR (loadPayableBill c bid d) (\<lambda>b.
     bindR (assertCollectorForBill c (bill_seating b d)) (\<lambda>_.
     bindR (assertBusinessDayNotLocked (branch_of c) (bl_businessDate b) d) (\<lambda>_.
       if tf_fileId t \<notin> set (files d) then Inl (Unprocessable ''RECEIPT_FILE_MISSING'')
       else
         let due = bl_total b - bl_amountPaid b; claimed = dp2 (env_decimal e (tf_amount t))
         in if due \<le> 0 \<or> claimed \<le> 0 \<or> due < claimed then Inl (Unprocessable ''PAYMENT_AMOUNT_INVALID'')
            else bindR (verifyTransfer e key b (bill_seating b d) t claimed) (\<lambda>vf. Inr (b, claimed, vf)))))"

definition payTransferCheck ::
  "env \<Rightarrow> auth_ctx \<Rightarrow> string \<Rightarrow> id \<Rightarrow> transfer_dto \<Rightarrow> db \<Rightarrow> (bill \<times> decimal \<times> verification) result" where
  "payTransferCheck e c key bid t d =
     bindR (transferGuards e c key bid t d) (\<lambda>(b, claimed, vf).
     bindR (checkReferenceUse c b (vf_reference vf) d) (\<lambda>_. Inr (b, claimed, vf)))"

definition transfer_row :: "auth_ctx \<Rightarrow> bill \<Rightarrow> string \<Rightarrow> decimal \<Rightarrow> time option \<Rightarrow> time \<Rightarrow> id \<Rightarrow> payment" where
  "transfer_row c b channel amount verifiedAt now i =
     \<lparr>py_id = i, py_branchId = branch_of c, py_businessDate = bl_businessDate b, py_billId = bl_id b,
      py_method = TRANSFER, py_transferChannel = Some channel, py_status = ''SETTLED'',
      py_amount = amount, py_collector = staff_of c, py_collectorShift = shift_of c,
      py_cashTendered = None, py_cashChange = None, py_initiatedAt = now, py_collectedAt = Some now,
      py_verifiedAt = verifiedAt, py_settledAt = Some now\<rparr>"

text \<open>The claim on the bank's reference (an upsert that changes nothing of an existing row)
  and the audit entry.\<close>

definition claimReference ::
  "env \<Rightarrow> auth_ctx \<Rightarrow> bill \<Rightarrow> id \<Rightarrow> decimal \<Rightarrow> string \<Rightarrow> db \<Rightarrow> db" where
  "claimReference e c b pid amount ref d =
     (if ref = [] then d
      else
        let k = command_key c reference_command ref;
            d1 = (case row_by row_key k (idempotency d) of
                Some _ \<Rightarrow> d
              | None \<Rightarrow> d\<lparr>idempotency := idempotency d @
                  [\<lparr>ik_tenantId = tenant_of c, ik_actorUser = ax_userId c, ik_command = reference_command,
                    ik_key = ref, ik_requestHash = env_hash e (Req_BankReference ref (bl_id b)),
                    ik_resourceId = bl_id b,
                    ik_response = Some (Res_BankReference (bl_id b) pid ref amount)\<rparr>]\<rparr>)
        in d1\<lparr>audits := audits d1 @ [\<lparr>ae_action = ''TRANSFER_PAYMENT_VERIFIED'', ae_entityId = pid,
             ae_actorUser = Some (ax_userId c)\<rparr>]\<rparr>)"

definition payTransferTx ::
  "env \<Rightarrow> auth_ctx \<Rightarrow> command_key \<Rightarrow> request \<Rightarrow> bill \<Rightarrow> transfer_dto \<Rightarrow> decimal \<Rightarrow> verification \<Rightarrow> db \<Rightarrow>
     (response \<times> db) result" where
  "payTransferTx e c k body b t settle vf d =
     (let now = env_now e
      in bindR (applyPartialBillPayment b (tf_expectedBillVersion t) settle now d) (\<lambda>(u, fullyPaid, remaining, d1).
         let i = next_id d1;
             payment = transfer_row c b (tf_channel t) settle (vf_at vf) now i;
             d2 = d1\<lparr>payments := payments d1 @ [payment], next_id := i + 1,
               receipts := receipts d1 @ [\<lparr>tr_paymentId = i, tr_fileId = tf_fileId t,
                 tr_capturedBy = staff_of c, tr_capturedAt = now\<rparr>]\<rparr>
         in bindR (settleSeating b c now fullyPaid False d2) (\<lambda>(seat, d3).
            let payload = Res_Payment
                  \<lparr>pr_payment = toPaymentDto payment, pr_change = None,
                   pr_tip = map_option money (vf_tip vf), pr_verifiedAmount = vf_amount vf,
                   pr_remaining = money remaining, pr_billId = bl_id u, pr_billStatus = bl_status u,
                   pr_amountPaid = money (bl_amountPaid u), pr_billVersion = bl_version u,
                   pr_seat = seat\<rparr>
            in bindR (commit (claimReference e c b i settle (vf_reference vf)
                 (storeIdempotent (env_hash e) i k body payload d3))) (\<lambda>d4.
               Inr (payload, emit (Notify_cashiers (request_notice ''payment.settled'' i)) d4)))))"

definition payTransferBody ::
  "env \<Rightarrow> auth_ctx \<Rightarrow> command_key \<Rightarrow> id \<Rightarrow> transfer_dto \<Rightarrow> db \<Rightarrow> (response \<times> db) result" where
  "payTransferBody e c k bid t d =
     bindR (payTransferCheck e c (ck_key k) bid t d) (\<lambda>(b, settle, vf).
       payTransferTx e c k (Req_PayTransfer bid t) b t settle vf d)"

definition payTransfer ::
  "env \<Rightarrow> auth_ctx \<Rightarrow> id \<Rightarrow> transfer_dto \<Rightarrow> string option \<Rightarrow> db \<Rightarrow> (response \<times> db) result" where
  "payTransfer e c bid t key d =
     bindR (requireCollectorOnShift e c) (\<lambda>c.
     bindR (requireIdempotencyKey key) (\<lambda>s.
       let k = command_key c ''payment.transfer'' s
       in guarded_command e k (Req_PayTransfer bid t) (payTransferBody e c k bid t) d))"

section \<open>What a payment does\<close>

definition settled :: "decimal \<Rightarrow> time \<Rightarrow> bill \<Rightarrow> bill" where
  "settled amount now b =
     (let nextPaid = dp2 (bl_amountPaid b + amount)
      in if bl_total b \<le> nextPaid
         then b\<lparr>bl_status := B_PAID, bl_amountPaid := bl_total b, bl_paidAt := Some now,
                bl_version := bl_version b + 1\<rparr>
         else b\<lparr>bl_status := B_PAYMENT_PENDING, bl_amountPaid := nextPaid,
                bl_version := bl_version b + 1\<rparr>)"

lemma settled_id [simp]: "bl_id (settled a now b) = bl_id b"
  by (simp add: settled_def Let_def)

lemma settled_version [simp]: "bl_version (settled a now b) = bl_version b + 1"
  by (simp add: settled_def Let_def)

lemma settled_total [simp]: "bl_total (settled a now b) = bl_total b"
  by (simp add: settled_def Let_def)

lemma settled_paid:
  "cents (bl_amountPaid b) \<Longrightarrow> cents a \<Longrightarrow> a \<le> bl_total b - bl_amountPaid b \<Longrightarrow>
     bl_amountPaid (settled a now b) = bl_amountPaid b + a"
  by (auto simp: settled_def Let_def round_scaled scaled_add)

lemma settled_status:
  "cents (bl_amountPaid b) \<Longrightarrow> cents a \<Longrightarrow>
     bl_status (settled a now b) = (if bl_total b \<le> bl_amountPaid b + a then B_PAID else B_PAYMENT_PENDING)"
  by (simp add: settled_def Let_def round_scaled scaled_add)

lemma applyPartial_success:
  assumes "applyPartialBillPayment b n a now d = Inr (u, full, rest, d1)"
    and row: "row_by bl_id (bl_id b) (bills d) = Some b" and dist: "distinct (map bl_id (bills d))"
  shows "bl_version b = n" and "bl_status b \<in> set payable_statuses" and "u = settled a now b"
    and "d1 = d\<lparr>bills := update_id bl_id (bl_id b) (settled a now) (bills d)\<rparr>"
    and "full \<longleftrightarrow> bl_total b \<le> dp2 (bl_amountPaid b + a)"
    and "rest = (if full then 0 else dp2 (bl_total b - dp2 (bl_amountPaid b + a)))"
proof -
  let ?np = "dp2 (bl_amountPaid b + a)"
  let ?P = "\<lambda>x. bl_id x = bl_id b \<and> bl_version x = n \<and> bl_status x \<in> set payable_statuses"
  let ?upd = "\<lambda>x. if bl_total b \<le> ?np
             then x\<lparr>bl_status := B_PAID, bl_amountPaid := bl_total b, bl_paidAt := Some now,
                    bl_version := bl_version x + 1\<rparr>
             else x\<lparr>bl_status := B_PAYMENT_PENDING, bl_amountPaid := ?np, bl_version := bl_version x + 1\<rparr>"
  from assms(1) have cnt: "count_where ?P (bills d) = 1"
    and u: "row_by bl_id (bl_id b) (update_many ?P ?upd (bills d)) = Some u"
    and d1: "d1 = d\<lparr>bills := update_many ?P ?upd (bills d)\<rparr>"
    and f: "full \<longleftrightarrow> bl_total b \<le> ?np" and r: "rest = (if full then 0 else dp2 (bl_total b - ?np))"
    by (auto simp: applyPartialBillPayment_def Let_def split: if_splits option.splits)
  have "filter ?P (bills d) \<noteq> []" using cnt by (auto simp: count_where_def)
  then obtain x where x: "x \<in> set (bills d)" "?P x" by (auto simp: filter_empty_conv)
  from x(2) have "bl_id x = bl_id b" by blast
  with row_by_distinct [OF dist x(1)] row have xb: "x = b" by (metis option.inject)
  from x(2) show "bl_version b = n" and "bl_status b \<in> set payable_statuses" unfolding xb by blast+
  have um: "update_many ?P ?upd (bills d) = update_id bl_id (bl_id b) ?upd (bills d)"
  proof -
    have "update_many ?P ?upd (bills d) = update_id bl_id (bl_id x) ?upd (bills d)"
      by (rule update_many_one [OF dist x(1)]) (use x(2) xb in blast)+
    then show ?thesis by (simp only: xb)
  qed
  have same: "update_id bl_id (bl_id b) ?upd (bills d) = update_id bl_id (bl_id b) (settled a now) (bills d)"
  proof -
    have "?upd x = settled a now x" if "x \<in> set (bills d)" "bl_id x = bl_id b" for x
    proof -
      have "x = b" using row_by_distinct [OF dist that(1)] row that(2) by (metis option.inject)
      then show ?thesis by (simp add: settled_def Let_def)
    qed
    then show ?thesis by (auto simp: update_id_def update_many_def)
  qed
  show "d1 = d\<lparr>bills := update_id bl_id (bl_id b) (settled a now) (bills d)\<rparr>"
    by (simp add: d1 um same)
  show "u = settled a now b" using u row unfolding um same by (simp add: row_by_update_id)
  show "full \<longleftrightarrow> bl_total b \<le> ?np" and "rest = (if full then 0 else dp2 (bl_total b - ?np))"
    using f r by simp_all
qed

text \<open>
  The abstract payment: one payable bill, at the version the caller saw, is settled by a
  positive amount within its due, and one payment of that amount is recorded.
\<close>

definition settles :: "bill \<Rightarrow> nat \<Rightarrow> payment \<Rightarrow> db \<Rightarrow> db \<Rightarrow> bool" where
  "settles b n p d d' \<longleftrightarrow>
     b \<in> set (bills d) \<and> bl_version b = n \<and> bl_status b \<in> set payable_statuses \<and>
     0 < py_amount p \<and> py_amount p \<le> bl_total b - bl_amountPaid b \<and> cents (py_amount p) \<and>
     py_billId p = bl_id b \<and> py_status p = ''SETTLED'' \<and>
     (\<exists>now. bills d' = update_id bl_id (bl_id b) (settled (py_amount p) now) (bills d)) \<and>
     payments d' = payments d @ [p] \<and> next_id d' = next_id d + 1 \<and> db_ok d'"

lemma settleSeating_frame [frame]:
  assumes "settleSeating b c now full cl d = Inr (s, d')"
  shows "bills d' = bills d" "payments d' = payments d" "next_id d' = next_id d"
    "idempotency d' = idempotency d" "cash_ledger d' = cash_ledger d"
  using assms
  by (auto simp: settleSeating_def markSeatingPaid_def Let_def bump_table_def bump_room_def
      split: if_splits option.splits)

lemma payCashCheck_success:
  assumes "payCashCheck e c bid at' tt d = Inr (b, a, t)"
  shows "find (\<lambda>b. bl_id b = bid \<and> bl_branchId b = branch_of c) (bills d) = Some b"
    and "bl_status b \<in> set payable_statuses" and "0 < a" and "a \<le> bl_total b - bl_amountPaid b"
    and "a \<le> t" and "cents a" and "cents t" and "\<not> day_locked (branch_of c) (bl_businessDate b) d"
    and "assertCollectorForBill c (bill_seating b d) = Inr ()"
  using assms
  by (auto simp: payCashCheck_def loadPayableBill_def Let_def inversion scaled_round
      split: if_splits option.splits)

lemma payTransferCheck_success:
  assumes "payTransferCheck e c k bid t d = Inr (b, a, vf)"
  shows "find (\<lambda>b. bl_id b = bid \<and> bl_branchId b = branch_of c) (bills d) = Some b"
    and "bl_status b \<in> set payable_statuses" and "0 < a" and "a \<le> bl_total b - bl_amountPaid b"
    and "cents a" and "\<not> day_locked (branch_of c) (bl_businessDate b) d"
    and "verifyTransfer e k b (bill_seating b d) t a = Inr vf"
    and "checkReferenceUse c b (vf_reference vf) d = Inr ()"
  using assms
  by (auto simp: payTransferCheck_def transferGuards_def loadPayableBill_def Let_def inversion scaled_round
      split: if_splits option.splits)

lemma claimReference_frame [frame, simp]:
  "bills (claimReference e c b i a r d) = bills d" "payments (claimReference e c b i a r d) = payments d"
  "next_id (claimReference e c b i a r d) = next_id d"
  "table_sessions (claimReference e c b i a r d) = table_sessions d"
  "room_sessions (claimReference e c b i a r d) = room_sessions d"
  by (auto simp: claimReference_def Let_def split: option.splits)

lemma payCashBody_settles:
  assumes "payCashBody e c k bid at' tt n d = Inr (res, d')" and dist: "distinct (map bl_id (bills d))"
  shows "\<exists>b a t. payCashCheck e c bid at' tt d = Inr (b, a, t) \<and>
     settles b n (cash_row c b a t (env_now e) (next_id d)) d d'"
proof -
  from assms obtain b a t where chk: "payCashCheck e c bid at' tt d = Inr (b, a, t)"
    and tx: "payCashTx e c k (Req_PayCash bid at' tt n) b (isCounter b d) n a t d = Inr (res, d')"
    by (auto simp: payCashBody_def)
  note ck = payCashCheck_success [OF chk]
  from ck(1) have mem: "b \<in> set (bills d)" and row: "row_by bl_id (bl_id b) (bills d) = Some b"
    using row_by_distinct [OF dist] by (auto dest!: find_Some_in)
  from tx obtain u full rest d1 d3 seat x where
    ap: "applyPartialBillPayment b n a (env_now e) d = Inr (u, full, rest, d1)"
    and st: "settleSeating b c (env_now e) full (isCounter b d)
       (d1\<lparr>payments := payments d1 @ [cash_row c b a t (env_now e) (next_id d1)], next_id := next_id d1 + 1\<rparr>) = Inr (seat, d3)"
    and ok: "db_ok (storeIdempotent (env_hash e) (next_id d1) k (Req_PayCash bid at' tt n) x d3)"
    and d': "d' = emit (Notify_cashiers (request_notice ''payment.settled'' (next_id d1)))
       (storeIdempotent (env_hash e) (next_id d1) k (Req_PayCash bid at' tt n) x d3)"
    by (auto simp: payCashTx_def Let_def inversion)
  note p = applyPartial_success [OF ap row dist]
  have "settles b n (cash_row c b a t (env_now e) (next_id d)) d d'"
    using settleSeating_frame [OF st] p mem ck ok
    unfolding settles_def d' by (auto simp: cash_row_def)
  with chk show ?thesis by blast
qed

lemma payTransferBody_settles:
  assumes "payTransferBody e c k bid t d = Inr (res, d')" and dist: "distinct (map bl_id (bills d))"
  shows "\<exists>b a vf. payTransferCheck e c (ck_key k) bid t d = Inr (b, a, vf) \<and>
     settles b (tf_expectedBillVersion t) (transfer_row c b (tf_channel t) a (vf_at vf) (env_now e) (next_id d)) d d'"
proof -
  from assms obtain b a vf where chk: "payTransferCheck e c (ck_key k) bid t d = Inr (b, a, vf)"
    and tx: "payTransferTx e c k (Req_PayTransfer bid t) b t a vf d = Inr (res, d')"
    by (auto simp: payTransferBody_def)
  note ck = payTransferCheck_success [OF chk]
  from ck(1) have mem: "b \<in> set (bills d)" and row: "row_by bl_id (bl_id b) (bills d) = Some b"
    using row_by_distinct [OF dist] by (auto dest!: find_Some_in)
  let ?p = "\<lambda>i. transfer_row c b (tf_channel t) a (vf_at vf) (env_now e) i"
  let ?st = "\<lambda>i x d3. claimReference e c b i a (vf_reference vf)
    (storeIdempotent (env_hash e) i k (Req_PayTransfer bid t) x d3)"
  from tx obtain u full rest d1 d3 seat x where
    ap: "applyPartialBillPayment b (tf_expectedBillVersion t) a (env_now e) d = Inr (u, full, rest, d1)"
    and st: "settleSeating b c (env_now e) full False
       (d1\<lparr>payments := payments d1 @ [?p (next_id d1)], next_id := next_id d1 + 1,
          receipts := receipts d1 @ [\<lparr>tr_paymentId = next_id d1, tr_fileId = tf_fileId t,
                 tr_capturedBy = staff_of c, tr_capturedAt = env_now e\<rparr>]\<rparr>) = Inr (seat, d3)"
    and ok: "db_ok (?st (next_id d1) x d3)"
    and d': "d' = emit (Notify_cashiers (request_notice ''payment.settled'' (next_id d1))) (?st (next_id d1) x d3)"
    by (auto simp: payTransferTx_def Let_def inversion)
  note p = applyPartial_success [OF ap row dist]
  have "settles b (tf_expectedBillVersion t) (?p (next_id d)) d d'"
    using settleSeating_frame [OF st] p mem ck ok
    unfolding settles_def d' by (auto simp: transfer_row_def)
  with chk show ?thesis by blast
qed

end
