(* ===== verification/Settlement.thy ===== *)
theory Settlement
  imports Payments
begin

text \<open>
  What the payments guarantee together: the books of a bill (\<open>billing_inv\<close>) along every run of
  the billing commands, replay of both payment commands, one payment per version of a bill
  (the interpretation \<open>bill_lock\<close>), and the properties of cash and transfer payments.
\<close>

section \<open>Bills and payments agree\<close>

definition paid_of :: "id \<Rightarrow> db \<Rightarrow> decimal" where
  "paid_of i d = sum_list (map py_amount
     (filter (\<lambda>p. py_billId p = i \<and> py_status p = ''SETTLED'') (payments d)))"

definition bill_ok :: "db \<Rightarrow> bill \<Rightarrow> bool" where
  "bill_ok d b \<longleftrightarrow> cents (bl_total b) \<and> cents (bl_amountPaid b) \<and>
     bl_amountPaid b = paid_of (bl_id b) d \<and> bl_amountPaid b \<le> bl_total b \<and>
     (bl_status b = B_PAID \<longrightarrow> bl_amountPaid b = bl_total b) \<and>
     (bl_status b = B_PAYMENT_PENDING \<longrightarrow> bl_amountPaid b < bl_total b)"

definition billing_inv :: "db \<Rightarrow> bool" where
  "billing_inv d \<longleftrightarrow> distinct (map bl_id (bills d)) \<and>
     list_all (\<lambda>b. bl_id b < next_id d \<and> bill_ok d b) (bills d) \<and>
     list_all (\<lambda>p. py_billId p < next_id d) (payments d)"

lemma billing_inv_frame:
  "billing_inv d \<Longrightarrow> bills d' = bills d \<Longrightarrow> payments d' = payments d \<Longrightarrow> next_id d \<le> next_id d' \<Longrightarrow> billing_inv d'"
  by (auto simp: billing_inv_def bill_ok_def paid_of_def list_all_iff intro: less_le_trans)

lemma paid_of_unknown: "billing_inv d \<Longrightarrow> next_id d \<le> i \<Longrightarrow> paid_of i d = 0"
proof -
  assume "billing_inv d" and "next_id d \<le> i"
  then have "filter (\<lambda>p. py_billId p = i \<and> py_status p = ''SETTLED'') (payments d) = []"
    by (auto simp: billing_inv_def list_all_iff filter_empty_conv)
  then show ?thesis by (simp only: paid_of_def list.map sum_list.Nil)
qed

lemma billing_inv_new_bill:
  assumes inv: "billing_inv d" and b: "bills d' = bills d @ [bill_row c t r day n is now i]"
    and p: "payments d' = payments d" and i: "next_id d \<le> i" "i < next_id d'" and ok: "db_ok d'"
  shows "billing_inv d'"
proof -
  let ?b = "bill_row c t r day n is now i"
  have "0 \<le> bl_total ?b" using db_okD(11) [OF ok, of ?b] b by simp
  moreover have "paid_of i d' = 0"
    using paid_of_unknown [OF inv i(1)] by (simp add: paid_of_def p)
  ultimately have "bill_ok d' ?b" by (simp add: bill_ok_def bill_row_def Let_def scaled_round)
  moreover have "bill_ok d' x = bill_ok d x" for x by (simp add: bill_ok_def paid_of_def p)
  moreover have "bl_id ?b = i" by (simp add: bill_row_def Let_def)
  ultimately show ?thesis using inv i by (auto simp: billing_inv_def b p list_all_iff)
qed

lemma paid_of_append:
  "paid_of i (d\<lparr>payments := payments d @ [p]\<rparr>) =
     paid_of i d + (if py_billId p = i \<and> py_status p = ''SETTLED'' then py_amount p else 0)"
  by (simp add: paid_of_def)

lemma billing_inv_settles:
  assumes inv: "billing_inv d" and s: "settles b n p d d'"
  shows "billing_inv d'"
proof -
  from s obtain now where b: "b \<in> set (bills d)"
    and st: "bl_status b \<in> set payable_statuses" and a: "0 < py_amount p" "py_amount p \<le> bl_total b - bl_amountPaid b"
    and cents: "cents (py_amount p)" and p: "py_billId p = bl_id b" "py_status p = ''SETTLED''"
    and bs: "bills d' = update_id bl_id (bl_id b) (settled (py_amount p) now) (bills d)"
    and ps: "payments d' = payments d @ [p]" and ni: "next_id d' = next_id d + 1"
    by (auto simp: settles_def)
  have paid: "paid_of i d' = paid_of i d + (if i = bl_id b then py_amount p else 0)" for i
    using p by (auto simp: paid_of_def ps)
  from inv b have okb: "bill_ok d b" and idb: "bl_id b < next_id d" by (auto simp: billing_inv_def list_all_iff)
  have dist: "distinct (map bl_id (bills d))" using inv by (simp add: billing_inv_def)
  have new: "bill_ok d' (settled (py_amount p) now b)"
    using okb a cents settled_paid [of b "py_amount p" now] settled_status [of b "py_amount p" now]
    by (auto simp: bill_ok_def paid scaled_add split: if_splits)
  have "bill_ok d' x \<and> bl_id x < next_id d'" if "x \<in> set (bills d')" for x
  proof -
    from that set_update_id [of x bl_id "bl_id b" "settled (py_amount p) now" "bills d"] bs
    consider x0 where "x0 \<in> set (bills d)" "bl_id x0 = bl_id b" "x = settled (py_amount p) now x0"
      | "x \<in> set (bills d)" "bl_id x \<noteq> bl_id b" by auto
    then show ?thesis
    proof cases
      case 1
      then have "x0 = b" using row_by_distinct [OF dist] b by (metis option.inject)
      with 1 new idb ni show ?thesis by simp
    next
      case 2
      with inv ni show ?thesis by (auto simp: billing_inv_def list_all_iff bill_ok_def paid)
    qed
  qed
  moreover have "distinct (map bl_id (bills d'))" using dist by (simp add: bs map_update_id)
  ultimately show ?thesis using inv p idb ni by (auto simp: billing_inv_def list_all_iff ps)
qed

section \<open>The billing commands as steps\<close>

inductive billing_step :: "db \<Rightarrow> db \<Rightarrow> bool" where
  request: "requestBill e c sid n key d = Inr (r, d') \<Longrightarrow> billing_step d d'"
| request_room: "requestBillForRoom e c sid n key d = Inr (r, d') \<Longrightarrow> billing_step d d'"
| withdraw: "cancelBillRequest e c rid d = Inr (r, d') \<Longrightarrow> billing_step d d'"
| generate: "generateBill e c rid et er key d = Inr (r, d') \<Longrightarrow> billing_step d d'"
| counter: "createCounterSale e c items key d = Inr (r, d') \<Longrightarrow> billing_step d d'"
| cash: "payCash e c bid amount tendered n key d = Inr (r, d') \<Longrightarrow> billing_step d d'"
| transfer: "payTransfer e c bid t key d = Inr (r, d') \<Longrightarrow> billing_step d d'"

inductive_cases billing_stepE: "billing_step d d'"

inductive billing_reachable :: "db \<Rightarrow> bool" where
  start: "bills d = [] \<Longrightarrow> payments d = [] \<Longrightarrow> billing_reachable d"
| step: "billing_reachable d \<Longrightarrow> billing_step d d' \<Longrightarrow> billing_reachable d'"

lemma requestTx_frame:
  "requestTx e c k body v d = Inr (res, d') \<Longrightarrow>
     bills d' = bills d \<and> payments d' = payments d \<and> next_id d' = next_id d + 1"
  by (auto simp: requestTx_def Let_def inversion)

lemma request_frame:
  "requestBill e c sid n key d = Inr (r, d') \<Longrightarrow>
     bills d' = bills d \<and> payments d' = payments d \<and> next_id d \<le> next_id d'"
  by (auto simp: requestBill_def requestBillBody_def Let_def inversion
      split: option.splits dest!: guarded_fresh requestTx_frame)

lemma request_room_frame:
  "requestBillForRoom e c sid n key d = Inr (r, d') \<Longrightarrow>
     bills d' = bills d \<and> payments d' = payments d \<and> next_id d \<le> next_id d'"
  by (auto simp: requestBillForRoom_def requestRoomBody_def Let_def inversion
      split: option.splits dest!: guarded_fresh requestTx_frame)

lemma withdraw_frame:
  "cancelBillRequest e c rid d = Inr (r, d') \<Longrightarrow>
     bills d' = bills d \<and> payments d' = payments d \<and> next_id d \<le> next_id d'"
  by (auto simp: cancelBillRequest_def Let_def inversion split: option.splits if_splits)

lemma generate_inv:
  assumes "generateBill e c rid et er key d = Inr (r, d')" and "billing_inv d"
  shows "billing_inv d'"
proof -
  from assms(1) consider "d' = d" | k where "generateBody e c k rid et er d = Inr (r, d')"
    by (auto simp: generateBill_def Let_def inversion split: if_splits dest!: guarded_fresh)
  then show ?thesis
  proof cases
    case 1
    with assms(2) show ?thesis by simp
  next
    case 2
    then obtain q v vip where
      tx: "generateTx e c k (Req_GenerateBill rid et er) q v (chargeable_items (sv_seat v) d) vip d = Inr (r, d')"
      by (auto simp: generateBody_eq_Inr Let_def)
    have "payments d' = payments d" and "next_id d' = next_id d + 1"
      using tx by (auto simp: generateTx_def Let_def inversion)
    with generateTx_success [OF tx] billing_inv_new_bill [OF assms(2)] show ?thesis by auto
  qed
qed

lemma counter_inv:
  assumes "createCounterSale e c items key d = Inr (r, d')" and "billing_inv d"
  shows "billing_inv d'"
proof -
  from assms(1) consider "d' = d" | k where "counterBody e c k items d = Inr (r, d')"
    by (auto simp: createCounterSale_def Let_def inversion split: if_splits dest!: guarded_fresh)
  then show ?thesis
  proof cases
    case 1
    with assms(2) show ?thesis by simp
  next
    case 2
    then obtain t ls where tx: "counterTx e c k (Req_CounterSale items) t ls d = Inr (r, d')"
      by (auto simp: counterBody_def Let_def split: option.splits if_splits)
    then obtain day n its where "bills d' = bills d @ [bill_row c (Some (next_id d)) None day n its (env_now e) (next_id d + 2)]"
      and "payments d' = payments d" and "next_id d' = next_id d + 3 + length ls" and "db_ok d'"
      by (auto simp: counterTx_def Let_def inversion)
    with billing_inv_new_bill [OF assms(2), of d'] show ?thesis by auto
  qed
qed

lemma payCash_cases:
  assumes "payCash e c bid at' tt n key d = Inr (r, d')"
  obtains "d' = d" | k where "payCashBody e c k bid at' tt n d = Inr (r, d')" "requireCollectorOnShift e c = Inr c"
  using assms by (auto simp: payCash_def Let_def inversion dest!: guarded_fresh)

lemma payTransfer_cases:
  assumes "payTransfer e c bid t key d = Inr (r, d')"
  obtains "d' = d" | k where "payTransferBody e c k bid t d = Inr (r, d')" "requireCollectorOnShift e c = Inr c"
  using assms by (auto simp: payTransfer_def Let_def inversion dest!: guarded_fresh)

lemma billing_inv_ids: "billing_inv d \<Longrightarrow> distinct (map bl_id (bills d))"
  by (simp add: billing_inv_def)

lemma billing_step_inv: "billing_step d d' \<Longrightarrow> billing_inv d \<Longrightarrow> billing_inv d'"
proof (erule billing_stepE, goal_cases)
  case (1 e c sid n key r)
  then show ?case using request_frame billing_inv_frame by metis
next
  case (2 e c sid n key r)
  then show ?case using request_room_frame billing_inv_frame by metis
next
  case (3 e c rid r)
  then show ?case using withdraw_frame billing_inv_frame by metis
next
  case (4 e c rid et er key r)
  then show ?case using generate_inv by blast
next
  case (5 e c items key r)
  then show ?case using counter_inv by blast
next
  case (6 e c bid amount tendered n key r)
  then show ?case using billing_inv_settles payCashBody_settles [OF _ billing_inv_ids]
    by (elim payCash_cases) blast+
next
  case (7 e c bid t key r)
  then show ?case using billing_inv_settles payTransferBody_settles [OF _ billing_inv_ids]
    by (elim payTransfer_cases) blast+
qed

lemma billing_reachable_inv: "billing_reachable d \<Longrightarrow> billing_inv d"
  by (induction rule: billing_reachable.induct)
    (simp add: billing_inv_def, rule billing_step_inv)

section \<open>Replay\<close>

lemma payCash_stores: "stores e k (Req_PayCash bid a t n) (payCashBody e c k bid a t n)"
proof (rule storesI)
  fix d res d'
  assume run: "payCashBody e c k bid a t n d = Inr (res, d')"
  then obtain b am te where tx: "payCashTx e c k (Req_PayCash bid a t n) b (isCounter b d) n am te d = Inr (res, d')"
    by (auto simp: payCashBody_def)
  then obtain u full rest d1 seat d3 where
    ap: "applyPartialBillPayment b n am (env_now e) d = Inr (u, full, rest, d1)"
    and st: "settleSeating b c (env_now e) full (isCounter b d)
       (d1\<lparr>payments := payments d1 @ [cash_row c b am te (env_now e) (next_id d1)], next_id := next_id d1 + 1\<rparr>) = Inr (seat, d3)"
    and id: "idempotency d' = idempotency (storeIdempotent (env_hash e) (next_id d1) k (Req_PayCash bid a t n) res d3)"
    by (auto simp: payCashTx_def Let_def inversion)
  have "idempotency d1 = idempotency d"
    using ap by (auto simp: applyPartialBillPayment_def Let_def split: if_splits option.splits)
  with settleSeating_frame(4) [OF st] have "idempotency d3 = idempotency d" by simp
  with id show "\<exists>d0 rid. idempotency d0 = idempotency d \<and>
       idempotency d' = idempotency (storeIdempotent (env_hash e) rid k (Req_PayCash bid a t n) res d0)"
    by blast
qed

lemma findIdempotent_claim:
  "ck_command k \<noteq> reference_command \<Longrightarrow>
     findIdempotent h k body (claimReference e c b i a r d) = findIdempotent h k body d"
  by (auto simp: claimReference_def Let_def findIdempotent_def table_simps row_key_def
      split: option.splits)

lemma payTransfer_stores:
  assumes k: "ck_command k \<noteq> reference_command"
  shows "stores e k (Req_PayTransfer bid t) (payTransferBody e c k bid t)"
  unfolding stores_def
proof (intro allI impI)
  fix d res d'
  assume none: "findIdempotent (env_hash e) k (Req_PayTransfer bid t) d = Inr None"
    and run: "payTransferBody e c k bid t d = Inr (res, d')"
  from run obtain b am vf where tx: "payTransferTx e c k (Req_PayTransfer bid t) b t am vf d = Inr (res, d')"
    by (auto simp: payTransferBody_def)
  let ?p = "\<lambda>i. transfer_row c b (tf_channel t) am (vf_at vf) (env_now e) i"
  from tx obtain u full rest d1 seat d3 where
    ap: "applyPartialBillPayment b (tf_expectedBillVersion t) am (env_now e) d = Inr (u, full, rest, d1)"
    and st: "settleSeating b c (env_now e) full False
       (d1\<lparr>payments := payments d1 @ [?p (next_id d1)], next_id := next_id d1 + 1,
          receipts := receipts d1 @ [\<lparr>tr_paymentId = next_id d1, tr_fileId = tf_fileId t,
                 tr_capturedBy = staff_of c, tr_capturedAt = env_now e\<rparr>]\<rparr>) = Inr (seat, d3)"
    and id: "idempotency d' = idempotency (claimReference e c b (next_id d1) am (vf_reference vf)
        (storeIdempotent (env_hash e) (next_id d1) k (Req_PayTransfer bid t) res d3))"
    by (auto simp: payTransferTx_def Let_def inversion)
  have "idempotency d1 = idempotency d"
    using ap by (auto simp: applyPartialBillPayment_def Let_def split: if_splits option.splits)
  with settleSeating_frame(4) [OF st] have "idempotency d3 = idempotency d" by simp
  with none have "findIdempotent (env_hash e) k (Req_PayTransfer bid t) d3 = Inr None"
    using findIdempotent_cong by metis
  from idem.stored [OF this] have "findIdempotent (env_hash e) k (Req_PayTransfer bid t)
      (claimReference e c b (next_id d1) am (vf_reference vf)
        (storeIdempotent (env_hash e) (next_id d1) k (Req_PayTransfer bid t) res d3)) = Inr (Some res)"
    using k by (simp add: findIdempotent_claim)
  with id show "findIdempotent (env_hash e) k (Req_PayTransfer bid t) d' = Inr (Some res)"
    using findIdempotent_cong by metis
qed

section \<open>Optimistic locking of bills\<close>

lemma applyPartial_ids:
  "applyPartialBillPayment b n a now d = Inr (u, full, rest, d1) \<Longrightarrow> map bl_id (bills d1) = map bl_id (bills d)"
  by (auto simp: applyPartialBillPayment_def Let_def update_many_map split: if_splits option.splits)

lemma db_ok_bill_ids: "db_ok d \<Longrightarrow> distinct (map bl_id (bills d))"
  by (rule primary_keyD) (rule db_okD)

lemma payCashBody_ids:
  assumes "payCashBody e c k bid a t n d = Inr (r, d')"
  shows "distinct (map bl_id (bills d))"
proof -
  from assms obtain b am te u full rest d1 seat d3 d4 where
    ap: "applyPartialBillPayment b n am (env_now e) d = Inr (u, full, rest, d1)"
    and st: "settleSeating b c (env_now e) full (isCounter b d)
       (d1\<lparr>payments := payments d1 @ [cash_row c b am te (env_now e) (next_id d1)], next_id := next_id d1 + 1\<rparr>) = Inr (seat, d3)"
    and d': "bills d' = bills d3" "db_ok d'"
    by (auto simp: payCashBody_def payCashTx_def Let_def inversion)
  from db_ok_bill_ids [OF d'(2)] show ?thesis
    using settleSeating_frame(1) [OF st] applyPartial_ids [OF ap] d'(1) by simp
qed

lemma payTransferBody_ids:
  assumes "payTransferBody e c k bid t d = Inr (r, d')"
  shows "distinct (map bl_id (bills d))"
proof -
  from assms obtain b am u full rest d1 seat d3 and vf :: verification where
    ap: "applyPartialBillPayment b (tf_expectedBillVersion t) am (env_now e) d = Inr (u, full, rest, d1)"
    and st: "settleSeating b c (env_now e) full False
       (d1\<lparr>payments := payments d1 @ [transfer_row c b (tf_channel t) am (vf_at vf) (env_now e) (next_id d1)],
          next_id := next_id d1 + 1, receipts := receipts d1 @ [\<lparr>tr_paymentId = next_id d1,
            tr_fileId = tf_fileId t, tr_capturedBy = staff_of c, tr_capturedAt = env_now e\<rparr>]\<rparr>) = Inr (seat, d3)"
    and d': "bills d' = bills d3" "db_ok d'"
    by (auto simp: payTransferBody_def payTransferTx_def Let_def inversion)
  from db_ok_bill_ids [OF d'(2)] show ?thesis
    using settleSeating_frame(1) [OF st] applyPartial_ids [OF ap] d'(1) by simp
qed

definition bill_version :: "id \<Rightarrow> db \<Rightarrow> nat option" where
  "bill_version bid d = map_option bl_version (row_by bl_id bid (bills d))"

datatype pay_op =
    By_cash env auth_ctx command_key string string
  | By_transfer env auth_ctx command_key transfer_dto

fun run_pay :: "id \<Rightarrow> pay_op \<Rightarrow> nat \<Rightarrow> db \<Rightarrow> (response \<times> db) result" where
  "run_pay bid (By_cash e c k a t) n d = payCashBody e c k bid a t n d"
| "run_pay bid (By_transfer e c k t) n d = payTransferBody e c k bid (t\<lparr>tf_expectedBillVersion := n\<rparr>) d"

lemma settles_version:
  assumes "settles b n p d d'" and dist: "distinct (map bl_id (bills d))"
  shows "bill_version (bl_id b) d = Some n \<and> bill_version (bl_id b) d' = Some (n + 1)"
proof -
  from assms obtain now where b: "b \<in> set (bills d)" "bl_version b = n"
    and bs: "bills d' = update_id bl_id (bl_id b) (settled (py_amount p) now) (bills d)"
    by (auto simp: settles_def)
  have "row_by bl_id (bl_id b) (bills d) = Some b" using row_by_distinct [OF dist b(1)] .
  with b bs show ?thesis by (simp add: bill_version_def row_by_update_id)
qed

lemma payCashBody_id: "payCashCheck e c bid a t d = Inr (b, am, te) \<Longrightarrow> bl_id b = bid"
  by (auto dest!: payCashCheck_success(1) find_Some_in)

lemma payTransferBody_id: "payTransferCheck e c k bid t d = Inr (b, am, te) \<Longrightarrow> bl_id b = bid"
  by (auto dest!: payTransferCheck_success(1) find_Some_in)

interpretation bill_lock: optimistic "bill_version bid" "run_pay bid" for bid
proof
  fix x n s r s'
  assume run: "run_pay bid x n s = Inr (r, s')"
  show "bill_version bid s = Some n \<and> bill_version bid s' = Some (n + 1)"
  proof (cases x)
    case (By_cash e c k a t)
    with run have body: "payCashBody e c k bid a t n s = Inr (r, s')" by simp
    note ids = payCashBody_ids [OF body]
    from payCashBody_settles [OF body ids] obtain b am te p where
      "payCashCheck e c bid a t s = Inr (b, am, te)" "settles b n p s s'" by blast
    with settles_version [OF _ ids] payCashBody_id show ?thesis by metis
  next
    case (By_transfer e c k t)
    let ?t = "t\<lparr>tf_expectedBillVersion := n\<rparr>"
    from By_transfer run have body: "payTransferBody e c k bid ?t s = Inr (r, s')" by simp
    note ids = payTransferBody_ids [OF body]
    from payTransferBody_settles [OF body ids] obtain b am vf p where
      "payTransferCheck e c (ck_key k) bid ?t s = Inr (b, am, vf)" "settles b n p s s'" by fastforce
    with settles_version [OF _ ids] payTransferBody_id show ?thesis by metis
  qed
qed

text \<open>What any billing command does to the bills: nothing, one bill more, or one bill settled further.\<close>

lemma billing_step_bills:
  assumes "billing_step d d'"
  obtains "bills d' = bills d" | b where "bills d' = bills d @ [b]"
  | i a now where "bills d' = update_id bl_id i (settled a now) (bills d)"
  using assms
proof (cases rule: billing_step.cases)
  case (request e c sid n key r)
  then show ?thesis using request_frame that(1) by blast
next
  case (request_room e c sid n key r)
  then show ?thesis using request_room_frame that(1) by blast
next
  case (withdraw e c rid r)
  then show ?thesis using withdraw_frame that(1) by blast
next
  case (generate e c rid et er key r)
  then consider "d' = d" | k where "generateBody e c k rid et er d = Inr (r, d')"
    by (auto simp: generateBill_def Let_def inversion split: if_splits dest!: guarded_fresh)
  then show ?thesis
  proof cases
    case 2
    then obtain q v vip where
      tx: "generateTx e c k (Req_GenerateBill rid et er) q v (chargeable_items (sv_seat v) d) vip d = Inr (r, d')"
      by (auto simp: generateBody_eq_Inr Let_def)
    from generateTx_success [OF tx] that(2) show ?thesis by blast
  qed (use that(1) in simp)
next
  case (counter e c items key r)
  then consider "d' = d" | k where "counterBody e c k items d = Inr (r, d')"
    by (auto simp: createCounterSale_def Let_def inversion split: if_splits dest!: guarded_fresh)
  then show ?thesis
  proof cases
    case 2
    then obtain t ls where "counterTx e c k (Req_CounterSale items) t ls d = Inr (r, d')"
      by (auto simp: counterBody_def Let_def split: option.splits if_splits)
    then show ?thesis using that(2) by (auto simp: counterTx_def Let_def inversion)
  qed (use that(1) in simp)
next
  case (cash e c bid amount tendered n key r)
  then show ?thesis
  proof (rule payCash_cases)
    fix k
    assume body: "payCashBody e c k bid amount tendered n d = Inr (r, d')"
    from payCashBody_settles [OF body payCashBody_ids [OF body]] that(3) show ?thesis by (auto simp: settles_def)
  qed (use that(1) in simp)
next
  case (transfer e c bid t key r)
  then show ?thesis
  proof (rule payTransfer_cases)
    fix k
    assume body: "payTransferBody e c k bid t d = Inr (r, d')"
    from payTransferBody_settles [OF body payTransferBody_ids [OF body]] that(3) show ?thesis by (auto simp: settles_def)
  qed (use that(1) in simp)
qed

lemma bill_version_grows:
  assumes "billing_step\<^sup>*\<^sup>* d d'" and "bill_version i d = Some m"
  shows "\<exists>m' \<ge> m. bill_version i d' = Some m'"
  using assms
proof (induction rule: rtranclp_induct)
  case (step d1 d2)
  then obtain m1 where m1: "m \<le> m1" "bill_version i d1 = Some m1" by blast
  from step(2) show ?case
  proof (cases rule: billing_step_bills)
    case 1
    with m1 show ?thesis by (auto simp: bill_version_def)
  next
    case (2 b)
    with m1 show ?thesis by (auto simp: bill_version_def row_by_append split: option.splits)
  next
    case (3 j a now)
    from m1(2) obtain b where "row_by bl_id i (bills d1) = Some b" "bl_version b = m1"
      by (auto simp: bill_version_def)
    with 3 m1(1) show ?thesis by (cases "i = j") (auto simp: bill_version_def row_by_update_id)
  qed
qed auto

section \<open>Claimed references\<close>

text \<open>The bill a bank reference was used for; no billing command takes it away.\<close>

definition reference_owner :: "id \<Rightarrow> string \<Rightarrow> db \<Rightarrow> id option" where
  "reference_owner t ref d = map_option ik_resourceId
     (find (\<lambda>r. ik_tenantId r = t \<and> ik_command r = reference_command \<and> ik_key r = ref) (idempotency d))"

lemma checkReferenceUse_owner:
  "checkReferenceUse c b ref d =
     (if ref = [] \<or> reference_owner (tenant_of c) ref d \<in> {None, Some (bl_id b)} then Inr ()
      else Inl (Conflict ''TRANSFER_ALREADY_USED''))"
  by (auto simp: checkReferenceUse_def reference_owner_def split: option.splits)

lemma owner_cong: "idempotency d' = idempotency d \<Longrightarrow> reference_owner t ref d' = reference_owner t ref d"
  by (simp add: reference_owner_def)

lemma find_update_response:
  "map_option ik_resourceId (find (\<lambda>r. ik_tenantId r = t \<and> ik_command r = cmd \<and> ik_key r = ref)
      (update_id row_key k (\<lambda>r. r\<lparr>ik_response := x\<rparr>) rs)) =
   map_option ik_resourceId (find (\<lambda>r. ik_tenantId r = t \<and> ik_command r = cmd \<and> ik_key r = ref) rs)"
  by (induction rs) (auto simp: update_id_def update_many_def)

lemma find_snoc: "find P (xs @ [x]) = (case find P xs of Some y \<Rightarrow> Some y | None \<Rightarrow> if P x then Some x else None)"
  by (induction xs) auto

lemma owner_store_eq:
  "reference_owner t ref (storeIdempotent h i k b x d) =
     (case row_by row_key k (idempotency d) of
        Some _ \<Rightarrow> reference_owner t ref d
      | None \<Rightarrow> (case reference_owner t ref d of
          Some j \<Rightarrow> Some j
        | None \<Rightarrow> if ck_tenant k = t \<and> ck_command k = reference_command \<and> ck_key k = ref then Some i else None))"
proof (cases "row_by row_key k (idempotency d)")
  case None
  then show ?thesis by (auto simp: reference_owner_def storeIdempotent_def find_snoc split: option.splits)
next
  case (Some r)
  then show ?thesis unfolding reference_owner_def storeIdempotent_def by (simp add: find_update_response)
qed

lemma owner_store:
  "ck_command k \<noteq> reference_command \<Longrightarrow> reference_owner t ref (storeIdempotent h i k b x d) = reference_owner t ref d"
  by (simp add: owner_store_eq split: option.split)

lemma owner_kept_store:
  "reference_owner t ref d = Some i \<Longrightarrow> reference_owner t ref (storeIdempotent h j k b x d) = Some i"
  by (simp add: owner_store_eq split: option.split)

lemma owner_kept_claim:
  "reference_owner t ref d = Some i \<Longrightarrow> reference_owner t ref (claimReference e c b j a ref' d) = Some i"
  by (auto simp: reference_owner_def claimReference_def Let_def find_snoc split: option.splits)

lemma claimed_owner:
  assumes "ref \<noteq> []" and "reference_owner (tenant_of c) ref d \<in> {None, Some (bl_id b)}"
  shows "reference_owner (tenant_of c) ref (claimReference e c b i a ref d) = Some (bl_id b)"
proof (cases "reference_owner (tenant_of c) ref d")
  case (Some j)
  with owner_kept_claim [OF this] assms(2) show ?thesis by simp
next
  case None
  then have np: "\<not> (ik_tenantId r = tenant_of c \<and> ik_command r = reference_command \<and> ik_key r = ref)"
    if "r \<in> set (idempotency d)" for r using that by (auto simp: reference_owner_def find_None_iff)
  then have "row_by row_key (command_key c reference_command ref) (idempotency d) = None"
    by (force simp: row_by_None_iff row_key_def command_key_def)
  with None assms(1) show ?thesis
    by (auto simp: claimReference_def Let_def reference_owner_def find_snoc split: option.splits)
qed

text \<open>Both payments keep the table of requests but for what they store in it.\<close>

lemma applyPartial_idempotency:
  "applyPartialBillPayment b n a now d = Inr (u, full, rest, d1) \<Longrightarrow> idempotency d1 = idempotency d"
  by (auto simp: applyPartialBillPayment_def Let_def split: if_splits option.splits)

lemma payCashTx_requests:
  assumes "payCashTx e c k body b cn n a t d = Inr (r, d')"
  shows "\<exists>d0 i. idempotency d0 = idempotency d \<and> idempotency d' = idempotency (storeIdempotent (env_hash e) i k body r d0)"
proof -
  from assms obtain u full rest d1 seat d3 where
    ap: "applyPartialBillPayment b n a (env_now e) d = Inr (u, full, rest, d1)"
    and st: "settleSeating b c (env_now e) full cn
       (d1\<lparr>payments := payments d1 @ [cash_row c b a t (env_now e) (next_id d1)], next_id := next_id d1 + 1\<rparr>) = Inr (seat, d3)"
    and id: "idempotency d' = idempotency (storeIdempotent (env_hash e) (next_id d1) k body r d3)"
    by (auto simp: payCashTx_def Let_def inversion)
  have "idempotency d3 = idempotency d" using settleSeating_frame(4) [OF st] applyPartial_idempotency [OF ap] by simp
  with id show ?thesis by blast
qed

lemma payTransferTx_requests:
  assumes "payTransferTx e c k body b t a vf d = Inr (r, d')"
  shows "\<exists>d0 i. idempotency d0 = idempotency d \<and> idempotency d' = idempotency (claimReference e c b i a (vf_reference vf)
       (storeIdempotent (env_hash e) i k body r d0))"
proof -
  from assms obtain u full rest d1 seat d3 where
    ap: "applyPartialBillPayment b (tf_expectedBillVersion t) a (env_now e) d = Inr (u, full, rest, d1)"
    and st: "settleSeating b c (env_now e) full False
       (d1\<lparr>payments := payments d1 @ [transfer_row c b (tf_channel t) a (vf_at vf) (env_now e) (next_id d1)],
          next_id := next_id d1 + 1, receipts := receipts d1 @ [\<lparr>tr_paymentId = next_id d1,
            tr_fileId = tf_fileId t, tr_capturedBy = staff_of c, tr_capturedAt = env_now e\<rparr>]\<rparr>) = Inr (seat, d3)"
    and id: "idempotency d' = idempotency (claimReference e c b (next_id d1) a (vf_reference vf)
        (storeIdempotent (env_hash e) (next_id d1) k body r d3))"
    by (auto simp: payTransferTx_def Let_def inversion)
  have "idempotency d3 = idempotency d" using settleSeating_frame(4) [OF st] applyPartial_idempotency [OF ap] by simp
  with id show ?thesis by blast
qed

lemma withdraw_idempotency: "cancelBillRequest e c rid d = Inr (r, d') \<Longrightarrow> idempotency d' = idempotency d"
  by (auto simp: cancelBillRequest_def Let_def inversion split: option.splits if_splits)

lemma billing_step_owner:
  assumes step: "billing_step d d'" and own: "reference_owner t ref d = Some i"
  shows "reference_owner t ref d' = Some i"
proof -
  have via: ?thesis if "idempotency d' = idempotency (storeIdempotent h j k b x d0)" "idempotency d0 = idempotency d"
    for h j k b x d0
    using owner_kept_store [of t ref d0 i h j k b x] own owner_cong [OF that(2)] owner_cong [OF that(1)] by simp
  have claim: ?thesis if "idempotency d' = idempotency (claimReference e c b j a ref' (storeIdempotent h j' k b' x d0))"
      "idempotency d0 = idempotency d" for e c b j a ref' h j' k b' x d0
    using owner_kept_claim [OF owner_kept_store [of t ref d0 i h j' k b' x], of e c b j a ref'] own
      owner_cong [OF that(2)] owner_cong [OF that(1)] by simp
  from step show ?thesis
  proof (cases rule: billing_step.cases)
    case (request e c sid n key r)
    then show ?thesis using own via
      by (auto simp: requestBill_def requestBillBody_def Let_def inversion split: option.splits
          dest!: guarded_fresh requestTx_idem)
  next
    case (request_room e c sid n key r)
    then show ?thesis using own via
      by (auto simp: requestBillForRoom_def requestRoomBody_def Let_def inversion split: option.splits
          dest!: guarded_fresh requestTx_idem)
  next
    case (withdraw e c rid r)
    then show ?thesis using own owner_cong [OF withdraw_idempotency] by simp
  next
    case (generate e c rid et er key r)
    then consider "d' = d" | k where "generateBody e c k rid et er d = Inr (r, d')"
      by (auto simp: generateBill_def Let_def inversion split: if_splits dest!: guarded_fresh)
    then show ?thesis
    proof cases
      case 2
      then obtain q v vip where
        tx: "generateTx e c k (Req_GenerateBill rid et er) q v (chargeable_items (sv_seat v) d) vip d = Inr (r, d')"
        by (auto simp: generateBody_eq_Inr Let_def)
      from generateTx_success [OF tx] via show ?thesis by blast
    qed (use own in simp)
  next
    case (counter e c items key r)
    then consider "d' = d" | k where "counterBody e c k items d = Inr (r, d')"
      by (auto simp: createCounterSale_def Let_def inversion split: if_splits dest!: guarded_fresh)
    then show ?thesis
    proof cases
      case 2
      then obtain tb ls where "counterTx e c k (Req_CounterSale items) tb ls d = Inr (r, d')"
        by (auto simp: counterBody_def Let_def split: option.splits if_splits)
      from counterTx_idem [OF this] via show ?thesis by blast
    qed (use own in simp)
  next
    case (cash e c bid amount tendered n key r)
    then show ?thesis
    proof (rule payCash_cases)
      fix k
      assume "payCashBody e c k bid amount tendered n d = Inr (r, d')"
      then obtain b a te where "payCashTx e c k (Req_PayCash bid amount tendered n) b (isCounter b d) n a te d = Inr (r, d')"
        by (auto simp: payCashBody_def)
      from payCashTx_requests [OF this] via show ?thesis by blast
    qed (use own in simp)
  next
    case (transfer e c bid tf key r)
    then show ?thesis
    proof (rule payTransfer_cases)
      fix k
      assume "payTransferBody e c k bid tf d = Inr (r, d')"
      then obtain b a vf where "payTransferTx e c k (Req_PayTransfer bid tf) b tf a vf d = Inr (r, d')"
        by (auto simp: payTransferBody_def)
      from payTransferTx_requests [OF this] claim show ?thesis by blast
    qed (use own in simp)
  qed
qed

lemma billing_run_owner: "billing_step\<^sup>*\<^sup>* d d' \<Longrightarrow> reference_owner t ref d = Some i \<Longrightarrow> reference_owner t ref d' = Some i"
  by (induction rule: rtranclp_induct) (auto intro: billing_step_owner)

section \<open>Properties\<close>

text \<open>
  C1: along every run of the billing commands (requests, withdrawals, generated bills,
  counter sales, cash and transfer payments in any order, by anybody, with any replays), the
  amount paid of a bill is the sum of its settled payments and never exceeds its total; a
  bill that is PAID is paid exactly, and a bill that waits for payment is not.
\<close>

theorem bills_and_payments_agree:
  assumes "billing_reachable d" and "b \<in> set (bills d)"
  shows "bl_amountPaid b = paid_of (bl_id b) d \<and> paid_of (bl_id b) d \<le> bl_total b \<and>
     (bl_status b = B_PAID \<longrightarrow> paid_of (bl_id b) d = bl_total b) \<and>
     (bl_status b = B_PAYMENT_PENDING \<longrightarrow> paid_of (bl_id b) d < bl_total b)"
  using billing_reachable_inv [OF assms(1)] assms(2)
  by (auto simp: billing_inv_def list_all_iff bill_ok_def)

lemma billed_inv: "billing_inv billed_db"
  by code_simp

theorem bills_and_payments_agree_witness:
  "\<exists>d b. billing_reachable d \<and> b \<in> set (bills d) \<and> bl_status b = B_PAYMENT_PENDING \<and>
     paid_of (bl_id b) d < bl_total b"
proof -
  let ?g = "generateBill evening cashier 50 (Some 3) None (Some ''k1'') requested_db"
  have "case ?g of Inl _ \<Rightarrow> False | Inr (r, d1) \<Rightarrow>
     (case payCash evening waiter 1000 ''100'' ''200'' 1 (Some ''k2'') d1 of Inl _ \<Rightarrow> False
      | Inr (r, d2) \<Rightarrow> map bl_status (bills d2) = [B_PAYMENT_PENDING])"
    by code_simp
  from run_results [OF this] obtain r d1 r2 d2 where g: "?g = Inr (r, d1)"
    and p: "payCash evening waiter 1000 ''100'' ''200'' 1 (Some ''k2'') d1 = Inr (r2, d2)"
    and st: "map bl_status (bills d2) = [B_PAYMENT_PENDING]" by auto
  have "billing_reachable requested_db" by (rule billing_reachable.start; code_simp)
  then have "billing_reachable d2" using g p billing_step.intros billing_reachable.step by metis
  moreover from st obtain b where "bills d2 = [b]" "bl_status b = B_PAYMENT_PENDING" by auto
  ultimately show ?thesis using bills_and_payments_agree [of d2 b] by auto
qed

lemma payCash_fresh:
  assumes "payCash e c bid at' tt n key d = Inr (r, d')" and "payments d' \<noteq> payments d"
  obtains k where "payCashBody e c k bid at' tt n d = Inr (r, d')" and "requireCollectorOnShift e c = Inr c"
  using assms by (elim payCash_cases) auto

lemma settles_effect:
  assumes inv: "billing_inv d" and s: "settles b n p d d'"
  shows "\<exists>b'. row_by bl_id (bl_id b) (bills d) = Some b \<and> row_by bl_id (bl_id b) (bills d') = Some b' \<and>
     bl_amountPaid b' = bl_amountPaid b + py_amount p \<and> bl_amountPaid b' \<le> bl_total b' \<and>
     bl_total b' = bl_total b \<and> bl_version b = n \<and> bl_version b' = n + 1 \<and>
     (bl_status b' = B_PAID \<longleftrightarrow> bl_amountPaid b' = bl_total b') \<and>
     (\<forall>j. j \<noteq> bl_id b \<longrightarrow> row_by bl_id j (bills d') = row_by bl_id j (bills d))"
proof -
  from s obtain now where b: "b \<in> set (bills d)" "bl_version b = n"
    and a: "0 < py_amount p" "py_amount p \<le> bl_total b - bl_amountPaid b"
    and cents: "cents (py_amount p)"
    and bs: "bills d' = update_id bl_id (bl_id b) (settled (py_amount p) now) (bills d)"
    by (auto simp: settles_def)
  have row: "row_by bl_id (bl_id b) (bills d) = Some b"
    using row_by_distinct [OF billing_inv_ids [OF inv] b(1)] .
  have "cents (bl_amountPaid b)" using inv b by (auto simp: billing_inv_def bill_ok_def list_all_iff)
  with settled_paid [OF this cents a(2), of now] settled_status [OF this cents, of now] a b row
  show ?thesis
    by (intro exI [of _ "settled (py_amount p) now b"]) (auto simp: bs row_by_update_id split: if_splits)
qed

text \<open>
  C15: an accepted cash payment records exactly one payment of the amount sent (rounded to
  cents, positive), raises the paid amount of that bill by it and of no other bill, keeps it
  within the total, marks the bill PAID exactly when nothing is left, moves the bill one
  version on from the version the collector saw, and gives back the tendered cash beyond the
  amount. The day was not locked, and the collector is a member of staff on shift, who may collect
  payments or read the queue of bills, and the payment is booked on that member and that shift.
\<close>

theorem payCash_settles_the_bill:
  assumes inv: "billing_inv d" and run: "payCash e c bid amount tendered n key d = Inr (res, d')"
    and new: "payments d' \<noteq> payments d"
  shows "\<exists>b b' p. row_by bl_id bid (bills d) = Some b \<and> row_by bl_id bid (bills d') = Some b' \<and>
     payments d' = payments d @ [p] \<and> py_amount p = dp2 (env_decimal e amount) \<and> 0 < py_amount p \<and>
     bl_amountPaid b' = bl_amountPaid b + py_amount p \<and> bl_amountPaid b' \<le> bl_total b \<and>
     (bl_status b' = B_PAID \<longleftrightarrow> bl_amountPaid b' = bl_total b) \<and>
     bl_version b = n \<and> bl_version b' = n + 1 \<and>
     py_cashChange p = Some (dp2 (env_decimal e tendered) - py_amount p) \<and>
     py_amount p \<le> dp2 (env_decimal e tendered) \<and>
     ax_staffMembershipId c = Some (py_collector p) \<and> ax_shiftSessionId c = Some (py_collectorShift p) \<and>
     (can e c Act_collect Sub_Payment \<or> can e c Act_read Sub_BillQueue) \<and>
     \<not> day_locked (branch_of c) (bl_businessDate b) d \<and>
     (\<forall>j. j \<noteq> bid \<longrightarrow> row_by bl_id j (bills d') = row_by bl_id j (bills d))"
proof -
  from run new obtain k where body: "payCashBody e c k bid amount tendered n d = Inr (res, d')"
    and "requireCollectorOnShift e c = Inr c" by (rule payCash_fresh)
  then have shift: "ax_staffMembershipId c = Some (staff_of c)" "ax_shiftSessionId c = Some (shift_of c)"
    "can e c Act_collect Sub_Payment \<or> can e c Act_read Sub_BillQueue"
    by (auto simp: inversion)
  from payCashBody_settles [OF body billing_inv_ids [OF inv]] obtain b a t where
    chk: "payCashCheck e c bid amount tendered d = Inr (b, a, t)"
    and s: "settles b n (cash_row c b a t (env_now e) (next_id d)) d d'" by blast
  have id: "bl_id b = bid" using payCashBody_id [OF chk] .
  have amounts: "a = dp2 (env_decimal e amount)" "t = dp2 (env_decimal e tendered)"
    using chk by (auto simp: payCashCheck_def Let_def inversion split: if_splits)
  note ck = payCashCheck_success [OF chk]
  have p: "py_amount (cash_row c b a t now i) = a" "py_cashChange (cash_row c b a t now i) = Some (t - a)"
    "py_collectorShift (cash_row c b a t now i) = shift_of c" for now i
    by (simp_all add: cash_row_def)
  from s have pay: "payments d' = payments d @ [cash_row c b a t (env_now e) (next_id d)]"
    by (simp add: settles_def)
  from settles_effect [OF inv s] obtain b' where
    b': "row_by bl_id bid (bills d) = Some b" "row_by bl_id bid (bills d') = Some b'"
    "bl_amountPaid b' = bl_amountPaid b + a" "bl_amountPaid b' \<le> bl_total b'" "bl_total b' = bl_total b"
    "bl_version b = n" "bl_version b' = n + 1" "bl_status b' = B_PAID \<longleftrightarrow> bl_amountPaid b' = bl_total b'"
    "\<forall>j. j \<noteq> bid \<longrightarrow> row_by bl_id j (bills d') = row_by bl_id j (bills d)"
    unfolding id p by blast
  show ?thesis
    by (rule exI [of _ b], rule exI [of _ b'], rule exI [of _ "cash_row c b a t (env_now e) (next_id d)"])
      (use b' ck amounts pay shift in \<open>simp add: cash_row_def\<close>)
qed

theorem payCash_settles_the_bill_witness:
  "\<exists>res d' b b'. payCash evening waiter 60 ''100.50'' ''200'' 1 (Some ''k2'') billed_db = Inr (res, d') \<and>
     row_by bl_id 60 (bills billed_db) = Some b \<and> row_by bl_id 60 (bills d') = Some b' \<and>
     bl_amountPaid b' = bl_amountPaid b + dp2 (env_decimal evening ''100.50'')"
proof -
  let ?m = "payCash evening waiter 60 ''100.50'' ''200'' 1 (Some ''k2'') billed_db"
  have "case ?m of Inl _ \<Rightarrow> False | Inr (res, d') \<Rightarrow> payments d' \<noteq> payments billed_db" by code_simp
  then obtain res d' where run: "?m = Inr (res, d')" and new: "payments d' \<noteq> payments billed_db"
    by (blast dest: run_result)
  from payCash_settles_the_bill [OF billed_inv run new] run show ?thesis by auto
qed

definition scan_60 :: transfer_dto where
  "scan_60 = \<lparr>tf_amount = ''225.00'', tf_expectedBillVersion = 1, tf_channel = ''BANK'', tf_fileId = 70,
     tf_reference = None, tf_bankProvider = Some ''cbe'', tf_accountSuffix = None, tf_phoneNumber = None\<rparr>"

lemma pay_fresh_op:
  assumes "(payCash e c bid a t n key d = Inr (r, d') \<or>
      payTransfer e c bid tf key d = Inr (r, d') \<and> tf_expectedBillVersion tf = n)" and "d' \<noteq> d"
  obtains x where "run_pay bid x n d = Inr (r, d')"
proof -
  have tf: "tf\<lparr>tf_expectedBillVersion := n\<rparr> = tf" if "tf_expectedBillVersion tf = n" using that by auto
  from assms(1) show thesis
  proof (elim disjE conjE)
    assume "payCash e c bid a t n key d = Inr (r, d')"
    with assms(2) obtain k where "payCashBody e c k bid a t n d = Inr (r, d')" by (elim payCash_cases) auto
    then show thesis using that [of "By_cash e c k a t"] by simp
  next
    assume "payTransfer e c bid tf key d = Inr (r, d')" and n: "tf_expectedBillVersion tf = n"
    with assms(2) obtain k where "payTransferBody e c k bid tf d = Inr (r, d')" by (elim payTransfer_cases) auto
    then show thesis using that [of "By_transfer e c k tf"] tf [OF n] by simp
  qed
qed

text \<open>
  C16: of all payments of a bill that name the same version at most one takes effect, whoever
  sends them, by whichever method and in whichever order: once a cash or a transfer payment was
  accepted, and after any billing commands that followed, a further cash or transfer payment of
  that bill with the same expected version is either refused or the replay of an earlier answer
  that changes nothing.
\<close>

theorem one_payment_per_version:
  assumes first: "payCash e c bid a t n key d = Inr (r, d') \<or>
      payTransfer e c bid tf key d = Inr (r, d') \<and> tf_expectedBillVersion tf = n"
    and new: "payments d' \<noteq> payments d" and later: "billing_step\<^sup>*\<^sup>* d' d''"
  shows "(payCash e' c' bid a' t' n key' d'' = Inr (r', d3) \<longrightarrow> d3 = d'') \<and>
     (payTransfer e' c' bid tf' key' d'' = Inr (r', d3) \<longrightarrow> tf_expectedBillVersion tf' = n \<longrightarrow> d3 = d'')"
proof -
  from new have "d' \<noteq> d" by auto
  from pay_fresh_op [OF first this] obtain x where "run_pay bid x n d = Inr (r, d')" .
  then have "bill_version bid d' = Some (n + 1)" using bill_lock.op_version by blast
  from bill_version_grows [OF later this] have "bill_version bid d'' \<noteq> Some n" by auto
  then have stale: "\<not> is_ok (run_pay bid y n d'')" for y by (rule bill_lock.stale)
  have "d3 = d''" if "payCash e' c' bid a' t' n key' d'' = Inr (r', d3) \<or>
      payTransfer e' c' bid tf' key' d'' = Inr (r', d3) \<and> tf_expectedBillVersion tf' = n"
  proof (rule ccontr)
    assume "d3 \<noteq> d''"
    with that obtain y where "run_pay bid y n d'' = Inr (r', d3)" by (rule pay_fresh_op)
    with stale [of y] show False by simp
  qed
  then show ?thesis by blast
qed

theorem one_payment_per_version_witness:
  "\<exists>r d' r2 d2. payTransfer evening waiter 60 (scan_60\<lparr>tf_amount := ''100.00''\<rparr>) (Some ''k2'') billed_db = Inr (r, d') \<and>
     payCash later waiter 60 ''50'' ''50'' 2 (Some ''k3'') d' = Inr (r2, d2) \<and>
     (\<forall>r' d3. payCash later waiter 60 ''50'' ''50'' 1 (Some ''k4'') d2 = Inr (r', d3) \<longrightarrow> d3 = d2)"
proof -
  let ?t = "scan_60\<lparr>tf_amount := ''100.00''\<rparr>"
  let ?m = "payTransfer evening waiter 60 ?t (Some ''k2'') billed_db"
  have "case ?m of Inl _ \<Rightarrow> False | Inr (r, d') \<Rightarrow>
      (case payCash later waiter 60 ''50'' ''50'' 2 (Some ''k3'') d' of Inl _ \<Rightarrow> False
       | Inr (r2, d2) \<Rightarrow> payments d' \<noteq> payments billed_db)" by code_simp
  from run_results [OF this] obtain r d' r2 d2 where run: "?m = Inr (r, d')"
    and then_cash: "payCash later waiter 60 ''50'' ''50'' 2 (Some ''k3'') d' = Inr (r2, d2)"
    and new: "payments d' \<noteq> payments billed_db" by auto
  have n: "tf_expectedBillVersion ?t = 1" by (simp add: scan_60_def)
  have "billing_step\<^sup>*\<^sup>* d' d2" using billing_step.cash [OF then_cash] by blast
  from one_payment_per_version [OF disjI2 [OF conjI [OF run n]] new this, where e' = later and c' = waiter
      and a' = "''50''" and t' = "''50''" and key' = "Some ''k4''"] run then_cash show ?thesis by blast
qed

lemma verifyTransfer_success:
  assumes "verifyTransfer e key b v t claimed = Inr vf" and "env_verifyEnabled e"
  shows "\<exists>q. vr_verified (env_verify e q) \<and> vq_fileId q = tf_fileId t \<and> vq_bank q = resolveVerifyBank t \<and>
     checkConfirmations (env_verify e q) = Inr () \<and>
     checkTransferTime (env_now e) (map_option sv_openedAt v) (vr_timestamp (env_verify e q)) = Inr () \<and>
     (\<exists>a. vr_amount (env_verify e q) = Some a \<and> claimed \<le> dp2 a \<and> vf_amount vf = Some (dp2 a) \<and>
        vf_tip vf = (if claimed < dp2 a then Some (dp2 a - claimed) else None))"
proof -
  let ?q = "\<lparr>vq_bank = resolveVerifyBank t, vq_reference = map_option trim (tf_reference t),
                 vq_accountSuffix = tf_accountSuffix t, vq_phoneNumber = tf_phoneNumber t,
                 vq_idempotencyKey = (bl_id b, key), vq_fileId = tf_fileId t\<rparr>"
  let ?v = "env_verify e ?q"
  from assms have 1: "vr_verified ?v" and 2: "checkConfirmations ?v = Inr ()"
    and 3: "checkTransferTime (env_now e) (map_option sv_openedAt v) (vr_timestamp ?v) = Inr ()"
    by (simp_all add: verifyTransfer_def Let_def)
  from assms obtain a where 4: "vr_amount ?v = Some a"
    by (cases "vr_amount ?v") (simp_all add: verifyTransfer_def Let_def)
  with assms have "claimed \<le> dp2 a" and "vf_amount vf = Some (dp2 a)"
    and "vf_tip vf = (if claimed < dp2 a then Some (dp2 a - claimed) else None)"
    by (simp_all add: verifyTransfer_def Let_def not_less money_cents scaled_round) (auto simp: money_cents scaled_round)
  with 1 2 3 4 show ?thesis by (intro exI [of _ ?q]) simp
qed

lemma checkTransferTime_window:
  assumes "checkTransferTime now op' (Some s) = Inr u"
  shows "now - max_age_ms \<le> s \<and> s \<le> now + clock_drift_ms \<and> (\<forall>t. op' = Some t \<longrightarrow> t - session_slack_ms \<le> s)"
  using assms by (auto simp: checkTransferTime_def split: if_splits option.splits)

lemma payTransfer_fresh:
  assumes "payTransfer e c bid t key d = Inr (r, d')" and "payments d' \<noteq> payments d"
  obtains k where "payTransferBody e c k bid t d = Inr (r, d')" and "requireCollectorOnShift e c = Inr c"
  using assms by (elim payTransfer_cases) auto

text \<open>
  C7: a transfer that is accepted while verification is on was confirmed by the bank for the
  receipt it names, for at least the amount settled, and neither said to have been confirmed before
  nor said not to be the first confirmation; if the bank says when it was made, it was made
  neither more than two hours ago nor ten minutes in the future nor half an hour before the visit
  began. Exactly the claimed amount is settled on the bill, however much the guest transferred; the
  answer names what the bank confirmed and the surplus, if there is any, as the tip.
\<close>

theorem payTransfer_is_covered_by_the_bank:
  assumes inv: "billing_inv d" and run: "payTransfer e c bid t key d = Inr (res, d')"
    and new: "payments d' \<noteq> payments d" and on: "env_verifyEnabled e"
  shows "\<exists>b b' p q a. row_by bl_id bid (bills d) = Some b \<and> row_by bl_id bid (bills d') = Some b' \<and>
     payments d' = payments d @ [p] \<and> py_amount p = dp2 (env_decimal e (tf_amount t)) \<and>
     bl_amountPaid b' = bl_amountPaid b + py_amount p \<and> bl_amountPaid b' \<le> bl_total b \<and>
     vr_verified (env_verify e q) \<and> vq_fileId q = tf_fileId t \<and>
     vr_confirmedBefore (env_verify e q) \<noteq> Some True \<and> vr_isFirstConfirmation (env_verify e q) \<noteq> Some False \<and>
     vr_amount (env_verify e q) = Some a \<and> py_amount p \<le> dp2 a \<and>
     (\<forall>s. vr_timestamp (env_verify e q) = Some s \<longrightarrow>
        env_now e - max_age_ms \<le> s \<and> s \<le> env_now e + clock_drift_ms \<and>
        (\<forall>v. bill_seating b d = Some v \<longrightarrow> sv_openedAt v - session_slack_ms \<le> s)) \<and>
     (\<exists>x. res = Res_Payment x \<and> pr_verifiedAmount x = Some (dp2 a) \<and>
        pr_tip x = (if py_amount p < dp2 a then Some (dp2 a - py_amount p) else None))"
proof -
  from run new obtain k where body: "payTransferBody e c k bid t d = Inr (res, d')"
    by (rule payTransfer_fresh)
  from payTransferBody_settles [OF body billing_inv_ids [OF inv]] obtain b am vf where
    chk: "payTransferCheck e c (ck_key k) bid t d = Inr (b, am, vf)"
    and s: "settles b (tf_expectedBillVersion t)
      (transfer_row c b (tf_channel t) am (vf_at vf) (env_now e) (next_id d)) d d'" by blast
  have id: "bl_id b = bid" using payTransferBody_id [OF chk] .
  have am: "am = dp2 (env_decimal e (tf_amount t))"
    using chk by (auto simp: payTransferCheck_def transferGuards_def Let_def inversion split: if_splits)
  from verifyTransfer_success [OF payTransferCheck_success(7) [OF chk] on] obtain q a where
    q: "vr_verified (env_verify e q)" "vq_fileId q = tf_fileId t" "checkConfirmations (env_verify e q) = Inr ()"
      "vr_amount (env_verify e q) = Some a" "am \<le> dp2 a"
    and paid: "vf_amount vf = Some (dp2 a)" "vf_tip vf = (if am < dp2 a then Some (dp2 a - am) else None)"
    and time: "checkTransferTime (env_now e) (map_option sv_openedAt (bill_seating b d)) (vr_timestamp (env_verify e q)) = Inr ()"
    by blast
  have conf: "vr_confirmedBefore (env_verify e q) \<noteq> Some True"
    using q(3) by (auto simp: checkConfirmations_def split: if_splits)
  have first: "vr_isFirstConfirmation (env_verify e q) \<noteq> Some False"
    using q(3) by (auto simp: checkConfirmations_def split: if_splits)
  have win: "env_now e - max_age_ms \<le> s \<and> s \<le> env_now e + clock_drift_ms \<and>
        (\<forall>v. bill_seating b d = Some v \<longrightarrow> sv_openedAt v - session_slack_ms \<le> s)"
    if "vr_timestamp (env_verify e q) = Some s" for s
    using checkTransferTime_window time unfolding that by fastforce
  have "cents (dp2 a - am)" by (simp add: am scaled_diff scaled_round)
  then have tip: "\<exists>x. res = Res_Payment x \<and> pr_verifiedAmount x = Some (dp2 a) \<and>
        pr_tip x = (if am < dp2 a then Some (dp2 a - am) else None)"
    using body chk paid by (auto simp: payTransferBody_def payTransferTx_def Let_def inversion money_cents)
  from s have pay: "payments d' = payments d @ [transfer_row c b (tf_channel t) am (vf_at vf) (env_now e) (next_id d)]"
    by (simp add: settles_def)
  from settles_effect [OF inv s] obtain b' where
    b': "row_by bl_id bid (bills d) = Some b" "row_by bl_id bid (bills d') = Some b'"
    "bl_amountPaid b' = bl_amountPaid b + am" "bl_amountPaid b' \<le> bl_total b"
    unfolding id by (auto simp: transfer_row_def)
  let ?p = "transfer_row c b (tf_channel t) am (vf_at vf) (env_now e) (next_id d)"
  have amount: "py_amount ?p = am" by (simp add: transfer_row_def)
  show ?thesis
    by (rule exI [of _ b], rule exI [of _ b'], rule exI [of _ ?p], rule exI [of _ q], rule exI [of _ a],
        unfold amount, intro conjI) (rule b' pay q am conf first tip | use win in blast)+
qed

theorem payTransfer_is_covered_by_the_bank_witness:
  "\<exists>res d' b b' q a. payTransfer evening waiter 60 scan_60 (Some ''k2'') billed_db = Inr (res, d') \<and>
     row_by bl_id 60 (bills billed_db) = Some b \<and> row_by bl_id 60 (bills d') = Some b' \<and>
     vr_amount (env_verify evening q) = Some a \<and> bl_amountPaid b' \<le> bl_total b"
proof -
  let ?m = "payTransfer evening waiter 60 scan_60 (Some ''k2'') billed_db"
  have "case ?m of Inl _ \<Rightarrow> False | Inr (res, d') \<Rightarrow> payments d' \<noteq> payments billed_db" by code_simp
  then obtain res d' where run: "?m = Inr (res, d')" and new: "payments d' \<noteq> payments billed_db"
    by (blast dest: run_result)
  have "env_verifyEnabled evening" by code_simp
  from payTransfer_is_covered_by_the_bank [OF billed_inv run new this] run show ?thesis by auto
qed

text \<open>An accepted transfer has claimed the reference the bank gave.\<close>

lemma payTransferBody_claims:
  assumes body: "payTransferBody e c k bid t d = Inr (r, d')" and k: "ck_command k \<noteq> reference_command"
    and grd: "transferGuards e c (ck_key k) bid t d = Inr (b, a, vf)" and ref: "vf_reference vf \<noteq> []"
  shows "reference_owner (tenant_of c) (vf_reference vf) d' = Some bid"
proof -
  from body grd have chk: "payTransferCheck e c (ck_key k) bid t d = Inr (b, a, vf)"
    and tx: "payTransferTx e c k (Req_PayTransfer bid t) b t a vf d = Inr (r, d')"
    by (auto simp: payTransferBody_def payTransferCheck_def)
  from payTransferTx_requests [OF tx] obtain d0 i where same: "idempotency d0 = idempotency d"
    and id: "idempotency d' = idempotency (claimReference e c b i a (vf_reference vf)
       (storeIdempotent (env_hash e) i k (Req_PayTransfer bid t) r d0))" by blast
  have "reference_owner (tenant_of c) (vf_reference vf) (storeIdempotent (env_hash e) i k (Req_PayTransfer bid t) r d0)
      \<in> {None, Some (bl_id b)}"
    using payTransferCheck_success(8) [OF chk] ref
    by (simp add: owner_store [OF k] owner_cong [OF same] checkReferenceUse_owner split: if_splits)
  from claimed_owner [OF ref this] show ?thesis by (simp add: owner_cong [OF id] payTransferBody_id [OF chk])
qed

text \<open>
  C17: once a transfer has settled (part of) a bill, its bank reference cannot settle another
  bill of the same restaurant, at any later time: after any billing commands, whoever presents a
  receipt that the bank resolves to the same reference for another bill changes nothing, and if
  everything that is checked before (the bill, the collector, the day, the amount and the bank's
  answer) is in order and the request is not the repetition of an answered one, the answer is
  the error TRANSFER_ALREADY_USED.
\<close>

theorem bank_reference_settles_one_bill:
  assumes run: "payTransfer e c bid t key d = Inr (r, d')" and new: "payments d' \<noteq> payments d"
    and key: "requireIdempotencyKey key = Inr s" and grd: "transferGuards e c s bid t d = Inr (b, a, vf)"
    and ref: "vf_reference vf \<noteq> []" and later: "billing_step\<^sup>*\<^sup>* d' d''"
    and other: "bid' \<noteq> bid" and tenant: "tenant_of c' = tenant_of c" and key': "requireIdempotencyKey key' = Inr s'"
    and same: "\<And>b' a' vf'. transferGuards e' c' s' bid' t' d'' = Inr (b', a', vf') \<Longrightarrow> vf_reference vf' = vf_reference vf"
  shows "(payTransfer e' c' bid' t' key' d'' = Inr (r', d3) \<longrightarrow> d3 = d'') \<and>
     (requireCollectorOnShift e' c' = Inr c' \<and> is_ok (transferGuards e' c' s' bid' t' d'') \<and>
      findIdempotent (env_hash e') (command_key c' ''payment.transfer'' s') (Req_PayTransfer bid' t') d'' = Inr None \<longrightarrow>
        payTransfer e' c' bid' t' key' d'' = Inl (Conflict ''TRANSFER_ALREADY_USED''))"
proof -
  let ?k = "command_key c ''payment.transfer'' s" and ?k' = "command_key c' ''payment.transfer'' s'"
  have k: "ck_command ?k \<noteq> reference_command" and ck: "ck_key ?k = s" "ck_key ?k' = s'"
    by (simp_all add: command_key_def reference_command_def)
  have "payTransferBody e c ?k bid t d = Inr (r, d')"
    using run new key by (auto simp: payTransfer_def Let_def inversion dest!: guarded_fresh)
  from payTransferBody_claims [OF this k _ ref, of b a] grd ck(1)
  have "reference_owner (tenant_of c) (vf_reference vf) d' = Some bid" by simp
  from billing_run_owner [OF later this]
  have owner: "reference_owner (tenant_of c') (vf_reference vf) d'' = Some bid" by (simp only: tenant)
  have refused: "payTransferBody e' c' ?k' bid' t' d'' = Inl (Conflict ''TRANSFER_ALREADY_USED'')"
    if g: "transferGuards e' c' s' bid' t' d'' = Inr (b', a', vf')" for b' a' vf'
  proof -
    have "bl_id b' = bid'"
      using g by (auto simp: transferGuards_def loadPayableBill_def Let_def inversion split: if_splits option.splits
          dest!: find_Some_in)
    with g owner same [OF g] ref other show ?thesis
      by (simp add: payTransferBody_def payTransferCheck_def checkReferenceUse_owner ck(2))
  qed
  have no: "\<not> is_ok (payTransferBody e' c' ?k' bid' t' d'')"
  proof (cases "transferGuards e' c' s' bid' t' d''")
    case (Inr p)
    then show ?thesis using refused by (cases p) simp
  qed (simp add: payTransferBody_def payTransferCheck_def ck(2))
  have "d3 = d''" if "payTransfer e' c' bid' t' key' d'' = Inr (r', d3)"
    using that no key' by (auto simp: payTransfer_def Let_def inversion is_ok_iff dest!: guarded_fresh)
  moreover have "payTransfer e' c' bid' t' key' d'' = Inl (Conflict ''TRANSFER_ALREADY_USED'')"
    if "requireCollectorOnShift e' c' = Inr c'" "is_ok (transferGuards e' c' s' bid' t' d'')"
      "findIdempotent (env_hash e') ?k' (Req_PayTransfer bid' t') d'' = Inr None"
    using that refused key' by (auto simp: payTransfer_def guarded_command_def Let_def is_ok_iff)
  ultimately show ?thesis by blast
qed

text \<open>
  C39: nobody pays a bill of a locked business day, in cash or by transfer: the command is
  refused and nothing changes (or it is the replay of a payment made before the day closed).
\<close>

theorem locked_day_takes_no_payment:
  assumes b: "row_by bl_id bid (bills d) = Some b" and ids: "distinct (map bl_id (bills d))"
    and lock: "day_locked (branch_of c) (bl_businessDate b) d"
  shows "(payCash e c bid a t n key d = Inr (r, d') \<longrightarrow> d' = d) \<and>
     (payTransfer e c bid tf key d = Inr (r, d') \<longrightarrow> d' = d)"
proof -
  have same: "b' = b" if "find (\<lambda>b. bl_id b = bid \<and> bl_branchId b = br) (bills d) = Some b'" for b' br
    using find_row_by [OF that ids] b by simp
  have "\<not> is_ok (payCashBody e c k bid a t n d)" for k
  proof
    assume "is_ok (payCashBody e c k bid a t n d)"
    then obtain b' am te where "payCashCheck e c bid a t d = Inr (b', am, te)"
      by (auto simp: is_ok_iff payCashBody_def)
    from payCashCheck_success(1,8) [OF this] same lock show False by blast
  qed
  moreover have "\<not> is_ok (payTransferBody e c k bid tf d)" for k
  proof
    assume "is_ok (payTransferBody e c k bid tf d)"
    then obtain b' am vf where "payTransferCheck e c (ck_key k) bid tf d = Inr (b', am, vf)"
      by (auto simp: is_ok_iff payTransferBody_def)
    from payTransferCheck_success(1,6) [OF this] same lock show False by blast
  qed
  ultimately show ?thesis by (auto simp: is_ok_iff elim!: payCash_cases payTransfer_cases)
qed

theorem locked_day_takes_no_payment_witness:
  "let d = billed_db\<lparr>daily_closes := [locked_close]\<rparr>
   in \<forall>r d'. payCash evening waiter 60 ''100'' ''100'' 1 (Some ''k'') d = Inr (r, d') \<longrightarrow> d' = d"
proof -
  let ?d = "billed_db\<lparr>daily_closes := [locked_close]\<rparr>"
  have b: "row_by bl_id 60 (bills ?d) = Some bill_60" by code_simp
  have ids: "distinct (map bl_id (bills ?d))" by code_simp
  have lock: "day_locked (branch_of waiter) (bl_businessDate bill_60) ?d" by code_simp
  from locked_day_takes_no_payment [OF b ids lock] show ?thesis by (simp add: Let_def)
qed

text \<open>
  Full payment frees the seating: when a cash payment leaves nothing due, the session
  of the bill becomes PAID (a counter session CLOSED at once) one version on; when something
  is left due, the session is untouched.
\<close>

theorem full_payment_frees_the_seating:
  assumes run: "payCashTx e c k body b counter n a t d = Inr (res, d')"
    and row: "row_by bl_id (bl_id b) (bills d) = Some b" and ids: "distinct (map bl_id (bills d))"
    and seat: "bill_seating b d = Some v"
  shows "seat_of (sv_seat v) d' =
     (if bl_total b \<le> dp2 (bl_amountPaid b + a)
      then Some (v\<lparr>sv_status := (if counter \<and> sv_kind v \<noteq> None then S_CLOSED else S_PAID),
                   sv_version := sv_version v + 1\<rparr>)
      else Some v)"
proof -
  from run obtain u full rest d1 d3 s x where
    ap: "applyPartialBillPayment b n a (env_now e) d = Inr (u, full, rest, d1)"
    and st: "settleSeating b c (env_now e) full counter
       (d1\<lparr>payments := payments d1 @ [cash_row c b a t (env_now e) (next_id d1)], next_id := next_id d1 + 1\<rparr>) = Inr (s, d3)"
    and d': "d' = emit (Notify_cashiers (request_notice ''payment.settled'' (next_id d1)))
       (storeIdempotent (env_hash e) (next_id d1) k body x d3)"
    by (auto simp: payCashTx_def Let_def inversion)
  note p = applyPartial_success [OF ap row ids]
  let ?d2 = "d1\<lparr>payments := payments d1 @ [cash_row c b a t (env_now e) (next_id d1)], next_id := next_id d1 + 1\<rparr>"
  have d3: "seat_of z d' = seat_of z d3" for z
    unfolding d' by (rule seat_of_cong) simp_all
  have d2: "seat_of z ?d2 = seat_of z d" for z
    by (rule seat_of_cong) (simp_all add: p(4))
  have ref: "seat_ref (bl_tableSessionId b) (bl_roomSessionId b) = Some (sv_seat v)"
    and v: "seat_of (sv_seat v) d = Some v"
    using seat by (auto simp: bill_seating_def seating_of_eq_Some dest: seat_of_SomeD)
  show ?thesis
  proof (cases full)
    case False
    with st have "d3 = ?d2" by (auto simp: settleSeating_def)
    with False p(5) d3 d2 v show ?thesis by simp
  next
    case True
    with p(5) have le: "bl_total b \<le> dp2 (bl_amountPaid b + a)" by simp
    show ?thesis
    proof (cases "sv_seat v")
      case (At_table i)
      with ref have "bl_tableSessionId b = Some i" by (auto simp: seat_ref_def split: option.splits)
      with True st have "d3 = bump_table i (\<lambda>s. if counter
               then s\<lparr>ts_status := S_CLOSED, ts_closedAt := Some (env_now e), ts_closedBy := ax_staffMembershipId c\<rparr>
               else s\<lparr>ts_status := S_PAID\<rparr>) ?d2"
        by (auto simp: settleSeating_def markSeatingPaid_def Let_def)
      with d3 d2 [of "At_table i"] v At_table le show ?thesis
        by (auto simp: bump_table_def row_by_update_id view_table_def)
    next
      case (At_room i)
      with ref have "bl_tableSessionId b = None" "bl_roomSessionId b = Some i"
        by (auto simp: seat_ref_def split: option.splits)
      with True st have "d3 = bump_room i (\<lambda>s. s\<lparr>rs_status := S_PAID\<rparr>) ?d2"
        by (auto simp: settleSeating_def markSeatingPaid_def Let_def)
      with d3 d2 [of "At_room i"] v At_room le show ?thesis
        by (auto simp: bump_room_def row_by_update_id view_room_def)
    qed
  qed
qed

theorem full_payment_frees_the_seating_witness:
  "\<exists>res d' v. payCashTx evening waiter (command_key waiter ''payment.cash'' ''k2'')
       (Req_PayCash 60 ''225'' ''300'' 1) bill_60 False 1 225 300 billed_db = Inr (res, d') \<and>
     bill_seating bill_60 billed_db = Some v \<and>
     seat_of (At_table 40) d' = Some (v\<lparr>sv_status := S_PAID, sv_version := sv_version v + 1\<rparr>)"
proof -
  let ?m = "payCashTx evening waiter (command_key waiter ''payment.cash'' ''k2'')
       (Req_PayCash 60 ''225'' ''300'' 1) bill_60 False 1 225 300 billed_db"
  have "case ?m of Inl _ \<Rightarrow> False | Inr (res, d') \<Rightarrow> True" by code_simp
  then obtain res d' where run: "?m = Inr (res, d')" by (blast dest: run_result)
  have row: "row_by bl_id (bl_id bill_60) (bills billed_db) = Some bill_60" by code_simp
  have ids: "distinct (map bl_id (bills billed_db))" by code_simp
  have "map_option sv_seat (bill_seating bill_60 billed_db) = Some (At_table 40)" by code_simp
  then obtain v where v: "bill_seating bill_60 billed_db = Some v" and sv: "sv_seat v = At_table 40" by auto
  have le: "bl_total bill_60 \<le> dp2 (bl_amountPaid bill_60 + 225)" by code_simp
  show ?thesis using full_payment_frees_the_seating [OF run row ids v] le run v sv by auto
qed

text \<open>Two tables wait for payment; the guest of the second shows the receipt of the first.\<close>

definition two_bills_db :: db where
  "two_bills_db = billed_db\<lparr>bills := [bill_60, bill_60\<lparr>bl_id := 61, bl_tableSessionId := Some 49,
       bl_billNumber := ''BOLE-19700101-0002'', bl_lines := []\<rparr>],
     table_sessions := table_sessions billed_db @
       [session_40\<lparr>ts_id := 49, ts_tableId := 29, ts_status := S_BILL_READY, ts_version := 4\<rparr>]\<rparr>"

theorem bank_reference_settles_one_bill_witness:
  "\<exists>r d' r2 d2. payTransfer evening waiter 60 (scan_60\<lparr>tf_amount := ''100.00''\<rparr>) (Some ''k2'') two_bills_db = Inr (r, d') \<and>
     payCash later waiter 60 ''50'' ''50'' 2 (Some ''k3'') d' = Inr (r2, d2) \<and>
     payTransfer later waiter 61 scan_60 (Some ''k4'') d2 = Inl (Conflict ''TRANSFER_ALREADY_USED'')"
proof -
  let ?t = "scan_60\<lparr>tf_amount := ''100.00''\<rparr>"
  let ?m = "payTransfer evening waiter 60 ?t (Some ''k2'') two_bills_db"
  have "case ?m of Inl _ \<Rightarrow> False | Inr (r, d') \<Rightarrow>
      (case payCash later waiter 60 ''50'' ''50'' 2 (Some ''k3'') d' of Inl _ \<Rightarrow> False
       | Inr (r2, d2) \<Rightarrow> payments d' \<noteq> payments two_bills_db \<and> is_ok (transferGuards later waiter ''k4'' 61 scan_60 d2) \<and>
           findIdempotent (env_hash later) (command_key waiter ''payment.transfer'' ''k4'') (Req_PayTransfer 61 scan_60) d2 = Inr None)"
    by code_simp
  from run_results [OF this] obtain r d' r2 d2 where run: "?m = Inr (r, d')"
    and cash: "payCash later waiter 60 ''50'' ''50'' 2 (Some ''k3'') d' = Inr (r2, d2)"
    and new: "payments d' \<noteq> payments two_bills_db" and ok: "is_ok (transferGuards later waiter ''k4'' 61 scan_60 d2)"
    and none: "findIdempotent (env_hash later) (command_key waiter ''payment.transfer'' ''k4'') (Req_PayTransfer 61 scan_60) d2 = Inr None"
    by auto
  have keys: "requireIdempotencyKey (Some ''k2'') = Inr ''k2''" "requireIdempotencyKey (Some ''k4'') = Inr ''k4''" by code_simp+
  have "case transferGuards evening waiter ''k2'' 60 ?t two_bills_db of Inl _ \<Rightarrow> False
      | Inr (b, p) \<Rightarrow> vf_reference (snd p) = ''FT100''" by code_simp
  then obtain b a vf where g: "transferGuards evening waiter ''k2'' 60 ?t two_bills_db = Inr (b, a, vf)"
    and ref: "vf_reference vf = ''FT100''" by (auto split: sum.splits)
  have up: "to_upper (trim ''ft100'') = ''FT100''" by code_simp
  have same: "vf_reference vf' = vf_reference vf" if "transferGuards later waiter ''k4'' 61 scan_60 d2 = Inr (b', a', vf')" for b' a' vf'
    using that up
    by (auto simp: transferGuards_def verifyTransfer_def Let_def later_def evening_def bank_reply_def ref split: if_splits)
  have ne: "vf_reference vf \<noteq> []" using ref by simp
  have other: "(61 :: id) \<noteq> 60" by simp
  have run2: "billing_step\<^sup>*\<^sup>* d' d2" using billing_step.cash [OF cash] by blast
  have shift: "requireCollectorOnShift later waiter = Inr waiter" by code_simp
  note one = bank_reference_settles_one_bill [where e' = later and t' = scan_60,
      OF run new keys(1) g ne run2 other refl keys(2) same]
  have "payTransfer later waiter 61 scan_60 (Some ''k4'') d2 = Inl (Conflict ''TRANSFER_ALREADY_USED'')"
    by (rule mp [OF conjunct2 [OF one] conjI [OF shift conjI [OF ok none]]])
  with run cash show ?thesis by (intro exI conjI)
qed

text \<open>
  The conditional update of \<open>applyPartialBillPayment\<close> compares the version the client sent,
  but the new amount is computed from the bill as it was read before the transaction. If
  another payment commits in between and the client already knows the newer version, the
  update goes through and the other payment's amount is overwritten.
\<close>

text \<open>
  The lost update this leaves open: two waiters' requests read a bill of 225 unpaid; the first pays
  100 (version 2 now), the second, which named version 2, then commits its 50: the bill shows
  50 paid, while the settled payments sum to 150.
\<close>

theorem stale_read_loses_a_payment:
  "\<exists>b r1 d1 r2 d2. payCashCheck evening waiter 60 ''50'' ''50'' billed_db = Inr (b, 50, 50) \<and>
     payCash evening waiter 60 ''100'' ''100'' 1 (Some ''k1'') billed_db = Inr (r1, d1) \<and>
     payCashTx evening waiter (command_key waiter ''payment.cash'' ''k2'')
       (Req_PayCash 60 ''50'' ''50'' 2) b (isCounter b billed_db) 2 50 50 d1 = Inr (r2, d2) \<and>
     map_option bl_amountPaid (row_by bl_id 60 (bills d2)) = Some 50 \<and> paid_of 60 d2 = 150"
proof -
  have "payCashCheck evening waiter 60 ''50'' ''50'' billed_db = Inr (bill_60, 50, 50)" by code_simp
  moreover have "case payCash evening waiter 60 ''100'' ''100'' 1 (Some ''k1'') billed_db of Inl _ \<Rightarrow> False
      | Inr (r1, d1) \<Rightarrow> (case payCashTx evening waiter (command_key waiter ''payment.cash'' ''k2'')
       (Req_PayCash 60 ''50'' ''50'' 2) bill_60 (isCounter bill_60 billed_db) 2 50 50 d1 of Inl _ \<Rightarrow> False
         | Inr (r2, d2) \<Rightarrow> map_option bl_amountPaid (row_by bl_id 60 (bills d2)) = Some 50 \<and> paid_of 60 d2 = 150)"
    by code_simp
  from run_results [OF this] obtain r1 d1 r2 d2 where
    "payCash evening waiter 60 ''100'' ''100'' 1 (Some ''k1'') billed_db = Inr (r1, d1)"
    "payCashTx evening waiter (command_key waiter ''payment.cash'' ''k2'')
       (Req_PayCash 60 ''50'' ''50'' 2) bill_60 (isCounter bill_60 billed_db) 2 50 50 d1 = Inr (r2, d2)"
    "map_option bl_amountPaid (row_by bl_id 60 (bills d2)) = Some 50" "paid_of 60 d2 = 150" by auto
  ultimately show ?thesis by blast
qed

end
