(* ===== verification/Orders.thy ===== *)
theory Orders
  imports Seating Scenario Versions
begin

text \<open>
  Orders (\<open>src/orders/orders.service.ts\<close>): a waiter confirms an order for a table, a room or
  an outside delivery, which prices the lines, checks availability and modifiers, writes the
  items as QUEUED, takes the recipe from stock and counts down the limited dishes; serving,
  the legacy hand-over to the kitchen, the waiter's menu and the listing of a session's orders.

  Rows of a table are kept in the order of their creation, so \<open>orderBy: { createdAt: 'desc' }\<close>
  reads a table backwards.
\<close>

section \<open>Guards\<close>

definition isBakery :: "id \<Rightarrow> db \<Rightarrow> bool" where
  "isBakery b d = (map_option bc_serviceMode (row_by bc_id b (branches d)) = Some ''BAKERY'')"

definition requireWaiter :: "auth_ctx \<Rightarrow> db \<Rightarrow> auth_ctx result" where
  "requireWaiter c d =
     bindR (requireBranch c) (\<lambda>c.
       if ax_roleCode c \<notin> set shift_owner_roles \<and>
          \<not> (ax_roleCode c = ''CASHIER'' \<and> isBakery (branch_of c) d)
       then Inl (Forbidden ''Waiter menu is for waiters only.'') else Inr c)"

definition requireOrderTaker :: "auth_ctx \<Rightarrow> db \<Rightarrow> auth_ctx result" where
  "requireOrderTaker c d = bindR (requireWaiter c d) onShift"

lemma requireOrderTaker_eq_Inr [inversion]:
  "requireOrderTaker c d = Inr c' \<longleftrightarrow> c' = c \<and> ax_tenantId c \<noteq> None \<and> ax_branchId c \<noteq> None \<and>
     (ax_roleCode c \<in> set shift_owner_roles \<or> ax_roleCode c = ''CASHIER'' \<and> isBakery (branch_of c) d) \<and>
     ax_staffMembershipId c \<noteq> None \<and> ax_shiftSessionId c \<noteq> None"
  by (auto simp: requireOrderTaker_def requireWaiter_def inversion)

section \<open>Availability\<close>

text \<open>\<open>overrides[0]\<close>: the newest override of the item at the branch that has not ended.\<close>

definition override_active :: "time \<Rightarrow> availability_override \<Rightarrow> bool" where
  "override_active now o' = (case ov_endsAt o' of None \<Rightarrow> True | Some t \<Rightarrow> now < t)"

definition current_override :: "time \<Rightarrow> id \<Rightarrow> id \<Rightarrow> db \<Rightarrow> availability_override option" where
  "current_override now b item d =
     find (\<lambda>o'. ov_branchId o' = b \<and> ov_menuItemId o' = item \<and> override_active now o') (rev (overrides d))"

definition remaining_of :: "availability_override option \<Rightarrow> nat option" where
  "remaining_of o' = (case o' of
      Some r \<Rightarrow> if ov_state r = OV_LIMITED then ov_remainingQty r else None
    | None \<Rightarrow> None)"

definition item_sold_out :: "menu_item \<Rightarrow> availability_override option \<Rightarrow> bool" where
  "item_sold_out m o' \<longleftrightarrow> mi_soldOut m \<or> map_option ov_state o' = Some OV_SOLD_OUT \<or> remaining_of o' = Some 0"

definition defaultVip :: "id \<Rightarrow> db \<Rightarrow> decimal" where
  "defaultVip tenant d = (case row_by tn_tenantId tenant (tenant_config d) of
      Some t \<Rightarrow> tn_defaultVipPercent t | None \<Rightarrow> 0)"

section \<open>The waiter's menu\<close>

record menu_view =
  mv_itemId :: id
  mv_price :: decimal
  mv_soldOut :: bool
  mv_remainingQty :: "nat option"

definition menu_view_of :: "env \<Rightarrow> auth_ctx \<Rightarrow> bool \<Rightarrow> db \<Rightarrow> menu_item \<Rightarrow> menu_view" where
  "menu_view_of e c vip d m =
     (let o' = current_override (env_now e) (branch_of c) (mi_id m) d
      in \<lparr>mv_itemId = mi_id m,
          mv_price = money (resolveVipUnitPrice (mi_currentPrice m) vip (mi_vipPercent m)
            (defaultVip (tenant_of c) d)),
          mv_soldOut = item_sold_out m o', mv_remainingQty = remaining_of o'\<rparr>)"

section \<open>The seating of an order\<close>

datatype order_target = On_table id | On_room id | On_outside id

record confirm_session =
  cf_target :: order_target
  cf_businessDate :: date
  cf_version :: nat
  cf_vip :: bool

definition orderable :: "session_status list" where
  "orderable = [S_OPEN, S_ACTIVE_ORDER]"

definition resolveOutside :: "auth_ctx \<Rightarrow> id \<Rightarrow> nat option \<Rightarrow> db \<Rightarrow> confirm_session result" where
  "resolveOutside c i expected d =
     (case find (\<lambda>o'. oo_id o' = i \<and> oo_branchId o' = branch_of c) (outside_orders d) of
        None \<Rightarrow> Inl (NotFound ''Outside order not found.'')
      | Some o' \<Rightarrow>
          if Some (oo_createdBy o') \<noteq> ax_staffMembershipId c
            then Inl (Forbidden ''This outside order belongs to another waiter.'')
          else if oo_closedAt o' \<noteq> None \<or> oo_status o' = S_CLOSED then Inl (Unprocessable ''ORDER_CLOSED'')
          else bindR (assertBusinessDayNotLocked (branch_of c) (oo_businessDate o') d) (\<lambda>_.
            if expected \<noteq> None \<and> expected \<noteq> Some (oo_version o') then Inl (StaleVersion (oo_version o'))
            else Inr \<lparr>cf_target = On_outside i, cf_businessDate = oo_businessDate o',
                      cf_version = oo_version o', cf_vip = False\<rparr>))"

definition resolveTable :: "auth_ctx \<Rightarrow> id \<Rightarrow> nat option \<Rightarrow> db \<Rightarrow> confirm_session result" where
  "resolveTable c i expected d =
     (case find (\<lambda>s. ts_id s = i \<and> ts_branchId s = branch_of c) (table_sessions d) of
        None \<Rightarrow> Inl (NotFound ''Table session not found.'')
      | Some s \<Rightarrow>
          if Some (ts_primaryWaiter s) \<noteq> ax_staffMembershipId c
            then Inl (Forbidden ''This table belongs to another waiter.'')
          else if ts_closedAt s \<noteq> None \<or> ts_status s = S_CLOSED then Inl (Unprocessable ''SESSION_CLOSED'')
          else bindR (assertBusinessDayNotLocked (branch_of c) (ts_businessDate s) d) (\<lambda>_.
            if ts_status s \<notin> set orderable then Inl (Unprocessable ''SESSION_NOT_ORDERABLE'')
            else if Some (ts_version s) \<noteq> expected then Inl (StaleVersion (ts_version s))
            else Inr \<lparr>cf_target = On_table i, cf_businessDate = ts_businessDate s,
                      cf_version = ts_version s, cf_vip = seatingVip (Some s) d\<rparr>))"

definition resolveRoom :: "auth_ctx \<Rightarrow> id \<Rightarrow> nat option \<Rightarrow> db \<Rightarrow> confirm_session result" where
  "resolveRoom c i expected d =
     (case find (\<lambda>s. rs_id s = i \<and> rs_branchId s = branch_of c) (room_sessions d) of
        None \<Rightarrow> Inl (NotFound ''Room session not found.'')
      | Some s \<Rightarrow>
          if Some (rs_primaryWaiter s) \<noteq> ax_staffMembershipId c
            then Inl (Forbidden ''This room belongs to another waiter.'')
          else if rs_closedAt s \<noteq> None \<or> rs_status s = S_CLOSED then Inl (Unprocessable ''SESSION_CLOSED'')
          else if map_option sy_status (row_by sy_id (rs_roomStayId s) (room_stays d)) \<noteq> Some ''IN_HOUSE''
            then Inl (Unprocessable ''STAY_NOT_IN_HOUSE'')
          else bindR (assertBusinessDayNotLocked (branch_of c) (rs_businessDate s) d) (\<lambda>_.
            if rs_status s \<notin> set orderable then Inl (Unprocessable ''SESSION_NOT_ORDERABLE'')
            else if Some (rs_version s) \<noteq> expected then Inl (StaleVersion (rs_version s))
            else Inr \<lparr>cf_target = On_room i, cf_businessDate = rs_businessDate s,
                      cf_version = rs_version s, cf_vip = False\<rparr>))"

definition resolveSession :: "auth_ctx \<Rightarrow> confirm_order_dto \<Rightarrow> db \<Rightarrow> confirm_session result" where
  "resolveSession c dto d =
     (case (co_outsideOrderId dto, co_tableSessionId dto, co_roomSessionId dto) of
        (Some i, None, None) \<Rightarrow> resolveOutside c i (co_expectedOutsideVersion dto) d
      | (None, Some i, None) \<Rightarrow> resolveTable c i (co_expectedTableVersion dto) d
      | (None, None, Some i) \<Rightarrow> resolveRoom c i (co_expectedRoomVersion dto) d
      | _ \<Rightarrow> Inl (Unprocessable ''SESSION_XOR_REQUIRED''))"

section \<open>Preparing the lines\<close>

text \<open>\<open>[...new Set(xs)]\<close>: the distinct elements, in the order of their first occurrence.\<close>

definition uniq :: "'a list \<Rightarrow> 'a list" where
  "uniq xs = rev (remdups (rev xs))"

definition requested_qty :: "confirm_line list \<Rightarrow> id \<Rightarrow> nat" where
  "requested_qty ls m = sum_list (map li_quantity (filter (\<lambda>l. li_menuItemId l = m) ls))"

definition orderMenu :: "auth_ctx \<Rightarrow> confirm_line list \<Rightarrow> db \<Rightarrow> menu_item list" where
  "orderMenu c ls d =
     filter (\<lambda>m. mi_id m \<in> set (map li_menuItemId ls) \<and> mi_tenantId m = tenant_of c) (menu_items d)"

definition selectOption :: "menu_item \<Rightarrow> id \<Rightarrow> item_modifier result" where
  "selectOption m oid =
     (case find (\<lambda>a. list_ex (\<lambda>x. op_id x = oid) (mg_options (ma_group a))) (mi_modifiers m) of
        None \<Rightarrow> Inl (Unprocessable ''MODIFIER_OPTION_INVALID'')
      | Some a \<Rightarrow> (case find (\<lambda>x. op_id x = oid) (mg_options (ma_group a)) of
            None \<Rightarrow> Inl (Unprocessable ''MODIFIER_OPTION_INVALID'')
          | Some x \<Rightarrow> if op_status x \<noteq> ''ACTIVE'' then Inl (Unprocessable ''MODIFIER_OPTION_INVALID'')
                       else Inr \<lparr>im_groupId = mg_id (ma_group a), im_optionId = op_id x,
                              im_groupName = mg_name (ma_group a), im_optionName = op_name x,
                              im_priceDelta = op_priceDelta x, im_sortOrder = 0\<rparr>))"

definition selectionOk :: "item_modifier list \<Rightarrow> modifier_assignment \<Rightarrow> bool" where
  "selectionOk selected a =
     (let g = ma_group a;
          mn = (case ma_minOverride a of Some x \<Rightarrow> x | None \<Rightarrow> mg_minSelections g);
          mx = (case ma_maxOverride a of Some x \<Rightarrow> x | None \<Rightarrow> mg_maxSelections g);
          req = (case ma_requiredOverride a of Some x \<Rightarrow> x | None \<Rightarrow> mg_requiredDefault g);
          cnt = count_where (\<lambda>s. im_groupId s = mg_id g) selected
      in mg_status g \<noteq> ''ACTIVE'' \<or> \<not> (mx < cnt \<or> cnt < mn \<or> (req \<and> cnt = 0)))"

record prepared =
  pp_line :: confirm_line
  pp_item :: menu_item
  pp_station :: station
  pp_selected :: "item_modifier list"

definition prepareLine ::
  "env \<Rightarrow> auth_ctx \<Rightarrow> confirm_line list \<Rightarrow> db \<Rightarrow> confirm_line \<Rightarrow> prepared result" where
  "prepareLine e c ls d line =
     (case row_by mi_id (li_menuItemId line) (orderMenu c ls d) of
        None \<Rightarrow> Inl (Unprocessable ''MENU_ITEM_NOT_FOUND'')
      | Some m \<Rightarrow>
          if mi_status m \<noteq> ''ACTIVE'' then Inl (Unprocessable ''MENU_ITEM_NOT_FOUND'')
          else
            let o' = current_override (env_now e) (branch_of c) (mi_id m) d; remaining = remaining_of o'
            in if item_sold_out m o' then Inl (Unprocessable ''MENU_ITEM_SOLD_OUT'')
               else if (case remaining of Some r \<Rightarrow> r < requested_qty ls (mi_id m) | None \<Rightarrow> False)
                 then Inl (Unprocessable ''MENU_ITEM_LIMIT_EXCEEDED'')
               else (case station_of_item m d of
                   None \<Rightarrow> Inl (Unprocessable ''MENU_ITEM_STATION_MISSING'')
                 | Some s \<Rightarrow>
                     if sn_status s \<noteq> ''ACTIVE'' then Inl (Unprocessable ''MENU_ITEM_STATION_MISSING'')
                     else bindR (mapR (selectOption m)
                         (uniq (case li_optionIds line of None \<Rightarrow> [] | Some xs \<Rightarrow> xs))) (\<lambda>selected.
                       if list_all (selectionOk selected) (mi_modifiers m)
                       then Inr \<lparr>pp_line = line, pp_item = m, pp_station = s, pp_selected = selected\<rparr>
                       else Inl (Unprocessable ''REQUIRED_MODIFIER_MISSING''))))"

section \<open>The transaction\<close>

definition order_item_row ::
  "auth_ctx \<Rightarrow> confirm_session \<Rightarrow> decimal \<Rightarrow> nat \<Rightarrow> time \<Rightarrow> id \<Rightarrow> nat \<times> prepared \<Rightarrow> order_item" where
  "order_item_row c cf dflt rush now oid = (\<lambda>(i, p).
     \<lparr>oi_id = i, oi_tenantId = tenant_of c, oi_branchId = branch_of c,
      oi_businessDate = cf_businessDate cf, oi_orderId = oid,
      oi_tableSessionId = (case cf_target cf of On_table t \<Rightarrow> Some t | _ \<Rightarrow> None),
      oi_roomSessionId = (case cf_target cf of On_room r \<Rightarrow> Some r | _ \<Rightarrow> None),
      oi_outsideOrderId = (case cf_target cf of On_outside o' \<Rightarrow> Some o' | _ \<Rightarrow> None),
      oi_menuItemId = Some (mi_id (pp_item p)), oi_itemName = mi_name (pp_item p),
      oi_unitPrice = dp2 (resolveVipUnitPrice (mi_currentPrice (pp_item p)) (cf_vip cf)
        (mi_vipPercent (pp_item p)) dflt),
      oi_quantity = li_quantity (pp_line p), oi_originalStation = sn_id (pp_station p),
      oi_currentStation = sn_id (pp_station p), oi_stationName = sn_name (pp_station p),
      oi_prepMinutes = Some ((case mi_expectedPrepMinutes (pp_item p) of Some x \<Rightarrow> x | None \<Rightarrow> 15) + rush),
      oi_instruction = trim_or_null (li_instruction (pp_line p)), oi_state = QUEUED,
      oi_confirmedAt = now, oi_queuedAt = Some now, oi_acknowledgedAt = None,
      oi_preparationStartedAt = None, oi_readyAt = None, oi_servedAt = None,
      oi_cancelledAt = None, oi_cancelledBy = None, oi_cancellationReason = None,
      oi_unackAlertAt = None, oi_delayAlertAt = None, oi_version = 1,
      oi_modifiers = map (\<lambda>(k, x). x\<lparr>im_sortOrder := k\<rparr>) (List.enumerate 0 (pp_selected p))\<rparr>)"

definition order_row_of :: "auth_ctx \<Rightarrow> confirm_session \<Rightarrow> time \<Rightarrow> id \<Rightarrow> order_row" where
  "order_row_of c cf now oid =
     \<lparr>od_id = oid, od_branchId = branch_of c, od_businessDate = cf_businessDate cf,
      od_tableSessionId = (case cf_target cf of On_table t \<Rightarrow> Some t | _ \<Rightarrow> None),
      od_roomSessionId = (case cf_target cf of On_room r \<Rightarrow> Some r | _ \<Rightarrow> None),
      od_outsideOrderId = (case cf_target cf of On_outside o' \<Rightarrow> Some o' | _ \<Rightarrow> None),
      od_createdBy = staff_of c, od_waiterShift = shift_of c, od_status = ''CONFIRMED'',
      od_confirmedAt = now\<rparr>"

definition deplete_item :: "order_item \<Rightarrow> db \<Rightarrow> db result" where
  "deplete_item i d =
     depleteForOrderItem (oi_id i) (oi_tenantId i) (oi_branchId i) (oi_menuItemId i) (oi_quantity i) d"

text \<open>
  The countdown of a limited dish: the override was chosen before the transaction (\<open>o0\<close>), the
  conditional update decides on the row as it is now. The accumulator collects the dishes
  that are now sold out.
\<close>

definition can_take :: "id \<Rightarrow> nat \<Rightarrow> availability_override \<Rightarrow> bool" where
  "can_take i q r \<longleftrightarrow> ov_id r = i \<and> ov_state r = OV_LIMITED \<and>
     (case ov_remainingQty r of Some n \<Rightarrow> q \<le> n | None \<Rightarrow> False)"

definition take_qty :: "nat \<Rightarrow> availability_override \<Rightarrow> availability_override" where
  "take_qty q r = r\<lparr>ov_remainingQty := map_option (\<lambda>n. n - q) (ov_remainingQty r)\<rparr>"

definition left_of :: "id \<Rightarrow> db \<Rightarrow> nat" where
  "left_of i d = (case Option.bind (row_by ov_id i (overrides d)) ov_remainingQty of Some n \<Rightarrow> n | None \<Rightarrow> 0)"

definition take_portions :: "id \<Rightarrow> nat \<Rightarrow> db \<Rightarrow> (nat \<times> db) result" where
  "take_portions i q d =
     (if count_where (can_take i q) (overrides d) \<noteq> 1 then Inl (Conflict ''MENU_ITEM_LIMIT_EXCEEDED'')
      else let d1 = d\<lparr>overrides := update_many (can_take i q) (take_qty q) (overrides d)\<rparr>
           in Inr (left_of i d1, d1))"

definition mark_sold_out :: "id \<Rightarrow> db \<Rightarrow> db" where
  "mark_sold_out m d = d\<lparr>menu_items := update_id mi_id m
     (\<lambda>x. x\<lparr>mi_soldOut := True, mi_version := mi_version x + 1\<rparr>) (menu_items d)\<rparr>"

definition countdown ::
  "(id \<Rightarrow> availability_override option) \<Rightarrow> id \<times> nat \<Rightarrow> (id list \<times> db) \<Rightarrow> (id list \<times> db) result" where
  "countdown chosen mq acc =
     (case chosen (fst mq) of
        None \<Rightarrow> Inr acc
      | Some o' \<Rightarrow>
          if ov_state o' \<noteq> OV_LIMITED \<or> ov_remainingQty o' = None then Inr acc
          else bindR (take_portions (ov_id o') (snd mq) (snd acc)) (\<lambda>(nxt, d1).
            if nxt = 0 then Inr (fst acc @ [fst mq], mark_sold_out (fst mq) d1)
            else Inr (fst acc, d1)))"

definition touch_target :: "order_target \<Rightarrow> db \<Rightarrow> (seat_snapshot \<times> db) result" where
  "touch_target t d =
     (case t of
        On_table i \<Rightarrow>
          let d1 = set_seat_status (At_table i) S_ACTIVE_ORDER d
          in bindR (snapshot (At_table i) d1) (\<lambda>s. Inr (s, d1))
      | On_room i \<Rightarrow>
          let d1 = set_seat_status (At_room i) S_ACTIVE_ORDER d
          in bindR (snapshot (At_room i) d1) (\<lambda>s. Inr (s, d1))
      | On_outside i \<Rightarrow>
          let d1 = d\<lparr>outside_orders := update_id oo_id i (\<lambda>o'. o'\<lparr>oo_version := oo_version o' + 1\<rparr>)
                (outside_orders d)\<rparr>
          in (case row_by oo_id i (outside_orders d1) of
                None \<Rightarrow> Inl (DbError ''P2025'')
              | Some o' \<Rightarrow> Inr (Table_seat S_ACTIVE_ORDER (oo_version o'), d1)))"

definition isDelayed :: "time \<Rightarrow> order_item \<Rightarrow> bool" where
  "isDelayed now i =
     (let queued = (case oi_queuedAt i of Some t \<Rightarrow> t | None \<Rightarrow> oi_confirmedAt i);
          target = (case oi_prepMinutes i of Some m \<Rightarrow> m | None \<Rightarrow> 15)
      in oi_delayAlertAt i \<noteq> None \<or>
         (oi_state i \<in> set [QUEUED, ACKNOWLEDGED, IN_PREPARATION] \<and> int target * 60000 < now - queued))"

definition toItemDto :: "time \<Rightarrow> order_item \<Rightarrow> order_item_dto" where
  "toItemDto now i = \<lparr>oid_orderItemId = oi_id i, oid_itemName = oi_itemName i, oid_quantity = oi_quantity i,
     oid_unitPrice = money (oi_unitPrice i), oid_state = oi_state i, oid_version = oi_version i,
     oid_stationId = oi_currentStation i, oid_instruction = oi_instruction i,
     oid_delayed = isDelayed now i,
     oid_modifiers = map (\<lambda>m. (im_optionName m, money (im_priceDelta m))) (oi_modifiers i)\<rparr>"

text \<open>The notices and timers after the transaction.\<close>

definition queued_notice :: "auth_ctx \<Rightarrow> id \<Rightarrow> id \<Rightarrow> effect" where
  "queued_notice c seat station = Broadcast \<lparr>nt_type = ''ticket.queued'', nt_recipient = None,
     nt_rooms = [Station_room station, Branch_room (branch_of c), Manager_room (branch_of c)],
     nt_entity = seat\<rparr>"

definition target_id :: "order_target \<Rightarrow> id" where
  "target_id t = (case t of On_table i \<Rightarrow> i | On_room i \<Rightarrow> i | On_outside i \<Rightarrow> i)"

definition unackMinutes :: "id \<Rightarrow> db \<Rightarrow> nat" where
  "unackMinutes b d = (case row_by bs_branchId b (branch_config d) of Some s \<Rightarrow> bs_unackAlertMinutes s | None \<Rightarrow> 3)"

definition rushBuffer :: "id \<Rightarrow> db \<Rightarrow> nat" where
  "rushBuffer b d = (case row_by bs_branchId b (branch_config d) of
      Some s \<Rightarrow> if bs_rushModeEnabled s then bs_rushModeBufferMinutes s else 0 | None \<Rightarrow> 0)"

definition confirm_effects :: "auth_ctx \<Rightarrow> order_target \<Rightarrow> nat \<Rightarrow> id list \<Rightarrow> order_item list \<Rightarrow> effect list" where
  "confirm_effects c t unack soldOut items =
     map (\<lambda>m. Notify_waiters (request_notice ''menu.item.availability'' m)) soldOut @
     map (queued_notice c (target_id t)) (uniq (map oi_currentStation items)) @
     map (\<lambda>i. Schedule_timers (oi_id i) (case oi_prepMinutes i of Some m \<Rightarrow> m | None \<Rightarrow> 15) unack) items"

definition confirmTx ::
  "env \<Rightarrow> auth_ctx \<Rightarrow> command_key \<Rightarrow> confirm_order_dto \<Rightarrow> confirm_session \<Rightarrow> prepared list \<Rightarrow> db \<Rightarrow>
     (response \<times> db) result" where
  "confirmTx e c k dto cf ps d =
     (let now = env_now e; oid = next_id d;
          items = map (order_item_row c cf (defaultVip (tenant_of c) d) (rushBuffer (branch_of c) d) now oid)
            (List.enumerate (oid + 1) ps);
          chosen = (\<lambda>m. current_override now (branch_of c) m d);
          requested = map (\<lambda>m. (m, requested_qty (co_items dto) m)) (uniq (map li_menuItemId (co_items dto)));
          d1 = d\<lparr>orders := orders d @ [order_row_of c cf now oid], order_items := order_items d @ items,
                 next_id := oid + 1 + length ps\<rparr>
      in bindR (foldR deplete_item items d1) (\<lambda>d2.
         bindR (foldR (countdown chosen) requested ([], d2)) (\<lambda>(soldOut, d3).
         bindR (touch_target (cf_target cf) d3) (\<lambda>(seat, d4).
           let payload = Res_Order \<lparr>or_orderId = oid,
                 or_tableSessionId = od_tableSessionId (order_row_of c cf now oid),
                 or_roomSessionId = od_roomSessionId (order_row_of c cf now oid),
                 or_confirmedAt = now, or_items = map (toItemDto now) items, or_seat = seat\<rparr>
           in bindR (commit (storeIdempotent (env_hash e) oid k (Req_ConfirmOrder dto) payload d4)) (\<lambda>d5.
              Inr (payload, foldl (\<lambda>d x. emit x d) d5
                (confirm_effects c (cf_target cf) (unackMinutes (branch_of c) d) soldOut items)))))))"

definition confirmBody ::
  "env \<Rightarrow> auth_ctx \<Rightarrow> command_key \<Rightarrow> confirm_order_dto \<Rightarrow> db \<Rightarrow> (response \<times> db) result" where
  "confirmBody e c k dto d =
     bindR (resolveSession c dto d) (\<lambda>cf.
     bindR (mapR (prepareLine e c (co_items dto) d) (co_items dto)) (\<lambda>ps.
       confirmTx e c k dto cf ps d))"

definition confirmOrder ::
  "env \<Rightarrow> auth_ctx \<Rightarrow> confirm_order_dto \<Rightarrow> string option \<Rightarrow> db \<Rightarrow> (response \<times> db) result" where
  "confirmOrder e c dto key d =
     bindR (requireOrderTaker c d) (\<lambda>c.
     bindR (requireIdempotencyKey key) (\<lambda>s.
       let k = command_key c ''order.confirm'' s
       in guarded_command e k (Req_ConfirmOrder dto) (confirmBody e c k dto) d))"

section \<open>Serving and sending to the kitchen\<close>

definition item_owner :: "order_item \<Rightarrow> db \<Rightarrow> id option" where
  "item_owner i d = map_option sv_owner (seating_of (oi_tableSessionId i) (oi_roomSessionId i) d)"

definition set_item :: "id \<Rightarrow> (order_item \<Rightarrow> order_item) \<Rightarrow> db \<Rightarrow> db" where
  "set_item i f d = d\<lparr>order_items :=
     update_id oi_id i (\<lambda>x. (f x)\<lparr>oi_version := oi_version x + 1\<rparr>) (order_items d)\<rparr>"

definition markServed :: "env \<Rightarrow> auth_ctx \<Rightarrow> id \<Rightarrow> nat \<Rightarrow> db \<Rightarrow> (order_item \<times> db) result" where
  "markServed e c iid expected d =
     bindR (requireBranch c) (\<lambda>c.
       if ax_staffMembershipId c = None then Inl (Forbidden ''No restaurant membership for this account.'')
       else bindR (assertCan e c Act_serve Sub_Order ''Only the waiter can mark this served.'') (\<lambda>_.
         if ax_roleCode c \<in> set shift_owner_roles \<and> ax_shiftSessionId c = None
           then Inl (Forbidden ''SHIFT_REQUIRED'')
         else case find (\<lambda>i. oi_id i = iid \<and> oi_branchId i = branch_of c) (order_items d) of
             None \<Rightarrow> Inl (NotFound ''Order item not found.'')
           | Some i \<Rightarrow>
               if ax_roleCode c \<in> set shift_owner_roles \<and> item_owner i d \<noteq> ax_staffMembershipId c
                 then Inl (Forbidden ''This is not your seating.'')
               else if oi_state i \<noteq> READY then Inl (Unprocessable ''INVALID_ITEM_STATE'')
               else if oi_version i \<noteq> expected then Inl (StaleVersion (oi_version i))
               else
                 let f = (\<lambda>x. x\<lparr>oi_state := SERVED, oi_servedAt := Some (env_now e)\<rparr>)
                 in bindR (commit (set_item iid f d)) (\<lambda>d1.
                    Inr ((f i)\<lparr>oi_version := oi_version i + 1\<rparr>, d1))))"

definition sendToKitchen ::
  "env \<Rightarrow> auth_ctx \<Rightarrow> id \<Rightarrow> id option \<Rightarrow> db \<Rightarrow> (nat \<times> db) result" where
  "sendToKitchen e c sid oid d =
     bindR (requireBranch c) (\<lambda>c.
     bindR (assertCan e c Act_send_kitchen Sub_Order ''Only staff can send orders to kitchen.'') (\<lambda>_.
       case find (\<lambda>s. ts_id s = sid \<and> ts_branchId s = branch_of c) (table_sessions d) of
         None \<Rightarrow> Inl (NotFound ''Table session not found.'')
       | Some s \<Rightarrow>
           if ts_closedAt s \<noteq> None \<or> ts_status s = S_CLOSED
             then Inl (Unprocessable ''Table session is closed.'')
           else bindR (assertBusinessDayNotLocked (branch_of c) (ts_businessDate s) d) (\<lambda>_.
             let P = (\<lambda>i. oi_tableSessionId i = Some sid \<and> oi_branchId i = branch_of c \<and>
                   oi_cancelledAt i = None \<and> oi_state i = CONFIRMED \<and>
                   (case oid of None \<Rightarrow> True | Some x \<Rightarrow> oi_orderId i = x));
                 confirmed = filter P (order_items d)
             in if confirmed = [] then Inr (0, d)
                else
                  let d1 = d\<lparr>order_items := update_many P (\<lambda>i. i\<lparr>oi_state := QUEUED,
                        oi_queuedAt := Some (env_now e), oi_version := oi_version i + 1\<rparr>) (order_items d)\<rparr>;
                      d2 = set_seat_status (At_table sid) S_ACTIVE_ORDER d1
                  in bindR (commit d2) (\<lambda>d3.
                     Inr (length confirmed, foldl (\<lambda>d x. emit x d) d3
                       (map (queued_notice c sid) (uniq (map oi_currentStation confirmed))))))))"

section \<open>Listing\<close>

record session_orders =
  so_tableSessionId :: "id option"
  so_roomSessionId :: "id option"
  so_status :: session_status
  so_version :: nat
  so_orders :: "(id \<times> time \<times> order_item_dto list) list"

definition orders_view :: "time \<Rightarrow> seat \<Rightarrow> db \<Rightarrow> (id \<times> time \<times> order_item_dto list) list" where
  "orders_view now s d = map (\<lambda>o'. (od_id o', od_confirmedAt o', map (toItemDto now) (order_items_of d o')))
     (sort_key od_confirmedAt (seat_orders s d))"

definition listSessionOrders :: "env \<Rightarrow> auth_ctx \<Rightarrow> id \<Rightarrow> db \<Rightarrow> session_orders result" where
  "listSessionOrders e c sid d =
     bindR (requireBranch c) (\<lambda>c.
       case find (\<lambda>s. ts_id s = sid \<and> ts_branchId s = branch_of c) (table_sessions d) of
         None \<Rightarrow> Inl (NotFound ''Table session not found.'')
       | Some s \<Rightarrow> Inr \<lparr>so_tableSessionId = Some sid, so_roomSessionId = None, so_status = ts_status s,
           so_version = ts_version s, so_orders = orders_view (env_now e) (At_table sid) d\<rparr>)"

definition listRoomSessionOrders :: "env \<Rightarrow> auth_ctx \<Rightarrow> id \<Rightarrow> db \<Rightarrow> session_orders result" where
  "listRoomSessionOrders e c sid d =
     bindR (requireBranch c) (\<lambda>c.
       case find (\<lambda>s. rs_id s = sid \<and> rs_branchId s = branch_of c) (room_sessions d) of
         None \<Rightarrow> Inl (NotFound ''Room session not found.'')
       | Some s \<Rightarrow> Inr \<lparr>so_tableSessionId = None, so_roomSessionId = Some sid, so_status = rs_status s,
           so_version = rs_version s, so_orders = orders_view (env_now e) (At_room sid) d\<rparr>)"

section \<open>What the transaction touches\<close>

definition menu_only :: "db \<Rightarrow> db \<Rightarrow> bool" where
  "menu_only d d' \<longleftrightarrow> d' = d\<lparr>overrides := overrides d', menu_items := menu_items d'\<rparr>"

lemma menu_only_refl [intro, simp]: "menu_only d d"
  by (simp add: menu_only_def)

lemma menu_only_trans: "menu_only a b \<Longrightarrow> menu_only b c \<Longrightarrow> menu_only a c"
  unfolding menu_only_def by (cases a; cases b; cases c) auto

lemma menu_only_frame [frame]:
  assumes "menu_only d d'"
  shows "order_items d' = order_items d" "orders d' = orders d" "bills d' = bills d"
    "table_sessions d' = table_sessions d" "room_sessions d' = room_sessions d"
    "outside_orders d' = outside_orders d" "idempotency d' = idempotency d" "effects d' = effects d"
    "stock d' = stock d" "stock_ledger d' = stock_ledger d" "payments d' = payments d"
    "next_id d' = next_id d" "branches d' = branches d"
    "cancellation_requests d' = cancellation_requests d" "change_requests d' = change_requests d"
  using assms by (cases d; cases d'; simp add: menu_only_def)+

lemma deplete_items_stock_only: "foldR deplete_item is d = Inr d' \<Longrightarrow> stock_only d d'"
  by (erule foldR_stock_only) (simp add: deplete_item_def deplete_stock_only)

lemma menu_only_updates [intro]:
  "menu_only d (d\<lparr>overrides := a\<rparr>)" "menu_only d (d\<lparr>overrides := a, menu_items := b\<rparr>)"
  by (simp_all add: menu_only_def)

lemma take_portions_menu_only: "take_portions i q d = Inr (n, d') \<Longrightarrow> menu_only d d'"
  by (auto simp: take_portions_def Let_def)

lemma mark_sold_out_menu_only: "menu_only d (mark_sold_out m d)"
  by (simp add: menu_only_def mark_sold_out_def)

lemma countdown_menu_only: "countdown ch mq acc = Inr acc' \<Longrightarrow> menu_only (snd acc) (snd acc')"
  using menu_only_trans mark_sold_out_menu_only
  by (auto simp: countdown_def split: option.splits if_splits dest!: take_portions_menu_only)

lemma countdowns_menu_only: "foldR (countdown ch) xs acc = Inr acc' \<Longrightarrow> menu_only (snd acc) (snd acc')"
  by (erule foldR_invariant) (auto dest: countdown_menu_only intro: menu_only_trans)

lemma touch_target_frame:
  assumes "touch_target t d = Inr (s, d')"
  shows "order_items d' = order_items d" "orders d' = orders d" "overrides d' = overrides d"
    "menu_items d' = menu_items d" "idempotency d' = idempotency d" "effects d' = effects d"
    "stock d' = stock d" "stock_ledger d' = stock_ledger d"
    "cancellation_requests d' = cancellation_requests d" "change_requests d' = change_requests d"
  using assms by (auto simp: touch_target_def Let_def bump_table_def bump_room_def
      split: order_target.splits option.splits)

lemma fold_emit_frame [simp]:
  "order_items (foldl (\<lambda>d x. emit x d) d xs) = order_items d"
  "orders (foldl (\<lambda>d x. emit x d) d xs) = orders d"
  "overrides (foldl (\<lambda>d x. emit x d) d xs) = overrides d"
  "menu_items (foldl (\<lambda>d x. emit x d) d xs) = menu_items d"
  "idempotency (foldl (\<lambda>d x. emit x d) d xs) = idempotency d"
  "table_sessions (foldl (\<lambda>d x. emit x d) d xs) = table_sessions d"
  "room_sessions (foldl (\<lambda>d x. emit x d) d xs) = room_sessions d"
  "stock (foldl (\<lambda>d x. emit x d) d xs) = stock d"
  "stock_ledger (foldl (\<lambda>d x. emit x d) d xs) = stock_ledger d"
  "cancellation_requests (foldl (\<lambda>d x. emit x d) d xs) = cancellation_requests d"
  "change_requests (foldl (\<lambda>d x. emit x d) d xs) = change_requests d"
  "db_ok (foldl (\<lambda>d x. emit x d) d xs) = db_ok d"
  "effects (foldl (\<lambda>d x. emit x d) d xs) = effects d @ xs"
  by (induction xs arbitrary: d) simp_all

lemma confirmTx_success:
  assumes "confirmTx e c k dto cf ps d = Inr (res, d')"
  obtains d2 d3 d4 soldOut seat items where
    "items = map (order_item_row c cf (defaultVip (tenant_of c) d) (rushBuffer (branch_of c) d) (env_now e) (next_id d))
       (List.enumerate (next_id d + 1) ps)"
    and "foldR deplete_item items (d\<lparr>orders := orders d @ [order_row_of c cf (env_now e) (next_id d)],
       order_items := order_items d @ items, next_id := next_id d + 1 + length ps\<rparr>) = Inr d2"
    and "foldR (countdown (\<lambda>m. current_override (env_now e) (branch_of c) m d))
       (map (\<lambda>m. (m, requested_qty (co_items dto) m)) (uniq (map li_menuItemId (co_items dto)))) ([], d2) = Inr (soldOut, d3)"
    and "touch_target (cf_target cf) d3 = Inr (seat, d4)"
    and "\<exists>x. d' = foldl (\<lambda>d x. emit x d) (storeIdempotent (env_hash e) (next_id d) k (Req_ConfirmOrder dto) res d4)
          (confirm_effects c (cf_target cf) x soldOut items)"
    and "db_ok d'"
  using assms by (auto simp: confirmTx_def Let_def inversion intro!: that)

lemma confirm_stores: "stores e k (Req_ConfirmOrder dto) (confirmBody e c k dto)"
proof (rule storesI)
  fix d res d'
  assume "confirmBody e c k dto d = Inr (res, d')"
  then obtain cf ps where "confirmTx e c k dto cf ps d = Inr (res, d')" by (auto simp: confirmBody_def)
  then show "\<exists>d0 rid. idempotency d0 = idempotency d \<and>
       idempotency d' = idempotency (storeIdempotent (env_hash e) rid k (Req_ConfirmOrder dto) res d0)"
  proof (rule confirmTx_success)
    fix d2 d3 d4 soldOut seat items x
    assume "foldR deplete_item items (d\<lparr>orders := orders d @ [order_row_of c cf (env_now e) (next_id d)],
       order_items := order_items d @ items, next_id := next_id d + 1 + length ps\<rparr>) = Inr d2"
      and "foldR (countdown (\<lambda>m. current_override (env_now e) (branch_of c) m d))
       (map (\<lambda>m. (m, requested_qty (co_items dto) m)) (uniq (map li_menuItemId (co_items dto)))) ([], d2) = Inr (soldOut, d3)"
      and "touch_target (cf_target cf) d3 = Inr (seat, d4)"
      and "\<exists>x. d' = foldl (\<lambda>d x. emit x d) (storeIdempotent (env_hash e) (next_id d) k (Req_ConfirmOrder dto) res d4)
          (confirm_effects c (cf_target cf) x soldOut items)"
    then show ?thesis
      using stock_only_frame(7) [OF deplete_items_stock_only] menu_only_frame(7) [OF countdowns_menu_only]
        touch_target_frame(5) by fastforce
  qed
qed

section \<open>Properties\<close>

lemma resolveTable_success:
  assumes "resolveTable c i n d = Inr cf"
  shows "\<exists>s. find (\<lambda>s. ts_id s = i \<and> ts_branchId s = branch_of c) (table_sessions d) = Some s \<and>
     ax_staffMembershipId c = Some (ts_primaryWaiter s) \<and> ts_open s \<and> ts_status s \<in> {S_OPEN, S_ACTIVE_ORDER} \<and>
     n = Some (ts_version s) \<and> \<not> day_locked (branch_of c) (ts_businessDate s) d \<and>
     cf = \<lparr>cf_target = On_table i, cf_businessDate = ts_businessDate s, cf_version = ts_version s,
           cf_vip = seatingVip (Some s) d\<rparr>"
  using assms
  by (auto simp: resolveTable_def inversion orderable_def ts_open_def split: option.splits if_splits)

lemma prepareLine_success:
  assumes "prepareLine e c ls d line = Inr p"
  shows "pp_line p = line \<and> mi_id (pp_item p) = li_menuItemId line \<and> pp_item p \<in> set (menu_items d) \<and>
     mi_status (pp_item p) = ''ACTIVE'' \<and> sn_status (pp_station p) = ''ACTIVE'' \<and>
     station_of_item (pp_item p) d = Some (pp_station p) \<and>
     (let o' = current_override (env_now e) (branch_of c) (mi_id (pp_item p)) d
      in \<not> item_sold_out (pp_item p) o' \<and>
         (case remaining_of o' of Some r \<Rightarrow> requested_qty ls (mi_id (pp_item p)) \<le> r | None \<Rightarrow> True)) \<and>
     list_all (selectionOk (pp_selected p)) (mi_modifiers (pp_item p))"
  using assms
  by (auto simp: prepareLine_def Let_def orderMenu_def split: option.splits if_splits dest!: row_by_SomeD)

lemma confirmOrder_fresh:
  assumes "confirmOrder e c dto key d = Inr (res, d')" and "order_items d' \<noteq> order_items d"
  obtains k cf ps where "requireOrderTaker c d = Inr c" and "resolveSession c dto d = Inr cf"
    and "mapR (prepareLine e c (co_items dto) d) (co_items dto) = Inr ps"
    and "confirmTx e c k dto cf ps d = Inr (res, d')"
  using assms by (auto simp: confirmOrder_def confirmBody_def Let_def inversion
      dest!: guarded_fresh intro: that)

lemma confirmTx_rows:
  assumes "confirmTx e c k dto cf ps d = Inr (res, d')"
  shows "order_items d' = order_items d @
      map (order_item_row c cf (defaultVip (tenant_of c) d) (rushBuffer (branch_of c) d) (env_now e) (next_id d))
        (List.enumerate (next_id d + 1) ps)"
    and "orders d' = orders d @ [order_row_of c cf (env_now e) (next_id d)]"
  using assms
  by (elim confirmTx_success; auto dest!: deplete_items_stock_only countdowns_menu_only
      simp: stock_only_frame menu_only_frame touch_target_frame)+

text \<open>
  C5: an order that is confirmed for a table was sent by the waiter who owns the open table,
  with the session's current version, on a day that is not locked. It adds one item per line,
  in the order of the lines: QUEUED, in the quantity asked for, at the station of the dish,
  at exactly the price that the waiter's menu shows for that table; a dish that the menu
  shows as sold out, or with fewer portions left than the whole order asks for, is not sold.
\<close>

theorem confirmOrder_sells_what_the_menu_shows:
  assumes run: "confirmOrder e c dto key d = Inr (res, d')" and new: "order_items d' \<noteq> order_items d"
    and table: "co_tableSessionId dto = Some sid"
  shows "\<exists>s items. s \<in> set (table_sessions d) \<and> ts_id s = sid \<and> ts_open s \<and>
     ts_primaryWaiter s = staff_of c \<and> co_expectedTableVersion dto = Some (ts_version s) \<and>
     \<not> day_locked (branch_of c) (ts_businessDate s) d \<and>
     order_items d' = order_items d @ items \<and> length items = length (co_items dto) \<and>
     (\<forall>j < length items. \<exists>m \<in> set (menu_items d).
        let i = items ! j; l = co_items dto ! j; v = menu_view_of e c (seatingVip (Some s) d) d m in
        mi_id m = li_menuItemId l \<and> oi_state i = QUEUED \<and> oi_quantity i = li_quantity l \<and>
        oi_tableSessionId i = Some sid \<and> Some (oi_currentStation i) = map_option sn_id (station_of_item m d) \<and>
        oi_unitPrice i = mv_price v \<and> \<not> mv_soldOut v \<and>
        (\<forall>r. mv_remainingQty v = Some r \<longrightarrow> requested_qty (co_items dto) (mi_id m) \<le> r))"
proof -
  from run new obtain k cf ps where res: "resolveSession c dto d = Inr cf"
    and ps: "mapR (prepareLine e c (co_items dto) d) (co_items dto) = Inr ps"
    and tx: "confirmTx e c k dto cf ps d = Inr (res, d')"
    by (rule confirmOrder_fresh)
  from res table have "resolveTable c sid (co_expectedTableVersion dto) d = Inr cf"
    by (auto simp: resolveSession_def split: option.splits)
  from resolveTable_success [OF this] obtain s where
    s: "s \<in> set (table_sessions d)" "ts_id s = sid" "ts_open s" "ax_staffMembershipId c = Some (ts_primaryWaiter s)"
      "co_expectedTableVersion dto = Some (ts_version s)" "\<not> day_locked (branch_of c) (ts_businessDate s) d"
    and cf: "cf = \<lparr>cf_target = On_table sid, cf_businessDate = ts_businessDate s, cf_version = ts_version s,
           cf_vip = seatingVip (Some s) d\<rparr>"
    by (auto dest!: find_Some_in)
  let ?row = "order_item_row c cf (defaultVip (tenant_of c) d) (rushBuffer (branch_of c) d) (env_now e) (next_id d)"
  let ?items = "map ?row (List.enumerate (next_id d + 1) ps)"
  from ps have len: "length ps = length (co_items dto)"
    and each: "\<And>j. j < length (co_items dto) \<Longrightarrow> prepareLine e c (co_items dto) d (co_items dto ! j) = Inr (ps ! j)"
    by (auto simp: mapR_eq_Inr)
  have "\<exists>m \<in> set (menu_items d).
        let i = ?items ! j; l = co_items dto ! j; v = menu_view_of e c (seatingVip (Some s) d) d m in
        mi_id m = li_menuItemId l \<and> oi_state i = QUEUED \<and> oi_quantity i = li_quantity l \<and>
        oi_tableSessionId i = Some sid \<and> Some (oi_currentStation i) = map_option sn_id (station_of_item m d) \<and>
        oi_unitPrice i = mv_price v \<and> \<not> mv_soldOut v \<and>
        (\<forall>r. mv_remainingQty v = Some r \<longrightarrow> requested_qty (co_items dto) (mi_id m) \<le> r)"
    if j: "j < length (co_items dto)" for j
  proof -
    note p = prepareLine_success [OF each [OF j]]
    have it: "?items ! j = ?row (next_id d + 1 + j, ps ! j)"
      using j len by (simp add: nth_enumerate_eq)
    show ?thesis
      unfolding it using p
      by (intro bexI [of _ "pp_item (ps ! j)"])
        (auto simp: Let_def order_item_row_def cf menu_view_of_def money_def split: option.splits)
  qed
  with s confirmTx_rows(1) [OF tx] len show ?thesis
    by (intro exI [of _ s] exI [of _ ?items]) auto
qed

definition tibs_order :: confirm_order_dto where
  "tibs_order = \<lparr>co_tableSessionId = Some 40, co_roomSessionId = None, co_outsideOrderId = None,
     co_expectedTableVersion = Some 2, co_expectedRoomVersion = None, co_expectedOutsideVersion = None,
     co_items = [\<lparr>li_menuItemId = 80, li_quantity = 2, li_optionIds = None, li_instruction = Some '' no onion ''\<rparr>]\<rparr>"

theorem confirmOrder_sells_what_the_menu_shows_witness:
  "\<exists>res d' items. confirmOrder evening waiter tibs_order (Some ''k1'') floor_db = Inr (res, d') \<and>
     order_items d' = order_items floor_db @ items \<and> length items = 1"
proof -
  let ?m = "confirmOrder evening waiter tibs_order (Some ''k1'') floor_db"
  have "case ?m of Inl _ \<Rightarrow> False | Inr (res, d') \<Rightarrow> order_items d' \<noteq> order_items floor_db" by code_simp
  then obtain res d' where run: "?m = Inr (res, d')" and new: "order_items d' \<noteq> order_items floor_db"
    by (blast dest: run_result)
  have t: "co_tableSessionId tibs_order = Some 40" and l: "length (co_items tibs_order) = 1" by code_simp+
  from confirmOrder_sells_what_the_menu_shows [OF run new t] run l show ?thesis by auto
qed

text \<open>The countdown of one override, and that it leaves the others alone.\<close>

lemma take_portions_effect:
  assumes "take_portions i q d = Inr (n, d')" and ids: "distinct (map ov_id (overrides d))"
  shows "\<exists>r m. row_by ov_id i (overrides d) = Some r \<and> ov_remainingQty r = Some m \<and> q \<le> m \<and> n = m - q \<and>
     row_by ov_id i (overrides d') = Some (r\<lparr>ov_remainingQty := Some (m - q)\<rparr>) \<and>
     (\<forall>j. j \<noteq> i \<longrightarrow> row_by ov_id j (overrides d') = row_by ov_id j (overrides d)) \<and>
     distinct (map ov_id (overrides d'))"
proof -
  from assms(1) have cnt: "count_where (can_take i q) (overrides d) = 1"
    and d': "d' = d\<lparr>overrides := update_many (can_take i q) (take_qty q) (overrides d)\<rparr>"
    and n: "n = left_of i d'"
    by (auto simp: take_portions_def Let_def split: if_splits)
  have "filter (can_take i q) (overrides d) \<noteq> []" using cnt by (auto simp: count_where_def)
  then obtain r where r: "r \<in> set (overrides d)" "can_take i q r" by (auto simp: filter_empty_conv)
  then obtain m where m: "ov_id r = i" "ov_remainingQty r = Some m" "q \<le> m"
    by (auto simp: can_take_def split: option.splits)
  have row: "row_by ov_id i (overrides d) = Some r" using row_by_distinct [OF ids r(1)] m(1) by simp
  have um: "update_many (can_take i q) (take_qty q) (overrides d) = update_id ov_id (ov_id r) (take_qty q) (overrides d)"
    by (rule update_many_one [OF ids r(1)]) (use r(2) m(1) in \<open>simp_all add: can_take_def\<close>)
  have key: "\<And>x. ov_id (take_qty q x) = ov_id x" by (simp add: take_qty_def)
  have "row_by ov_id j (overrides d') =
      (if j = i then map_option (take_qty q) (row_by ov_id j (overrides d)) else row_by ov_id j (overrides d))" for j
    unfolding d' um using row_by_update_id [of ov_id "take_qty q", OF key] m(1) by simp
  moreover have "distinct (map ov_id (overrides d'))"
    unfolding d' um using map_update_id [of ov_id "take_qty q", OF key] ids by simp
  moreover have "take_qty q r = r\<lparr>ov_remainingQty := Some (m - q)\<rparr>" by (simp add: take_qty_def m(2))
  ultimately show ?thesis using row m n by (auto simp: left_of_def)
qed

lemma mark_sold_out_frame [simp]: "overrides (mark_sold_out m d) = overrides d"
  by (simp add: mark_sold_out_def)

lemma countdown_effect:
  assumes run: "countdown ch (m, q) (so, d) = Inr (so', d')" and ids: "distinct (map ov_id (overrides d))"
  shows "distinct (map ov_id (overrides d')) \<and>
     (\<forall>j. (\<forall>o'. ch m = Some o' \<longrightarrow> ov_id o' \<noteq> j) \<longrightarrow> row_by ov_id j (overrides d') = row_by ov_id j (overrides d)) \<and>
     (\<forall>o'. ch m = Some o' \<longrightarrow> ov_state o' = OV_LIMITED \<longrightarrow> ov_remainingQty o' \<noteq> None \<longrightarrow>
        (\<exists>r n. row_by ov_id (ov_id o') (overrides d) = Some r \<and> ov_remainingQty r = Some n \<and> q \<le> n \<and>
           row_by ov_id (ov_id o') (overrides d') = Some (r\<lparr>ov_remainingQty := Some (n - q)\<rparr>) \<and>
           (n = q \<longrightarrow> m \<in> set so')))"
proof (cases "ch m")
  case None
  with run ids show ?thesis by (simp add: countdown_def)
next
  case (Some o')
  show ?thesis
  proof (cases "ov_state o' \<noteq> OV_LIMITED \<or> ov_remainingQty o' = None")
    case True
    with run Some ids show ?thesis by (auto simp: countdown_def)
  next
    case False
    with run Some obtain nxt d1 where tk: "take_portions (ov_id o') q d = Inr (nxt, d1)"
      and fin: "overrides d' = overrides d1" "nxt = 0 \<longrightarrow> m \<in> set so'"
      by (auto simp: countdown_def split: if_splits)
    from take_portions_effect [OF tk ids] Some fin show ?thesis by auto
  qed
qed

lemma countdown_soldOut_mono: "countdown ch mq acc = Inr acc' \<Longrightarrow> set (fst acc) \<subseteq> set (fst acc')"
  by (auto simp: countdown_def split: option.splits if_splits)

lemma countdowns_effect:
  assumes run: "foldR (countdown ch) xs (so, d) = Inr (so', d')" and ids: "distinct (map ov_id (overrides d))"
    and dist: "distinct (map fst xs)"
    and sep: "\<And>m m' o1 o2. ch m = Some o1 \<Longrightarrow> ch m' = Some o2 \<Longrightarrow> m \<noteq> m' \<Longrightarrow> ov_id o1 \<noteq> ov_id o2"
  shows "set so \<subseteq> set so' \<and>
     (\<forall>j. (\<forall>m \<in> set (map fst xs). \<forall>o'. ch m = Some o' \<longrightarrow> ov_id o' \<noteq> j) \<longrightarrow>
        row_by ov_id j (overrides d') = row_by ov_id j (overrides d)) \<and>
     (\<forall>(m, q) \<in> set xs. \<forall>o'. ch m = Some o' \<longrightarrow> ov_state o' = OV_LIMITED \<longrightarrow> ov_remainingQty o' \<noteq> None \<longrightarrow>
        (\<exists>r n. row_by ov_id (ov_id o') (overrides d) = Some r \<and> ov_remainingQty r = Some n \<and> q \<le> n \<and>
           row_by ov_id (ov_id o') (overrides d') = Some (r\<lparr>ov_remainingQty := Some (n - q)\<rparr>) \<and>
           (n = q \<longrightarrow> m \<in> set so')))"
  using run ids dist
proof (induction xs arbitrary: so d)
  case Nil
  then show ?case by simp
next
  case (Cons p xs)
  obtain m q where p: "p = (m, q)" by (cases p)
  from Cons.prems(1) p obtain so1 d1 where step: "countdown ch (m, q) (so, d) = Inr (so1, d1)"
    and rest: "foldR (countdown ch) xs (so1, d1) = Inr (so', d')" by auto
  note e = countdown_effect [OF step Cons.prems(2)]
  from Cons.prems(3) p have fresh: "m \<notin> set (map fst xs)" and dx: "distinct (map fst xs)" by simp_all
  from e have ids1: "distinct (map ov_id (overrides d1))" by blast
  note ih = Cons.IH [OF rest ids1 dx]
  have mono: "set so \<subseteq> set so1" using countdown_soldOut_mono [OF step] by simp
  have head: "\<exists>r n. row_by ov_id (ov_id o') (overrides d) = Some r \<and> ov_remainingQty r = Some n \<and> q \<le> n \<and>
           row_by ov_id (ov_id o') (overrides d') = Some (r\<lparr>ov_remainingQty := Some (n - q)\<rparr>) \<and> (n = q \<longrightarrow> m \<in> set so')"
    if o': "ch m = Some o'" "ov_state o' = OV_LIMITED" "ov_remainingQty o' \<noteq> None" for o'
  proof -
    have "\<forall>m' \<in> set (map fst xs). \<forall>o2. ch m' = Some o2 \<longrightarrow> ov_id o2 \<noteq> ov_id o'"
      using sep o'(1) fresh by metis
    then have "row_by ov_id (ov_id o') (overrides d') = row_by ov_id (ov_id o') (overrides d1)" using ih by blast
    with e o' ih show ?thesis by fastforce
  qed
  have tail: "\<exists>r n. row_by ov_id (ov_id o') (overrides d) = Some r \<and> ov_remainingQty r = Some n \<and> q' \<le> n \<and>
           row_by ov_id (ov_id o') (overrides d') = Some (r\<lparr>ov_remainingQty := Some (n - q')\<rparr>) \<and> (n = q' \<longrightarrow> m' \<in> set so')"
    if mq: "(m', q') \<in> set xs" and o': "ch m' = Some o'" "ov_state o' = OV_LIMITED" "ov_remainingQty o' \<noteq> None"
    for m' q' o'
  proof -
    have "m \<noteq> m'" using fresh mq by force
    then have "row_by ov_id (ov_id o') (overrides d1) = row_by ov_id (ov_id o') (overrides d)"
      using e sep o'(1) by metis
    with ih mq o' show ?thesis by fastforce
  qed
  show ?case using mono ih head tail e p by (auto simp del: split_paired_All)
qed

lemma current_override_of:
  "current_override now b m d = Some o' \<Longrightarrow> ov_menuItemId o' = m \<and> o' \<in> set (overrides d)"
  by (auto simp: current_override_def dest: find_Some_in)

lemma distinct_uniq [simp]: "distinct (uniq xs)"
  by (simp add: uniq_def)

lemma set_uniq [simp]: "set (uniq xs) = set xs"
  by (simp add: uniq_def)

lemma confirm_countdown:
  assumes tx: "confirmTx e c k dto cf ps d = Inr (res, d')" and ids: "distinct (map ov_id (overrides d))"
    and m: "m \<in> set (map li_menuItemId (co_items dto))"
    and ch: "current_override (env_now e) (branch_of c) m d = Some o'"
    and lim: "ov_state o' = OV_LIMITED" "ov_remainingQty o' = Some n"
  shows "requested_qty (co_items dto) m \<le> n \<and>
     row_by ov_id (ov_id o') (overrides d') = Some (o'\<lparr>ov_remainingQty := Some (n - requested_qty (co_items dto) m)\<rparr>)"
  using tx
proof (rule confirmTx_success)
  fix d2 d3 d4 so seat items
  let ?ch = "\<lambda>m. current_override (env_now e) (branch_of c) m d"
  let ?xs = "map (\<lambda>m. (m, requested_qty (co_items dto) m)) (uniq (map li_menuItemId (co_items dto)))"
  assume dep: "foldR deplete_item items (d\<lparr>orders := orders d @ [order_row_of c cf (env_now e) (next_id d)],
       order_items := order_items d @ items, next_id := next_id d + 1 + length ps\<rparr>) = Inr d2"
    and cd: "foldR (countdown ?ch) ?xs ([], d2) = Inr (so, d3)"
    and touch: "touch_target (cf_target cf) d3 = Inr (seat, d4)"
    and d': "\<exists>x. d' = foldl (\<lambda>d x. emit x d) (storeIdempotent (env_hash e) (next_id d) k (Req_ConfirmOrder dto) res d4)
          (confirm_effects c (cf_target cf) x so items)"
  have ov2: "overrides d2 = overrides d" using stock_only_frame(9) [OF deplete_items_stock_only [OF dep]] by simp
  have ov': "overrides d' = overrides d3" using d' touch_target_frame(3) [OF touch] by auto
  have ids2: "distinct (map ov_id (overrides d2))" using ids ov2 by simp
  have dx: "distinct (map fst ?xs)" by (simp add: comp_def)
  have sep: "ov_id o1 \<noteq> ov_id o2" if "?ch m1 = Some o1" "?ch m2 = Some o2" "m1 \<noteq> m2" for m1 m2 o1 o2
    using current_override_of that row_by_distinct [OF ids] by (metis option.inject)
  have mem: "(m, requested_qty (co_items dto) m) \<in> set ?xs" using m by simp
  from countdowns_effect [OF cd ids2 dx sep] mem ch lim obtain r n' where
    r: "row_by ov_id (ov_id o') (overrides d2) = Some r" "ov_remainingQty r = Some n'"
      "requested_qty (co_items dto) m \<le> n'"
      "row_by ov_id (ov_id o') (overrides d3) = Some (r\<lparr>ov_remainingQty := Some (n' - requested_qty (co_items dto) m)\<rparr>)"
    by fastforce
  have "row_by ov_id (ov_id o') (overrides d2) = Some o'"
    using row_by_distinct [OF ids2] current_override_of [OF ch] ov2 by simp
  with r lim ov' show ?thesis by simp
qed

text \<open>
  C22: a dish with a limited number of portions is never oversold: an order that takes effect
  asks for no more portions (over all its lines together) than the current limit has left,
  and the limit goes down by exactly the number ordered.
\<close>

theorem limited_dish_counts_down:
  assumes run: "confirmOrder e c dto key d = Inr (res, d')" and new: "order_items d' \<noteq> order_items d"
    and ids: "distinct (map ov_id (overrides d))"
    and m: "m \<in> set (map li_menuItemId (co_items dto))"
    and ch: "current_override (env_now e) (branch_of c) m d = Some o'"
    and lim: "ov_state o' = OV_LIMITED" "ov_remainingQty o' = Some n"
  shows "requested_qty (co_items dto) m \<le> n \<and>
     row_by ov_id (ov_id o') (overrides d') = Some (o'\<lparr>ov_remainingQty := Some (n - requested_qty (co_items dto) m)\<rparr>)"
proof -
  from run new obtain k cf ps where "confirmTx e c k dto cf ps d = Inr (res, d')"
    by (rule confirmOrder_fresh)
  then show ?thesis using ids m ch lim by (rule confirm_countdown)
qed

definition limit_85 :: availability_override where
  "limit_85 = \<lparr>ov_id = 85, ov_branchId = 2, ov_menuItemId = 80, ov_state = OV_LIMITED, ov_reason = ''few left'',
     ov_remainingQty = Some 3, ov_initialQty = Some 5, ov_setBy = 12, ov_startsAt = 900000, ov_endsAt = None\<rparr>"

theorem limited_dish_counts_down_witness:
  "\<exists>res d'. confirmOrder evening waiter tibs_order (Some ''k1'') (floor_db\<lparr>overrides := [limit_85]\<rparr>) = Inr (res, d') \<and>
     row_by ov_id 85 (overrides d') = Some (limit_85\<lparr>ov_remainingQty := Some (3 - requested_qty (co_items tibs_order) 80)\<rparr>)"
proof -
  let ?d = "floor_db\<lparr>overrides := [limit_85]\<rparr>"
  let ?m = "confirmOrder evening waiter tibs_order (Some ''k1'') ?d"
  have "case ?m of Inl _ \<Rightarrow> False | Inr (res, d') \<Rightarrow> order_items d' \<noteq> order_items ?d" by code_simp
  then obtain res d' where run: "?m = Inr (res, d')" and new: "order_items d' \<noteq> order_items ?d"
    by (blast dest: run_result)
  have ids: "distinct (map ov_id (overrides ?d))" by code_simp
  have m: "80 \<in> set (map li_menuItemId (co_items tibs_order))" by code_simp
  have ch: "current_override (env_now evening) (branch_of waiter) 80 ?d = Some limit_85" by code_simp
  have lim: "ov_state limit_85 = OV_LIMITED" "ov_remainingQty limit_85 = Some 3" "ov_id limit_85 = 85"
    by (simp_all add: limit_85_def)
  from limited_dish_counts_down [OF run new ids m ch lim(1,2)] run lim(3) show ?thesis by auto
qed

end
