(* ===== verification/ItemMutations.thy ===== *)
theory ItemMutations
  imports Orders
begin

text \<open>
  Changing and cancelling order items (\<open>src/orders/order-item-mutations.service.ts\<close>): a waiter
  cancels or changes an item directly while the kitchen has not started it, and asks a manager
  for approval afterwards; the manager approves or rejects; a manager can cancel by force.
  Cancelling gives the recipe back to stock and reopens a table that has nothing left to
  charge. The row of the item is the state machine; \<open>set_item\<close> is \<open>tx.orderItem.update\<close> with
  \<open>version: { increment: 1 }\<close>.
\<close>

section \<open>Guards\<close>

definition direct_cancel_states :: "item_state list" where
  "direct_cancel_states = [CONFIRMED, QUEUED, ACKNOWLEDGED]"

definition protected_states :: "item_state list" where
  "protected_states = [IN_PREPARATION, READY]"

definition direct_change_states :: "item_state list" where
  "direct_change_states = [QUEUED, ACKNOWLEDGED]"

definition requireMember :: "auth_ctx \<Rightarrow> auth_ctx result" where
  "requireMember c =
     (if ax_tenantId c = None \<or> ax_branchId c = None \<or> ax_staffMembershipId c = None
      then Inl (Forbidden ''No restaurant branch on this account.'') else Inr c)"

definition requireItemWaiter :: "env \<Rightarrow> auth_ctx \<Rightarrow> auth_ctx result" where
  "requireItemWaiter e c =
     bindR (requireMember c) (\<lambda>c.
     bindR (assertCan e c Act_update Sub_Order ''Only waiters can change or cancel items.'') (\<lambda>_.
       if ax_roleCode c \<in> set shift_owner_roles \<and> ax_shiftSessionId c = None
       then Inl (Forbidden ''SHIFT_REQUIRED'') else Inr c))"

definition requireApprover :: "env \<Rightarrow> auth_ctx \<Rightarrow> auth_ctx result" where
  "requireApprover e c =
     bindR (requireMember c) (\<lambda>c.
     bindR (assertCan e c Act_manage Sub_Approval ''Approvals are for managers.'') (\<lambda>_. Inr c))"

definition assertVersion :: "nat \<Rightarrow> nat \<Rightarrow> unit result" where
  "assertVersion current expected = (if current \<noteq> expected then Inl (StaleVersion current) else Inr ())"

definition find_item :: "auth_ctx \<Rightarrow> id \<Rightarrow> db \<Rightarrow> order_item option" where
  "find_item c iid d = find (\<lambda>i. oi_id i = iid \<and> oi_branchId i = branch_of c) (order_items d)"

definition loadOwnedItem :: "auth_ctx \<Rightarrow> id \<Rightarrow> db \<Rightarrow> order_item result" where
  "loadOwnedItem c iid d =
     (case find_item c iid d of
        None \<Rightarrow> Inl (NotFound ''Order item not found.'')
      | Some i \<Rightarrow>
          if ax_roleCode c \<in> set shift_owner_roles \<and> item_owner i d \<noteq> ax_staffMembershipId c
            then Inl (Forbidden ''This is not your seating.'')
          else if oi_state i \<in> set [CANCELLED, SERVED] then Inl (Unprocessable ''ORDER_ITEM_NOT_MUTABLE'')
          else Inr i)"

lemma requireMember_eq_Inr [inversion]:
  "requireMember c = Inr c' \<longleftrightarrow> c' = c \<and> ax_tenantId c \<noteq> None \<and> ax_branchId c \<noteq> None \<and> ax_staffMembershipId c \<noteq> None"
  by (auto simp: requireMember_def)

lemma requireItemWaiter_eq_Inr [inversion]:
  "requireItemWaiter e c = Inr c' \<longleftrightarrow> c' = c \<and> requireMember c = Inr c \<and> can e c Act_update Sub_Order \<and>
     (ax_roleCode c \<in> set shift_owner_roles \<longrightarrow> ax_shiftSessionId c \<noteq> None)"
  by (auto simp: requireItemWaiter_def inversion)

lemma requireApprover_eq_Inr [inversion]:
  "requireApprover e c = Inr c' \<longleftrightarrow> c' = c \<and> requireMember c = Inr c \<and> can e c Act_manage Sub_Approval"
  by (auto simp: requireApprover_def inversion)

lemma assertVersion_eq_Inr [inversion]: "assertVersion a b = Inr u \<longleftrightarrow> a = b"
  by (simp add: assertVersion_def)

lemma loadOwnedItem_eq_Inr [inversion]:
  "loadOwnedItem c iid d = Inr i \<longleftrightarrow> find_item c iid d = Some i \<and> oi_state i \<noteq> CANCELLED \<and> oi_state i \<noteq> SERVED \<and>
     (ax_roleCode c \<in> set shift_owner_roles \<longrightarrow> item_owner i d = ax_staffMembershipId c)"
  by (auto simp: loadOwnedItem_def split: option.splits)

section \<open>Results\<close>

record mutation_result =
  mx_orderItemId :: id
  mx_state :: item_state
  mx_version :: nat
  mx_requestId :: "id option"
  mx_status :: "approval_status option"
  mx_applied :: "bool option"
  mx_cancelledAt :: "time option"

definition mutation_of :: "order_item \<Rightarrow> id option \<Rightarrow> approval_status option \<Rightarrow> bool option \<Rightarrow> mutation_result" where
  "mutation_of i rid st ap = \<lparr>mx_orderItemId = oi_id i, mx_state = oi_state i, mx_version = oi_version i,
     mx_requestId = rid, mx_status = st, mx_applied = ap, mx_cancelledAt = oi_cancelledAt i\<rparr>"

text \<open>The row an \<open>update\<close> returns; \<open>update\<close> fails when there is none.\<close>

definition read_item :: "id \<Rightarrow> db \<Rightarrow> order_item result" where
  "read_item iid d = (case row_by oi_id iid (order_items d) of
      None \<Rightarrow> Inl (DbError ''P2025'') | Some i \<Rightarrow> Inr i)"

section \<open>Cancelling\<close>

definition cancelled_row :: "auth_ctx \<Rightarrow> time \<Rightarrow> string \<Rightarrow> order_item \<Rightarrow> order_item" where
  "cancelled_row c now reason x = x\<lparr>oi_state := CANCELLED, oi_cancelledAt := Some now,
     oi_cancelledBy := ax_staffMembershipId c, oi_cancellationReason := Some reason\<rparr>"

definition remaining_items :: "id \<Rightarrow> db \<Rightarrow> nat" where
  "remaining_items sid d = count_where (\<lambda>i. oi_tableSessionId i = Some sid \<and> chargeable i) (order_items d)"

text \<open>If nothing chargeable remains, ACTIVE_ORDER is cleared so that the table can close.\<close>

definition clearActiveOrder :: "id option \<Rightarrow> db \<Rightarrow> db" where
  "clearActiveOrder ts d =
     (case ts of
        None \<Rightarrow> d
      | Some sid \<Rightarrow>
          if remaining_items sid d = 0
          then d\<lparr>table_sessions := update_many (\<lambda>s. ts_id s = sid \<and> ts_status s = S_ACTIVE_ORDER)
                 (\<lambda>s. s\<lparr>ts_status := S_OPEN, ts_version := ts_version s + 1\<rparr>) (table_sessions d)\<rparr>
          else d)"

definition cancelSteps :: "auth_ctx \<Rightarrow> time \<Rightarrow> string \<Rightarrow> id \<Rightarrow> db \<Rightarrow> (order_item \<times> db) result" where
  "cancelSteps c now reason iid d =
     (let d1 = set_item iid (cancelled_row c now reason) d
      in bindR (read_item iid d1) (\<lambda>i.
         bindR (reverseForOrderItem (oi_id i) (oi_tenantId i) (oi_branchId i) d1) (\<lambda>d2.
           Inr (i, clearActiveOrder (oi_tableSessionId i) d2))))"

definition applyCancel :: "env \<Rightarrow> auth_ctx \<Rightarrow> string \<Rightarrow> id \<Rightarrow> db \<Rightarrow> (mutation_result \<times> db) result" where
  "applyCancel e c reason iid d =
     bindR (cancelSteps c (env_now e) reason iid d) (\<lambda>(i, d1).
     bindR (commit d1) (\<lambda>d2. Inr (mutation_of i None None None, d2)))"

definition directCancel ::
  "env \<Rightarrow> auth_ctx \<Rightarrow> id \<Rightarrow> string \<Rightarrow> nat \<Rightarrow> db \<Rightarrow> (mutation_result \<times> db) result" where
  "directCancel e c iid reason expected d =
     bindR (requireItemWaiter e c) (\<lambda>c.
     bindR (loadOwnedItem c iid d) (\<lambda>i.
     bindR (assertVersion (oi_version i) expected) (\<lambda>_.
       if oi_state i \<notin> set direct_cancel_states then Inl (Unprocessable ''ORDER_ITEM_NOT_CANCELLABLE'')
       else applyCancel e c (trim reason) iid d)))"

definition forceCancel ::
  "env \<Rightarrow> auth_ctx \<Rightarrow> id \<Rightarrow> string \<Rightarrow> nat \<Rightarrow> db \<Rightarrow> (mutation_result \<times> db) result" where
  "forceCancel e c iid reason expected d =
     bindR (requireMember c) (\<lambda>c.
     bindR (assertCan e c Act_manage Sub_Floor ''Only managers can force-cancel tickets.'') (\<lambda>_.
       case find_item c iid d of
         None \<Rightarrow> Inl (NotFound ''Order item not found.'')
       | Some i \<Rightarrow>
           bindR (assertVersion (oi_version i) expected) (\<lambda>_.
             if oi_state i \<in> set [CANCELLED, SERVED] \<or> oi_cancelledAt i \<noteq> None
             then Inl (Unprocessable ''ORDER_ITEM_NOT_CANCELLABLE'')
             else applyCancel e c (trim reason) iid d)))"

definition approval_notice :: "auth_ctx \<Rightarrow> id \<Rightarrow> effect" where
  "approval_notice c rid = Notify \<lparr>nt_type = ''approval.requested'', nt_recipient = None,
     nt_rooms = [Manager_room (branch_of c)], nt_entity = rid\<rparr>"

definition decided_notice :: "id \<Rightarrow> id \<Rightarrow> effect" where
  "decided_notice recipient rid = Notify \<lparr>nt_type = ''approval.decided'', nt_recipient = Some recipient,
     nt_rooms = [Staff_room recipient], nt_entity = rid\<rparr>"

definition requestCancellation ::
  "env \<Rightarrow> auth_ctx \<Rightarrow> id \<Rightarrow> string \<Rightarrow> nat \<Rightarrow> db \<Rightarrow> (mutation_result \<times> db) result" where
  "requestCancellation e c iid reason expected d =
     bindR (requireItemWaiter e c) (\<lambda>c.
     bindR (loadOwnedItem c iid d) (\<lambda>i.
     bindR (assertVersion (oi_version i) expected) (\<lambda>_.
       if oi_state i \<in> set direct_cancel_states then directCancel e c iid reason expected d
       else if oi_state i \<notin> set protected_states then Inl (Unprocessable ''ORDER_ITEM_NOT_CANCELLABLE'')
       else if find (\<lambda>r. cr_orderItemId r = iid \<and> cr_status r = A_PENDING) (cancellation_requests d) \<noteq> None
         then Inl (Conflict ''CANCELLATION_ALREADY_PENDING'')
       else
         let rid = next_id d;
             d1 = d\<lparr>cancellation_requests := cancellation_requests d @
                  [\<lparr>cr_id = rid, cr_branchId = branch_of c, cr_orderItemId = iid,
                    cr_requestedBy = staff_of c, cr_reason = trim reason,
                    cr_stateAtRequest = oi_state i, cr_status = A_PENDING, cr_requestedAt = env_now e,
                    cr_decidedBy = None,
                    cr_decidedAt = None, cr_decisionReason = None\<rparr>],
                  next_id := rid + 1\<rparr>;
             d2 = set_item iid (oi_state_update (\<lambda>_. CANCELLATION_REQUESTED)) d1
         in bindR (read_item iid d2) (\<lambda>u.
            bindR (commit d2) (\<lambda>d3.
              Inr (mutation_of u (Some rid) (Some A_PENDING) None, emit (approval_notice c rid) d3))))))"

section \<open>Changing\<close>

text \<open>The new dish of a change, with the price it has at the item's table.\<close>

definition changeMenuItem :: "auth_ctx \<Rightarrow> id \<Rightarrow> db \<Rightarrow> (menu_item \<times> station) result" where
  "changeMenuItem c m d =
     (case find (\<lambda>x. mi_id x = m \<and> mi_status x = ''ACTIVE'' \<and> mi_menuTenantId x = tenant_of c \<and>
             mi_menuStatus x = ''ACTIVE'' \<and> (mi_menuBranchId x = ax_branchId c \<or> mi_menuBranchId x = None))
           (menu_items d) of
        None \<Rightarrow> Inl (Unprocessable ''MENU_ITEM_UNAVAILABLE'')
      | Some x \<Rightarrow> (case station_of_item x d of
            None \<Rightarrow> Inl (Unprocessable ''MENU_ITEM_UNAVAILABLE'')
          | Some s \<Rightarrow>
              if sn_status s \<noteq> ''ACTIVE'' then Inl (Unprocessable ''MENU_ITEM_UNAVAILABLE'')
              else if mi_soldOut x then Inl (Unprocessable ''MENU_ITEM_SOLD_OUT'')
              else Inr (x, s)))"

definition itemSeatingVip :: "order_item \<Rightarrow> db \<Rightarrow> bool" where
  "itemSeatingVip i d = seatingVip (Option.bind (oi_tableSessionId i) (\<lambda>t. row_by ts_id t (table_sessions d))) d"

definition menu_patch ::
  "auth_ctx \<Rightarrow> time \<Rightarrow> bool \<Rightarrow> db \<Rightarrow> menu_item \<Rightarrow> station \<Rightarrow> order_item \<Rightarrow> order_item" where
  "menu_patch c now vip d m s x =
     x\<lparr>oi_menuItemId := Some (mi_id m), oi_itemName := mi_name m,
       oi_unitPrice := dp2 (resolveVipUnitPrice (mi_currentPrice m) vip (mi_vipPercent m) (defaultVip (tenant_of c) d)),
       oi_originalStation := sn_id s, oi_currentStation := sn_id s, oi_stationName := sn_name s,
       oi_prepMinutes := Some ((case mi_expectedPrepMinutes m of Some p \<Rightarrow> p | None \<Rightarrow> 15) + rushBuffer (branch_of c) d),
       oi_state := QUEUED, oi_queuedAt := Some now, oi_acknowledgedAt := None,
       oi_preparationStartedAt := None, oi_readyAt := None, oi_unackAlertAt := None,
       oi_delayAlertAt := None, oi_modifiers := []\<rparr>"

definition instruction_patch :: "requested_change \<Rightarrow> order_item \<Rightarrow> order_item" where
  "instruction_patch ch x = (case rc_instruction ch of
      None \<Rightarrow> x | Some t \<Rightarrow> x\<lparr>oi_instruction := trim_or_null t\<rparr>)"

definition applyChange ::
  "env \<Rightarrow> auth_ctx \<Rightarrow> order_item \<Rightarrow> requested_change \<Rightarrow> string option \<Rightarrow> bool \<Rightarrow> db \<Rightarrow> (mutation_result \<times> db) result" where
  "applyChange e c i ch reason createApplied d =
     bindR (case rc_menuItemId ch of
         None \<Rightarrow> Inr (oi_state_update (\<lambda>_. if oi_state i \<in> set direct_change_states then oi_state i else QUEUED))
       | Some m \<Rightarrow> bindR (changeMenuItem c m d) (\<lambda>(x, s).
           Inr (menu_patch c (env_now e) (itemSeatingVip i d) d x s))) (\<lambda>patch.
       let d1 = (if createApplied
             then d\<lparr>change_requests := change_requests d @
                  [\<lparr>ch_id = next_id d, ch_branchId = branch_of c, ch_orderItemId = oi_id i,
                    ch_requestedBy = staff_of c, ch_reason = reason, ch_change = ch,
                    ch_stateAtRequest = oi_state i, ch_status = A_APPLIED, ch_requestedAt = env_now e,
                    ch_decidedBy = ax_staffMembershipId c, ch_decidedAt = Some (env_now e),
                    ch_decisionReason = Some ''Applied while still pre-preparation''\<rparr>],
                  next_id := next_id d + 1\<rparr>
             else d);
           d2 = set_item (oi_id i) (\<lambda>x. instruction_patch ch (patch x)) d1
       in bindR (read_item (oi_id i) d2) (\<lambda>u.
          bindR (commit d2) (\<lambda>d3. Inr (mutation_of u None None (Some True), d3))))"

definition requestChange ::
  "env \<Rightarrow> auth_ctx \<Rightarrow> id \<Rightarrow> requested_change \<Rightarrow> string option \<Rightarrow> nat \<Rightarrow> db \<Rightarrow> (mutation_result \<times> db) result" where
  "requestChange e c iid ch reason expected d =
     bindR (requireItemWaiter e c) (\<lambda>c.
     bindR (loadOwnedItem c iid d) (\<lambda>i.
     bindR (assertVersion (oi_version i) expected) (\<lambda>_.
       if rc_menuItemId ch = None \<and> rc_instruction ch = None then Inl (Unprocessable ''requestedChange empty'')
       else if oi_state i \<in> set direct_change_states
         then applyChange e c i ch (trim_or_null reason) True d
       else if oi_state i \<notin> set protected_states then Inl (Unprocessable ''ORDER_ITEM_NOT_CHANGEABLE'')
       else if find (\<lambda>r. ch_orderItemId r = iid \<and> ch_status r = A_PENDING) (change_requests d) \<noteq> None
         then Inl (Conflict ''CHANGE_ALREADY_PENDING'')
       else
         let rid = next_id d;
             d1 = d\<lparr>change_requests := change_requests d @
                  [\<lparr>ch_id = rid, ch_branchId = branch_of c, ch_orderItemId = iid,
                    ch_requestedBy = staff_of c, ch_reason = trim_or_null reason, ch_change = ch,
                    ch_stateAtRequest = oi_state i, ch_status = A_PENDING, ch_requestedAt = env_now e,
                    ch_decidedBy = None,
                    ch_decidedAt = None, ch_decisionReason = None\<rparr>],
                  next_id := rid + 1\<rparr>;
             d2 = set_item iid (oi_state_update (\<lambda>_. CHANGE_REQUESTED)) d1
         in bindR (read_item iid d2) (\<lambda>u.
            bindR (commit d2) (\<lambda>d3.
              Inr (mutation_of u (Some rid) (Some A_PENDING) (Some False), emit (approval_notice c rid) d3))))))"

section \<open>Deciding\<close>

definition decide_cancellation_row ::
  "auth_ctx \<Rightarrow> time \<Rightarrow> string option \<Rightarrow> bool \<Rightarrow> cancellation_request \<Rightarrow> cancellation_request" where
  "decide_cancellation_row c now why approve r =
     r\<lparr>cr_status := (if approve then A_APPROVED else A_REJECTED), cr_decidedBy := ax_staffMembershipId c,
       cr_decidedAt := Some now, cr_decisionReason := trim_or_null why\<rparr>"

definition decideCancellation ::
  "env \<Rightarrow> auth_ctx \<Rightarrow> id \<Rightarrow> string option \<Rightarrow> nat \<Rightarrow> bool \<Rightarrow> db \<Rightarrow> (mutation_result \<times> db) result" where
  "decideCancellation e c rid why expected approve d =
     bindR (requireApprover e c) (\<lambda>c.
       case find (\<lambda>r. cr_id r = rid \<and> cr_branchId r = branch_of c) (cancellation_requests d) of
         None \<Rightarrow> Inl (NotFound ''Cancellation request not found.'')
       | Some r \<Rightarrow>
           bindR (read_item (cr_orderItemId r) d) (\<lambda>i.
             if cr_status r \<noteq> A_PENDING then Inl (Unprocessable ''CANCELLATION_NOT_PENDING'')
             else bindR (assertVersion (oi_version i) expected) (\<lambda>_.
               let d1 = d\<lparr>cancellation_requests := update_id cr_id rid
                     (decide_cancellation_row c (env_now e) why approve) (cancellation_requests d)\<rparr>
               in bindR (if approve then cancelSteps c (env_now e) (cr_reason r) (cr_orderItemId r) d1
                         else let d2 = set_item (cr_orderItemId r) (oi_state_update (\<lambda>_. cr_stateAtRequest r)) d1
                              in bindR (read_item (cr_orderItemId r) d2) (\<lambda>u. Inr (u, d2))) (\<lambda>(u, d2).
                  bindR (commit d2) (\<lambda>d3.
                    Inr (mutation_of u (Some rid) (Some (if approve then A_APPROVED else A_REJECTED)) None,
                         emit (decided_notice (cr_requestedBy r) rid) d3))))))"

definition decide_change_row ::
  "auth_ctx \<Rightarrow> time \<Rightarrow> string option \<Rightarrow> approval_status \<Rightarrow> change_request \<Rightarrow> change_request" where
  "decide_change_row c now why st r =
     r\<lparr>ch_status := st, ch_decidedBy := ax_staffMembershipId c,
       ch_decidedAt := Some now, ch_decisionReason := trim_or_null why\<rparr>"

definition decideChange ::
  "env \<Rightarrow> auth_ctx \<Rightarrow> id \<Rightarrow> string option \<Rightarrow> nat \<Rightarrow> bool \<Rightarrow> db \<Rightarrow> (mutation_result \<times> db) result" where
  "decideChange e c rid why expected approve d =
     bindR (requireApprover e c) (\<lambda>c.
       case find (\<lambda>r. ch_id r = rid \<and> ch_branchId r = branch_of c) (change_requests d) of
         None \<Rightarrow> Inl (NotFound ''Change request not found.'')
       | Some r \<Rightarrow>
           bindR (read_item (ch_orderItemId r) d) (\<lambda>i.
             if ch_status r \<noteq> A_PENDING then Inl (Unprocessable ''CHANGE_NOT_PENDING'')
             else bindR (assertVersion (oi_version i) expected) (\<lambda>_.
               let mark = (\<lambda>st d. d\<lparr>change_requests := update_id ch_id rid
                     (decide_change_row c (env_now e) why st) (change_requests d)\<rparr>)
               in if \<not> approve then
                    let d2 = set_item (ch_orderItemId r) (oi_state_update (\<lambda>_. ch_stateAtRequest r)) (mark A_REJECTED d)
                    in bindR (read_item (ch_orderItemId r) d2) (\<lambda>u.
                       bindR (commit d2) (\<lambda>d3.
                         Inr (mutation_of u (Some rid) (Some A_REJECTED) (Some False),
                              emit (decided_notice (ch_requestedBy r) rid) d3)))
                  else bindR (applyChange e c i (ch_change r) (ch_reason r) False d) (\<lambda>(m, d1).
                       bindR (commit (mark A_APPLIED d1)) (\<lambda>d2.
                         Inr (m\<lparr>mx_requestId := Some rid, mx_status := Some A_APPLIED\<rparr>,
                              emit (decided_notice (ch_requestedBy r) rid) d2))))))"

section \<open>The manager's queue\<close>

datatype approval_type = Ap_cancellation | Ap_change

record approval_view =
  av_type :: approval_type
  av_requestId :: id
  av_orderItemId :: id
  av_orderId :: id
  av_itemName :: string
  av_quantity :: nat
  av_unitPrice :: decimal
  av_lineTotal :: decimal
  av_stationId :: id
  av_itemState :: item_state
  av_stateAtRequest :: item_state
  av_itemVersion :: nat
  av_status :: approval_status
  av_requestedAt :: time
  av_decidedAt :: "time option"

definition approval_view_of ::
  "approval_type \<Rightarrow> id \<Rightarrow> item_state \<Rightarrow> approval_status \<Rightarrow> time \<Rightarrow> time option \<Rightarrow> order_item \<Rightarrow> approval_view" where
  "approval_view_of ty rid st status requestedAt decidedAt i =
     \<lparr>av_type = ty, av_requestId = rid, av_orderItemId = oi_id i, av_orderId = oi_orderId i,
      av_itemName = oi_itemName i, av_quantity = oi_quantity i, av_unitPrice = money (oi_unitPrice i),
      av_lineTotal = money (oi_unitPrice i * of_nat (oi_quantity i)),
      av_stationId = oi_currentStation i, av_itemState = oi_state i, av_stateAtRequest = st,
      av_itemVersion = oi_version i, av_status = status, av_requestedAt = requestedAt,
      av_decidedAt = decidedAt\<rparr>"

definition mapCancellationApproval :: "db \<Rightarrow> cancellation_request \<Rightarrow> approval_view result" where
  "mapCancellationApproval d r = bindR (read_item (cr_orderItemId r) d) (\<lambda>i.
     Inr (approval_view_of Ap_cancellation (cr_id r) (cr_stateAtRequest r) (cr_status r) (cr_requestedAt r) (cr_decidedAt r) i))"

definition mapChangeApproval :: "db \<Rightarrow> change_request \<Rightarrow> approval_view result" where
  "mapChangeApproval d r = bindR (read_item (ch_orderItemId r) d) (\<lambda>i.
     Inr (approval_view_of Ap_change (ch_id r) (ch_stateAtRequest r) (ch_status r) (ch_requestedAt r) (ch_decidedAt r) i))"

definition listApprovals :: "env \<Rightarrow> auth_ctx \<Rightarrow> db \<Rightarrow> approval_view list result" where
  "listApprovals e c d =
     bindR (requireApprover e c) (\<lambda>c.
     bindR (mapR (mapCancellationApproval d) (take 50 (sort_key cr_requestedAt
       (filter (\<lambda>r. cr_branchId r = branch_of c \<and> cr_status r = A_PENDING) (cancellation_requests d))))) (\<lambda>cs.
     bindR (mapR (mapChangeApproval d) (take 50 (sort_key ch_requestedAt
       (filter (\<lambda>r. ch_branchId r = branch_of c \<and> ch_status r = A_PENDING) (change_requests d))))) (\<lambda>hs.
       Inr (sort_key av_requestedAt (cs @ hs)))))"

definition parseApprovalType :: "string \<Rightarrow> approval_type result" where
  "parseApprovalType raw =
     (let n = to_upper (trim raw)
      in if n = ''CANCELLATION'' \<or> n = ''CANCEL'' then Inr Ap_cancellation
         else if n = ''CHANGE'' \<or> n = ''CHANGES'' then Inr Ap_change
         else Inl (NotFound ''Approval request not found.''))"

definition getApprovalDetail :: "env \<Rightarrow> auth_ctx \<Rightarrow> string \<Rightarrow> id \<Rightarrow> db \<Rightarrow> approval_view result" where
  "getApprovalDetail e c raw rid d =
     bindR (requireApprover e c) (\<lambda>c.
     bindR (parseApprovalType raw) (\<lambda>ty.
       case ty of
         Ap_cancellation \<Rightarrow>
           (case find (\<lambda>r. cr_id r = rid \<and> cr_branchId r = branch_of c) (cancellation_requests d) of
              None \<Rightarrow> Inl (NotFound ''Approval request not found.'')
            | Some r \<Rightarrow> mapCancellationApproval d r)
       | Ap_change \<Rightarrow>
           (case find (\<lambda>r. ch_id r = rid \<and> ch_branchId r = branch_of c) (change_requests d) of
              None \<Rightarrow> Inl (NotFound ''Approval request not found.'')
            | Some r \<Rightarrow> mapChangeApproval d r)))"

section \<open>What the operations do to the items\<close>

lemma row_by_set_item:
  "(\<And>x. oi_id (f x) = oi_id x) \<Longrightarrow> row_by oi_id j (order_items (set_item i f d)) =
     (if j = i then map_option (\<lambda>x. (f x)\<lparr>oi_version := oi_version x + 1\<rparr>) (row_by oi_id j (order_items d))
      else row_by oi_id j (order_items d))"
  by (simp add: set_item_def row_by_update_id)

lemma set_item_frame [frame, simp]:
  "cancellation_requests (set_item i f d) = cancellation_requests d"
  "change_requests (set_item i f d) = change_requests d" "orders (set_item i f d) = orders d"
  "stock (set_item i f d) = stock d" "stock_ledger (set_item i f d) = stock_ledger d"
  "locations (set_item i f d) = locations d" "table_sessions (set_item i f d) = table_sessions d"
  "room_sessions (set_item i f d) = room_sessions d" "bills (set_item i f d) = bills d"
  "payments (set_item i f d) = payments d" "idempotency (set_item i f d) = idempotency d"
  "next_id (set_item i f d) = next_id d" "effects (set_item i f d) = effects d"
  "overrides (set_item i f d) = overrides d" "menu_items (set_item i f d) = menu_items d"
  by (simp_all add: set_item_def)

lemma read_item_eq_Inr [inversion]: "read_item i d = Inr x \<longleftrightarrow> row_by oi_id i (order_items d) = Some x"
  by (auto simp: read_item_def split: option.splits)

lemma clearActiveOrder_frame [frame, simp]:
  "order_items (clearActiveOrder ts d) = order_items d"
  "cancellation_requests (clearActiveOrder ts d) = cancellation_requests d"
  "change_requests (clearActiveOrder ts d) = change_requests d"
  "stock (clearActiveOrder ts d) = stock d" "stock_ledger (clearActiveOrder ts d) = stock_ledger d"
  "bills (clearActiveOrder ts d) = bills d" "payments (clearActiveOrder ts d) = payments d"
  "orders (clearActiveOrder ts d) = orders d" "effects (clearActiveOrder ts d) = effects d"
  "idempotency (clearActiveOrder ts d) = idempotency d"
  by (simp_all add: clearActiveOrder_def split: option.splits)

lemma cancelled_row_id [simp]: "oi_id (cancelled_row c now reason x) = oi_id x"
  by (simp add: cancelled_row_def)

lemma menu_patch_id [simp]: "oi_id (menu_patch c now v d m s x) = oi_id x"
  by (simp add: menu_patch_def)

lemma instruction_patch_fields [simp]:
  "oi_id (instruction_patch ch x) = oi_id x" "oi_state (instruction_patch ch x) = oi_state x"
  "oi_cancelledAt (instruction_patch ch x) = oi_cancelledAt x"
  "oi_version (instruction_patch ch x) = oi_version x"
  by (simp_all add: instruction_patch_def split: option.splits)

text \<open>
  Every operation of this service, when it succeeds, rewrites one row: \<open>item_write\<close> names the
  item, what it was and what it became.
\<close>

definition item_write :: "id \<Rightarrow> (order_item \<Rightarrow> order_item) \<Rightarrow> db \<Rightarrow> db \<Rightarrow> bool" where
  "item_write iid f d d' \<longleftrightarrow>
     (\<forall>x. oi_id (f x) = oi_id x) \<and> row_by oi_id iid (order_items d) \<noteq> None \<and>
     order_items d' = order_items (set_item iid f d)"

lemma item_write_row:
  "item_write iid f d d' \<Longrightarrow> row_by oi_id j (order_items d') =
     (if j = iid then map_option (\<lambda>x. (f x)\<lparr>oi_version := oi_version x + 1\<rparr>) (row_by oi_id j (order_items d))
      else row_by oi_id j (order_items d))"
  by (simp add: item_write_def row_by_set_item)

lemma item_write_cong:
  "item_write iid f d d' \<Longrightarrow> order_items d'' = order_items d' \<Longrightarrow> item_write iid f d d''"
  by (simp add: item_write_def)

lemma cancelSteps_effect:
  assumes "cancelSteps c now reason iid d = Inr (u, d')"
  obtains i d2 where "row_by oi_id iid (order_items d) = Some i"
    and "u = (cancelled_row c now reason i)\<lparr>oi_version := oi_version i + 1\<rparr>"
    and "reverseForOrderItem (oi_id i) (oi_tenantId i) (oi_branchId i)
           (set_item iid (cancelled_row c now reason) d) = Inr d2"
    and "stock_only (set_item iid (cancelled_row c now reason) d) d2"
    and "d' = clearActiveOrder (oi_tableSessionId i) d2"
    and "item_write iid (cancelled_row c now reason) d d'"
proof -
  let ?d1 = "set_item iid (cancelled_row c now reason) d"
  from assms obtain d2 where r: "row_by oi_id iid (order_items ?d1) = Some u"
    and rev: "reverseForOrderItem (oi_id u) (oi_tenantId u) (oi_branchId u) ?d1 = Inr d2"
    and d': "d' = clearActiveOrder (oi_tableSessionId u) d2"
    by (auto simp: cancelSteps_def Let_def inversion)
  from r obtain i where i: "row_by oi_id iid (order_items d) = Some i"
    and u: "u = (cancelled_row c now reason i)\<lparr>oi_version := oi_version i + 1\<rparr>"
    by (auto simp: row_by_set_item)
  note so = reverse_stock_only [OF rev]
  have "item_write iid (cancelled_row c now reason) d d'"
    using i stock_only_frame(1) [OF so] by (simp add: item_write_def d')
  with i u rev so d' show thesis by (intro that) (auto simp: cancelled_row_def)
qed

lemma applyCancel_effect:
  assumes "applyCancel e c reason iid d = Inr (m, d')"
  obtains u where "cancelSteps c (env_now e) reason iid d = Inr (u, d')"
    and "m = mutation_of u None None None" and "db_ok d'"
  using assms by (auto simp: applyCancel_def inversion intro: that)

lemma find_item_row:
  "find_item c iid d = Some i \<Longrightarrow> primary_key oi_id (order_items d) \<Longrightarrow>
     row_by oi_id iid (order_items d) = Some i \<and> oi_branchId i = branch_of c"
  unfolding find_item_def
  using find_row_by [of oi_id iid "\<lambda>i. oi_branchId i = branch_of c" "order_items d" i]
    find_Some_in [of "\<lambda>i. oi_id i = iid \<and> oi_branchId i = branch_of c" "order_items d" i]
  by (simp add: keyed_def)

lemma directCancel_effect:
  assumes "directCancel e c iid reason n d = Inr (m, d')" and "primary_key oi_id (order_items d)"
  obtains i u where "row_by oi_id iid (order_items d) = Some i" and "oi_version i = n"
    and "oi_state i \<in> set direct_cancel_states"
    and "cancelSteps c (env_now e) (trim reason) iid d = Inr (u, d')"
    and "m = mutation_of u None None None" and "db_ok d'" and "requireItemWaiter e c = Inr c"
    and "ax_roleCode c \<in> set shift_owner_roles \<longrightarrow> item_owner i d = ax_staffMembershipId c"
  using assms find_item_row [of c iid d]
  by (auto simp: directCancel_def inversion elim!: applyCancel_effect intro: that)

lemma forceCancel_effect:
  assumes "forceCancel e c iid reason n d = Inr (m, d')" and "primary_key oi_id (order_items d)"
  obtains i u where "row_by oi_id iid (order_items d) = Some i" and "oi_version i = n"
    and "oi_state i \<noteq> CANCELLED" and "oi_state i \<noteq> SERVED" and "oi_cancelledAt i = None"
    and "cancelSteps c (env_now e) (trim reason) iid d = Inr (u, d')"
    and "m = mutation_of u None None None" and "db_ok d'"
  using assms find_item_row [of c iid d]
  by (auto simp: forceCancel_def inversion split: option.splits if_splits elim!: applyCancel_effect intro: that)

lemma requestCancellation_effect:
  assumes "requestCancellation e c iid reason n d = Inr (m, d')" and "primary_key oi_id (order_items d)"
  obtains (direct) "directCancel e c iid reason n d = Inr (m, d')"
  | (asked) i where "row_by oi_id iid (order_items d) = Some i" and "oi_version i = n"
    and "oi_state i \<in> set protected_states"
    and "item_write iid (oi_state_update (\<lambda>_. CANCELLATION_REQUESTED)) d d'"
    and "cancellation_requests d' = cancellation_requests d @
           [\<lparr>cr_id = next_id d, cr_branchId = branch_of c, cr_orderItemId = iid,
             cr_requestedBy = staff_of c, cr_reason = trim reason, cr_stateAtRequest = oi_state i,
             cr_status = A_PENDING, cr_requestedAt = env_now e, cr_decidedBy = None,
             cr_decidedAt = None, cr_decisionReason = None\<rparr>]"
    and "mx_requestId m = Some (next_id d)" and "mx_version m = n + 1"
    and "stock d' = stock d \<and> stock_ledger d' = stock_ledger d \<and> change_requests d' = change_requests d"
    and "db_ok d'" and "find (\<lambda>r. cr_orderItemId r = iid \<and> cr_status r = A_PENDING) (cancellation_requests d) = None"
proof -
  from assms(1) obtain i where f: "find_item c iid d = Some i" and v: "oi_version i = n"
    by (auto simp: requestCancellation_def inversion)
  from find_item_row [OF f assms(2)] have row: "row_by oi_id iid (order_items d) = Some i" by simp
  show thesis
  proof (cases "oi_state i \<in> set direct_cancel_states")
    case True
    with assms(1) f v have "directCancel e c iid reason n d = Inr (m, d')"
      by (auto simp: requestCancellation_def inversion)
    then show thesis by (rule direct)
  next
    case False
    show thesis
      using assms(1) f v False row
      by (intro asked [of i])
        (auto simp: requestCancellation_def inversion Let_def row_by_update_id item_write_def
          mutation_of_def set_item_def split: if_splits)
  qed
qed

text \<open>Deciding a cancellation, and asking for or applying a change.\<close>

lemma decideCancellation_effect:
  assumes "decideCancellation e c rid why n approve d = Inr (m, d')"
  obtains r i where "find (\<lambda>r. cr_id r = rid \<and> cr_branchId r = branch_of c) (cancellation_requests d) = Some r"
    and "cr_status r = A_PENDING" and "row_by oi_id (cr_orderItemId r) (order_items d) = Some i"
    and "oi_version i = n" and "db_ok d'"
    and "cancellation_requests d' = update_id cr_id rid (decide_cancellation_row c (env_now e) why approve) (cancellation_requests d)"
    and "change_requests d' = change_requests d"
    and "item_write (cr_orderItemId r) (if approve then cancelled_row c (env_now e) (cr_reason r)
           else oi_state_update (\<lambda>_. cr_stateAtRequest r)) d d'"
    and "mx_state m = (if approve then CANCELLED else cr_stateAtRequest r)" and "mx_version m = n + 1"
    and "\<not> approve \<longrightarrow> stock d' = stock d \<and> stock_ledger d' = stock_ledger d \<and> table_sessions d' = table_sessions d"
proof -
  let ?mark = "\<lambda>d. d\<lparr>cancellation_requests := update_id cr_id rid
     (decide_cancellation_row c (env_now e) why approve) (cancellation_requests d)\<rparr>"
  from assms obtain r i where r: "find (\<lambda>r. cr_id r = rid \<and> cr_branchId r = branch_of c) (cancellation_requests d) = Some r"
    and p: "cr_status r = A_PENDING" and i: "row_by oi_id (cr_orderItemId r) (order_items d) = Some i"
    and v: "oi_version i = n"
    by (auto simp: decideCancellation_def inversion split: option.splits if_splits)
  show thesis
  proof (cases approve)
    case False
    with assms r i show thesis
      by (intro that [OF r p i v])
        (auto simp: decideCancellation_def inversion Let_def row_by_update_id item_write_def
          mutation_of_def set_item_def split: if_splits)
  next
    case True
    with assms r i obtain u d2 where cs: "cancelSteps c (env_now e) (cr_reason r) (cr_orderItemId r) (?mark d) = Inr (u, d2)"
      and ok: "db_ok d2" and m: "m = mutation_of u (Some rid) (Some A_APPROVED) None"
      and d': "d' = emit (decided_notice (cr_requestedBy r) rid) d2"
      by (auto simp: decideCancellation_def inversion Let_def split: if_splits)
    from cs show thesis
    proof (rule cancelSteps_effect)
      fix j d3
      assume j: "row_by oi_id (cr_orderItemId r) (order_items (?mark d)) = Some j"
        and u: "u = (cancelled_row c (env_now e) (cr_reason r) j)\<lparr>oi_version := oi_version j + 1\<rparr>"
        and so: "stock_only (set_item (cr_orderItemId r) (cancelled_row c (env_now e) (cr_reason r)) (?mark d)) d3"
        and d2: "d2 = clearActiveOrder (oi_tableSessionId j) d3"
        and w: "item_write (cr_orderItemId r) (cancelled_row c (env_now e) (cr_reason r)) (?mark d) d2"
      from i j have ji: "j = i" by simp
      show thesis
        using True ji u w v i stock_only_frame(12,13) [OF so]
        by (intro that [OF r p i v])
          (simp_all add: d' d2 ok [unfolded d2 ji] m mutation_of_def cancelled_row_def item_write_def set_item_def)
    qed
  qed
qed

definition change_row :: "id \<Rightarrow> auth_ctx \<Rightarrow> time \<Rightarrow> string option \<Rightarrow> requested_change \<Rightarrow> order_item \<Rightarrow> change_request" where
  "change_row rid c now reason ch i =
     \<lparr>ch_id = rid, ch_branchId = branch_of c, ch_orderItemId = oi_id i, ch_requestedBy = staff_of c,
      ch_reason = reason, ch_change = ch, ch_stateAtRequest = oi_state i, ch_status = A_PENDING,
      ch_requestedAt = now, ch_decidedBy = None, ch_decidedAt = None, ch_decisionReason = None\<rparr>"

lemma applyChange_effect:
  assumes "applyChange e c i ch reason created d = Inr (m, d')"
  obtains f where "item_write (oi_id i) f d d'"
    and "\<And>x. oi_state (f x) = (if rc_menuItemId ch = None \<and> oi_state i \<in> set direct_change_states
           then oi_state i else QUEUED)"
    and "\<And>x. oi_cancelledAt (f x) = oi_cancelledAt x"
    and "db_ok d'" and "cancellation_requests d' = cancellation_requests d"
    and "\<not> created \<Longrightarrow> change_requests d' = change_requests d"
    and "\<exists>new. change_requests d' = change_requests d @ new \<and> (\<forall>r \<in> set new. ch_status r = A_APPLIED)"
    and "stock d' = stock d" and "stock_ledger d' = stock_ledger d" and "table_sessions d' = table_sessions d"
proof -
  obtain patch where p: "\<And>x. oi_id (patch x) = oi_id x"
      "\<And>x. oi_state (patch x) = (if rc_menuItemId ch = None \<and> oi_state i \<in> set direct_change_states
           then oi_state i else QUEUED)" "\<And>x. oi_cancelledAt (patch x) = oi_cancelledAt x"
    and ex: "(case rc_menuItemId ch of
         None \<Rightarrow> Inr (oi_state_update (\<lambda>_. if oi_state i \<in> set direct_change_states then oi_state i else QUEUED))
       | Some m \<Rightarrow> bindR (changeMenuItem c m d) (\<lambda>(x, s).
           Inr (menu_patch c (env_now e) (itemSeatingVip i d) d x s))) = (Inr patch :: (order_item \<Rightarrow> order_item) result)"
  proof (cases "rc_menuItemId ch")
    case None
    then show ?thesis
      by (intro that [of "oi_state_update (\<lambda>_. if oi_state i \<in> set direct_change_states then oi_state i else QUEUED)"]) simp_all
  next
    case (Some mid)
    with assms obtain x s where "changeMenuItem c mid d = Inr (x, s)" by (auto simp: applyChange_def)
    with Some show ?thesis
      by (intro that [of "menu_patch c (env_now e) (itemSeatingVip i d) d x s"]) (simp_all add: menu_patch_def)
  qed
  let ?f = "\<lambda>x. instruction_patch ch (patch x)"
  let ?d1 = "if created
             then d\<lparr>change_requests := change_requests d @
                  [\<lparr>ch_id = next_id d, ch_branchId = branch_of c, ch_orderItemId = oi_id i,
                    ch_requestedBy = staff_of c, ch_reason = reason, ch_change = ch,
                    ch_stateAtRequest = oi_state i, ch_status = A_APPLIED, ch_requestedAt = env_now e,
                    ch_decidedBy = ax_staffMembershipId c, ch_decidedAt = Some (env_now e),
                    ch_decisionReason = Some ''Applied while still pre-preparation''\<rparr>],
                  next_id := next_id d + 1\<rparr>
             else d"
  from assms have "(\<exists>u. row_by oi_id (oi_id i) (order_items (set_item (oi_id i) ?f ?d1)) = Some u) \<and>
      d' = set_item (oi_id i) ?f ?d1 \<and> db_ok d'"
    unfolding applyChange_def ex by (auto simp: Let_def inversion)
  then have row: "row_by oi_id (oi_id i) (order_items (set_item (oi_id i) ?f ?d1)) \<noteq> None"
    and d': "d' = set_item (oi_id i) ?f ?d1" and ok: "db_ok d'" by auto
  have same: "order_items ?d1 = order_items d" by simp
  have w: "item_write (oi_id i) ?f d d'"
    using row p same unfolding item_write_def d' set_item_def by (auto simp: row_by_update_id)
  show thesis
    using p ok by (intro that [OF w]) (auto simp: d')
qed

lemma requestChange_effect:
  assumes "requestChange e c iid ch reason n d = Inr (m, d')" and "primary_key oi_id (order_items d)"
  obtains i where "row_by oi_id iid (order_items d) = Some i" and "oi_version i = n"
    and "oi_state i \<in> set direct_change_states"
    and "applyChange e c i ch (trim_or_null reason) True d = Inr (m, d')"
  | i where "row_by oi_id iid (order_items d) = Some i" and "oi_version i = n"
    and "oi_state i \<in> set protected_states"
    and "item_write iid (oi_state_update (\<lambda>_. CHANGE_REQUESTED)) d d'"
    and "change_requests d' = change_requests d @ [change_row (next_id d) c (env_now e) (trim_or_null reason) ch i]"
    and "cancellation_requests d' = cancellation_requests d" and "db_ok d'"
    and "mx_requestId m = Some (next_id d)" and "mx_version m = n + 1"
    and "stock d' = stock d" and "stock_ledger d' = stock_ledger d"
proof -
  from assms(1) obtain i where f: "find_item c iid d = Some i" and v: "oi_version i = n"
    by (auto simp: requestChange_def inversion)
  from find_item_row [OF f assms(2)] have row: "row_by oi_id iid (order_items d) = Some i" by simp
  then have iid: "oi_id i = iid" by (auto dest: row_by_SomeD)
  show thesis
  proof (cases "oi_state i \<in> set direct_change_states")
    case True
    with assms(1) f v have "applyChange e c i ch (trim_or_null reason) True d = Inr (m, d')"
      by (auto simp: requestChange_def inversion)
    with True row v show thesis by (intro that(1))
  next
    case False
    show thesis
      using assms(1) f v False row iid
      by (intro that(2) [of i])
        (auto simp: requestChange_def inversion Let_def row_by_update_id item_write_def change_row_def
          mutation_of_def set_item_def split: if_splits)
  qed
qed

lemma decideChange_effect:
  assumes "decideChange e c rid why n approve d = Inr (m, d')"
  obtains r i f where "find (\<lambda>r. ch_id r = rid \<and> ch_branchId r = branch_of c) (change_requests d) = Some r"
    and "ch_status r = A_PENDING" and "row_by oi_id (ch_orderItemId r) (order_items d) = Some i"
    and "oi_version i = n" and "db_ok d'"
    and "change_requests d' = update_id ch_id rid
           (decide_change_row c (env_now e) why (if approve then A_APPLIED else A_REJECTED)) (change_requests d)"
    and "cancellation_requests d' = cancellation_requests d"
    and "item_write (ch_orderItemId r) f d d'"
    and "\<And>x. oi_state (f x) = (if \<not> approve then ch_stateAtRequest r
           else if rc_menuItemId (ch_change r) = None \<and> oi_state i \<in> set direct_change_states
           then oi_state i else QUEUED)"
    and "\<And>x. oi_cancelledAt (f x) = oi_cancelledAt x"
    and "\<not> approve \<Longrightarrow> f = oi_state_update (\<lambda>_. ch_stateAtRequest r)"
    and "stock d' = stock d" and "stock_ledger d' = stock_ledger d"
proof -
  from assms obtain r i where r: "find (\<lambda>r. ch_id r = rid \<and> ch_branchId r = branch_of c) (change_requests d) = Some r"
    and p: "ch_status r = A_PENDING" and i: "row_by oi_id (ch_orderItemId r) (order_items d) = Some i"
    and v: "oi_version i = n"
    by (auto simp: decideChange_def inversion split: option.splits if_splits)
  from i have iid: "oi_id i = ch_orderItemId r" by (auto dest: row_by_SomeD)
  show thesis
  proof (cases approve)
    case False
    with assms r i show thesis
      by (intro that [OF r p i v, of "oi_state_update (\<lambda>_. ch_stateAtRequest r)"])
        (auto simp: decideChange_def inversion Let_def row_by_update_id item_write_def
          set_item_def split: if_splits)
  next
    case True
    with assms r i obtain m1 d1 where ap: "applyChange e c i (ch_change r) (ch_reason r) False d = Inr (m1, d1)"
      and d': "d' = emit (decided_notice (ch_requestedBy r) rid)
         (d1\<lparr>change_requests := update_id ch_id rid (decide_change_row c (env_now e) why A_APPLIED) (change_requests d1)\<rparr>)"
      and ok: "db_ok d'"
      by (auto simp: decideChange_def inversion Let_def split: if_splits)
    from ap show thesis
    proof (rule applyChange_effect, goal_cases)
      case (1 f)
      with True iid ok show thesis
        by (intro that [OF r p i v, of f]) (auto simp: d' item_write_def)
    qed
  qed
qed

section \<open>Properties\<close>

lemma item_write_id: "item_write iid f d d' \<Longrightarrow> row_by oi_id iid (order_items d) = Some i \<Longrightarrow>
    row_by oi_id iid (order_items d') = Some ((f i)\<lparr>oi_version := oi_version i + 1\<rparr>)"
  by (simp add: item_write_row)

lemma find_new_row:
  assumes "primary_key key (rs @ [r])" and "key r = i" and "find (\<lambda>x. key x = i \<and> P x) (rs @ [r]) = Some x"
  shows "x = r"
proof -
  from assms(1,2) have "i \<notin> key ` set rs" by (auto simp: keyed_def)
  with find_Some_in [OF assms(3)] show ?thesis by auto
qed

lemma requestCancellation_pending:
  assumes "requestCancellation e c iid reason n d = Inr (m, d1)" and "db_ok d" and "mx_requestId m = Some rid"
  obtains i where "row_by oi_id iid (order_items d) = Some i" and "oi_version i = n"
    and "oi_state i \<in> set protected_states"
    and "item_write iid (oi_state_update (\<lambda>_. CANCELLATION_REQUESTED)) d d1"
    and "cancellation_requests d1 = cancellation_requests d @
           [\<lparr>cr_id = rid, cr_branchId = branch_of c, cr_orderItemId = iid,
             cr_requestedBy = staff_of c, cr_reason = trim reason, cr_stateAtRequest = oi_state i,
             cr_status = A_PENDING, cr_requestedAt = env_now e, cr_decidedBy = None,
             cr_decidedAt = None, cr_decisionReason = None\<rparr>]"
    and "stock d1 = stock d" and "stock_ledger d1 = stock_ledger d" and "db_ok d1"
  using assms(1) db_okD(3) [OF assms(2)]
proof (cases rule: requestCancellation_effect)
  case direct
  then have "mx_requestId m = None"
    by (auto simp: directCancel_def applyCancel_def mutation_of_def)
  with assms(3) show thesis by simp
next
  case (asked i)
  then show thesis using assms(3) by (intro that [of i]) simp_all
qed

text \<open>
  Rejecting a cancellation puts the item back where it was: after a waiter's request and a
  manager's rejection the row is the old one with two more versions, every other item is
  untouched and nothing has moved in stock.
\<close>

theorem rejected_cancellation_restores_the_item:
  assumes ok: "db_ok d" and ask: "requestCancellation e c iid reason n d = Inr (m, d1)"
    and rid: "mx_requestId m = Some rid"
    and rej: "decideCancellation e' c' rid why n' False d1 = Inr (m', d2)"
  shows "\<exists>i. row_by oi_id iid (order_items d) = Some i \<and> oi_version i = n \<and> n' = n + 1 \<and>
     row_by oi_id iid (order_items d2) = Some (i\<lparr>oi_version := n + 2\<rparr>) \<and>
     (\<forall>j. j \<noteq> iid \<longrightarrow> row_by oi_id j (order_items d2) = row_by oi_id j (order_items d)) \<and>
     stock d2 = stock d \<and> stock_ledger d2 = stock_ledger d"
proof -
  from ask ok rid obtain i where i: "row_by oi_id iid (order_items d) = Some i" "oi_version i = n"
    and w: "item_write iid (oi_state_update (\<lambda>_. CANCELLATION_REQUESTED)) d d1"
    and st: "stock d1 = stock d" "stock_ledger d1 = stock_ledger d" and ok1: "db_ok d1"
    and "\<exists>r. cancellation_requests d1 = cancellation_requests d @ [r] \<and> cr_id r = rid \<and>
       cr_orderItemId r = iid \<and> cr_stateAtRequest r = oi_state i"
    by (rule requestCancellation_pending) auto
  then obtain r where crs: "cancellation_requests d1 = cancellation_requests d @ [r]"
    and r: "cr_id r = rid" "cr_orderItemId r = iid" "cr_stateAtRequest r = oi_state i" by blast
  from rej show ?thesis
  proof (rule decideCancellation_effect, goal_cases)
    case (1 q j)
    have "q = r"
      using find_new_row [of cr_id "cancellation_requests d" r rid "\<lambda>r. cr_branchId r = branch_of c'" q]
        1(1) db_okD(18) [OF ok1] crs r by simp
    with 1 r item_write_id [OF w i(1)] item_write_id [OF _ item_write_id [OF w i(1)]] item_write_row [OF w]
      item_write_row [OF 1(8)] i st show ?thesis by auto
  qed
qed

definition cooking_db :: db where
  "cooking_db = floor_db\<lparr>order_items := [item_42\<lparr>oi_state := READY, oi_readyAt := Some 900000\<rparr>, item_43]\<rparr>"

theorem rejected_cancellation_restores_the_item_witness:
  "\<exists>d1 d2. requestCancellation evening waiter 42 ''cold'' 1 cooking_db = Inr (\<lparr>mx_orderItemId = 42,
       mx_state = CANCELLATION_REQUESTED, mx_version = 2, mx_requestId = Some 1000, mx_status = Some A_PENDING,
       mx_applied = None, mx_cancelledAt = None\<rparr>, d1) \<and>
     (\<exists>m'. decideCancellation later manager 1000 None 2 False d1 = Inr (m', d2)) \<and>
     row_by oi_id 42 (order_items d2) = Some (item_42\<lparr>oi_state := READY, oi_readyAt := Some 900000, oi_version := 3\<rparr>)"
proof -
  have "bindR (requestCancellation evening waiter 42 ''cold'' 1 cooking_db) (\<lambda>(m, d1).
      bindR (decideCancellation later manager 1000 None 2 False d1) (\<lambda>(m', d2). Inr m)) =
      Inr \<lparr>mx_orderItemId = 42, mx_state = CANCELLATION_REQUESTED, mx_version = 2,
           mx_requestId = Some 1000, mx_status = Some A_PENDING, mx_applied = None, mx_cancelledAt = None\<rparr>"
    by code_simp
  then obtain m d1 m' d2 where ask: "requestCancellation evening waiter 42 ''cold'' 1 cooking_db = Inr (m, d1)"
    and rej: "decideCancellation later manager 1000 None 2 False d1 = Inr (m', d2)"
    and m: "m = \<lparr>mx_orderItemId = 42, mx_state = CANCELLATION_REQUESTED, mx_version = 2,
           mx_requestId = Some 1000, mx_status = Some A_PENDING, mx_applied = None, mx_cancelledAt = None\<rparr>"
    by (elim run_pairE) simp
  have ok: "db_ok cooking_db" by code_simp
  have i: "row_by oi_id 42 (order_items cooking_db) = Some (item_42\<lparr>oi_state := READY, oi_readyAt := Some 900000\<rparr>)"
    by code_simp
  have "mx_requestId m = Some 1000" by (simp add: m)
  from rejected_cancellation_restores_the_item [OF ok ask this rej] obtain x
    where "row_by oi_id 42 (order_items cooking_db) = Some x"
      and "row_by oi_id 42 (order_items d2) = Some (x\<lparr>oi_version := 1 + 2\<rparr>)" by blast
  with i have "row_by oi_id 42 (order_items d2) = Some (item_42\<lparr>oi_state := READY, oi_readyAt := Some 900000, oi_version := 3\<rparr>)"
    by simp
  with ask rej show ?thesis unfolding m by blast
qed

text \<open>
  A dish cancelled by force while its cancellation request was pending comes back when
  the request is rejected: it is READY or in preparation again, may be served, and is charged
  on no bill.
\<close>

theorem rejection_revives_a_forced_cancellation:
  assumes ok: "db_ok d" and ask: "requestCancellation e c iid reason n d = Inr (m, d1)"
    and rid: "mx_requestId m = Some rid"
    and forced: "forceCancel e1 c1 iid reason1 n1 d1 = Inr (m1, d2)"
    and rej: "decideCancellation e2 c2 rid why n2 False d2 = Inr (m2, d3)"
  shows "\<exists>i. row_by oi_id iid (order_items d3) = Some i \<and> oi_state i \<in> {IN_PREPARATION, READY} \<and>
     oi_cancelledAt i \<noteq> None \<and> \<not> chargeable i"
proof -
  from ask ok rid obtain i where i: "row_by oi_id iid (order_items d) = Some i"
    and pr: "oi_state i \<in> set protected_states"
    and w: "item_write iid (oi_state_update (\<lambda>_. CANCELLATION_REQUESTED)) d d1" and ok1: "db_ok d1"
    and "\<exists>r. cancellation_requests d1 = cancellation_requests d @ [r] \<and> cr_id r = rid \<and>
       cr_orderItemId r = iid \<and> cr_stateAtRequest r = oi_state i"
    by (rule requestCancellation_pending) auto
  then obtain r where crs: "cancellation_requests d1 = cancellation_requests d @ [r]"
    and r: "cr_id r = rid" "cr_orderItemId r = iid" "cr_stateAtRequest r = oi_state i" by blast
  from forced db_okD(3) [OF ok1] show ?thesis
  proof (rule forceCancel_effect)
    fix j u
    assume "cancelSteps c1 (env_now e1) (trim reason1) iid d1 = Inr (u, d2)" and ok2: "db_ok d2"
    then have w2: "item_write iid (cancelled_row c1 (env_now e1) (trim reason1)) d1 d2"
      and crs2: "cancellation_requests d2 = cancellation_requests d @ [r]"
      using stock_only_frame(12) crs by (auto elim!: cancelSteps_effect)
    from rej show ?thesis
    proof (rule decideCancellation_effect, goal_cases)
      case (1 q k)
      have "q = r"
        using find_new_row [of cr_id "cancellation_requests d" r rid "\<lambda>r. cr_branchId r = branch_of c2" q]
          1(1) db_okD(18) [OF ok2] crs2 r by simp
      with 1 r pr item_write_id [OF w2 item_write_id [OF w i]] item_write_row [OF 1(8), of iid]
      show ?thesis by (auto simp: cancelled_row_def protected_states_def chargeable_def)
    qed
  qed
qed

definition floor_manager :: auth_ctx where
  "floor_manager = manager\<lparr>ax_permissions := ''floor.manage'' # ax_permissions manager\<rparr>"

theorem rejection_revives_a_forced_cancellation_witness:
  "\<exists>d2 m2 d3 i. decideCancellation later manager 1000 None 3 False d2 = Inr (m2, d3) \<and>
     row_by oi_id 42 (order_items d3) = Some i \<and> oi_state i \<in> {IN_PREPARATION, READY} \<and>
     oi_cancelledAt i \<noteq> None \<and> \<not> chargeable i"
proof -
  have "bindR (requestCancellation evening waiter 42 ''cold'' 1 cooking_db) (\<lambda>(m, d1).
      bindR (forceCancel evening floor_manager 42 ''close'' 2 d1) (\<lambda>(m1, d2).
      bindR (decideCancellation later manager 1000 None 3 False d2) (\<lambda>(m2, d3). Inr (mx_requestId m)))) = Inr (Some 1000)"
    by code_simp
  then obtain m d1 m1 d2 m2 d3 where ask: "requestCancellation evening waiter 42 ''cold'' 1 cooking_db = Inr (m, d1)"
    and forced: "forceCancel evening floor_manager 42 ''close'' 2 d1 = Inr (m1, d2)"
    and rej: "decideCancellation later manager 1000 None 3 False d2 = Inr (m2, d3)"
    and rid: "mx_requestId m = Some 1000"
    by (elim run_pairE) simp
  have ok: "db_ok cooking_db" by code_simp
  from rejection_revives_a_forced_cancellation [OF ok ask rid forced rej] rej show ?thesis by blast
qed

lemma default_location_set_item [simp]: "default_location t b (set_item i f d) = default_location t b d"
  by (simp add: default_location_def)

lemma cancelled_stock:
  assumes cs: "cancelSteps c now reason iid d = Inr (u, d')" and i: "row_by oi_id iid (order_items d) = Some i"
    and loc: "default_location (oi_tenantId i) (oi_branchId i) d = Some l" and wf: "stock_wf d"
    and sc: "\<And>e. e \<in> set (stock_ledger d) \<Longrightarrow> scaled 4 (se_delta e)"
    and norev: "\<not> has_entry iid ''REVERSAL'' d"
    and at_l: "\<And>e. e \<in> set (stock_ledger d) \<Longrightarrow> sale_entry iid e \<Longrightarrow> se_locationId e = l"
  shows "on_hand k d' = on_hand k d - item_booked iid k d \<and> item_booked iid k d' = 0"
  using cs
proof (rule cancelSteps_effect)
  fix j d2
  let ?d1 = "set_item iid (cancelled_row c now reason) d"
  assume j: "row_by oi_id iid (order_items d) = Some j"
    and rev: "reverseForOrderItem (oi_id j) (oi_tenantId j) (oi_branchId j) ?d1 = Inr d2"
    and d': "d' = clearActiveOrder (oi_tableSessionId j) d2"
  have ji: "j = i" "oi_id i = iid" using i j by (auto dest: row_by_SomeD)
  have nr: "\<not> has_entry iid ''REVERSAL'' ?d1" using norev by (simp add: has_entry_def)
  have "on_hand k d2 = on_hand k ?d1 - item_booked iid k ?d1 \<and> item_booked iid k d2 = 0"
    using rev loc wf sc at_l nr
    by (intro reverse_effect [of "oi_tenantId i" "oi_branchId i" ?d1 l iid]) (simp_all add: ji stock_wf_def)
  then show ?thesis
    using on_hand_cong [of "?d1" d k] on_hand_cong [of d' d2 k] item_booked_cong [of ?d1 d iid k]
      item_booked_cong [of d' d2 iid k] by (simp add: d')
qed

text \<open>
  C24: cancelling a dish gives its recipe back, provided that it was not given back before and that
  what it took came from the store that is the branch's default store still (in a database whose
  balances and ledger entries have four decimals, as their columns do): after a direct cancellation
  every stock balance has grown by what the dish had taken there, and the ledger books nothing on
  it any more.
\<close>

theorem cancelled_dish_returns_its_recipe:
  assumes "db_ok d" and "directCancel e c iid reason n d = Inr (m, d')"
    and "row_by oi_id iid (order_items d) = Some i"
    and "default_location (oi_tenantId i) (oi_branchId i) d = Some l" and "stock_wf d"
    and "\<And>x. x \<in> set (stock_ledger d) \<Longrightarrow> scaled 4 (se_delta x)"
    and "\<not> has_entry iid ''REVERSAL'' d"
    and "\<And>x. x \<in> set (stock_ledger d) \<Longrightarrow> sale_entry iid x \<Longrightarrow> se_locationId x = l"
  shows "on_hand k d' = on_hand k d - item_booked iid k d \<and> item_booked iid k d' = 0"
  using assms(2) db_okD(3) [OF assms(1)]
proof (rule directCancel_effect)
  fix j u
  assume cs: "cancelSteps c (env_now e) (trim reason) iid d = Inr (u, d')"
  from cancelled_stock [OF cs assms(3-5)] assms(6-8) show ?thesis by blast
qed

definition beef_entry :: stock_entry where
  "beef_entry = \<lparr>se_locationId = 110, se_ingredientId = 120, se_entryType = ''SALE_DEPLETE'',
     se_delta = - 3 / 5, se_orderItemId = Some 42, se_countSessionId = None\<rparr>"

definition stocked_db :: db where
  "stocked_db = floor_db\<lparr>locations := [\<lparr>lo_id = 110, lo_tenantId = 1, lo_branchId = Some 2,
       lo_code = ''BRANCH_BOLE'', lo_name = ''Bole store'', lo_type = ''BRANCH_STORE'', lo_isDefault = True, lo_status = ''ACTIVE''\<rparr>],
     stock := [\<lparr>sb_locationId = 110, sb_ingredientId = 120, sb_onHand = 22 / 5\<rparr>],
     stock_ledger := [beef_entry]\<rparr>"

theorem cancelled_dish_returns_its_recipe_witness:
  "\<exists>m d'. directCancel evening waiter 42 ''guest left'' 1 stocked_db = Inr (m, d') \<and>
     on_hand (110, 120) d' = on_hand (110, 120) stocked_db - item_booked 42 (110, 120) stocked_db \<and>
     item_booked 42 (110, 120) stocked_db = - 3 / 5"
proof -
  have "is_ok (directCancel evening waiter 42 ''guest left'' 1 stocked_db)" by code_simp
  then obtain m d' where run: "directCancel evening waiter 42 ''guest left'' 1 stocked_db = Inr (m, d')"
    by (auto simp: is_ok_iff)
  have led: "stock_ledger stocked_db = [beef_entry]" by (simp add: stocked_db_def)
  have ok: "db_ok stocked_db" and i: "row_by oi_id 42 (order_items stocked_db) = Some item_42"
    and loc: "default_location (oi_tenantId item_42) (oi_branchId item_42) stocked_db = Some 110"
    and wf: "stock_wf stocked_db" and nr: "\<not> has_entry 42 ''REVERSAL'' stocked_db"
    and sc: "scaled 4 (se_delta beef_entry)" and bk: "item_booked 42 (110, 120) stocked_db = - 3 / 5"
    by code_simp+
  have "on_hand (110, 120) d' = on_hand (110, 120) stocked_db - item_booked 42 (110, 120) stocked_db"
    using cancelled_dish_returns_its_recipe [OF ok run i loc wf _ nr, of "(110, 120)"] sc
    by (simp add: led beef_entry_def)
  with run bk show ?thesis by blast
qed

text \<open>
  Cancelling the last chargeable dish of a table reopens it: the session goes from
  ACTIVE_ORDER back to OPEN (with a new version) exactly when no other chargeable item is
  left on it, and is not touched otherwise.
\<close>

theorem last_cancellation_reopens_the_table:
  assumes ok: "db_ok d" and run: "directCancel e c iid reason n d = Inr (m, d')"
    and i: "row_by oi_id iid (order_items d) = Some i" and sid: "oi_tableSessionId i = Some sid"
    and s: "row_by ts_id sid (table_sessions d) = Some s"
  shows "row_by ts_id sid (table_sessions d') = Some
     (if ts_status s = S_ACTIVE_ORDER \<and>
         filter (\<lambda>x. oi_id x \<noteq> iid \<and> oi_tableSessionId x = Some sid \<and> chargeable x) (order_items d) = []
      then s\<lparr>ts_status := S_OPEN, ts_version := ts_version s + 1\<rparr> else s)"
  using run db_okD(3) [OF ok]
proof (rule directCancel_effect)
  fix j u
  assume "cancelSteps c (env_now e) (trim reason) iid d = Inr (u, d')"
  then show ?thesis
  proof (rule cancelSteps_effect)
    fix j d2
    let ?f = "cancelled_row c (env_now e) (trim reason)"
    assume j: "row_by oi_id iid (order_items d) = Some j" and so: "stock_only (set_item iid ?f d) d2"
      and d': "d' = clearActiveOrder (oi_tableSessionId j) d2"
    have ji: "j = i" using i j by simp
    have items: "order_items d2 = order_items (set_item iid ?f d)"
      and ts: "table_sessions d2 = table_sessions d"
      using stock_only_frame(1,4) [OF so] by simp_all
    have gone: "remaining_items sid d2 =
        length (filter (\<lambda>x. oi_id x \<noteq> iid \<and> oi_tableSessionId x = Some sid \<and> chargeable x) (order_items d))"
    proof -
      have "length (filter (\<lambda>x. oi_tableSessionId x = Some sid \<and> chargeable x)
          (update_id oi_id iid (\<lambda>x. (?f x)\<lparr>oi_version := oi_version x + 1\<rparr>) xs)) =
        length (filter (\<lambda>x. oi_id x \<noteq> iid \<and> oi_tableSessionId x = Some sid \<and> chargeable x) xs)" for xs
        by (induction xs) (auto simp: update_id_def update_many_def chargeable_def cancelled_row_def)
      then show ?thesis by (simp add: remaining_items_def count_where_def items set_item_def)
    qed
    have pk: "distinct (map ts_id (table_sessions d))" using db_okD(1) [OF ok] by (simp add: keyed_def)
    have only: "row_by ts_id sid (update_many (\<lambda>s. ts_id s = sid \<and> ts_status s = S_ACTIVE_ORDER) g xs) =
        map_option (\<lambda>s. if ts_status s = S_ACTIVE_ORDER then g s else s) (row_by ts_id sid xs)"
      if "\<And>s. ts_id (g s) = ts_id s" for g :: "table_session \<Rightarrow> table_session" and xs
      using that by (induction xs) (auto simp: update_many_def row_by_Cons)
    show ?thesis
      using s by (simp add: d' ji sid clearActiveOrder_def gone ts only)
  qed
qed

theorem last_cancellation_reopens_the_table_witness:
  "\<exists>m d'. directCancel evening waiter 42 ''guest left'' 1 floor_db = Inr (m, d') \<and>
     row_by ts_id 40 (table_sessions d') = Some (session_40\<lparr>ts_status := S_OPEN, ts_version := 3\<rparr>)"
proof -
  have "is_ok (directCancel evening waiter 42 ''guest left'' 1 floor_db)" by code_simp
  then obtain m d' where run: "directCancel evening waiter 42 ''guest left'' 1 floor_db = Inr (m, d')"
    by (auto simp: is_ok_iff)
  have i: "row_by oi_id 42 (order_items floor_db) = Some item_42" and sid: "oi_tableSessionId item_42 = Some 40"
    and s: "row_by ts_id 40 (table_sessions floor_db) = Some session_40"
    and st: "ts_status session_40 = S_ACTIVE_ORDER" and v: "ts_version session_40 = 2"
    and none: "filter (\<lambda>x. oi_id x \<noteq> 42 \<and> oi_tableSessionId x = Some 40 \<and> chargeable x) (order_items floor_db) = []"
    by code_simp+
  from last_cancellation_reopens_the_table [OF floor_db_ok run i sid s] run
  show ?thesis by (simp add: st none v)
qed

end
