(* ===== verification/Stations.thy ===== *)
theory Stations
  imports ItemMutations "HOL-Library.Product_Lexorder" "HOL-Library.Multiset"
begin

text \<open>
  The preparation stations (\<open>src/stations/stations.service.ts\<close>): the queue a station works
  on, the transitions acknowledge, start preparation and ready of a ticket, the report that a
  dish cannot be prepared, and the availability of the station's dishes (sold out, limited,
  available again), which the waiter's menu of \<open>Orders\<close> reads.
\<close>

section \<open>Access\<close>

definition station_workflow_modes :: "string list" where
  "station_workflow_modes = [''FULL_PREP'', ''QUICK_SERVE'']"

definition normalizeWorkflowMode :: "string option \<Rightarrow> string" where
  "normalizeWorkflowMode v = (case v of
      Some m \<Rightarrow> if m \<in> set station_workflow_modes then m else ''FULL_PREP''
    | None \<Rightarrow> ''FULL_PREP'')"

definition assertStationQueueAccess :: "env \<Rightarrow> auth_ctx \<Rightarrow> id \<Rightarrow> unit result" where
  "assertStationQueueAccess e c sid =
     (if can e c Act_operate Sub_Station then
        (if ax_roleCode c = ''STATION_OPERATOR'' \<and> ax_stationId c \<noteq> Some sid
         then Inl (Forbidden ''This is not your station.'') else Inr ())
      else assertCan e c Act_manage Sub_Station ''Station queue is for station staff.'')"

definition find_station :: "auth_ctx \<Rightarrow> id \<Rightarrow> db \<Rightarrow> station option" where
  "find_station c sid d = find (\<lambda>s. sn_id s = sid \<and> sn_branchId s = branch_of c) (stations d)"

definition requireStation :: "env \<Rightarrow> auth_ctx \<Rightarrow> id \<Rightarrow> db \<Rightarrow> station result" where
  "requireStation e c sid d =
     bindR (requireBranch c) (\<lambda>c.
       case find_station c sid d of
         None \<Rightarrow> Inl (NotFound ''Station not found.'')
       | Some s \<Rightarrow>
           if sn_status s \<noteq> ''ACTIVE'' then Inl (Forbidden ''STATION_OFFLINE'')
           else bindR (assertStationQueueAccess e c (sn_id s)) (\<lambda>_. Inr s))"

definition loadForMutation :: "env \<Rightarrow> auth_ctx \<Rightarrow> id \<Rightarrow> nat \<Rightarrow> db \<Rightarrow> order_item result" where
  "loadForMutation e c iid expected d =
     bindR (requireBranch c) (\<lambda>c.
       if ax_staffMembershipId c = None then Inl (Forbidden ''No restaurant membership for this account.'')
       else case find_item c iid d of
           None \<Rightarrow> Inl (NotFound ''Order item not found.'')
         | Some i \<Rightarrow>
             bindR (requireStation e c (oi_currentStation i) d) (\<lambda>_.
               if oi_version i \<noteq> expected then Inl (StaleVersion (oi_version i)) else Inr i))"

lemma assertStationQueueAccess_eq_Inr [inversion]:
  "assertStationQueueAccess e c sid = Inr u \<longleftrightarrow>
     (if can e c Act_operate Sub_Station then ax_roleCode c = ''STATION_OPERATOR'' \<longrightarrow> ax_stationId c = Some sid
      else can e c Act_manage Sub_Station)"
  by (auto simp: assertStationQueueAccess_def inversion)

lemma requireStation_eq_Inr [inversion]:
  "requireStation e c sid d = Inr s \<longleftrightarrow> requireBranch c = Inr c \<and> find_station c sid d = Some s \<and>
     sn_status s = ''ACTIVE'' \<and> assertStationQueueAccess e c (sn_id s) = Inr ()"
  by (auto simp: requireStation_def inversion split: option.splits)

lemma loadForMutation_eq_Inr [inversion]:
  "loadForMutation e c iid n d = Inr i \<longleftrightarrow> requireBranch c = Inr c \<and> ax_staffMembershipId c \<noteq> None \<and>
     find_item c iid d = Some i \<and> is_ok (requireStation e c (oi_currentStation i) d) \<and> oi_version i = n"
  by (auto simp: loadForMutation_def is_ok_iff requireBranch_eq_Inr split: option.splits)

section \<open>Tickets\<close>

definition active_cooking :: "item_state list" where
  "active_cooking = [QUEUED, ACKNOWLEDGED, IN_PREPARATION]"

definition stale_seconds :: int where
  "stale_seconds = 14400"

record ticket =
  tk_orderItemId :: id
  tk_tableSessionId :: "id option"
  tk_roomSessionId :: "id option"
  tk_outsideOrderId :: "id option"
  tk_itemName :: string
  tk_quantity :: nat
  tk_unitPrice :: decimal
  tk_modifiers :: "(string \<times> decimal) list"
  tk_instruction :: "string option"
  tk_waiter :: "id option"
  tk_state :: item_state
  tk_queuedAt :: time
  tk_expectedPrepMinutes :: nat
  tk_elapsedSeconds :: int
  tk_delayed :: bool
  tk_version :: nat
  tk_exceptionReason :: "string option"

definition ticket_waiter :: "order_item \<Rightarrow> db \<Rightarrow> id option" where
  "ticket_waiter i d = (case item_owner i d of
      Some w \<Rightarrow> Some w
    | None \<Rightarrow> map_option oo_createdBy (Option.bind (oi_outsideOrderId i) (\<lambda>o'. row_by oo_id o' (outside_orders d))))"

definition toTicketDto :: "time \<Rightarrow> db \<Rightarrow> order_item \<Rightarrow> ticket" where
  "toTicketDto now d i =
     (let queuedAt = (case oi_queuedAt i of Some t \<Rightarrow> t | None \<Rightarrow> oi_confirmedAt i);
          elapsed = max 0 ((now - queuedAt) div 1000);
          prep = (case oi_prepMinutes i of Some m \<Rightarrow> m | None \<Rightarrow> 0);
          pastPrep = (oi_state i \<in> set active_cooking \<and> 0 < prep \<and> int prep * 60 < elapsed);
          staleOpen = (oi_state i \<in> set (active_cooking @ [READY, CANNOT_PREPARE]) \<and> stale_seconds \<le> elapsed);
          ex = find (\<lambda>x. px_orderItemId x = oi_id i \<and> px_status x = ''OPEN'') (rev (production_exceptions d))
      in \<lparr>tk_orderItemId = oi_id i, tk_tableSessionId = oi_tableSessionId i,
          tk_roomSessionId = oi_roomSessionId i, tk_outsideOrderId = oi_outsideOrderId i,
          tk_itemName = oi_itemName i, tk_quantity = oi_quantity i, tk_unitPrice = money (oi_unitPrice i),
          tk_modifiers = map (\<lambda>m. (im_optionName m, money (im_priceDelta m))) (oi_modifiers i),
          tk_instruction = oi_instruction i, tk_waiter = ticket_waiter i d, tk_state = oi_state i,
          tk_queuedAt = queuedAt, tk_expectedPrepMinutes = prep, tk_elapsedSeconds = elapsed,
          tk_delayed = (pastPrep \<or> staleOpen), tk_version = oi_version i,
          tk_exceptionReason = map_option px_reasonDetail ex\<rparr>)"

section \<open>The queue\<close>

definition state_name :: "item_state \<Rightarrow> string" where
  "state_name s = (case s of
      CONFIRMED \<Rightarrow> ''CONFIRMED'' | QUEUED \<Rightarrow> ''QUEUED'' | ACKNOWLEDGED \<Rightarrow> ''ACKNOWLEDGED''
    | IN_PREPARATION \<Rightarrow> ''IN_PREPARATION'' | READY \<Rightarrow> ''READY'' | SERVED \<Rightarrow> ''SERVED''
    | CANCELLATION_REQUESTED \<Rightarrow> ''CANCELLATION_REQUESTED'' | CANCELLED \<Rightarrow> ''CANCELLED''
    | CHANGE_REQUESTED \<Rightarrow> ''CHANGE_REQUESTED'' | BLOCKED \<Rightarrow> ''BLOCKED''
    | REJECTED_BY_STATION \<Rightarrow> ''REJECTED_BY_STATION'' | CANNOT_PREPARE \<Rightarrow> ''CANNOT_PREPARE'')"

definition default_states :: "string list" where
  "default_states = [''QUEUED'', ''ACKNOWLEDGED'', ''IN_PREPARATION'', ''READY'', ''CANNOT_PREPARE'']"

definition parseStates :: "string option \<Rightarrow> string list" where
  "parseStates raw =
     (case raw of
        None \<Rightarrow> default_states
      | Some r \<Rightarrow>
          if trim r = [] then default_states
          else
            let states = filter (\<lambda>s. s \<noteq> []) (map (\<lambda>s. to_upper (trim s)) (split_comma r))
            in if states \<noteq> [] then states else default_states)"

record station_queue =
  sq_stationId :: id
  sq_workflowMode :: string
  sq_offline :: bool
  sq_data :: "ticket list"

text \<open>\<open>orderBy: [{ queuedAt: 'asc' }, { confirmedAt: 'asc' }]\<close>; a missing \<open>queuedAt\<close> sorts last.\<close>

definition queue_order :: "order_item \<Rightarrow> bool \<times> int \<times> int" where
  "queue_order i = (case oi_queuedAt i of
      Some t \<Rightarrow> (False, t, oi_confirmedAt i) | None \<Rightarrow> (True, 0, oi_confirmedAt i))"

definition in_queue :: "auth_ctx \<Rightarrow> id \<Rightarrow> string list \<Rightarrow> order_item \<Rightarrow> bool" where
  "in_queue c sid states i \<longleftrightarrow> oi_branchId i = branch_of c \<and> oi_currentStation i = sid \<and>
     oi_cancelledAt i = None \<and> state_name (oi_state i) \<in> set states"

definition listQueue :: "env \<Rightarrow> auth_ctx \<Rightarrow> id \<Rightarrow> string option \<Rightarrow> db \<Rightarrow> station_queue result" where
  "listQueue e c sid raw d =
     bindR (requireBranch c) (\<lambda>c.
       case find_station c sid d of
         None \<Rightarrow> Inl (NotFound ''Station not found.'')
       | Some s \<Rightarrow>
           bindR (assertStationQueueAccess e c (sn_id s)) (\<lambda>_.
             let mode = normalizeWorkflowMode (sn_workflowMode s)
             in if sn_status s \<noteq> ''ACTIVE''
                then Inr \<lparr>sq_stationId = sn_id s, sq_workflowMode = mode, sq_offline = True, sq_data = []\<rparr>
                else Inr \<lparr>sq_stationId = sn_id s, sq_workflowMode = mode, sq_offline = False,
                  sq_data = map (toTicketDto (env_now e) d)
                    (sort_key queue_order (filter (in_queue c (sn_id s) (parseStates raw)) (order_items d)))\<rparr>))"

definition getItem :: "env \<Rightarrow> auth_ctx \<Rightarrow> id \<Rightarrow> db \<Rightarrow> ticket result" where
  "getItem e c iid d =
     bindR (requireBranch c) (\<lambda>c.
       case find_item c iid d of
         None \<Rightarrow> Inl (NotFound ''Order item not found.'')
       | Some i \<Rightarrow> bindR (requireStation e c (oi_currentStation i) d) (\<lambda>_. Inr (toTicketDto (env_now e) d i)))"

section \<open>Transitions\<close>

definition ticket_updated :: "order_item \<Rightarrow> room list \<Rightarrow> effect" where
  "ticket_updated i rooms = Broadcast \<lparr>nt_type = ''ticket.updated'', nt_recipient = None,
     nt_rooms = rooms, nt_entity = oi_id i\<rparr>"

text \<open>\<open>notify\<close> adds the recipient's room to the rooms it is given (here none).\<close>

definition item_ready :: "order_item \<Rightarrow> id option \<Rightarrow> effect" where
  "item_ready i owner = Notify \<lparr>nt_type = ''item.ready'', nt_recipient = owner,
     nt_rooms = (case owner of Some w \<Rightarrow> [Staff_room w] | None \<Rightarrow> []), nt_entity = oi_id i\<rparr>"

definition emitTicketTransition :: "auth_ctx \<Rightarrow> order_item \<Rightarrow> item_state \<Rightarrow> db \<Rightarrow> effect list" where
  "emitTicketTransition c i to d =
     (if to = READY
      then [ticket_updated i [Manager_room (branch_of c)], item_ready i (item_owner i d)]
      else [ticket_updated i [Station_room (oi_currentStation i), Manager_room (branch_of c)]])"

definition transition ::
  "env \<Rightarrow> auth_ctx \<Rightarrow> id \<Rightarrow> nat \<Rightarrow> item_state list \<Rightarrow> item_state \<Rightarrow> (order_item \<Rightarrow> order_item) \<Rightarrow> effect list \<Rightarrow>
     db \<Rightarrow> (ticket \<times> db) result" where
  "transition e c iid expected from_states to extra after d =
     bindR (loadForMutation e c iid expected d) (\<lambda>i.
       if oi_state i \<notin> set from_states then Inl (Unprocessable ''INVALID_ITEM_STATE'')
       else
         let d1 = set_item iid (\<lambda>x. (extra x)\<lparr>oi_state := to\<rparr>) d
         in bindR (read_item iid d1) (\<lambda>u.
            bindR (commit d1) (\<lambda>d2.
              Inr (toTicketDto (env_now e) d2 u,
                   foldl (\<lambda>d x. emit x d) d2 (emitTicketTransition c u to d2 @ after)))))"

definition acknowledge :: "env \<Rightarrow> auth_ctx \<Rightarrow> id \<Rightarrow> nat \<Rightarrow> db \<Rightarrow> (ticket \<times> db) result" where
  "acknowledge e c iid expected =
     transition e c iid expected [QUEUED] ACKNOWLEDGED (\<lambda>x. x\<lparr>oi_acknowledgedAt := Some (env_now e)\<rparr>)
       [Cancel_unacknowledged_timer iid]"

definition startPreparation :: "env \<Rightarrow> auth_ctx \<Rightarrow> id \<Rightarrow> nat \<Rightarrow> db \<Rightarrow> (ticket \<times> db) result" where
  "startPreparation e c iid expected =
     transition e c iid expected [QUEUED, ACKNOWLEDGED] IN_PREPARATION
       (\<lambda>x. x\<lparr>oi_preparationStartedAt := Some (env_now e)\<rparr>) []"

definition quickServe :: "auth_ctx \<Rightarrow> order_item \<Rightarrow> db \<Rightarrow> bool" where
  "quickServe c i d =
     (normalizeWorkflowMode (Option.bind (find_station c (oi_currentStation i) d) sn_workflowMode) = ''QUICK_SERVE'')"

definition markReady :: "env \<Rightarrow> auth_ctx \<Rightarrow> id \<Rightarrow> nat \<Rightarrow> db \<Rightarrow> (ticket \<times> db) result" where
  "markReady e c iid expected d =
     bindR (requireBranch c) (\<lambda>c.
       case find_item c iid d of
         None \<Rightarrow> Inl (NotFound ''Order item not found.'')
       | Some i \<Rightarrow>
           transition e c iid expected
             (if quickServe c i d then [QUEUED, ACKNOWLEDGED, IN_PREPARATION] else [IN_PREPARATION]) READY
             (\<lambda>x. x\<lparr>oi_readyAt := Some (env_now e)\<rparr>) [Cancel_all_timers iid] d)"

section \<open>Availability of the dishes\<close>

record station_menu_item =
  sm_id :: id
  sm_name :: string
  sm_price :: decimal
  sm_soldOut :: bool
  sm_remainingQty :: "nat option"
  sm_availability :: "override_state option"
  sm_reason :: "string option"

text \<open>
  The station's view of a dish. Unlike the waiter's menu it does not look at a SOLD_OUT
  override, only at the flag of the dish and at an exhausted limit.
\<close>

definition station_menu_view :: "env \<Rightarrow> auth_ctx \<Rightarrow> db \<Rightarrow> menu_item \<Rightarrow> station_menu_item" where
  "station_menu_view e c d m =
     (let o' = current_override (env_now e) (branch_of c) (mi_id m) d; remaining = remaining_of o'
      in \<lparr>sm_id = mi_id m, sm_name = mi_name m, sm_price = money (mi_currentPrice m),
          sm_soldOut = (mi_soldOut m \<or> remaining = Some 0), sm_remainingQty = remaining,
          sm_availability = map_option ov_state o', sm_reason = map_option ov_reason o'\<rparr>)"

definition on_station_menu :: "auth_ctx \<Rightarrow> id \<Rightarrow> menu_item \<Rightarrow> bool" where
  "on_station_menu c sid m \<longleftrightarrow> mi_tenantId m = tenant_of c \<and> mi_stationId m = Some sid \<and> mi_status m = ''ACTIVE''"

definition listStationMenu :: "env \<Rightarrow> auth_ctx \<Rightarrow> id \<Rightarrow> db \<Rightarrow> station_menu_item list result" where
  "listStationMenu e c sid d =
     bindR (requireStation e c sid d) (\<lambda>s.
       Inr (map (station_menu_view e c d) (filter (on_station_menu c (sn_id s)) (menu_items d))))"

definition requireStationMenuItem :: "auth_ctx \<Rightarrow> id \<Rightarrow> id \<Rightarrow> db \<Rightarrow> menu_item result" where
  "requireStationMenuItem c sid m d =
     (case find (\<lambda>x. mi_id x = m \<and> on_station_menu c sid x) (menu_items d) of
        None \<Rightarrow> Inl (NotFound ''Menu item not found on this station.'') | Some x \<Rightarrow> Inr x)"

definition getStationMenuItemDto :: "env \<Rightarrow> auth_ctx \<Rightarrow> id \<Rightarrow> id \<Rightarrow> db \<Rightarrow> station_menu_item result" where
  "getStationMenuItemDto e c sid m d =
     bindR (requireStationMenuItem c sid m d) (\<lambda>x. Inr (station_menu_view e c d x))"

definition endOpenOverrides :: "time \<Rightarrow> id \<Rightarrow> id \<Rightarrow> db \<Rightarrow> db" where
  "endOpenOverrides now b m d = d\<lparr>overrides := update_many
     (\<lambda>o'. ov_branchId o' = b \<and> ov_menuItemId o' = m \<and> override_active now o')
     (\<lambda>o'. o'\<lparr>ov_endsAt := Some now\<rparr>) (overrides d)\<rparr>"

definition set_sold_out :: "id \<Rightarrow> bool \<Rightarrow> db \<Rightarrow> db result" where
  "set_sold_out m b d =
     (case row_by mi_id m (menu_items d) of
        None \<Rightarrow> Inl (DbError ''P2025'')
      | Some _ \<Rightarrow> Inr (d\<lparr>menu_items := update_id mi_id m
          (\<lambda>x. x\<lparr>mi_soldOut := b, mi_version := mi_version x + 1\<rparr>) (menu_items d)\<rparr>))"

definition new_override :: "auth_ctx \<Rightarrow> time \<Rightarrow> id \<Rightarrow> override_state \<Rightarrow> nat option \<Rightarrow> string \<Rightarrow> id \<Rightarrow> availability_override" where
  "new_override c now m st qty reason i = \<lparr>ov_id = i, ov_branchId = branch_of c, ov_menuItemId = m,
     ov_state = st, ov_reason = reason, ov_remainingQty = qty, ov_initialQty = qty,
     ov_setBy = staff_of c, ov_startsAt = now, ov_endsAt = None\<rparr>"

definition replace_override :: "env \<Rightarrow> auth_ctx \<Rightarrow> id \<Rightarrow> override_state \<Rightarrow> nat option \<Rightarrow> string \<Rightarrow> bool \<Rightarrow> db \<Rightarrow> db result" where
  "replace_override e c m st qty reason soldOut d =
     (if ax_staffMembershipId c = None then Inl (Forbidden ''No restaurant membership for this account.'')
      else
        let d1 = endOpenOverrides (env_now e) (branch_of c) m d;
            d2 = d1\<lparr>overrides := overrides d1 @ [new_override c (env_now e) m st qty reason (next_id d1)],
                    next_id := next_id d1 + 1\<rparr>
        in bindR (set_sold_out m soldOut d2) commit)"

definition applySoldOutOverride :: "env \<Rightarrow> auth_ctx \<Rightarrow> id \<Rightarrow> string \<Rightarrow> db \<Rightarrow> db result" where
  "applySoldOutOverride e c m reason = replace_override e c m OV_SOLD_OUT None reason True"

definition applyLimitedOverride :: "env \<Rightarrow> auth_ctx \<Rightarrow> id \<Rightarrow> nat \<Rightarrow> string \<Rightarrow> db \<Rightarrow> db result" where
  "applyLimitedOverride e c m qty reason = replace_override e c m OV_LIMITED (Some qty) reason False"

definition clearAvailabilityOverrides :: "env \<Rightarrow> auth_ctx \<Rightarrow> id \<Rightarrow> db \<Rightarrow> db result" where
  "clearAvailabilityOverrides e c m d =
     bindR (set_sold_out m False (endOpenOverrides (env_now e) (branch_of c) m d)) commit"

definition notifyMenuAvailability :: "auth_ctx \<Rightarrow> station \<Rightarrow> id \<Rightarrow> db \<Rightarrow> db" where
  "notifyMenuAvailability c s m d =
     emit (Broadcast \<lparr>nt_type = ''menu.item.availability'', nt_recipient = None,
         nt_rooms = [Station_room (sn_id s), Manager_room (branch_of c)], nt_entity = m\<rparr>)
       (emit (Notify_waiters (request_notice ''menu.item.availability'' m)) d)"

definition markStationItemSoldOut ::
  "env \<Rightarrow> auth_ctx \<Rightarrow> id \<Rightarrow> id \<Rightarrow> bool \<Rightarrow> string option \<Rightarrow> db \<Rightarrow> (station_menu_item \<times> db) result" where
  "markStationItemSoldOut e c sid m soldOut reason d =
     bindR (requireStation e c sid d) (\<lambda>s.
     bindR (requireStationMenuItem c (sn_id s) m d) (\<lambda>x.
     bindR (if soldOut
            then applySoldOutOverride e c (mi_id x) (trim_or ''Marked sold out by station'' reason) d
            else clearAvailabilityOverrides e c (mi_id x) d) (\<lambda>d1.
       let d2 = notifyMenuAvailability c s (mi_id x) d1
       in bindR (getStationMenuItemDto e c (sn_id s) (mi_id x) d2) (\<lambda>v. Inr (v, d2)))))"

definition limit_reason :: "nat \<Rightarrow> string" where
  "limit_reason qty =
     (if qty = 0 then ''No more portions available''
      else ''Only '' @ show_nat qty @ '' portion'' @ (if qty = 1 then [] else ''s'') @ '' left'')"

definition setStationItemLimit ::
  "env \<Rightarrow> auth_ctx \<Rightarrow> id \<Rightarrow> id \<Rightarrow> decimal \<Rightarrow> string option \<Rightarrow> db \<Rightarrow> (station_menu_item \<times> db) result" where
  "setStationItemLimit e c sid m remaining why d =
     bindR (requireStation e c sid d) (\<lambda>s.
     bindR (requireStationMenuItem c (sn_id s) m d) (\<lambda>x.
       let qty = nat (max 0 \<lfloor>remaining\<rfloor>); reason = trim_or (limit_reason qty) why
       in bindR (if qty = 0 then applySoldOutOverride e c (mi_id x) reason d
                 else applyLimitedOverride e c (mi_id x) qty reason d) (\<lambda>d1.
          let d2 = notifyMenuAvailability c s (mi_id x) d1
          in bindR (getStationMenuItemDto e c (sn_id s) (mi_id x) d2) (\<lambda>v. Inr (v, d2)))))"

definition clearStationItemLimit :: "env \<Rightarrow> auth_ctx \<Rightarrow> id \<Rightarrow> id \<Rightarrow> db \<Rightarrow> (station_menu_item \<times> db) result" where
  "clearStationItemLimit e c sid m = markStationItemSoldOut e c sid m False None"

section \<open>Reporting that a dish cannot be prepared\<close>

record cannot_prepare_dto =
  rp_expectedVersion :: nat
  rp_reasonCode :: "string option"
  rp_reasonDetail :: "string option"
  rp_markSoldOut :: bool

definition exception_row :: "auth_ctx \<Rightarrow> order_item \<Rightarrow> cannot_prepare_dto \<Rightarrow> id \<Rightarrow> production_exception" where
  "exception_row c i dto k = \<lparr>px_id = k, px_branchId = branch_of c, px_orderItemId = oi_id i,
     px_stationId = oi_currentStation i, px_reportedBy = staff_of c,
     px_reasonCode = trim_or ''CANNOT_PREPARE'' (rp_reasonCode dto),
     px_reasonDetail = trim_or ''Cannot prepare'' (rp_reasonDetail dto), px_status = ''OPEN''\<rparr>"

definition exception_notice :: "auth_ctx \<Rightarrow> order_item \<Rightarrow> id option \<Rightarrow> effect" where
  "exception_notice c i owner = Notify \<lparr>nt_type = ''production.exception'', nt_recipient = owner,
     nt_rooms = [Manager_room (branch_of c), Station_room (oi_currentStation i)] @
       (case owner of Some w \<Rightarrow> [Staff_room w] | None \<Rightarrow> []), nt_entity = oi_id i\<rparr>"

definition reportCannotPrepare ::
  "env \<Rightarrow> auth_ctx \<Rightarrow> id \<Rightarrow> cannot_prepare_dto \<Rightarrow> db \<Rightarrow> (ticket \<times> db) result" where
  "reportCannotPrepare e c iid dto d =
     bindR (loadForMutation e c iid (rp_expectedVersion dto) d) (\<lambda>i.
       if oi_state i \<notin> set active_cooking then Inl (Unprocessable ''INVALID_ITEM_STATE'')
       else
         let k = next_id d;
             d1 = d\<lparr>production_exceptions := production_exceptions d @ [exception_row c i dto k], next_id := k + 1\<rparr>;
             d2 = set_item iid (oi_state_update (\<lambda>_. CANNOT_PREPARE)) d1
         in bindR (read_item iid d2) (\<lambda>u.
            bindR (commit d2) (\<lambda>d3.
              let d4 = emit (Cancel_all_timers iid) (emit (exception_notice c u (item_owner u d3)) d3)
              in if rp_markSoldOut dto \<and> oi_menuItemId u \<noteq> None then
                   (case row_by sn_id (oi_currentStation u) (stations d4) of
                      None \<Rightarrow> Inr (toTicketDto (env_now e) d4 u, d4)
                    | Some s \<Rightarrow>
                        let m = the (oi_menuItemId u)
                        in bindR (applySoldOutOverride e c m
                             (trim_or (''Cannot prepare: '' @ oi_itemName u) (rp_reasonDetail dto)) d4) (\<lambda>d5.
                           Inr (toTicketDto (env_now e) d5 u, notifyMenuAvailability c s m d5)))
                 else Inr (toTicketDto (env_now e) d4 u, d4))))"

section \<open>What a transition does\<close>

lemma transition_effect:
  assumes "transition e c iid n from to extra after d = Inr (t, d')" and "primary_key oi_id (order_items d)"
    and "\<And>x. oi_id (extra x) = oi_id x"
  obtains i where "row_by oi_id iid (order_items d) = Some i" and "oi_version i = n" and "oi_state i \<in> set from"
    and "item_write iid (\<lambda>x. (extra x)\<lparr>oi_state := to\<rparr>) d d'" and "db_ok d'"
    and "cancellation_requests d' = cancellation_requests d" and "change_requests d' = change_requests d"
    and "effects d' = effects d @ emitTicketTransition c ((extra i)\<lparr>oi_state := to, oi_version := oi_version i + 1\<rparr>) to
           (set_item iid (\<lambda>x. (extra x)\<lparr>oi_state := to\<rparr>) d) @ after"
    and "is_ok (requireStation e c (oi_currentStation i) d)" and "stock d' = stock d"
    and "stock_ledger d' = stock_ledger d" and "ax_staffMembershipId c \<noteq> None" and "table_sessions d' = table_sessions d"
proof -
  let ?f = "\<lambda>x. (extra x)\<lparr>oi_state := to\<rparr>"
  from assms(1) obtain i u where f: "find_item c iid d = Some i" and v: "oi_version i = n"
    and st: "oi_state i \<in> set from" and u: "row_by oi_id iid (order_items (set_item iid ?f d)) = Some u"
    and ok: "db_ok (set_item iid ?f d)"
    and d': "d' = foldl (\<lambda>d x. emit x d) (set_item iid ?f d) (emitTicketTransition c u to (set_item iid ?f d) @ after)"
    and rs: "is_ok (requireStation e c (oi_currentStation i) d)" "ax_staffMembershipId c \<noteq> None"
    by (auto simp: transition_def inversion Let_def)
  from find_item_row [OF f assms(2)] have row: "row_by oi_id iid (order_items d) = Some i" by simp
  have ui: "u = (?f i)\<lparr>oi_version := oi_version i + 1\<rparr>" using u row assms(3) by (simp add: row_by_set_item)
  have fr: "cancellation_requests (foldl (\<lambda>d x. emit x d) x es) = cancellation_requests x"
    "change_requests (foldl (\<lambda>d x. emit x d) x es) = change_requests x" for x es
    by (induction es arbitrary: x) simp_all
  show thesis
  proof (rule that [OF row v st])
    show "item_write iid ?f d d'" using row assms(3) by (simp add: item_write_def d')
    show "db_ok d'" using ok by (simp add: d')
    show "effects d' = effects d @ emitTicketTransition c ((extra i)\<lparr>oi_state := to, oi_version := oi_version i + 1\<rparr>) to
           (set_item iid ?f d) @ after"
      using ui by (simp add: d')
    show "is_ok (requireStation e c (oi_currentStation i) d)" by (rule rs)
  qed (simp_all add: d' fr rs)
qed

lemma acknowledge_effect:
  assumes "acknowledge e c iid n d = Inr (t, d')" and "primary_key oi_id (order_items d)"
  obtains i where "row_by oi_id iid (order_items d) = Some i" and "oi_version i = n" and "oi_state i = QUEUED"
    and "item_write iid (\<lambda>x. x\<lparr>oi_acknowledgedAt := Some (env_now e), oi_state := ACKNOWLEDGED\<rparr>) d d'" and "db_ok d'"
    and "cancellation_requests d' = cancellation_requests d" and "change_requests d' = change_requests d"
proof -
  from assms have "thesis \<or> thesis"
    unfolding acknowledge_def by (rule transition_effect) (auto intro: that)
  then show thesis by blast
qed

lemma startPreparation_effect:
  assumes "startPreparation e c iid n d = Inr (t, d')" and "primary_key oi_id (order_items d)"
  obtains i where "row_by oi_id iid (order_items d) = Some i" and "oi_version i = n" and "oi_state i \<in> {QUEUED, ACKNOWLEDGED}"
    and "item_write iid (\<lambda>x. x\<lparr>oi_preparationStartedAt := Some (env_now e), oi_state := IN_PREPARATION\<rparr>) d d'" and "db_ok d'"
    and "cancellation_requests d' = cancellation_requests d" and "change_requests d' = change_requests d"
proof -
  from assms have "thesis \<or> thesis"
    unfolding startPreparation_def by (rule transition_effect) (auto intro: that)
  then show thesis by blast
qed

lemma markReady_effect:
  assumes "markReady e c iid n d = Inr (t, d')" and "primary_key oi_id (order_items d)"
  obtains i where "row_by oi_id iid (order_items d) = Some i" and "oi_version i = n"
    and "oi_state i \<in> (if quickServe c i d then {QUEUED, ACKNOWLEDGED, IN_PREPARATION} else {IN_PREPARATION})"
    and "item_write iid (\<lambda>x. x\<lparr>oi_readyAt := Some (env_now e), oi_state := READY\<rparr>) d d'" and "db_ok d'"
    and "cancellation_requests d' = cancellation_requests d" and "change_requests d' = change_requests d"
    and "effects d' = effects d @ emitTicketTransition c (i\<lparr>oi_readyAt := Some (env_now e), oi_state := READY,
           oi_version := oi_version i + 1\<rparr>) READY
           (set_item iid (\<lambda>x. x\<lparr>oi_readyAt := Some (env_now e), oi_state := READY\<rparr>) d) @ [Cancel_all_timers iid]"
proof -
  from assms(1) obtain j where f: "find_item c iid d = Some j"
    and t: "transition e c iid n (if quickServe c j d then [QUEUED, ACKNOWLEDGED, IN_PREPARATION] else [IN_PREPARATION])
      READY (\<lambda>x. x\<lparr>oi_readyAt := Some (env_now e)\<rparr>) [Cancel_all_timers iid] d = Inr (t, d')"
    by (auto simp: markReady_def inversion split: option.splits)
  from find_item_row [OF f assms(2)] have row: "row_by oi_id iid (order_items d) = Some j" by simp
  from t assms(2) have "thesis \<or> thesis"
  proof (rule transition_effect, goal_cases)
    case (2 i)
    with row have "i = j" by simp
    with 2 show ?case by (intro disjI1 that [of i]) (auto split: if_splits)
  qed simp
  then show thesis by blast
qed

section \<open>Properties\<close>

primrec effect_rooms :: "effect \<Rightarrow> room list" where
  "effect_rooms (Notify n) = nt_rooms n"
| "effect_rooms (Broadcast n) = nt_rooms n"
| "effect_rooms (Notify_cashiers n) = nt_rooms n"
| "effect_rooms (Notify_waiters n) = nt_rooms n"
| "effect_rooms (Schedule_timers i p u) = []"
| "effect_rooms (Cancel_unacknowledged_timer i) = []"
| "effect_rooms (Cancel_all_timers i) = []"

lemma seat_of_set_item [simp]: "seat_of s (set_item j f d) = seat_of s d"
  by (cases s) (simp_all add: set_item_def)

lemma item_owner_row:
  "item_owner (i\<lparr>oi_readyAt := r, oi_state := s, oi_version := v\<rparr>) (set_item j f d) = item_owner i d"
  by (simp add: item_owner_def seating_of_def)

text \<open>
  A READY dish alerts the waiter who owns the seating and refreshes the managers' board,
  and nothing of it is sent to any station, in particular not to the kitchen that marked it.
\<close>

theorem ready_alerts_the_waiter_not_the_station:
  assumes ok: "db_ok d" and run: "markReady e c iid n d = Inr (t, d')"
  shows "\<exists>i u. row_by oi_id iid (order_items d) = Some i \<and> row_by oi_id iid (order_items d') = Some u \<and>
     oi_state u = READY \<and> oi_version u = n + 1 \<and>
     effects d' = effects d @ [ticket_updated u [Manager_room (branch_of c)], item_ready u (item_owner i d), Cancel_all_timers iid] \<and>
     (\<forall>x \<in> set (drop (length (effects d)) (effects d')). \<forall>s. Station_room s \<notin> set (effect_rooms x))"
  using run db_okD(3) [OF ok]
proof (rule markReady_effect)
  fix i
  let ?f = "\<lambda>x. x\<lparr>oi_readyAt := Some (env_now e), oi_state := READY\<rparr>"
  assume i: "row_by oi_id iid (order_items d) = Some i" "oi_version i = n" and w: "item_write iid ?f d d'"
    and ef: "effects d' = effects d @ emitTicketTransition c (i\<lparr>oi_readyAt := Some (env_now e), oi_state := READY,
           oi_version := oi_version i + 1\<rparr>) READY (set_item iid ?f d) @ [Cancel_all_timers iid]"
  have u: "row_by oi_id iid (order_items d') = Some (i\<lparr>oi_readyAt := Some (env_now e), oi_state := READY, oi_version := n + 1\<rparr>)"
    using item_write_id [OF w i(1)] i(2) by simp
  show ?thesis
    using i u ef
    by (auto simp: emitTicketTransition_def item_owner_row ticket_updated_def item_ready_def split: option.splits)
qed

definition preparing_db :: db where
  "preparing_db = floor_db\<lparr>order_items := [item_42\<lparr>oi_state := IN_PREPARATION\<rparr>, item_43]\<rparr>"

theorem ready_alerts_the_waiter_not_the_station_witness:
  "\<exists>t d'. markReady evening cook 42 1 preparing_db = Inr (t, d') \<and>
     (\<forall>x \<in> set (drop (length (effects preparing_db)) (effects d')). Station_room 7 \<notin> set (effect_rooms x))"
proof -
  have "is_ok (markReady evening cook 42 1 preparing_db)" by code_simp
  then obtain t d' where run: "markReady evening cook 42 1 preparing_db = Inr (t, d')" by (auto simp: is_ok_iff)
  have ok: "db_ok preparing_db" by code_simp
  from ready_alerts_the_waiter_not_the_station [OF ok run] run show ?thesis by blast
qed

lemma cannot_prepare_rolled_back: "reportCannotPrepare e c iid dto d \<noteq> Inr (t, d')"
proof
  assume "reportCannotPrepare e c iid dto d = Inr (t, d')"
  then obtain d1 u where "row_by oi_id iid (order_items (set_item iid (oi_state_update (\<lambda>_. CANNOT_PREPARE)) d1)) = Some u"
    and ok: "db_ok (set_item iid (oi_state_update (\<lambda>_. CANNOT_PREPARE)) d1)"
    by (auto simp: reportCannotPrepare_def inversion Let_def)
  then have "u \<in> set (order_items (set_item iid (oi_state_update (\<lambda>_. CANNOT_PREPARE)) d1))"
    and "oi_state u = CANNOT_PREPARE"
    using row_by_SomeD [of oi_id iid "order_items (set_item iid (oi_state_update (\<lambda>_. CANNOT_PREPARE)) d1)" u]
    by (blast, auto simp: row_by_set_item)
  with db_okD(10) [OF ok] show False by (fastforce simp: storable_states_def)
qed

text \<open>
  Reporting that a dish cannot be prepared never succeeds, whoever reports it on whatever
  data: the state CANNOT_PREPARE it writes is not in the check constraint on the table of the
  order items, so its transaction is always rolled back.
\<close>

theorem reportCannotPrepare_always_fails: "\<not> is_ok (reportCannotPrepare e c iid dto d)"
  using cannot_prepare_rolled_back by (auto simp: is_ok_iff)

lemma find_rev_append: "find P (rev (xs @ [x])) = (if P x then Some x else find P (rev xs))"
  by simp

text \<open>Once the open overrides have ended, none is active from then on.\<close>

lemma no_override_after_end:
  assumes "now \<le> now'"
  shows "current_override now' b m (endOpenOverrides now b m d) = None"
proof -
  have "\<not> (ov_branchId o' = b \<and> ov_menuItemId o' = m \<and> override_active now' o')"
    if "o' \<in> set (overrides (endOpenOverrides now b m d))" for o'
  proof -
    let ?P = "\<lambda>o'. ov_branchId o' = b \<and> ov_menuItemId o' = m \<and> override_active now o'"
    have "o' \<in> (\<lambda>r. if ?P r then r\<lparr>ov_endsAt := Some now\<rparr> else r) ` set (overrides d)"
      using that by (simp add: endOpenOverrides_def update_many_def)
    then obtain r where o': "o' = (if ?P r then r\<lparr>ov_endsAt := Some now\<rparr> else r)" by blast
    have later: "override_active now' x \<Longrightarrow> override_active now x" for x
      using assms by (simp add: override_active_def split: option.splits)
    show ?thesis
    proof (cases "?P r")
      case True
      with o' assms show ?thesis by (simp add: override_active_def)
    next
      case False
      with o' later [of r] show ?thesis by auto
    qed
  qed
  then show ?thesis by (auto simp: current_override_def find_None_iff)
qed

lemma set_sold_out_eq_Inr [inversion]:
  "set_sold_out m b d = Inr d' \<longleftrightarrow> row_by mi_id m (menu_items d) \<noteq> None \<and>
     d' = d\<lparr>menu_items := update_id mi_id m (\<lambda>x. x\<lparr>mi_soldOut := b, mi_version := mi_version x + 1\<rparr>) (menu_items d)\<rparr>"
  by (auto simp: set_sold_out_def split: option.splits)

lemma replace_override_effect:
  assumes "replace_override e c m st qty reason soldOut d = Inr d'"
  shows "\<exists>d1. d1 = endOpenOverrides (env_now e) (branch_of c) m d \<and>
     overrides d' = overrides d1 @ [new_override c (env_now e) m st qty reason (next_id d)] \<and>
     menu_items d' = update_id mi_id m (\<lambda>x. x\<lparr>mi_soldOut := soldOut, mi_version := mi_version x + 1\<rparr>) (menu_items d) \<and>
     order_items d' = order_items d \<and> idempotency d' = idempotency d"
  using assms by (auto simp: replace_override_def Let_def inversion endOpenOverrides_def)

lemma replaced_override_current:
  assumes "replace_override e c m st qty reason soldOut d = Inr d'"
  shows "current_override now (branch_of c) m d' = Some (new_override c (env_now e) m st qty reason (next_id d))"
  using replace_override_effect [OF assms]
  by (auto simp: current_override_def new_override_def override_active_def)

lemma notifyMenuAvailability_frame [frame, simp]:
  "overrides (notifyMenuAvailability c s m d) = overrides d"
  "menu_items (notifyMenuAvailability c s m d) = menu_items d"
  "order_items (notifyMenuAvailability c s m d) = order_items d"
  "idempotency (notifyMenuAvailability c s m d) = idempotency d"
  by (simp_all add: notifyMenuAvailability_def)

lemma current_override_cong: "overrides d = overrides d' \<Longrightarrow> current_override t b m d = current_override t b m d'"
  by (simp add: current_override_def)

lemma requireStationMenuItem_eq_Inr [inversion]:
  "requireStationMenuItem c sid m d = Inr x \<longleftrightarrow> find (\<lambda>x. mi_id x = m \<and> on_station_menu c sid x) (menu_items d) = Some x"
  by (auto simp: requireStationMenuItem_def split: option.splits)

lemma requireStationMenuItem_id: "requireStationMenuItem c sid m d = Inr x \<Longrightarrow> mi_id x = m"
  by (drule requireStationMenuItem_eq_Inr [THEN iffD1], drule find_Some_in) simp

lemma sold_out_rows:
  "x \<in> set (update_id mi_id m (\<lambda>x. x\<lparr>mi_soldOut := b, mi_version := mi_version x + 1\<rparr>) ms) \<Longrightarrow> mi_id x = m \<Longrightarrow>
     mi_soldOut x = b"
  by (induction ms) (simp_all add: update_id_def update_many_def, elim disjE, simp_all split: if_splits)

lemma markStationItemSoldOut_effect:
  assumes "markStationItemSoldOut e c sid m soldOut reason d = Inr (v, d')"
  obtains d1 where "overrides d' = overrides d1" and "menu_items d' = menu_items d1"
    and "soldOut \<longrightarrow> replace_override e c m OV_SOLD_OUT None (trim_or ''Marked sold out by station'' reason) True d = Inr d1"
    and "\<not> soldOut \<longrightarrow> clearAvailabilityOverrides e c m d = Inr d1"
    and "order_items d' = order_items d1" and "idempotency d' = idempotency d1"
proof -
  from assms obtain s x d1 where x: "requireStationMenuItem c (sn_id s) m d = Inr x"
    and d1: "(if soldOut then applySoldOutOverride e c (mi_id x) (trim_or ''Marked sold out by station'' reason) d
       else clearAvailabilityOverrides e c (mi_id x) d) = Inr d1"
    and d': "d' = notifyMenuAvailability c s (mi_id x) d1"
    unfolding markStationItemSoldOut_def Let_def bindR_eq_Inr sum.inject prod.inject by blast
  from d1 show thesis
    unfolding requireStationMenuItem_id [OF x] applySoldOutOverride_def
    by (intro that [of d1]) (simp_all add: d' split: if_splits)
qed

text \<open>
  Once a station has marked a dish sold out, no order takes it: a later confirmation that
  names the dish leaves the items as they are (it fails, or it replays an earlier response).
\<close>

theorem sold_out_dish_is_not_ordered:
  assumes mark: "markStationItemSoldOut e c sid m True reason d = Inr (v, d1)"
    and order: "confirmOrder e' w dto key d1 = Inr (res, d2)"
    and dish: "m \<in> set (map li_menuItemId (co_items dto))"
  shows "order_items d2 = order_items d1"
proof (rule ccontr)
  assume new: "order_items d2 \<noteq> order_items d1"
  from mark obtain d0 where
    rep: "replace_override e c m OV_SOLD_OUT None (trim_or ''Marked sold out by station'' reason) True d = Inr d0"
    and mi: "menu_items d1 = menu_items d0" by (rule markStationItemSoldOut_effect) blast
  from replace_override_effect [OF rep] mi
  have flag: "mi_soldOut x" if "x \<in> set (menu_items d1)" "mi_id x = m" for x
    using that sold_out_rows [of x m True] by auto
  from order new obtain cf ps where
    lines: "mapR (prepareLine e' w (co_items dto) d1) (co_items dto) = Inr ps" by (rule confirmOrder_fresh)
  from dish obtain line where line: "line \<in> set (co_items dto)" "li_menuItemId line = m" by auto
  then obtain k where k: "k < length (co_items dto)" "co_items dto ! k = line" by (auto simp: in_set_conv_nth)
  with lines have "prepareLine e' w (co_items dto) d1 line = Inr (ps ! k)" by (auto simp: mapR_eq_Inr)
  from prepareLine_success [OF this] line flag show False
    by (auto simp: Let_def item_sold_out_def)
qed

theorem sold_out_dish_is_not_ordered_witness:
  "\<exists>v d1. markStationItemSoldOut evening cook 7 80 True None floor_db = Inr (v, d1) \<and>
     sm_soldOut v \<and>
     (\<forall>res d2. confirmOrder later waiter tibs_order (Some ''k1'') d1 = Inr (res, d2) \<longrightarrow> order_items d2 = order_items d1)"
proof -
  have "bindR (markStationItemSoldOut evening cook 7 80 True None floor_db) (\<lambda>(v, d1). Inr (sm_soldOut v)) = Inr True"
    by code_simp
  then obtain v d1 where run: "markStationItemSoldOut evening cook 7 80 True None floor_db = Inr (v, d1)"
    and v: "sm_soldOut v" by (elim run_pairE) simp
  have "80 \<in> set (map li_menuItemId (co_items tibs_order))" by code_simp
  from sold_out_dish_is_not_ordered [OF run _ this] run v show ?thesis by blast
qed

text \<open>
  The limit a station sets is what the waiter's menu shows from then on: with no portion
  left the dish is sold out, otherwise it is on sale with exactly that many portions; the
  number is the whole part of what was sent, never negative.
\<close>

theorem limit_shows_on_the_menu:
  assumes run: "setStationItemLimit e c sid m remaining why d = Inr (v, d')"
    and wc: "branch_of w = branch_of c" and dish: "x \<in> set (menu_items d')" "mi_id x = m"
  shows "mv_soldOut (menu_view_of e' w vip d' x) = (remaining < 1) \<and>
     mv_remainingQty (menu_view_of e' w vip d' x) = (if remaining < 1 then None else Some (nat \<lfloor>remaining\<rfloor>))"
proof -
  let ?q = "nat (max 0 \<lfloor>remaining\<rfloor>)"
  have q0: "?q = 0 \<longleftrightarrow> remaining < 1"
    by (simp add: floor_less_iff not_le [symmetric] le_floor_iff)
  from run obtain s y d1 where y: "requireStationMenuItem c (sn_id s) m d = Inr y"
    and d1: "(if ?q = 0 then applySoldOutOverride e c (mi_id y) (trim_or (limit_reason ?q) why) d
       else applyLimitedOverride e c (mi_id y) ?q (trim_or (limit_reason ?q) why) d) = Inr d1"
    and d': "d' = notifyMenuAvailability c s (mi_id y) d1"
    unfolding setStationItemLimit_def Let_def bindR_eq_Inr sum.inject prod.inject by blast
  obtain st q reason b where rep: "replace_override e c m st q reason b d = Inr d1"
    and spec: "if remaining < 1 then st = OV_SOLD_OUT \<and> q = None \<and> b else st = OV_LIMITED \<and> q = Some ?q \<and> \<not> b"
    using d1 q0 unfolding requireStationMenuItem_id [OF y] applySoldOutOverride_def applyLimitedOverride_def
    by (cases "remaining < 1") (simp_all add: that)
  have same: "overrides d' = overrides d1" "menu_items d' = menu_items d1" by (simp_all add: d')
  have ov: "current_override (env_now e') (branch_of w) m d' = Some (new_override c (env_now e) m st q reason (next_id d))"
    using replaced_override_current [OF rep, of "env_now e'"] current_override_cong [OF same(1)] wc by simp
  have so: "mi_soldOut x = b"
    using replace_override_effect [OF rep] dish same sold_out_rows [of x m b] by auto
  show ?thesis
    using spec q0 by (auto simp: menu_view_of_def ov dish(2) so item_sold_out_def remaining_of_def new_override_def
        Let_def split: if_splits)
qed

theorem limit_shows_on_the_menu_witness:
  "\<exists>v d' x. setStationItemLimit evening cook 7 80 (7 / 2) None floor_db = Inr (v, d') \<and> sm_remainingQty v = Some 3 \<and>
     mv_remainingQty (menu_view_of later waiter False d' x) = Some (nat \<lfloor>7 / 2 :: rat\<rfloor>)"
proof -
  have "bindR (setStationItemLimit evening cook 7 80 (7 / 2) None floor_db) (\<lambda>(v, d').
      Inr (sm_remainingQty v, row_by mi_id 80 (menu_items d') \<noteq> None)) = Inr (Some 3, True)"
    by code_simp
  then obtain v d' x where run: "setStationItemLimit evening cook 7 80 (7 / 2) None floor_db = Inr (v, d')"
    and v: "sm_remainingQty v = Some 3" and x: "row_by mi_id 80 (menu_items d') = Some x"
    by (elim run_pairE) auto
  have w: "branch_of waiter = branch_of cook" by code_simp
  from limit_shows_on_the_menu [OF run w, of x later False] row_by_SomeD [OF x] run v show ?thesis by auto
qed

text \<open>
  Withdrawing a limit or a sold-out mark makes the dish orderable again for everyone: no
  override of it is active any more and the menu shows it without a limit.
\<close>

theorem cleared_dish_is_on_sale_again:
  assumes run: "clearStationItemLimit e c sid m d = Inr (v, d')" and later: "env_now e \<le> env_now e'"
    and wc: "branch_of w = branch_of c" and dish: "x \<in> set (menu_items d')" "mi_id x = m"
  shows "\<not> mv_soldOut (menu_view_of e' w vip d' x) \<and> mv_remainingQty (menu_view_of e' w vip d' x) = None"
proof -
  from run obtain d1 where clr: "clearAvailabilityOverrides e c m d = Inr d1"
    and same: "overrides d' = overrides d1" "menu_items d' = menu_items d1"
    unfolding clearStationItemLimit_def by (rule markStationItemSoldOut_effect) blast
  from clr have ov1: "overrides d1 = overrides (endOpenOverrides (env_now e) (branch_of c) m d)"
    and mi1: "menu_items d1 = update_id mi_id m (\<lambda>x. x\<lparr>mi_soldOut := False, mi_version := mi_version x + 1\<rparr>) (menu_items d)"
    by (auto simp: clearAvailabilityOverrides_def inversion endOpenOverrides_def)
  have ov: "current_override (env_now e') (branch_of w) m d' = None"
    using no_override_after_end [OF later, of "branch_of c" m d] current_override_cong ov1 same(1) wc by metis
  have "\<not> mi_soldOut x" using dish same(2) mi1 sold_out_rows [of x m False] by auto
  with ov dish(2) show ?thesis by (simp add: menu_view_of_def item_sold_out_def remaining_of_def)
qed

theorem cleared_dish_is_on_sale_again_witness:
  "\<exists>v d' x. clearStationItemLimit evening cook 7 80 (floor_db\<lparr>overrides := [limit_85]\<rparr>) = Inr (v, d') \<and>
     x \<in> set (menu_items d') \<and> \<not> mv_soldOut (menu_view_of later waiter False d' x)"
proof -
  have "bindR (clearStationItemLimit evening cook 7 80 (floor_db\<lparr>overrides := [limit_85]\<rparr>)) (\<lambda>(v, d').
      Inr (row_by mi_id 80 (menu_items d') \<noteq> None)) = Inr True"
    by code_simp
  then obtain v d' x where run: "clearStationItemLimit evening cook 7 80 (floor_db\<lparr>overrides := [limit_85]\<rparr>) = Inr (v, d')"
    and x: "row_by mi_id 80 (menu_items d') = Some x"
    by (elim run_pairE) auto
  have w: "branch_of waiter = branch_of cook" and t: "env_now evening \<le> env_now later" by code_simp+
  from cleared_dish_is_on_sale_again [OF run t w, of x False] row_by_SomeD [OF x] run show ?thesis by blast
qed

text \<open>
  The queue of a station is exactly the uncancelled tickets it is preparing in the states
  asked for, each once and oldest first; a station that is off line shows none.
\<close>

theorem queue_shows_the_open_tickets:
  assumes run: "listQueue e c sid raw d = Inr q" and on: "\<not> sq_offline q"
  shows "\<exists>is. sq_data q = map (toTicketDto (env_now e) d) is \<and> sorted (map queue_order is) \<and>
     mset is = filter_mset (in_queue c sid (parseStates raw)) (mset (order_items d))"
proof -
  from run obtain s where s: "find_station c sid d = Some s"
    and q: "sq_data q = map (toTicketDto (env_now e) d)
      (sort_key queue_order (filter (in_queue c (sn_id s) (parseStates raw)) (order_items d)))"
    using on by (auto simp: listQueue_def inversion Let_def split: option.splits if_splits)
  from s have "sn_id s = sid" by (auto simp: find_station_def dest: find_Some_in)
  then show ?thesis by (intro exI [of _ "sort_key queue_order (filter (in_queue c sid (parseStates raw)) (order_items d))"])
      (simp add: q)
qed

theorem queue_shows_the_open_tickets_witness:
  "\<exists>q is. listQueue evening cook 7 (Some ''queued,ready'') floor_db = Inr q \<and>
     sq_data q = map (toTicketDto (env_now evening) floor_db) is \<and>
     mset is = filter_mset (in_queue cook 7 (parseStates (Some ''queued,ready''))) (mset (order_items floor_db))"
proof -
  have "bindR (listQueue evening cook 7 (Some ''queued,ready'') floor_db) (\<lambda>q. Inr (sq_offline q)) = Inr False"
    by code_simp
  then obtain q where run: "listQueue evening cook 7 (Some ''queued,ready'') floor_db = Inr q" and "\<not> sq_offline q"
    unfolding bindR_eq_Inr by auto
  from queue_shows_the_open_tickets [OF this] run show ?thesis by blast
qed

end
