(* ===== verification/Lifecycle.thy ===== *)
theory Lifecycle
  imports Stations
begin

text \<open>
  The life of an order item across the three services that change it: \<open>orders.service.ts\<close>
  creates, queues and serves it, \<open>stations.service.ts\<close> prepares it,
  \<open>order-item-mutations.service.ts\<close> changes and cancels it. \<open>floor_step\<close> is one successful
  operation on the whole database, \<open>item_edge\<close> the abstract state machine of one item; the
  refinement theorem says that every operation moves every item along an edge or leaves it
  alone. The invariant \<open>requests_inv\<close> ties the pending requests to the states of their items.
\<close>

section \<open>The abstract machine\<close>

inductive item_edge :: "item_state \<Rightarrow> item_state \<Rightarrow> bool" where
  send: "item_edge CONFIRMED QUEUED"
| acknowledged: "item_edge QUEUED ACKNOWLEDGED"
| started: "s \<in> {QUEUED, ACKNOWLEDGED} \<Longrightarrow> item_edge s IN_PREPARATION"
| ready: "s \<in> {QUEUED, ACKNOWLEDGED, IN_PREPARATION} \<Longrightarrow> item_edge s READY"
| served: "item_edge READY SERVED"
| changed: "s \<in> {QUEUED, ACKNOWLEDGED} \<Longrightarrow> t \<in> {s, QUEUED} \<Longrightarrow> item_edge s t"
| cancelled: "s \<noteq> SERVED \<Longrightarrow> s \<noteq> CANCELLED \<Longrightarrow> item_edge s CANCELLED"
| asked: "s \<in> {IN_PREPARATION, READY} \<Longrightarrow> t \<in> {CANCELLATION_REQUESTED, CHANGE_REQUESTED} \<Longrightarrow> item_edge s t"
| decided: "s \<in> {CANCELLATION_REQUESTED, CHANGE_REQUESTED} \<Longrightarrow> t \<in> {QUEUED, IN_PREPARATION, READY} \<Longrightarrow> item_edge s t"
| revived: "t \<in> {QUEUED, IN_PREPARATION, READY, CANCELLED} \<Longrightarrow> item_edge CANCELLED t"

code_pred item_edge .

inductive_cases served_edge [elim!]: "item_edge SERVED t"
inductive_simps confirmed_edge: "item_edge CONFIRMED t"
inductive_simps to_served_edge: "item_edge s SERVED"

text \<open>Nothing leads out of SERVED; the only way into it is from READY.\<close>

lemma served_no_edge [simp]: "\<not> item_edge SERVED t"
  by blast

lemma into_served [simp]: "item_edge s SERVED \<longleftrightarrow> s = READY"
  by (auto simp: to_served_edge)

section \<open>Operations on the floor\<close>

inductive floor_step :: "db \<Rightarrow> db \<Rightarrow> bool" where
  confirm: "confirmOrder e c dto key d = Inr (res, d') \<Longrightarrow> floor_step d d'"
| send: "sendToKitchen e c sid oid d = Inr (k, d') \<Longrightarrow> floor_step d d'"
| serve: "markServed e c iid n d = Inr (i, d') \<Longrightarrow> floor_step d d'"
| acknowledge: "acknowledge e c iid n d = Inr (t, d') \<Longrightarrow> floor_step d d'"
| start: "startPreparation e c iid n d = Inr (t, d') \<Longrightarrow> floor_step d d'"
| ready: "markReady e c iid n d = Inr (t, d') \<Longrightarrow> floor_step d d'"
| cannot: "reportCannotPrepare e c iid rep d = Inr (t, d') \<Longrightarrow> floor_step d d'"
| cancel: "directCancel e c iid reason n d = Inr (m, d') \<Longrightarrow> floor_step d d'"
| force: "forceCancel e c iid reason n d = Inr (m, d') \<Longrightarrow> floor_step d d'"
| ask_cancel: "requestCancellation e c iid reason n d = Inr (m, d') \<Longrightarrow> floor_step d d'"
| ask_change: "requestChange e c iid ch why n d = Inr (m, d') \<Longrightarrow> floor_step d d'"
| decide_cancel: "decideCancellation e c rid why n approve d = Inr (m, d') \<Longrightarrow> floor_step d d'"
| decide_change: "decideChange e c rid why n approve d = Inr (m, d') \<Longrightarrow> floor_step d d'"

text \<open>From an evening that opens with no items and no requests.\<close>

inductive floor_reachable :: "db \<Rightarrow> bool" where
  open_floor: "db_ok d \<Longrightarrow> order_items d = [] \<Longrightarrow> cancellation_requests d = [] \<Longrightarrow> change_requests d = [] \<Longrightarrow>
     floor_reachable d"
| step: "floor_reachable d \<Longrightarrow> floor_step d d' \<Longrightarrow> floor_reachable d'"

section \<open>The invariant\<close>

text \<open>Both kinds of request are rows with an item and a status; \<open>pending_for\<close> reads either table.\<close>

definition pending_for :: "('r \<Rightarrow> id) \<Rightarrow> ('r \<Rightarrow> approval_status) \<Rightarrow> id \<Rightarrow> 'r list \<Rightarrow> bool" where
  "pending_for item st iid rs \<longleftrightarrow> (\<exists>r \<in> set rs. item r = iid \<and> st r = A_PENDING)"

abbreviation cancel_pending :: "id \<Rightarrow> db \<Rightarrow> bool" where
  "cancel_pending iid d \<equiv> pending_for cr_orderItemId cr_status iid (cancellation_requests d)"

abbreviation change_pending :: "id \<Rightarrow> db \<Rightarrow> bool" where
  "change_pending iid d \<equiv> pending_for ch_orderItemId ch_status iid (change_requests d)"

definition state_of :: "id \<Rightarrow> db \<Rightarrow> item_state option" where
  "state_of iid d = map_option oi_state (row_by oi_id iid (order_items d))"

text \<open>
  What holds of one item, given whether a cancellation and a change of it are pending: a
  pending request finds the item in the state it was put into, unless it was cancelled by force
  since; never both kinds at once; and an item in a requested state has its request.
\<close>

definition item_inv :: "bool \<Rightarrow> bool \<Rightarrow> item_state option \<Rightarrow> bool" where
  "item_inv cp hp s \<longleftrightarrow>
     (cp \<longrightarrow> s = Some CANCELLATION_REQUESTED \<or> s = Some CANCELLED) \<and>
     (hp \<longrightarrow> s = Some CHANGE_REQUESTED \<or> s = Some CANCELLED) \<and> \<not> (cp \<and> hp) \<and>
     (s = Some CANCELLATION_REQUESTED \<longrightarrow> cp) \<and> (s = Some CHANGE_REQUESTED \<longrightarrow> hp)"

definition requests_inv :: "db \<Rightarrow> bool" where
  "requests_inv d \<longleftrightarrow>
     (\<forall>r \<in> set (cancellation_requests d). cr_status r = A_PENDING \<longrightarrow> cr_stateAtRequest r \<in> set protected_states) \<and>
     (\<forall>r \<in> set (change_requests d). ch_status r = A_PENDING \<longrightarrow> ch_stateAtRequest r \<in> set protected_states) \<and>
     (\<forall>iid. item_inv (cancel_pending iid d) (change_pending iid d) (state_of iid d))"

lemma pending_append:
  "pending_for item st iid (rs @ [r]) \<longleftrightarrow> pending_for item st iid rs \<or> (item r = iid \<and> st r = A_PENDING)"
  by (auto simp: pending_for_def)

lemma pending_decide:
  assumes "distinct (map key rs)" and "keyed (\<lambda>r. st r = A_PENDING) item rs"
    and r: "r \<in> set rs" "key r = k" "st r = A_PENDING" and f: "\<And>x. item (f x) = item x" "\<And>x. st (f x) \<noteq> A_PENDING"
  shows "pending_for item st iid (update_id key k f rs) \<longleftrightarrow> pending_for item st iid rs \<and> iid \<noteq> item r"
proof -
  have key_r: "x = r" if "x \<in> set rs" "key x = k" for x
    using row_by_distinct [OF assms(1) that(1)] row_by_distinct [OF assms(1) r(1)] that(2) r(2) by simp
  have only: "x = r" if "x \<in> set rs" "st x = A_PENDING" "item x = item r" for x
  proof -
    have "inj_on item (set (filter (\<lambda>r. st r = A_PENDING) rs))"
      using assms(2) by (simp add: keyed_def distinct_map)
    with that r show ?thesis by (auto dest: inj_onD)
  qed
  have "x \<in> set (update_id key k f rs) \<and> st x = A_PENDING \<longleftrightarrow> x \<in> set rs \<and> st x = A_PENDING \<and> key x \<noteq> k" for x
    using f(2) by (auto simp: update_id_def update_many_def)
  then have "pending_for item st iid (update_id key k f rs) \<longleftrightarrow>
      (\<exists>x \<in> set rs. item x = iid \<and> st x = A_PENDING \<and> key x \<noteq> k)"
    unfolding pending_for_def by blast
  also have "\<dots> \<longleftrightarrow> pending_for item st iid rs \<and> iid \<noteq> item r"
    unfolding pending_for_def using key_r only r by (metis (mono_tags))
  finally show ?thesis .
qed

lemma requests_decided:
  assumes "\<forall>r \<in> set rs. st r = A_PENDING \<longrightarrow> P r" and "\<And>x. st (f x) \<noteq> A_PENDING"
  shows "\<forall>r \<in> set (update_id key k f rs). st r = A_PENDING \<longrightarrow> P r"
  using assms by (auto simp: update_id_def update_many_def)

section \<open>How an operation moves the items\<close>

definition moves :: "db \<Rightarrow> db \<Rightarrow> bool" where
  "moves d d' \<longleftrightarrow> (\<forall>iid i. row_by oi_id iid (order_items d) = Some i \<longrightarrow>
     (\<exists>i'. row_by oi_id iid (order_items d') = Some i' \<and>
        (i' = i \<or> item_edge (oi_state i) (oi_state i') \<and> oi_version i' = oi_version i + 1)))"

lemma moves_refl [intro, simp]: "moves d d"
  by (simp add: moves_def)

lemma moves_cong: "order_items d' = order_items d \<Longrightarrow> moves d d'"
  by (simp add: moves_def)

lemma moves_append: "order_items d' = order_items d @ is \<Longrightarrow> moves d d'"
  by (simp add: moves_def row_by_append)

lemma item_write_moves:
  assumes "item_write iid f d d'" and "row_by oi_id iid (order_items d) = Some i" and "item_edge (oi_state i) (oi_state (f i))"
  shows "moves d d'"
  using assms by (auto simp: moves_def item_write_row)

lemma state_of_write:
  assumes "item_write iid f d d'" and "row_by oi_id iid (order_items d) = Some i"
  shows "state_of j d' = (if j = iid then Some (oi_state (f i)) else state_of j d)"
  using assms by (auto simp: state_of_def item_write_row)

lemma state_of_row: "row_by oi_id iid (order_items d) = Some i \<Longrightarrow> state_of iid d = Some (oi_state i)"
  by (simp add: state_of_def)

text \<open>The invariant survives a step that leaves the requests alone and neither puts an item
  into a requested state nor takes one out of it, except by cancelling.\<close>

lemma plain_inv:
  assumes "requests_inv d" and "cancellation_requests d' = cancellation_requests d" and "change_requests d' = change_requests d"
    and "\<And>iid. state_of iid d' = state_of iid d \<or> state_of iid d' = Some CANCELLED \<or>
       (state_of iid d \<notin> {Some CANCELLATION_REQUESTED, Some CHANGE_REQUESTED, Some CANCELLED} \<and>
        state_of iid d' \<notin> {Some CANCELLATION_REQUESTED, Some CHANGE_REQUESTED})"
  shows "requests_inv d'"
proof -
  have "item_inv (cancel_pending iid d) (change_pending iid d) (state_of iid d')" for iid
    using assms(1) assms(4) [of iid] by (auto simp: requests_inv_def item_inv_def)
  with assms(1) show ?thesis by (simp add: requests_inv_def assms(2,3))
qed

lemma write_inv:
  assumes inv: "requests_inv d" and w: "item_write iid f d d'" and i: "row_by oi_id iid (order_items d) = Some i"
    and same: "cancellation_requests d' = cancellation_requests d" "change_requests d' = change_requests d"
    and st: "oi_state (f i) = CANCELLED \<or>
       (oi_state i \<notin> {CANCELLATION_REQUESTED, CHANGE_REQUESTED, CANCELLED} \<and>
        oi_state (f i) \<notin> {CANCELLATION_REQUESTED, CHANGE_REQUESTED})"
  shows "requests_inv d'"
  using st by (intro plain_inv [OF inv same]) (auto simp: state_of_write [OF w i] state_of_row [OF i])

text \<open>What a single write to an item owes.\<close>

definition good_step :: "db \<Rightarrow> db \<Rightarrow> bool" where
  "good_step d d' \<longleftrightarrow> moves d d' \<and> requests_inv d' \<and> db_ok d'"

lemma good_stepI: "moves d d' \<Longrightarrow> requests_inv d' \<Longrightarrow> db_ok d' \<Longrightarrow> good_step d d'"
  by (simp add: good_step_def)

lemma write_good:
  assumes "requests_inv d" and "item_write iid f d d'" and "row_by oi_id iid (order_items d) = Some i"
    and "cancellation_requests d' = cancellation_requests d" and "change_requests d' = change_requests d"
    and "oi_state (f i) = CANCELLED \<or>
       (oi_state i \<notin> {CANCELLATION_REQUESTED, CHANGE_REQUESTED, CANCELLED} \<and>
        oi_state (f i) \<notin> {CANCELLATION_REQUESTED, CHANGE_REQUESTED})"
    and "item_edge (oi_state i) (oi_state (f i))" and "db_ok d'"
  shows "good_step d d'"
  using assms item_write_moves write_inv by (intro good_stepI) metis+

lemma state_of_append:
  assumes "order_items d' = order_items d @ is" and "\<And>i. i \<in> set is \<Longrightarrow> oi_state i = s"
  shows "state_of iid d' = state_of iid d \<or> state_of iid d = None \<and> state_of iid d' = Some s"
  using assms(2) row_by_SomeD [of oi_id iid "is"]
  by (cases "row_by oi_id iid is") (auto simp: state_of_def assms(1) row_by_append split: option.splits)

lemma confirm_good:
  assumes ok: "db_ok d" and inv: "requests_inv d" and run: "confirmOrder e c dto key d = Inr (res, d')"
  shows "good_step d d'"
proof (cases "order_items d' = order_items d \<and> d' = d")
  case True
  with ok inv show ?thesis by (simp add: good_step_def)
next
  case False
  then obtain k cf ps where "confirmTx e c k dto cf ps d = Inr (res, d')"
    using run by (auto simp: confirmOrder_def confirmBody_def Let_def inversion dest!: guarded_fresh)
  note tx = this and rows = confirmTx_rows [OF this]
  from tx have same: "cancellation_requests d' = cancellation_requests d" "change_requests d' = change_requests d"
    and ok': "db_ok d'"
  proof (atomize (full), rule confirmTx_success, goal_cases)
    case (1 d2 d3 d4 soldOut seat items)
    from stock_only_frame(12,13) [OF deplete_items_stock_only [OF 1(2)]] menu_only_frame(14,15) [OF countdowns_menu_only [OF 1(3)]]
      touch_target_frame(9,10) [OF 1(4)] 1(5,6)
    show ?case by auto
  qed
  have "state_of iid d' = state_of iid d \<or> state_of iid d = None \<and> state_of iid d' = Some QUEUED" for iid
    by (rule state_of_append [OF rows(1)]) (auto simp: order_item_row_def)
  then have "requests_inv d'"
    by (intro plain_inv [OF inv same]) (metis empty_iff insert_iff item_state.distinct option.distinct option.inject)
  with ok' moves_append [OF rows(1)] show ?thesis by (intro good_stepI)
qed

lemma send_good:
  assumes ok: "db_ok d" and inv: "requests_inv d" and run: "sendToKitchen e c sid oid d = Inr (k, d')"
  shows "good_step d d'"
proof -
  let ?P = "\<lambda>i. oi_tableSessionId i = Some sid \<and> oi_branchId i = branch_of c \<and> oi_cancelledAt i = None \<and>
     oi_state i = CONFIRMED \<and> (case oid of None \<Rightarrow> True | Some x \<Rightarrow> oi_orderId i = x)"
  from run have "d' = d \<or> (db_ok d' \<and> order_items d' = update_many ?P (\<lambda>i. i\<lparr>oi_state := QUEUED,
        oi_queuedAt := Some (env_now e), oi_version := oi_version i + 1\<rparr>) (order_items d) \<and>
      cancellation_requests d' = cancellation_requests d \<and> change_requests d' = change_requests d)"
    by (cases oid) (auto simp: sendToKitchen_def Let_def inversion bump_table_def split: option.splits if_splits)
  then have "d' = d \<or> (\<exists>P. db_ok d' \<and> (\<forall>i. P i \<longrightarrow> oi_state i = CONFIRMED) \<and>
      order_items d' = update_many P (\<lambda>i. i\<lparr>oi_state := QUEUED, oi_queuedAt := Some (env_now e),
        oi_version := oi_version i + 1\<rparr>) (order_items d) \<and>
      cancellation_requests d' = cancellation_requests d \<and> change_requests d' = change_requests d)"
    by (elim disjE conjE, blast, intro disjI2 exI [of _ ?P]) simp
  then show ?thesis
  proof (elim disjE exE conjE)
    assume "d' = d"
    with ok inv show ?thesis by (simp add: good_step_def)
  next
    fix P
    let ?f = "\<lambda>i. i\<lparr>oi_state := QUEUED, oi_queuedAt := Some (env_now e), oi_version := oi_version i + 1\<rparr>"
    assume ok': "db_ok d'" and P: "\<forall>i. P i \<longrightarrow> oi_state i = CONFIRMED"
      and items: "order_items d' = update_many P ?f (order_items d)"
      and same: "cancellation_requests d' = cancellation_requests d" "change_requests d' = change_requests d"
    have row: "row_by oi_id iid (order_items d') = map_option (\<lambda>i. if P i then ?f i else i) (row_by oi_id iid (order_items d))" for iid
    proof -
      have "row_by oi_id iid (update_many P ?f xs) = map_option (\<lambda>i. if P i then ?f i else i) (row_by oi_id iid xs)" for xs
        by (induction xs) (auto simp: update_many_def row_by_Cons)
      then show ?thesis by (simp add: items)
    qed
    have "moves d d'"
    proof (unfold moves_def row, intro allI impI)
      fix iid i
      assume i: "row_by oi_id iid (order_items d) = Some i"
      show "\<exists>i'. map_option (\<lambda>i. if P i then ?f i else i) (row_by oi_id iid (order_items d)) = Some i' \<and>
         (i' = i \<or> item_edge (oi_state i) (oi_state i') \<and> oi_version i' = oi_version i + 1)"
        using P item_edge.send by (cases "P i") (simp_all add: i)
    qed
    moreover have "requests_inv d'"
    proof (rule plain_inv [OF inv same])
      fix iid
      show "state_of iid d' = state_of iid d \<or> state_of iid d' = Some CANCELLED \<or>
         (state_of iid d \<notin> {Some CANCELLATION_REQUESTED, Some CHANGE_REQUESTED, Some CANCELLED} \<and>
          state_of iid d' \<notin> {Some CANCELLATION_REQUESTED, Some CHANGE_REQUESTED})"
        using P by (cases "row_by oi_id iid (order_items d)") (simp_all add: state_of_def row)
    qed
    ultimately show ?thesis using ok' by (intro good_stepI)
  qed
qed

lemma markServed_effect:
  assumes "markServed e c iid n d = Inr (u, d')" and "primary_key oi_id (order_items d)"
  obtains i where "row_by oi_id iid (order_items d) = Some i" and "oi_version i = n" and "oi_state i = READY"
    and "item_write iid (\<lambda>x. x\<lparr>oi_state := SERVED, oi_servedAt := Some (env_now e)\<rparr>) d d'" and "db_ok d'"
    and "cancellation_requests d' = cancellation_requests d" and "change_requests d' = change_requests d"
proof -
  from assms(1) obtain i where f: "find_item c iid d = Some i" and v: "oi_version i = n" and st: "oi_state i = READY"
    and d': "d' = set_item iid (\<lambda>x. x\<lparr>oi_state := SERVED, oi_servedAt := Some (env_now e)\<rparr>) d" and ok: "db_ok d'"
    unfolding find_item_def by (auto simp: markServed_def Let_def inversion split: option.splits if_splits)
  from find_item_row [OF f assms(2)] have row: "row_by oi_id iid (order_items d) = Some i" by simp
  show thesis
    using row v st ok by (intro that [of i]) (auto simp: d' item_write_def)
qed

lemma cancel_good:
  assumes inv: "requests_inv d" and cs: "cancelSteps c now reason iid d = Inr (u, d')" and ok: "db_ok d'"
    and i: "row_by oi_id iid (order_items d) = Some i" and st: "oi_state i \<noteq> SERVED" "oi_state i \<noteq> CANCELLED"
  shows "good_step d d'"
  using cs
proof (rule cancelSteps_effect)
  fix j d2
  assume so: "stock_only (set_item iid (cancelled_row c now reason) d) d2"
    and d': "d' = clearActiveOrder (oi_tableSessionId j) d2"
    and w: "item_write iid (cancelled_row c now reason) d d'"
  show ?thesis
    using st ok stock_only_frame(12,13) [OF so]
    by (intro write_good [OF inv w i]) (auto simp: d' cancelled_row_def intro: item_edge.cancelled)
qed

lemma ask_cancel_good:
  assumes ok: "db_ok d" and inv: "requests_inv d" and run: "requestCancellation e c iid reason n d = Inr (m, d')"
  shows "good_step d d'"
  using run db_okD(3) [OF ok]
proof (cases rule: requestCancellation_effect)
  case direct
  then show ?thesis using db_okD(3) [OF ok]
  proof (rule directCancel_effect)
    fix i u
    assume "row_by oi_id iid (order_items d) = Some i" and "oi_state i \<in> set direct_cancel_states"
      and "cancelSteps c (env_now e) (trim reason) iid d = Inr (u, d')" and "db_ok d'"
    then show ?thesis by (intro cancel_good [OF inv]) (auto simp: direct_cancel_states_def)
  qed
next
  case (asked i)
  note w = asked(4) and i = asked(1)
  have st: "oi_state i \<in> {IN_PREPARATION, READY}" using asked(3) by (auto simp: protected_states_def)
  have none: "\<not> cancel_pending iid d" "\<not> change_pending iid d"
    using inv st by (auto simp: requests_inv_def item_inv_def state_of_row [OF i] dest: spec [of _ iid])
  have "item_inv (cancel_pending j d') (change_pending j d') (state_of j d')" for j
    using inv none asked(8) by (auto simp: asked(5) pending_append state_of_write [OF w i] requests_inv_def item_inv_def)
  then have "requests_inv d'"
    using inv asked(3,5,8) by (auto simp: requests_inv_def)
  moreover have "moves d d'" using st item_edge.asked by (intro item_write_moves [OF w i]) auto
  ultimately show ?thesis using asked(9) by (intro good_stepI)
qed

lemma decide_cancel_good:
  assumes ok: "db_ok d" and inv: "requests_inv d" and run: "decideCancellation e c rid why n approve d = Inr (m, d')"
  shows "good_step d d'"
  using run
proof (rule decideCancellation_effect, goal_cases)
  case (1 r i)
  from find_Some_in [OF 1(1)] have r: "r \<in> set (cancellation_requests d)" "cr_id r = rid" by auto
  note w = 1(8) and i = 1(3)
  let ?iid = "cr_orderItemId r"
  have pend: "cancel_pending ?iid d" using r 1(2) by (auto simp: pending_for_def)
  then have st: "oi_state i \<in> {CANCELLATION_REQUESTED, CANCELLED}" and nch: "\<not> change_pending ?iid d"
    using inv by (auto simp: requests_inv_def item_inv_def state_of_row [OF i] dest: spec [of _ ?iid])
  have at: "cr_stateAtRequest r \<in> set protected_states" using inv r 1(2) by (auto simp: requests_inv_def)
  let ?f = "decide_cancellation_row c (env_now e) why approve"
  have f: "cr_orderItemId (?f x) = cr_orderItemId x" "cr_status (?f x) \<noteq> A_PENDING" for x
    by (simp_all add: decide_cancellation_row_def)
  have pd: "cancel_pending j d' \<longleftrightarrow> cancel_pending j d \<and> j \<noteq> ?iid" for j
    unfolding 1(6)
    by (rule pending_decide) (use db_okD(17,18) [OF ok] r 1(2) f in \<open>auto simp: keyed_def\<close>)
  have "item_inv (cancel_pending j d') (change_pending j d') (state_of j d')" for j
    using inv nch at
    by (auto simp: pd 1(7) state_of_write [OF w i] requests_inv_def item_inv_def protected_states_def cancelled_row_def split: if_splits)
  moreover have "\<forall>r \<in> set (cancellation_requests d'). cr_status r = A_PENDING \<longrightarrow> cr_stateAtRequest r \<in> set protected_states"
    unfolding 1(6) by (rule requests_decided) (use inv f(2) in \<open>auto simp: requests_inv_def\<close>)
  ultimately have "requests_inv d'" using inv by (simp add: requests_inv_def 1(7))
  moreover have "moves d d'"
    using st at item_edge.decided item_edge.revived item_edge.cancelled
    by (intro item_write_moves [OF w i]) (auto simp: protected_states_def cancelled_row_def)
  ultimately show ?thesis using 1(5) by (intro good_stepI)
qed

lemma apply_change_good:
  assumes inv: "requests_inv d" and i: "row_by oi_id iid (order_items d) = Some i"
    and st: "oi_state i \<in> set direct_change_states" and ap: "applyChange e c i ch why True d = Inr (m, d')"
  shows "good_step d d'"
proof -
  have iid: "oi_id i = iid" using i by (auto dest: row_by_SomeD)
  from ap show ?thesis
  proof (rule applyChange_effect, goal_cases)
    case (1 f)
    note w = 1(1) [unfolded iid]
    have st': "oi_state i \<in> {QUEUED, ACKNOWLEDGED}" "oi_state (f i) \<in> {oi_state i, QUEUED}"
      using st 1(2) by (auto simp: direct_change_states_def)
    from 1(7) obtain new where new: "change_requests d' = change_requests d @ new" "\<forall>r \<in> set new. ch_status r = A_APPLIED"
      by blast
    then have pend: "change_pending j d' = change_pending j d" for j by (auto simp: pending_for_def)
    have "item_inv (cancel_pending j d') (change_pending j d') (state_of j d')" for j
      using inv st' by (auto simp: pend 1(5) state_of_write [OF w i] requests_inv_def item_inv_def
          state_of_row [OF i] dest: spec [of _ iid])
    then have "requests_inv d'" using inv new by (auto simp: requests_inv_def 1(5))
    moreover have "moves d d'" using st' item_edge.changed by (intro item_write_moves [OF w i]) auto
    ultimately show ?thesis using 1(4) by (intro good_stepI)
  qed
qed

lemma ask_change_good:
  assumes ok: "db_ok d" and inv: "requests_inv d" and run: "requestChange e c iid ch why n d = Inr (m, d')"
  shows "good_step d d'"
  using run db_okD(3) [OF ok]
proof (cases rule: requestChange_effect)
  case (1 i)
  then show ?thesis using apply_change_good [OF inv] by blast
next
  case (2 i)
  note w = 2(4) and i = 2(1)
  have st: "oi_state i \<in> {IN_PREPARATION, READY}" using 2(3) by (auto simp: protected_states_def)
  have iid: "oi_id i = iid" using i by (auto dest: row_by_SomeD)
  have none: "\<not> cancel_pending iid d" "\<not> change_pending iid d"
    using inv st by (auto simp: requests_inv_def item_inv_def state_of_row [OF i] dest: spec [of _ iid])
  have "item_inv (cancel_pending j d') (change_pending j d') (state_of j d')" for j
    using inv none iid by (auto simp: 2(5,6) pending_append state_of_write [OF w i] requests_inv_def item_inv_def change_row_def)
  then have "requests_inv d'"
    using inv 2(3) by (auto simp: requests_inv_def 2(5,6) change_row_def)
  moreover have "moves d d'" using st item_edge.asked by (intro item_write_moves [OF w i]) auto
  ultimately show ?thesis using 2(7) by (intro good_stepI)
qed

lemma decide_change_good:
  assumes ok: "db_ok d" and inv: "requests_inv d" and run: "decideChange e c rid why n approve d = Inr (m, d')"
  shows "good_step d d'"
  using run
proof (rule decideChange_effect, goal_cases)
  case (1 r i f)
  from find_Some_in [OF 1(1)] have r: "r \<in> set (change_requests d)" "ch_id r = rid" by auto
  note w = 1(8) and i = 1(3)
  let ?iid = "ch_orderItemId r"
  have pend: "change_pending ?iid d" using r 1(2) by (auto simp: pending_for_def)
  then have st: "oi_state i \<in> {CHANGE_REQUESTED, CANCELLED}" and nc: "\<not> cancel_pending ?iid d"
    using inv by (auto simp: requests_inv_def item_inv_def state_of_row [OF i] dest: spec [of _ ?iid])
  have at: "ch_stateAtRequest r \<in> set protected_states" using inv r 1(2) by (auto simp: requests_inv_def)
  have fst: "oi_state (f i) \<in> {QUEUED, IN_PREPARATION, READY}"
    using st at 1(9) [of i] by (auto simp: direct_change_states_def protected_states_def split: if_splits)
  let ?g = "decide_change_row c (env_now e) why (if approve then A_APPLIED else A_REJECTED)"
  have g: "ch_orderItemId (?g x) = ch_orderItemId x" "ch_status (?g x) \<noteq> A_PENDING" for x
    by (simp_all add: decide_change_row_def)
  have pd: "change_pending j d' \<longleftrightarrow> change_pending j d \<and> j \<noteq> ?iid" for j
    unfolding 1(6)
    by (rule pending_decide) (use db_okD(19,20) [OF ok] r 1(2) g in \<open>auto simp: keyed_def\<close>)
  have "item_inv (cancel_pending j d') (change_pending j d') (state_of j d')" for j
    using inv nc fst by (auto simp: pd 1(7) state_of_write [OF w i] requests_inv_def item_inv_def)
  moreover have "\<forall>r \<in> set (change_requests d'). ch_status r = A_PENDING \<longrightarrow> ch_stateAtRequest r \<in> set protected_states"
    unfolding 1(6) by (rule requests_decided) (use inv g(2) in \<open>auto simp: requests_inv_def\<close>)
  ultimately have "requests_inv d'" using inv by (simp add: requests_inv_def 1(7))
  moreover have "moves d d'"
    using st fst item_edge.decided item_edge.revived by (intro item_write_moves [OF w i]) auto
  ultimately show ?thesis using 1(5) by (intro good_stepI)
qed

lemma acknowledge_good:
  assumes "db_ok d" and "requests_inv d" and "acknowledge e c iid n d = Inr (t, d')"
  shows "good_step d d'"
  using assms(3) db_okD(3) [OF assms(1)]
  by (rule acknowledge_effect) (rule write_good [OF assms(2)], auto intro: item_edge.acknowledged)

lemma start_good:
  assumes "db_ok d" and "requests_inv d" and "startPreparation e c iid n d = Inr (t, d')"
  shows "good_step d d'"
  using assms(3) db_okD(3) [OF assms(1)]
  by (rule startPreparation_effect) (rule write_good [OF assms(2)], auto intro: item_edge.started)

lemma ready_good:
  assumes "db_ok d" and "requests_inv d" and "markReady e c iid n d = Inr (t, d')"
  shows "good_step d d'"
  using assms(3) db_okD(3) [OF assms(1)]
  by (rule markReady_effect) (rule write_good [OF assms(2)], auto intro: item_edge.ready split: if_splits)

lemma serve_good:
  assumes "db_ok d" and "requests_inv d" and "markServed e c iid n d = Inr (u, d')"
  shows "good_step d d'"
  using assms(3) db_okD(3) [OF assms(1)]
  by (rule markServed_effect) (rule write_good [OF assms(2)], auto intro: item_edge.served)

lemma direct_cancel_good:
  assumes "db_ok d" and "requests_inv d" and "directCancel e c iid reason n d = Inr (m, d')"
  shows "good_step d d'"
  using assms(3) db_okD(3) [OF assms(1)]
  by (rule directCancel_effect) (rule cancel_good [OF assms(2)], auto simp: direct_cancel_states_def)

lemma force_cancel_good:
  assumes "db_ok d" and "requests_inv d" and "forceCancel e c iid reason n d = Inr (m, d')"
  shows "good_step d d'"
  using assms(3) db_okD(3) [OF assms(1)]
  by (rule forceCancel_effect) (rule cancel_good [OF assms(2)], auto)

lemmas floor_goods = confirm_good send_good serve_good acknowledge_good start_good ready_good
  direct_cancel_good force_cancel_good ask_cancel_good ask_change_good decide_cancel_good decide_change_good

lemma floor_step_good:
  assumes "floor_step d d'" and "db_ok d" and "requests_inv d"
  shows "good_step d d'"
  using assms by cases (auto intro: floor_goods simp: cannot_prepare_rolled_back)

lemma reachable_good: "floor_reachable d \<Longrightarrow> requests_inv d \<and> db_ok d"
proof (induction rule: floor_reachable.induct)
  case (open_floor d)
  then show ?case by (simp add: requests_inv_def item_inv_def pending_for_def state_of_def)
next
  case (step d d')
  then show ?case using floor_step_good by (simp add: good_step_def)
qed

lemma reachable_steps: "floor_step\<^sup>*\<^sup>* d d' \<Longrightarrow> floor_reachable d \<Longrightarrow> floor_reachable d'"
  by (induction rule: rtranclp_induct) (auto intro: floor_reachable.step)

text \<open>A run moves an item along a path of the machine, one edge per version.\<close>

lemma run_follows_edges:
  assumes "floor_step\<^sup>*\<^sup>* d d'" and "floor_reachable d" and "row_by oi_id iid (order_items d) = Some i"
  shows "\<exists>i'. row_by oi_id iid (order_items d') = Some i' \<and> oi_version i \<le> oi_version i' \<and>
     (item_edge ^^ (oi_version i' - oi_version i)) (oi_state i) (oi_state i') \<and>
     (oi_version i' = oi_version i \<longrightarrow> i' = i)"
  using assms
proof (induction rule: rtranclp_induct)
  case base
  then show ?case by auto
next
  case (step d1 d2)
  then obtain j where j: "row_by oi_id iid (order_items d1) = Some j" "oi_version i \<le> oi_version j"
    "(item_edge ^^ (oi_version j - oi_version i)) (oi_state i) (oi_state j)"
    "oi_version j = oi_version i \<longrightarrow> j = i" by blast
  have "moves d1 d2"
    using floor_step_good [OF step.hyps(2)] reachable_good [OF reachable_steps [OF step.hyps(1) step.prems(1)]]
    by (simp add: good_step_def)
  then obtain k where k: "row_by oi_id iid (order_items d2) = Some k"
    "k = j \<or> item_edge (oi_state j) (oi_state k) \<and> oi_version k = oi_version j + 1"
    using j(1) unfolding moves_def by blast
  show ?case
  proof (cases "k = j")
    case True
    with j k show ?thesis by auto
  next
    case False
    with j k have "oi_version k - oi_version i = Suc (oi_version j - oi_version i)"
      and "item_edge (oi_state j) (oi_state k)" by auto
    with j k False show ?thesis by (auto intro: relcomppI)
  qed
qed

lemma no_path_from_served: "(item_edge ^^ n) SERVED t \<Longrightarrow> n = 0"
  by (cases n) (auto simp del: relpowp.simps(2) dest: relpowp_Suc_D2)

section \<open>One operation per version of an item\<close>

datatype item_op =
    Acknowledge env auth_ctx
  | Start env auth_ctx
  | Ready env auth_ctx
  | Serve env auth_ctx
  | Cancel env auth_ctx string
  | Force_cancel env auth_ctx string
  | Ask_cancel env auth_ctx string
  | Ask_change env auth_ctx requested_change "string option"
  | Cannot_prepare env auth_ctx cannot_prepare_dto
  | Decide_cancel env auth_ctx id "string option" bool
  | Decide_change env auth_ctx id "string option" bool

definition forget :: "('a \<times> db) result \<Rightarrow> (unit \<times> db) result" where
  "forget m = bindR m (\<lambda>(a, d). Inr ((), d))"

lemma forget_eq_Inr [simp]: "forget m = Inr (u, d') \<longleftrightarrow> (\<exists>a. m = Inr (a, d'))"
  by (cases m) (auto simp: forget_def)

text \<open>
  The requests that name an item and its version, on a database that keeps its constraints. A
  decision names a request for approval and the version of its item.
\<close>

definition decides :: "('r \<Rightarrow> id) \<Rightarrow> ('r \<Rightarrow> id) \<Rightarrow> id \<Rightarrow> id \<Rightarrow> 'r list \<Rightarrow> bool" where
  "decides key item rid iid rs \<longleftrightarrow> list_ex (\<lambda>r. key r = rid \<and> item r = iid) rs"

fun item_request :: "id \<Rightarrow> item_op \<Rightarrow> nat \<Rightarrow> db \<Rightarrow> (unit \<times> db) result" where
  "item_request iid (Acknowledge e c) n d = forget (acknowledge e c iid n d)"
| "item_request iid (Start e c) n d = forget (startPreparation e c iid n d)"
| "item_request iid (Ready e c) n d = forget (markReady e c iid n d)"
| "item_request iid (Serve e c) n d = forget (markServed e c iid n d)"
| "item_request iid (Cancel e c why) n d = forget (directCancel e c iid why n d)"
| "item_request iid (Force_cancel e c why) n d = forget (forceCancel e c iid why n d)"
| "item_request iid (Ask_cancel e c why) n d = forget (requestCancellation e c iid why n d)"
| "item_request iid (Ask_change e c ch why) n d = forget (requestChange e c iid ch why n d)"
| "item_request iid (Cannot_prepare e c dto) n d = forget (reportCannotPrepare e c iid (dto\<lparr>rp_expectedVersion := n\<rparr>) d)"
| "item_request iid (Decide_cancel e c rid why approve) n d =
     (if decides cr_id cr_orderItemId rid iid (cancellation_requests d) then forget (decideCancellation e c rid why n approve d)
      else Inl (NotFound ''Cancellation request not found.''))"
| "item_request iid (Decide_change e c rid why approve) n d =
     (if decides ch_id ch_orderItemId rid iid (change_requests d) then forget (decideChange e c rid why n approve d)
      else Inl (NotFound ''Change request not found.''))"

definition run_item :: "id \<Rightarrow> item_op \<Rightarrow> nat \<Rightarrow> db \<Rightarrow> (unit \<times> db) result" where
  "run_item iid x n d = bindR (commit d) (item_request iid x n)"

definition item_version :: "id \<Rightarrow> db \<Rightarrow> nat option" where
  "item_version iid d = map_option oi_version (row_by oi_id iid (order_items d))"

lemma write_version:
  "item_write iid f d d' \<Longrightarrow> row_by oi_id iid (order_items d) = Some i \<Longrightarrow> oi_version i = n \<Longrightarrow>
     item_version iid d = Some n \<and> item_version iid d' = Some (n + 1)"
  by (simp add: item_version_def item_write_id)

lemma cancelSteps_version:
  "cancelSteps c now why iid d = Inr (u, d') \<Longrightarrow> row_by oi_id iid (order_items d) = Some i \<Longrightarrow> oi_version i = n \<Longrightarrow>
     item_version iid d = Some n \<and> item_version iid d' = Some (n + 1)"
  by (erule cancelSteps_effect, rule write_version) assumption+

lemma directCancel_version:
  assumes "directCancel e c iid why n d = Inr (m, d')" and "primary_key oi_id (order_items d)"
  shows "item_version iid d = Some n \<and> item_version iid d' = Some (n + 1)"
  using assms by (rule directCancel_effect) (rule cancelSteps_version)

lemma requestCancellation_version:
  assumes "requestCancellation e c iid why n d = Inr (m, d')" and "primary_key oi_id (order_items d)"
  shows "item_version iid d = Some n \<and> item_version iid d' = Some (n + 1)"
  using assms
proof (cases rule: requestCancellation_effect)
  case direct
  then show ?thesis using assms(2) by (rule directCancel_version)
next
  case (asked i)
  then show ?thesis by (intro write_version)
qed

lemma requestChange_version:
  assumes "requestChange e c iid ch why n d = Inr (m, d')" and "primary_key oi_id (order_items d)"
  shows "item_version iid d = Some n \<and> item_version iid d' = Some (n + 1)"
  using assms
proof (cases rule: requestChange_effect)
  case (1 i)
  then have "oi_id i = iid" by (auto dest: row_by_SomeD)
  with 1 show ?thesis by (auto elim!: applyChange_effect dest: write_version)
next
  case (2 i)
  then show ?thesis by (intro write_version)
qed

lemma decided_item:
  "primary_key key rs \<Longrightarrow> decides key item rid iid rs \<Longrightarrow> find (\<lambda>r. key r = rid \<and> P r) rs = Some r \<Longrightarrow> item r = iid"
  by (auto simp: decides_def list_ex_iff dest!: primary_keyD find_Some_in) (metis distinct_map inj_onD)

lemma decisions_version:
  assumes ok: "db_ok d"
  shows "decides cr_id cr_orderItemId rid iid (cancellation_requests d) \<Longrightarrow> decideCancellation e c rid why n approve d = Inr (m, d') \<Longrightarrow>
      item_version iid d = Some n \<and> item_version iid d' = Some (n + 1)"
    and "decides ch_id ch_orderItemId rid iid (change_requests d) \<Longrightarrow> decideChange e c rid why n approve d = Inr (m, d') \<Longrightarrow>
      item_version iid d = Some n \<and> item_version iid d' = Some (n + 1)"
proof -
  show "item_version iid d = Some n \<and> item_version iid d' = Some (n + 1)"
    if on: "decides cr_id cr_orderItemId rid iid (cancellation_requests d)" and run: "decideCancellation e c rid why n approve d = Inr (m, d')"
    using run
  proof (rule decideCancellation_effect)
    fix r i
    assume r: "find (\<lambda>r. cr_id r = rid \<and> cr_branchId r = branch_of c) (cancellation_requests d) = Some r"
      and i: "row_by oi_id (cr_orderItemId r) (order_items d) = Some i" "oi_version i = n"
      and w: "item_write (cr_orderItemId r) (if approve then cancelled_row c (env_now e) (cr_reason r)
           else oi_state_update (\<lambda>_. cr_stateAtRequest r)) d d'"
    from decided_item [OF db_okD(18) [OF ok] on r] write_version [OF w i] show ?thesis by simp
  qed
  show "item_version iid d = Some n \<and> item_version iid d' = Some (n + 1)"
    if on: "decides ch_id ch_orderItemId rid iid (change_requests d)" and run: "decideChange e c rid why n approve d = Inr (m, d')"
    using run
  proof (rule decideChange_effect)
    fix r i f
    assume r: "find (\<lambda>r. ch_id r = rid \<and> ch_branchId r = branch_of c) (change_requests d) = Some r"
      and i: "row_by oi_id (ch_orderItemId r) (order_items d) = Some i" "oi_version i = n"
      and w: "item_write (ch_orderItemId r) f d d'"
    from decided_item [OF db_okD(19) [OF ok] on r] write_version [OF w i] show ?thesis by simp
  qed
qed

lemma item_request_version:
  assumes "item_request iid x n d = Inr (u, d')" and pk: "primary_key oi_id (order_items d)" and ok: "db_ok d"
  shows "item_version iid d = Some n \<and> item_version iid d' = Some (n + 1)"
proof (cases x)
  case (Acknowledge e c)
  with assms show ?thesis by (auto elim!: acknowledge_effect dest: write_version)
next
  case (Start e c)
  with assms show ?thesis by (auto elim!: startPreparation_effect dest: write_version)
next
  case (Ready e c)
  with assms obtain t where "markReady e c iid n d = Inr (t, d')" by auto
  then show ?thesis using pk by (rule markReady_effect) (rule write_version)
next
  case (Serve e c)
  with assms show ?thesis by (auto elim!: markServed_effect dest: write_version)
next
  case (Cancel e c why)
  with assms show ?thesis by (auto dest: directCancel_version)
next
  case (Force_cancel e c why)
  with assms obtain m where "forceCancel e c iid why n d = Inr (m, d')" by auto
  then show ?thesis using pk by (rule forceCancel_effect) (rule cancelSteps_version)
next
  case (Ask_cancel e c why)
  with assms show ?thesis by (auto dest: requestCancellation_version)
next
  case (Ask_change e c ch why)
  with assms show ?thesis by (auto dest: requestChange_version)
next
  case (Cannot_prepare e c dto)
  with assms show ?thesis by (simp add: cannot_prepare_rolled_back)
next
  case (Decide_cancel e c rid why approve)
  with assms(1) show ?thesis by (auto dest: decisions_version(1) [OF ok] split: if_splits)
next
  case (Decide_change e c rid why approve)
  with assms(1) show ?thesis by (auto dest: decisions_version(2) [OF ok] split: if_splits)
qed

interpretation item_lock: optimistic "item_version iid" "run_item iid" for iid
  by unfold_locales (auto simp: run_item_def inversion dest!: item_request_version dest: db_okD(3))

text \<open>Each of these requests is a step of the evening.\<close>

lemma run_item_step:
  assumes "run_item iid x n d = Inr (u, d')"
  shows "floor_step d d'"
proof -
  from assms have "item_request iid x n d = Inr (u, d')" by (auto simp: run_item_def inversion)
  then show ?thesis by (cases x) (auto intro: floor_step.intros split: if_splits)
qed

section \<open>Properties\<close>

definition opening_db :: db where
  "opening_db = floor_db\<lparr>orders := [], order_items := []\<rparr>"

lemma opening_reachable: "floor_reachable opening_db"
proof (rule open_floor)
  show "db_ok opening_db" by code_simp
qed (simp_all add: opening_db_def floor_db_def empty_db_def)

text \<open>A first order of the evening: its item is 1001; then the kitchen starts it and the waiter asks to cancel.\<close>

lemma first_order:
  "\<exists>d1. floor_reachable d1 \<and> floor_step opening_db d1 \<and>
     (\<exists>d2. floor_step d1 d2 \<and> state_of 1001 d2 = Some IN_PREPARATION \<and>
       (\<exists>d3. floor_step d2 d3 \<and> cancel_pending 1001 d3))"
proof -
  let ?run = "bindR (confirmOrder evening waiter tibs_order (Some ''k1'') opening_db) (\<lambda>(r, d1).
     bindR (startPreparation evening cook 1001 1 d1) (\<lambda>(t, d2).
     bindR (requestCancellation evening waiter 1001 ''left'' 2 d2) (\<lambda>(m, d3).
       Inr (state_of 1001 d2, map (\<lambda>r. (cr_orderItemId r, cr_status r)) (cancellation_requests d3)))))"
  have "?run = Inr (Some IN_PREPARATION, [(1001, A_PENDING)])" by code_simp
  then obtain r d1 t d2 m d3 where 1: "confirmOrder evening waiter tibs_order (Some ''k1'') opening_db = Inr (r, d1)"
    and 2: "startPreparation evening cook 1001 1 d1 = Inr (t, d2)"
    and 3: "requestCancellation evening waiter 1001 ''left'' 2 d2 = Inr (m, d3)"
    and st: "state_of 1001 d2 = Some IN_PREPARATION"
    and rq: "map (\<lambda>r. (cr_orderItemId r, cr_status r)) (cancellation_requests d3) = [(1001, A_PENDING)]"
    by (elim run_pairE) simp
  from opening_reachable floor_step.confirm [OF 1] have "floor_reachable d1" by (rule floor_reachable.step)
  moreover have "cancel_pending 1001 d3" using rq by (auto simp: pending_for_def)
  ultimately show ?thesis
    using floor_step.confirm [OF 1] floor_step.start [OF 2] floor_step.ask_cancel [OF 3] st by blast
qed

text \<open>
  C12: on every evening that starts with an empty floor, whatever orders, stations, waiters and
  managers do in any order, a pending cancellation or change finds its item in the state the
  request put it into (unless it was cancelled by force since), no item has two pending
  requests, an item in a requested state always has its request, and each request remembers
  a state the item can be put back to.
\<close>

theorem requests_match_their_items:
  assumes "floor_reachable d"
  shows "item_inv (cancel_pending iid d) (change_pending iid d) (state_of iid d) \<and>
     (\<forall>r \<in> set (cancellation_requests d). cr_status r = A_PENDING \<longrightarrow> cr_stateAtRequest r \<in> {IN_PREPARATION, READY}) \<and>
     (\<forall>r \<in> set (change_requests d). ch_status r = A_PENDING \<longrightarrow> ch_stateAtRequest r \<in> {IN_PREPARATION, READY})"
  using reachable_good [OF assms] by (auto simp: requests_inv_def protected_states_def)

theorem requests_match_their_items_witness:
  "\<exists>d. floor_reachable d \<and> cancel_pending 1001 d \<and> state_of 1001 d \<in> {Some CANCELLATION_REQUESTED, Some CANCELLED} \<and>
     \<not> change_pending 1001 d"
proof -
  obtain d1 d2 d3 where d: "floor_reachable d1" "floor_step d1 d2" "floor_step d2 d3" "cancel_pending 1001 d3"
    using first_order by blast
  then have r: "floor_reachable d3" by (blast intro: floor_reachable.step)
  from requests_match_their_items [OF r, of 1001] d(4) r show ?thesis by (auto simp: item_inv_def)
qed

text \<open>
  C2: the version of an item counts its transitions. Between any two moments of an evening an
  item has taken exactly as many steps of the machine \<open>item_edge\<close> as its version has grown;
  with the same version its row is the same in every column.
\<close>

theorem versions_count_transitions:
  assumes "floor_reachable d" and "floor_step\<^sup>*\<^sup>* d d'" and "row_by oi_id iid (order_items d) = Some i"
  shows "\<exists>i'. row_by oi_id iid (order_items d') = Some i' \<and> oi_version i \<le> oi_version i' \<and>
     (item_edge ^^ (oi_version i' - oi_version i)) (oi_state i) (oi_state i') \<and>
     (oi_version i' = oi_version i \<longrightarrow> i' = i)"
  using assms by (intro run_follows_edges)

lemma started_item:
  "\<exists>d2 d3 i. floor_reachable d2 \<and> floor_step\<^sup>*\<^sup>* d2 d3 \<and> row_by oi_id 1001 (order_items d2) = Some i \<and> oi_state i = IN_PREPARATION"
proof -
  obtain d1 d2 d3 where d: "floor_reachable d1" "floor_step d1 d2" "floor_step d2 d3" "state_of 1001 d2 = Some IN_PREPARATION"
    using first_order by blast
  then have r: "floor_reachable d2" by (blast intro: floor_reachable.step)
  from d(4) obtain i where "row_by oi_id 1001 (order_items d2) = Some i" "oi_state i = IN_PREPARATION"
    by (auto simp: state_of_def)
  with r d(3) show ?thesis by blast
qed

theorem versions_count_transitions_witness:
  "\<exists>d i d' i'. floor_reachable d \<and> row_by oi_id 1001 (order_items d) = Some i \<and> floor_step\<^sup>*\<^sup>* d d' \<and>
     row_by oi_id 1001 (order_items d') = Some i' \<and>
     (item_edge ^^ (oi_version i' - oi_version i)) IN_PREPARATION (oi_state i')"
proof -
  obtain d2 d3 i where d: "floor_reachable d2" "floor_step\<^sup>*\<^sup>* d2 d3" "row_by oi_id 1001 (order_items d2) = Some i"
    "oi_state i = IN_PREPARATION" using started_item by blast
  from versions_count_transitions [OF d(1-3)] d show ?thesis by auto
qed

text \<open>
  C23: what has been served stays served: once an item is SERVED no operation of orders,
  stations or mutations changes anything of its row for the rest of the evening.
\<close>

theorem served_items_never_change:
  assumes "floor_reachable d" and "row_by oi_id iid (order_items d) = Some i" and "oi_state i = SERVED"
    and "floor_step\<^sup>*\<^sup>* d d'"
  shows "row_by oi_id iid (order_items d') = Some i"
proof -
  from run_follows_edges [OF assms(4,1,2)] obtain i' where i': "row_by oi_id iid (order_items d') = Some i'"
    "(item_edge ^^ (oi_version i' - oi_version i)) (oi_state i) (oi_state i')" "oi_version i \<le> oi_version i'"
    "oi_version i' = oi_version i \<longrightarrow> i' = i" by blast
  with no_path_from_served assms(3) show ?thesis by force
qed

lemma served_run:
  "\<exists>d i. floor_reachable d \<and> row_by oi_id 1001 (order_items d) = Some i \<and> oi_state i = SERVED"
proof -
  let ?run = "bindR (confirmOrder evening waiter tibs_order (Some ''k1'') opening_db) (\<lambda>(r, d1).
     bindR (startPreparation evening cook 1001 1 d1) (\<lambda>(t, d2).
     bindR (markReady evening cook 1001 2 d2) (\<lambda>(m, d3).
     bindR (markServed later waiter 1001 3 d3) (\<lambda>(m, d4). Inr (state_of 1001 d4)))))"
  have "?run = Inr (Some SERVED)" by code_simp
  then obtain r d1 t d2 m d3 u d4 where 1: "confirmOrder evening waiter tibs_order (Some ''k1'') opening_db = Inr (r, d1)"
    and 2: "startPreparation evening cook 1001 1 d1 = Inr (t, d2)"
    and 3: "markReady evening cook 1001 2 d2 = Inr (m, d3)"
    and 4: "markServed later waiter 1001 3 d3 = Inr (u, d4)" and st: "state_of 1001 d4 = Some SERVED"
    by (elim run_pairE) simp
  from opening_reachable floor_step.confirm [OF 1] have "floor_reachable d1" by (rule floor_reachable.step)
  from this floor_step.start [OF 2] have "floor_reachable d2" by (rule floor_reachable.step)
  from this floor_step.ready [OF 3] have "floor_reachable d3" by (rule floor_reachable.step)
  from this floor_step.serve [OF 4] have "floor_reachable d4" by (rule floor_reachable.step)
  with st show ?thesis unfolding state_of_def by blast
qed

theorem served_items_never_change_witness:
  "\<exists>d i. floor_reachable d \<and> oi_state i = SERVED \<and>
     (\<forall>d'. floor_step\<^sup>*\<^sup>* d d' \<longrightarrow> row_by oi_id 1001 (order_items d') = Some i)"
proof -
  obtain d i where d: "floor_reachable d" "row_by oi_id 1001 (order_items d) = Some i" "oi_state i = SERVED"
    using served_run by blast
  with served_items_never_change [OF d] show ?thesis by blast
qed

text \<open>
  C21: two devices that act on the same version of an item do not both succeed. After any
  request of a station (acknowledged, started, ready, cannot be prepared), of a waiter (served,
  cancelled, a cancellation or a change asked for) or of a manager (cancelled by force, a cancellation
  or a change approved or rejected) took effect on version n, every such request that names version
  n is refused for the rest of the evening, whatever happened in between.
\<close>

theorem one_request_per_item_version:
  assumes reach: "floor_reachable d" and run: "run_item iid x n d = Inr (u, d')" and later: "floor_step\<^sup>*\<^sup>* d' d''"
  shows "item_version iid d' = Some (n + 1) \<and> (\<exists>m > n. item_version iid d'' = Some m) \<and> \<not> is_ok (run_item iid y n d'')"
proof -
  have v: "item_version iid d' = Some (n + 1)" using item_lock.op_version [OF run] by blast
  then obtain i where i: "row_by oi_id iid (order_items d') = Some i" "oi_version i = n + 1"
    by (auto simp: item_version_def)
  have "floor_reachable d'" by (rule floor_reachable.step [OF reach run_item_step [OF run]])
  from run_follows_edges [OF later this i(1)] i(2) have later_version: "\<exists>m > n. item_version iid d'' = Some m"
    by (auto simp: item_version_def)
  then have "item_version iid d'' \<noteq> Some n" by auto
  from item_lock.stale [OF this] v later_version show ?thesis by blast
qed

theorem one_request_per_item_version_witness:
  "\<exists>d1 d2 m d3. floor_reachable d1 \<and> run_item 1001 (Start evening cook) 1 d1 = Inr ((), d2) \<and>
     requestCancellation evening waiter 1001 ''left'' 2 d2 = Inr (m, d3) \<and> cancel_pending 1001 d3 \<and>
     (\<forall>rid. \<not> is_ok (run_item 1001 (Decide_cancel later floor_manager rid None True) 1 d3))"
proof -
  have "bindR (confirmOrder evening waiter tibs_order (Some ''k1'') opening_db) (\<lambda>(r, d1).
     bindR (run_item 1001 (Start evening cook) 1 d1) (\<lambda>(t, d2).
     bindR (requestCancellation evening waiter 1001 ''left'' 2 d2) (\<lambda>(m, d3).
       Inr (map (\<lambda>r. (cr_orderItemId r, cr_status r)) (cancellation_requests d3))))) = Inr [(1001, A_PENDING)]" by code_simp
  then obtain r d1 t d2 m d3 where 1: "confirmOrder evening waiter tibs_order (Some ''k1'') opening_db = Inr (r, d1)"
    and 2: "run_item 1001 (Start evening cook) 1 d1 = Inr (t, d2)"
    and 3: "requestCancellation evening waiter 1001 ''left'' 2 d2 = Inr (m, d3)"
    and rq: "map (\<lambda>r. (cr_orderItemId r, cr_status r)) (cancellation_requests d3) = [(1001, A_PENDING)]"
    by (elim run_pairE) simp
  have d1: "floor_reachable d1" using opening_reachable floor_step.confirm [OF 1] by (rule floor_reachable.step)
  have "floor_step\<^sup>*\<^sup>* d2 d3" using floor_step.ask_cancel [OF 3] by blast
  from one_request_per_item_version [OF d1 2 this]
  have "\<not> is_ok (run_item 1001 (Decide_cancel later floor_manager rid None True) 1 d3)" for rid by blast
  moreover have "cancel_pending 1001 d3" using rq by (auto simp: pending_for_def)
  ultimately show ?thesis using d1 2 3 by (cases t) blast
qed

end
