(* ===== verification/CashCustody.thy ===== *)
theory CashCustody
  imports Idempotency Pricing Scenario
begin

text \<open>
  \<open>src/cash-custody/cash-custody.service.ts\<close>: the cash a waiter collects during a shift (the
  pouch), the drops by which it moves to a cashier's drawer, the disputes when the count
  differs, and the append-only ledger that records the move on both sides.

  Amounts are stored in columns with two decimals, so a stored amount is \<open>dp2\<close> of what was sent.
  A command that fails is modelled as leaving the database alone; the one write the code makes
  before its transaction, opening the drawer of the cashier's shift, is repeated by the next
  attempt, which finds the drawer already there.
\<close>

section \<open>Guards\<close>

definition requirePouchOnShift :: "env \<Rightarrow> auth_ctx \<Rightarrow> auth_ctx result" where
  "requirePouchOnShift e c =
     bindR (requireBranch c) (\<lambda>c.
     bindR (assertCan e c Act_read Sub_CashPouch ''Cash pouch is for waiters.'') (\<lambda>_. onShift c))"

definition requireDropCashier :: "env \<Rightarrow> auth_ctx \<Rightarrow> auth_ctx result" where
  "requireDropCashier e c =
     bindR (requireBranch c) (\<lambda>c.
     bindR (assertCan e c Act_read Sub_CashDrop ''Cash drops queue is for cashiers.'') (\<lambda>_. Inr c))"

definition requireDropCashierOnShift :: "env \<Rightarrow> auth_ctx \<Rightarrow> auth_ctx result" where
  "requireDropCashierOnShift e c = bindR (requireDropCashier e c) onShift"

lemma requirePouchOnShift_eq_Inr [inversion]:
  "requirePouchOnShift e c = Inr c' \<longleftrightarrow> c' = c \<and> ax_tenantId c \<noteq> None \<and> ax_branchId c \<noteq> None \<and>
     can e c Act_read Sub_CashPouch \<and> ax_staffMembershipId c \<noteq> None \<and> ax_shiftSessionId c \<noteq> None"
  by (auto simp: requirePouchOnShift_def inversion)

lemma requireDropCashierOnShift_eq_Inr [inversion]:
  "requireDropCashierOnShift e c = Inr c' \<longleftrightarrow> c' = c \<and> ax_tenantId c \<noteq> None \<and> ax_branchId c \<noteq> None \<and>
     can e c Act_read Sub_CashDrop \<and> ax_staffMembershipId c \<noteq> None \<and> ax_shiftSessionId c \<noteq> None"
  by (auto simp: requireDropCashierOnShift_def requireDropCashier_def inversion)

section \<open>The pouch of a shift\<close>

definition cash_collected :: "id \<Rightarrow> id \<Rightarrow> id \<Rightarrow> db \<Rightarrow> decimal" where
  "cash_collected b m sh d = sum_list (map py_amount (filter
     (\<lambda>p. py_branchId p = b \<and> py_collector p = m \<and> py_collectorShift p = sh \<and> py_method p = CASH \<and>
        py_status p = ''SETTLED'') (payments d)))"

text \<open>\<open>drop.resolutionAmount ?? drop.countedAmount ?? 0\<close>.\<close>

definition accepted_amount :: "cash_drop \<Rightarrow> decimal" where
  "accepted_amount c = (case cd_resolution c of Some x \<Rightarrow> x
     | None \<Rightarrow> (case cd_counted c of Some x \<Rightarrow> x | None \<Rightarrow> 0))"

definition dropped_as :: "drop_status \<Rightarrow> (cash_drop \<Rightarrow> decimal) \<Rightarrow> id \<Rightarrow> db \<Rightarrow> decimal" where
  "dropped_as st f sh d =
     sum_list (map f (filter (\<lambda>c. cd_waiterShift c = sh \<and> cd_status c = st) (cash_drops d)))"

definition handover_net :: "id \<Rightarrow> db \<Rightarrow> decimal" where
  "handover_net sh d = sum_list (map le_amountDelta (filter
     (\<lambda>e. le_waiterShift e = Some sh \<and> le_holderType e = WAITER_SHIFT \<and>
        le_entryType e \<in> set [''WAITER_HANDOVER_IN'', ''WAITER_HANDOVER_OUT'']) (cash_ledger d)))"

definition undropped :: "id \<Rightarrow> id \<Rightarrow> id \<Rightarrow> db \<Rightarrow> decimal" where
  "undropped b m sh d = cash_collected b m sh d + handover_net sh d -
     dropped_as D_RECEIVED accepted_amount sh d - dropped_as D_INITIATED cd_declared sh d -
     dropped_as D_DISPUTED cd_declared sh d"

record cash_summary =
  cu_shiftSessionId :: id
  cu_collected :: decimal
  cu_dropped :: decimal
  cu_undropped :: decimal
  cu_pending :: decimal
  cu_disputed :: decimal

definition summaryForShift :: "id \<Rightarrow> id \<Rightarrow> id \<Rightarrow> db \<Rightarrow> cash_summary" where
  "summaryForShift b m sh d = \<lparr>cu_shiftSessionId = sh, cu_collected = money (cash_collected b m sh d),
     cu_dropped = money (dropped_as D_RECEIVED accepted_amount sh d),
     cu_undropped = money (max (undropped b m sh d) 0),
     cu_pending = money (dropped_as D_INITIATED cd_declared sh d),
     cu_disputed = money (dropped_as D_DISPUTED cd_declared sh d)\<rparr>"

definition waiterCashSummary :: "env \<Rightarrow> auth_ctx \<Rightarrow> db \<Rightarrow> cash_summary result" where
  "waiterCashSummary e c d =
     bindR (requirePouchOnShift e c) (\<lambda>c. Inr (summaryForShift (branch_of c) (staff_of c) (shift_of c) d))"

section \<open>Initiating a drop\<close>

definition dispute_of :: "id \<Rightarrow> db \<Rightarrow> cash_dispute option" where
  "dispute_of k d = find (\<lambda>x. dp_cashDropId x = k) (cash_disputes d)"

definition toDropDto :: "cash_drop \<Rightarrow> drop_dto" where
  "toDropDto c = \<lparr>dd_cashDropId = cd_id c, dd_declared = money (cd_declared c), dd_status = cd_status c,
     dd_initiatedAt = cd_initiatedAt c, dd_receivedAt = cd_receivedAt c, dd_businessDate = cd_businessDate c,
     dd_counted = map_option money (cd_counted c), dd_resolution = map_option money (cd_resolution c),
     dd_version = cd_version c, dd_variance = None, dd_disputeId = None, dd_disputeStatus = None\<rparr>"

definition drop_row :: "auth_ctx \<Rightarrow> date \<Rightarrow> decimal \<Rightarrow> time \<Rightarrow> id \<Rightarrow> cash_drop" where
  "drop_row c day amount now i = \<lparr>cd_id = i, cd_branchId = branch_of c, cd_businessDate = day,
     cd_waiter = staff_of c, cd_waiterShift = shift_of c, cd_declared = dp2 amount, cd_status = D_INITIATED,
     cd_initiatedAt = now, cd_financialSession = None, cd_receivedBy = None, cd_counted = None,
     cd_receivedAt = None, cd_resolution = None, cd_resolvedAt = None, cd_version = 1\<rparr>"

definition initiateBody :: "env \<Rightarrow> auth_ctx \<Rightarrow> command_key \<Rightarrow> string \<Rightarrow> db \<Rightarrow> (response \<times> db) result" where
  "initiateBody e c k amountText d =
     (let amount = env_decimal e amountText
      in if amount \<le> 0 then Inl (Unprocessable ''CASH_DROP_AMOUNT_INVALID'')
         else if cu_undropped (summaryForShift (branch_of c) (staff_of c) (shift_of c) d) < amount
         then Inl (Unprocessable ''CASH_DROP_EXCEEDS_UNDROPPED'')
         else (case row_by sh_id (shift_of c) (shift_sessions d) of
             None \<Rightarrow> Inl (NotFound ''Shift not found.'')
           | Some sh \<Rightarrow>
               bindR (assertBusinessDayNotLocked (branch_of c) (sh_businessDate sh) d) (\<lambda>_.
                 let i = next_id d; drop = drop_row c (sh_businessDate sh) amount (env_now e) i;
                     d1 = d\<lparr>cash_drops := cash_drops d @ [drop], next_id := i + 1\<rparr>;
                     payload = Res_Drop (toDropDto drop)
                 in bindR (commit (storeIdempotent (env_hash e) i k (Req_InitiateDrop amountText) payload d1)) (\<lambda>d2.
                      Inr (payload, emit (Notify_cashiers \<lparr>nt_type = ''cash_drop.pending'', nt_recipient = None,
                        nt_rooms = [], nt_entity = i\<rparr>) d2)))))"

definition initiateDrop :: "env \<Rightarrow> auth_ctx \<Rightarrow> string \<Rightarrow> string option \<Rightarrow> db \<Rightarrow> (response \<times> db) result" where
  "initiateDrop e c amountText key d =
     bindR (requirePouchOnShift e c) (\<lambda>c.
     bindR (requireIdempotencyKey key) (\<lambda>s.
       let k = command_key c ''cash_drop.initiate'' s
       in guarded_command e k (Req_InitiateDrop amountText) (initiateBody e c k amountText) d))"

section \<open>The drawer of a cashier's shift\<close>

definition new_drawer :: "auth_ctx \<Rightarrow> date \<Rightarrow> time \<Rightarrow> id \<Rightarrow> financial_session" where
  "new_drawer c day now i = \<lparr>fs_id = i, fs_branchId = branch_of c, fs_businessDate = day,
     fs_cashier = staff_of c, fs_shiftSessionId = shift_of c, fs_status = F_OPEN, fs_openingFloat = 0,
     fs_openedAt = now, fs_closedAt = None, fs_version = 1\<rparr>"

text \<open>
  The drawer is unique per shift, so the retry after a unique violation finds what the first
  lookup would have found; any other violation is thrown on.
\<close>

definition ensureCashierFinancialSession ::
  "auth_ctx \<Rightarrow> time \<Rightarrow> db \<Rightarrow> (financial_session \<times> db) result" where
  "ensureCashierFinancialSession c now d =
     (case find (\<lambda>f. fs_shiftSessionId f = shift_of c) (financial_sessions d) of
        Some f \<Rightarrow> if fs_status f \<noteq> F_OPEN then Inl (Unprocessable ''CASHIER_DRAWER_CLOSED'') else Inr (f, d)
      | None \<Rightarrow>
          (case row_by sh_id (shift_of c) (shift_sessions d) of
             None \<Rightarrow> Inl (NotFound ''Cashier shift not found.'')
           | Some sh \<Rightarrow>
               let f = new_drawer c (sh_businessDate sh) now (next_id d)
               in bindR (commit (d\<lparr>financial_sessions := financial_sessions d @ [f], next_id := next_id d + 1\<rparr>)) (\<lambda>d1.
                    Inr (f, d1))))"

section \<open>Receiving a drop\<close>

definition receive_entries :: "auth_ctx \<Rightarrow> cash_drop \<Rightarrow> decimal \<Rightarrow> id \<Rightarrow> id \<Rightarrow> ledger_entry list" where
  "receive_entries c dr amount fs i =
     [\<lparr>le_id = i, le_branchId = branch_of c, le_businessDate = cd_businessDate dr,
       le_holderType = WAITER_SHIFT, le_waiterShift = Some (cd_waiterShift dr), le_financialSession = None,
       le_entryType = ''CASH_DROP_OUT'', le_amountDelta = - dp2 amount, le_sourceType = ''CASH_DROP'',
       le_sourceId = cd_id dr, le_createdBy = ax_staffMembershipId c\<rparr>,
      \<lparr>le_id = i + 1, le_branchId = branch_of c, le_businessDate = cd_businessDate dr,
       le_holderType = CASHIER_SESSION, le_waiterShift = None, le_financialSession = Some fs,
       le_entryType = ''CASH_DROP_IN'', le_amountDelta = dp2 amount, le_sourceType = ''CASH_DROP'',
       le_sourceId = cd_id dr, le_createdBy = ax_staffMembershipId c\<rparr>]"

definition writeReceiveLedger :: "auth_ctx \<Rightarrow> cash_drop \<Rightarrow> decimal \<Rightarrow> id \<Rightarrow> db \<Rightarrow> db" where
  "writeReceiveLedger c dr amount fs d =
     d\<lparr>cash_ledger := cash_ledger d @ receive_entries c dr amount fs (next_id d), next_id := next_id d + 2\<rparr>"

definition received_row :: "auth_ctx \<Rightarrow> decimal \<Rightarrow> id \<Rightarrow> time \<Rightarrow> cash_drop \<Rightarrow> cash_drop" where
  "received_row c counted fs now x = x\<lparr>cd_status := D_RECEIVED, cd_counted := Some (dp2 counted),
     cd_receivedAt := Some now, cd_resolution := Some (dp2 counted), cd_resolvedAt := Some now,
     cd_financialSession := Some fs, cd_receivedBy := ax_staffMembershipId c, cd_version := cd_version x + 1\<rparr>"

definition disputed_row :: "auth_ctx \<Rightarrow> decimal \<Rightarrow> id \<Rightarrow> time \<Rightarrow> cash_drop \<Rightarrow> cash_drop" where
  "disputed_row c counted fs now x = x\<lparr>cd_status := D_DISPUTED, cd_counted := Some (dp2 counted),
     cd_receivedAt := Some now, cd_financialSession := Some fs, cd_receivedBy := ax_staffMembershipId c,
     cd_version := cd_version x + 1\<rparr>"

definition dispute_row :: "auth_ctx \<Rightarrow> cash_drop \<Rightarrow> decimal \<Rightarrow> id \<Rightarrow> cash_dispute" where
  "dispute_row c dr counted i = \<lparr>dp_id = i, dp_branchId = branch_of c, dp_cashDropId = cd_id dr,
     dp_declared = cd_declared dr, dp_counted = dp2 counted, dp_variance = dp2 (counted - cd_declared dr),
     dp_status = DS_OPEN, dp_resolution = None, dp_note = None, dp_resolvedBy = None, dp_resolvedAt = None\<rparr>"

definition resolved_notice :: "id \<Rightarrow> id \<Rightarrow> effect" where
  "resolved_notice w k = Notify \<lparr>nt_type = ''cash_drop.resolved'', nt_recipient = Some w, nt_rooms = [], nt_entity = k\<rparr>"

definition receiveTx ::
  "env \<Rightarrow> auth_ctx \<Rightarrow> command_key \<Rightarrow> request \<Rightarrow> cash_drop \<Rightarrow> decimal \<Rightarrow> id \<Rightarrow> db \<Rightarrow> (response \<times> db) result" where
  "receiveTx e c k body dr counted fs d =
     (let now = env_now e
      in if counted = cd_declared dr then
           let d1 = d\<lparr>cash_drops := update_id cd_id (cd_id dr) (received_row c counted fs now) (cash_drops d)\<rparr>
           in (case row_by cd_id (cd_id dr) (cash_drops d1) of
                 None \<Rightarrow> Inl (DbError ''P2025'')
               | Some u \<Rightarrow>
                   let d2 = writeReceiveLedger c u counted fs d1;
                       payload = Res_Receive \<lparr>rv_cashDropId = cd_id u, rv_status = cd_status u,
                         rv_declared = money (cd_declared u), rv_counted = money counted,
                         rv_accepted = Some (money counted), rv_variance = None, rv_disputeId = None,
                         rv_receivedAt = cd_receivedAt u, rv_version = cd_version u\<rparr>
                   in bindR (commit (storeIdempotent (env_hash e) (cd_id dr) k body payload d2)) (\<lambda>d3.
                        Inr (payload, emit (resolved_notice (cd_waiter dr) (cd_id u)) d3)))
         else
           let d1 = d\<lparr>cash_drops := update_id cd_id (cd_id dr) (disputed_row c counted fs now) (cash_drops d)\<rparr>
           in (case row_by cd_id (cd_id dr) (cash_drops d1) of
                 None \<Rightarrow> Inl (DbError ''P2025'')
               | Some u \<Rightarrow>
                   let i = next_id d1;
                       d2 = d1\<lparr>cash_disputes := cash_disputes d1 @ [dispute_row c dr counted i], next_id := i + 1\<rparr>;
                       payload = Res_Receive \<lparr>rv_cashDropId = cd_id u, rv_status = cd_status u,
                         rv_declared = money (cd_declared u), rv_counted = money counted, rv_accepted = None,
                         rv_variance = Some (money (counted - cd_declared dr)), rv_disputeId = Some i,
                         rv_receivedAt = cd_receivedAt u, rv_version = cd_version u\<rparr>
                   in bindR (commit (storeIdempotent (env_hash e) (cd_id dr) k body payload d2)) (\<lambda>d3.
                        Inr (payload, emit (resolved_notice (cd_waiter dr) (cd_id u)) d3))))"

definition receiveBody ::
  "env \<Rightarrow> auth_ctx \<Rightarrow> command_key \<Rightarrow> id \<Rightarrow> string \<Rightarrow> nat \<Rightarrow> db \<Rightarrow> (response \<times> db) result" where
  "receiveBody e c k did countedText expected d =
     (case find (\<lambda>x. cd_id x = did \<and> cd_branchId x = branch_of c) (cash_drops d) of
        None \<Rightarrow> Inl (NotFound ''Cash drop not found.'')
      | Some dr \<Rightarrow>
          bindR (assertBusinessDayNotLocked (branch_of c) (cd_businessDate dr) d) (\<lambda>_.
            if cd_status dr \<noteq> D_INITIATED then Inl (Unprocessable ''CASH_DROP_NOT_RECEIVABLE'')
            else if cd_version dr \<noteq> expected then Inl (StaleVersion (cd_version dr))
            else
              let counted = env_decimal e countedText
              in if counted < 0 then Inl (Unprocessable ''COUNTED_AMOUNT_INVALID'')
                 else bindR (ensureCashierFinancialSession c (env_now e) d) (\<lambda>(f, d1).
                        receiveTx e c k (Req_ReceiveDrop did countedText expected) dr counted (fs_id f) d1)))"

definition receiveDrop ::
  "env \<Rightarrow> auth_ctx \<Rightarrow> id \<Rightarrow> string \<Rightarrow> nat \<Rightarrow> string option \<Rightarrow> db \<Rightarrow> (response \<times> db) result" where
  "receiveDrop e c did countedText expected key d =
     bindR (requireDropCashierOnShift e c) (\<lambda>c.
     bindR (requireIdempotencyKey key) (\<lambda>s.
       let k = command_key c ''cash_drop.receive'' s
       in guarded_command e k (Req_ReceiveDrop did countedText expected) (receiveBody e c k did countedText expected) d))"

section \<open>Resolving a dispute\<close>

definition resolution_amount ::
  "env \<Rightarrow> resolution \<Rightarrow> string option \<Rightarrow> cash_dispute \<Rightarrow> decimal result" where
  "resolution_amount e r amountText x =
     (case r of
        ACCEPT_COUNTED \<Rightarrow> Inr (dp_counted x)
      | ACCEPT_DECLARED \<Rightarrow> Inr (dp_declared x)
      | OTHER_APPROVED_AMOUNT \<Rightarrow>
          (case amountText of
             None \<Rightarrow> Inl (Unprocessable ''RESOLUTION_AMOUNT_REQUIRED'')
           | Some t \<Rightarrow>
               if t = [] then Inl (Unprocessable ''RESOLUTION_AMOUNT_REQUIRED'')
               else if env_decimal e t < 0 then Inl (Unprocessable ''RESOLUTION_AMOUNT_INVALID'')
               else Inr (env_decimal e t)))"

definition resolved_dispute :: "auth_ctx \<Rightarrow> decimal \<Rightarrow> string option \<Rightarrow> time \<Rightarrow> cash_dispute \<Rightarrow> cash_dispute" where
  "resolved_dispute c amount note now x = x\<lparr>dp_status := DS_RESOLVED, dp_resolution := Some (dp2 amount),
     dp_note := trim_or_null note, dp_resolvedBy := ax_staffMembershipId c, dp_resolvedAt := Some now\<rparr>"

definition resolved_drop :: "decimal \<Rightarrow> id \<Rightarrow> time \<Rightarrow> cash_drop \<Rightarrow> cash_drop" where
  "resolved_drop amount fs now x = x\<lparr>cd_status := D_RECEIVED, cd_resolution := Some (dp2 amount),
     cd_resolvedAt := Some now, cd_financialSession := Some fs, cd_version := cd_version x + 1\<rparr>"

definition resolveTx ::
  "env \<Rightarrow> auth_ctx \<Rightarrow> command_key \<Rightarrow> request \<Rightarrow> cash_dispute \<Rightarrow> decimal \<Rightarrow> string option \<Rightarrow> id \<Rightarrow> db \<Rightarrow>
     (response \<times> db) result" where
  "resolveTx e c k body x amount note fs d =
     (let now = env_now e;
          d1 = d\<lparr>cash_disputes := update_id dp_id (dp_id x) (resolved_dispute c amount note now) (cash_disputes d),
                 cash_drops := update_id cd_id (dp_cashDropId x) (resolved_drop amount fs now) (cash_drops d)\<rparr>
      in (case row_by cd_id (dp_cashDropId x) (cash_drops d1) of
            None \<Rightarrow> Inl (DbError ''P2025'')
          | Some u \<Rightarrow>
              let d2 = writeReceiveLedger c u amount fs d1;
                  payload = Res_Drop ((toDropDto u)\<lparr>dd_variance := Some (money (dp_variance x)),
                    dd_disputeId := Some (dp_id x), dd_disputeStatus := Some DS_RESOLVED\<rparr>)
              in bindR (commit (storeIdempotent (env_hash e) (dp_id x) k body payload d2)) (\<lambda>d3. Inr (payload, d3))))"

definition resolveBody ::
  "env \<Rightarrow> auth_ctx \<Rightarrow> command_key \<Rightarrow> id \<Rightarrow> resolution \<Rightarrow> string option \<Rightarrow> string option \<Rightarrow> db \<Rightarrow>
     (response \<times> db) result" where
  "resolveBody e c k i r amountText note d =
     (case find (\<lambda>x. dp_id x = i \<and> dp_branchId x = branch_of c) (cash_disputes d) of
        None \<Rightarrow> Inl (NotFound ''Dispute not found.'')
      | Some x \<Rightarrow>
          if dp_status x \<noteq> DS_OPEN then Inl (Unprocessable ''DISPUTE_NOT_OPEN'')
          else (case row_by cd_id (dp_cashDropId x) (cash_drops d) of
              None \<Rightarrow> Inl (DbError ''cash_drop_disputes_cash_drop_id_fkey'')
            | Some dr \<Rightarrow>
                if cd_status dr \<noteq> D_DISPUTED then Inl (Unprocessable ''CASH_DROP_NOT_DISPUTED'')
                else bindR (resolution_amount e r amountText x) (\<lambda>amount.
                     bindR (case cd_financialSession dr of
                              Some f \<Rightarrow> Inr (f, d)
                            | None \<Rightarrow> bindR (ensureCashierFinancialSession c (env_now e) d) (\<lambda>(f, d1). Inr (fs_id f, d1)))
                       (\<lambda>(fs, d1).
                         resolveTx e c k (Req_ResolveDispute i r amountText note) x amount note fs d1))))"

definition resolveDispute ::
  "env \<Rightarrow> auth_ctx \<Rightarrow> id \<Rightarrow> resolution \<Rightarrow> string option \<Rightarrow> string option \<Rightarrow> string option \<Rightarrow> db \<Rightarrow>
     (response \<times> db) result" where
  "resolveDispute e c i r amountText note key d =
     bindR (requireDropCashierOnShift e c) (\<lambda>c.
     bindR (requireIdempotencyKey key) (\<lambda>s.
       let k = command_key c ''cash_drop.resolve_dispute'' s
       in guarded_command e k (Req_ResolveDispute i r amountText note) (resolveBody e c k i r amountText note) d))"

section \<open>Lists\<close>

definition drop_status_name :: "drop_status \<Rightarrow> string" where
  "drop_status_name s = (case s of D_INITIATED \<Rightarrow> ''INITIATED'' | D_RECEIVED \<Rightarrow> ''RECEIVED''
     | D_DISPUTED \<Rightarrow> ''DISPUTED'' | D_RESOLVED \<Rightarrow> ''RESOLVED''
     | D_CANCELLED_BEFORE_RECEIPT \<Rightarrow> ''CANCELLED_BEFORE_RECEIPT'')"

definition parseStatuses :: "string \<Rightarrow> string list option" where
  "parseStatuses raw =
     (let statuses = filter (\<lambda>s. s \<noteq> []) (map (\<lambda>s. to_upper (trim s)) (split_comma raw))
      in if trim raw = [] \<or> statuses = [] then None else Some statuses)"

definition requested_statuses :: "string option \<Rightarrow> string list" where
  "requested_statuses q =
     (case q of
        None \<Rightarrow> [''INITIATED'', ''DISPUTED'']
      | Some raw \<Rightarrow>
          if raw = [] then [''INITIATED'', ''DISPUTED'']
          else if to_upper raw = ''ALL'' then [''INITIATED'', ''DISPUTED'', ''RECEIVED'', ''RESOLVED'']
          else (case parseStatuses raw of Some ss \<Rightarrow> ss | None \<Rightarrow> [''INITIATED'', ''DISPUTED'']))"

text \<open>The calendar days (in Addis Ababa) that a date filter names, both ends included.\<close>

definition filter_days :: "time \<Rightarrow> string option \<Rightarrow> (date \<times> date) option" where
  "filter_days now q =
     (let today = businessDateUtc now; df = to_upper (trim (case q of None \<Rightarrow> [] | Some s \<Rightarrow> s))
      in if df = ''TODAY'' then Some (today, today)
         else if df = ''YESTERDAY'' then Some (today - 1, today - 1)
         else if df = ''LAST_7_DAYS'' then Some (today - 6, today)
         else None)"

definition in_days :: "date \<times> date \<Rightarrow> date \<Rightarrow> time \<Rightarrow> bool" where
  "in_days r day t = (fst r \<le> day \<and> day \<le> snd r \<or>
     fst r * ms_per_day - addis_offset \<le> t \<and> t \<le> snd r * ms_per_day - addis_offset + ms_per_day - 1)"

definition in_drop_queue :: "string list \<Rightarrow> (date \<times> date) option \<Rightarrow> cash_drop \<Rightarrow> bool" where
  "in_drop_queue ss days x =
     (let s = drop_status_name (cd_status x)
      in s \<in> set (filter (\<lambda>s. s \<in> set [''INITIATED'', ''DISPUTED'']) ss) \<or>
         s \<in> set (filter (\<lambda>s. s \<in> set [''RECEIVED'', ''RESOLVED'']) ss) \<and>
           (case days of None \<Rightarrow> True | Some r \<Rightarrow> in_days r (cd_businessDate x) (cd_initiatedAt x)))"

definition drop_view_of :: "db \<Rightarrow> cash_drop \<Rightarrow> drop_dto" where
  "drop_view_of d x = (toDropDto x)\<lparr>dd_variance := map_option (\<lambda>y. money (dp_variance y)) (dispute_of (cd_id x) d),
     dd_disputeId := map_option dp_id (dispute_of (cd_id x) d),
     dd_disputeStatus := map_option dp_status (dispute_of (cd_id x) d)\<rparr>"

definition listCashierDrops ::
  "env \<Rightarrow> auth_ctx \<Rightarrow> string option \<Rightarrow> string option \<Rightarrow> db \<Rightarrow> (drop_dto \<times> string option) list result" where
  "listCashierDrops e c statusQuery dateFilter d =
     bindR (requireDropCashier e c) (\<lambda>c.
       Inr (map (\<lambda>x. (drop_view_of d x, map_option mb_displayName (row_by mb_id (cd_waiter x) (memberships d))))
         (take 200 (sort_key (\<lambda>x. - cd_initiatedAt x) (filter (\<lambda>x. cd_branchId x = branch_of c \<and>
            in_drop_queue (requested_statuses statusQuery) (filter_days (env_now e) dateFilter) x) (cash_drops d))))))"

definition listWaiterDrops :: "env \<Rightarrow> auth_ctx \<Rightarrow> db \<Rightarrow> drop_dto list result" where
  "listWaiterDrops e c d =
     bindR (requirePouchOnShift e c) (\<lambda>c.
       Inr (map (drop_view_of d) (take 20 (sort_key (\<lambda>x. - cd_initiatedAt x)
         (filter (\<lambda>x. cd_waiterShift x = shift_of c) (cash_drops d))))))"

section \<open>What the commands do\<close>

lemma initiateBody_effect:
  assumes "initiateBody e c k amountText d = Inr (res, d')"
  obtains sh amount where "amount = env_decimal e amountText" and "0 < amount"
    and "amount \<le> money (max (undropped (branch_of c) (staff_of c) (shift_of c) d) 0)"
    and "row_by sh_id (shift_of c) (shift_sessions d) = Some sh"
    and "\<not> day_locked (branch_of c) (sh_businessDate sh) d"
    and "cash_drops d' = cash_drops d @ [drop_row c (sh_businessDate sh) amount (env_now e) (next_id d)]"
    and "payments d' = payments d" and "cash_ledger d' = cash_ledger d" and "cash_disputes d' = cash_disputes d"
    and "financial_sessions d' = financial_sessions d" and "shift_sessions d' = shift_sessions d" and "db_ok d'"
    and "res = Res_Drop (toDropDto (drop_row c (sh_businessDate sh) amount (env_now e) (next_id d)))"
proof (cases "row_by sh_id (shift_of c) (shift_sessions d)")
  case None
  with assms show thesis by (simp add: initiateBody_def Let_def split: if_splits)
next
  case (Some sh)
  let ?dr = "drop_row c (sh_businessDate sh) (env_decimal e amountText) (env_now e) (next_id d)"
  from assms Some have "0 < env_decimal e amountText"
    and "env_decimal e amountText \<le> money (max (undropped (branch_of c) (staff_of c) (shift_of c) d) 0)"
    and "\<not> day_locked (branch_of c) (sh_businessDate sh) d"
    and "res = Res_Drop (toDropDto ?dr)"
    and "d' = emit (Notify_cashiers \<lparr>nt_type = ''cash_drop.pending'', nt_recipient = None, nt_rooms = [], nt_entity = next_id d\<rparr>)
        (storeIdempotent (env_hash e) (next_id d) k (Req_InitiateDrop amountText) (Res_Drop (toDropDto ?dr))
          (d\<lparr>cash_drops := cash_drops d @ [?dr], next_id := next_id d + 1\<rparr>))" and "db_ok d'"
    by (auto simp: initiateBody_def Let_def summaryForShift_def inversion not_le)
  note f = this
  show thesis
  proof (rule that [of "env_decimal e amountText" sh])
    show "db_ok d'" by (rule f(6))
    show "row_by sh_id (shift_of c) (shift_sessions d) = Some sh" by (rule Some)
  qed (simp_all add: f(1-4), simp_all add: f(5))
qed

text \<open>The drawer a receipt goes to belongs to the cashier's shift and is open; opening it touches nothing else.\<close>

lemma ensure_effect:
  assumes "ensureCashierFinancialSession c now d = Inr (f, d1)"
  shows "f \<in> set (financial_sessions d1) \<and> fs_shiftSessionId f = shift_of c \<and> fs_status f = F_OPEN \<and>
     d1 = d\<lparr>financial_sessions := financial_sessions d1, next_id := next_id d1\<rparr> \<and> set (financial_sessions d) \<subseteq> set (financial_sessions d1)"
  using assms
  by (auto simp: ensureCashierFinancialSession_def Let_def inversion new_drawer_def split: option.splits if_splits
      dest: find_Some_in)

lemma ensure_frame:
  assumes "ensureCashierFinancialSession c now d = Inr (f, d1)"
  shows "cash_drops d1 = cash_drops d" "payments d1 = payments d" "cash_ledger d1 = cash_ledger d"
    "cash_disputes d1 = cash_disputes d" "shift_sessions d1 = shift_sessions d" "idempotency d1 = idempotency d"
    "effects d1 = effects d"
  using assms
  by (auto simp: ensureCashierFinancialSession_def Let_def inversion split: option.splits if_splits)

lemma receive_entries_row [simp]:
  "receive_entries c (received_row c' x f t u) = receive_entries c u"
  by (simp add: receive_entries_def received_row_def fun_eq_iff)

lemma drop_rows_id [simp]: "cd_id (received_row c x f t u) = cd_id u" "cd_id (disputed_row c x f t u) = cd_id u"
  by (simp_all add: received_row_def disputed_row_def)

text \<open>What a receipt does: the drop is closed and booked on both sides, or it is disputed and nothing is booked.\<close>

definition receipt :: "auth_ctx \<Rightarrow> time \<Rightarrow> cash_drop \<Rightarrow> decimal \<Rightarrow> id \<Rightarrow> db \<Rightarrow> db \<Rightarrow> bool" where
  "receipt c now dr counted fs d d' \<longleftrightarrow>
     payments d' = payments d \<and> shift_sessions d' = shift_sessions d \<and>
     (if counted = cd_declared dr
      then cash_drops d' = update_id cd_id (cd_id dr) (received_row c counted fs now) (cash_drops d) \<and>
        cash_disputes d' = cash_disputes d \<and>
        (\<exists>i. cash_ledger d' = cash_ledger d @ receive_entries c dr counted fs i)
      else cash_drops d' = update_id cd_id (cd_id dr) (disputed_row c counted fs now) (cash_drops d) \<and>
        cash_ledger d' = cash_ledger d \<and> (\<exists>i. cash_disputes d' = cash_disputes d @ [dispute_row c dr counted i]))"

lemma receiveTx_effect:
  assumes "receiveTx e c k body dr counted fs d = Inr (res, d')" and "row_by cd_id (cd_id dr) (cash_drops d) = Some dr"
  shows "receipt c (env_now e) dr counted fs d d' \<and> db_ok d' \<and> financial_sessions d' = financial_sessions d"
proof (cases "counted = cd_declared dr")
  case True
  with assms show ?thesis
    by (auto simp: receiveTx_def Let_def inversion row_by_update_id writeReceiveLedger_def receipt_def)
next
  case False
  with assms show ?thesis
    by (auto simp: receiveTx_def Let_def inversion row_by_update_id receipt_def)
qed

lemma receiveBody_effect:
  assumes run: "receiveBody e c k did countedText expected d = Inr (res, d')"
    and pk: "primary_key cd_id (cash_drops d)"
  obtains dr f where "row_by cd_id did (cash_drops d) = Some dr" and "cd_branchId dr = branch_of c"
    and "cd_status dr = D_INITIATED" and "cd_version dr = expected" and "0 \<le> env_decimal e countedText"
    and "\<not> day_locked (branch_of c) (cd_businessDate dr) d"
    and "receipt c (env_now e) dr (env_decimal e countedText) (fs_id f) d d'" and "db_ok d'"
    and "f \<in> set (financial_sessions d')" and "fs_shiftSessionId f = shift_of c" and "fs_status f = F_OPEN"
proof -
  from run obtain dr f d1 where fd: "find (\<lambda>x. cd_id x = did \<and> cd_branchId x = branch_of c) (cash_drops d) = Some dr"
    and g: "cd_status dr = D_INITIATED" "cd_version dr = expected" "0 \<le> env_decimal e countedText"
      "\<not> day_locked (branch_of c) (cd_businessDate dr) d"
    and en: "ensureCashierFinancialSession c (env_now e) d = Inr (f, d1)"
    and tx: "receiveTx e c k (Req_ReceiveDrop did countedText expected) dr (env_decimal e countedText) (fs_id f) d1 = Inr (res, d')"
    by (auto simp: receiveBody_def Let_def inversion not_less split: option.splits)
  have row: "row_by cd_id did (cash_drops d) = Some dr"
    using find_row_by [OF fd] pk by (simp add: keyed_def)
  with find_Some_in [OF fd] have "row_by cd_id (cd_id dr) (cash_drops d1) = Some dr"
    by (simp add: ensure_frame(1) [OF en])
  note t = receiveTx_effect [OF tx this]
  have "receipt c (env_now e) dr (env_decimal e countedText) (fs_id f) d d'"
    using t [THEN conjunct1] unfolding receipt_def ensure_frame [OF en] .
  moreover have "db_ok d'" "f \<in> set (financial_sessions d')" "fs_shiftSessionId f = shift_of c" "fs_status f = F_OPEN"
    using t [THEN conjunct2] ensure_effect [OF en] by auto
  ultimately show thesis using row g find_Some_in [OF fd] by (intro that [of dr f]) simp_all
qed

text \<open>
  The status \<open>resolveDispute\<close> writes is not in the check constraint on the disputes, so its transaction never commits.
\<close>

lemma resolveTx_fails: "x \<in> set (cash_disputes d) \<Longrightarrow> resolveTx e c k body x amount note fs d \<noteq> Inr y"
proof
  assume x: "x \<in> set (cash_disputes d)" and "resolveTx e c k body x amount note fs d = Inr y"
  let ?ds = "update_id dp_id (dp_id x) (resolved_dispute c amount note (env_now e)) (cash_disputes d)"
  have "\<exists>d'. db_ok d' \<and> cash_disputes d' = ?ds"
    using \<open>resolveTx e c k body x amount note fs d = Inr y\<close>
    by (auto simp: resolveTx_def Let_def inversion writeReceiveLedger_def split: option.splits intro!: exI)
  then obtain d' where "db_ok d'" "cash_disputes d' = ?ds" by blast
  moreover have "resolved_dispute c amount note (env_now e) x \<in> set ?ds"
    using x by (force simp: update_id_def update_many_def)
  ultimately have "List.member storable_dispute (dp_status (resolved_dispute c amount note (env_now e) x))"
    using db_okD(14) [of d'] by simp
  then show False by (simp add: storable_dispute_def resolved_dispute_def)
qed

lemma resolveBody_fails: "resolveBody e c k i r amountText note d \<noteq> Inr y"
proof
  assume "resolveBody e c k i r amountText note d = Inr y"
  then obtain x amount fs d1 where f: "find (\<lambda>x. dp_id x = i \<and> dp_branchId x = branch_of c) (cash_disputes d) = Some x"
    and d1: "cash_disputes d1 = cash_disputes d"
    and tx: "resolveTx e c k (Req_ResolveDispute i r amountText note) x amount note fs d1 = Inr y"
    by (auto simp: resolveBody_def split: option.splits if_splits dest: ensure_frame(4))
  from find_Some_in [OF f] have "x \<in> set (cash_disputes d1)" by (simp add: d1)
  from resolveTx_fails [OF this] tx show False by blast
qed

section \<open>The pouch\<close>

lemma sum_where: "sum_list (map f (filter P xs)) = (\<Sum>x\<leftarrow>xs. if P x then f x else (0::decimal))"
  by (simp add: sum_list_map_filter')

lemma handover_cong: "cash_ledger d' = cash_ledger d \<Longrightarrow> handover_net sh d' = handover_net sh d"
  by (simp add: handover_net_def)

lemma dropped_cong: "cash_drops d' = cash_drops d \<Longrightarrow> dropped_as st f sh d' = dropped_as st f sh d"
  by (simp add: dropped_as_def)

lemma collected_cong: "payments d' = payments d \<Longrightarrow> cash_collected b m sh d' = cash_collected b m sh d"
  by (simp add: cash_collected_def)

lemma dropped_new:
  assumes "cash_drops d' = cash_drops d @ [drop_row c day amount now i]"
  shows "dropped_as st f sh d' = dropped_as st f sh d +
     (if sh = shift_of c \<and> st = D_INITIATED then f (drop_row c day amount now i) else 0)"
  by (auto simp: dropped_as_def assms drop_row_def)

lemma undropped_initiate:
  assumes "cash_drops d' = cash_drops d @ [drop_row c day amount now i]"
    and "payments d' = payments d" and "cash_ledger d' = cash_ledger d"
  shows "undropped b m sh d' = undropped b m sh d - (if sh = shift_of c then dp2 amount else 0)"
  by (simp add: undropped_def dropped_new [OF assms(1)] collected_cong [OF assms(2)] handover_cong [OF assms(3)] drop_row_def)

lemma dropped_update:
  assumes "cash_drops d' = update_id cd_id k f (cash_drops d)" and "row_by cd_id k (cash_drops d) = Some dr"
    and "distinct (map cd_id (cash_drops d))" and "\<And>x. cd_id (f x) = cd_id x" and "\<And>x. cd_waiterShift (f x) = cd_waiterShift x"
  shows "dropped_as st g sh d' = dropped_as st g sh d +
     (if sh = cd_waiterShift dr then (if cd_status (f dr) = st then g (f dr) else 0) - (if cd_status dr = st then g dr else 0) else 0)"
  unfolding dropped_as_def sum_where assms(1)
  by (subst sum_list_update_id [OF assms(3,2,4)]) (simp add: assms(5))

lemma receipt_undropped:
  assumes r: "receipt c now dr counted fs d d'" and row: "row_by cd_id (cd_id dr) (cash_drops d) = Some dr"
    and dist: "distinct (map cd_id (cash_drops d))" and st: "cd_status dr = D_INITIATED" and cents: "cents (cd_declared dr)"
  shows "undropped b m sh d' = undropped b m sh d"
proof (cases "counted = cd_declared dr")
  case True
  with r obtain i where drops: "cash_drops d' = update_id cd_id (cd_id dr) (received_row c counted fs now) (cash_drops d)"
    and led: "cash_ledger d' = cash_ledger d @ receive_entries c dr counted fs i" and pay: "payments d' = payments d"
    by (auto simp: receipt_def)
  have "handover_net sh d' = handover_net sh d" by (simp add: handover_net_def led receive_entries_def)
  moreover have "dp2 (cd_declared dr) = cd_declared dr" using round_scaled [OF cents] .
  ultimately show ?thesis
    using True st unfolding undropped_def collected_cong [OF pay]
    by (simp add: dropped_update [OF drops row dist] received_row_def accepted_amount_def)
next
  case False
  with r have drops: "cash_drops d' = update_id cd_id (cd_id dr) (disputed_row c counted fs now) (cash_drops d)"
    and led: "cash_ledger d' = cash_ledger d" and pay: "payments d' = payments d" by (auto simp: receipt_def)
  show ?thesis
    using st unfolding undropped_def collected_cong [OF pay] handover_cong [OF led]
    by (simp add: dropped_update [OF drops row dist] disputed_row_def)
qed

text \<open>A drop takes no more out of the pouch than is in it.\<close>

lemma drop_within_pouch:
  assumes "0 < amount" and "amount \<le> money (max u 0)" and "cents u"
  shows "dp2 amount \<le> u"
proof -
  from assms(3) have "cents (max u 0)" by (simp add: max_def)
  then have "money (max u 0) = max u 0" by (simp add: money_def round_scaled)
  with assms have le: "amount \<le> u" by (simp add: max_def split: if_splits)
  from round_mono [OF this, of 2] show ?thesis by (simp add: round_scaled [OF assms(3)])
qed

section \<open>Properties\<close>

definition cash_71 :: payment where
  "cash_71 = \<lparr>py_id = 71, py_branchId = 2, py_businessDate = 0, py_billId = 60, py_method = CASH,
     py_transferChannel = None, py_status = ''SETTLED'', py_amount = 225, py_collector = 10, py_collectorShift = 30,
     py_cashTendered = Some 300, py_cashChange = Some 75, py_initiatedAt = 900000, py_collectedAt = Some 900000, py_verifiedAt = None,
     py_settledAt = Some 900000\<rparr>"

definition drop_72 :: cash_drop where
  "drop_72 = drop_row waiter 0 200 950000 72"

definition pouch_db :: db where
  "pouch_db = floor_db\<lparr>payments := [cash_71]\<rparr>"

definition dropped_db :: db where
  "dropped_db = pouch_db\<lparr>cash_drops := [drop_72]\<rparr>"

definition disputed_db :: db where
  "disputed_db = pouch_db\<lparr>cash_drops := [disputed_row cashier 190 74 960000 drop_72],
     cash_disputes := [dispute_row cashier drop_72 190 73], financial_sessions := [new_drawer cashier 0 955000 74]\<rparr>"

text \<open>
  A waiter can only drop cash that is in the pouch of the shift. An accepted drop of a positive
  amount is recorded INITIATED for that waiter and shift; the pouch shrinks by exactly the amount
  declared (rounded to cents), stays non-negative, and no other pouch is touched.
\<close>

theorem initiateDrop_reserves_the_cash:
  assumes run: "initiateDrop e c amountText key d = Inr (res, d')" and fresh: "cash_drops d' \<noteq> cash_drops d"
    and cents: "cents (undropped (branch_of c) (staff_of c) (shift_of c) d)"
  shows "\<exists>dr. cash_drops d' = cash_drops d @ [dr] \<and> cd_status dr = D_INITIATED \<and> cd_waiter dr = staff_of c \<and>
     cd_waiterShift dr = shift_of c \<and> cd_declared dr = dp2 (env_decimal e amountText) \<and> 0 < cd_declared dr \<and>
     res = Res_Drop (toDropDto dr) \<and>
     0 \<le> undropped (branch_of c) (staff_of c) (shift_of c) d' \<and>
     (\<forall>b m sh. undropped b m sh d' = undropped b m sh d - (if sh = shift_of c then cd_declared dr else 0))"
proof -
  from run fresh obtain k where "initiateBody e c k amountText d = Inr (res, d')"
    by (auto simp: initiateDrop_def Let_def inversion dest!: guarded_fresh)
  then show ?thesis
  proof (rule initiateBody_effect, goal_cases)
    case (1 sh amount)
    let ?dr = "drop_row c (sh_businessDate sh) amount (env_now e) (next_id d)"
    have "0 < cd_declared ?dr" using db_okD(13) [OF 1(12)] 1(6) by simp
    moreover have "\<forall>b m sh. undropped b m sh d' = undropped b m sh d - (if sh = shift_of c then cd_declared ?dr else 0)"
      using undropped_initiate [OF 1(6,7,8)] by (simp add: drop_row_def)
    moreover have "0 \<le> undropped (branch_of c) (staff_of c) (shift_of c) d'"
      using undropped_initiate [OF 1(6,7,8)] drop_within_pouch [OF 1(2,3) cents] by simp
    ultimately show ?case using 1(1,6,13) by (intro exI [of _ ?dr]) (simp add: drop_row_def)
  qed
qed

theorem initiateDrop_reserves_the_cash_witness:
  "\<exists>res d'. initiateDrop evening waiter ''200'' (Some ''k5'') pouch_db = Inr (res, d') \<and>
     undropped 2 10 30 d' = undropped 2 10 30 pouch_db - 200"
proof -
  have "bindR (initiateDrop evening waiter ''200'' (Some ''k5'') pouch_db) (\<lambda>(res, d').
     Inr (map cd_declared (cash_drops d'))) = Inr [200]" by code_simp
  then obtain res d' where run: "initiateDrop evening waiter ''200'' (Some ''k5'') pouch_db = Inr (res, d')"
    and dec: "map cd_declared (cash_drops d') = [200]" "cash_drops pouch_db = []"
    by (elim run_pairE) (simp add: pouch_db_def floor_db_def empty_db_def)
  from dec have fresh: "cash_drops d' \<noteq> cash_drops pouch_db" by auto
  have c: "cents (undropped (branch_of waiter) (staff_of waiter) (shift_of waiter) pouch_db)" and w: "shift_of waiter = 30"
    by code_simp+
  from initiateDrop_reserves_the_cash [OF run fresh c] obtain dr where
    "cash_drops d' = cash_drops pouch_db @ [dr]"
    "undropped 2 10 30 d' = undropped 2 10 30 pouch_db - cd_declared dr" unfolding w by auto
  with dec run show ?thesis by auto
qed

text \<open>
  C38: a drop is counted once, by the version the cashier saw, into the open drawer of the cashier's
  own shift. If the count equals the declared amount the drop is RECEIVED and the ledger books the
  amount out of the waiter's shift and into that drawer; if not, nothing is booked and a dispute of
  the difference is opened. No pouch changes, and nobody can count the drop again.
\<close>

theorem receiveDrop_books_both_sides:
  assumes ok: "db_ok d" and run: "receiveDrop e c did countedText expected key d = Inr (res, d')"
    and fresh: "cash_drops d' \<noteq> cash_drops d" and cents: "\<forall>x \<in> set (cash_drops d). cents (cd_declared x)"
  shows "\<exists>dr dr' f i. let counted = env_decimal e countedText in
     row_by cd_id did (cash_drops d) = Some dr \<and> cd_status dr = D_INITIATED \<and> cd_version dr = expected \<and>
     row_by cd_id did (cash_drops d') = Some dr' \<and> cd_version dr' = expected + 1 \<and> cd_financialSession dr' = Some (fs_id f) \<and>
     f \<in> set (financial_sessions d') \<and> fs_shiftSessionId f = shift_of c \<and> fs_status f = F_OPEN \<and>
     (if counted = cd_declared dr
      then cd_status dr' = D_RECEIVED \<and> accepted_amount dr' = cd_declared dr \<and> cash_disputes d' = cash_disputes d \<and>
        cash_ledger d' = cash_ledger d @ receive_entries c dr (cd_declared dr) (fs_id f) i
      else cd_status dr' = D_DISPUTED \<and> cash_ledger d' = cash_ledger d \<and>
        cash_disputes d' = cash_disputes d @ [dispute_row c dr counted i]) \<and>
     (\<forall>b m sh. undropped b m sh d' = undropped b m sh d) \<and>
     (\<forall>e' c' k' t v. \<not> is_ok (receiveBody e' c' k' did t v d'))"
proof -
  from run fresh obtain k where body: "receiveBody e c k did countedText expected d = Inr (res, d')"
    by (auto simp: receiveDrop_def Let_def inversion dest!: guarded_fresh)
  have pk: "primary_key cd_id (cash_drops d)" using db_okD(7) [OF ok] .
  then have dist: "distinct (map cd_id (cash_drops d))" by (simp add: keyed_def)
  from body pk show ?thesis
  proof (rule receiveBody_effect, goal_cases)
    case (1 dr f)
    let ?counted = "env_decimal e countedText"
    let ?f = "if ?counted = cd_declared dr then received_row c ?counted (fs_id f) (env_now e)
       else disputed_row c ?counted (fs_id f) (env_now e)"
    from 1(1) have id: "cd_id dr = did" and mem: "dr \<in> set (cash_drops d)" by (auto dest: row_by_SomeD)
    from 1(7) have drops: "cash_drops d' = update_id cd_id did ?f (cash_drops d)" by (auto simp: receipt_def id)
    have row: "row_by cd_id did (cash_drops d') = Some (?f dr)" unfolding drops by (simp add: row_by_update_id 1(1))
    have pouch: "undropped b m sh d' = undropped b m sh d" for b m sh
      using receipt_undropped [OF 1(7) _ dist 1(3)] 1(1) cents mem id by simp
    have again: "\<not> is_ok (receiveBody e' c' k' did t v d')" for e' c' k' t v
    proof
      assume "is_ok (receiveBody e' c' k' did t v d')"
      then obtain y where "receiveBody e' c' k' did t v d' = Inr y" by (auto simp: is_ok_iff)
      then obtain r d2 where "receiveBody e' c' k' did t v d' = Inr (r, d2)" by (cases y) auto
      then show False using db_okD(7) [OF 1(8)] row
        by (auto simp: received_row_def disputed_row_def elim!: receiveBody_effect split: if_splits)
    qed
    have dec: "dp2 (cd_declared dr) = cd_declared dr" using cents mem by (intro round_scaled) blast
    show ?case
      using 1(1,3,4,7,9,10,11) row pouch again dec
      by (auto simp: Let_def receipt_def received_row_def disputed_row_def accepted_amount_def split: if_splits)
  qed
qed

theorem receiveDrop_books_both_sides_witness:
  "\<exists>res d' dr'. receiveDrop later cashier 72 ''190'' 1 (Some ''k6'') dropped_db = Inr (res, d') \<and>
     row_by cd_id 72 (cash_drops d') = Some dr' \<and> cd_status dr' = D_DISPUTED \<and> cash_ledger d' = cash_ledger dropped_db"
proof -
  have "bindR (receiveDrop later cashier 72 ''190'' 1 (Some ''k6'') dropped_db) (\<lambda>(res, d').
     Inr (map cd_status (cash_drops d'))) = Inr [D_DISPUTED]" by code_simp
  then obtain res d' where run: "receiveDrop later cashier 72 ''190'' 1 (Some ''k6'') dropped_db = Inr (res, d')"
    and st: "map cd_status (cash_drops d') = [D_DISPUTED]" by (elim run_pairE) simp
  have ok: "db_ok dropped_db" and cents: "\<forall>x \<in> set (cash_drops dropped_db). cents (cd_declared x)" by code_simp+
  have drops: "cash_drops dropped_db = [drop_72]" by (simp add: dropped_db_def)
  with st have fresh: "cash_drops d' \<noteq> cash_drops dropped_db" by (auto simp: drop_72_def drop_row_def)
  have val: "env_decimal later ''190'' = 190" and dec: "cd_declared drop_72 = 200" by code_simp+
  from receiveDrop_books_both_sides [OF ok run fresh cents] obtain dr dr' where
    "row_by cd_id 72 (cash_drops dropped_db) = Some dr" "row_by cd_id 72 (cash_drops d') = Some dr'"
    "190 = cd_declared dr \<or> cd_status dr' = D_DISPUTED \<and> cash_ledger d' = cash_ledger dropped_db"
    unfolding Let_def val by (auto split: if_splits)
  moreover from this(1) drops dec have "cd_declared dr = 200" by (simp add: row_by_Cons split: if_splits)
  ultimately show ?thesis using run by auto
qed

text \<open>
  No dispute over a drop can ever be resolved: unless it finds the stored response of an
  earlier one, the command fails for every cashier, every resolution and every amount, because
  the status RESOLVED it writes is not admitted by the check constraint on the disputes.
\<close>

theorem resolveDispute_always_fails:
  assumes "findIdempotent (env_hash e) (command_key c ''cash_drop.resolve_dispute'' (trim s))
     (Req_ResolveDispute i r amountText note) d = Inr None"
  shows "\<not> is_ok (resolveDispute e c i r amountText note (Some s) d)"
proof
  assume "is_ok (resolveDispute e c i r amountText note (Some s) d)"
  then obtain res d' where "resolveDispute e c i r amountText note (Some s) d = Inr (res, d')" by (auto simp: is_ok_iff)
  with assms have "resolveBody e c (command_key c ''cash_drop.resolve_dispute'' (trim s)) i r amountText note d = Inr (res, d')"
    by (auto simp: resolveDispute_def Let_def inversion guarded_command_def)
  then show False using resolveBody_fails by blast
qed

theorem resolveDispute_always_fails_witness:
  "resolveDispute later cashier 73 ACCEPT_COUNTED None None (Some ''k7'') disputed_db =
     Inl (DbError ''ck_cash_drop_disputes__status'') \<and>
   \<not> is_ok (resolveDispute later cashier 73 OTHER_APPROVED_AMOUNT (Some ''195'') None (Some ''k7'') disputed_db)"
proof
  show "resolveDispute later cashier 73 ACCEPT_COUNTED None None (Some ''k7'') disputed_db =
     Inl (DbError ''ck_cash_drop_disputes__status'')" by code_simp
  have "findIdempotent (env_hash later) (command_key cashier ''cash_drop.resolve_dispute'' (trim ''k7''))
     (Req_ResolveDispute 73 OTHER_APPROVED_AMOUNT (Some ''195'') None) disputed_db = Inr None" by code_simp
  then show "\<not> is_ok (resolveDispute later cashier 73 OTHER_APPROVED_AMOUNT (Some ''195'') None (Some ''k7'') disputed_db)"
    by (rule resolveDispute_always_fails)
qed

end
