(* ===== verification/Drawer.thy ===== *)
theory Drawer
  imports CashCustody
begin

text \<open>
  What a cashier's drawer should hold and how it is reconciled:
  \<open>src/reconciliation/reconciliation.service.ts\<close>, with the two other computations of the expected
  cash, \<open>liveExpectedCash\<close> of \<open>src/shifts/shifts.service.ts\<close> and \<open>sessionExpected\<close> of
  \<open>src/daily-close/daily-close.service.ts\<close>.
\<close>

section \<open>Expected cash, three times\<close>

definition session_entries :: "id \<Rightarrow> db \<Rightarrow> ledger_entry list" where
  "session_entries fs d = filter (\<lambda>x. le_financialSession x = Some fs \<and> le_holderType x = CASHIER_SESSION) (cash_ledger d)"

text \<open>One round of the loop: the float is on the session, the rest is drops, other inflows and outflows.\<close>

definition tally :: "decimal \<times> decimal \<times> decimal \<Rightarrow> ledger_entry \<Rightarrow> decimal \<times> decimal \<times> decimal" where
  "tally = (\<lambda>(drops, ins, outs) x.
     if le_entryType x = ''CASH_DROP_IN'' then (drops + le_amountDelta x, ins, outs)
     else if le_entryType x = ''OPENING_FLOAT'' then (drops, ins, outs)
     else if 0 < le_amountDelta x then (drops, ins + le_amountDelta x, outs)
     else if le_amountDelta x < 0 then (drops, ins, outs + \<bar>le_amountDelta x\<bar>)
     else (drops, ins, outs))"

definition liveExpectedCash :: "financial_session \<Rightarrow> db \<Rightarrow> decimal" where
  "liveExpectedCash f d =
     (let (drops, ins, outs) = foldl tally (0, 0, 0) (session_entries (fs_id f) d)
      in fs_openingFloat f + drops + ins - outs)"

text \<open>\<open>drop.resolutionAmount ?? drop.countedAmount ?? drop.declaredAmount\<close>.\<close>

definition accepted_or_declared :: "cash_drop \<Rightarrow> decimal" where
  "accepted_or_declared x = (case cd_resolution x of Some a \<Rightarrow> a
     | None \<Rightarrow> (case cd_counted x of Some a \<Rightarrow> a | None \<Rightarrow> cd_declared x))"

definition drops_on_session :: "id \<Rightarrow> db \<Rightarrow> decimal" where
  "drops_on_session fs d = sum_list (map accepted_or_declared (filter
     (\<lambda>x. cd_financialSession x = Some fs \<and> cd_status x \<in> set [D_RECEIVED, D_RESOLVED]) (cash_drops d)))"

record expected_totals =
  et_openingFloat :: decimal
  et_cashDropsReceived :: decimal
  et_otherInflows :: decimal
  et_otherOutflows :: decimal
  et_expectedCash :: decimal

definition computeExpected :: "id \<Rightarrow> decimal \<Rightarrow> db \<Rightarrow> expected_totals" where
  "computeExpected fs float d =
     (let (drops0, ins, outs) = foldl tally (0, 0, 0) (session_entries fs d);
          drops = (if drops0 = 0 then drops_on_session fs d else drops0)
      in \<lparr>et_openingFloat = float, et_cashDropsReceived = drops, et_otherInflows = ins, et_otherOutflows = outs,
          et_expectedCash = float + drops + ins - outs\<rparr>)"

definition tally_net :: "decimal \<times> decimal \<Rightarrow> ledger_entry \<Rightarrow> decimal \<times> decimal" where
  "tally_net = (\<lambda>(drops, other) x.
     if le_entryType x = ''CASH_DROP_IN'' then (drops + le_amountDelta x, other)
     else if le_entryType x \<noteq> ''OPENING_FLOAT'' then (drops, other + le_amountDelta x)
     else (drops, other))"

definition sessionExpected :: "financial_session \<Rightarrow> db \<Rightarrow> decimal" where
  "sessionExpected f d =
     (let (drops0, other) = foldl tally_net (0, 0) (session_entries (fs_id f) d);
          drops = (if drops0 = 0 then drops_on_session (fs_id f) d else drops0)
      in fs_openingFloat f + drops + other)"

section \<open>Guards\<close>

definition requireDrawerOnShift :: "env \<Rightarrow> auth_ctx \<Rightarrow> auth_ctx result" where
  "requireDrawerOnShift e c =
     bindR (requireBranch c) (\<lambda>c.
     bindR (assertCan e c Act_reconcile Sub_CashierDrawer ''Reconciliation is for cashiers.'') (\<lambda>_. onShift c))"

definition requireReviewer :: "env \<Rightarrow> auth_ctx \<Rightarrow> auth_ctx result" where
  "requireReviewer e c =
     bindR (requireBranch c) (\<lambda>c.
     bindR (assertCan e c Act_manage Sub_Report ''Reconciliation review is for managers.'') (\<lambda>_.
       if ax_staffMembershipId c = None then Inl (Forbidden ''Staff membership required.'') else Inr c))"

lemma requireDrawerOnShift_eq_Inr [inversion]:
  "requireDrawerOnShift e c = Inr c' \<longleftrightarrow> c' = c \<and> ax_tenantId c \<noteq> None \<and> ax_branchId c \<noteq> None \<and>
     can e c Act_reconcile Sub_CashierDrawer \<and> ax_staffMembershipId c \<noteq> None \<and> ax_shiftSessionId c \<noteq> None"
  by (auto simp: requireDrawerOnShift_def inversion)

lemma requireReviewer_eq_Inr [inversion]:
  "requireReviewer e c = Inr c' \<longleftrightarrow> c' = c \<and> ax_tenantId c \<noteq> None \<and> ax_branchId c \<noteq> None \<and>
     can e c Act_manage Sub_Report \<and> ax_staffMembershipId c \<noteq> None"
  by (auto simp: requireReviewer_def inversion)

section \<open>Preview\<close>

definition ensureOpenSession :: "auth_ctx \<Rightarrow> time \<Rightarrow> db \<Rightarrow> (financial_session \<times> db) result" where
  "ensureOpenSession c now d =
     (case sort_key (\<lambda>f. - fs_openedAt f) (filter (\<lambda>f. fs_shiftSessionId f = shift_of c) (financial_sessions d)) of
        f # _ \<Rightarrow> Inr (f, d)
      | [] \<Rightarrow>
          (case row_by sh_id (shift_of c) (shift_sessions d) of
             None \<Rightarrow> Inl (NotFound ''Cashier shift not found.'')
           | Some sh \<Rightarrow>
               let f = new_drawer c (sh_businessDate sh) now (next_id d)
               in bindR (commit (d\<lparr>financial_sessions := financial_sessions d @ [f], next_id := next_id d + 1\<rparr>)) (\<lambda>d1.
                    Inr (f, d1))))"

record bills_breakdown =
  bb_billsCount :: nat
  bb_cash :: decimal
  bb_digitalVerified :: decimal
  bb_digitalPending :: decimal

definition payment_statuses :: "string list" where
  "payment_statuses = [''COLLECTED'', ''VERIFIED'', ''APPROVED'', ''SETTLED'', ''PENDING'', ''VERIFICATION_PENDING'', ''SUBMITTED'']"

definition tally_payment :: "bills_breakdown \<Rightarrow> payment \<Rightarrow> bills_breakdown" where
  "tally_payment b p =
     (if py_method p = CASH then
        (if py_status p \<in> set [''COLLECTED'', ''SETTLED'', ''APPROVED''] then b\<lparr>bb_cash := bb_cash b + py_amount p\<rparr> else b)
      else if py_status p \<in> set [''SETTLED'', ''VERIFIED'', ''APPROVED'']
      then b\<lparr>bb_digitalVerified := bb_digitalVerified b + py_amount p\<rparr>
      else b\<lparr>bb_digitalPending := bb_digitalPending b + py_amount p\<rparr>)"

text \<open>The dates of the filter are UTC days. The status VOID that the query leaves out is not one a bill can have.\<close>

definition computeBillsBreakdown :: "id \<Rightarrow> id \<Rightarrow> date \<Rightarrow> date option \<Rightarrow> date option \<Rightarrow> db \<Rightarrow> bills_breakdown" where
  "computeBillsBreakdown m b day from_day to_day d =
     (let start = (case from_day of Some x \<Rightarrow> x * ms_per_day | None \<Rightarrow> day * ms_per_day);
          stop = (case to_day of Some x \<Rightarrow> x * ms_per_day + ms_per_day - 1 | None \<Rightarrow> day * ms_per_day + ms_per_day - 1);
          bs = filter (\<lambda>x. bl_branchId x = b \<and> start \<le> bl_generatedAt x \<and> bl_generatedAt x \<le> stop \<and>
             (bl_generatedBy x = m \<or> bl_closedBy x = Some m \<or>
              list_ex (\<lambda>p. py_billId p = bl_id x \<and> py_collector p = m) (payments d))) (bills d)
      in foldl (\<lambda>acc x. foldl tally_payment acc
             (filter (\<lambda>p. py_billId p = bl_id x \<and> py_status p \<in> set payment_statuses) (payments d)))
           \<lparr>bb_billsCount = length bs, bb_cash = 0, bb_digitalVerified = 0, bb_digitalPending = 0\<rparr> bs)"

record drawer_preview =
  dv_financialSession :: id
  dv_totals :: expected_totals
  dv_existing :: "(id \<times> string \<times> decimal \<times> decimal \<times> decimal) option"
  dv_sessionStatus :: financial_status
  dv_needsResubmit :: bool
  dv_bills :: bills_breakdown

definition money_totals :: "expected_totals \<Rightarrow> expected_totals" where
  "money_totals t = \<lparr>et_openingFloat = money (et_openingFloat t), et_cashDropsReceived = money (et_cashDropsReceived t),
     et_otherInflows = money (et_otherInflows t), et_otherOutflows = money (et_otherOutflows t),
     et_expectedCash = money (et_expectedCash t)\<rparr>"

definition money_breakdown :: "bills_breakdown \<Rightarrow> bills_breakdown" where
  "money_breakdown b = b\<lparr>bb_cash := money (bb_cash b), bb_digitalVerified := money (bb_digitalVerified b),
     bb_digitalPending := money (bb_digitalPending b)\<rparr>"

definition reopen :: "financial_session \<Rightarrow> db \<Rightarrow> (financial_session \<times> db)" where
  "reopen f d = (let f' = f\<lparr>fs_status := F_OPEN, fs_closedAt := None, fs_version := fs_version f + 1\<rparr>
     in (f', d\<lparr>financial_sessions := update_id fs_id (fs_id f) (\<lambda>_. f') (financial_sessions d)\<rparr>))"

definition previewDrawer ::
  "env \<Rightarrow> auth_ctx \<Rightarrow> date option \<Rightarrow> date option \<Rightarrow> db \<Rightarrow> (drawer_preview \<times> db) result" where
  "previewDrawer e c from_day to_day d =
     bindR (requireDrawerOnShift e c) (\<lambda>c.
     bindR (ensureOpenSession c (env_now e) d) (\<lambda>(f, d1).
       let totals = computeExpected (fs_id f) (fs_openingFloat f) d1;
           existing = find (\<lambda>r. rn_financialSession r = fs_id f) (reconciliations d1);
           differs = (case existing of None \<Rightarrow> False | Some r \<Rightarrow> et_expectedCash totals \<noteq> rn_expected r)
       in bindR (if differs \<and> fs_status f \<in> set [F_RECONCILED, F_CLOSED]
                 then (let (f', d2) = reopen f d1 in bindR (commit d2) (\<lambda>d3. Inr (f', d3)))
                 else Inr (f, d1)) (\<lambda>(f, d2).
            Inr (\<lparr>dv_financialSession = fs_id f, dv_totals = money_totals totals,
                  dv_existing = map_option (\<lambda>r. (rn_id r, rn_status r, money (rn_counted r), money (rn_variance r), money (rn_expected r))) existing,
                  dv_sessionStatus = fs_status f,
                  dv_needsResubmit = (differs \<and> fs_status f \<in> set [F_OPEN, F_RECONCILIATION_PENDING]),
                  dv_bills = money_breakdown (computeBillsBreakdown (staff_of c) (branch_of c) (fs_businessDate f) from_day to_day d2)\<rparr>, d2))))"

section \<open>Submitting and reviewing a count\<close>

definition toReconciliationDto :: "reconciliation \<Rightarrow> reconciliation_dto" where
  "toReconciliationDto r = \<lparr>rd_reconciliationId = rn_id r, rd_financialSession = rn_financialSession r,
     rd_expected = money (rn_expected r), rd_counted = money (rn_counted r), rd_variance = money (rn_variance r),
     rd_status = rn_status r, rd_comment = rn_comment r, rd_submittedAt = rn_submittedAt r,
     rd_review = (if rn_reviewedAt r \<noteq> None \<or> rn_reviewComment r \<noteq> None \<or> rn_reviewedBy r \<noteq> None
       then Some (rn_reviewedAt r, rn_reviewComment r, rn_reviewedBy r) else None),
     rd_version = rn_version r\<rparr>"

definition new_reconciliation ::
  "auth_ctx \<Rightarrow> financial_session \<Rightarrow> decimal \<Rightarrow> decimal \<Rightarrow> string option \<Rightarrow> time \<Rightarrow> id \<Rightarrow> reconciliation" where
  "new_reconciliation c f expected counted comment now i = \<lparr>rn_id = i, rn_branchId = branch_of c,
     rn_businessDate = fs_businessDate f, rn_financialSession = fs_id f, rn_expected = dp2 expected,
     rn_counted = dp2 counted, rn_variance = dp2 (counted - expected), rn_comment = comment,
     rn_status = ''SUBMITTED'', rn_submittedAt = now, rn_reviewedBy = None, rn_reviewedAt = None,
     rn_reviewComment = None, rn_version = 1\<rparr>"

definition recounted :: "decimal \<Rightarrow> decimal \<Rightarrow> string option \<Rightarrow> time \<Rightarrow> reconciliation \<Rightarrow> reconciliation" where
  "recounted expected counted comment now r = r\<lparr>rn_expected := dp2 expected, rn_counted := dp2 counted,
     rn_variance := dp2 (counted - expected), rn_comment := comment, rn_status := ''SUBMITTED'',
     rn_submittedAt := now, rn_reviewedAt := None, rn_reviewedBy := None, rn_reviewComment := None,
     rn_version := rn_version r + 1\<rparr>"

definition counted_session :: "decimal \<Rightarrow> time \<Rightarrow> financial_session \<Rightarrow> financial_session" where
  "counted_session variance now f = f\<lparr>fs_status := (if variance = 0 then F_RECONCILED else F_RECONCILIATION_PENDING),
     fs_version := fs_version f + 1, fs_closedAt := (if variance = 0 then Some now else None)\<rparr>"

definition submitTx ::
  "env \<Rightarrow> auth_ctx \<Rightarrow> command_key \<Rightarrow> request \<Rightarrow> financial_session \<Rightarrow> reconciliation option \<Rightarrow> decimal \<Rightarrow>
     decimal \<Rightarrow> string option \<Rightarrow> db \<Rightarrow> (response \<times> db) result" where
  "submitTx e c k body f already expected counted comment d =
     (let now = env_now e;
          (row, d1) = (case already of
             Some r \<Rightarrow> (recounted expected counted comment now r,
               d\<lparr>reconciliations := update_id rn_id (rn_id r) (recounted expected counted comment now) (reconciliations d)\<rparr>)
           | None \<Rightarrow> (let r = new_reconciliation c f expected counted comment now (next_id d)
               in (r, d\<lparr>reconciliations := reconciliations d @ [r], next_id := next_id d + 1\<rparr>)));
          d2 = d1\<lparr>financial_sessions := update_id fs_id (fs_id f) (counted_session (counted - expected) now) (financial_sessions d1)\<rparr>;
          payload = Res_Reconciliation (toReconciliationDto row)
      in bindR (commit (storeIdempotent (env_hash e) (rn_id row) k body payload d2)) (\<lambda>d3. Inr (payload, d3)))"

definition submitBody ::
  "env \<Rightarrow> auth_ctx \<Rightarrow> command_key \<Rightarrow> id \<Rightarrow> string \<Rightarrow> string option \<Rightarrow> db \<Rightarrow> (response \<times> db) result" where
  "submitBody e c k fid countedText comment d =
     (case find (\<lambda>f. fs_id f = fid \<and> fs_branchId f = branch_of c \<and> fs_cashier f = staff_of c) (financial_sessions d) of
        None \<Rightarrow> Inl (NotFound ''Cashier session not found.'')
      | Some f \<Rightarrow>
          if fs_status f \<notin> set [F_OPEN, F_RECONCILIATION_PENDING]
          then Inl (Unprocessable ''CASHIER_SESSION_NOT_RECONCILABLE'')
          else
            let already = row_by rn_financialSession (fs_id f) (reconciliations d);
                expected = et_expectedCash (computeExpected (fs_id f) (fs_openingFloat f) d);
                counted = env_decimal e countedText; note = trim_or_null comment
            in if counted < 0 then Inl (Unprocessable ''COUNTED_CASH_INVALID'')
               else if counted - expected \<noteq> 0 \<and> note = None
               then Inl (Unprocessable ''RECONCILIATION_VARIANCE_EXPLANATION_REQUIRED'')
               else (case already of
                   Some r \<Rightarrow> if expected = rn_expected r then Inl (Conflict ''RECONCILIATION_ALREADY_SUBMITTED'')
                     else submitTx e c k (Req_SubmitReconciliation fid countedText comment) f already expected counted note d
                 | None \<Rightarrow> submitTx e c k (Req_SubmitReconciliation fid countedText comment) f already expected counted note d))"

definition submitReconciliation ::
  "env \<Rightarrow> auth_ctx \<Rightarrow> id \<Rightarrow> string \<Rightarrow> string option \<Rightarrow> string option \<Rightarrow> db \<Rightarrow> (response \<times> db) result" where
  "submitReconciliation e c fid countedText comment key d =
     bindR (requireDrawerOnShift e c) (\<lambda>c.
     bindR (requireIdempotencyKey key) (\<lambda>s.
       let k = command_key c ''cashier.reconcile.submit'' s
       in guarded_command e k (Req_SubmitReconciliation fid countedText comment) (submitBody e c k fid countedText comment) d))"

definition listForReview :: "env \<Rightarrow> auth_ctx \<Rightarrow> db \<Rightarrow> (reconciliation_dto \<times> string option \<times> date) list result" where
  "listForReview e c d =
     bindR (requireReviewer e c) (\<lambda>c.
       Inr (map (\<lambda>r. (toReconciliationDto r,
           (case row_by fs_id (rn_financialSession r) (financial_sessions d) of None \<Rightarrow> None
            | Some f \<Rightarrow> map_option mb_displayName (row_by mb_id (fs_cashier f) (memberships d))), rn_businessDate r))
         (take 50 (sort_key rn_submittedAt
           (filter (\<lambda>r. rn_branchId r = branch_of c \<and> rn_status r \<in> set [''SUBMITTED'', ''FLAGGED'']) (reconciliations d))))))"

definition reviewed :: "auth_ctx \<Rightarrow> string \<Rightarrow> string option \<Rightarrow> time \<Rightarrow> reconciliation \<Rightarrow> reconciliation" where
  "reviewed c status comment now r = r\<lparr>rn_status := status, rn_reviewedBy := ax_staffMembershipId c,
     rn_reviewedAt := Some now, rn_reviewComment := trim_or_null comment, rn_version := rn_version r + 1\<rparr>"

definition reconciled_session :: "time \<Rightarrow> financial_session \<Rightarrow> financial_session" where
  "reconciled_session now f = f\<lparr>fs_status := F_RECONCILED, fs_closedAt := Some now, fs_version := fs_version f + 1\<rparr>"

definition review ::
  "env \<Rightarrow> auth_ctx \<Rightarrow> id \<Rightarrow> string \<Rightarrow> string option \<Rightarrow> db \<Rightarrow> (response \<times> db) result" where
  "review e c rid status comment d =
     bindR (requireReviewer e c) (\<lambda>c.
       case find (\<lambda>r. rn_id r = rid \<and> rn_branchId r = branch_of c) (reconciliations d) of
         None \<Rightarrow> Inl (NotFound ''Reconciliation not found.'')
       | Some r \<Rightarrow>
           if rn_status r \<notin> set [''SUBMITTED'', ''FLAGGED''] then Inl (Unprocessable ''RECONCILIATION_NOT_REVIEWABLE'')
           else
             let now = env_now e; next = reviewed c status comment now r;
                 d1 = d\<lparr>reconciliations := update_id rn_id (rn_id r) (reviewed c status comment now) (reconciliations d)\<rparr>;
                 d2 = (if status = ''APPROVED''
                   then d1\<lparr>financial_sessions := update_id fs_id (rn_financialSession r) (reconciled_session now) (financial_sessions d1)\<rparr>
                   else d1)
             in bindR (commit d2) (\<lambda>d3. Inr (Res_Reconciliation (toReconciliationDto next), d3)))"

definition approve :: "env \<Rightarrow> auth_ctx \<Rightarrow> id \<Rightarrow> string option \<Rightarrow> db \<Rightarrow> (response \<times> db) result" where
  "approve e c rid comment d = review e c rid ''APPROVED'' comment d"

definition flag :: "env \<Rightarrow> auth_ctx \<Rightarrow> id \<Rightarrow> string option \<Rightarrow> db \<Rightarrow> (response \<times> db) result" where
  "flag e c rid comment d = review e c rid ''FLAGGED'' comment d"

section \<open>The three computations\<close>

definition drop_inflow :: "id \<Rightarrow> db \<Rightarrow> decimal" where
  "drop_inflow fs d = sum_list (map le_amountDelta (filter (\<lambda>x. le_entryType x = ''CASH_DROP_IN'') (session_entries fs d)))"

definition other_flow :: "id \<Rightarrow> db \<Rightarrow> decimal" where
  "other_flow fs d = sum_list (map le_amountDelta (filter
     (\<lambda>x. le_entryType x \<noteq> ''CASH_DROP_IN'' \<and> le_entryType x \<noteq> ''OPENING_FLOAT'') (session_entries fs d)))"

lemma tally_sum:
  "\<exists>ins outs. foldl tally (a, i, u) xs = (a + sum_list (map le_amountDelta (filter (\<lambda>x. le_entryType x = ''CASH_DROP_IN'') xs)), ins, outs) \<and>
     ins - outs = i - u + sum_list (map le_amountDelta (filter
       (\<lambda>x. le_entryType x \<noteq> ''CASH_DROP_IN'' \<and> le_entryType x \<noteq> ''OPENING_FLOAT'') xs))"
proof (induction xs arbitrary: a i u)
  case (Cons x xs)
  obtain a' i' u' where t: "tally (a, i, u) x = (a', i', u')" by (cases "tally (a, i, u) x") auto
  from t have "a' = a + (if le_entryType x = ''CASH_DROP_IN'' then le_amountDelta x else 0)"
    and "i' - u' = i - u + (if le_entryType x \<noteq> ''CASH_DROP_IN'' \<and> le_entryType x \<noteq> ''OPENING_FLOAT'' then le_amountDelta x else 0)"
    by (auto simp: tally_def split: if_splits)
  with Cons.IH [of a' i' u'] t show ?case by (auto simp: algebra_simps)
qed simp

lemma tally_net_sum:
  "foldl tally_net (a, u) xs = (a + sum_list (map le_amountDelta (filter (\<lambda>x. le_entryType x = ''CASH_DROP_IN'') xs)),
     u + sum_list (map le_amountDelta (filter (\<lambda>x. le_entryType x \<noteq> ''CASH_DROP_IN'' \<and> le_entryType x \<noteq> ''OPENING_FLOAT'') xs)))"
  by (induction xs arbitrary: a u) (auto simp: tally_net_def algebra_simps)

lemma tally_totals:
  obtains ins outs where "foldl tally (0, 0, 0) (session_entries fs d) = (drop_inflow fs d, ins, outs)"
    and "ins - outs = other_flow fs d"
  using tally_sum [of 0 0 0 "session_entries fs d"] by (force simp: drop_inflow_def other_flow_def)

lemma expected_eq:
  "et_expectedCash (computeExpected fs float d) =
     float + (if drop_inflow fs d = 0 then drops_on_session fs d else drop_inflow fs d) + other_flow fs d"
  by (rule tally_totals [of fs d]) (simp add: computeExpected_def Let_def)

lemma live_eq: "liveExpectedCash f d = fs_openingFloat f + drop_inflow (fs_id f) d + other_flow (fs_id f) d"
  by (rule tally_totals [of "fs_id f" d]) (simp add: liveExpectedCash_def)

lemma session_expected_eq:
  "sessionExpected f d = fs_openingFloat f +
     (if drop_inflow (fs_id f) d = 0 then drops_on_session (fs_id f) d else drop_inflow (fs_id f) d) + other_flow (fs_id f) d"
  by (simp add: sessionExpected_def tally_net_sum drop_inflow_def other_flow_def Let_def)

lemma expected_cong:
  "cash_ledger d' = cash_ledger d \<Longrightarrow> cash_drops d' = cash_drops d \<Longrightarrow>
     et_expectedCash (computeExpected fs float d') = et_expectedCash (computeExpected fs float d)"
  by (simp add: expected_eq drop_inflow_def other_flow_def session_entries_def drops_on_session_def)

section \<open>What the commands do\<close>

lemma counted_session_id [simp]: "fs_id (counted_session v now f) = fs_id f" "fs_shiftSessionId (counted_session v now f) = fs_shiftSessionId f"
  "fs_openingFloat (counted_session v now f) = fs_openingFloat f"
  by (simp_all add: counted_session_def)

lemma reconciled_session_id [simp]: "fs_id (reconciled_session now f) = fs_id f" "fs_shiftSessionId (reconciled_session now f) = fs_shiftSessionId f"
  by (simp_all add: reconciled_session_def)

lemma recounted_id [simp]: "rn_id (recounted x y z now r) = rn_id r" "rn_financialSession (recounted x y z now r) = rn_financialSession r"
  by (simp_all add: recounted_def)

lemma reviewed_id [simp]: "rn_id (reviewed c s z now r) = rn_id r" "rn_financialSession (reviewed c s z now r) = rn_financialSession r"
  by (simp_all add: reviewed_def)

lemma submitTx_effect:
  assumes "submitTx e c k body f already expected counted comment d = Inr (res, d')"
    and "already = row_by rn_financialSession (fs_id f) (reconciliations d)"
  obtains r where "r \<in> set (reconciliations d')" and "rn_financialSession r = fs_id f" and "rn_expected r = dp2 expected"
    and "rn_counted r = dp2 counted" and "rn_variance r = dp2 (counted - expected)" and "rn_comment r = comment"
    and "rn_status r = ''SUBMITTED''" and "rn_reviewedBy r = None" and "res = Res_Reconciliation (toReconciliationDto r)"
    and "financial_sessions d' = update_id fs_id (fs_id f) (counted_session (counted - expected) (env_now e)) (financial_sessions d)"
    and "cash_ledger d' = cash_ledger d" and "cash_drops d' = cash_drops d" and "db_ok d'"
proof (cases already)
  case None
  let ?r = "new_reconciliation c f expected counted comment (env_now e) (next_id d)"
  from assms(1) None have "d' = storeIdempotent (env_hash e) (next_id d) k body (Res_Reconciliation (toReconciliationDto ?r))
     (d\<lparr>reconciliations := reconciliations d @ [?r], next_id := next_id d + 1,
        financial_sessions := update_id fs_id (fs_id f) (counted_session (counted - expected) (env_now e)) (financial_sessions d)\<rparr>)"
    and "res = Res_Reconciliation (toReconciliationDto ?r)" and ok: "db_ok d'"
    by (auto simp: submitTx_def Let_def inversion new_reconciliation_def)
  from this(1,2) show thesis by (intro that [OF _ _ _ _ _ _ _ _ _ _ _ _ ok, of ?r]) (simp_all add: new_reconciliation_def)
next
  case (Some x)
  let ?r = "recounted expected counted comment (env_now e) x"
  from Some assms(2) have x: "x \<in> set (reconciliations d)" "rn_financialSession x = fs_id f" by (auto dest!: sym [of _ "row_by _ _ _"] row_by_SomeD)
  from assms(1) Some have "d' = storeIdempotent (env_hash e) (rn_id x) k body (Res_Reconciliation (toReconciliationDto ?r))
     (d\<lparr>reconciliations := update_id rn_id (rn_id x) (recounted expected counted comment (env_now e)) (reconciliations d),
        financial_sessions := update_id fs_id (fs_id f) (counted_session (counted - expected) (env_now e)) (financial_sessions d)\<rparr>)"
    and "res = Res_Reconciliation (toReconciliationDto ?r)" and ok: "db_ok d'"
    by (auto simp: submitTx_def Let_def inversion)
  moreover from x have "?r \<in> set (update_id rn_id (rn_id x) (recounted expected counted comment (env_now e)) (reconciliations d))"
    by (force simp: update_id_def update_many_def)
  ultimately show thesis using x by (intro that [OF _ _ _ _ _ _ _ _ _ _ _ _ ok, of ?r]) (simp_all add: recounted_def)
qed

lemma submitBody_effect:
  assumes "submitBody e c k fid countedText comment d = Inr (res, d')"
  obtains f expected counted where "find (\<lambda>f. fs_id f = fid \<and> fs_branchId f = branch_of c \<and> fs_cashier f = staff_of c) (financial_sessions d) = Some f"
    and "fs_status f \<in> set [F_OPEN, F_RECONCILIATION_PENDING]"
    and "expected = et_expectedCash (computeExpected (fs_id f) (fs_openingFloat f) d)" and "counted = env_decimal e countedText"
    and "0 \<le> counted" and "counted \<noteq> expected \<Longrightarrow> trim_or_null comment \<noteq> None"
    and "\<And>r. row_by rn_financialSession (fs_id f) (reconciliations d) = Some r \<Longrightarrow> rn_expected r \<noteq> expected"
    and "submitTx e c k (Req_SubmitReconciliation fid countedText comment) f
       (row_by rn_financialSession (fs_id f) (reconciliations d)) expected counted (trim_or_null comment) d = Inr (res, d')"
proof (cases "find (\<lambda>f. fs_id f = fid \<and> fs_branchId f = branch_of c \<and> fs_cashier f = staff_of c) (financial_sessions d)")
  case None
  with assms show thesis by (simp add: submitBody_def)
next
  case (Some f)
  show thesis
  proof (cases "row_by rn_financialSession (fs_id f) (reconciliations d)")
    case None
    with Some assms show thesis
      by (intro that [OF Some _ refl refl]) (auto simp: submitBody_def Let_def inversion not_less)
  next
    case (Some r)
    with \<open>find _ _ = Some f\<close> assms show thesis
      by (intro that [OF \<open>find _ _ = Some f\<close> _ refl refl]) (auto simp: submitBody_def Let_def inversion not_less split: if_splits)
  qed
qed

text \<open>A drawer that is not open takes no drop.\<close>

lemma closed_drawer_takes_no_drop:
  assumes "f \<in> set (financial_sessions d)" and "fs_shiftSessionId f = shift_of c" and "fs_status f \<noteq> F_OPEN"
    and "primary_key fs_shiftSessionId (financial_sessions d)"
  shows "ensureCashierFinancialSession c now d = Inl (Unprocessable ''CASHIER_DRAWER_CLOSED'')"
proof -
  have "row_by fs_shiftSessionId (shift_of c) (financial_sessions d) = Some f"
    using row_by_distinct [of fs_shiftSessionId, OF _ assms(1)] assms(2,4) by (simp add: keyed_def)
  then show ?thesis using assms(3) by (simp add: ensureCashierFinancialSession_def row_by_def)
qed

lemma receiveBody_needs_drawer:
  "ensureCashierFinancialSession c (env_now e) d = Inl x \<Longrightarrow> \<not> is_ok (receiveBody e c k did t v d)"
  by (auto simp: receiveBody_def Let_def is_ok_iff inversion split: option.splits)

section \<open>Properties\<close>

definition drawer_74 :: financial_session where
  "drawer_74 = new_drawer cashier 0 955000 74"

text \<open>The cashier has counted the drop of 200 into the drawer.\<close>

definition drawer_db :: db where
  "drawer_db = pouch_db\<lparr>cash_drops := [received_row cashier 200 74 960000 drop_72],
     cash_ledger := receive_entries cashier drop_72 200 74 75, financial_sessions := [drawer_74]\<rparr>"

text \<open>
  C31: the three computations of what a drawer should hold agree. Daily close and reconciliation
  compute the same amount for every drawer; the live figure of the shift screen is the same amount
  unless the ledger shows no drop at all, when it is short of exactly the received drops.
\<close>

theorem expected_cash_agrees:
  "sessionExpected f d = et_expectedCash (computeExpected (fs_id f) (fs_openingFloat f) d) \<and>
   liveExpectedCash f d = sessionExpected f d -
     (if drop_inflow (fs_id f) d = 0 then drops_on_session (fs_id f) d else 0) \<and>
   et_expectedCash (computeExpected (fs_id f) (fs_openingFloat f) d) =
     fs_openingFloat f + et_cashDropsReceived (computeExpected (fs_id f) (fs_openingFloat f) d) +
     et_otherInflows (computeExpected (fs_id f) (fs_openingFloat f) d) -
     et_otherOutflows (computeExpected (fs_id f) (fs_openingFloat f) d)"
proof (intro conjI)
  show "sessionExpected f d = et_expectedCash (computeExpected (fs_id f) (fs_openingFloat f) d)"
    by (simp add: session_expected_eq expected_eq)
  show "liveExpectedCash f d = sessionExpected f d -
     (if drop_inflow (fs_id f) d = 0 then drops_on_session (fs_id f) d else 0)"
    by (simp add: session_expected_eq live_eq)
  show "et_expectedCash (computeExpected (fs_id f) (fs_openingFloat f) d) =
     fs_openingFloat f + et_cashDropsReceived (computeExpected (fs_id f) (fs_openingFloat f) d) +
     et_otherInflows (computeExpected (fs_id f) (fs_openingFloat f) d) -
     et_otherOutflows (computeExpected (fs_id f) (fs_openingFloat f) d)"
    by (simp add: computeExpected_def Let_def split: prod.split)
qed

text \<open>
  A submitted count is recorded once, with the difference to what the ledger says the drawer
  holds; a difference needs an explanation. The drawer belongs to the cashier and was open or
  pending; it is RECONCILED and closed exactly when there is no difference. As long as no more
  cash moves, the same drawer cannot be submitted again by anyone, and a drawer that was closed
  takes no further drop.
\<close>

theorem submit_records_the_variance:
  assumes ok: "db_ok d" and run: "submitReconciliation e c fid countedText comment key d = Inr (res, d')"
    and fresh: "reconciliations d' \<noteq> reconciliations d"
    and cents: "\<forall>f \<in> set (financial_sessions d). cents (et_expectedCash (computeExpected (fs_id f) (fs_openingFloat f) d))"
  shows "\<exists>f r. let expected = et_expectedCash (computeExpected fid (fs_openingFloat f) d); counted = env_decimal e countedText in
     f \<in> set (financial_sessions d) \<and> fs_id f = fid \<and> fs_cashier f = staff_of c \<and> fs_status f \<in> {F_OPEN, F_RECONCILIATION_PENDING} \<and>
     row_by rn_financialSession fid (reconciliations d') = Some r \<and> res = Res_Reconciliation (toReconciliationDto r) \<and>
     rn_expected r = expected \<and> rn_counted r = dp2 counted \<and> rn_variance r = dp2 (counted - expected) \<and>
     rn_status r = ''SUBMITTED'' \<and> (counted = expected \<or> rn_comment r \<noteq> None) \<and>
     row_by fs_id fid (financial_sessions d') = Some (counted_session (counted - expected) (env_now e) f) \<and>
     (\<forall>e' c' k' t m. \<not> is_ok (submitBody e' c' k' fid t m d')) \<and>
     (counted = expected \<longrightarrow> (\<forall>e' c' k' did t v. shift_of c' = fs_shiftSessionId f \<longrightarrow> \<not> is_ok (receiveBody e' c' k' did t v d')))"
proof -
  from run fresh obtain k where body: "submitBody e c k fid countedText comment d = Inr (res, d')"
    by (auto simp: submitReconciliation_def Let_def inversion dest!: guarded_fresh)
  show ?thesis
  proof (rule submitBody_effect [OF body])
    fix f expected counted
    assume fd: "find (\<lambda>f. fs_id f = fid \<and> fs_branchId f = branch_of c \<and> fs_cashier f = staff_of c) (financial_sessions d) = Some f"
      and st: "fs_status f \<in> set [F_OPEN, F_RECONCILIATION_PENDING]"
      and exp: "expected = et_expectedCash (computeExpected (fs_id f) (fs_openingFloat f) d)" and cnt: "counted = env_decimal e countedText"
      and why: "counted \<noteq> expected \<Longrightarrow> trim_or_null comment \<noteq> None"
      and tx: "submitTx e c k (Req_SubmitReconciliation fid countedText comment) f
        (row_by rn_financialSession (fs_id f) (reconciliations d)) expected counted (trim_or_null comment) d = Inr (res, d')"
    from find_Some_in [OF fd] have f: "f \<in> set (financial_sessions d)" "fs_id f = fid" "fs_cashier f = staff_of c" by simp_all
    have ce: "dp2 expected = expected" using cents f(1) exp by (simp add: round_scaled)
    show ?thesis
    proof (rule submitTx_effect [OF tx refl], goal_cases)
      case (1 r)
      note r = 1
      let ?f' = "counted_session (counted - expected) (env_now e) f"
      have row: "row_by rn_financialSession fid (reconciliations d') = Some r"
        using row_by_distinct [of rn_financialSession, OF _ r(1)] db_okD(25) [OF r(13)] r(2) f(2) by (simp add: keyed_def)
      have rowf: "row_by fs_id fid (financial_sessions d) = Some f"
        using find_row_by [OF fd] db_okD(24) [OF ok] by (simp add: keyed_def)
      have frow: "row_by fs_id fid (financial_sessions d') = Some ?f'"
        unfolding r(10) by (simp add: row_by_update_id rowf f(2))
      then have mem: "?f' \<in> set (financial_sessions d')" by (auto dest: row_by_SomeD)
      have again: "\<not> is_ok (submitBody e' c' k' fid t m d')" for e' c' k' t m
      proof
        assume "is_ok (submitBody e' c' k' fid t m d')"
        then obtain res2 d2 where "submitBody e' c' k' fid t m d' = Inr (res2, d2)" by (auto simp: is_ok_iff)
        then show False
        proof (rule submitBody_effect)
          fix g expected'
          assume gd: "find (\<lambda>f. fs_id f = fid \<and> fs_branchId f = branch_of c' \<and> fs_cashier f = staff_of c') (financial_sessions d') = Some g"
            and ex: "expected' = et_expectedCash (computeExpected (fs_id g) (fs_openingFloat g) d')"
            and ne: "\<And>r. row_by rn_financialSession (fs_id g) (reconciliations d') = Some r \<Longrightarrow> rn_expected r \<noteq> expected'"
          have g: "g = ?f'" using find_row_by [OF gd] db_okD(24) [OF r(13)] frow by (simp add: keyed_def)
          have "expected' = expected" using ex exp g f(2) expected_cong [OF r(11,12)] by simp
          with ne [of r] g f(2) row r(3) ce show False by simp
        qed
      qed
      have closed: "\<not> is_ok (receiveBody e' c' k' did t v d')" if "counted = expected" "shift_of c' = fs_shiftSessionId f" for e' c' k' did t v
      proof (rule receiveBody_needs_drawer)
        from that have "fs_status ?f' \<noteq> F_OPEN" "fs_shiftSessionId ?f' = shift_of c'" by (simp_all add: counted_session_def)
        with closed_drawer_takes_no_drop [OF mem] db_okD(23) [OF r(13)]
        show "ensureCashierFinancialSession c' (env_now e') d' = Inl (Unprocessable ''CASHIER_DRAWER_CLOSED'')" by blast
      qed
      have "counted = expected \<or> rn_comment r \<noteq> None" using why r(6) by auto
      then show ?case
        using f st row r(3,4,5,7,9) frow again closed exp cnt f(2) ce by (intro exI [of _ f] exI [of _ r]) (simp add: Let_def)
    qed
  qed
qed

theorem submit_records_the_variance_witness:
  "\<exists>res d' r. submitReconciliation later cashier 74 ''195'' (Some ''short'') (Some ''k8'') drawer_db = Inr (res, d') \<and>
     row_by rn_financialSession 74 (reconciliations d') = Some r \<and> rn_variance r = - 5"
proof -
  have "bindR (submitReconciliation later cashier 74 ''195'' (Some ''short'') (Some ''k8'') drawer_db) (\<lambda>(res, d').
     Inr (length (reconciliations d'))) = Inr 1" by code_simp
  then obtain res d' where run: "submitReconciliation later cashier 74 ''195'' (Some ''short'') (Some ''k8'') drawer_db = Inr (res, d')"
    and len: "length (reconciliations d') = 1" by (elim run_pairE) simp
  have ok: "db_ok drawer_db" by code_simp
  have nil: "reconciliations drawer_db = []" by code_simp
  with len have fresh: "reconciliations d' \<noteq> reconciliations drawer_db" by auto
  have ex: "et_expectedCash (computeExpected 74 0 drawer_db) = 200" by code_simp
  have cents: "\<forall>f \<in> set (financial_sessions drawer_db). cents (et_expectedCash (computeExpected (fs_id f) (fs_openingFloat f) drawer_db))"
    by code_simp
  have fl: "financial_sessions drawer_db = [drawer_74]" "fs_openingFloat drawer_74 = 0" by code_simp+
  have val: "env_decimal later ''195'' = 195" and r5: "dp2 (195 - 200) = - 5" by code_simp+
  from submit_records_the_variance [OF ok run fresh cents] obtain f r where
    "f \<in> set (financial_sessions drawer_db)" "row_by rn_financialSession 74 (reconciliations d') = Some r"
    "rn_variance r = dp2 (195 - et_expectedCash (computeExpected 74 (fs_openingFloat f) drawer_db))"
    unfolding Let_def val by auto
  moreover from this(1) fl have "fs_openingFloat f = 0" by simp
  ultimately show ?thesis using run r5 by (auto simp: ex)
qed

end
