(* ===== verification/Shifts.thy ===== *)
theory Shifts
  imports Drawer
begin

text \<open>
  \<open>src/shifts/shifts.service.ts\<close>: clocking in within the assigned window, clocking out (which
  closes a cashier's drawer), handing a drawer or a waiter's tables and cash to a colleague, and
  the manager's forced versions. The time zone of a branch is the default one, Addis Ababa;
  \<open>findFirst\<close> without an order is the first row of the table. The names in the messages and in
  the audit trail's metadata are left out, as are the weekly plan and the lists of candidates,
  which only feed the screen.
\<close>

section \<open>The clock-in window\<close>

definition day_order :: "string list" where
  "day_order = [''Mon'', ''Tue'', ''Wed'', ''Thu'', ''Fri'', ''Sat'', ''Sun'']"

text \<open>Day 0, the first of January 1970, was a Thursday.\<close>

definition calendarDayCode :: "time \<Rightarrow> string" where
  "calendarDayCode now = day_order ! nat ((businessDateUtc now + 3) mod 7)"

definition local_time :: "date \<Rightarrow> nat \<Rightarrow> time" where
  "local_time day minutes = day * ms_per_day + int minutes * 60000 - addis_offset"

definition computeShiftWindowForDay :: "nat \<Rightarrow> nat \<Rightarrow> time \<Rightarrow> time \<times> time" where
  "computeShiftWindowForDay s t now =
     (let day = businessDateUtc now; startAt = local_time day s; endAt = local_time day t
      in (startAt, if endAt \<le> startAt then local_time (day + 1) t else endAt))"

record clock_in_window =
  cw_assignment :: "shift_assignment option"
  cw_start :: "time option"
  cw_end :: "time option"
  cw_grace :: int
  cw_name :: string

definition emptyClockInWindow :: clock_in_window where
  "emptyClockInWindow = \<lparr>cw_assignment = None, cw_start = None, cw_end = None, cw_grace = 15, cw_name = ''Shift''\<rparr>"

definition definition_name :: "id option \<Rightarrow> db \<Rightarrow> string option" where
  "definition_name i d = (case i of None \<Rightarrow> None | Some j \<Rightarrow> map_option df_name (row_by df_id j (shift_definitions d)))"

definition first_by :: "('r \<Rightarrow> int) \<Rightarrow> ('r \<Rightarrow> bool) \<Rightarrow> 'r list \<Rightarrow> 'r option" where
  "first_by key P rs = (case sort_key key (filter P rs) of [] \<Rightarrow> None | r # _ \<Rightarrow> Some r)"

definition window_of :: "shift_assignment \<Rightarrow> db \<Rightarrow> clock_in_window" where
  "window_of a d = \<lparr>cw_assignment = Some a, cw_start = Some (sa_start a), cw_end = Some (sa_end a),
     cw_grace = sa_graceMinutes a,
     cw_name = (case definition_name (sa_definition a) d of Some n \<Rightarrow> n | None \<Rightarrow> ''Shift'')\<rparr>"

definition resolveClockInWindow :: "id \<Rightarrow> id \<Rightarrow> time \<Rightarrow> id option \<Rightarrow> db \<Rightarrow> clock_in_window" where
  "resolveClockInWindow m b now aid d =
     (case aid of
        Some i \<Rightarrow> (case find (\<lambda>a. sa_id a = i \<and> sa_staff a = m \<and> sa_branchId a = b) (shift_assignments d) of
            None \<Rightarrow> emptyClockInWindow | Some a \<Rightarrow> window_of a d)
      | None \<Rightarrow>
          (case (case find (\<lambda>p. dy_staff p = m \<and> dy_dayCode p = calendarDayCode now) (staff_day_shifts d) of
                   None \<Rightarrow> None | Some p \<Rightarrow> row_by df_id (dy_definition p) (shift_definitions d)) of
             Some f \<Rightarrow>
               let (startAt, endAt) = computeShiftWindowForDay (df_start f) (df_end f) now
               in \<lparr>cw_assignment = first_by sa_start (\<lambda>a. sa_staff a = m \<and> sa_branchId a = b \<and> sa_status a = ''SCHEDULED'' \<and>
                       sa_definition a = Some (df_id f) \<and> startAt - 12 * 3600000 \<le> sa_start a \<and> sa_start a \<le> endAt + 12 * 3600000)
                     (shift_assignments d),
                   cw_start = Some startAt, cw_end = Some endAt, cw_grace = df_graceMinutes f, cw_name = df_name f\<rparr>
           | None \<Rightarrow>
               (case first_by sa_start (\<lambda>a. sa_staff a = m \<and> sa_branchId a = b \<and> sa_status a = ''SCHEDULED'' \<and>
                   sa_start a \<le> now + 4 * 3600000 \<and> now - 4 * 3600000 \<le> sa_end a) (shift_assignments d) of
                  None \<Rightarrow> emptyClockInWindow | Some a \<Rightarrow> window_of a d)))"

definition assertWithinClockInWindow :: "clock_in_window \<Rightarrow> time \<Rightarrow> (time \<times> time) result" where
  "assertWithinClockInWindow w now =
     (case (cw_start w, cw_end w) of
        (Some s, Some t) \<Rightarrow>
          let grace = max 0 (cw_grace w) * 60000
          in if now < s - grace \<or> t + grace < now then Inl (Unprocessable ''SHIFT_OUTSIDE_WINDOW'') else Inr (s, t)
      | _ \<Rightarrow> Inl (Unprocessable ''NO_SHIFT_TODAY''))"

section \<open>The current shift\<close>

record shift_view =
  sv_id :: id
  sv_state :: string
  sv_version :: nat
  sv_clockInAt :: time
  sv_clockOutAt :: "time option"
  sv_scheduledStart :: "time option"
  sv_scheduledEnd :: "time option"
  sv_definitionName :: "string option"
  sv_roleCode :: "string option"
  sv_branchId :: id
  sv_assignmentId :: "id option"

definition assignment_of :: "id option \<Rightarrow> db \<Rightarrow> shift_assignment option" where
  "assignment_of i d = (case i of None \<Rightarrow> None | Some j \<Rightarrow> row_by sa_id j (shift_assignments d))"

definition toShiftDto :: "db \<Rightarrow> shift_session \<Rightarrow> shift_view" where
  "toShiftDto d s =
     (let a = assignment_of (sh_assignment s) d
      in \<lparr>sv_id = sh_id s, sv_state = sh_state s, sv_version = sh_version s, sv_clockInAt = sh_clockInAt s,
          sv_clockOutAt = sh_clockOutAt s, sv_scheduledStart = sh_scheduledStart s, sv_scheduledEnd = sh_scheduledEnd s,
          sv_definitionName = (case a of None \<Rightarrow> None | Some x \<Rightarrow> definition_name (sa_definition x) d),
          sv_roleCode = (case sh_roleCode s of Some r \<Rightarrow> Some r
            | None \<Rightarrow> (case a of None \<Rightarrow> None | Some x \<Rightarrow> sa_roleCode x)),
          sv_branchId = sh_branchId s, sv_assignmentId = sh_assignment s\<rparr>)"

record assignment_view =
  av_id :: id
  av_definitionName :: string
  av_start :: time
  av_end :: time
  av_roleCode :: "string option"

definition toAssignmentDto :: "db \<Rightarrow> shift_assignment \<Rightarrow> assignment_view" where
  "toAssignmentDto d a = \<lparr>av_id = sa_id a,
     av_definitionName = (case definition_name (sa_definition a) d of Some n \<Rightarrow> n | None \<Rightarrow> ''Shift''),
     av_start = sa_start a, av_end = sa_end a, av_roleCode = sa_roleCode a\<rparr>"

definition resolveAssignment :: "id \<Rightarrow> id \<Rightarrow> time \<Rightarrow> db \<Rightarrow> shift_assignment option" where
  "resolveAssignment m b now d =
     (let mine = \<lambda>a. sa_staff a = m \<and> sa_branchId a = b \<and> sa_status a = ''SCHEDULED''
      in case find (\<lambda>a. mine a \<and> sa_start a \<le> now \<and> now \<le> sa_end a) (shift_assignments d) of
           Some a \<Rightarrow> Some a
         | None \<Rightarrow> (case first_by sa_start (\<lambda>a. mine a \<and> now \<le> sa_start a) (shift_assignments d) of
             Some a \<Rightarrow> Some a
           | None \<Rightarrow> first_by (\<lambda>a. - sa_start a) mine (shift_assignments d)))"

definition nextAssignment :: "id \<Rightarrow> id \<Rightarrow> time \<Rightarrow> db \<Rightarrow> assignment_view option" where
  "nextAssignment m b now d = map_option (toAssignmentDto d) (resolveAssignment m b now d)"

definition listUpcomingAssignments :: "id \<Rightarrow> id \<Rightarrow> time \<Rightarrow> db \<Rightarrow> assignment_view list" where
  "listUpcomingAssignments m b now d = map (toAssignmentDto d) (take 21 (sort_key sa_start (filter
     (\<lambda>a. sa_staff a = m \<and> sa_branchId a = b \<and> sa_status a = ''SCHEDULED'' \<and> now \<le> sa_end a \<and>
        sa_start a \<le> now + 14 * ms_per_day) (shift_assignments d))))"

definition shift_open :: "shift_session \<Rightarrow> bool" where
  "shift_open s \<longleftrightarrow> sh_state s = ''OPEN'' \<and> sh_clockOutAt s = None"

definition open_shift :: "id \<Rightarrow> id \<Rightarrow> db \<Rightarrow> shift_session option" where
  "open_shift m b d = find (\<lambda>s. sh_staff s = m \<and> sh_branchId s = b \<and> shift_open s) (shift_sessions d)"

record current_shift =
  ct_clockedIn :: bool
  ct_session :: "shift_view option"
  ct_upcoming :: "assignment_view option"
  ct_assignments :: "assignment_view list"

definition getCurrent :: "env \<Rightarrow> auth_ctx \<Rightarrow> db \<Rightarrow> current_shift" where
  "getCurrent e c d =
     (case (ax_staffMembershipId c, ax_branchId c) of
        (Some m, Some b) \<Rightarrow>
          let s = first_by (\<lambda>s. - sh_clockInAt s) (\<lambda>s. sh_staff s = m \<and> sh_branchId s = b \<and> shift_open s) (shift_sessions d)
          in \<lparr>ct_clockedIn = (s \<noteq> None), ct_session = map_option (toShiftDto d) s,
              ct_upcoming = nextAssignment m b (env_now e) d,
              ct_assignments = listUpcomingAssignments m b (env_now e) d\<rparr>
      | _ \<Rightarrow> \<lparr>ct_clockedIn = False, ct_session = None, ct_upcoming = None, ct_assignments = []\<rparr>)"

section \<open>Clocking in\<close>

definition requireMembership :: "auth_ctx \<Rightarrow> unit result" where
  "requireMembership c = (if ax_staffMembershipId c = None \<or> ax_tenantId c = None \<or> ax_branchId c = None
     then Inl (Forbidden ''No restaurant membership for this account.'') else Inr ())"

definition drawer_of_shift :: "id \<Rightarrow> db \<Rightarrow> financial_session option" where
  "drawer_of_shift sh d = row_by fs_shiftSessionId sh (financial_sessions d)"

text \<open>Somebody else is on shift at this branch as a cashier, or with an open drawer.\<close>

definition other_cashier :: "id \<Rightarrow> id \<Rightarrow> db \<Rightarrow> shift_session \<Rightarrow> bool" where
  "other_cashier b m d s \<longleftrightarrow> sh_branchId s = b \<and> shift_open s \<and> sh_staff s \<noteq> m \<and>
     (sh_roleCode s = Some ''CASHIER'' \<or>
      (case drawer_of_shift (sh_id s) d of Some f \<Rightarrow> fs_status f = F_OPEN | None \<Rightarrow> False))"

definition clock_in_role :: "auth_ctx \<Rightarrow> string option \<Rightarrow> clock_in_window \<Rightarrow> db \<Rightarrow> string option" where
  "clock_in_role c role w d =
     (case role of Some r \<Rightarrow> Some r
      | None \<Rightarrow> (case (case cw_assignment w of None \<Rightarrow> None | Some a \<Rightarrow> sa_roleCode a) of Some r \<Rightarrow> Some r
         | None \<Rightarrow> (case row_by mb_id (staff_of c) (memberships d) of None \<Rightarrow> None
            | Some mb \<Rightarrow> (case mb_roles mb of [] \<Rightarrow> None | r # _ \<Rightarrow> Some r))))"

text \<open>\<open>Math.max(0, Math.round(ms / 60000))\<close>.\<close>

definition late_by :: "time \<Rightarrow> time \<Rightarrow> nat" where
  "late_by startAt now = nat (max 0 ((now - startAt + 30000) div 60000))"

definition clocked_in ::
  "auth_ctx \<Rightarrow> string option \<Rightarrow> clock_in_window \<Rightarrow> time \<Rightarrow> time \<Rightarrow> time \<Rightarrow> id \<Rightarrow> shift_session" where
  "clocked_in c role w s t now i = \<lparr>sh_id = i, sh_branchId = branch_of c, sh_staff = staff_of c,
     sh_roleCode = role, sh_assignment = map_option sa_id (cw_assignment w),
     sh_scheduledStart = Some s, sh_scheduledEnd = Some t, sh_graceMinutes = cw_grace w,
     sh_clockInAt = now, sh_clockOutAt = None, sh_lateByMinutes = late_by s now, sh_state = ''OPEN'',
     sh_businessDate = businessDateUtc now, sh_version = 1\<rparr>"

text \<open>
  The drawer is opened after the shift, in a transaction of its own: when it is refused, the shift
  stays. A unique violation means the drawer is already there and is ignored.
\<close>

definition ensureCashierDrawer :: "auth_ctx \<Rightarrow> id \<Rightarrow> date \<Rightarrow> time \<Rightarrow> db \<Rightarrow> db result" where
  "ensureCashierDrawer c sh day now d =
     (if drawer_of_shift sh d \<noteq> None then Inr d
      else if list_ex (\<lambda>f. fs_branchId f = branch_of c \<and> fs_status f = F_OPEN \<and> fs_cashier f \<noteq> staff_of c) (financial_sessions d)
      then Inl (Conflict ''CASHIER_DRAWER_ALREADY_OPEN'')
      else (case commit (d\<lparr>financial_sessions := financial_sessions d @
                [(new_drawer c day now (next_id d))\<lparr>fs_shiftSessionId := sh\<rparr>], next_id := next_id d + 1\<rparr>) of
          Inr d1 \<Rightarrow> Inr d1
        | Inl (DbError n) \<Rightarrow>
            if n \<in> set [''cashier_financial_sessions_shift_session_id_key'', ''uq_cashier_financial_sessions__one_open'']
            then Inr d else Inl (DbError n)
        | Inl x \<Rightarrow> Inl x))"

definition clockInBody ::
  "env \<Rightarrow> auth_ctx \<Rightarrow> id option \<Rightarrow> string option \<Rightarrow> db \<Rightarrow> shift_session result" where
  "clockInBody e c aid role d =
     (let now = env_now e; w = resolveClockInWindow (staff_of c) (branch_of c) now aid d
      in if aid \<noteq> None \<and> cw_assignment w = None then Inl (NotFound ''Shift assignment not found.'')
         else bindR (assertWithinClockInWindow w now) (\<lambda>(s, t).
           let r = clock_in_role c role w d
           in if (ax_roleCode c = ''CASHIER'' \<or> r = Some ''CASHIER'') \<and>
                 list_ex (other_cashier (branch_of c) (staff_of c) d) (shift_sessions d)
              then Inl (Conflict ''CASHIER_DRAWER_ALREADY_OPEN'')
              else Inr (clocked_in c r w s t now (next_id d))))"

definition clockIn ::
  "env \<Rightarrow> auth_ctx \<Rightarrow> id option \<Rightarrow> string option \<Rightarrow> db \<Rightarrow> current_shift result \<times> db" where
  "clockIn e c aid role d =
     (case requireMembership c of
        Inl x \<Rightarrow> (Inl x, d)
      | Inr _ \<Rightarrow>
          if ct_clockedIn (getCurrent e c d) then (Inr (getCurrent e c d), d)
          else (case clockInBody e c aid role d of
              Inl x \<Rightarrow> (Inl x, d)
            | Inr s \<Rightarrow>
                (case commit (d\<lparr>shift_sessions := shift_sessions d @ [s], next_id := next_id d + 1\<rparr>) of
                   Inl x \<Rightarrow> (if x = DbError ''uq_shift_sessions__one_open_per_staff_branch''
                     then (Inr (getCurrent e c d), d) else (Inl x, d))
                 | Inr d1 \<Rightarrow>
                     let opened = getCurrent e c d1
                     in (case ct_session opened of
                           None \<Rightarrow> (Inr opened, d1)
                         | Some v \<Rightarrow>
                             if ax_roleCode c = ''CASHIER''
                             then (case ensureCashierDrawer c (sv_id v) (businessDateUtc (env_now e)) (env_now e) d1 of
                                 Inl x \<Rightarrow> (Inl x, d1) | Inr d2 \<Rightarrow> (Inr opened, d2))
                             else (Inr opened, d1)))))"

section \<open>Clocking out\<close>

definition close_drawer :: "id \<Rightarrow> financial_status \<Rightarrow> time \<Rightarrow> db \<Rightarrow> db" where
  "close_drawer i st now d = d\<lparr>financial_sessions :=
     update_id fs_id i (\<lambda>f. f\<lparr>fs_status := st, fs_closedAt := Some now\<rparr>) (financial_sessions d)\<rparr>"

definition received_drops :: "id \<Rightarrow> db \<Rightarrow> nat" where
  "received_drops fs d = count_where (\<lambda>x. cd_financialSession x = Some fs \<and> cd_status x \<in> set [D_RECEIVED, D_RESOLVED]) (cash_drops d)"

definition matches_live :: "financial_session \<Rightarrow> reconciliation \<Rightarrow> db \<Rightarrow> bool" where
  "matches_live f r d \<longleftrightarrow> liveExpectedCash f d = rn_expected r"

definition closeCashierDrawerIfNeeded :: "time \<Rightarrow> id \<Rightarrow> db \<Rightarrow> db result" where
  "closeCashierDrawerIfNeeded now sh d =
     (case drawer_of_shift sh d of
        None \<Rightarrow> Inr d
      | Some f \<Rightarrow>
          let recon = row_by rn_financialSession (fs_id f) (reconciliations d);
              settle = (\<lambda>r. if \<not> matches_live f r d then Inl (Conflict ''drawerStale'')
                else commit (close_drawer (fs_id f) F_RECONCILED now d))
          in if fs_status f \<in> set [F_RECONCILED, F_CLOSED]
             then (if fs_closedAt f = None then commit (close_drawer (fs_id f) (fs_status f) now d) else Inr d)
             else (case recon of
                 Some r \<Rightarrow>
                   if rn_status r = ''APPROVED'' then settle r
                   else if fs_status f = F_RECONCILIATION_PENDING then Inl (Conflict ''drawerPending'')
                   else if rn_status r = ''SUBMITTED'' \<and> rn_variance r = 0 then settle r
                   else if 0 < fs_openingFloat f \<or> 0 < received_drops (fs_id f) d then Inl (Conflict ''drawerOpen'')
                   else commit (close_drawer (fs_id f) F_CLOSED now d)
               | None \<Rightarrow>
                   if fs_status f = F_RECONCILIATION_PENDING then Inl (Conflict ''drawerPending'')
                   else if 0 < fs_openingFloat f \<or> 0 < received_drops (fs_id f) d then Inl (Conflict ''drawerOpen'')
                   else commit (close_drawer (fs_id f) F_CLOSED now d)))"

definition closed_shift :: "time \<Rightarrow> shift_session \<Rightarrow> shift_session" where
  "closed_shift now s = s\<lparr>sh_clockOutAt := Some now, sh_state := ''CLOSED'', sh_version := sh_version s + 1\<rparr>"

definition close_shift :: "id \<Rightarrow> time \<Rightarrow> db \<Rightarrow> db" where
  "close_shift i now d = d\<lparr>shift_sessions := update_id sh_id i (closed_shift now) (shift_sessions d)\<rparr>"

definition tables_of_waiter :: "id \<Rightarrow> db \<Rightarrow> table_session list" where
  "tables_of_waiter m d = filter (\<lambda>t. ts_primaryWaiter t = m \<and> ts_open t) (table_sessions d)"

definition clockOut :: "env \<Rightarrow> auth_ctx \<Rightarrow> id \<Rightarrow> nat \<Rightarrow> db \<Rightarrow> (current_shift \<times> db) result" where
  "clockOut e c sid expected d =
     (case ax_staffMembershipId c of
        None \<Rightarrow> Inl (Forbidden ''No restaurant membership for this account.'')
      | Some m \<Rightarrow>
          (case find (\<lambda>s. sh_id s = sid \<and> sh_staff s = m) (shift_sessions d) of
             None \<Rightarrow> Inl (NotFound ''Shift session not found.'')
           | Some s \<Rightarrow>
               if sh_state s \<noteq> ''OPEN'' \<or> sh_clockOutAt s \<noteq> None then Inl (Unprocessable ''alreadyClosed'')
               else if sh_version s \<noteq> expected then Inl (StaleVersion (sh_version s))
               else if tables_of_waiter m d \<noteq> [] then Inl (Conflict ''openTables'')
               else bindR (closeCashierDrawerIfNeeded (env_now e) (sh_id s) d) (\<lambda>d1.
                    bindR (commit (close_shift (sh_id s) (env_now e) d1)) (\<lambda>d2.
                      Inr (getCurrent e c d2, d2)))))"

section \<open>Handing over to a colleague\<close>

definition branch_member :: "auth_ctx \<Rightarrow> id \<Rightarrow> db \<Rightarrow> membership option" where
  "branch_member c i d = find (\<lambda>m. mb_id m = i \<and> mb_tenantId m = tenant_of c \<and> mb_status m = ''ACTIVE'' \<and>
     branch_of c \<in> set (mb_branches m)) (memberships d)"

text \<open>The colleague is on the branch's staff, has the role, and confirms with the own PIN.\<close>

definition check_incoming :: "env \<Rightarrow> auth_ctx \<Rightarrow> string \<Rightarrow> id \<Rightarrow> string \<Rightarrow> db \<Rightarrow> membership result" where
  "check_incoming e c role i pin d =
     (case branch_member c i d of
        None \<Rightarrow> Inl (NotFound ''Incoming staff member not found in this branch.'')
      | Some m \<Rightarrow>
          if \<not> mb_hasUser m then Inl (NotFound ''Incoming staff member not found in this branch.'')
          else if role \<notin> set (mb_roles m) then Inl (Forbidden ''Incoming staff member must have the role.'')
          else (case mb_passwordHash m of
              None \<Rightarrow> Inl (Forbidden ''Incoming staff member has no PIN or password configured.'')
            | Some h \<Rightarrow>
                if h = [] then Inl (Forbidden ''Incoming staff member has no PIN or password configured.'')
                else if env_pinOk e (trim pin) h then Inr m else Inl (Unauthorized ''Invalid PIN'')))"

definition drawer_entry :: "auth_ctx \<Rightarrow> date \<Rightarrow> id \<Rightarrow> string \<Rightarrow> decimal \<Rightarrow> string \<Rightarrow> id \<Rightarrow> id option \<Rightarrow> ledger_entry" where
  "drawer_entry c day fs typ amount src sid by = \<lparr>le_id = 0, le_branchId = branch_of c, le_businessDate = day,
     le_holderType = CASHIER_SESSION, le_waiterShift = None, le_financialSession = Some fs, le_entryType = typ,
     le_amountDelta = dp2 amount, le_sourceType = src, le_sourceId = sid, le_createdBy = by\<rparr>"

definition waiter_entry :: "auth_ctx \<Rightarrow> date \<Rightarrow> id \<Rightarrow> string \<Rightarrow> decimal \<Rightarrow> string \<Rightarrow> id \<Rightarrow> id option \<Rightarrow> ledger_entry" where
  "waiter_entry c day sh typ amount src sid by = \<lparr>le_id = 0, le_branchId = branch_of c, le_businessDate = day,
     le_holderType = WAITER_SHIFT, le_waiterShift = Some sh, le_financialSession = None, le_entryType = typ,
     le_amountDelta = dp2 amount, le_sourceType = src, le_sourceId = sid, le_createdBy = by\<rparr>"

definition post_entry :: "ledger_entry \<Rightarrow> db \<Rightarrow> db" where
  "post_entry x d = d\<lparr>cash_ledger := cash_ledger d @ [x\<lparr>le_id := next_id d\<rparr>], next_id := next_id d + 1\<rparr>"

definition apply_if :: "bool \<Rightarrow> (db \<Rightarrow> db) \<Rightarrow> db \<Rightarrow> db" where
  "apply_if b f d = (if b then f d else d)"

definition audit :: "string \<Rightarrow> id \<Rightarrow> id option \<Rightarrow> db \<Rightarrow> db" where
  "audit action entity actor d = d\<lparr>audits := audits d @ [\<lparr>ae_action = action, ae_entityId = entity, ae_actorUser = actor\<rparr>]\<rparr>"

record handover_dto =
  hd_expectedVersion :: nat
  hd_counted :: decimal
  hd_float :: decimal
  hd_incoming :: id
  hd_pin :: string
  hd_notes :: "string option"

record handover_res =
  hr_counted :: decimal
  hr_expected :: decimal
  hr_variance :: decimal
  hr_float :: decimal
  hr_safeDrop :: decimal
  hr_at :: time
  hr_status :: string

text \<open>A reconciliation is created, or the existing one is overwritten (its other columns stay).\<close>

definition upsert_reconciliation ::
  "auth_ctx \<Rightarrow> financial_session \<Rightarrow> decimal \<Rightarrow> decimal \<Rightarrow> string \<Rightarrow> string \<Rightarrow> time \<Rightarrow>
     (reconciliation \<Rightarrow> reconciliation) \<Rightarrow> db \<Rightarrow> db" where
  "upsert_reconciliation c f expected counted comment status now extra d =
     (case row_by rn_financialSession (fs_id f) (reconciliations d) of
        Some _ \<Rightarrow> d\<lparr>reconciliations := update_id rn_financialSession (fs_id f)
            (\<lambda>r. extra (r\<lparr>rn_expected := dp2 expected, rn_counted := dp2 counted, rn_variance := dp2 (counted - expected),
               rn_comment := Some comment, rn_status := status\<rparr>)) (reconciliations d)\<rparr>
      | None \<Rightarrow> d\<lparr>reconciliations := reconciliations d @
            [extra ((new_reconciliation c f expected counted (Some comment) now (next_id d))\<lparr>rn_status := status\<rparr>)],
          next_id := next_id d + 1\<rparr>)"

definition incoming_shift :: "auth_ctx \<Rightarrow> membership \<Rightarrow> time \<Rightarrow> id \<Rightarrow> shift_session" where
  "incoming_shift c m now i = \<lparr>sh_id = i, sh_branchId = branch_of c, sh_staff = mb_id m,
     sh_roleCode = (case mb_roles m of [] \<Rightarrow> None | r # _ \<Rightarrow> Some r), sh_assignment = None,
     sh_scheduledStart = None, sh_scheduledEnd = None, sh_graceMinutes = 15, sh_clockInAt = now,
     sh_clockOutAt = None, sh_lateByMinutes = 0, sh_state = ''OPEN'', sh_businessDate = businessDateUtc now,
     sh_version = 1\<rparr>"

definition incoming_drawer :: "auth_ctx \<Rightarrow> membership \<Rightarrow> decimal \<Rightarrow> time \<Rightarrow> id \<Rightarrow> id \<Rightarrow> financial_session" where
  "incoming_drawer c m float now sh i = \<lparr>fs_id = i, fs_branchId = branch_of c, fs_businessDate = businessDateUtc now,
     fs_cashier = mb_id m, fs_shiftSessionId = sh, fs_status = F_OPEN, fs_openingFloat = dp2 float,
     fs_openedAt = now, fs_closedAt = None, fs_version = 1\<rparr>"

definition handover_comment :: "membership \<Rightarrow> string option \<Rightarrow> string" where
  "handover_comment m notes = (case notes of
     Some n \<Rightarrow> if n = [] then ''Shift handover to '' @ mb_userName m else ''Handover to '' @ mb_userName m @ '': '' @ n
   | None \<Rightarrow> ''Shift handover to '' @ mb_userName m)"

definition empty_drawer ::
  "auth_ctx \<Rightarrow> financial_session \<Rightarrow> decimal \<Rightarrow> decimal \<Rightarrow> db \<Rightarrow> db" where
  "empty_drawer c f safe float d =
     apply_if (0 < float) (post_entry (drawer_entry c (fs_businessDate f) (fs_id f) ''HANDOVER_OUT'' (- float)
         ''SHIFT_HANDOVER'' (fs_id f) (ax_staffMembershipId c)))
       (apply_if (0 < safe) (post_entry (drawer_entry c (fs_businessDate f) (fs_id f) ''SAFE_DROP_OUT'' (- safe)
         ''SHIFT_HANDOVER'' (fs_id f) (ax_staffMembershipId c))) d)"

definition open_incoming :: "auth_ctx \<Rightarrow> financial_session \<Rightarrow> membership \<Rightarrow> decimal \<Rightarrow> time \<Rightarrow> db \<Rightarrow> db" where
  "open_incoming c f m float now d =
     (let sh = next_id d; fs = sh + 1
      in apply_if (0 < float) (post_entry (drawer_entry c (businessDateUtc now) fs ''OPENING_FLOAT'' float
             ''SHIFT_HANDOVER'' (fs_id f) (Some (mb_id m))))
           (d\<lparr>shift_sessions := shift_sessions d @ [incoming_shift c m now sh],
              financial_sessions := financial_sessions d @ [incoming_drawer c m float now sh fs],
              next_id := fs + 1\<rparr>))"

definition handoverTx ::
  "env \<Rightarrow> auth_ctx \<Rightarrow> shift_session \<Rightarrow> financial_session \<Rightarrow> membership \<Rightarrow> handover_dto \<Rightarrow> decimal \<Rightarrow> db \<Rightarrow> db" where
  "handoverTx e c s f m x expected d =
     (let now = env_now e; counted = hd_counted x; float = hd_float x; safe = counted - float;
          d1 = upsert_reconciliation c f expected counted (handover_comment m (hd_notes x))
                 (if counted - expected = 0 then ''APPROVED'' else ''SUBMITTED'') now (\<lambda>r. r) d;
          d2 = close_shift (sh_id s) now (close_drawer (fs_id f) F_RECONCILED now (empty_drawer c f safe float d1))
      in audit ''SHIFT_HANDOVER'' (fs_id f) (Some (ax_userId c)) (open_incoming c f m float now d2))"

definition handover :: "env \<Rightarrow> auth_ctx \<Rightarrow> handover_dto \<Rightarrow> db \<Rightarrow> (handover_res \<times> db) result" where
  "handover e c x d =
     bindR (requireMembership c) (\<lambda>_.
       case open_shift (staff_of c) (branch_of c) d of
         None \<Rightarrow> Inl (NotFound ''Active shift session not found.'')
       | Some s \<Rightarrow>
           if sh_version s \<noteq> hd_expectedVersion x then Inl (StaleVersion (sh_version s))
           else (case drawer_of_shift (sh_id s) d of
               None \<Rightarrow> Inl (Unprocessable ''notOpen'')
             | Some f \<Rightarrow>
                 if fs_status f \<noteq> F_OPEN then Inl (Unprocessable ''notOpen'')
                 else bindR (check_incoming e c ''CASHIER'' (hd_incoming x) (hd_pin x) d) (\<lambda>m.
                   if open_shift (mb_id m) (branch_of c) d \<noteq> None
                   then Inl (Conflict ''Incoming cashier is already clocked in on another active shift.'')
                   else if hd_counted x < hd_float x
                   then Inl (Unprocessable ''Opening float cannot exceed total physical cash counted.'')
                   else
                     let expected = liveExpectedCash f d; variance = hd_counted x - expected
                     in bindR (commit (handoverTx e c s f m x expected d)) (\<lambda>d1.
                          Inr (\<lparr>hr_counted = money (hd_counted x), hr_expected = money expected,
                            hr_variance = money variance, hr_float = money (hd_float x),
                            hr_safeDrop = money (hd_counted x - hd_float x), hr_at = env_now e,
                            hr_status = (if variance = 0 then ''COMPLETED'' else ''DISCREPANCY_SUBMITTED'')\<rparr>, d1)))))"

section \<open>Handing over tables and cash\<close>

definition calculateWaiterUndroppedCash :: "id \<Rightarrow> id \<Rightarrow> id \<Rightarrow> db \<Rightarrow> decimal" where
  "calculateWaiterUndroppedCash b m sh d = max (undropped b m sh d) 0"

record waiter_handover_dto =
  wh_expectedVersion :: nat
  wh_cash :: decimal
  wh_incoming :: id
  wh_pin :: string

definition hand_table ::
  "auth_ctx \<Rightarrow> id \<Rightarrow> id \<Rightarrow> time \<Rightarrow> table_session \<times> dining_table option \<Rightarrow> db \<Rightarrow> db" where
  "hand_table c m sh now = (\<lambda>(s, t) d.
     (let d1 = d\<lparr>table_sessions := update_id ts_id (ts_id s)
                  (\<lambda>x. x\<lparr>ts_primaryWaiter := m, ts_primaryShift := sh, ts_version := ts_version x + 1\<rparr>) (table_sessions d),
                table_assignments := update_many (\<lambda>a. ta_tableSessionId a = ts_id s \<and> ta_releasedAt a = None)
                  (\<lambda>a. a\<lparr>ta_releasedAt := Some now\<rparr>) (table_assignments d) @
                  [\<lparr>ta_id = next_id d, ta_tableSessionId = ts_id s, ta_waiter = m, ta_shift = sh,
                    ta_assignedBy = ax_staffMembershipId c, ta_reason = Some ''SHIFT_HANDOVER'', ta_releasedAt = None\<rparr>],
                next_id := next_id d + 1\<rparr>
      in if map_option dt_assignedWaiter t = Some (ax_staffMembershipId c)
         then d1\<lparr>dining_tables := update_id dt_id (ts_tableId s)
                  (\<lambda>x. x\<lparr>dt_assignedWaiter := Some m, dt_version := dt_version x + 1\<rparr>) (dining_tables d1)\<rparr>
         else d1))"

definition hand_tables :: "auth_ctx \<Rightarrow> id \<Rightarrow> id \<Rightarrow> time \<Rightarrow> db \<Rightarrow> db" where
  "hand_tables c m sh now d = fold (hand_table c m sh now)
     (map (\<lambda>s. (s, row_by dt_id (ts_tableId s) (dining_tables d))) (tables_of_waiter (staff_of c) d)) d"

definition move_cash :: "auth_ctx \<Rightarrow> shift_session \<Rightarrow> shift_session \<Rightarrow> id \<Rightarrow> decimal \<Rightarrow> db \<Rightarrow> db" where
  "move_cash c s t m amount d =
     apply_if (0 < amount) (\<lambda>d.
       post_entry (waiter_entry c (sh_businessDate t) (sh_id t) ''WAITER_HANDOVER_IN'' amount
           ''WAITER_SHIFT_HANDOVER'' (sh_id s) (Some m))
         (post_entry (waiter_entry c (sh_businessDate s) (sh_id s) ''WAITER_HANDOVER_OUT'' (- amount)
           ''WAITER_SHIFT_HANDOVER'' (sh_id s) (ax_staffMembershipId c)) d)) d"

text \<open>The colleague's open shift, or a new one.\<close>

definition incoming_target :: "auth_ctx \<Rightarrow> membership \<Rightarrow> time \<Rightarrow> db \<Rightarrow> shift_session \<times> db" where
  "incoming_target c m now d =
     (case open_shift (mb_id m) (branch_of c) d of
        Some t \<Rightarrow> (t, d)
      | None \<Rightarrow> (incoming_shift c m now (next_id d),
          d\<lparr>shift_sessions := shift_sessions d @ [incoming_shift c m now (next_id d)], next_id := next_id d + 1\<rparr>))"

fun hand_over_to :: "env \<Rightarrow> auth_ctx \<Rightarrow> shift_session \<Rightarrow> membership \<Rightarrow> decimal \<Rightarrow> shift_session \<times> db \<Rightarrow> db" where
  "hand_over_to e c s m amount (t, d) =
     audit ''WAITER_SHIFT_HANDOVER'' (sh_id s) (Some (ax_userId c))
       (close_shift (sh_id s) (env_now e)
         (move_cash c s t (mb_id m) amount (hand_tables c (mb_id m) (sh_id t) (env_now e) d)))"

definition waiterHandoverTx ::
  "env \<Rightarrow> auth_ctx \<Rightarrow> shift_session \<Rightarrow> membership \<Rightarrow> decimal \<Rightarrow> db \<Rightarrow> db" where
  "waiterHandoverTx e c s m amount d = hand_over_to e c s m amount (incoming_target c m (env_now e) d)"

record waiter_handover_res =
  wr_tables :: nat
  wr_cash :: decimal
  wr_at :: time

definition waiterHandover :: "env \<Rightarrow> auth_ctx \<Rightarrow> waiter_handover_dto \<Rightarrow> db \<Rightarrow> (waiter_handover_res \<times> db) result" where
  "waiterHandover e c x d =
     bindR (requireMembership c) (\<lambda>_.
       case open_shift (staff_of c) (branch_of c) d of
         None \<Rightarrow> Inl (NotFound ''Active shift session not found.'')
       | Some s \<Rightarrow>
           if sh_version s \<noteq> wh_expectedVersion x then Inl (StaleVersion (sh_version s))
           else if Some (wh_incoming x) = ax_staffMembershipId c
           then Inl (Unprocessable ''Cannot hand over shift to yourself.'')
           else bindR (check_incoming e c ''WAITER'' (wh_incoming x) (wh_pin x) d) (\<lambda>m.
             if wh_cash x < 0 then Inl (Unprocessable ''Transferred cash amount cannot be negative.'')
             else if 0 < wh_cash x \<and> calculateWaiterUndroppedCash (branch_of c) (staff_of c) (sh_id s) d < wh_cash x
             then Inl (Unprocessable ''transferredCashAmount'')
             else bindR (commit (waiterHandoverTx e c s m (wh_cash x) d)) (\<lambda>d1.
               Inr (\<lparr>wr_tables = length (tables_of_waiter (staff_of c) d), wr_cash = money (wh_cash x),
                     wr_at = env_now e\<rparr>, d1))))"

section \<open>The manager's view and forced closings\<close>

record active_shift =
  as_shiftSessionId :: id
  as_staff :: id
  as_roleCode :: "string option"
  as_clockInAt :: time
  as_scheduledStart :: "time option"
  as_scheduledEnd :: "time option"
  as_isExpired :: bool
  as_lateByMinutes :: nat
  as_openTables :: "(id \<times> id \<times> nat option \<times> time) list"
  as_undropped :: decimal

definition requireShiftManager :: "env \<Rightarrow> auth_ctx \<Rightarrow> unit result" where
  "requireShiftManager e c =
     (if ax_branchId c = None \<or> ax_staffMembershipId c = None then Inl (Forbidden ''Branch staff membership required.'')
      else assertCan e c Act_manage Sub_Shift ''Only managers can force clock-out staff.'')"

definition tables_of_shift :: "id \<Rightarrow> db \<Rightarrow> table_session list" where
  "tables_of_shift sh d = filter (\<lambda>t. ts_primaryShift t = sh \<and> ts_open t) (table_sessions d)"

definition listManagerActiveSessions :: "env \<Rightarrow> auth_ctx \<Rightarrow> db \<Rightarrow> active_shift list result" where
  "listManagerActiveSessions e c d =
     (if ax_branchId c = None then Inl (Forbidden ''Branch context required.'')
      else bindR (assertCan e c Act_manage Sub_Shift ''Only managers can view active staff shifts.'') (\<lambda>_.
        Inr (map (\<lambda>s. \<lparr>as_shiftSessionId = sh_id s, as_staff = sh_staff s, as_roleCode = sh_roleCode s,
            as_clockInAt = sh_clockInAt s, as_scheduledStart = sh_scheduledStart s, as_scheduledEnd = sh_scheduledEnd s,
            as_isExpired = (case sh_scheduledEnd s of None \<Rightarrow> False | Some t \<Rightarrow> t < env_now e),
            as_lateByMinutes = sh_lateByMinutes s,
            as_openTables = map (\<lambda>t. (ts_id t, ts_tableId t, ts_guestCount t, ts_openedAt t)) (tables_of_shift (sh_id s) d),
            as_undropped = money (calculateWaiterUndroppedCash (branch_of c) (sh_staff s) (sh_id s) d)\<rparr>)
          (sort_key (\<lambda>s. - sh_clockInAt s) (filter (\<lambda>s. sh_branchId s = branch_of c \<and> shift_open s) (shift_sessions d))))))"

datatype cash_handling = DROP_TO_SAFE | FLAG_AS_SHORTAGE | NO_HANDLING

record force_out_dto =
  fo_shift :: id
  fo_reason :: string
  fo_reassign :: "id option"
  fo_closeTables :: bool
  fo_cash :: cash_handling

record force_out_res =
  fr_shift :: id
  fr_at :: time
  fr_transferred :: nat
  fr_closed :: nat
  fr_cash :: decimal
  fr_handling :: cash_handling

text \<open>The tables of the shift go to a colleague, on the colleague's open shift if there is one.\<close>

definition reassign_table :: "id \<Rightarrow> id \<Rightarrow> table_session \<Rightarrow> db \<Rightarrow> db" where
  "reassign_table m sh s d = d\<lparr>table_sessions := update_id ts_id (ts_id s)
       (\<lambda>x. x\<lparr>ts_primaryWaiter := m, ts_primaryShift := sh, ts_version := ts_version x + 1\<rparr>) (table_sessions d),
     dining_tables := update_id dt_id (ts_tableId s)
       (\<lambda>x. x\<lparr>dt_assignedWaiter := Some m, dt_version := dt_version x + 1\<rparr>) (dining_tables d)\<rparr>"

definition force_close_table :: "auth_ctx \<Rightarrow> string \<Rightarrow> time \<Rightarrow> table_session \<Rightarrow> db \<Rightarrow> db" where
  "force_close_table c reason now s d = d\<lparr>table_sessions := update_id ts_id (ts_id s)
       (\<lambda>x. x\<lparr>ts_status := S_CLOSED, ts_closedAt := Some now, ts_closedBy := ax_staffMembershipId c,
          ts_closeReason := Some (''Manager Force Close: '' @ trim reason), ts_version := ts_version x + 1\<rparr>) (table_sessions d),
     dining_tables := update_id dt_id (ts_tableId s)
       (\<lambda>x. x\<lparr>dt_status := ''AVAILABLE'', dt_version := dt_version x + 1\<rparr>) (dining_tables d)\<rparr>"

definition safe_drop :: "auth_ctx \<Rightarrow> shift_session \<Rightarrow> decimal \<Rightarrow> time \<Rightarrow> id \<Rightarrow> cash_drop" where
  "safe_drop c s amount now i = \<lparr>cd_id = i, cd_branchId = branch_of c, cd_businessDate = sh_businessDate s,
     cd_waiter = sh_staff s, cd_waiterShift = sh_id s, cd_declared = dp2 amount, cd_status = D_RECEIVED,
     cd_initiatedAt = now, cd_financialSession = None, cd_receivedBy = ax_staffMembershipId c,
     cd_counted = Some (dp2 amount), cd_receivedAt = Some now, cd_resolution = Some (dp2 amount),
     cd_resolvedAt = None, cd_version = 1\<rparr>"

definition shortage_drop :: "auth_ctx \<Rightarrow> shift_session \<Rightarrow> decimal \<Rightarrow> time \<Rightarrow> id \<Rightarrow> cash_drop" where
  "shortage_drop c s amount now i = (safe_drop c s amount now i)\<lparr>cd_status := D_DISPUTED,
     cd_receivedBy := None, cd_counted := None, cd_receivedAt := None, cd_resolution := None\<rparr>"

definition shortage_dispute :: "auth_ctx \<Rightarrow> decimal \<Rightarrow> id \<Rightarrow> id \<Rightarrow> cash_dispute" where
  "shortage_dispute c amount k i = \<lparr>dp_id = i, dp_branchId = branch_of c, dp_cashDropId = k,
     dp_declared = dp2 amount, dp_counted = 0, dp_variance = dp2 amount, dp_status = DS_OPEN,
     dp_resolution = None, dp_note = None, dp_resolvedBy = None, dp_resolvedAt = None\<rparr>"

definition handle_cash :: "auth_ctx \<Rightarrow> shift_session \<Rightarrow> cash_handling \<Rightarrow> decimal \<Rightarrow> time \<Rightarrow> db \<Rightarrow> db" where
  "handle_cash c s h amount now d =
     (if amount \<le> 0 then d
      else case h of
        DROP_TO_SAFE \<Rightarrow>
          (let k = next_id d
           in post_entry (waiter_entry c (sh_businessDate s) (sh_id s) ''WAITER_CASH_DROP'' (- amount)
                ''MANAGER_FORCE_DROP'' k (ax_staffMembershipId c))
              (d\<lparr>cash_drops := cash_drops d @ [safe_drop c s amount now k], next_id := k + 1\<rparr>))
      | FLAG_AS_SHORTAGE \<Rightarrow>
          (let k = next_id d
           in post_entry (waiter_entry c (sh_businessDate s) (sh_id s) ''WAITER_CASH_SHORTAGE'' (- amount)
                ''STAFF_SHORTAGE_RECORD'' k (ax_staffMembershipId c))
              (d\<lparr>cash_drops := cash_drops d @ [shortage_drop c s amount now k],
                 cash_disputes := cash_disputes d @ [shortage_dispute c amount k (k + 1)], next_id := k + 2\<rparr>))
      | NO_HANDLING \<Rightarrow> d)"

definition reassign_target :: "auth_ctx \<Rightarrow> id option \<Rightarrow> db \<Rightarrow> (id \<times> id option) option result" where
  "reassign_target c r d =
     (case r of
        None \<Rightarrow> Inr None
      | Some i \<Rightarrow>
          (case find (\<lambda>m. mb_id m = i \<and> mb_status m = ''ACTIVE'' \<and> branch_of c \<in> set (mb_branches m)) (memberships d) of
             None \<Rightarrow> Inl (NotFound ''Target staff member for table reassignment not found in this branch.'')
           | Some m \<Rightarrow> Inr (Some (mb_id m, map_option sh_id (first_by (\<lambda>s. - sh_clockInAt s)
               (\<lambda>s. sh_staff s = mb_id m \<and> sh_branchId s = branch_of c \<and> shift_open s) (shift_sessions d))))))"

definition force_tables ::
  "auth_ctx \<Rightarrow> shift_session \<Rightarrow> (id \<times> id option) option \<Rightarrow> bool \<Rightarrow> string \<Rightarrow> time \<Rightarrow> db \<Rightarrow> db" where
  "force_tables c s target close reason now d =
     (case target of
        Some (m, sh) \<Rightarrow> fold (reassign_table m (case sh of Some i \<Rightarrow> i | None \<Rightarrow> sh_id s)) (tables_of_shift (sh_id s) d) d
      | None \<Rightarrow> if close then fold (force_close_table c reason now) (tables_of_shift (sh_id s) d) d else d)"

text \<open>
  The drawer is closed on another connection, before the transaction commits. It reads and writes
  only rows the transaction leaves alone, so it is placed after them here; the constraints are
  checked when the rows are written, before it runs.
\<close>

definition forceOutTx ::
  "env \<Rightarrow> auth_ctx \<Rightarrow> shift_session \<Rightarrow> (id \<times> id option) option \<Rightarrow> force_out_dto \<Rightarrow> decimal \<Rightarrow> db \<Rightarrow> db result" where
  "forceOutTx e c s target x amount d =
     (let now = env_now e
      in bindR (commit (close_shift (sh_id s) now (handle_cash c s (fo_cash x) amount now
             (force_tables c s target (fo_closeTables x) (fo_reason x) now d)))) (\<lambda>d1.
         bindR (closeCashierDrawerIfNeeded now (sh_id s) d1) (\<lambda>d2.
           commit (audit ''MANAGER_FORCE_CLOCK_OUT'' (sh_id s) (Some (ax_userId c)) d2))))"

definition managerForceClockOut :: "env \<Rightarrow> auth_ctx \<Rightarrow> force_out_dto \<Rightarrow> db \<Rightarrow> (force_out_res \<times> db) result" where
  "managerForceClockOut e c x d =
     bindR (requireShiftManager e c) (\<lambda>_.
       case find (\<lambda>s. sh_id s = fo_shift x \<and> sh_branchId s = branch_of c) (shift_sessions d) of
         None \<Rightarrow> Inl (NotFound ''Shift session not found in this branch.'')
       | Some s \<Rightarrow>
           if \<not> shift_open s then Inl (Unprocessable ''alreadyClosed'')
           else bindR (reassign_target c (fo_reassign x) d) (\<lambda>target.
             let tables = tables_of_shift (sh_id s) d;
                 amount = calculateWaiterUndroppedCash (branch_of c) (sh_staff s) (sh_id s) d
             in if tables \<noteq> [] \<and> fo_reassign x = None \<and> \<not> fo_closeTables x
                then Inl (Conflict ''OPEN_TABLES_ACTION_REQUIRED'')
                else bindR (forceOutTx e c s target x amount d) (\<lambda>d1.
                  Inr (\<lparr>fr_shift = sh_id s, fr_at = env_now e,
                        fr_transferred = (if target \<noteq> None then length tables else 0),
                        fr_closed = (if target = None \<and> fo_closeTables x then length tables else 0),
                        fr_cash = (if 0 < amount then money amount else 0), fr_handling = fo_cash x\<rparr>, d1))))"

record force_close_dto =
  fc_shift :: id
  fc_reason :: string
  fc_counted :: "decimal option"
  fc_deposit :: "bool option"
  fc_notes :: "string option"

record force_close_res =
  fl_shift :: id
  fl_status :: string
  fl_expected :: decimal
  fl_counted :: decimal
  fl_variance :: decimal
  fl_safe :: decimal
  fl_at :: time

definition drawer_to_close :: "auth_ctx \<Rightarrow> shift_session \<Rightarrow> db \<Rightarrow> financial_session option" where
  "drawer_to_close c s d = (case drawer_of_shift (sh_id s) d of
     Some f \<Rightarrow> Some f
   | None \<Rightarrow> find (\<lambda>f. fs_branchId f = branch_of c \<and> fs_cashier f = sh_staff s \<and> fs_status f = F_OPEN) (financial_sessions d))"

definition force_comment :: "force_close_dto \<Rightarrow> string" where
  "force_comment x = ''Manager Force Close: '' @ trim (fc_reason x) @
     (case fc_notes x of None \<Rightarrow> [] | Some n \<Rightarrow> if n = [] then [] else '' | '' @ trim n)"

definition forceCloseTx ::
  "env \<Rightarrow> auth_ctx \<Rightarrow> shift_session \<Rightarrow> financial_session \<Rightarrow> force_close_dto \<Rightarrow> decimal \<Rightarrow> decimal \<Rightarrow> bool \<Rightarrow> db \<Rightarrow> db" where
  "forceCloseTx e c s f x expected counted deposit d =
     (let now = env_now e;
          d1 = upsert_reconciliation c f expected counted (force_comment x) ''APPROVED'' now
                 (\<lambda>r. r\<lparr>rn_reviewedBy := ax_staffMembershipId c, rn_reviewedAt := Some now,
                    rn_reviewComment := Some (''Manager Force Close: '' @ trim (fc_reason x))\<rparr>) d;
          d2 = apply_if (deposit \<and> 0 < counted) (post_entry (drawer_entry c (fs_businessDate f) (fs_id f)
                 ''SAFE_DROP_OUT'' (- counted) ''MANAGER_FORCE_CLOSE'' (fs_id f) (ax_staffMembershipId c))) d1;
          d3 = d2\<lparr>financial_sessions := update_id fs_id (fs_id f)
                 (\<lambda>g. g\<lparr>fs_status := F_RECONCILED, fs_closedAt := Some now, fs_version := fs_version g + 1\<rparr>) (financial_sessions d2)\<rparr>
      in audit ''MANAGER_FORCE_CLOSE_CASHIER_DRAWER'' (sh_id s) None (close_shift (sh_id s) now d3))"

definition managerForceCloseCashierDrawer ::
  "env \<Rightarrow> auth_ctx \<Rightarrow> force_close_dto \<Rightarrow> db \<Rightarrow> (force_close_res \<times> db) result" where
  "managerForceCloseCashierDrawer e c x d =
     bindR (requireShiftManager e c) (\<lambda>_.
       case find (\<lambda>s. sh_id s = fc_shift x \<and> sh_branchId s = branch_of c) (shift_sessions d) of
         None \<Rightarrow> Inl (NotFound ''Shift session not found in this branch.'')
       | Some s \<Rightarrow>
           if \<not> shift_open s then Inl (Unprocessable ''alreadyClosed'')
           else (case drawer_to_close c s d of
               None \<Rightarrow>
                 bindR (commit (audit ''MANAGER_FORCE_CLOCK_OUT_STAFF'' (sh_id s) None (close_shift (sh_id s) (env_now e) d))) (\<lambda>d1.
                   Inr (\<lparr>fl_shift = sh_id s, fl_status = ''CLOSED'', fl_expected = 0, fl_counted = 0, fl_variance = 0,
                         fl_safe = 0, fl_at = env_now e\<rparr>, d1))
             | Some f \<Rightarrow>
                 let expected = liveExpectedCash f d;
                     counted = (case fc_counted x of Some n \<Rightarrow> n | None \<Rightarrow> expected);
                     deposit = (fc_deposit x \<noteq> Some False)
                 in bindR (commit (forceCloseTx e c s f x expected counted deposit d)) (\<lambda>d1.
                      Inr (\<lparr>fl_shift = sh_id s, fl_status = ''RECONCILED'', fl_expected = money expected,
                            fl_counted = money counted, fl_variance = money (counted - expected),
                            fl_safe = (if deposit \<and> 0 < counted then money counted else 0), fl_at = env_now e\<rparr>, d1))))"

section \<open>Windows\<close>

lemma local_day: "s < 1440 \<Longrightarrow> businessDateUtc (local_time day s) = day"
proof -
  assume "s < 1440"
  then have "0 \<le> int s * 60000" and "int s * 60000 < 86400000" by simp_all
  then show ?thesis by (simp add: businessDateUtc_window local_time_def ms_per_day_def)
qed

lemma assertWithin_Inr:
  "assertWithinClockInWindow w now = Inr (s, t) \<longleftrightarrow> cw_start w = Some s \<and> cw_end w = Some t \<and>
     s - max 0 (cw_grace w) * 60000 \<le> now \<and> now \<le> t + max 0 (cw_grace w) * 60000"
  by (auto simp: assertWithinClockInWindow_def Let_def split: option.splits)

lemma late_by_bounds: "\<bar>60000 * int (late_by a now) - max 0 (now - a)\<bar> \<le> 30000"
proof -
  let ?x = "now - a + 30000"
  have q: "60000 * (?x div 60000) = ?x - ?x mod 60000" by (metis minus_mod_eq_mult_div)
  have m: "0 \<le> ?x mod 60000" "?x mod 60000 < 60000" by simp_all
  have l: "int (late_by a now) = max 0 (?x div 60000)" by (simp add: late_by_def)
  show ?thesis
  proof (cases "0 \<le> ?x div 60000")
    case True
    then have "0 \<le> ?x" using q m by linarith
    with True q m l show ?thesis by (auto simp: max_def)
  next
    case False
    then have "?x < 0" using q m by linarith
    with False l show ?thesis by (auto simp: max_def)
  qed
qed

section \<open>What the commands do\<close>

lemma clockInBody_effect:
  assumes "clockInBody e c aid role d = Inr s"
  obtains w r a b where "s = clocked_in c r w a b (env_now e) (next_id d)"
    and "a - max 0 (cw_grace w) * 60000 \<le> env_now e" and "env_now e \<le> b + max 0 (cw_grace w) * 60000"
    and "r = Some ''CASHIER'' \<Longrightarrow> \<not> list_ex (other_cashier (branch_of c) (staff_of c) d) (shift_sessions d)"
  using assms by (auto simp: clockInBody_def Let_def inversion assertWithin_Inr split: if_splits)

lemma ensureCashierDrawer_frame:
  "ensureCashierDrawer c sh day now d = Inr d' \<Longrightarrow> shift_sessions d' = shift_sessions d"
  by (auto simp: ensureCashierDrawer_def inversion split: if_splits sum.splits err.splits)

lemma sort_key_Nil: "sort_key k xs = [] \<longleftrightarrow> xs = []"
  by (metis set_empty set_sort)

lemma first_by_None: "first_by k P xs = None \<longleftrightarrow> filter P xs = []"
  using sort_key_Nil [of k "filter P xs"] by (cases "sort_key k (filter P xs)") (simp_all add: first_by_def)

lemma not_clocked_in:
  assumes "\<not> ct_clockedIn (getCurrent e c d)" and "ax_staffMembershipId c \<noteq> None" and "ax_branchId c \<noteq> None"
    and "x \<in> set (shift_sessions d)" and "sh_staff x = staff_of c" and "sh_branchId x = branch_of c"
  shows "\<not> shift_open x"
proof
  assume "shift_open x"
  with assms(4-6) have "filter (\<lambda>s. sh_staff s = staff_of c \<and> sh_branchId s = branch_of c \<and> shift_open s) (shift_sessions d) \<noteq> []"
    by (auto simp: filter_empty_conv)
  then have "first_by (\<lambda>s. - sh_clockInAt s) (\<lambda>s. sh_staff s = staff_of c \<and> sh_branchId s = branch_of c \<and> shift_open s)
     (shift_sessions d) \<noteq> None"
    unfolding first_by_None .
  with assms(1-3) show False by (auto simp: getCurrent_def Let_def split: option.splits)
qed

lemma clockIn_effect:
  assumes "clockIn e c aid role d = (r, d')" and "shift_sessions d' \<noteq> shift_sessions d"
  obtains s where "clockInBody e c aid role d = Inr s" and "shift_sessions d' = shift_sessions d @ [s]"
    and "\<not> ct_clockedIn (getCurrent e c d)" and "requireMembership c = Inr ()"
proof -
  from assms obtain s d1 where g: "requireMembership c = Inr ()" "\<not> ct_clockedIn (getCurrent e c d)"
    and b: "clockInBody e c aid role d = Inr s"
    and d1: "d1 = d\<lparr>shift_sessions := shift_sessions d @ [s], next_id := next_id d + 1\<rparr>"
    and d': "d' = d1 \<or> (\<exists>v. ensureCashierDrawer c v (businessDateUtc (env_now e)) (env_now e) d1 = Inr d')"
    by (auto simp: clockIn_def Let_def inversion split: sum.splits if_splits option.splits)
  from d' have "shift_sessions d' = shift_sessions d1" by (auto dest: ensureCashierDrawer_frame)
  with that [OF b _ g(2,1)] d1 show thesis by simp
qed

text \<open>Closing a drawer moves no cash; it stays open only in the refusals.\<close>

definition settled :: "financial_session \<Rightarrow> db \<Rightarrow> bool" where
  "settled f d \<longleftrightarrow> (\<exists>r. row_by rn_financialSession (fs_id f) (reconciliations d) = Some r \<and> rn_expected r = liveExpectedCash f d \<and>
     (rn_status r = ''APPROVED'' \<or> rn_status r = ''SUBMITTED'' \<and> rn_variance r = 0))"

definition nothing_in :: "financial_session \<Rightarrow> db \<Rightarrow> bool" where
  "nothing_in f d \<longleftrightarrow> fs_openingFloat f \<le> 0 \<and> received_drops (fs_id f) d = 0"

lemma close_drawer_frame [simp]:
  "shift_sessions (close_drawer i st now d) = shift_sessions d" "cash_ledger (close_drawer i st now d) = cash_ledger d"
  "cash_drops (close_drawer i st now d) = cash_drops d" "payments (close_drawer i st now d) = payments d"
  "table_sessions (close_drawer i st now d) = table_sessions d" "reconciliations (close_drawer i st now d) = reconciliations d"
  "next_id (close_drawer i st now d) = next_id d"
  by (simp_all add: close_drawer_def)

lemma close_shift_frame [simp]:
  "financial_sessions (close_shift i now d) = financial_sessions d" "cash_ledger (close_shift i now d) = cash_ledger d"
  "cash_drops (close_shift i now d) = cash_drops d" "payments (close_shift i now d) = payments d"
  "table_sessions (close_shift i now d) = table_sessions d" "reconciliations (close_shift i now d) = reconciliations d"
  "shift_sessions (close_shift i now d) = update_id sh_id i (closed_shift now) (shift_sessions d)"
  by (simp_all add: close_shift_def)

lemma drawer_of_close_drawer:
  "drawer_of_shift sh (close_drawer i st now d) =
     map_option (\<lambda>f. if fs_id f = i then f\<lparr>fs_status := st, fs_closedAt := Some now\<rparr> else f) (drawer_of_shift sh d)"
proof -
  have "row_by fs_shiftSessionId sh (update_id fs_id i (\<lambda>f. f\<lparr>fs_status := st, fs_closedAt := Some now\<rparr>) fs) =
     map_option (\<lambda>f. if fs_id f = i then f\<lparr>fs_status := st, fs_closedAt := Some now\<rparr> else f) (row_by fs_shiftSessionId sh fs)" for fs
    by (induction fs) (auto simp: row_by_def update_id_def update_many_def)
  then show ?thesis by (simp add: drawer_of_shift_def close_drawer_def)
qed

lemma closeCashierDrawer_effect:
  assumes "closeCashierDrawerIfNeeded now sh d = Inr d'"
  shows "shift_sessions d' = shift_sessions d" "cash_ledger d' = cash_ledger d" "cash_drops d' = cash_drops d"
    "payments d' = payments d" "table_sessions d' = table_sessions d"
    "\<And>f. drawer_of_shift sh d = Some f \<Longrightarrow> \<exists>f'. drawer_of_shift sh d' = Some f' \<and> fs_id f' = fs_id f \<and> fs_closedAt f' \<noteq> None \<and>
       (if fs_status f \<in> {F_RECONCILED, F_CLOSED} then fs_status f' = fs_status f
        else fs_status f' = F_RECONCILED \<and> settled f d \<or> fs_status f' = F_CLOSED \<and> fs_status f = F_OPEN \<and> nothing_in f d)"
    "drawer_of_shift sh d = None \<Longrightarrow> drawer_of_shift sh d' = None"
proof -
  let ?P = "\<lambda>d'. shift_sessions d' = shift_sessions d \<and> cash_ledger d' = cash_ledger d \<and> cash_drops d' = cash_drops d \<and>
     payments d' = payments d \<and> table_sessions d' = table_sessions d \<and>
     (\<forall>f. drawer_of_shift sh d = Some f \<longrightarrow> (\<exists>f'. drawer_of_shift sh d' = Some f' \<and> fs_id f' = fs_id f \<and> fs_closedAt f' \<noteq> None \<and>
       (if fs_status f \<in> {F_RECONCILED, F_CLOSED} then fs_status f' = fs_status f
        else fs_status f' = F_RECONCILED \<and> settled f d \<or> fs_status f' = F_CLOSED \<and> fs_status f = F_OPEN \<and> nothing_in f d))) \<and>
     (drawer_of_shift sh d = None \<longrightarrow> drawer_of_shift sh d' = None)"
  have "?P d'"
  proof (cases "drawer_of_shift sh d")
    case None
    with assms show ?thesis by (simp add: closeCashierDrawerIfNeeded_def)
  next
    case (Some f)
    show ?thesis
    proof (cases "fs_status f \<in> {F_RECONCILED, F_CLOSED}")
      case True
      with assms Some show ?thesis
        by (auto simp: closeCashierDrawerIfNeeded_def Let_def inversion drawer_of_close_drawer split: if_splits)
    next
      case False
      have st: "fs_status f = F_OPEN \<or> fs_status f = F_RECONCILIATION_PENDING" using False by (cases "fs_status f") auto
      show ?thesis
      proof (cases "row_by rn_financialSession (fs_id f) (reconciliations d)")
        case None
        with assms Some False st show ?thesis
          by (auto simp: closeCashierDrawerIfNeeded_def Let_def inversion drawer_of_close_drawer nothing_in_def not_less split: if_splits)
      next
        case (Some r)
        with assms \<open>drawer_of_shift sh d = Some f\<close> False st show ?thesis
          by (auto simp: closeCashierDrawerIfNeeded_def Let_def inversion drawer_of_close_drawer nothing_in_def settled_def
              matches_live_def not_less split: if_splits)
      qed
    qed
  qed
  then show "shift_sessions d' = shift_sessions d" "cash_ledger d' = cash_ledger d" "cash_drops d' = cash_drops d"
    "payments d' = payments d" "table_sessions d' = table_sessions d"
    "\<And>f. drawer_of_shift sh d = Some f \<Longrightarrow> \<exists>f'. drawer_of_shift sh d' = Some f' \<and> fs_id f' = fs_id f \<and> fs_closedAt f' \<noteq> None \<and>
       (if fs_status f \<in> {F_RECONCILED, F_CLOSED} then fs_status f' = fs_status f
        else fs_status f' = F_RECONCILED \<and> settled f d \<or> fs_status f' = F_CLOSED \<and> fs_status f = F_OPEN \<and> nothing_in f d)"
    "drawer_of_shift sh d = None \<Longrightarrow> drawer_of_shift sh d' = None"
    by simp_all
qed

lemma clockOut_effect:
  assumes "clockOut e c sid expected d = Inr (v, d')"
  obtains m s d1 where "ax_staffMembershipId c = Some m" and "find (\<lambda>s. sh_id s = sid \<and> sh_staff s = m) (shift_sessions d) = Some s"
    and "shift_open s" and "sh_version s = expected" and "tables_of_waiter m d = []"
    and "closeCashierDrawerIfNeeded (env_now e) sid d = Inr d1" and "d' = close_shift sid (env_now e) d1" and "db_ok d'"
    and "v = getCurrent e c d'"
proof (cases "ax_staffMembershipId c")
  case None
  with assms show thesis by (simp add: clockOut_def)
next
  case (Some m)
  show thesis
  proof (cases "find (\<lambda>s. sh_id s = sid \<and> sh_staff s = m) (shift_sessions d)")
    case None
    with Some assms show thesis by (simp add: clockOut_def)
  next
    case (Some s)
    with assms \<open>ax_staffMembershipId c = Some m\<close> obtain d1 where "shift_open s" "sh_version s = expected" "tables_of_waiter m d = []"
      "closeCashierDrawerIfNeeded (env_now e) (sh_id s) d = Inr d1" "d' = close_shift (sh_id s) (env_now e) d1" "db_ok d'"
      "v = getCurrent e c d'"
      by (auto simp: clockOut_def inversion shift_open_def split: if_splits)
    with \<open>ax_staffMembershipId c = Some m\<close> Some find_Some_in [OF Some] show thesis by (intro that) auto
  qed
qed

section \<open>Cash on the ledger\<close>

lemma session_entries_append:
  "cash_ledger d' = cash_ledger d @ xs \<Longrightarrow> session_entries fs d' =
     session_entries fs d @ filter (\<lambda>x. le_financialSession x = Some fs \<and> le_holderType x = CASHIER_SESSION) xs"
  by (simp add: session_entries_def)

text \<open>What a ledger entry adds to the expected cash of a drawer.\<close>

definition counts_for :: "id \<Rightarrow> ledger_entry \<Rightarrow> decimal" where
  "counts_for fs x = (if le_financialSession x = Some fs \<and> le_holderType x = CASHIER_SESSION \<and> le_entryType x \<noteq> ''OPENING_FLOAT''
     then le_amountDelta x else 0)"

lemma flow_sum:
  "sum_list (map le_amountDelta (filter (\<lambda>x. le_entryType x = ''CASH_DROP_IN'')
       (filter (\<lambda>x. le_financialSession x = Some fs \<and> le_holderType x = CASHIER_SESSION) xs))) +
   sum_list (map le_amountDelta (filter (\<lambda>x. le_entryType x \<noteq> ''CASH_DROP_IN'' \<and> le_entryType x \<noteq> ''OPENING_FLOAT'')
       (filter (\<lambda>x. le_financialSession x = Some fs \<and> le_holderType x = CASHIER_SESSION) xs))) =
   sum_list (map (counts_for fs) xs)"
  by (induction xs) (auto simp: counts_for_def)

lemma live_sum: "liveExpectedCash f d = fs_openingFloat f + sum_list (map (counts_for (fs_id f)) (cash_ledger d))"
  using flow_sum [of "fs_id f" "cash_ledger d"]
  by (simp add: live_eq drop_inflow_def other_flow_def session_entries_def)

lemma live_append:
  "cash_ledger d' = cash_ledger d @ xs \<Longrightarrow> liveExpectedCash f d' = liveExpectedCash f d + sum_list (map (counts_for (fs_id f)) xs)"
  by (simp add: live_sum)

definition handed :: "id \<Rightarrow> ledger_entry \<Rightarrow> decimal" where
  "handed sh x = (if le_waiterShift x = Some sh \<and> le_holderType x = WAITER_SHIFT \<and>
     le_entryType x \<in> set [''WAITER_HANDOVER_IN'', ''WAITER_HANDOVER_OUT''] then le_amountDelta x else 0)"

lemma handover_sum: "handover_net sh d = sum_list (map (handed sh) (cash_ledger d))"
  unfolding handover_net_def sum_where by (rule arg_cong [of _ _ sum_list], rule map_cong) (auto simp: handed_def)

lemma post_frame [simp]:
  "shift_sessions (post_entry x d) = shift_sessions d" "financial_sessions (post_entry x d) = financial_sessions d"
  "cash_drops (post_entry x d) = cash_drops d" "payments (post_entry x d) = payments d"
  "table_sessions (post_entry x d) = table_sessions d" "reconciliations (post_entry x d) = reconciliations d"
  "cash_ledger (post_entry x d) = cash_ledger d @ [x\<lparr>le_id := next_id d\<rparr>]" "dining_tables (post_entry x d) = dining_tables d"
  "cash_disputes (post_entry x d) = cash_disputes d"
  by (simp_all add: post_entry_def)

lemma audit_frame [simp]:
  "shift_sessions (audit a i u d) = shift_sessions d" "financial_sessions (audit a i u d) = financial_sessions d"
  "cash_drops (audit a i u d) = cash_drops d" "payments (audit a i u d) = payments d"
  "table_sessions (audit a i u d) = table_sessions d" "reconciliations (audit a i u d) = reconciliations d"
  "cash_ledger (audit a i u d) = cash_ledger d" "dining_tables (audit a i u d) = dining_tables d"
  by (simp_all add: audit_def)

lemma counts_for_id [simp]: "counts_for fs (x\<lparr>le_id := i\<rparr>) = counts_for fs x" "handed sh (x\<lparr>le_id := i\<rparr>) = handed sh x"
  by (auto simp: counts_for_def handed_def)

lemma dp2_minus [simp]: "dp2 (- x) = - dp2 x"
  using floor_int_half [of 0] by (auto simp: round_half_up_def)

lemma dp2_nonpos: "x \<le> 0 \<Longrightarrow> 0 \<le> x \<Longrightarrow> dp2 x = 0"
  by (simp add: round_scaled)

section \<open>Handing a drawer over\<close>

lemma upsert_frame [simp]:
  "shift_sessions (upsert_reconciliation c f x y s t now g d) = shift_sessions d"
  "financial_sessions (upsert_reconciliation c f x y s t now g d) = financial_sessions d"
  "cash_ledger (upsert_reconciliation c f x y s t now g d) = cash_ledger d"
  "cash_drops (upsert_reconciliation c f x y s t now g d) = cash_drops d"
  "payments (upsert_reconciliation c f x y s t now g d) = payments d"
  by (simp_all add: upsert_reconciliation_def split: option.splits)

lemma empty_drawer_frame [simp]:
  "shift_sessions (empty_drawer c f s x d) = shift_sessions d" "financial_sessions (empty_drawer c f s x d) = financial_sessions d"
  "reconciliations (empty_drawer c f s x d) = reconciliations d" "payments (empty_drawer c f s x d) = payments d"
  "cash_drops (empty_drawer c f s x d) = cash_drops d"
  by (simp_all add: empty_drawer_def apply_if_def)

lemma empty_drawer_ledger:
  "\<exists>xs. cash_ledger (empty_drawer c f s x d) = cash_ledger d @ xs \<and>
     (\<forall>g. sum_list (map (counts_for g) xs) = (if g = fs_id f then - dp2 (max s 0) - dp2 (max x 0) else 0))"
proof (cases "0 < s"; cases "0 < x")
qed (auto simp: empty_drawer_def apply_if_def counts_for_def drawer_entry_def round_scaled)

lemma open_incoming_effect:
  "\<exists>xs. cash_ledger (open_incoming c f m x now d) = cash_ledger d @ xs \<and> (\<forall>g. sum_list (map (counts_for g) xs) = 0) \<and>
     shift_sessions (open_incoming c f m x now d) = shift_sessions d @ [incoming_shift c m now (next_id d)] \<and>
     financial_sessions (open_incoming c f m x now d) =
       financial_sessions d @ [incoming_drawer c m x now (next_id d) (next_id d + 1)] \<and>
     reconciliations (open_incoming c f m x now d) = reconciliations d \<and>
     payments (open_incoming c f m x now d) = payments d \<and> cash_drops (open_incoming c f m x now d) = cash_drops d"
  by (auto simp: open_incoming_def Let_def apply_if_def counts_for_def drawer_entry_def)

lemma handoverTx_effect:
  obtains xs i where "cash_ledger (handoverTx e c s f m x expected d) = cash_ledger d @ xs"
    and "\<And>g. sum_list (map (counts_for g) xs) =
       (if g = fs_id f then - dp2 (max (hd_counted x - hd_float x) 0) - dp2 (max (hd_float x) 0) else 0)"
    and "shift_sessions (handoverTx e c s f m x expected d) =
       update_id sh_id (sh_id s) (closed_shift (env_now e)) (shift_sessions d) @ [incoming_shift c m (env_now e) i]"
    and "financial_sessions (handoverTx e c s f m x expected d) =
       update_id fs_id (fs_id f) (\<lambda>f. f\<lparr>fs_status := F_RECONCILED, fs_closedAt := Some (env_now e)\<rparr>) (financial_sessions d) @
         [incoming_drawer c m (hd_float x) (env_now e) i (i + 1)]"
    and "reconciliations (handoverTx e c s f m x expected d) =
       reconciliations (upsert_reconciliation c f expected (hd_counted x) (handover_comment m (hd_notes x))
         (if hd_counted x - expected = 0 then ''APPROVED'' else ''SUBMITTED'') (env_now e) (\<lambda>r. r) d)"
proof -
  let ?d1 = "upsert_reconciliation c f expected (hd_counted x) (handover_comment m (hd_notes x))
         (if hd_counted x - expected = 0 then ''APPROVED'' else ''SUBMITTED'') (env_now e) (\<lambda>r. r) d"
  let ?d2 = "close_shift (sh_id s) (env_now e) (close_drawer (fs_id f) F_RECONCILED (env_now e)
     (empty_drawer c f (hd_counted x - hd_float x) (hd_float x) ?d1))"
  from empty_drawer_ledger [of c f "hd_counted x - hd_float x" "hd_float x" ?d1] obtain xs where
    xs: "cash_ledger ?d2 = cash_ledger d @ xs" "\<And>g. sum_list (map (counts_for g) xs) =
       (if g = fs_id f then - dp2 (max (hd_counted x - hd_float x) 0) - dp2 (max (hd_float x) 0) else 0)" by auto
  from open_incoming_effect [of c f m "hd_float x" "env_now e" ?d2] obtain ys where
    ys: "cash_ledger (open_incoming c f m (hd_float x) (env_now e) ?d2) = cash_ledger ?d2 @ ys"
      "\<And>g. sum_list (map (counts_for g) ys) = 0"
      "shift_sessions (open_incoming c f m (hd_float x) (env_now e) ?d2) =
         shift_sessions ?d2 @ [incoming_shift c m (env_now e) (next_id ?d2)]"
      "financial_sessions (open_incoming c f m (hd_float x) (env_now e) ?d2) =
         financial_sessions ?d2 @ [incoming_drawer c m (hd_float x) (env_now e) (next_id ?d2) (next_id ?d2 + 1)]"
      "reconciliations (open_incoming c f m (hd_float x) (env_now e) ?d2) = reconciliations ?d2" by auto
  have tx: "handoverTx e c s f m x expected d =
     audit ''SHIFT_HANDOVER'' (fs_id f) (Some (ax_userId c)) (open_incoming c f m (hd_float x) (env_now e) ?d2)"
    by (simp add: handoverTx_def Let_def)
  show thesis
    using xs ys by (intro that [of "xs @ ys" "next_id ?d2"]) (simp_all add: tx close_drawer_def)
qed

lemma check_incoming_Inr:
  "check_incoming e c role i pin d = Inr m \<Longrightarrow> mb_id m = i \<and> m \<in> set (memberships d) \<and> role \<in> set (mb_roles m) \<and>
     branch_of c \<in> set (mb_branches m) \<and> (\<exists>h. mb_passwordHash m = Some h \<and> env_pinOk e (trim pin) h)"
  by (auto simp: check_incoming_def branch_member_def split: option.splits if_splits dest: find_Some_in)

lemma check_incoming_staff:
  assumes "check_incoming e c role i pin d = Inr m"
  shows "\<exists>m \<in> set (memberships d). mb_id m = i \<and> mb_tenantId m = tenant_of c \<and> mb_status m = ''ACTIVE'' \<and>
     branch_of c \<in> set (mb_branches m) \<and> mb_hasUser m \<and> role \<in> set (mb_roles m) \<and>
     (\<exists>h. mb_passwordHash m = Some h \<and> h \<noteq> [] \<and> env_pinOk e (trim pin) h)"
  using assms
  by (intro bexI [of _ m]) (auto simp: check_incoming_def branch_member_def split: option.splits if_splits dest!: find_Some_in)

lemma handover_effect:
  assumes "handover e c x d = Inr (res, d')"
  obtains s f m where "open_shift (staff_of c) (branch_of c) d = Some s" and "sh_version s = hd_expectedVersion x"
    and "drawer_of_shift (sh_id s) d = Some f" and "fs_status f = F_OPEN"
    and "check_incoming e c ''CASHIER'' (hd_incoming x) (hd_pin x) d = Inr m"
    and "open_shift (mb_id m) (branch_of c) d = None" and "hd_float x \<le> hd_counted x"
    and "d' = handoverTx e c s f m x (liveExpectedCash f d) d" and "db_ok d'"
    and "res = \<lparr>hr_counted = money (hd_counted x), hr_expected = money (liveExpectedCash f d),
       hr_variance = money (hd_counted x - liveExpectedCash f d), hr_float = money (hd_float x),
       hr_safeDrop = money (hd_counted x - hd_float x), hr_at = env_now e,
       hr_status = (if hd_counted x - liveExpectedCash f d = 0 then ''COMPLETED'' else ''DISCREPANCY_SUBMITTED'')\<rparr>"
proof (cases "open_shift (staff_of c) (branch_of c) d")
  case None
  with assms show thesis by (auto simp: handover_def inversion)
next
  case (Some s)
  show thesis
  proof (cases "drawer_of_shift (sh_id s) d")
    case None
    with Some assms show thesis by (auto simp: handover_def inversion split: if_splits)
  next
    case (Some f)
    with assms \<open>open_shift _ _ d = Some s\<close> obtain m where
      "sh_version s = hd_expectedVersion x" "fs_status f = F_OPEN" "check_incoming e c ''CASHIER'' (hd_incoming x) (hd_pin x) d = Inr m"
      "open_shift (mb_id m) (branch_of c) d = None" "hd_float x \<le> hd_counted x"
      "d' = handoverTx e c s f m x (liveExpectedCash f d) d" "db_ok d'"
      "res = \<lparr>hr_counted = money (hd_counted x), hr_expected = money (liveExpectedCash f d),
       hr_variance = money (hd_counted x - liveExpectedCash f d), hr_float = money (hd_float x),
       hr_safeDrop = money (hd_counted x - hd_float x), hr_at = env_now e,
       hr_status = (if hd_counted x - liveExpectedCash f d = 0 then ''COMPLETED'' else ''DISCREPANCY_SUBMITTED'')\<rparr>"
      by (auto simp: handover_def Let_def inversion not_less split: if_splits)
    with \<open>open_shift _ _ d = Some s\<close> Some show thesis by (intro that)
  qed
qed

section \<open>Handing tables over\<close>

definition handed_table :: "id \<Rightarrow> id \<Rightarrow> table_session \<Rightarrow> table_session" where
  "handed_table m sh x = x\<lparr>ts_primaryWaiter := m, ts_primaryShift := sh, ts_version := ts_version x + 1\<rparr>"

lemma hand_table_frame [simp]:
  "cash_ledger (hand_table c m sh now p d) = cash_ledger d" "payments (hand_table c m sh now p d) = payments d"
  "cash_drops (hand_table c m sh now p d) = cash_drops d" "shift_sessions (hand_table c m sh now p d) = shift_sessions d"
  "financial_sessions (hand_table c m sh now p d) = financial_sessions d"
  "table_sessions (hand_table c m sh now p d) = update_id ts_id (ts_id (fst p)) (handed_table m sh) (table_sessions d)"
  by (simp_all add: hand_table_def Let_def handed_table_def [abs_def] split: prod.split)

lemma fold_hand_table:
  "distinct (map (\<lambda>p. ts_id (fst p)) ps) \<Longrightarrow>
     cash_ledger (fold (hand_table c m sh now) ps d) = cash_ledger d \<and> payments (fold (hand_table c m sh now) ps d) = payments d \<and>
     cash_drops (fold (hand_table c m sh now) ps d) = cash_drops d \<and>
     shift_sessions (fold (hand_table c m sh now) ps d) = shift_sessions d \<and>
     financial_sessions (fold (hand_table c m sh now) ps d) = financial_sessions d \<and>
     table_sessions (fold (hand_table c m sh now) ps d) =
       map (\<lambda>x. if ts_id x \<in> (\<lambda>p. ts_id (fst p)) ` set ps then handed_table m sh x else x) (table_sessions d)"
proof (induction ps arbitrary: d)
  case (Cons p ps)
  have id: "ts_id (handed_table m sh x) = ts_id x" for x by (simp add: handed_table_def)
  from Cons show ?case by (auto simp: update_id_def update_many_def id)
qed simp

lemma hand_tables_effect:
  assumes "primary_key ts_id (table_sessions d)"
  shows "cash_ledger (hand_tables c m sh now d) = cash_ledger d" "payments (hand_tables c m sh now d) = payments d"
    "cash_drops (hand_tables c m sh now d) = cash_drops d" "shift_sessions (hand_tables c m sh now d) = shift_sessions d"
    "financial_sessions (hand_tables c m sh now d) = financial_sessions d"
    "table_sessions (hand_tables c m sh now d) =
       map (\<lambda>x. if ts_primaryWaiter x = staff_of c \<and> ts_open x then handed_table m sh x else x) (table_sessions d)"
proof -
  let ?ps = "map (\<lambda>s. (s, row_by dt_id (ts_tableId s) (dining_tables d))) (tables_of_waiter (staff_of c) d)"
  have dist: "distinct (map ts_id (table_sessions d))" using assms by (simp add: keyed_def)
  then have "distinct (map (\<lambda>p. ts_id (fst p)) ?ps)"
    by (simp add: tables_of_waiter_def comp_def distinct_map_filter)
  note f = fold_hand_table [OF this, of c m sh now d]
  have "x \<in> set (table_sessions d) \<Longrightarrow>
     ts_id x \<in> (\<lambda>p. ts_id (fst p)) ` set ?ps \<longleftrightarrow> ts_primaryWaiter x = staff_of c \<and> ts_open x" for x
    using dist by (auto simp: tables_of_waiter_def image_iff) (metis row_by_distinct option.inject)+
  with f show "cash_ledger (hand_tables c m sh now d) = cash_ledger d" "payments (hand_tables c m sh now d) = payments d"
    "cash_drops (hand_tables c m sh now d) = cash_drops d" "shift_sessions (hand_tables c m sh now d) = shift_sessions d"
    "financial_sessions (hand_tables c m sh now d) = financial_sessions d"
    "table_sessions (hand_tables c m sh now d) =
       map (\<lambda>x. if ts_primaryWaiter x = staff_of c \<and> ts_open x then handed_table m sh x else x) (table_sessions d)"
    by (auto simp: hand_tables_def)
qed

lemma move_cash_effect:
  assumes "0 \<le> amount" and "sh_id s \<noteq> sh_id t"
  shows "\<exists>xs. cash_ledger (move_cash c s t m amount d) = cash_ledger d @ xs \<and>
     (\<forall>sh. sum_list (map (handed sh) xs) = (if sh = sh_id t then dp2 amount else if sh = sh_id s then - dp2 amount else 0)) \<and>
     payments (move_cash c s t m amount d) = payments d \<and> cash_drops (move_cash c s t m amount d) = cash_drops d \<and>
     table_sessions (move_cash c s t m amount d) = table_sessions d \<and>
     shift_sessions (move_cash c s t m amount d) = shift_sessions d"
proof (cases "0 < amount")
  case True
  with assms(2) show ?thesis by (auto simp: move_cash_def apply_if_def waiter_entry_def handed_def)
next
  case False
  with assms(1) have "amount = 0" by simp
  then show ?thesis by (auto simp: move_cash_def apply_if_def round_scaled)
qed

definition target_shift :: "auth_ctx \<Rightarrow> membership \<Rightarrow> time \<Rightarrow> db \<Rightarrow> shift_session" where
  "target_shift c m now d = (case open_shift (mb_id m) (branch_of c) d of Some t \<Rightarrow> t | None \<Rightarrow> incoming_shift c m now (next_id d))"

lemma waiterHandoverTx_effect:
  assumes ok: "db_ok d" and pos: "0 \<le> amount" and ne: "sh_id s \<noteq> sh_id (target_shift c m (env_now e) d)"
  defines "t \<equiv> target_shift c m (env_now e) d"
  shows "table_sessions (waiterHandoverTx e c s m amount d) = map (\<lambda>x. if ts_primaryWaiter x = staff_of c \<and> ts_open x
       then handed_table (mb_id m) (sh_id t) x else x) (table_sessions d) \<and>
     payments (waiterHandoverTx e c s m amount d) = payments d \<and> cash_drops (waiterHandoverTx e c s m amount d) = cash_drops d \<and>
     (\<exists>xs. cash_ledger (waiterHandoverTx e c s m amount d) = cash_ledger d @ xs \<and>
        (\<forall>sh. sum_list (map (handed sh) xs) = (if sh = sh_id t then dp2 amount else if sh = sh_id s then - dp2 amount else 0))) \<and>
     shift_sessions (waiterHandoverTx e c s m amount d) = update_id sh_id (sh_id s) (closed_shift (env_now e))
       (if open_shift (mb_id m) (branch_of c) d = None then shift_sessions d @ [t] else shift_sessions d)"
proof -
  obtain d1 where d1: "waiterHandoverTx e c s m amount d = audit ''WAITER_SHIFT_HANDOVER'' (sh_id s) (Some (ax_userId c))
       (close_shift (sh_id s) (env_now e) (move_cash c s t (mb_id m) amount (hand_tables c (mb_id m) (sh_id t) (env_now e) d1)))"
    and f: "cash_ledger d1 = cash_ledger d" "payments d1 = payments d" "cash_drops d1 = cash_drops d" "table_sessions d1 = table_sessions d"
      "shift_sessions d1 = (if open_shift (mb_id m) (branch_of c) d = None then shift_sessions d @ [t] else shift_sessions d)"
  proof (cases "open_shift (mb_id m) (branch_of c) d")
    case None
    then show thesis
      by (intro that [of "d\<lparr>shift_sessions := shift_sessions d @ [t], next_id := next_id d + 1\<rparr>"])
        (simp_all add: waiterHandoverTx_def incoming_target_def t_def target_shift_def)
  next
    case (Some y)
    then show thesis by (intro that [of d]) (simp_all add: waiterHandoverTx_def incoming_target_def t_def target_shift_def)
  qed
  have "primary_key ts_id (table_sessions d1)" using db_okD(1) [OF ok] f by simp
  note h = hand_tables_effect [OF this, of c "mb_id m" "sh_id t" "env_now e"]
  from move_cash_effect [OF pos ne [folded t_def], of c "mb_id m" "hand_tables c (mb_id m) (sh_id t) (env_now e) d1"]
  show ?thesis unfolding d1 by (auto simp: h f)
qed

lemma waiterHandover_effect:
  assumes "waiterHandover e c x d = Inr (res, d')"
  obtains s m where "open_shift (staff_of c) (branch_of c) d = Some s" and "sh_version s = wh_expectedVersion x"
    and "check_incoming e c ''WAITER'' (wh_incoming x) (wh_pin x) d = Inr m" and "wh_incoming x \<noteq> staff_of c"
    and "0 \<le> wh_cash x" and "0 < wh_cash x \<Longrightarrow> wh_cash x \<le> max (undropped (branch_of c) (staff_of c) (sh_id s) d) 0"
    and "d' = waiterHandoverTx e c s m (wh_cash x) d" and "db_ok d'"
proof (cases "open_shift (staff_of c) (branch_of c) d")
  case None
  with assms show thesis by (auto simp: waiterHandover_def inversion)
next
  case (Some s)
  from assms have "ax_staffMembershipId c \<noteq> None"
    by (auto simp: waiterHandover_def inversion requireMembership_def split: if_splits)
  with assms Some show thesis
    by (auto simp: waiterHandover_def inversion calculateWaiterUndroppedCash_def not_less split: if_splits intro!: that)
qed

lemma undropped_handed:
  assumes "payments d' = payments d" and "cash_drops d' = cash_drops d" and "cash_ledger d' = cash_ledger d @ xs"
  shows "undropped b m sh d' = undropped b m sh d + sum_list (map (handed sh) xs)"
  unfolding undropped_def collected_cong [OF assms(1)] dropped_cong [OF assms(2)] handover_sum by (simp add: assms(3))

lemma open_shift_SomeD:
  "open_shift m b d = Some s \<Longrightarrow> s \<in> set (shift_sessions d) \<and> sh_staff s = m \<and> sh_branchId s = b \<and> shift_open s"
  by (auto simp: open_shift_def dest: find_Some_in)

section \<open>Properties\<close>

definition colleague :: "id \<Rightarrow> string \<Rightarrow> membership" where
  "colleague i role = \<lparr>mb_id = i, mb_tenantId = 1, mb_status = ''ACTIVE'', mb_branches = [2], mb_roles = [role], mb_pastRoles = [],
     mb_hasUser = True, mb_passwordHash = Some ''1234'', mb_displayName = ''Sara'', mb_userName = ''Sara''\<rparr>"

definition evening_plan :: shift_definition where
  "evening_plan = \<lparr>df_id = 200, df_branchId = 2, df_name = ''Night'', df_start = 190, df_end = 120, df_graceMinutes = 15,
     df_status = ''ACTIVE''\<rparr>"

text \<open>The drawer holds 200; another cashier and another waiter may take over; a third waiter has the night shift.\<close>

definition staffed_db :: db where
  "staffed_db = drawer_db\<lparr>memberships := [colleague 14 ''WAITER'', colleague 15 ''CASHIER'', colleague 16 ''WAITER''],
     shift_definitions := [evening_plan],
     staff_day_shifts := [\<lparr>dy_staff = 16, dy_dayCode = ''Thu'', dy_definition = 200\<rparr>]\<rparr>"

definition night_waiter :: auth_ctx where
  "night_waiter = staff_member 116 16 ''WAITER'' None 0 []"

text \<open>
  The window of a weekly shift starts on today's calendar day of the branch, ends after it
  starts and at most 24 hours later, also for a shift that runs past midnight.
\<close>

theorem shift_window_is_todays:
  assumes "s < 1440" and "t < 1440"
  shows "case computeShiftWindowForDay s t now of (a, b) \<Rightarrow>
     businessDateUtc a = businessDateUtc now \<and> a < b \<and> b \<le> a + ms_per_day \<and>
     (b - a) mod ms_per_day = (int t - int s) * 60000 mod ms_per_day"
proof -
  have "int s < 1440" "int t < 1440" using assms by simp_all
  moreover have "(int t * 60000 + 86400000 - int s * 60000) mod 86400000 = (int t * 60000 - int s * 60000) mod 86400000"
    using mod_add_self2 [of "int t * 60000 - int s * 60000" "86400000 :: int"] by (simp add: algebra_simps)
  ultimately show ?thesis
    using local_day [OF assms(1)]
    by (auto simp: computeShiftWindowForDay_def Let_def local_time_def ms_per_day_def algebra_simps)
qed

theorem shift_window_is_todays_witness:
  "computeShiftWindowForDay 1320 360 0 = (68400000, 97200000) \<and> businessDateUtc 68400000 = businessDateUtc 0"
proof -
  have w: "computeShiftWindowForDay 1320 360 0 = (68400000, 97200000)" by code_simp
  with shift_window_is_todays [of 1320 360 0] show ?thesis by simp
qed

text \<open>
  A clock-in that opens a shift opens exactly one, for the staff member at the branch, who had
  none open there; the moment lies within the scheduled window widened by the grace minutes, and
  the recorded lateness is the delay to the nearest minute. A shift in the role of cashier is
  opened only when no other cashier is on shift at the branch.
\<close>

theorem clockIn_opens_one_shift_in_its_window:
  assumes run: "clockIn e c aid role d = (r, d')" and new: "shift_sessions d' \<noteq> shift_sessions d"
  shows "\<exists>s a b. shift_sessions d' = shift_sessions d @ [s] \<and> shift_open s \<and> sh_staff s = staff_of c \<and>
     sh_branchId s = branch_of c \<and> sh_clockInAt s = env_now e \<and> sh_businessDate s = businessDateUtc (env_now e) \<and>
     sh_scheduledStart s = Some a \<and> sh_scheduledEnd s = Some b \<and>
     a - max 0 (sh_graceMinutes s) * 60000 \<le> env_now e \<and> env_now e \<le> b + max 0 (sh_graceMinutes s) * 60000 \<and>
     \<bar>60000 * int (sh_lateByMinutes s) - max 0 (env_now e - a)\<bar> \<le> 30000 \<and>
     (\<forall>x \<in> set (shift_sessions d). sh_staff x = staff_of c \<and> sh_branchId x = branch_of c \<longrightarrow> \<not> shift_open x) \<and>
     (sh_roleCode s = Some ''CASHIER'' \<longrightarrow> (\<forall>x \<in> set (shift_sessions d).
        sh_branchId x = branch_of c \<and> sh_roleCode x = Some ''CASHIER'' \<longrightarrow> \<not> shift_open x))"
proof (rule clockIn_effect [OF run new])
  fix s
  assume body: "clockInBody e c aid role d = Inr s" and sh: "shift_sessions d' = shift_sessions d @ [s]"
    and "\<not> ct_clockedIn (getCurrent e c d)" and "requireMembership c = Inr ()"
  then have free: "\<forall>x \<in> set (shift_sessions d). sh_staff x = staff_of c \<and> sh_branchId x = branch_of c \<longrightarrow> \<not> shift_open x"
    by (auto dest: not_clocked_in simp: requireMembership_def split: if_splits)
  show ?thesis
  proof (rule clockInBody_effect [OF body])
    fix w q a b
    assume s: "s = clocked_in c q w a b (env_now e) (next_id d)" and w: "a - max 0 (cw_grace w) * 60000 \<le> env_now e"
      "env_now e \<le> b + max 0 (cw_grace w) * 60000"
      and oth: "q = Some ''CASHIER'' \<Longrightarrow> \<not> list_ex (other_cashier (branch_of c) (staff_of c) d) (shift_sessions d)"
    have "q = Some ''CASHIER'' \<Longrightarrow> x \<in> set (shift_sessions d) \<Longrightarrow> sh_branchId x = branch_of c \<Longrightarrow>
        sh_roleCode x = Some ''CASHIER'' \<Longrightarrow> \<not> shift_open x" for x
      using oth free by (auto simp: list_ex_iff other_cashier_def)
    with sh w free show ?thesis
      by (intro exI [of _ s] exI [of _ a] exI [of _ b]) (simp add: s clocked_in_def shift_open_def late_by_bounds)
  qed
qed

theorem clockIn_opens_one_shift_in_its_window_witness:
  "\<exists>r d' s. clockIn evening night_waiter None None staffed_db = (r, d') \<and>
     shift_sessions d' = shift_sessions staffed_db @ [s] \<and> shift_open s \<and> sh_staff s = 16"
proof -
  obtain r d' where run: "clockIn evening night_waiter None None staffed_db = (r, d')" by (cases "clockIn evening night_waiter None None staffed_db")
  have "length (shift_sessions (snd (clockIn evening night_waiter None None staffed_db))) = 3"
    and "length (shift_sessions staffed_db) = 2" and st: "staff_of night_waiter = 16" by code_simp+
  with run have "shift_sessions d' \<noteq> shift_sessions staffed_db" by auto
  from clockIn_opens_one_shift_in_its_window [OF run this] run st show ?thesis by auto
qed

text \<open>
  C36: nobody leaves with tables or an open drawer. A clock-out closes the shift the caller named,
  which is the caller's own, open and at the version the caller saw, and no other shift; the caller
  has no open table; the drawer of the shift, if there is one, is closed. A drawer that was RECONCILED
  or CLOSED before keeps that status; any other becomes RECONCILED only on a reconciliation that
  expected what the ledger says the drawer holds now and that was approved (a variance may have
  been accepted then) or submitted without variance, and CLOSED only when it was OPEN and had no
  float and no received drop. No cash moves.
\<close>

theorem clockOut_leaves_nothing_open:
  assumes ok: "db_ok d" and run: "clockOut e c sid expected d = Inr (v, d')"
  shows "\<exists>s. row_by sh_id sid (shift_sessions d) = Some s \<and> sh_staff s = staff_of c \<and> shift_open s \<and> sh_version s = expected \<and>
     shift_sessions d' = update_id sh_id sid (closed_shift (env_now e)) (shift_sessions d) \<and>
     row_by sh_id sid (shift_sessions d') = Some (closed_shift (env_now e) s) \<and> tables_of_waiter (staff_of c) d' = [] \<and>
     cash_ledger d' = cash_ledger d \<and> cash_drops d' = cash_drops d \<and> payments d' = payments d \<and>
     (\<forall>f'. drawer_of_shift sid d' = Some f' \<longrightarrow> fs_closedAt f' \<noteq> None \<and> (\<exists>f. drawer_of_shift sid d = Some f \<and> fs_id f = fs_id f' \<and>
        (fs_status f' = fs_status f \<and> fs_status f \<in> {F_RECONCILED, F_CLOSED} \<or>
         fs_status f' = F_RECONCILED \<and> settled f d \<or> fs_status f' = F_CLOSED \<and> fs_status f = F_OPEN \<and> nothing_in f d)))"
proof (rule clockOut_effect [OF run])
  fix m s d1
  assume m: "ax_staffMembershipId c = Some m" and fd: "find (\<lambda>s. sh_id s = sid \<and> sh_staff s = m) (shift_sessions d) = Some s"
    and g: "shift_open s" "sh_version s = expected" "tables_of_waiter m d = []"
    and cl: "closeCashierDrawerIfNeeded (env_now e) sid d = Inr d1" and d': "d' = close_shift sid (env_now e) d1"
  note eff = closeCashierDrawer_effect [OF cl]
  have row: "row_by sh_id sid (shift_sessions d) = Some s"
    using find_row_by [OF fd] db_okD(26) [OF ok] by (simp add: keyed_def)
  have "shift_sessions d' = update_id sh_id sid (closed_shift (env_now e)) (shift_sessions d)" by (simp add: d' eff(1))
  moreover have "row_by sh_id sid (shift_sessions d') = Some (closed_shift (env_now e) s)"
    by (simp add: d' eff(1) row_by_update_id closed_shift_def row)
  moreover have "tables_of_waiter m d' = []" using g(3) by (simp add: tables_of_waiter_def d' eff(5))
  moreover have "fs_closedAt f' \<noteq> None \<and> (\<exists>f. drawer_of_shift sid d = Some f \<and> fs_id f = fs_id f' \<and>
        (fs_status f' = fs_status f \<and> fs_status f \<in> {F_RECONCILED, F_CLOSED} \<or>
         fs_status f' = F_RECONCILED \<and> settled f d \<or> fs_status f' = F_CLOSED \<and> fs_status f = F_OPEN \<and> nothing_in f d))"
    if "drawer_of_shift sid d' = Some f'" for f'
  proof (cases "drawer_of_shift sid d")
    case None
    with that eff(7) show ?thesis by (simp add: d' drawer_of_shift_def)
  next
    case (Some f)
    from eff(6) [OF Some] that show ?thesis by (auto simp: d' drawer_of_shift_def Some [unfolded drawer_of_shift_def] split: if_splits)
  qed
  ultimately show ?thesis
    using row g(1,2) find_Some_in [OF fd] m by (intro exI [of _ s]) (simp add: d' eff)
qed

theorem clockOut_leaves_nothing_open_witness:
  "(\<exists>v d'. clockOut later cashier 31 1 floor_db = Inr (v, d') \<and> tables_of_waiter 11 d' = []) \<and>
   clockOut later cashier 31 1 drawer_db = Inl (Conflict ''drawerOpen'')"
proof
  have ok: "db_ok floor_db" by (rule floor_db_ok)
  have "bindR (clockOut later cashier 31 1 floor_db) (\<lambda>(v, d'). Inr ()) = Inr ()" and c: "staff_of cashier = 11" by code_simp+
  then obtain v d' where run: "clockOut later cashier 31 1 floor_db = Inr (v, d')" by (elim run_pairE) simp
  from clockOut_leaves_nothing_open [OF ok run] run c show "\<exists>v d'. clockOut later cashier 31 1 floor_db = Inr (v, d') \<and> tables_of_waiter 11 d' = []"
    by auto
  show "clockOut later cashier 31 1 drawer_db = Inl (Conflict ''drawerOpen'')" by code_simp
qed

text \<open>
  C14: a handover of the drawer conserves the cash. The counted cash leaves the old drawer, as safe
  drop and as float of the new one, so that the old drawer is left with exactly minus the variance;
  the incoming cashier, an active member of the branch with an account, the role of a cashier and
  the PIN that was typed, and without an open shift there, gets an open shift and a drawer that is
  expected to hold the float; every other drawer is unchanged.
\<close>

theorem handover_conserves_the_cash:
  assumes ok: "db_ok d" and run: "handover e c x d = Inr (res, d')"
    and cents: "cents (hd_counted x)" "cents (hd_float x)" and pos: "0 \<le> hd_float x"
    and fk: "\<forall>y \<in> set (cash_ledger d). \<forall>i. le_financialSession y = Some i \<longrightarrow> i \<in> fs_id ` set (financial_sessions d)"
  shows "\<exists>s f t g. open_shift (staff_of c) (branch_of c) d = Some s \<and> drawer_of_shift (sh_id s) d = Some f \<and>
     shift_sessions d' = update_id sh_id (sh_id s) (closed_shift (env_now e)) (shift_sessions d) @ [t] \<and>
     sh_staff t = hd_incoming x \<and> shift_open t \<and>
     (\<exists>m \<in> set (memberships d). mb_id m = hd_incoming x \<and> mb_tenantId m = tenant_of c \<and> mb_status m = ''ACTIVE'' \<and>
        branch_of c \<in> set (mb_branches m) \<and> mb_hasUser m \<and> ''CASHIER'' \<in> set (mb_roles m) \<and>
        (\<exists>h. mb_passwordHash m = Some h \<and> h \<noteq> [] \<and> env_pinOk e (trim (hd_pin x)) h)) \<and>
     open_shift (hd_incoming x) (branch_of c) d = None \<and>
     financial_sessions d' = update_id fs_id (fs_id f)
       (\<lambda>f. f\<lparr>fs_status := F_RECONCILED, fs_closedAt := Some (env_now e)\<rparr>) (financial_sessions d) @ [g] \<and>
     fs_cashier g = hd_incoming x \<and> fs_shiftSessionId g = sh_id t \<and> fs_status g = F_OPEN \<and>
     hr_safeDrop res + hr_float res = hr_counted res \<and>
     liveExpectedCash g d' = hd_float x \<and> liveExpectedCash f d' = liveExpectedCash f d - hd_counted x \<and>
     (\<forall>h \<in> set (financial_sessions d). fs_id h \<noteq> fs_id f \<longrightarrow> liveExpectedCash h d' = liveExpectedCash h d)"
proof (rule handover_effect [OF run])
  fix s f m
  assume s: "open_shift (staff_of c) (branch_of c) d = Some s" and f: "drawer_of_shift (sh_id s) d = Some f"
    and m: "check_incoming e c ''CASHIER'' (hd_incoming x) (hd_pin x) d = Inr m" and le: "hd_float x \<le> hd_counted x"
    and free: "open_shift (mb_id m) (branch_of c) d = None"
    and d': "d' = handoverTx e c s f m x (liveExpectedCash f d) d" and ok': "db_ok d'"
    and res: "res = \<lparr>hr_counted = money (hd_counted x), hr_expected = money (liveExpectedCash f d),
       hr_variance = money (hd_counted x - liveExpectedCash f d), hr_float = money (hd_float x),
       hr_safeDrop = money (hd_counted x - hd_float x), hr_at = env_now e,
       hr_status = (if hd_counted x - liveExpectedCash f d = 0 then ''COMPLETED'' else ''DISCREPANCY_SUBMITTED'')\<rparr>"
  have cd: "cents (hd_counted x - hd_float x)" using cents by auto
  note r = round_scaled [OF cents(1)] round_scaled [OF cents(2)] round_scaled [OF cd]
  obtain xs i where led: "cash_ledger d' = cash_ledger d @ xs"
    and sum: "\<And>g. sum_list (map (counts_for g) xs) = (if g = fs_id f then - hd_counted x else 0)"
    and sh: "shift_sessions d' = update_id sh_id (sh_id s) (closed_shift (env_now e)) (shift_sessions d) @ [incoming_shift c m (env_now e) i]"
    and fs: "financial_sessions d' = update_id fs_id (fs_id f) (\<lambda>f. f\<lparr>fs_status := F_RECONCILED, fs_closedAt := Some (env_now e)\<rparr>)
        (financial_sessions d) @ [incoming_drawer c m (hd_float x) (env_now e) i (i + 1)]"
  proof (rule handoverTx_effect [of e c s f m x "liveExpectedCash f d" d, folded d'], goal_cases)
    case (1 xs i)
    from 1(3) le pos have "sum_list (map (counts_for g) xs) = (if g = fs_id f then - hd_counted x else 0)" for g
      by (simp add: r)
    with 1 show thesis by blast
  qed
  let ?g = "incoming_drawer c m (hd_float x) (env_now e) i (i + 1)"
  have "i + 1 \<notin> fs_id ` set (financial_sessions d)"
    using db_okD(24) [OF ok'] by (simp add: keyed_def fs map_update_id incoming_drawer_def)
  with fk have "\<forall>y \<in> set (cash_ledger d). counts_for (i + 1) y = 0" by (auto simp: counts_for_def)
  then have "sum_list (map (counts_for (i + 1)) (cash_ledger d)) = 0" by (simp add: sum_list_0 cong: map_cong)
  moreover from f have "f \<in> set (financial_sessions d)" by (auto simp: drawer_of_shift_def dest: row_by_SomeD)
  with \<open>i + 1 \<notin> _\<close> have "fs_id f \<noteq> i + 1" by force
  ultimately have "liveExpectedCash ?g d' = hd_float x"
    unfolding live_append [OF led] sum by (simp add: live_sum incoming_drawer_def r)
  moreover have mi: "mb_id m = hd_incoming x" using check_incoming_Inr [OF m] by simp
  moreover have "\<exists>m \<in> set (memberships d). mb_id m = hd_incoming x \<and> mb_tenantId m = tenant_of c \<and> mb_status m = ''ACTIVE'' \<and>
        branch_of c \<in> set (mb_branches m) \<and> mb_hasUser m \<and> ''CASHIER'' \<in> set (mb_roles m) \<and>
        (\<exists>h. mb_passwordHash m = Some h \<and> h \<noteq> [] \<and> env_pinOk e (trim (hd_pin x)) h)"
    by (rule check_incoming_staff [OF m])
  moreover have "open_shift (hd_incoming x) (branch_of c) d = None" using free by (simp add: mi)
  ultimately show ?thesis
    using s f sh fs live_append [OF led] sum
    by (intro exI [of _ s] exI [of _ f] exI [of _ "incoming_shift c m (env_now e) i"] exI [of _ ?g])
      (simp add: res money_def r incoming_shift_def incoming_drawer_def shift_open_def)
qed

lemma waiterHandoverTx_new_shift:
  assumes ok: "db_ok d" and n: "open_shift (mb_id m) (branch_of c) d = None"
  shows "map sh_id (shift_sessions (waiterHandoverTx e c s m amount d)) =
     map sh_id (shift_sessions d @ [incoming_shift c m (env_now e) (next_id d)])"
proof -
  let ?t = "incoming_shift c m (env_now e) (next_id d)"
  let ?d1 = "d\<lparr>shift_sessions := shift_sessions d @ [?t], next_id := next_id d + 1\<rparr>"
  have "primary_key ts_id (table_sessions ?d1)" using db_okD(1) [OF ok] by simp
  note h = hand_tables_effect(4) [OF this]
  have mc: "shift_sessions (move_cash c s u i amount y) = shift_sessions y" for u i y
    by (simp add: move_cash_def apply_if_def)
  have "waiterHandoverTx e c s m amount d = audit ''WAITER_SHIFT_HANDOVER'' (sh_id s) (Some (ax_userId c))
       (close_shift (sh_id s) (env_now e) (move_cash c s ?t (mb_id m) amount (hand_tables c (mb_id m) (sh_id ?t) (env_now e) ?d1)))"
    by (simp add: waiterHandoverTx_def incoming_target_def n)
  moreover have "sh_id (closed_shift now x) = sh_id x" for now x by (simp add: closed_shift_def)
  ultimately show ?thesis by (simp only: audit_frame close_shift_frame mc h map_update_id) simp
qed

definition counted_195 :: handover_dto where
  "counted_195 = \<lparr>hd_expectedVersion = 1, hd_counted = 195, hd_float = 50, hd_incoming = 15, hd_pin = ''1234'', hd_notes = None\<rparr>"

theorem handover_conserves_the_cash_witness:
  "\<exists>res d' f. handover later cashier counted_195 staffed_db = Inr (res, d') \<and> drawer_of_shift 31 staffed_db = Some f \<and>
     liveExpectedCash f d' = 5"
proof -
  have ok: "db_ok staffed_db" by code_simp
  have "bindR (handover later cashier counted_195 staffed_db) (\<lambda>(res, d'). Inr (hr_variance res)) = Inr (- 5)" by code_simp
  then obtain res d' where run: "handover later cashier counted_195 staffed_db = Inr (res, d')" by (elim run_pairE) simp
  have cents: "cents (hd_counted counted_195)" "cents (hd_float counted_195)" and pos: "0 \<le> hd_float counted_195"
    and x: "hd_counted counted_195 = 195" by code_simp+
  have led: "cash_ledger staffed_db = receive_entries cashier drop_72 200 74 75" "financial_sessions staffed_db = [drawer_74]"
    by (simp_all add: staffed_db_def drawer_db_def)
  then have fk: "\<forall>y \<in> set (cash_ledger staffed_db). \<forall>i. le_financialSession y = Some i \<longrightarrow> i \<in> fs_id ` set (financial_sessions staffed_db)"
    by (simp add: receive_entries_def drawer_74_def new_drawer_def)
  have os: "map_option sh_id (open_shift (staff_of cashier) (branch_of cashier) staffed_db) = Some 31"
    and dr: "drawer_of_shift 31 staffed_db = Some drawer_74" and live: "liveExpectedCash drawer_74 staffed_db = 200" by code_simp+
  from handover_conserves_the_cash [OF ok run cents pos fk] os dr live x run show ?thesis by auto
qed

text \<open>
  C37: a waiter's handover moves every open table of the waiter, and exactly those, to the colleague's
  open shift, and the cash from one pouch to the other: what the outgoing shift loses the incoming
  one gains, no more than the outgoing pouch held, and no other pouch changes. The outgoing shift
  is closed.
\<close>

theorem waiterHandover_moves_tables_and_cash:
  assumes ok: "db_ok d" and run: "waiterHandover e c x d = Inr (res, d')" and cents: "cents (wh_cash x)"
  shows "\<exists>s t. open_shift (staff_of c) (branch_of c) d = Some s \<and> t \<in> set (shift_sessions d') \<and> shift_open t \<and>
     sh_staff t = wh_incoming x \<and> sh_id t \<noteq> sh_id s \<and>
     row_by sh_id (sh_id s) (shift_sessions d') = Some (closed_shift (env_now e) s) \<and>
     table_sessions d' = map (\<lambda>y. if ts_primaryWaiter y = staff_of c \<and> ts_open y
       then handed_table (wh_incoming x) (sh_id t) y else y) (table_sessions d) \<and> tables_of_waiter (staff_of c) d' = [] \<and>
     (\<forall>b m. undropped b m (sh_id s) d' = undropped b m (sh_id s) d - wh_cash x \<and>
        undropped b m (sh_id t) d' = undropped b m (sh_id t) d + wh_cash x \<and>
        (\<forall>sh. sh \<noteq> sh_id s \<and> sh \<noteq> sh_id t \<longrightarrow> undropped b m sh d' = undropped b m sh d)) \<and>
     (0 < wh_cash x \<longrightarrow> 0 \<le> undropped (branch_of c) (staff_of c) (sh_id s) d')"
proof (rule waiterHandover_effect [OF run])
  fix s m
  assume s: "open_shift (staff_of c) (branch_of c) d = Some s" and m: "check_incoming e c ''WAITER'' (wh_incoming x) (wh_pin x) d = Inr m"
    and ne: "wh_incoming x \<noteq> staff_of c" and pos: "0 \<le> wh_cash x"
    and le: "0 < wh_cash x \<Longrightarrow> wh_cash x \<le> max (undropped (branch_of c) (staff_of c) (sh_id s) d) 0"
    and d': "d' = waiterHandoverTx e c s m (wh_cash x) d" and ok': "db_ok d'"
  let ?t = "target_shift c m (env_now e) d"
  have mid: "mb_id m = wh_incoming x" using check_incoming_Inr [OF m] by simp
  have dist: "distinct (map sh_id (shift_sessions d))" using db_okD(26) [OF ok] by (simp add: keyed_def)
  note sd = open_shift_SomeD [OF s]
  have ts: "sh_staff ?t = wh_incoming x" "shift_open ?t"
    using mid by (auto simp: target_shift_def incoming_shift_def shift_open_def split: option.splits dest!: open_shift_SomeD)
  have nid: "sh_id s \<noteq> sh_id ?t"
  proof (cases "open_shift (mb_id m) (branch_of c) d")
    case (Some y)
    with sd dist ts ne open_shift_SomeD [OF Some] show ?thesis
      by (simp add: target_shift_def) (metis row_by_distinct option.inject)
  next
    case None
    show ?thesis
    proof
      assume eq: "sh_id s = sh_id ?t"
      have "distinct (map sh_id (shift_sessions d'))" using db_okD(26) [OF ok'] by (simp add: keyed_def)
      moreover have "map sh_id (shift_sessions d') = map sh_id (shift_sessions d @ [?t])"
        unfolding d' using waiterHandoverTx_new_shift [OF ok None] by (simp add: target_shift_def None)
      ultimately have "sh_id s \<notin> sh_id ` set (shift_sessions d)" by (simp add: eq)
      with sd show False by blast
    qed
  qed
  note w = waiterHandoverTx_effect [OF ok pos nid, folded d']
  then obtain xs where led: "cash_ledger d' = cash_ledger d @ xs"
    and sum: "\<And>sh. sum_list (map (handed sh) xs) = (if sh = sh_id ?t then wh_cash x else if sh = sh_id s then - wh_cash x else 0)"
    by (auto simp: round_scaled [OF cents])
  have und: "undropped b mm sh d' = undropped b mm sh d + (if sh = sh_id ?t then wh_cash x else if sh = sh_id s then - wh_cash x else 0)"
    for b mm sh using undropped_handed [OF _ _ led, of b mm sh] w sum by simp
  have row: "row_by sh_id (sh_id s) (shift_sessions d) = Some s" using row_by_distinct [OF dist] sd by simp
  then have "row_by sh_id (sh_id s) (shift_sessions d') = Some (closed_shift (env_now e) s)"
    using w by (simp add: row_by_update_id closed_shift_def row_by_append)
  moreover have "?t \<in> set (shift_sessions d')"
  proof -
    have "?t \<in> set (if open_shift (mb_id m) (branch_of c) d = None then shift_sessions d @ [?t] else shift_sessions d)"
      by (auto simp: target_shift_def split: option.splits dest: open_shift_SomeD)
    with nid w show ?thesis by (auto simp: update_id_def update_many_def)
  qed
  moreover have "tables_of_waiter (staff_of c) d' = []"
    using w ne mid by (auto simp: tables_of_waiter_def filter_empty_conv handed_table_def)
  moreover have "table_sessions d' = map (\<lambda>y. if ts_primaryWaiter y = staff_of c \<and> ts_open y
       then handed_table (wh_incoming x) (sh_id ?t) y else y) (table_sessions d)" using w mid by simp
  moreover have "0 < wh_cash x \<longrightarrow> 0 \<le> undropped (branch_of c) (staff_of c) (sh_id s) d'"
    using le nid und by (auto simp: max_def split: if_splits)
  moreover have "\<forall>b m. undropped b m (sh_id s) d' = undropped b m (sh_id s) d - wh_cash x \<and>
        undropped b m (sh_id ?t) d' = undropped b m (sh_id ?t) d + wh_cash x \<and>
        (\<forall>sh. sh \<noteq> sh_id s \<and> sh \<noteq> sh_id ?t \<longrightarrow> undropped b m sh d' = undropped b m sh d)"
    using nid by (simp add: und)
  ultimately show ?thesis using s ts nid by (intro exI [of _ s] exI [of _ ?t] conjI) (assumption | simp)+
qed

definition leaving :: waiter_handover_dto where
  "leaving = \<lparr>wh_expectedVersion = 1, wh_cash = 25, wh_incoming = 14, wh_pin = ''1234''\<rparr>"

theorem waiterHandover_moves_tables_and_cash_witness:
  "\<exists>res d'. waiterHandover later waiter leaving staffed_db = Inr (res, d') \<and> tables_of_waiter 10 d' = [] \<and>
     undropped 2 10 30 d' = undropped 2 10 30 staffed_db - 25"
proof -
  have ok: "db_ok staffed_db" by code_simp
  have "bindR (waiterHandover later waiter leaving staffed_db) (\<lambda>(res, d'). Inr (wr_tables res)) = Inr 1" by code_simp
  then obtain res d' where run: "waiterHandover later waiter leaving staffed_db = Inr (res, d')" by (elim run_pairE) simp
  have cents: "cents (wh_cash leaving)" and x: "wh_cash leaving = 25"
    and os: "map_option sh_id (open_shift (staff_of waiter) (branch_of waiter) staffed_db) = Some 30" and w: "staff_of waiter = 10" by code_simp+
  from waiterHandover_moves_tables_and_cash [OF ok run cents] os x w run show ?thesis by auto
qed

section \<open>Forced closings that cannot commit\<close>

lemma commit_refuses:
  assumes "x \<in> set (cash_ledger d)" and "\<not> List.member storable_entry_types (le_entryType x) \<or> \<not> List.member storable_source_types (le_sourceType x)"
  shows "\<not> is_ok (commit d)"
  using assms db_okD(21,22) [of d x] by (auto simp: is_ok_iff commit_eq_Inr)

lemma force_tables_ledger: "cash_ledger (force_tables c s target close reason now d) = cash_ledger d"
proof -
  have "cash_ledger (fold (reassign_table m sh) ts d) = cash_ledger d" for m sh ts d
    by (induction ts arbitrary: d) (simp_all add: reassign_table_def)
  moreover have "cash_ledger (fold (force_close_table c reason now) ts d) = cash_ledger d" for ts d
    by (induction ts arbitrary: d) (simp_all add: force_close_table_def)
  ultimately show ?thesis by (simp add: force_tables_def split: option.splits prod.splits)
qed

text \<open>
  A forced clock-out with cash in the pouch never succeeds when the manager chooses what to do
  with the cash: the entry types it books are not admitted by the check constraint on the ledger.
\<close>

lemma forced_cash_handling_always_fails:
  assumes "0 < amount" and "fo_cash x \<noteq> NO_HANDLING"
  shows "\<not> is_ok (forceOutTx e c s target x amount d)"
proof -
  let ?d = "close_shift (sh_id s) (env_now e) (handle_cash c s (fo_cash x) amount (env_now e)
     (force_tables c s target (fo_closeTables x) (fo_reason x) (env_now e) d))"
  have "\<exists>y \<in> set (cash_ledger ?d). \<not> List.member storable_entry_types (le_entryType y)"
    using assms by (cases "fo_cash x") (auto simp: handle_cash_def Let_def waiter_entry_def storable_entry_types_def)
  then have "\<not> is_ok (commit ?d)" using commit_refuses by blast
  then show ?thesis by (auto simp: forceOutTx_def Let_def is_ok_iff inversion)
qed

text \<open>
  A manager's forced close of a drawer never succeeds when it deposits the counted cash, which is
  the default: the source of the ledger entry is not admitted either.
\<close>

lemma forced_deposit_always_fails:
  assumes "deposit" and "0 < counted"
  shows "\<not> is_ok (commit (forceCloseTx e c s f x expected counted deposit d))"
proof -
  have "\<exists>y \<in> set (cash_ledger (forceCloseTx e c s f x expected counted deposit d)). le_sourceType y = ''MANAGER_FORCE_CLOSE''"
    using assms by (simp add: forceCloseTx_def Let_def apply_if_def drawer_entry_def)
  then show ?thesis using commit_refuses by (auto simp: storable_source_types_def)
qed

text \<open>
  A manager's forced closings with cash never succeed. A forced clock-out of a shift whose
  pouch is not empty fails for every way of handling the cash but leaving it, and the forced close
  of a drawer that is counted to hold cash fails unless the deposit to the safe is declined.
\<close>

theorem forced_closings_with_cash_fail:
  "(\<forall>x s. find (\<lambda>s. sh_id s = fo_shift x \<and> sh_branchId s = branch_of c) (shift_sessions d) = Some s \<and>
      0 < undropped (branch_of c) (sh_staff s) (sh_id s) d \<and> fo_cash x \<noteq> NO_HANDLING \<longrightarrow> \<not> is_ok (managerForceClockOut e c x d)) \<and>
   (\<forall>x s f. find (\<lambda>s. sh_id s = fc_shift x \<and> sh_branchId s = branch_of c) (shift_sessions d) = Some s \<and>
      drawer_to_close c s d = Some f \<and> fc_deposit x \<noteq> Some False \<and>
      0 < (case fc_counted x of Some n \<Rightarrow> n | None \<Rightarrow> liveExpectedCash f d) \<longrightarrow>
      \<not> is_ok (managerForceCloseCashierDrawer e c x d))"
proof (intro conjI allI impI; elim conjE)
  fix x :: force_out_dto and s
  assume s: "find (\<lambda>s. sh_id s = fo_shift x \<and> sh_branchId s = branch_of c) (shift_sessions d) = Some s"
    and "0 < undropped (branch_of c) (sh_staff s) (sh_id s) d" and "fo_cash x \<noteq> NO_HANDLING"
  then have "\<not> is_ok (forceOutTx e c s target x (calculateWaiterUndroppedCash (branch_of c) (sh_staff s) (sh_id s) d) d)" for target
    by (intro forced_cash_handling_always_fails) (simp_all add: calculateWaiterUndroppedCash_def)
  with s show "\<not> is_ok (managerForceClockOut e c x d)"
    by (auto simp: managerForceClockOut_def Let_def is_ok_iff inversion)
next
  fix x :: force_close_dto and s f
  assume s: "find (\<lambda>s. sh_id s = fc_shift x \<and> sh_branchId s = branch_of c) (shift_sessions d) = Some s"
    and f: "drawer_to_close c s d = Some f" and "fc_deposit x \<noteq> Some False"
    and "0 < (case fc_counted x of Some n \<Rightarrow> n | None \<Rightarrow> liveExpectedCash f d)"
  then have "\<not> is_ok (commit (forceCloseTx e c s f x (liveExpectedCash f d)
      (case fc_counted x of Some n \<Rightarrow> n | None \<Rightarrow> liveExpectedCash f d) (fc_deposit x \<noteq> Some False) d))"
    by (intro forced_deposit_always_fails) simp_all
  with s f show "\<not> is_ok (managerForceCloseCashierDrawer e c x d)"
    by (auto simp: managerForceCloseCashierDrawer_def Let_def is_ok_iff inversion)
qed

definition supervisor :: auth_ctx where
  "supervisor = staff_member 103 13 ''MANAGER'' None 33 [''shift.manage'']"

definition out_30 :: force_out_dto where
  "out_30 = \<lparr>fo_shift = 30, fo_reason = ''left'', fo_reassign = None, fo_closeTables = True, fo_cash = DROP_TO_SAFE\<rparr>"

theorem forced_closings_with_cash_fail_witness:
  "\<not> is_ok (managerForceClockOut later supervisor out_30 staffed_db) \<and>
   is_ok (managerForceClockOut later supervisor (out_30\<lparr>fo_cash := NO_HANDLING\<rparr>) staffed_db)"
proof
  have "find (\<lambda>s. sh_id s = fo_shift out_30 \<and> sh_branchId s = branch_of supervisor) (shift_sessions staffed_db) =
      Some (shift_of_staff 30 10 ''WAITER'')" by code_simp
  moreover have "0 < undropped (branch_of supervisor) (sh_staff (shift_of_staff 30 10 ''WAITER'')) (sh_id (shift_of_staff 30 10 ''WAITER'')) staffed_db"
    and "fo_cash out_30 \<noteq> NO_HANDLING" by code_simp+
  ultimately show "\<not> is_ok (managerForceClockOut later supervisor out_30 staffed_db)"
    using forced_closings_with_cash_fail [of supervisor staffed_db later] by blast
  show "is_ok (managerForceClockOut later supervisor (out_30\<lparr>fo_cash := NO_HANDLING\<rparr>) staffed_db)" by code_simp
qed

end
