(* ===== verification/Constraints.thy ===== *)
theory Constraints
  imports Idempotency
begin

text \<open>
  How writes keep the constraints of the database: an update that changes no key and makes no
  row subject to a partial index, and a command that stores its response under a new key.
\<close>

lemma keyed_update_many:
  assumes "keyed P key rs" and "\<And>r. r \<in> set rs \<Longrightarrow> Q r \<Longrightarrow> P (f r) \<Longrightarrow> P r \<and> key (f r) = key r"
  shows "keyed P key (update_many Q f rs)"
  using assms
proof (induction rs)
  case Nil
  then show ?case by (simp add: update_many_def keyed_def)
next
  case (Cons x xs)
  have sub: "key ` set (filter P (update_many Q f xs)) \<subseteq> key ` set (filter P xs)"
    using Cons.prems(2) by (fastforce simp: update_many_def image_iff)
  from Cons have ih: "keyed P key (update_many Q f xs)" by (auto simp: keyed_def split: if_splits)
  have x: "P (f x) \<Longrightarrow> Q x \<Longrightarrow> P x \<and> key (f x) = key x" using Cons.prems(2) [of x] by simp
  from Cons.prems(1) have nx: "P x \<Longrightarrow> key x \<notin> key ` set (filter P xs)" by (simp add: keyed_def)
  show ?case using ih sub x nx by (auto simp: keyed_def update_many_def)
qed

lemma keyed_update_id:
  assumes "keyed P key rs" and "\<And>r. r \<in> set rs \<Longrightarrow> k r = i \<Longrightarrow> P (f r) \<Longrightarrow> P r \<and> key (f r) = key r"
  shows "keyed P key (update_id k i f rs)"
  unfolding update_id_def by (rule keyed_update_many [OF assms(1)]) (rule assms(2))

lemma keyed_append_one:
  "keyed P key (rs @ [r]) \<longleftrightarrow> keyed P key rs \<and> (P r \<longrightarrow> key r \<notin> key ` set (filter P rs))"
  by (auto simp: keyed_def)

lemma list_all_update_many:
  "list_all R rs \<Longrightarrow> (\<And>r. r \<in> set rs \<Longrightarrow> Q r \<Longrightarrow> R r \<Longrightarrow> R (f r)) \<Longrightarrow> list_all R (update_many Q f rs)"
  by (auto simp: list_all_iff update_many_def)

lemma list_all_update_id:
  "list_all R rs \<Longrightarrow> (\<And>r. r \<in> set rs \<Longrightarrow> k r = i \<Longrightarrow> R r \<Longrightarrow> R (f r)) \<Longrightarrow> list_all R (update_id k i f rs)"
  unfolding update_id_def by (rule list_all_update_many)

lemma billed_items_update_many:
  assumes "\<And>b. bl_lines (f b) = bl_lines b"
  shows "billed_items (update_many Q f bs) = billed_items bs"
  using assms by (induction bs) (auto simp: billed_items_def update_many_def)

text \<open>A state that differs in the idempotency table only, by a response stored under its key.\<close>

lemma idempotency_keys_store:
  assumes "primary_key (\<lambda>r. (ik_tenantId r, ik_actorUser r, ik_command r, ik_key r)) (idempotency d)"
  shows "primary_key (\<lambda>r. (ik_tenantId r, ik_actorUser r, ik_command r, ik_key r))
     (idempotency (storeIdempotent h i k b r d))"
proof (cases "row_by row_key k (idempotency d)")
  case None
  then have "\<forall>x \<in> set (idempotency d). row_key x \<noteq> k" by (auto simp: row_by_None_iff)
  then have "(ck_tenant k, ck_actor k, ck_command k, ck_key k) \<notin>
      (\<lambda>r. (ik_tenantId r, ik_actorUser r, ik_command r, ik_key r)) ` set (idempotency d)"
    by (cases k) (auto simp: row_key_def)
  with None assms show ?thesis by (simp add: storeIdempotent_def keyed_append_one)
next
  case (Some x)
  with assms show ?thesis
    by (auto simp: storeIdempotent_def intro!: keyed_update_id)
qed

lemma storeIdempotent_tables [simp]:
  "hotel_rooms (storeIdempotent h i k b r d) = hotel_rooms d"
  "room_stays (storeIdempotent h i k b r d) = room_stays d"
  "meal_entitlements (storeIdempotent h i k b r d) = meal_entitlements d"
  "room_coverages (storeIdempotent h i k b r d) = room_coverages d"
  "transfers (storeIdempotent h i k b r d) = transfers d"
  "supply_requests (storeIdempotent h i k b r d) = supply_requests d"
  by (simp_all add: storeIdempotent_def split: option.splits)

lemma db_ok_store [simp]: "db_ok d \<Longrightarrow> db_ok (storeIdempotent h i k b r d)"
  using idempotency_keys_store [of d h i k b r]
  by (simp add: db_ok_def db_constraints_def)

end
