(* ===== verification/Floor.thy ===== *)
theory Floor
  imports Seating Scenario Constraints
begin

text \<open>
  Sessions at tables (\<open>src/floor/floor.service.ts\<close>): opening a table by the waiter who covers
  it, reading, closing and force-closing a session, and the monitor that warns once about
  sessions without activity (\<open>src/floor/session-idle-monitor.service.ts\<close>). The code that
  decides on a coverage reads day and minute off the server's own clock.
\<close>

section \<open>Who covers a table\<close>

definition server_days :: "string list" where
  "server_days = [''Sun'', ''Mon'', ''Tue'', ''Wed'', ''Thu'', ''Fri'', ''Sat'']"

text \<open>\<open>now.getDay()\<close> and \<open>now.getHours() * 60 + now.getMinutes()\<close>; 1970-01-01 was a Thursday.\<close>

definition server_day_code :: "env \<Rightarrow> string" where
  "server_day_code e = server_days ! nat (((env_now e + env_tzOffset e) div ms_per_day + 4) mod 7)"

definition server_minutes :: "env \<Rightarrow> nat" where
  "server_minutes e = nat (((env_now e + env_tzOffset e) mod ms_per_day) div 60000)"

definition in_window :: "nat \<Rightarrow> shift_definition \<Rightarrow> bool" where
  "in_window m f = (if df_start f \<le> df_end f then df_start f \<le> m \<and> m < df_end f
     else df_start f \<le> m \<or> m < df_end f)"

definition assigned_definition :: "auth_ctx \<Rightarrow> db \<Rightarrow> id option" where
  "assigned_definition c d =
     Option.bind (ax_shiftSessionId c) (\<lambda>i.
     Option.bind (find (\<lambda>s. sh_id s = i \<and> sh_branchId s = branch_of c) (shift_sessions d)) (\<lambda>s.
     Option.bind (sh_assignment s) (\<lambda>a.
     Option.bind (row_by sa_id a (shift_assignments d)) sa_definition)))"

definition resolveActiveShiftDefinitionId :: "env \<Rightarrow> auth_ctx \<Rightarrow> db \<Rightarrow> id option" where
  "resolveActiveShiftDefinitionId e c d =
     (case assigned_definition c d of
        Some f \<Rightarrow> Some f
      | None \<Rightarrow>
          let defs = sort_key df_start
                (filter (\<lambda>f. df_branchId f = branch_of c \<and> df_status f = ''ACTIVE'') (shift_definitions d))
          in (case find (in_window (server_minutes e)) defs of
                Some f \<Rightarrow> Some (df_id f)
              | None \<Rightarrow> (case defs of [] \<Rightarrow> None | f # _ \<Rightarrow> Some (df_id f))))"

definition coverage_of :: "env \<Rightarrow> auth_ctx \<Rightarrow> id \<Rightarrow> db \<Rightarrow> table_coverage option" where
  "coverage_of e c table d =
     Option.bind (resolveActiveShiftDefinitionId e c d) (\<lambda>f.
       find (\<lambda>r. tc_tableId r = table \<and> tc_definition r = f \<and> tc_dayCode r = server_day_code e)
         (table_coverages d))"

definition canWaiterOpenTable :: "env \<Rightarrow> auth_ctx \<Rightarrow> dining_table \<Rightarrow> db \<Rightarrow> bool" where
  "canWaiterOpenTable e c t d =
     (case coverage_of e c (dt_id t) d of
        Some r \<Rightarrow> Some (tc_waiter r) = ax_staffMembershipId c
      | None \<Rightarrow> dt_assignedWaiter t \<noteq> None \<and> dt_assignedWaiter t = ax_staffMembershipId c)"

definition requireFloorWaiter :: "env \<Rightarrow> auth_ctx \<Rightarrow> auth_ctx result" where
  "requireFloorWaiter e c =
     bindR (requireBranch c) (\<lambda>c.
       if \<not> List.member shift_owner_roles (ax_roleCode c)
       then Inl (Forbidden ''Only a waiter can take a table.'')
       else bindR (assertCan e c Act_manage Sub_Table ''Only a waiter can take a table.'') (\<lambda>_. onShift c))"

lemma requireFloorWaiter_eq_Inr [inversion]:
  "requireFloorWaiter e c = Inr c' \<longleftrightarrow> c' = c \<and> ax_tenantId c \<noteq> None \<and> ax_branchId c \<noteq> None \<and>
     ax_roleCode c \<in> {''WAITER'', ''DISPATCHER''} \<and> can e c Act_manage Sub_Table \<and>
     ax_staffMembershipId c \<noteq> None \<and> ax_shiftSessionId c \<noteq> None"
  by (auto simp: requireFloorWaiter_def inversion shift_owner_roles_def)

section \<open>Responses\<close>

definition toSessionDto :: "table_session \<Rightarrow> id option \<Rightarrow> session_dto" where
  "toSessionDto s m = \<lparr>sd_tableSessionId = ts_id s, sd_tableId = ts_tableId s, sd_status = ts_status s,
     sd_sessionKind = ts_sessionKind s, sd_customerName = ts_customerName s,
     sd_customerPhone = ts_customerPhone s, sd_primaryWaiter = ts_primaryWaiter s,
     sd_guestCount = ts_guestCount s, sd_openedAt = ts_openedAt s, sd_closedAt = ts_closedAt s,
     sd_businessDate = ts_businessDate s, sd_version = ts_version s, sd_mine = Some (ts_primaryWaiter s) = m\<rparr>"

definition getSession :: "auth_ctx \<Rightarrow> id \<Rightarrow> db \<Rightarrow> session_dto result" where
  "getSession c sid d =
     bindR (requireBranch c) (\<lambda>c.
       case find (\<lambda>s. ts_id s = sid \<and> ts_branchId s = branch_of c) (table_sessions d) of
         None \<Rightarrow> Inl (NotFound ''Table session not found.'')
       | Some s \<Rightarrow> Inr (toSessionDto s (ax_staffMembershipId c)))"

section \<open>Opening a table\<close>

definition call_pickup :: string where
  "call_pickup = ''CALL_PICKUP''"

definition is_call_pickup :: "start_session_dto \<Rightarrow> dining_table \<Rightarrow> bool" where
  "is_call_pickup dto t \<longleftrightarrow> sg_callPickup dto \<or> dt_locationCode t = call_pickup"

definition checkOpener :: "env \<Rightarrow> auth_ctx \<Rightarrow> start_session_dto \<Rightarrow> dining_table \<Rightarrow> db \<Rightarrow> unit result" where
  "checkOpener e c dto t d =
     (if is_call_pickup dto t then
        (if ax_roleCode c \<noteq> ''DISPATCHER'' then Inl (Forbidden ''Only a dispatcher can open call pickup.'')
         else Inr ())
      else if ax_roleCode c = ''DISPATCHER''
        then Inl (Forbidden ''Dispatchers only open call pickup slots.'')
      else if \<not> canWaiterOpenTable e c t d then Inl (Forbidden ''TABLE_NOT_ASSIGNED'')
      else Inr ())"

definition blank_to_none :: "string option \<Rightarrow> string option" where
  "blank_to_none s = (case s of None \<Rightarrow> None | Some x \<Rightarrow> if trim x = [] then None else Some (trim x))"

definition session_row :: "env \<Rightarrow> auth_ctx \<Rightarrow> start_session_dto \<Rightarrow> dining_table \<Rightarrow> id \<Rightarrow> table_session" where
  "session_row e c dto t i = \<lparr>ts_id = i, ts_branchId = branch_of c, ts_tableId = dt_id t,
     ts_businessDate = businessDateUtc (env_now e), ts_primaryWaiter = staff_of c,
     ts_primaryShift = shift_of c,
     ts_sessionKind = (if is_call_pickup dto t then CALL_PICKUP else DINE_IN),
     ts_customerName = (if is_call_pickup dto t then blank_to_none (sg_customerName dto) else None),
     ts_customerPhone = (if is_call_pickup dto t then blank_to_none (sg_customerPhone dto) else None),
     ts_guestCount = sg_guestCount dto, ts_status = S_OPEN, ts_openedAt = env_now e,
     ts_billRequestedAt = None, ts_closedAt = None, ts_closedBy = None, ts_closeReason = None,
     ts_idleAlertAt = None, ts_version = 1\<rparr>"

definition set_table :: "id \<Rightarrow> string \<Rightarrow> db \<Rightarrow> db" where
  "set_table i st d = d\<lparr>dining_tables :=
     update_id dt_id i (\<lambda>t. t\<lparr>dt_status := st, dt_version := dt_version t + 1\<rparr>) (dining_tables d)\<rparr>"

text \<open>A violated unique index (Prisma's P2002) is told by the name of the constraint.\<close>

definition unique_violation :: "err \<Rightarrow> bool" where
  "unique_violation x = (case x of
     DbError n \<Rightarrow> take 3 n = ''uq_'' \<or> drop (length n - 4) n = ''_key'' \<or> drop (length n - 5) n = ''_pkey''
   | _ \<Rightarrow> False)"

definition startTx ::
  "env \<Rightarrow> auth_ctx \<Rightarrow> command_key \<Rightarrow> start_session_dto \<Rightarrow> dining_table \<Rightarrow> db \<Rightarrow> (response \<times> db) result" where
  "startTx e c k dto t d =
     (let i = next_id d; s = session_row e c dto t i;
          d1 = d\<lparr>table_sessions := table_sessions d @ [s],
                 table_assignments := table_assignments d @
                   [\<lparr>ta_id = i + 1, ta_tableSessionId = i, ta_waiter = staff_of c, ta_shift = shift_of c,
                     ta_assignedBy = ax_staffMembershipId c, ta_reason = Some ''Opened table'',
                     ta_releasedAt = None\<rparr>],
                 next_id := i + 2\<rparr>;
          d2 = set_table (dt_id t) ''OCCUPIED'' d1;
          payload = Res_Session (toSessionDto s (ax_staffMembershipId c))
      in bindR (commit (storeIdempotent (env_hash e) i k (Req_StartSession dto) payload d2)) (\<lambda>d3.
           Inr (payload, d3)))"

definition startBody ::
  "env \<Rightarrow> auth_ctx \<Rightarrow> command_key \<Rightarrow> start_session_dto \<Rightarrow> db \<Rightarrow> (response \<times> db) result" where
  "startBody e c k dto d =
     (case find (\<lambda>t. dt_id t = sg_tableId dto \<and> dt_branchId t = branch_of c \<and> dt_archivedAt t = None)
             (dining_tables d) of
        None \<Rightarrow> Inl (NotFound ''Table not found.'')
      | Some t \<Rightarrow>
          bindR (checkOpener e c dto t d) (\<lambda>_.
            if find (\<lambda>s. ts_tableId s = dt_id t \<and> ts_open s) (table_sessions d) \<noteq> None \<or>
               dt_status t = ''OCCUPIED''
            then Inl (Conflict ''TABLE_NOT_AVAILABLE'')
            else (case startTx e c k dto t d of
                Inl x \<Rightarrow> Inl (if unique_violation x then Conflict ''TABLE_NOT_AVAILABLE'' else x)
              | Inr r \<Rightarrow> Inr r)))"

definition start_command :: string where "start_command = ''table_session.start''"
definition close_command :: string where "close_command = ''table_session.close''"

definition startSession ::
  "env \<Rightarrow> auth_ctx \<Rightarrow> start_session_dto \<Rightarrow> string option \<Rightarrow> db \<Rightarrow> (response \<times> db) result" where
  "startSession e c dto key d =
     bindR (requireFloorWaiter e c) (\<lambda>c.
     bindR (requireIdempotencyKey key) (\<lambda>key.
       let k = command_key c start_command key
       in guarded_command e k (Req_StartSession dto) (startBody e c k dto) d))"

section \<open>Closing a table\<close>

definition live_session_items :: "id \<Rightarrow> db \<Rightarrow> order_item list" where
  "live_session_items sid d = filter (\<lambda>i. oi_tableSessionId i = Some sid \<and> chargeable i) (order_items d)"

definition release_assignments :: "id \<Rightarrow> time \<Rightarrow> db \<Rightarrow> db" where
  "release_assignments sid now d = d\<lparr>table_assignments :=
     update_many (\<lambda>a. ta_tableSessionId a = sid \<and> ta_releasedAt a = None)
       (\<lambda>a. a\<lparr>ta_releasedAt := Some now\<rparr>) (table_assignments d)\<rparr>"

definition close_paid_bills :: "id \<Rightarrow> id option \<Rightarrow> time \<Rightarrow> db \<Rightarrow> db" where
  "close_paid_bills sid m now d = d\<lparr>bills :=
     update_many (\<lambda>b. bl_tableSessionId b = Some sid \<and> bl_status b = B_PAID)
       (\<lambda>b. b\<lparr>bl_status := B_CLOSED, bl_closedAt := Some now, bl_closedBy := m,
              bl_version := bl_version b + 1\<rparr>) (bills d)\<rparr>"

definition closed_session :: "id option \<Rightarrow> time \<Rightarrow> string option \<Rightarrow> table_session \<Rightarrow> table_session" where
  "closed_session m now reason s =
     (case reason of
        None \<Rightarrow> s\<lparr>ts_status := S_CLOSED, ts_closedAt := Some now, ts_closedBy := m\<rparr>
      | Some r \<Rightarrow> s\<lparr>ts_status := S_CLOSED, ts_closedAt := Some now, ts_closedBy := m,
                    ts_closeReason := Some r\<rparr>)"

text \<open>The four writes both closings share; \<open>paid\<close> is their condition on the bills.\<close>

definition close_writes :: "auth_ctx \<Rightarrow> time \<Rightarrow> table_session \<Rightarrow> string option \<Rightarrow> bool \<Rightarrow> db \<Rightarrow> db" where
  "close_writes c now s reason paid d =
     (let d1 = bump_table (ts_id s) (closed_session (ax_staffMembershipId c) now reason) d;
          d2 = set_table (ts_tableId s) ''AVAILABLE'' d1;
          d3 = release_assignments (ts_id s) now d2
      in if paid then close_paid_bills (ts_id s) (ax_staffMembershipId c) now d3 else d3)"

definition closed_dto :: "auth_ctx \<Rightarrow> time \<Rightarrow> table_session \<Rightarrow> string option \<Rightarrow> session_dto" where
  "closed_dto c now s reason =
     toSessionDto ((closed_session (ax_staffMembershipId c) now reason s)\<lparr>ts_version := ts_version s + 1\<rparr>)
       (ax_staffMembershipId c)"

definition closeBody ::
  "env \<Rightarrow> auth_ctx \<Rightarrow> command_key \<Rightarrow> id \<Rightarrow> nat \<Rightarrow> db \<Rightarrow> (response \<times> db) result" where
  "closeBody e c k sid expected d =
     (case find (\<lambda>s. ts_id s = sid \<and> ts_branchId s = branch_of c) (table_sessions d) of
        None \<Rightarrow> Inl (NotFound ''Table session not found.'')
      | Some s \<Rightarrow>
          if \<not> (Some (ts_primaryWaiter s) = ax_staffMembershipId c \<or> can e c Act_manage Sub_Floor)
          then Inl (Forbidden ''You cannot close this table.'')
          else if ts_status s = S_CLOSED \<or> ts_closedAt s \<noteq> None then Inl (Unprocessable ''alreadyClosed'')
          else if ts_version s \<noteq> expected then Inl (StaleVersion (ts_version s))
          else
            let chargeable' = live_session_items sid d \<noteq> [];
                unpaidBusy = chargeable' \<and> ts_status s \<noteq> S_PAID \<and> ts_status s \<noteq> S_OPEN;
                unpaidOpenWithOrders = chargeable' \<and> ts_status s = S_OPEN
            in if unpaidBusy \<or> unpaidOpenWithOrders then Inl (Conflict ''TABLE_CLOSE_BLOCKED'')
               else
                 let payload = Res_Session (closed_dto c (env_now e) s None)
                 in bindR (commit (storeIdempotent (env_hash e) sid k (Req_CloseSession sid expected) payload
                      (close_writes c (env_now e) s None (ts_status s = S_PAID) d))) (\<lambda>d1.
                      Inr (payload, d1)))"

definition closeSession ::
  "env \<Rightarrow> auth_ctx \<Rightarrow> id \<Rightarrow> nat \<Rightarrow> string option \<Rightarrow> db \<Rightarrow> (response \<times> db) result" where
  "closeSession e c sid expected key d =
     bindR (requireBranch c) (\<lambda>c.
     bindR (requireIdempotencyKey key) (\<lambda>key.
       let k = command_key c close_command key
       in guarded_command e k (Req_CloseSession sid expected) (closeBody e c k sid expected) d))"

definition force_live_states :: "item_state list" where
  "force_live_states = [QUEUED, ACKNOWLEDGED, IN_PREPARATION, READY, CANNOT_PREPARE, SERVED]"

definition forceCloseSession ::
  "env \<Rightarrow> auth_ctx \<Rightarrow> id \<Rightarrow> nat \<Rightarrow> string \<Rightarrow> db \<Rightarrow> (session_dto \<times> db) result" where
  "forceCloseSession e c sid expected reason d =
     bindR (requireBranch c) (\<lambda>c.
     bindR (assertCan e c Act_manage Sub_Floor ''Only managers can force-close tables.'') (\<lambda>_.
       case find (\<lambda>s. ts_id s = sid \<and> ts_branchId s = branch_of c) (table_sessions d) of
         None \<Rightarrow> Inl (NotFound ''Table session not found.'')
       | Some s \<Rightarrow>
           if ts_status s = S_CLOSED \<or> ts_closedAt s \<noteq> None then Inl (Unprocessable ''alreadyClosed'')
           else if ts_version s \<noteq> expected then Inl (StaleVersion (ts_version s))
           else if filter (\<lambda>i. List.member force_live_states (oi_state i)) (live_session_items sid d) \<noteq> [] \<and>
             ts_status s \<noteq> S_PAID then Inl (Conflict ''TABLE_FORCE_CLOSE_BLOCKED'')
           else if List.member [S_BILL_REQUESTED, S_BILL_READY] (ts_status s) \<or>
             (ts_status s = S_ACTIVE_ORDER \<and> live_session_items sid d \<noteq> [])
             then Inl (Conflict ''TABLE_FORCE_CLOSE_UNPAID'')
           else
             bindR (commit (close_writes c (env_now e) s (Some (trim reason))
                 (ts_status s = S_PAID \<or> map_option bl_status (seat_bill (At_table sid) d) = Some B_PAID) d))
               (\<lambda>d1. Inr (closed_dto c (env_now e) s (Some (trim reason)), d1))))"

section \<open>Idle sessions\<close>

definition idle_threshold :: "id \<Rightarrow> db \<Rightarrow> nat" where
  "idle_threshold b d = (case row_by bs_branchId b (branch_config d) of
     Some r \<Rightarrow> bs_sessionIdleWarnMinutes r | None \<Rightarrow> 240)"

definition last_activity :: "order_row list \<Rightarrow> time \<Rightarrow> time" where
  "last_activity os opened = (case rev (sort_key od_confirmedAt os) of [] \<Rightarrow> opened | o' # _ \<Rightarrow> od_confirmedAt o')"

definition idle_minutes :: "time \<Rightarrow> order_row list \<Rightarrow> time \<Rightarrow> int" where
  "idle_minutes now os opened = (now - last_activity os opened) div 60000"

definition idle_tables :: "db \<Rightarrow> table_session list" where
  "idle_tables d = take 200 (filter (\<lambda>s. ts_open s \<and> ts_idleAlertAt s = None \<and>
     ts_sessionKind s \<notin> set [CALL_PICKUP, COUNTER]) (table_sessions d))"

definition idle_rooms :: "db \<Rightarrow> room_session list" where
  "idle_rooms d = take 200 (filter (\<lambda>s. rs_status s \<noteq> S_CLOSED \<and> rs_closedAt s = None \<and>
     rs_idleAlertAt s = None) (room_sessions d))"

definition idle_notice :: "id \<Rightarrow> id \<Rightarrow> id \<Rightarrow> notice" where
  "idle_notice b m i = \<lparr>nt_type = ''session.idle'', nt_recipient = Some m,
     nt_rooms = [Manager_room b, Staff_room m], nt_entity = i\<rparr>"

definition table_is_idle :: "time \<Rightarrow> db \<Rightarrow> table_session \<Rightarrow> bool" where
  "table_is_idle now d s \<longleftrightarrow> int (idle_threshold (ts_branchId s) d) \<le>
     idle_minutes now (seat_orders (At_table (ts_id s)) d) (ts_openedAt s)"

definition room_is_idle :: "time \<Rightarrow> db \<Rightarrow> room_session \<Rightarrow> bool" where
  "room_is_idle now d s \<longleftrightarrow> int (idle_threshold (rs_branchId s) d) \<le>
     idle_minutes now (seat_orders (At_room (rs_id s)) d) (rs_openedAt s)"

definition warn_table :: "time \<Rightarrow> table_session \<Rightarrow> db \<Rightarrow> db" where
  "warn_table now s d = emit (Notify (idle_notice (ts_branchId s) (ts_primaryWaiter s) (ts_id s)))
     (d\<lparr>table_sessions := update_id ts_id (ts_id s) (\<lambda>x. x\<lparr>ts_idleAlertAt := Some now\<rparr>) (table_sessions d)\<rparr>)"

definition warn_room :: "time \<Rightarrow> room_session \<Rightarrow> db \<Rightarrow> db" where
  "warn_room now s d = emit (Notify (idle_notice (rs_branchId s) (rs_primaryWaiter s) (rs_id s)))
     (d\<lparr>room_sessions := update_id rs_id (rs_id s) (\<lambda>x. x\<lparr>rs_idleAlertAt := Some now\<rparr>) (room_sessions d)\<rparr>)"

text \<open>The rows are all read before the first is written.\<close>

definition checkIdleSessions :: "env \<Rightarrow> db \<Rightarrow> nat \<times> db" where
  "checkIdleSessions e d =
     (let now = env_now e;
          ts = filter (table_is_idle now d) (idle_tables d);
          rs = filter (room_is_idle now d) (idle_rooms d)
      in (length ts + length rs, fold (warn_room now) rs (fold (warn_table now) ts d)))"

section \<open>What the operations do\<close>

lemma set_table_frame [frame, simp]:
  "table_sessions (set_table i st d) = table_sessions d" "bills (set_table i st d) = bills d"
  "payments (set_table i st d) = payments d" "order_items (set_table i st d) = order_items d"
  "orders (set_table i st d) = orders d" "idempotency (set_table i st d) = idempotency d"
  "table_assignments (set_table i st d) = table_assignments d" "next_id (set_table i st d) = next_id d"
  by (simp_all add: set_table_def)

lemma release_frame [frame, simp]:
  "table_sessions (release_assignments i n d) = table_sessions d" "bills (release_assignments i n d) = bills d"
  "payments (release_assignments i n d) = payments d" "order_items (release_assignments i n d) = order_items d"
  "orders (release_assignments i n d) = orders d" "idempotency (release_assignments i n d) = idempotency d"
  "dining_tables (release_assignments i n d) = dining_tables d" "next_id (release_assignments i n d) = next_id d"
  by (simp_all add: release_assignments_def)

lemma close_paid_frame [frame, simp]:
  "table_sessions (close_paid_bills i m n d) = table_sessions d" "payments (close_paid_bills i m n d) = payments d"
  "order_items (close_paid_bills i m n d) = order_items d" "orders (close_paid_bills i m n d) = orders d"
  "idempotency (close_paid_bills i m n d) = idempotency d" "dining_tables (close_paid_bills i m n d) = dining_tables d"
  "table_assignments (close_paid_bills i m n d) = table_assignments d" "next_id (close_paid_bills i m n d) = next_id d"
  by (simp_all add: close_paid_bills_def)

lemma closed_session_fields [simp]:
  "ts_id (closed_session m n r s) = ts_id s" "ts_tableId (closed_session m n r s) = ts_tableId s"
  "ts_status (closed_session m n r s) = S_CLOSED" "ts_closedAt (closed_session m n r s) = Some n"
  "ts_closedBy (closed_session m n r s) = m" "ts_version (closed_session m n r s) = ts_version s"
  "ts_guestCount (closed_session m n r s) = ts_guestCount s" "\<not> ts_open (closed_session m n r s)"
  by (simp_all add: closed_session_def ts_open_def split: option.splits)

text \<open>The state a closing leaves behind.\<close>

definition session_closed :: "table_session \<Rightarrow> id option \<Rightarrow> time \<Rightarrow> bool \<Rightarrow> db \<Rightarrow> db \<Rightarrow> bool" where
  "session_closed s m now paid d d' \<longleftrightarrow>
     (\<exists>x. row_by ts_id (ts_id s) (table_sessions d') = Some x \<and> ts_status x = S_CLOSED \<and>
        ts_closedAt x = Some now \<and> ts_closedBy x = m \<and> ts_version x = ts_version s + 1) \<and>
     map_option dt_status (row_by dt_id (ts_tableId s) (dining_tables d')) =
       map_option (\<lambda>_. ''AVAILABLE'') (row_by dt_id (ts_tableId s) (dining_tables d)) \<and>
     (\<forall>a \<in> set (table_assignments d'). ta_tableSessionId a = ts_id s \<longrightarrow> ta_releasedAt a \<noteq> None) \<and>
     (paid \<longrightarrow> (\<forall>b \<in> set (bills d'). bl_tableSessionId b = Some (ts_id s) \<longrightarrow> bl_status b \<noteq> B_PAID)) \<and>
     map (\<lambda>b. (bl_id b, bl_total b, bl_amountPaid b)) (bills d') = map (\<lambda>b. (bl_id b, bl_total b, bl_amountPaid b)) (bills d) \<and>
     payments d' = payments d \<and> order_items d' = order_items d"

lemma close_writes_closes:
  assumes "row_by ts_id (ts_id s) (table_sessions d) = Some s"
  shows "session_closed s (ax_staffMembershipId c) now paid d (close_writes c now s r paid d)"
  using assms unfolding session_closed_def
  by (intro conjI)
    (auto simp: close_writes_def Let_def bump_table_def table_simps set_table_def release_assignments_def
      close_paid_bills_def update_many_def option.map_comp o_def)

lemma closeBody_effect:
  assumes "closeBody e c k sid v d = Inr (res, d')" and "db_ok d"
  obtains s where "row_by ts_id sid (table_sessions d) = Some s" and "ts_id s = sid" and "ts_branchId s = branch_of c"
    and "ts_version s = v" and "ts_open s"
    and "live_session_items sid d = [] \<or> ts_status s = S_PAID"
    and "ax_staffMembershipId c = Some (ts_primaryWaiter s) \<or> can e c Act_manage Sub_Floor"
    and "d' = storeIdempotent (env_hash e) sid k (Req_CloseSession sid v) res
       (close_writes c (env_now e) s None (ts_status s = S_PAID) d)"
    and "db_ok d'" and "res = Res_Session (closed_dto c (env_now e) s None)"
proof (cases "find (\<lambda>s. ts_id s = sid \<and> ts_branchId s = branch_of c) (table_sessions d)")
  case None
  with assms(1) show ?thesis by (simp add: closeBody_def)
next
  case (Some s)
  with db_okD(1) [OF assms(2)] have row: "row_by ts_id sid (table_sessions d) = Some s"
    by (intro find_row_by) (auto dest: primary_keyD)
  from Some have "ts_id s = sid" "ts_branchId s = branch_of c" by (auto dest: find_Some_in)
  with assms(1) Some row show ?thesis
    by (intro that [of s]) (auto simp: closeBody_def Let_def ts_open_def inversion split: if_splits)
qed

text \<open>Closing keeps every constraint, so the transaction commits.\<close>

lemma close_writes_ok: "db_ok d \<Longrightarrow> db_ok (close_writes c now s r paid d)"
proof -
  assume ok: "db_ok d"
  have tables: "db_ok (bump_table i (closed_session m n rr) d')" if "db_ok d'" for i m n rr d'
    using that
    by (simp add: db_ok_def db_constraints_def bump_table_def)
      (intro conjI keyed_update_id list_all_update_id; (simp add: ts_open_def)?)
  have dining: "db_ok (set_table i ''AVAILABLE'' d')" if "db_ok d'" for i d'
    using that
    by (simp add: db_ok_def db_constraints_def set_table_def)
      (intro conjI keyed_update_id list_all_update_id; simp?)
  have assign: "db_ok (release_assignments i n d')" if "db_ok d'" for i n d'
    using that by (simp add: db_ok_def db_constraints_def release_assignments_def)
  have bills: "db_ok (close_paid_bills i m n d')" if "db_ok d'" for i m n d'
    using that
    by (simp add: db_ok_def db_constraints_def close_paid_bills_def billed_items_update_many)
      (intro conjI keyed_update_many list_all_update_many; simp?)
  show ?thesis using ok by (simp add: close_writes_def Let_def tables dining assign bills)
qed

lemma closeSession_fresh:
  assumes "closeSession e c sid v key d = Inr (res, d')" and "table_sessions d' \<noteq> table_sessions d"
  obtains k where "closeBody e c k sid v d = Inr (res, d')" and "requireBranch c = Inr c"
  using assms by (auto simp: closeSession_def Let_def inversion dest!: guarded_fresh intro: that)

lemma startSession_fresh:
  assumes "startSession e c dto key d = Inr (res, d')"
  obtains "d' = d"
    | k where "startBody e c k dto d = Inr (res, d')" and "requireFloorWaiter e c = Inr c"
  using assms by (auto simp: startSession_def Let_def inversion dest!: guarded_fresh intro: that)

lemma closeBody_succeeds:
  assumes "db_ok d" and "row_by ts_id sid (table_sessions d) = Some s" and "ts_branchId s = branch_of c"
    and "ts_open s" and "live_session_items sid d = [] \<or> ts_status s = S_PAID"
    and "ax_staffMembershipId c = Some (ts_primaryWaiter s) \<or> can e c Act_manage Sub_Floor"
  shows "\<exists>res d'. closeBody e c k sid (ts_version s) d = Inr (res, d')"
proof -
  have "find (\<lambda>s. ts_id s = sid \<and> ts_branchId s = branch_of c) (table_sessions d) = Some s"
    using assms(2,3) db_okD(1) [OF assms(1)]
    by (auto simp: row_by_def find_Some_iff keyed_def)
  with assms show ?thesis
    by (auto simp: closeBody_def Let_def ts_open_def commit_ok db_ok_store close_writes_ok)
qed

text \<open>What a closing that went through has done to the state.\<close>

lemma closeBody_closes:
  assumes "closeBody e c k sid v d = Inr (res, d')" and "db_ok d"
  obtains s where "row_by ts_id sid (table_sessions d) = Some s" and "ts_id s = sid" and "ts_version s = v"
    and "ts_open s" and "live_session_items sid d = [] \<or> ts_status s = S_PAID"
    and "ax_staffMembershipId c = Some (ts_primaryWaiter s) \<or> can e c Act_manage Sub_Floor"
    and "session_closed s (ax_staffMembershipId c) (env_now e) (ts_status s = S_PAID) d d'" and "db_ok d'"
    and "res = Res_Session (closed_dto c (env_now e) s None)"
  using assms
proof (rule closeBody_effect)
  fix s assume row: "row_by ts_id sid (table_sessions d) = Some s" and id: "ts_id s = sid"
    and rest: "ts_version s = v" "ts_open s" "live_session_items sid d = [] \<or> ts_status s = S_PAID"
      "ax_staffMembershipId c = Some (ts_primaryWaiter s) \<or> can e c Act_manage Sub_Floor"
    and d': "d' = storeIdempotent (env_hash e) sid k (Req_CloseSession sid v) res
       (close_writes c (env_now e) s None (ts_status s = S_PAID) d)" and ok': "db_ok d'"
    and res: "res = Res_Session (closed_dto c (env_now e) s None)"
  have "session_closed s (ax_staffMembershipId c) (env_now e) (ts_status s = S_PAID) d d'"
    using close_writes_closes [of s d c "env_now e" "ts_status s = S_PAID" None] row id
    by (simp add: d' session_closed_def)
  with row id rest ok' res show thesis by (intro that)
qed

text \<open>An open session keeps its table: nobody opens another one there.\<close>

lemma taken_table_stays_taken:
  assumes "x \<in> set (table_sessions d)" and "ts_open x" and "ts_tableId x = sg_tableId dto"
    and "startSession e c dto key d = Inr (res, d')"
  shows "d' = d"
  using assms(4)
proof (cases rule: startSession_fresh)
  case (2 k)
  from assms(1-3) have "find (\<lambda>s. ts_tableId s = sg_tableId dto \<and> ts_open s) (table_sessions d) \<noteq> None"
    by (auto simp: find_None_iff)
  with 2(1) show ?thesis
    by (auto simp: startBody_def find_None_iff dest!: find_Some_in split: option.splits sum.splits if_splits)
qed

lemma startBody_effect:
  assumes "startBody e c k dto d = Inr (res, d')" and "db_ok d"
  obtains t where "row_by dt_id (sg_tableId dto) (dining_tables d) = Some t" and "dt_id t = sg_tableId dto"
    and "dt_branchId t = branch_of c" and "dt_status t \<noteq> ''OCCUPIED''"
    and "\<And>s. s \<in> set (table_sessions d) \<Longrightarrow> ts_tableId s = dt_id t \<Longrightarrow> \<not> ts_open s"
    and "checkOpener e c dto t d = Inr ()" and "db_ok d'"
    and "table_sessions d' = table_sessions d @ [session_row e c dto t (next_id d)]"
    and "dining_tables d' = dining_tables (set_table (dt_id t) ''OCCUPIED'' d)"
    and "order_items d' = order_items d"
    and "res = Res_Session (toSessionDto (session_row e c dto t (next_id d)) (ax_staffMembershipId c))"
proof (cases "find (\<lambda>t. dt_id t = sg_tableId dto \<and> dt_branchId t = branch_of c \<and> dt_archivedAt t = None)
             (dining_tables d)")
  case None
  with assms(1) show ?thesis by (simp add: startBody_def)
next
  case (Some t)
  have row: "row_by dt_id (sg_tableId dto) (dining_tables d) = Some t"
    using db_okD [OF assms(2)] by (intro find_row_by [OF Some]) (auto dest: primary_keyD)
  from Some have t: "dt_id t = sg_tableId dto" "dt_branchId t = branch_of c" by (auto dest: find_Some_in)
  from assms(1) Some obtain chk: "checkOpener e c dto t d = Inr ()"
    and free: "find (\<lambda>s. ts_tableId s = dt_id t \<and> ts_open s) (table_sessions d) = None" "dt_status t \<noteq> ''OCCUPIED''"
    and tx: "startTx e c k dto t d = Inr (res, d')"
    by (auto simp: startBody_def split: if_splits sum.splits)
  from tx show ?thesis
    using row t chk free
    by (intro that [of t]) (auto simp: startTx_def Let_def inversion find_None_iff set_table_def)
qed

section \<open>Properties\<close>

text \<open>
  C11: a table is closed only when nothing is owed for it: every dish of the session is
  cancelled or the session is PAID. The closing is done by the waiter of the table or with
  the right to manage the floor, on the version of the session he read; it frees the table,
  releases every assignment, leaves no bill of a paid session PAID, and changes no amount,
  no payment and no dish.
\<close>

theorem closed_tables_are_settled:
  assumes ok: "db_ok d" and run: "closeSession e c sid v key d = Inr (res, d')"
    and new: "table_sessions d' \<noteq> table_sessions d"
  shows "\<exists>s. row_by ts_id sid (table_sessions d) = Some s \<and> ts_open s \<and> ts_version s = v \<and>
     (live_session_items sid d = [] \<or> ts_status s = S_PAID) \<and>
     (ax_staffMembershipId c = Some (ts_primaryWaiter s) \<or> can e c Act_manage Sub_Floor) \<and>
     session_closed s (ax_staffMembershipId c) (env_now e) (ts_status s = S_PAID) d d' \<and> db_ok d'"
proof -
  from run new obtain k where body: "closeBody e c k sid v d = Inr (res, d')" by (rule closeSession_fresh)
  then show ?thesis using ok by (rule closeBody_closes) blast
qed

definition paid_db :: db where
  "paid_db = billed_db\<lparr>bills := [bill_60\<lparr>bl_status := B_PAID, bl_amountPaid := 225, bl_version := 2\<rparr>],
     table_sessions := [session_40\<lparr>ts_status := S_PAID, ts_version := 5\<rparr>],
     table_assignments := [\<lparr>ta_id = 44, ta_tableSessionId = 40, ta_waiter = 10, ta_shift = 30,
       ta_assignedBy = Some 10, ta_reason = None, ta_releasedAt = None\<rparr>]\<rparr>"

lemma paid_db_ok: "db_ok paid_db"
  by code_simp

theorem closed_tables_are_settled_witness:
  "\<exists>res d' s. closeSession evening waiter 40 5 (Some ''c1'') paid_db = Inr (res, d') \<and> ts_status s = S_PAID \<and>
     session_closed s (Some 10) 1000000 True paid_db d'"
proof -
  have "case closeSession evening waiter 40 5 (Some ''c1'') paid_db of Inl _ \<Rightarrow> False
     | Inr (res, d') \<Rightarrow> table_sessions d' \<noteq> table_sessions paid_db" by code_simp
  then obtain res d' where run: "closeSession evening waiter 40 5 (Some ''c1'') paid_db = Inr (res, d')"
    and new: "table_sessions d' \<noteq> table_sessions paid_db"
    by (blast dest: run_result)
  have w: "ax_staffMembershipId waiter = Some 10" "env_now evening = 1000000"
    and st: "map_option ts_status (row_by ts_id 40 (table_sessions paid_db)) = Some S_PAID" by code_simp+
  from closed_tables_are_settled [OF paid_db_ok run new] run w st show ?thesis by auto
qed

text \<open>
  C26: a table for which nothing is owed can always be closed by its waiter: the request of the
  waiter of an open session, with the version he sees and a command key not used before, is
  answered with the closed session, whatever the surroundings; and the state it commits is the
  closed one: the session is CLOSED by him at that time, one version later, its table is
  AVAILABLE, every assignment of the session is released, no bill of a paid session stays PAID,
  and no amount, payment or dish has changed.
\<close>

theorem settled_tables_can_be_closed:
  assumes ok: "db_ok d" and row: "row_by ts_id sid (table_sessions d) = Some s" and op: "ts_open s"
    and settled: "live_session_items sid d = [] \<or> ts_status s = S_PAID"
    and who: "ax_tenantId c \<noteq> None" "ax_branchId c = Some (ts_branchId s)"
      "ax_staffMembershipId c = Some (ts_primaryWaiter s)"
    and key: "trim key \<noteq> []"
    and fresh: "findIdempotent (env_hash e) (command_key c close_command (trim key))
       (Req_CloseSession sid (ts_version s)) d = Inr None"
  shows "\<exists>d'. closeSession e c sid (ts_version s) (Some key) d =
       Inr (Res_Session (closed_dto c (env_now e) s None), d') \<and>
     session_closed s (ax_staffMembershipId c) (env_now e) (ts_status s = S_PAID) d d' \<and> db_ok d'"
proof -
  let ?k = "command_key c close_command (trim key)"
  obtain res d' where body: "closeBody e c ?k sid (ts_version s) d = Inr (res, d')"
    using closeBody_succeeds [OF ok row, of c e ?k] op settled who by auto
  from body ok have "session_closed s (ax_staffMembershipId c) (env_now e) (ts_status s = S_PAID) d d'"
    and "db_ok d'" and "res = Res_Session (closed_dto c (env_now e) s None)"
    using row by (auto elim!: closeBody_closes)
  with body who key fresh show ?thesis
    by (simp add: closeSession_def requireBranch_def requireIdempotencyKey_def guarded_command_def)
qed

theorem settled_tables_can_be_closed_witness:
  "\<exists>d'. closeSession evening waiter 40 5 (Some ''c1'') paid_db =
       Inr (Res_Session (closed_dto waiter 1000000 (session_40\<lparr>ts_status := S_PAID, ts_version := 5\<rparr>) None), d') \<and>
     session_closed (session_40\<lparr>ts_status := S_PAID, ts_version := 5\<rparr>) (Some 10) 1000000 True paid_db d' \<and> db_ok d'"
proof -
  let ?s = "session_40\<lparr>ts_status := S_PAID, ts_version := 5\<rparr>"
  have r: "row_by ts_id 40 (table_sessions paid_db) = Some ?s" "ts_open ?s" "ts_status ?s = S_PAID"
    "ax_tenantId waiter \<noteq> None" "ax_branchId waiter = Some (ts_branchId ?s)"
    "ax_staffMembershipId waiter = Some (ts_primaryWaiter ?s)" "trim ''c1'' \<noteq> []"
    "findIdempotent (env_hash evening) (command_key waiter close_command (trim ''c1''))
       (Req_CloseSession 40 (ts_version ?s)) paid_db = Inr None" "ts_version ?s = 5"
    "ax_staffMembershipId waiter = Some 10" "env_now evening = 1000000"
    by code_simp+
  from settled_tables_can_be_closed [OF paid_db_ok r(1,2) _ r(4-8)] r(3,9-11) show ?thesis by simp
qed

text \<open>
  C27: opening a table requires that no session is open there, and makes exactly one: the new
  session belongs to the waiter, is OPEN in version 1, the table is OCCUPIED, and as
  long as it is open on this table, whatever has happened in between, every further attempt to
  open the table, by anyone, is refused or is the replay of an answer already given: it changes
  nothing.
\<close>

theorem one_session_per_table:
  assumes ok: "db_ok d" and run: "startSession e c dto key d = Inr (res, d')"
    and new: "table_sessions d' \<noteq> table_sessions d"
  shows "\<exists>t s. row_by dt_id (sg_tableId dto) (dining_tables d) = Some t \<and>
     (\<forall>x \<in> set (table_sessions d). ts_tableId x = dt_id t \<longrightarrow> \<not> ts_open x) \<and>
     table_sessions d' = table_sessions d @ [s] \<and> ts_tableId s = dt_id t \<and> ts_open s \<and>
     ts_status s = S_OPEN \<and> ts_version s = 1 \<and> ax_staffMembershipId c = Some (ts_primaryWaiter s) \<and>
     row_by dt_id (dt_id t) (dining_tables d') = Some (t\<lparr>dt_status := ''OCCUPIED'', dt_version := dt_version t + 1\<rparr>) \<and>
     (\<forall>later x e2 c2 dto2 key2 res2 d2. x \<in> set (table_sessions later) \<and> ts_id x = ts_id s \<and> ts_open x \<and>
        ts_tableId x = dt_id t \<and> sg_tableId dto2 = dt_id t \<longrightarrow>
        startSession e2 c2 dto2 key2 later = Inr (res2, d2) \<longrightarrow> d2 = later)"
  using run
proof (cases rule: startSession_fresh)
  case 1
  with new show ?thesis by simp
next
  case (2 k)
  from 2(1) ok obtain t where t: "row_by dt_id (sg_tableId dto) (dining_tables d) = Some t" "dt_id t = sg_tableId dto"
    and none: "\<And>s. s \<in> set (table_sessions d) \<Longrightarrow> ts_tableId s = dt_id t \<Longrightarrow> \<not> ts_open s" and ok': "db_ok d'"
    and ts: "table_sessions d' = table_sessions d @ [session_row e c dto t (next_id d)]"
    and dt: "dining_tables d' = dining_tables (set_table (dt_id t) ''OCCUPIED'' d)"
    by (rule startBody_effect) blast
  let ?s = "session_row e c dto t (next_id d)"
  have s: "ts_tableId ?s = dt_id t" "ts_open ?s" "ts_status ?s = S_OPEN" "ts_version ?s = 1"
    "ts_primaryWaiter ?s = staff_of c" by (simp_all add: session_row_def ts_open_def)
  from 2(2) have staff: "ax_staffMembershipId c = Some (staff_of c)" by (auto simp: inversion)
  have occ: "row_by dt_id (dt_id t) (dining_tables d') = Some (t\<lparr>dt_status := ''OCCUPIED'', dt_version := dt_version t + 1\<rparr>)"
    using t by (simp add: dt set_table_def table_simps)
  have taken: "\<forall>later x e2 c2 dto2 key2 res2 d2. x \<in> set (table_sessions later) \<and> ts_id x = ts_id ?s \<and> ts_open x \<and>
        ts_tableId x = dt_id t \<and> sg_tableId dto2 = dt_id t \<longrightarrow>
        startSession e2 c2 dto2 key2 later = Inr (res2, d2) \<longrightarrow> d2 = later"
    using taken_table_stays_taken by metis
  have "\<forall>x \<in> set (table_sessions d). ts_tableId x = dt_id t \<longrightarrow> \<not> ts_open x" using none by blast
  with t ts s staff occ show ?thesis
    by (intro exI [of _ t] exI [of _ ?s] conjI taken; simp)
qed

definition free_db :: db where
  "free_db = floor_db\<lparr>dining_tables := [table_20\<lparr>dt_status := ''AVAILABLE''\<rparr>], table_sessions := [],
     orders := [], order_items := []\<rparr>"

definition open_20 :: start_session_dto where
  "open_20 = \<lparr>sg_tableId = 20, sg_callPickup = False, sg_customerName = None, sg_customerPhone = None,
     sg_guestCount = Some 2\<rparr>"

lemma free_db_ok: "db_ok free_db"
  by code_simp

theorem one_session_per_table_witness:
  "\<exists>res d' s. startSession evening waiter open_20 (Some ''s1'') free_db = Inr (res, d') \<and>
     table_sessions d' = [s] \<and> ts_open s \<and>
     (\<forall>e2 c2 key2 res2 d2 later. table_sessions later = [s\<lparr>ts_version := 4\<rparr>] \<longrightarrow>
        startSession e2 c2 open_20 key2 later = Inr (res2, d2) \<longrightarrow> d2 = later)"
proof -
  have "case startSession evening waiter open_20 (Some ''s1'') free_db of Inl _ \<Rightarrow> False
     | Inr (res, d') \<Rightarrow> table_sessions d' \<noteq> table_sessions free_db" by code_simp
  then obtain res d' where run: "startSession evening waiter open_20 (Some ''s1'') free_db = Inr (res, d')"
    and new: "table_sessions d' \<noteq> table_sessions free_db"
    by (blast dest: run_result)
  have f: "row_by dt_id (sg_tableId open_20) (dining_tables free_db) = Some (table_20\<lparr>dt_status := ''AVAILABLE''\<rparr>)"
    "sg_tableId open_20 = 20" "dt_id (table_20\<lparr>dt_status := ''AVAILABLE''\<rparr>) = 20" "table_sessions free_db = []"
    by code_simp+
  from one_session_per_table [OF free_db_ok run new] f
  obtain s where s: "table_sessions d' = [s]" "ts_open s" "ts_tableId s = 20"
    and again: "\<And>later x e2 c2 dto2 key2 res2 d2. x \<in> set (table_sessions later) \<and> ts_id x = ts_id s \<and> ts_open x \<and>
        ts_tableId x = 20 \<and> sg_tableId dto2 = 20 \<Longrightarrow>
        startSession e2 c2 dto2 key2 later = Inr (res2, d2) \<Longrightarrow> d2 = later" by auto
  have "d2 = later" if "table_sessions later = [s\<lparr>ts_version := 4\<rparr>]"
    and "startSession e2 c2 open_20 key2 later = Inr (res2, d2)" for e2 c2 key2 res2 d2 later
    using again [OF _ that(2), of "s\<lparr>ts_version := 4\<rparr>"] that(1) s(2,3) f(2) by (simp add: ts_open_def)
  with run s(1,2) show ?thesis by blast
qed

end
