(* ===== verification/Rooms.thy ===== *)
theory Rooms
  imports Floor "HOL-Library.Char_ord" "HOL-Library.List_Lexorder"
begin

text \<open>
  Room service (\<open>src/rooms/rooms.service.ts\<close>): settings, rooms and who covers their floors, stays
  with their breakfasts, and the sessions on which rooms order. Responses are reduced to the rows
  they quote. The upsert of the settings that every operation starts with creates the row with the
  defaults of the schema; on a refused operation its creation is not shown, since reading a missing
  row gives the same defaults. Texts are ordered by their codes.
\<close>

section \<open>Settings\<close>

definition default_settings :: "id \<Rightarrow> tenant_settings" where
  "default_settings t = \<lparr>tn_tenantId = t, tn_defaultVipPercent = 0, tn_roomServiceEnabled = False,
     tn_breakfastEnabled = False, tn_breakfastFrom = ''07:00'', tn_breakfastTo = ''10:30'',
     tn_breakfastMenuItem = None, tn_autoApproveSupply = False, tn_requireDriver = False,
     tn_updatedBy = None, tn_version = 1\<rparr>"

definition ensureSettings :: "id \<Rightarrow> db \<Rightarrow> tenant_settings \<times> db" where
  "ensureSettings t d =
     (case row_by tn_tenantId t (tenant_config d) of
        Some s \<Rightarrow> (s, d)
      | None \<Rightarrow> (default_settings t, d\<lparr>tenant_config := tenant_config d @ [default_settings t]\<rparr>))"

text \<open>Managers may set rooms up while the feature is off.\<close>

definition requireRoomServiceEnabled :: "env \<Rightarrow> auth_ctx \<Rightarrow> db \<Rightarrow> (tenant_settings \<times> db) result" where
  "requireRoomServiceEnabled e c d =
     (let (s, d1) = ensureSettings (tenant_of c) d
      in if \<not> tn_roomServiceEnabled s \<and> \<not> can e c Act_manage Sub_Room
         then Inl (Forbidden ''Room service is disabled for this restaurant.'') else Inr (s, d1))"

definition requireRooms :: "env \<Rightarrow> auth_ctx \<Rightarrow> app_action \<Rightarrow> app_subject \<Rightarrow> string \<Rightarrow> auth_ctx result" where
  "requireRooms e c a s msg = bindR (requireBranch c) (\<lambda>c. bindR (assertCan e c a s msg) (\<lambda>_. Inr c))"

definition requireRoomWaiter :: "auth_ctx \<Rightarrow> auth_ctx result" where
  "requireRoomWaiter c =
     bindR (requireBranch c) (\<lambda>c.
       if ax_roleCode c \<notin> set [''WAITER'', ''MANAGER'', ''OWNER_ADMIN'']
       then Inl (Forbidden ''Waiter access required.'') else Inr c)"

definition getSettings :: "env \<Rightarrow> auth_ctx \<Rightarrow> db \<Rightarrow> (tenant_settings \<times> db) result" where
  "getSettings e c d =
     bindR (requireRooms e c Act_read Sub_Room ''Rooms access required.'') (\<lambda>c. requireRoomServiceEnabled e c d)"

record settings_update =
  su_enabled :: "bool option"
  su_breakfast :: "bool option"
  su_from :: "string option"
  su_to :: "string option"
  su_menuItem :: "id option option"

definition updated_settings :: "auth_ctx \<Rightarrow> settings_update \<Rightarrow> tenant_settings \<Rightarrow> tenant_settings" where
  "updated_settings c u s = s\<lparr>
     tn_roomServiceEnabled := (case su_enabled u of Some b \<Rightarrow> b | None \<Rightarrow> tn_roomServiceEnabled s),
     tn_breakfastEnabled := (case su_breakfast u of Some b \<Rightarrow> b | None \<Rightarrow> tn_breakfastEnabled s),
     tn_breakfastFrom := (case su_from u of Some x \<Rightarrow> x | None \<Rightarrow> tn_breakfastFrom s),
     tn_breakfastTo := (case su_to u of Some x \<Rightarrow> x | None \<Rightarrow> tn_breakfastTo s),
     tn_breakfastMenuItem := (case su_menuItem u of Some x \<Rightarrow> x | None \<Rightarrow> tn_breakfastMenuItem s),
     tn_updatedBy := ax_staffMembershipId c, tn_version := tn_version s + 1\<rparr>"

definition updateSettings :: "env \<Rightarrow> auth_ctx \<Rightarrow> settings_update \<Rightarrow> db \<Rightarrow> (tenant_settings \<times> db) result" where
  "updateSettings e c u d =
     bindR (requireRooms e c Act_manage Sub_Room ''Only managers can change room settings.'') (\<lambda>c.
       let (s, d1) = ensureSettings (tenant_of c) d
       in Inr (updated_settings c u s,
            d1\<lparr>tenant_config := update_id tn_tenantId (tenant_of c) (updated_settings c u) (tenant_config d1)\<rparr>))"

section \<open>Rooms\<close>

definition in_house :: "room_stay \<Rightarrow> bool" where
  "in_house s \<longleftrightarrow> sy_status s = ''IN_HOUSE''"

definition stays_of :: "id \<Rightarrow> db \<Rightarrow> room_stay list" where
  "stays_of room d = filter (\<lambda>s. sy_hotelRoomId s = room \<and> in_house s) (room_stays d)"

definition latest_stay :: "id \<Rightarrow> db \<Rightarrow> room_stay option" where
  "latest_stay room d = (case sort_key (\<lambda>s. - sy_checkInAt s) (stays_of room d) of [] \<Rightarrow> None | s # _ \<Rightarrow> Some s)"

definition ordered_rooms :: "hotel_room list \<Rightarrow> hotel_room list" where
  "ordered_rooms rs = sort_key hr_sortOrder (sort_key hr_roomNumber rs)"

definition listRooms :: "env \<Rightarrow> auth_ctx \<Rightarrow> db \<Rightarrow> ((hotel_room \<times> room_stay option) list \<times> db) result" where
  "listRooms e c d =
     bindR (requireRooms e c Act_read Sub_Room ''Rooms access required.'') (\<lambda>c.
     bindR (requireRoomServiceEnabled e c d) (\<lambda>(_, d1).
       Inr (map (\<lambda>r. (r, latest_stay (hr_id r) d1))
              (ordered_rooms (filter (\<lambda>r. hr_branchId r = branch_of c \<and> hr_archivedAt r = None) (hotel_rooms d1))), d1)))"

record room_dto =
  hn_roomNumber :: string
  hn_floor :: "string option"
  hn_wing :: "string option"
  hn_waiter :: "id option"
  hn_sortOrder :: "nat option"

definition duplicate_room :: "db result \<Rightarrow> db result" where
  "duplicate_room m = (case m of Inl _ \<Rightarrow> Inl (Conflict ''roomNumber duplicate'') | Inr d \<Rightarrow> Inr d)"

definition createRoom :: "env \<Rightarrow> auth_ctx \<Rightarrow> room_dto \<Rightarrow> db \<Rightarrow> (hotel_room \<times> db) result" where
  "createRoom e c dto d =
     bindR (requireRooms e c Act_manage Sub_Room ''Only managers can create rooms.'') (\<lambda>c.
     bindR (requireRoomServiceEnabled e c d) (\<lambda>(_, d1).
       let r = \<lparr>hr_id = next_id d1, hr_branchId = branch_of c, hr_roomNumber = trim (hn_roomNumber dto),
             hr_floor = trim_or_null (hn_floor dto), hr_wing = trim_or_null (hn_wing dto), hr_status = ''AVAILABLE'',
             hr_defaultWaiter = hn_waiter dto, hr_sortOrder = (case hn_sortOrder dto of Some n \<Rightarrow> n | None \<Rightarrow> 0),
             hr_archivedAt = None\<rparr>
       in bindR (duplicate_room (commit (d1\<lparr>hotel_rooms := hotel_rooms d1 @ [r], next_id := next_id d1 + 1\<rparr>)))
            (\<lambda>d2. Inr (r, d2))))"

definition live_room :: "auth_ctx \<Rightarrow> id \<Rightarrow> db \<Rightarrow> hotel_room result" where
  "live_room c i d =
     (case find (\<lambda>r. hr_id r = i \<and> hr_branchId r = branch_of c \<and> hr_archivedAt r = None) (hotel_rooms d) of
        None \<Rightarrow> Inl (NotFound ''Room not found.'') | Some r \<Rightarrow> Inr r)"

record room_update =
  ru_roomNumber :: "string option"
  ru_floor :: "string option option"
  ru_wing :: "string option option"
  ru_status :: "string option"
  ru_waiter :: "id option option"
  ru_sortOrder :: "nat option"

definition updated_room :: "room_update \<Rightarrow> hotel_room \<Rightarrow> hotel_room" where
  "updated_room u r = r\<lparr>
     hr_roomNumber := (case ru_roomNumber u of Some x \<Rightarrow> trim x | None \<Rightarrow> hr_roomNumber r),
     hr_floor := (case ru_floor u of Some x \<Rightarrow> trim_or_null x | None \<Rightarrow> hr_floor r),
     hr_wing := (case ru_wing u of Some x \<Rightarrow> trim_or_null x | None \<Rightarrow> hr_wing r),
     hr_status := (case ru_status u of Some x \<Rightarrow> x | None \<Rightarrow> hr_status r),
     hr_defaultWaiter := (case ru_waiter u of Some x \<Rightarrow> x | None \<Rightarrow> hr_defaultWaiter r),
     hr_sortOrder := (case ru_sortOrder u of Some n \<Rightarrow> n | None \<Rightarrow> hr_sortOrder r)\<rparr>"

definition set_room :: "id \<Rightarrow> (hotel_room \<Rightarrow> hotel_room) \<Rightarrow> db \<Rightarrow> db" where
  "set_room i f d = d\<lparr>hotel_rooms := update_id hr_id i f (hotel_rooms d)\<rparr>"

definition updateRoom :: "env \<Rightarrow> auth_ctx \<Rightarrow> id \<Rightarrow> room_update \<Rightarrow> db \<Rightarrow> (hotel_room \<times> db) result" where
  "updateRoom e c i u d =
     bindR (requireRooms e c Act_manage Sub_Room ''Only managers can update rooms.'') (\<lambda>c.
     bindR (requireRoomServiceEnabled e c d) (\<lambda>(_, d1).
     bindR (live_room c i d1) (\<lambda>r.
     bindR (duplicate_room (commit (set_room (hr_id r) (updated_room u) d1))) (\<lambda>d2.
       Inr (updated_room u r, d2)))))"

definition archiveRoom :: "env \<Rightarrow> auth_ctx \<Rightarrow> id \<Rightarrow> db \<Rightarrow> (unit \<times> db) result" where
  "archiveRoom e c i d =
     bindR (requireRooms e c Act_manage Sub_Room ''Only managers can archive rooms.'') (\<lambda>c.
     bindR (live_room c i d) (\<lambda>r.
       if stays_of (hr_id r) d \<noteq> [] then Inl (Unprocessable ''Check out the guest before archiving.'')
       else bindR (commit (set_room (hr_id r)
              (\<lambda>r. r\<lparr>hr_archivedAt := Some (env_now e), hr_status := ''OOO''\<rparr>) d)) (\<lambda>d1. Inr ((), d1))))"

section \<open>Stays\<close>

text \<open>
  A checkout text has the shape of a date, which means noon of that day at the server (two-digit
  years are of the last century), or is what \<open>Date\<close> parses it to.
\<close>

datatype checkout = Checkout_day nat nat nat | Checkout_text "time option"

fun parseCheckout :: "env \<Rightarrow> checkout \<Rightarrow> time result" where
  "parseCheckout e (Checkout_day y m n) =
     (let year = (if y < 100 then 1900 + int y else int y); k = int m - 1
      in Inr ((days_from_civil (year + k div 12) (k mod 12 + 1) 1 + int n - 1) * ms_per_day + 12 * 3600000
              - env_tzOffset e))"
| "parseCheckout e (Checkout_text None) = Inl (Unprocessable ''Invalid checkout date.'')"
| "parseCheckout e (Checkout_text (Some t)) = Inr t"

text \<open>The cursor of the loop moves by one calendar day.\<close>

function nights_from :: "date \<Rightarrow> date \<Rightarrow> date list" where
  "nights_from cursor last_night = (if cursor \<le> last_night then cursor # nights_from (cursor + 1) last_night else [])"
  by pat_completeness auto
termination by (relation "measure (\<lambda>(cursor, last_night). nat (last_night - cursor + 1))") auto

declare nights_from.simps [simp del]

definition eachBusinessNight :: "time \<Rightarrow> time \<Rightarrow> date list" where
  "eachBusinessNight checkIn checkOut = nights_from (businessDateUtc checkIn) (businessDateUtc checkOut - 1)"

record check_in_dto =
  ki_room :: id
  ki_guestName :: string
  ki_guestPhone :: "string option"
  ki_adults :: "nat option"
  ki_kids :: "nat option"
  ki_breakfast :: bool
  ki_checkout :: checkout
  ki_idImage :: "string option"

definition entitlement_rows :: "id \<Rightarrow> id \<Rightarrow> nat \<Rightarrow> id \<Rightarrow> date list \<Rightarrow> meal_entitlement list" where
  "entitlement_rows b stay adults i days = map (\<lambda>(j, day). \<lparr>me_id = j, me_branchId = b, me_stayId = stay,
     me_mealType = ''BREAKFAST'', me_businessDate = day, me_allowed = adults, me_used = 0\<rparr>) (enumerate i days)"

definition new_stay :: "auth_ctx \<Rightarrow> check_in_dto \<Rightarrow> bool \<Rightarrow> time \<Rightarrow> time \<Rightarrow> id \<Rightarrow> room_stay" where
  "new_stay c dto breakfast t out i = \<lparr>sy_id = i, sy_branchId = branch_of c, sy_hotelRoomId = ki_room dto,
     sy_guestName = trim (ki_guestName dto), sy_guestPhone = trim_or_null (ki_guestPhone dto),
     sy_adults = (case ki_adults dto of Some n \<Rightarrow> n | None \<Rightarrow> 1),
     sy_kids = (case ki_kids dto of Some n \<Rightarrow> n | None \<Rightarrow> 0),
     sy_mealPlan = (if breakfast then ''BREAKFAST'' else ''NONE''), sy_status = ''IN_HOUSE'',
     sy_guestIdImage = trim_or_null (ki_idImage dto), sy_checkInAt = t, sy_plannedCheckOut = out,
     sy_checkedOutAt = None, sy_checkedInBy = staff_of c, sy_checkedOutBy = None\<rparr>"

definition checkInTx :: "auth_ctx \<Rightarrow> check_in_dto \<Rightarrow> bool \<Rightarrow> time \<Rightarrow> time \<Rightarrow> db \<Rightarrow> (room_stay \<times> db) result" where
  "checkInTx c dto breakfast t out d =
     (let s = new_stay c dto breakfast t out (next_id d);
          ms = (if breakfast then entitlement_rows (branch_of c) (sy_id s) (sy_adults s) (next_id d + 1)
                  (eachBusinessNight t out) else [])
      in bindR (commit (set_room (ki_room dto) (\<lambda>r. r\<lparr>hr_status := ''OCCUPIED''\<rparr>)
             (d\<lparr>room_stays := room_stays d @ [s], meal_entitlements := meal_entitlements d @ ms,
                next_id := next_id d + 1 + length ms\<rparr>))) (\<lambda>d1. Inr (s, d1)))"

definition checkIn :: "env \<Rightarrow> auth_ctx \<Rightarrow> check_in_dto \<Rightarrow> db \<Rightarrow> (room_stay \<times> db) result" where
  "checkIn e c dto d =
     bindR (requireRooms e c Act_operate Sub_RoomStay ''Front desk access required.'') (\<lambda>c.
     bindR (requireRoomServiceEnabled e c d) (\<lambda>(settings, d1).
       if ax_staffMembershipId c = None then Inl (Forbidden ''No staff membership.'')
       else
         bindR (live_room c (ki_room dto) d1) (\<lambda>room.
           if hr_status room = ''OOO'' then Inl (Unprocessable ''Room is out of order.'')
           else if stays_of (hr_id room) d1 \<noteq> [] then Inl (Conflict ''Room already has an in-house guest.'')
           else
             bindR (parseCheckout e (ki_checkout dto)) (\<lambda>out.
               if out \<le> env_now e then Inl (Unprocessable ''Checkout must be after check-in.'')
               else checkInTx c dto (ki_breakfast dto \<and> tn_breakfastEnabled settings) (env_now e) out d1))))"

definition open_session_of :: "id \<Rightarrow> db \<Rightarrow> room_session option" where
  "open_session_of stay d = find (\<lambda>s. rs_roomStayId s = stay \<and> rs_status s \<noteq> S_CLOSED) (room_sessions d)"

definition guest_stay :: "auth_ctx \<Rightarrow> id \<Rightarrow> db \<Rightarrow> room_stay result" where
  "guest_stay c i d =
     (case find (\<lambda>s. sy_id s = i \<and> sy_branchId s = branch_of c \<and> in_house s) (room_stays d) of
        None \<Rightarrow> Inl (NotFound ''Stay not found.'') | Some s \<Rightarrow> Inr s)"

definition checked_out :: "env \<Rightarrow> auth_ctx \<Rightarrow> room_stay \<Rightarrow> room_stay" where
  "checked_out e c s = s\<lparr>sy_status := ''CHECKED_OUT'', sy_checkedOutAt := Some (env_now e),
     sy_checkedOutBy := ax_staffMembershipId c\<rparr>"

definition checkOut :: "env \<Rightarrow> auth_ctx \<Rightarrow> id \<Rightarrow> db \<Rightarrow> (room_stay \<times> db) result" where
  "checkOut e c i d =
     bindR (requireRooms e c Act_operate Sub_RoomStay ''Front desk access required.'') (\<lambda>c.
     bindR (requireRoomServiceEnabled e c d) (\<lambda>(_, d1).
     bindR (guest_stay c i d1) (\<lambda>s.
       if open_session_of (sy_id s) d1 \<noteq> None
       then Inl (Unprocessable ''Close the open room service session before checkout.'')
       else bindR (commit (set_room (sy_hotelRoomId s) (\<lambda>r. r\<lparr>hr_status := ''AVAILABLE''\<rparr>)
              (d1\<lparr>room_stays := update_id sy_id (sy_id s) (checked_out e c) (room_stays d1)\<rparr>))) (\<lambda>d2.
              Inr (checked_out e c s, d2)))))"

definition entitlements_of :: "id \<Rightarrow> db \<Rightarrow> meal_entitlement list" where
  "entitlements_of stay d = filter (\<lambda>m. me_stayId m = stay) (meal_entitlements d)"

definition listInHouseStays :: "env \<Rightarrow> auth_ctx \<Rightarrow> db \<Rightarrow> ((room_stay \<times> meal_entitlement list) list \<times> db) result" where
  "listInHouseStays e c d =
     bindR (requireRooms e c Act_operate Sub_RoomStay ''Front desk access required.'') (\<lambda>c.
     bindR (requireRoomServiceEnabled e c d) (\<lambda>(_, d1).
       Inr (map (\<lambda>s. (s, filter (\<lambda>m. me_businessDate m = businessDateUtc (env_now e)) (entitlements_of (sy_id s) d1)))
              (sort_key (\<lambda>s. - sy_checkInAt s)
                (filter (\<lambda>s. sy_branchId s = branch_of c \<and> in_house s) (room_stays d1))), d1)))"

definition remaining :: "meal_entitlement \<Rightarrow> nat" where
  "remaining m = me_allowed m - me_used m"

definition listEntitlements :: "env \<Rightarrow> auth_ctx \<Rightarrow> id \<Rightarrow> db \<Rightarrow> (meal_entitlement \<times> nat) list result" where
  "listEntitlements e c i d =
     bindR (requireRooms e c Act_operate Sub_RoomStay ''Front desk access required.'') (\<lambda>c.
       case find (\<lambda>s. sy_id s = i \<and> sy_branchId s = branch_of c) (room_stays d) of
         None \<Rightarrow> Inl (NotFound ''Stay not found.'')
       | Some s \<Rightarrow> Inr (map (\<lambda>m. (m, remaining m)) (sort_key me_businessDate (entitlements_of (sy_id s) d))))"

section \<open>Coverage and the waiter's rooms\<close>

definition listCoverages :: "env \<Rightarrow> auth_ctx \<Rightarrow> db \<Rightarrow> (room_coverage list \<times> db) result" where
  "listCoverages e c d =
     bindR (requireRooms e c Act_read Sub_Room ''Rooms access required.'') (\<lambda>c.
     bindR (requireRoomServiceEnabled e c d) (\<lambda>(_, d1).
       Inr (sort_key fc_floor (filter (\<lambda>r. fc_branchId r = branch_of c) (room_coverages d1)), d1)))"

definition upsertCoverage ::
  "env \<Rightarrow> auth_ctx \<Rightarrow> string \<Rightarrow> id \<Rightarrow> id option \<Rightarrow> db \<Rightarrow> (room_coverage \<times> db) result" where
  "upsertCoverage e c floor0 w def d =
     bindR (requireRooms e c Act_manage Sub_Room ''Only managers can set coverage.'') (\<lambda>c.
     bindR (requireRoomServiceEnabled e c d) (\<lambda>(_, d1).
       case find (\<lambda>r. fc_branchId r = branch_of c \<and> fc_floor r = trim floor0 \<and> fc_waiter r = w \<and>
              fc_definition r = def) (room_coverages d1) of
         Some r \<Rightarrow>
           bindR (commit (d1\<lparr>room_coverages := update_id fc_id (fc_id r)
               (\<lambda>r. r\<lparr>fc_waiter := w, fc_definition := def\<rparr>) (room_coverages d1)\<rparr>)) (\<lambda>d2.
             Inr (r\<lparr>fc_waiter := w, fc_definition := def\<rparr>, d2))
       | None \<Rightarrow>
           let r = \<lparr>fc_id = next_id d1, fc_branchId = branch_of c, fc_floor = trim floor0, fc_waiter = w,
                 fc_definition = def\<rparr>
           in bindR (commit (d1\<lparr>room_coverages := room_coverages d1 @ [r], next_id := next_id d1 + 1\<rparr>)) (\<lambda>d2.
                Inr (r, d2))))"

definition deleteCoverage :: "env \<Rightarrow> auth_ctx \<Rightarrow> id \<Rightarrow> db \<Rightarrow> (unit \<times> db) result" where
  "deleteCoverage e c i d =
     bindR (requireRooms e c Act_manage Sub_Room ''Only managers can remove coverage.'') (\<lambda>c.
       case find (\<lambda>r. fc_id r = i \<and> fc_branchId r = branch_of c) (room_coverages d) of
         None \<Rightarrow> Inl (NotFound ''Coverage not found.'')
       | Some r \<Rightarrow> bindR (commit (d\<lparr>room_coverages := filter (\<lambda>x. fc_id x \<noteq> fc_id r) (room_coverages d)\<rparr>))
           (\<lambda>d1. Inr ((), d1)))"

definition covers_floor :: "auth_ctx \<Rightarrow> hotel_room \<Rightarrow> db \<Rightarrow> bool" where
  "covers_floor c r d \<longleftrightarrow> (case hr_floor r of None \<Rightarrow> False | Some f \<Rightarrow> f \<noteq> [] \<and>
     list_ex (\<lambda>x. fc_branchId x = branch_of c \<and> fc_floor x = f \<and> Some (fc_waiter x) = ax_staffMembershipId c)
       (room_coverages d))"

text \<open>The default waiter of a room or one who covers its floor.\<close>

definition assertWaiterCanServeRoom :: "auth_ctx \<Rightarrow> hotel_room \<Rightarrow> db \<Rightarrow> unit result" where
  "assertWaiterCanServeRoom c r d =
     (if hr_defaultWaiter r = ax_staffMembershipId c \<or> covers_floor c r d then Inr ()
      else Inl (Forbidden ''This room is not assigned to you.''))"

record my_room =
  mr_room :: hotel_room
  mr_stay :: "room_stay option"
  mr_session :: "room_session option"
  mr_mine :: bool

definition latest_session :: "id \<Rightarrow> db \<Rightarrow> room_session option" where
  "latest_session room d = (case sort_key (\<lambda>s. - rs_openedAt s)
       (filter (\<lambda>s. rs_hotelRoomId s = room \<and> rs_status s \<noteq> S_CLOSED) (room_sessions d)) of
     [] \<Rightarrow> None | s # _ \<Rightarrow> Some s)"

definition my_room_of :: "auth_ctx \<Rightarrow> db \<Rightarrow> hotel_room \<Rightarrow> my_room" where
  "my_room_of c d r = \<lparr>mr_room = r, mr_stay = latest_stay (hr_id r) d, mr_session = latest_session (hr_id r) d,
     mr_mine = (case latest_session (hr_id r) d of
         Some s \<Rightarrow> Some (rs_primaryWaiter s) = ax_staffMembershipId c
       | None \<Rightarrow> hr_defaultWaiter r = ax_staffMembershipId c)\<rparr>"

definition shows_room :: "auth_ctx \<Rightarrow> db \<Rightarrow> hotel_room \<Rightarrow> bool" where
  "shows_room c d r \<longleftrightarrow> hr_defaultWaiter r = ax_staffMembershipId c \<or> covers_floor c r d \<or>
     (case latest_session (hr_id r) d of Some s \<Rightarrow> Some (rs_primaryWaiter s) = ax_staffMembershipId c | None \<Rightarrow> False)"

definition listMyRooms :: "env \<Rightarrow> auth_ctx \<Rightarrow> db \<Rightarrow> (my_room list \<times> db) result" where
  "listMyRooms e c d =
     bindR (requireRoomWaiter c) (\<lambda>c.
     bindR (requireRoomServiceEnabled e c d) (\<lambda>(_, d1).
       Inr (map (my_room_of c d1) (filter (shows_room c d1)
              (ordered_rooms (filter (\<lambda>r. hr_branchId r = branch_of c \<and> hr_archivedAt r = None \<and>
                 hr_status r \<noteq> ''OOO'') (hotel_rooms d1)))), d1)))"

section \<open>Room sessions\<close>

definition new_room_session :: "env \<Rightarrow> auth_ctx \<Rightarrow> room_stay \<Rightarrow> nat option \<Rightarrow> id \<Rightarrow> room_session" where
  "new_room_session e c s guests i = \<lparr>rs_id = i, rs_branchId = branch_of c, rs_roomStayId = sy_id s,
     rs_hotelRoomId = sy_hotelRoomId s, rs_businessDate = businessDateUtc (env_now e),
     rs_primaryWaiter = staff_of c, rs_primaryShift = shift_of c,
     rs_guestCount = Some (case guests of Some n \<Rightarrow> n | None \<Rightarrow> sy_adults s + sy_kids s),
     rs_status = S_OPEN, rs_openedAt = env_now e, rs_billRequestedAt = None, rs_closedAt = None,
     rs_closedBy = None, rs_closeReason = None, rs_idleAlertAt = None, rs_version = 1\<rparr>"

definition openSession :: "env \<Rightarrow> auth_ctx \<Rightarrow> id \<Rightarrow> nat option \<Rightarrow> db \<Rightarrow> (room_session \<times> db) result" where
  "openSession e c stay guests d =
     bindR (requireRoomWaiter c) (\<lambda>c.
     bindR (requireRoomServiceEnabled e c d) (\<lambda>(_, d1).
       if ax_staffMembershipId c = None \<or> ax_shiftSessionId c = None
       then Inl (Forbidden ''Clock in before opening room service.'')
       else
         bindR (guest_stay c stay d1) (\<lambda>s.
           case row_by hr_id (sy_hotelRoomId s) (hotel_rooms d1) of
             None \<Rightarrow> Inl (DbError ''P2025'')
           | Some room \<Rightarrow>
               bindR (assertWaiterCanServeRoom c room d1) (\<lambda>_.
                 if open_session_of (sy_id s) d1 \<noteq> None then Inl (Conflict ''ROOM_SESSION_OPEN'')
                 else
                   let r = new_room_session e c s guests (next_id d1)
                   in bindR (commit (d1\<lparr>room_sessions := room_sessions d1 @ [r], next_id := next_id d1 + 1\<rparr>)) (\<lambda>d2.
                        Inr (r, d2))))))"

definition live_states :: "item_state list" where
  "live_states = [QUEUED, ACKNOWLEDGED, IN_PREPARATION, READY, CANNOT_PREPARE, SERVED]"

definition live_items :: "id \<Rightarrow> db \<Rightarrow> order_item list" where
  "live_items sid d = filter (\<lambda>i. oi_roomSessionId i = Some sid \<and> oi_cancelledAt i = None \<and>
     oi_state i \<in> set live_states) (order_items d)"

definition closed_room :: "env \<Rightarrow> auth_ctx \<Rightarrow> string \<Rightarrow> room_session \<Rightarrow> room_session" where
  "closed_room e c reason s = s\<lparr>rs_status := S_CLOSED, rs_closedAt := Some (env_now e),
     rs_closedBy := ax_staffMembershipId c, rs_closeReason := Some (trim reason), rs_version := rs_version s + 1\<rparr>"

definition close_room_bill :: "env \<Rightarrow> auth_ctx \<Rightarrow> id \<Rightarrow> db \<Rightarrow> db" where
  "close_room_bill e c sid d = d\<lparr>bills := update_many (\<lambda>b. bl_roomSessionId b = Some sid \<and> bl_status b = B_PAID)
     (\<lambda>b. b\<lparr>bl_status := B_CLOSED, bl_closedAt := Some (env_now e), bl_closedBy := ax_staffMembershipId c,
            bl_version := bl_version b + 1\<rparr>) (bills d)\<rparr>"

definition checkForceClose :: "auth_ctx \<Rightarrow> id \<Rightarrow> nat \<Rightarrow> db \<Rightarrow> room_session result" where
  "checkForceClose c sid v d =
     (case find (\<lambda>s. rs_id s = sid \<and> rs_branchId s = branch_of c) (room_sessions d) of
        None \<Rightarrow> Inl (NotFound ''Room session not found.'')
      | Some s \<Rightarrow>
          if rs_status s = S_CLOSED \<or> rs_closedAt s \<noteq> None then Inl (Unprocessable ''Room session already closed.'')
          else if rs_version s \<noteq> v then Inl (StaleVersion (rs_version s))
          else if live_items sid d \<noteq> [] \<and> rs_status s \<noteq> S_PAID then Inl (Conflict ''ROOM_FORCE_CLOSE_BLOCKED'')
          else if rs_status s \<in> set [S_ACTIVE_ORDER, S_BILL_REQUESTED, S_BILL_READY]
          then Inl (Conflict ''ROOM_FORCE_CLOSE_UNPAID'') else Inr s)"

definition forceCloseRoomTx :: "env \<Rightarrow> auth_ctx \<Rightarrow> room_session \<Rightarrow> string \<Rightarrow> db \<Rightarrow> db result" where
  "forceCloseRoomTx e c s reason d =
     (let d1 = d\<lparr>room_sessions := update_id rs_id (rs_id s) (closed_room e c reason) (room_sessions d)\<rparr>;
          paid = (rs_status s = S_PAID \<or>
             (\<exists>b \<in> set (bills d). bl_roomSessionId b = Some (rs_id s) \<and> bl_status b = B_PAID))
      in commit (if paid then close_room_bill e c (rs_id s) d1 else d1))"

definition forceCloseRoomSession ::
  "env \<Rightarrow> auth_ctx \<Rightarrow> id \<Rightarrow> nat \<Rightarrow> string \<Rightarrow> db \<Rightarrow> (room_session \<times> db) result" where
  "forceCloseRoomSession e c sid v reason d =
     bindR (requireRooms e c Act_manage Sub_Room ''Only managers can force-close room sessions.'') (\<lambda>c.
     bindR (checkForceClose c sid v d) (\<lambda>s.
     bindR (forceCloseRoomTx e c s reason d) (\<lambda>d1. Inr (closed_room e c reason s, d1))))"

section \<open>Breakfast\<close>

text \<open>
  The two numbers of \<open>HH:mm\<close>: \<open>Number\<close> of a text that is not all digits counts as NaN, of the
  empty text as 0. A comparison with NaN is false.
\<close>

definition js_number :: "string \<Rightarrow> int option" where
  "js_number s = (if list_all is_digit s then Some (int (read_digits s)) else None)"

definition hm_minutes :: "string \<Rightarrow> int option" where
  "hm_minutes s =
     (case dropWhile (\<lambda>ch. ch \<noteq> CHR '':'') s of
        [] \<Rightarrow> None
      | _ # rest \<Rightarrow>
          (case (js_number (takeWhile (\<lambda>ch. ch \<noteq> CHR '':'') s), js_number (takeWhile (\<lambda>ch. ch \<noteq> CHR '':'') rest)) of
             (Some h, Some m) \<Rightarrow> Some (h * 60 + m) | _ \<Rightarrow> None))"

definition not_after :: "int option \<Rightarrow> int option \<Rightarrow> bool" where
  "not_after a b = (case (a, b) of (Some x, Some y) \<Rightarrow> x \<le> y | _ \<Rightarrow> False)"

definition isWithinLocalWindow :: "string \<Rightarrow> string \<Rightarrow> env \<Rightarrow> bool" where
  "isWithinLocalWindow fromHm toHm e =
     (let a = hm_minutes fromHm; b = hm_minutes toHm; now = Some (int (server_minutes e))
      in if not_after a b then not_after a now \<and> not_after now b else not_after a now \<or> not_after now b)"

definition redeemBreakfast :: "env \<Rightarrow> auth_ctx \<Rightarrow> id \<Rightarrow> nat option \<Rightarrow> db \<Rightarrow> (meal_entitlement \<times> db) result" where
  "redeemBreakfast e c stay quantity d =
     bindR (requireRooms e c Act_operate Sub_RoomStay ''Cannot redeem breakfast.'') (\<lambda>c.
     bindR (requireRoomServiceEnabled e c d) (\<lambda>(settings, d1).
       if \<not> tn_breakfastEnabled settings then Inl (Unprocessable ''Breakfast entitlements are disabled.'')
       else if \<not> isWithinLocalWindow (tn_breakfastFrom settings) (tn_breakfastTo settings) e
       then Inl (Unprocessable ''Outside breakfast redeem window.'')
       else
         let q = (case quantity of Some n \<Rightarrow> n | None \<Rightarrow> 1); today = businessDateUtc (env_now e)
         in case find (\<lambda>m. me_stayId m = stay \<and> me_mealType m = ''BREAKFAST'' \<and> me_businessDate m = today \<and>
                  is_ok (guest_stay c stay d1)) (meal_entitlements d1) of
              None \<Rightarrow> Inl (NotFound ''No breakfast entitlement for today.'')
            | Some m \<Rightarrow>
                if me_allowed m < me_used m + q then Inl (Unprocessable ''Not enough breakfast remaining.'')
                else bindR (commit (d1\<lparr>meal_entitlements := update_id me_id (me_id m)
                       (\<lambda>m. m\<lparr>me_used := me_used m + q\<rparr>) (meal_entitlements d1)\<rparr>)) (\<lambda>d2.
                       Inr (m\<lparr>me_used := me_used m + q\<rparr>, d2))))"

section \<open>Nights\<close>

lemma nights_from_eq: "nights_from a b = [a..b]"
proof (induction a b rule: nights_from.induct)
  case (1 a b)
  then show ?case by (subst nights_from.simps) (simp add: upto_rec1)
qed

lemma entitlement_rows_simps [simp]:
  "map me_businessDate (entitlement_rows b s n i ds) = ds"
  "m \<in> set (entitlement_rows b s n i ds) \<Longrightarrow>
     me_stayId m = s \<and> me_branchId m = b \<and> me_mealType m = ''BREAKFAST'' \<and> me_allowed m = n \<and> me_used m = 0"
  by (auto simp: entitlement_rows_def comp_def split_beta enumerate_eq_zip)

section \<open>The invariant of room service\<close>

text \<open>
  One guest in a room, one open session for a guest, no open session without a guest in the house,
  no more breakfasts than the stay has.
\<close>

definition rooms_inv :: "db \<Rightarrow> bool" where
  "rooms_inv d \<longleftrightarrow> db_ok d \<and> keyed in_house sy_hotelRoomId (room_stays d) \<and>
     keyed (\<lambda>s. rs_status s \<noteq> S_CLOSED) rs_roomStayId (room_sessions d) \<and>
     (\<forall>s \<in> set (room_sessions d). rs_status s \<noteq> S_CLOSED \<longrightarrow>
        (\<exists>x \<in> set (room_stays d). sy_id x = rs_roomStayId s \<and> in_house x)) \<and>
     (\<forall>m \<in> set (meal_entitlements d). me_used m \<le> me_allowed m)"

lemma rooms_inv_same:
  assumes "rooms_inv d" and "db_ok d'" and "room_stays d' = room_stays d" and "room_sessions d' = room_sessions d"
    and "meal_entitlements d' = meal_entitlements d"
  shows "rooms_inv d'"
  using assms by (simp add: rooms_inv_def)

lemma rooms_inv_ok: "rooms_inv d \<Longrightarrow> db_ok d"
  by (simp add: rooms_inv_def)

lemma db_ok_settings [simp]: "db_ok (d\<lparr>tenant_config := x\<rparr>) = db_ok d"
  by (simp add: db_ok_def db_constraints_def)

lemma ensureSettings_inv: "ensureSettings t d = (s, d1) \<Longrightarrow> rooms_inv d \<Longrightarrow> rooms_inv d1"
  by (auto simp: ensureSettings_def rooms_inv_def split: option.splits)

lemma enabled_inv: "requireRoomServiceEnabled e c d = Inr (s, d1) \<Longrightarrow> rooms_inv d \<Longrightarrow> rooms_inv d1"
  by (auto simp: requireRoomServiceEnabled_def split: prod.splits if_splits dest: ensureSettings_inv)

lemma requireRooms_eq_Inr [inversion]:
  "requireRooms e c a s m = Inr c' \<longleftrightarrow> c' = c \<and> ax_tenantId c \<noteq> None \<and> ax_branchId c \<noteq> None \<and> can e c a s"
  by (auto simp: requireRooms_def inversion)

lemma requireRoomWaiter_eq_Inr [inversion]:
  "requireRoomWaiter c = Inr c' \<longleftrightarrow> c' = c \<and> ax_tenantId c \<noteq> None \<and> ax_branchId c \<noteq> None \<and>
     ax_roleCode c \<in> set [''WAITER'', ''MANAGER'', ''OWNER_ADMIN'']"
  by (auto simp: requireRoomWaiter_def inversion)

lemma duplicate_room_eq_Inr [inversion]: "duplicate_room (commit d) = Inr d' \<longleftrightarrow> d' = d \<and> db_ok d"
  by (auto simp: duplicate_room_def commit_eq_Inr split: sum.splits) (simp add: commit_ok)+

lemma set_room_frame [frame, simp]:
  "room_stays (set_room i f d) = room_stays d" "room_sessions (set_room i f d) = room_sessions d"
  "meal_entitlements (set_room i f d) = meal_entitlements d"
  by (simp_all add: set_room_def)

lemma guest_stay_row:
  "guest_stay c i d = Inr s \<Longrightarrow> s \<in> set (room_stays d) \<and> sy_id s = i \<and> sy_branchId s = branch_of c \<and> in_house s"
  by (auto simp: guest_stay_def dest: find_Some_in split: option.splits)

lemma open_session_None:
  "open_session_of i d = None \<longleftrightarrow> (\<forall>s \<in> set (room_sessions d). rs_roomStayId s = i \<longrightarrow> rs_status s = S_CLOSED)"
  by (auto simp: open_session_of_def find_None_iff)

lemma set_update_id_cases:
  "r \<in> set (update_id key i f rs) \<Longrightarrow> (r \<in> set rs \<and> key r \<noteq> i) \<or> (\<exists>x \<in> set rs. key x = i \<and> r = f x)"
  by (auto simp: update_id_def update_many_def)

lemma checkInTx_effect:
  assumes "checkInTx c dto b t out d = Inr (s, d')"
  shows "s = new_stay c dto b t out (next_id d)" and "room_stays d' = room_stays d @ [s]"
    and "meal_entitlements d' = meal_entitlements d @ (if b then entitlement_rows (branch_of c) (sy_id s) (sy_adults s)
       (next_id d + 1) (eachBusinessNight t out) else [])"
    and "room_sessions d' = room_sessions d" and "db_ok d'"
  using assms by (auto simp: checkInTx_def Let_def commit_eq_Inr)

lemma checkIn_inv:
  assumes run: "checkIn e c dto d = Inr (s, d')" and inv: "rooms_inv d"
  shows "rooms_inv d'"
proof -
  from run obtain st d1 b out room where en: "requireRoomServiceEnabled e c d = Inr (st, d1)"
    and free: "stays_of (hr_id room) d1 = []" and room: "live_room c (ki_room dto) d1 = Inr room"
    and tx: "checkInTx c dto b (env_now e) out d1 = Inr (s, d')"
    by (auto simp: checkIn_def inversion split: if_splits)
  have inv1: "rooms_inv d1" by (rule enabled_inv [OF en inv])
  have "hr_id room = ki_room dto" using room by (auto simp: live_room_def dest: find_Some_in split: option.splits)
  with free have free: "\<forall>x \<in> set (room_stays d1). in_house x \<longrightarrow> sy_hotelRoomId x \<noteq> ki_room dto"
    by (auto simp: stays_of_def filter_empty_conv)
  note d' = checkInTx_effect [OF tx]
  have "sy_hotelRoomId s = ki_room dto" by (simp add: d'(1) new_stay_def)
  with free have "keyed in_house sy_hotelRoomId (room_stays d')"
    using inv1 by (auto simp: d'(2) keyed_append_one rooms_inv_def)
  moreover have "\<forall>m \<in> set (meal_entitlements d'). me_used m \<le> me_allowed m"
    using inv1 unfolding d'(3) rooms_inv_def by (auto split: if_splits)
  ultimately show ?thesis using inv1 d'(2,4,5) by (auto simp: rooms_inv_def)
qed

lemma checkOut_inv:
  assumes run: "checkOut e c i d = Inr (s', d')" and inv: "rooms_inv d"
  shows "rooms_inv d'"
proof -
  from run obtain st d1 s where en: "requireRoomServiceEnabled e c d = Inr (st, d1)"
    and g: "guest_stay c i d1 = Inr s" and no: "open_session_of (sy_id s) d1 = None"
    and d': "room_stays d' = update_id sy_id (sy_id s) (checked_out e c) (room_stays d1)"
      "meal_entitlements d' = meal_entitlements d1" "room_sessions d' = room_sessions d1" "db_ok d'"
    by (auto simp: checkOut_def inversion)
  have inv1: "rooms_inv d1" by (rule enabled_inv [OF en inv])
  have gone: "\<not> in_house (checked_out e c x)" for x by (simp add: in_house_def checked_out_def)
  have "keyed in_house sy_hotelRoomId (room_stays d')"
    unfolding d' by (rule keyed_update_id) (use inv1 gone in \<open>auto simp: rooms_inv_def\<close>)
  moreover have "\<exists>x \<in> set (room_stays d'). sy_id x = rs_roomStayId r \<and> in_house x"
    if r: "r \<in> set (room_sessions d1)" "rs_status r \<noteq> S_CLOSED" for r
  proof -
    from inv1 r obtain x where x: "x \<in> set (room_stays d1)" "sy_id x = rs_roomStayId r" "in_house x"
      unfolding rooms_inv_def by blast
    from no r x have "sy_id x \<noteq> sy_id s" by (auto simp: open_session_None)
    with x show ?thesis by (auto simp: d' update_id_def update_many_def image_iff)
  qed
  ultimately show ?thesis using inv1 d' by (simp add: rooms_inv_def)
qed

lemma openSession_inv:
  assumes run: "openSession e c i g d = Inr (r, d')" and inv: "rooms_inv d"
  shows "rooms_inv d'"
proof -
  from run obtain st d1 s where en: "requireRoomServiceEnabled e c d = Inr (st, d1)"
    and g: "guest_stay c i d1 = Inr s" and no: "open_session_of (sy_id s) d1 = None"
    and d': "room_sessions d' = room_sessions d1 @ [new_room_session e c s g (next_id d1)]"
      "meal_entitlements d' = meal_entitlements d1" "room_stays d' = room_stays d1" "db_ok d'"
    by (auto simp: openSession_def Let_def inversion split: if_splits option.splits)
  have inv1: "rooms_inv d1" by (rule enabled_inv [OF en inv])
  have new: "rs_roomStayId (new_room_session e c s g (next_id d1)) = sy_id s" by (simp add: new_room_session_def)
  have "keyed (\<lambda>s. rs_status s \<noteq> S_CLOSED) rs_roomStayId (room_sessions d')"
    using inv1 no new by (auto simp: d' keyed_append_one rooms_inv_def open_session_None)
  moreover have "\<exists>x \<in> set (room_stays d'). sy_id x = rs_roomStayId y \<and> in_house x"
    if "y \<in> set (room_sessions d')" "rs_status y \<noteq> S_CLOSED" for y
    using that inv1 guest_stay_row [OF g] new unfolding d' rooms_inv_def by auto
  ultimately show ?thesis using inv1 d' by (simp add: rooms_inv_def)
qed

lemma close_room_bill_frame [simp]:
  "room_sessions (close_room_bill e c i d) = room_sessions d" "room_stays (close_room_bill e c i d) = room_stays d"
  "meal_entitlements (close_room_bill e c i d) = meal_entitlements d"
  by (simp_all add: close_room_bill_def)

lemma forceCloseRoomTx_effect:
  assumes "forceCloseRoomTx e c s reason d = Inr d'"
  shows "room_sessions d' = update_id rs_id (rs_id s) (closed_room e c reason) (room_sessions d)"
    and "meal_entitlements d' = meal_entitlements d" and "room_stays d' = room_stays d" and "db_ok d'"
  using assms by (auto simp: forceCloseRoomTx_def Let_def commit_eq_Inr)

lemma forceClose_inv:
  assumes run: "forceCloseRoomSession e c i v reason d = Inr (r, d')" and inv: "rooms_inv d"
  shows "rooms_inv d'"
proof -
  from run obtain s where "forceCloseRoomTx e c s reason d = Inr d'" by (auto simp: forceCloseRoomSession_def inversion)
  note d' = forceCloseRoomTx_effect [OF this]
  have shut: "rs_status (closed_room e c reason x) = S_CLOSED" for x by (simp add: closed_room_def)
  have "keyed (\<lambda>s. rs_status s \<noteq> S_CLOSED) rs_roomStayId (room_sessions d')"
    unfolding d' by (rule keyed_update_id) (use inv shut in \<open>auto simp: rooms_inv_def\<close>)
  moreover have "\<exists>x \<in> set (room_stays d). sy_id x = rs_roomStayId y \<and> in_house x"
    if y: "y \<in> set (room_sessions d')" "rs_status y \<noteq> S_CLOSED" for y
  proof -
    from y shut have "y \<in> set (room_sessions d)" unfolding d' by (blast dest: set_update_id_cases)
    with inv y(2) show ?thesis by (simp add: rooms_inv_def)
  qed
  ultimately show ?thesis using inv d' by (simp add: rooms_inv_def)
qed

lemma redeem_effect:
  assumes run: "redeemBreakfast e c i q d = Inr (m', d')" and ok: "db_ok d"
  obtains m where "m \<in> set (meal_entitlements d)" and "me_stayId m = i" and "me_mealType m = ''BREAKFAST''"
    and "me_businessDate m = businessDateUtc (env_now e)"
    and "m' = m\<lparr>me_used := me_used m + (case q of Some n \<Rightarrow> n | None \<Rightarrow> 1)\<rparr>" and "me_used m' \<le> me_allowed m"
    and "\<exists>s \<in> set (room_stays d). sy_id s = i \<and> in_house s"
    and "meal_entitlements d' = update_id me_id (me_id m) (\<lambda>_. m') (meal_entitlements d)"
    and "room_stays d' = room_stays d" and "room_sessions d' = room_sessions d" and "db_ok d'"
proof -
  let ?q = "case q of Some n \<Rightarrow> n | None \<Rightarrow> 1"
  from run obtain st d1 where en: "requireRoomServiceEnabled e c d = Inr (st, d1)"
    by (auto simp: redeemBreakfast_def inversion)
  then have same: "meal_entitlements d1 = meal_entitlements d" "room_stays d1 = room_stays d" "room_sessions d1 = room_sessions d"
    by (auto simp: requireRoomServiceEnabled_def ensureSettings_def split: prod.splits option.splits if_splits)
  from run en obtain m where f: "find (\<lambda>m. me_stayId m = i \<and> me_mealType m = ''BREAKFAST'' \<and>
        me_businessDate m = businessDateUtc (env_now e) \<and> is_ok (guest_stay c i d1)) (meal_entitlements d1) = Some m"
    and le: "me_used m + ?q \<le> me_allowed m" and m': "m' = m\<lparr>me_used := me_used m + ?q\<rparr>"
    and d': "d' = d1\<lparr>meal_entitlements := update_id me_id (me_id m) (\<lambda>m. m\<lparr>me_used := me_used m + ?q\<rparr>) (meal_entitlements d1)\<rparr>"
      "db_ok d'"
    by (auto simp: redeemBreakfast_def Let_def inversion not_less split: if_splits option.splits)
  from find_Some_in [OF f] have m: "m \<in> set (meal_entitlements d1)" "me_stayId m = i" "me_mealType m = ''BREAKFAST''"
    "me_businessDate m = businessDateUtc (env_now e)" and g: "is_ok (guest_stay c i d1)" by blast+
  have "distinct (map me_id (meal_entitlements d))" using db_okD [OF ok] by (blast dest: primary_keyD)
  then have "x = m" if "x \<in> set (meal_entitlements d)" "me_id x = me_id m" for x
    using that m(1) same(1) row_by_distinct [of me_id "meal_entitlements d"] by (metis option.inject)
  then have "meal_entitlements d' = update_id me_id (me_id m) (\<lambda>_. m') (meal_entitlements d)"
    by (auto simp: d'(1) same m' update_id_def update_many_def)
  moreover have "\<exists>s \<in> set (room_stays d). sy_id s = i \<and> in_house s"
    using g guest_stay_row [of c i d1] by (auto simp: is_ok_iff same)
  ultimately show thesis using m le m' d' same by (intro that [of m]) simp_all
qed

lemma redeem_inv:
  assumes run: "redeemBreakfast e c i q d = Inr (m', d')" and inv: "rooms_inv d"
  shows "rooms_inv d'"
proof -
  from run rooms_inv_ok [OF inv] obtain m where
    m': "m' = m\<lparr>me_used := me_used m + (case q of Some n \<Rightarrow> n | None \<Rightarrow> 1)\<rparr>" "me_used m' \<le> me_allowed m"
    and d': "meal_entitlements d' = update_id me_id (me_id m) (\<lambda>_. m') (meal_entitlements d)"
      "room_stays d' = room_stays d" "room_sessions d' = room_sessions d" "db_ok d'"
    by (rule redeem_effect)
  have "me_used x \<le> me_allowed x" if "x \<in> set (meal_entitlements d')" for x
    using that m' inv set_update_id_cases [of x me_id "me_id m" "\<lambda>_. m'" "meal_entitlements d"]
    by (auto simp: d'(1) rooms_inv_def)
  with inv d' show ?thesis by (simp add: rooms_inv_def)
qed

section \<open>Runs\<close>

text \<open>The operations of room service in any order, by anyone; reads may create the settings row.\<close>

inductive room_step :: "db \<Rightarrow> db \<Rightarrow> bool" where
  "updateSettings e c u d = Inr (r1, d') \<Longrightarrow> room_step d d'"
| "createRoom e c dto d = Inr (r2, d') \<Longrightarrow> room_step d d'"
| "updateRoom e c i ru d = Inr (r2, d') \<Longrightarrow> room_step d d'"
| "archiveRoom e c i d = Inr (r3, d') \<Longrightarrow> room_step d d'"
| "checkIn e c ki d = Inr (r4, d') \<Longrightarrow> room_step d d'"
| "checkOut e c i d = Inr (r4, d') \<Longrightarrow> room_step d d'"
| "upsertCoverage e c fl w def d = Inr (r5, d') \<Longrightarrow> room_step d d'"
| "deleteCoverage e c i d = Inr (r3, d') \<Longrightarrow> room_step d d'"
| "openSession e c i guests d = Inr (r6, d') \<Longrightarrow> room_step d d'"
| "forceCloseRoomSession e c i v reason d = Inr (r6, d') \<Longrightarrow> room_step d d'"
| "redeemBreakfast e c i q d = Inr (r7, d') \<Longrightarrow> room_step d d'"
| "requireRoomServiceEnabled e c d = Inr (r1, d') \<Longrightarrow> room_step d d'"

abbreviation room_run :: "db \<Rightarrow> db \<Rightarrow> bool" where
  "room_run \<equiv> room_step\<^sup>*\<^sup>*"

lemma admin_inv:
  assumes "rooms_inv d"
  shows "updateSettings e c u d = Inr (r1, d') \<Longrightarrow> rooms_inv d'"
    and "createRoom e c dto d = Inr (r2, d') \<Longrightarrow> rooms_inv d'"
    and "updateRoom e c i ru d = Inr (r2, d') \<Longrightarrow> rooms_inv d'"
    and "archiveRoom e c i d = Inr (r3, d') \<Longrightarrow> rooms_inv d'"
    and "upsertCoverage e c fl w def d = Inr (r5, d') \<Longrightarrow> rooms_inv d'"
    and "deleteCoverage e c i d = Inr (r3, d') \<Longrightarrow> rooms_inv d'"
proof -
  note same = rooms_inv_same [OF assms]
  have en: "requireRoomServiceEnabled e c d = Inr (s, d1) \<Longrightarrow> rooms_inv d1" for s d1
    using enabled_inv assms by blast
  show "updateSettings e c u d = Inr (r1, d') \<Longrightarrow> rooms_inv d'"
    using ensureSettings_inv [OF _ assms] by (fastforce simp: updateSettings_def Let_def inversion rooms_inv_def split: prod.splits)
  show "createRoom e c dto d = Inr (r2, d') \<Longrightarrow> rooms_inv d'"
    by (auto simp: createRoom_def Let_def inversion dest!: en elim!: rooms_inv_same)
  show "updateRoom e c i ru d = Inr (r2, d') \<Longrightarrow> rooms_inv d'"
    by (auto simp: updateRoom_def Let_def inversion dest!: en elim!: rooms_inv_same)
  show "archiveRoom e c i d = Inr (r3, d') \<Longrightarrow> rooms_inv d'"
    by (auto simp: archiveRoom_def inversion intro!: same split: if_splits)
  show "upsertCoverage e c fl w def d = Inr (r5, d') \<Longrightarrow> rooms_inv d'"
    by (auto simp: upsertCoverage_def Let_def inversion dest!: en elim!: rooms_inv_same split: option.splits)
  show "deleteCoverage e c i d = Inr (r3, d') \<Longrightarrow> rooms_inv d'"
    by (auto simp: deleteCoverage_def inversion intro!: same split: option.splits)
qed

lemma room_step_inv: "room_step d d' \<Longrightarrow> rooms_inv d \<Longrightarrow> rooms_inv d'"
  by (induction rule: room_step.induct)
    (blast intro: admin_inv checkIn_inv checkOut_inv openSession_inv forceClose_inv redeem_inv enabled_inv)+

lemma room_run_inv: "room_run d d' \<Longrightarrow> rooms_inv d \<Longrightarrow> rooms_inv d'"
  by (induction rule: rtranclp_induct) (auto intro: room_step_inv)

lemma keyed_at_most_one: "keyed P key rs \<Longrightarrow> length (filter (\<lambda>r. key r = k \<and> P r) rs) \<le> 1"
proof (induction rs)
  case (Cons r rs)
  have "filter (\<lambda>r. key r = k \<and> P r) rs = []" if "key r = k" "P r"
    using Cons.prems that by (force simp: keyed_def filter_empty_conv image_iff)
  with Cons show ?case by (auto simp: keyed_def split: if_splits)
qed simp

section \<open>Properties\<close>

text \<open>
  C10: through any sequence of room service operations a room has at most one guest in the house
  and a guest at most one open session, an open session always has a guest in the house, and no
  stay eats more breakfasts than it was given.
\<close>

theorem room_service_invariant:
  assumes "room_run d0 d" and "rooms_inv d0"
  shows "(\<forall>room. length (stays_of room d) \<le> 1) \<and>
     (\<forall>stay. length (filter (\<lambda>s. rs_roomStayId s = stay \<and> rs_status s \<noteq> S_CLOSED) (room_sessions d)) \<le> 1) \<and>
     (\<forall>s \<in> set (room_sessions d). rs_status s \<noteq> S_CLOSED \<longrightarrow>
        (\<exists>x \<in> set (room_stays d). sy_id x = rs_roomStayId s \<and> in_house x)) \<and>
     (\<forall>m \<in> set (meal_entitlements d). me_used m \<le> me_allowed m)"
proof -
  have "rooms_inv d" using assms by (rule room_run_inv)
  then show ?thesis
    using keyed_at_most_one [of in_house sy_hotelRoomId "room_stays d"]
      keyed_at_most_one [of "\<lambda>s. rs_status s \<noteq> S_CLOSED" rs_roomStayId "room_sessions d"]
    by (simp add: rooms_inv_def stays_of_def)
qed

definition room_301 :: hotel_room where
  "room_301 = \<lparr>hr_id = 301, hr_branchId = 2, hr_roomNumber = ''301'', hr_floor = Some ''3'', hr_wing = None,
     hr_status = ''AVAILABLE'', hr_defaultWaiter = Some 10, hr_sortOrder = 0, hr_archivedAt = None\<rparr>"

definition hotel_db :: db where
  "hotel_db = floor_db\<lparr>hotel_rooms := [room_301], tenant_config := [(default_settings 1)
     \<lparr>tn_roomServiceEnabled := True, tn_breakfastEnabled := True, tn_breakfastFrom := ''03:00''\<rparr>]\<rparr>"

definition front_desk :: auth_ctx where
  "front_desk = staff_member 105 15 ''FRONT_DESK'' None 35 [''rooms.operate'', ''rooms.read'']"

definition two_nights :: check_in_dto where
  "two_nights = \<lparr>ki_room = 301, ki_guestName = ''Abebe'', ki_guestPhone = None, ki_adults = Some 2, ki_kids = None,
     ki_breakfast = True, ki_checkout = Checkout_day 1970 1 3, ki_idImage = None\<rparr>"

definition guest_db :: db where
  "guest_db = hotel_db\<lparr>hotel_rooms := [room_301\<lparr>hr_status := ''OCCUPIED''\<rparr>],
     room_stays := [new_stay front_desk two_nights True 1000000 205200000 1000],
     meal_entitlements := entitlement_rows 2 1000 2 1001 [0, 1], next_id := 1003\<rparr>"

lemma check_in_run:
  "checkIn evening front_desk two_nights hotel_db =
     Inr (new_stay front_desk two_nights True 1000000 205200000 1000, guest_db)"
  by code_simp

lemma hotel_inv: "rooms_inv hotel_db"
proof -
  have "db_ok hotel_db" by code_simp
  then show ?thesis by (simp add: rooms_inv_def hotel_db_def floor_db_def empty_db_def keyed_def)
qed

theorem room_service_invariant_witness:
  "\<exists>d. room_run hotel_db d \<and> map sy_id (stays_of 301 d) = [1000] \<and> map rs_roomStayId (room_sessions d) = [1000] \<and>
     map me_used (meal_entitlements d) = [1, 0] \<and> (\<forall>m \<in> set (meal_entitlements d). me_used m \<le> me_allowed m)"
proof -
  have "bindR (openSession later waiter 1000 None guest_db) (\<lambda>(r, d1).
     bindR (redeemBreakfast later front_desk 1000 None d1) (\<lambda>(m, d2).
       Inr (map sy_id (stays_of 301 d2), map rs_roomStayId (room_sessions d2), map me_used (meal_entitlements d2)))) =
     Inr ([1000], [1000], [1, 0])" by code_simp
  then obtain r d1 m d2 where o: "openSession later waiter 1000 None guest_db = Inr (r, d1)"
    and b: "redeemBreakfast later front_desk 1000 None d1 = Inr (m, d2)"
    and q: "map sy_id (stays_of 301 d2) = [1000]" "map rs_roomStayId (room_sessions d2) = [1000]"
      "map me_used (meal_entitlements d2) = [1, 0]" by (elim run_pairE) auto
  have run: "room_run hotel_db d2"
    using room_step.intros(5) [OF check_in_run] room_step.intros(9) [OF o] room_step.intros(11) [OF b] by auto
  from room_service_invariant [OF run hotel_inv] run q show ?thesis by (intro exI [of _ d2]) simp
qed

text \<open>
  C34: a check-in with breakfast gives the stay one entitlement for every night of the stay, dated by
  the day the night begins, for as many breakfasts as there are adults. The day of the checkout,
  on which the guest wakes up last, is not among them.
\<close>

theorem breakfasts_cover_the_nights:
  assumes "checkIn e c dto d = Inr (s, d')" and "sy_mealPlan s = ''BREAKFAST''"
    and "\<forall>m \<in> set (meal_entitlements d). me_stayId m < next_id d"
  shows "map me_businessDate (entitlements_of (sy_id s) d') =
       [businessDateUtc (sy_checkInAt s)..businessDateUtc (sy_plannedCheckOut s) - 1] \<and>
     (\<forall>m \<in> set (entitlements_of (sy_id s) d'). me_mealType m = ''BREAKFAST'' \<and> me_allowed m = sy_adults s \<and> me_used m = 0) \<and>
     businessDateUtc (sy_plannedCheckOut s) \<notin> me_businessDate ` set (entitlements_of (sy_id s) d')"
proof -
  from assms(1) obtain st d1 b out where en: "requireRoomServiceEnabled e c d = Inr (st, d1)"
    and tx: "checkInTx c dto b (env_now e) out d1 = Inr (s, d')"
    by (auto simp: checkIn_def inversion split: if_splits)
  have same: "meal_entitlements d1 = meal_entitlements d" "next_id d1 = next_id d"
    using en by (auto simp: requireRoomServiceEnabled_def ensureSettings_def split: prod.splits option.splits if_splits)
  note eff = checkInTx_effect [OF tx]
  have s: "sy_id s = next_id d" "sy_checkInAt s = env_now e" "sy_plannedCheckOut s = out"
    by (simp_all add: eff(1) new_stay_def same)
  have b: b using assms(2) by (auto simp: eff(1) new_stay_def split: if_splits)
  let ?ms = "entitlement_rows (branch_of c) (sy_id s) (sy_adults s) (next_id d1 + 1) (eachBusinessNight (env_now e) out)"
  have "filter (\<lambda>m. me_stayId m = sy_id s) (meal_entitlements d) = []"
    using assms(3) s(1) by (auto simp: filter_empty_conv)
  then have "entitlements_of (sy_id s) d' = ?ms"
    using eff(3) b by (simp add: entitlements_of_def same filter_id_conv)
  then have ms: "map me_businessDate (entitlements_of (sy_id s) d') = [businessDateUtc (env_now e)..businessDateUtc out - 1]"
    and rows: "\<forall>m \<in> set (entitlements_of (sy_id s) d'). me_mealType m = ''BREAKFAST'' \<and> me_allowed m = sy_adults s \<and> me_used m = 0"
    by (simp_all add: eachBusinessNight_def nights_from_eq)
  from ms have "me_businessDate ` set (entitlements_of (sy_id s) d') = {businessDateUtc (env_now e)..businessDateUtc out - 1}"
    by (metis list.set_map set_upto)
  with ms rows show ?thesis unfolding s by simp
qed

theorem breakfasts_cover_the_nights_witness:
  "\<exists>s. checkIn evening front_desk two_nights hotel_db = Inr (s, guest_db) \<and>
     map me_businessDate (entitlements_of (sy_id s) guest_db) = [0, 1] \<and> businessDateUtc (sy_plannedCheckOut s) = 2"
proof -
  let ?s = "new_stay front_desk two_nights True 1000000 205200000 1000"
  have "sy_mealPlan ?s = ''BREAKFAST''" and "\<forall>m \<in> set (meal_entitlements hotel_db). me_stayId m < next_id hotel_db"
    and t: "businessDateUtc (sy_checkInAt ?s) = 0" "businessDateUtc (sy_plannedCheckOut ?s) = 2" by code_simp+
  from breakfasts_cover_the_nights [OF check_in_run this(1,2)]
  have "map me_businessDate (entitlements_of (sy_id ?s) guest_db) = [0..1]" unfolding t by simp
  also have "[0..1] = [0, 1 :: int]" by (simp add: upto_rec1)
  finally show ?thesis using check_in_run t by (intro exI [of _ ?s]) (simp add: new_stay_def)
qed

end
