(* ===== verification/DailyClose.thy ===== *)
theory DailyClose
  imports Shifts Depletion Constraints
begin

text \<open>
  The end of a business day (\<open>src/daily-close/daily-close.service.ts\<close>): the snapshot of what the
  day billed, collected and left open, the daily close that stores it, and its locking, after
  which the day takes no orders, payments or drops (\<open>assertBusinessDayNotLocked\<close> in \<open>Access\<close>).

  Messages of blockers and names in responses are left out, and so are the item states DELAYED and
  VOIDED, which no writer produces; payment statuses are strings and all those the filters name are kept. The
  dash of the cancellation reason is a hyphen.
\<close>

section \<open>Dates\<close>

text \<open>
  \<open>new Date(raw + 'T00:00:00.000Z')\<close> takes days up to 31 in every month and carries the surplus
  over; the window of a day is that of its date at +03:00.
\<close>

definition parseBusinessDate :: "string \<Rightarrow> date result" where
  "parseBusinessDate s =
     (let shaped = length s = 10 \<and> s ! 4 = CHR ''-'' \<and> s ! 7 = CHR ''-'' \<and>
            list_all is_digit (take 4 s @ take 2 (drop 5 s) @ drop 8 s);
          m = read_digits (take 2 (drop 5 s)); n = read_digits (drop 8 s)
      in if \<not> shaped then Inl (Unprocessable ''businessDate invalid'')
         else if \<not> (1 \<le> m \<and> m \<le> 12 \<and> 1 \<le> n \<and> n \<le> 31) then Inl (Unprocessable ''businessDate invalid'')
         else Inr (days_from_civil (int (read_digits (take 4 s))) (int m) (int n)))"

definition in_day :: "date \<Rightarrow> time \<Rightarrow> bool" where
  "in_day day t \<longleftrightarrow> day * ms_per_day - addis_offset \<le> t \<and> t \<le> (day + 1) * ms_per_day - addis_offset - 1"

definition in_day_opt :: "date \<Rightarrow> time option \<Rightarrow> bool" where
  "in_day_opt day t = (case t of None \<Rightarrow> False | Some x \<Rightarrow> in_day day x)"

section \<open>What belongs to the day\<close>

definition bills_of_day :: "id \<Rightarrow> date \<Rightarrow> db \<Rightarrow> bill list" where
  "bills_of_day b day d = filter (\<lambda>x. bl_branchId x = b \<and>
     (bl_businessDate x = day \<or> in_day day (bl_generatedAt x))) (bills d)"

definition payment_in_day :: "date \<Rightarrow> payment \<Rightarrow> bool" where
  "payment_in_day day p \<longleftrightarrow> py_businessDate p = day \<or> in_day_opt day (py_settledAt p) \<or>
     in_day_opt day (py_collectedAt p) \<or> in_day day (py_initiatedAt p)"

definition payments_of_day :: "id \<Rightarrow> date \<Rightarrow> db \<Rightarrow> payment list" where
  "payments_of_day b day d = filter (\<lambda>p. py_branchId p = b \<and> payment_in_day day p) (payments d)"

definition items_of_day :: "id \<Rightarrow> date \<Rightarrow> db \<Rightarrow> order_item list" where
  "items_of_day b day d = filter (\<lambda>i. oi_branchId i = b \<and>
     (oi_businessDate i = day \<or> in_day day (oi_confirmedAt i))) (order_items d)"

definition drop_in_day :: "date \<Rightarrow> cash_drop \<Rightarrow> bool" where
  "drop_in_day day x \<longleftrightarrow> cd_businessDate x = day \<or> in_day day (cd_initiatedAt x)"

definition drawers_of_day :: "id \<Rightarrow> date \<Rightarrow> db \<Rightarrow> financial_session list" where
  "drawers_of_day b day d = filter (\<lambda>f. fs_branchId f = b \<and> fs_businessDate f = day) (financial_sessions d)"

definition shifts_of_day :: "id \<Rightarrow> date \<Rightarrow> db \<Rightarrow> shift_session list" where
  "shifts_of_day b day d = filter (\<lambda>s. sh_branchId s = b \<and>
     (sh_businessDate s = day \<or> in_day day (sh_clockInAt s)) \<and>
     (sh_roleCode s = Some ''WAITER'' \<or> list_ex (\<lambda>p. py_collectorShift p = sh_id s) (payments d) \<or>
      list_ex (\<lambda>x. cd_waiterShift x = sh_id s) (cash_drops d) \<or>
      list_ex (\<lambda>r. od_waiterShift r = sh_id s) (orders d))) (shift_sessions d)"

definition item_sales :: "order_item list \<Rightarrow> decimal" where
  "item_sales is = sum_list (map (\<lambda>i. oi_unitPrice i * of_nat (oi_quantity i)) (filter (\<lambda>i. oi_state i \<noteq> CANCELLED) is))"

definition paid_sum :: "pay_method \<Rightarrow> string list \<Rightarrow> payment list \<Rightarrow> decimal" where
  "paid_sum m sts ps = sum_list (map py_amount (filter (\<lambda>p. py_method p = m \<and> py_status p \<in> set sts) ps))"

definition pending_transfer :: "payment \<Rightarrow> bool" where
  "pending_transfer p \<longleftrightarrow> py_method p = TRANSFER \<and>
     py_status p \<in> set [''VERIFICATION_PENDING'', ''PENDING'', ''SUBMITTED'']"

section \<open>Lines of waiters and stations\<close>

definition waiterLineForShift :: "id \<Rightarrow> date \<Rightarrow> db \<Rightarrow> shift_session \<Rightarrow> waiter_line" where
  "waiterLineForShift b day d s =
     (let os = filter (\<lambda>r. od_waiterShift r = sh_id s \<and>
                 (od_businessDate r = day \<or> in_day day (od_confirmedAt r))) (orders d);
          ps = filter (\<lambda>p. py_branchId p = b \<and> py_collectorShift p = sh_id s \<and> payment_in_day day p) (payments d);
          xs = filter (\<lambda>x. cd_waiterShift x = sh_id s \<and> drop_in_day day x) (cash_drops d);
          collected = paid_sum CASH [''SETTLED''] ps;
          dropped = sum_list (map accepted_or_declared (filter (\<lambda>x. cd_status x \<in> set [D_RECEIVED, D_RESOLVED]) xs));
          pending = sum_list (map cd_declared (filter (\<lambda>x. cd_status x \<in> set [D_INITIATED, D_DISPUTED]) xs))
      in \<lparr>wl_waiter = sh_staff s, wl_shift = sh_id s, wl_orders = length os,
          wl_tables = count_where (\<lambda>t. ts_primaryShift t = sh_id s \<and> ts_businessDate t = day) (table_sessions d),
          wl_netSales = dp2 (item_sales (filter (\<lambda>i. oi_orderId i \<in> od_id ` set os) (order_items d))),
          wl_collected = dp2 collected, wl_dropped = dp2 dropped,
          wl_undropped = dp2 (max (collected - dropped - pending) 0),
          wl_transfers = dp2 (paid_sum TRANSFER [''SETTLED'', ''VERIFIED''] ps)\<rparr>)"

definition stationLine :: "order_item list \<Rightarrow> station \<Rightarrow> station_line" where
  "stationLine is s =
     (let its = filter (\<lambda>i. oi_currentStation i = sn_id s) is
      in \<lparr>stl_station = sn_id s, stl_name = sn_name s,
          stl_handled = count_where (\<lambda>i. oi_state i \<in> set [READY, SERVED]) its,
          stl_delayed = 0,
          stl_cannotPrepare = count_where (\<lambda>i. oi_state i = CANNOT_PREPARE) its\<rparr>)"

section \<open>Blockers\<close>

definition open_kitchen_states :: "item_state list" where
  "open_kitchen_states = [CONFIRMED, QUEUED, ACKNOWLEDGED, IN_PREPARATION, READY, CANNOT_PREPARE]"

definition open_ticket :: "id \<Rightarrow> order_item \<Rightarrow> bool" where
  "open_ticket b i \<longleftrightarrow> oi_branchId i = b \<and> oi_cancelledAt i = None \<and> oi_state i \<in> set open_kitchen_states"

definition open_seating :: "id \<Rightarrow> table_session \<Rightarrow> bool" where
  "open_seating b s \<longleftrightarrow> ts_branchId s = b \<and> ts_status s \<noteq> S_CLOSED \<and>
     ts_sessionKind s \<notin> set [CALL_PICKUP, COUNTER]"

definition open_room :: "id \<Rightarrow> room_session \<Rightarrow> bool" where
  "open_room b s \<longleftrightarrow> rs_branchId s = b \<and> rs_status s \<noteq> S_CLOSED"

definition seating_blockers :: "id \<Rightarrow> date \<Rightarrow> db \<Rightarrow> blocker list" where
  "seating_blockers b day d =
     (let row = (\<lambda>s. \<lparr>bk_code = OPEN_TABLE_SESSION, bk_entity = ts_id s, bk_version = Some (ts_version s)\<rparr>);
          ss = filter (open_seating b) (table_sessions d)
      in map row (filter (\<lambda>s. ts_businessDate s = day) ss) @ map row (filter (\<lambda>s. ts_businessDate s \<noteq> day) ss))"

definition room_blockers :: "id \<Rightarrow> date \<Rightarrow> db \<Rightarrow> blocker list" where
  "room_blockers b day d =
     (let row = (\<lambda>s. \<lparr>bk_code = OPEN_ROOM_SESSION, bk_entity = rs_id s, bk_version = Some (rs_version s)\<rparr>);
          ss = filter (open_room b) (room_sessions d)
      in map row (filter (\<lambda>s. rs_businessDate s = day) ss) @ map row (filter (\<lambda>s. rs_businessDate s \<noteq> day) ss))"

definition ticket_blockers :: "id \<Rightarrow> db \<Rightarrow> blocker list" where
  "ticket_blockers b d = map (\<lambda>i. \<lparr>bk_code = OPEN_KITCHEN_TICKET, bk_entity = oi_id i,
     bk_version = Some (oi_version i)\<rparr>) (take 200 (filter (open_ticket b) (order_items d)))"

definition transfer_blockers :: "id \<Rightarrow> date \<Rightarrow> db \<Rightarrow> blocker list" where
  "transfer_blockers b day d = map (\<lambda>p. \<lparr>bk_code = PENDING_TRANSFER, bk_entity = py_id p, bk_version = None\<rparr>)
     (filter pending_transfer (payments_of_day b day d))"

definition drop_blockers :: "id \<Rightarrow> db \<Rightarrow> blocker list" where
  "drop_blockers b d = map (\<lambda>x. \<lparr>bk_code = if cd_status x = D_DISPUTED then DISPUTED_CASH_DROP else OPEN_CASH_DROP,
     bk_entity = cd_id x, bk_version = None\<rparr>)
     (filter (\<lambda>x. cd_branchId x = b \<and> cd_status x \<in> set [D_INITIATED, D_DISPUTED]) (cash_drops d))"

definition drawer_blocker :: "db \<Rightarrow> financial_session \<Rightarrow> blocker list" where
  "drawer_blocker d f =
     (case row_by rn_financialSession (fs_id f) (reconciliations d) of
        None \<Rightarrow> [\<lparr>bk_code = CASHIER_RECONCILIATION_MISSING, bk_entity = fs_id f, bk_version = None\<rparr>]
      | Some r \<Rightarrow> if rn_status r = ''FLAGGED''
          then [\<lparr>bk_code = CASHIER_RECONCILIATION_FLAGGED, bk_entity = rn_id r, bk_version = None\<rparr>] else [])"

definition flagged_blockers :: "id \<Rightarrow> date \<Rightarrow> db \<Rightarrow> blocker list" where
  "flagged_blockers b day d = map (\<lambda>r. \<lparr>bk_code = CASHIER_RECONCILIATION_FLAGGED, bk_entity = rn_id r, bk_version = None\<rparr>)
     (filter (\<lambda>r. rn_branchId r = b \<and> rn_businessDate r = day \<and> rn_status r = ''FLAGGED'') (reconciliations d))"

definition pouch_blockers :: "waiter_line list \<Rightarrow> blocker list" where
  "pouch_blockers ws = map (\<lambda>w. \<lparr>bk_code = UNDROPPED_WAITER_CASH, bk_entity = wl_shift w, bk_version = None\<rparr>)
     (filter (\<lambda>w. 0 < wl_undropped w) ws)"

text \<open>Kitchen tickets are cancelled at the lock, so they are no hard blockers.\<close>

definition hardBlockers :: "blocker list \<Rightarrow> blocker list" where
  "hardBlockers bs = filter (\<lambda>x. bk_code x \<noteq> OPEN_KITCHEN_TICKET) bs"

section \<open>The snapshot\<close>

record day_snapshot =
  sp_totals :: close_totals
  sp_kitchen :: decimal
  sp_waiters :: "waiter_line list"
  sp_stations :: "station_line list"
  sp_blockers :: "blocker list"
  sp_tableCount :: nat
  sp_orderCount :: nat
  sp_itemCount :: nat

text \<open>What the drawers of the day should hold is at least their floats and the drops received.\<close>

definition cashier_expected :: "id \<Rightarrow> date \<Rightarrow> db \<Rightarrow> decimal" where
  "cashier_expected b day d =
     (let fs = drawers_of_day b day d;
          booked = sum_list (map (\<lambda>f. sessionExpected f d) fs);
          received = sum_list (map accepted_or_declared (filter (\<lambda>x. cd_branchId x = b \<and>
            cd_status x \<in> set [D_RECEIVED, D_RESOLVED] \<and> drop_in_day day x) (cash_drops d)));
          least = sum_list (map fs_openingFloat fs) + received
      in if booked < least then least else booked)"

definition cashier_counted :: "id \<Rightarrow> date \<Rightarrow> db \<Rightarrow> decimal" where
  "cashier_counted b day d = sum_list (map (\<lambda>f. case row_by rn_financialSession (fs_id f) (reconciliations d) of
     Some r \<Rightarrow> rn_counted r | None \<Rightarrow> 0) (drawers_of_day b day d))"

definition day_totals :: "id \<Rightarrow> date \<Rightarrow> db \<Rightarrow> waiter_line list \<Rightarrow> close_totals" where
  "day_totals b day d ws =
     (let bs = bills_of_day b day d; ps = payments_of_day b day d
      in \<lparr>ct_gross = sum_list (map bl_subtotal bs), ct_cancelled = sum_list (map bl_cancelled bs),
          ct_netBilled = sum_list (map bl_total bs),
          ct_cashSales = paid_sum CASH [''SETTLED''] ps,
          ct_verifiedTransfers = paid_sum TRANSFER [''SETTLED'', ''VERIFIED''] ps,
          ct_pendingTransfers = paid_sum TRANSFER [''VERIFICATION_PENDING'', ''PENDING'', ''SUBMITTED''] ps,
          ct_suspiciousTransfers = paid_sum TRANSFER [''REJECTED'', ''SUSPICIOUS'', ''FLAGGED''] ps,
          ct_cashierExpected = cashier_expected b day d, ct_cashierCounted = cashier_counted b day d,
          ct_cashierVariance = cashier_counted b day d - cashier_expected b day d,
          ct_undropped = sum_list (map wl_undropped ws)\<rparr>)"

definition buildSnapshot :: "id \<Rightarrow> date \<Rightarrow> db \<Rightarrow> day_snapshot" where
  "buildSnapshot b day d =
     (let its = items_of_day b day d; ws = map (waiterLineForShift b day d) (shifts_of_day b day d)
      in \<lparr>sp_totals = day_totals b day d ws, sp_kitchen = item_sales its, sp_waiters = ws,
          sp_stations = map (stationLine its) (filter (\<lambda>s. sn_branchId s = b) (stations d)),
          sp_blockers = seating_blockers b day d @ room_blockers b day d @ ticket_blockers b d @
            transfer_blockers b day d @ drop_blockers b d @
            concat (map (drawer_blocker d) (drawers_of_day b day d)) @ flagged_blockers b day d @ pouch_blockers ws,
          sp_tableCount = count_where (\<lambda>s. ts_branchId s = b \<and> ts_businessDate s = day \<and>
            ts_sessionKind s \<notin> set [CALL_PICKUP, COUNTER]) (table_sessions d),
          sp_orderCount = count_where (\<lambda>r. od_branchId r = b \<and>
            (od_businessDate r = day \<or> in_day day (od_confirmedAt r))) (orders d),
          sp_itemCount = length its\<rparr>)"

section \<open>Guards and responses\<close>

definition requireClosing :: "env \<Rightarrow> auth_ctx \<Rightarrow> app_action \<Rightarrow> string \<Rightarrow> auth_ctx result" where
  "requireClosing e c a msg =
     (if ax_tenantId c = None \<or> ax_branchId c = None \<or> ax_staffMembershipId c = None
      then Inl (Forbidden ''No restaurant branch on this account.'')
      else bindR (assertCan e c a Sub_DailyClose msg) (\<lambda>_. Inr c))"

definition requirePrepare :: "env \<Rightarrow> auth_ctx \<Rightarrow> auth_ctx result" where
  "requirePrepare e c = requireClosing e c Act_prepare ''Daily close is for managers/cashiers.''"

definition requireApprove :: "env \<Rightarrow> auth_ctx \<Rightarrow> auth_ctx result" where
  "requireApprove e c = requireClosing e c Act_approve ''Approve daily close is for managers.''"

definition requireLock :: "env \<Rightarrow> auth_ctx \<Rightarrow> auth_ctx result" where
  "requireLock e c = requireClosing e c Act_lock ''Lock daily close is for managers.''"

lemma requireClosing_eq_Inr [inversion]:
  "requireClosing e c a m = Inr c' \<longleftrightarrow> c' = c \<and> ax_tenantId c \<noteq> None \<and> ax_branchId c \<noteq> None \<and>
     ax_staffMembershipId c \<noteq> None \<and> can e c a Sub_DailyClose"
  by (auto simp: requireClosing_def inversion)

definition requireClose :: "auth_ctx \<Rightarrow> id \<Rightarrow> db \<Rightarrow> daily_close result" where
  "requireClose c i d =
     (case find (\<lambda>x. dc_id x = i \<and> dc_branchId x = branch_of c) (daily_closes d) of
        None \<Rightarrow> Inl (NotFound ''Daily close not found.'') | Some x \<Rightarrow> Inr x)"

definition close_of_day :: "id \<Rightarrow> date \<Rightarrow> db \<Rightarrow> daily_close option" where
  "close_of_day b day d = find (\<lambda>x. dc_branchId x = b \<and> dc_businessDate x = day) (daily_closes d)"

definition mapClose :: "daily_close \<Rightarrow> close_dto" where
  "mapClose x = \<lparr>xd_closeId = dc_id x, xd_businessDate = dc_businessDate x, xd_status = dc_status x,
     xd_totals = dc_totals x, xd_waiters = dc_waiterLines x, xd_stations = dc_stationLines x,
     xd_ready = (hardBlockers (dc_blockers x) = []), xd_blockers = dc_blockers x,
     xd_approvedAt = dc_approvedAt x, xd_lockedAt = dc_lockedAt x, xd_version = dc_version x\<rparr>"

definition toDtoFromId :: "id \<Rightarrow> db \<Rightarrow> close_dto result" where
  "toDtoFromId i d = (case row_by dc_id i (daily_closes d) of
     None \<Rightarrow> Inl (NotFound ''Daily close not found.'') | Some x \<Rightarrow> Inr (mapClose x))"

record preview_res =
  pv_businessDate :: date
  pv_ready :: bool
  pv_snapshot :: day_snapshot
  pv_openTables :: nat
  pv_existing :: "(id \<times> string \<times> nat) option"

text \<open>The day of the preview defaults to the current UTC date.\<close>

definition preview :: "env \<Rightarrow> auth_ctx \<Rightarrow> string option \<Rightarrow> db \<Rightarrow> preview_res result" where
  "preview e c raw d =
     bindR (requirePrepare e c) (\<lambda>c.
     bindR (case raw of Some s \<Rightarrow> parseBusinessDate s | None \<Rightarrow> Inr (env_now e div ms_per_day)) (\<lambda>day.
       let s = buildSnapshot (branch_of c) day d
       in Inr \<lparr>pv_businessDate = day, pv_ready = (hardBlockers (sp_blockers s) = []), pv_snapshot = s,
            pv_openTables = count_where (\<lambda>x. bk_code x \<in> set [OPEN_TABLE_SESSION, OPEN_ROOM_SESSION]) (sp_blockers s),
            pv_existing = map_option (\<lambda>x. (dc_id x, dc_status x, dc_version x)) (close_of_day (branch_of c) day d)\<rparr>))"

definition parse_bound :: "string option \<Rightarrow> date option result" where
  "parse_bound q = (case q of None \<Rightarrow> Inr None | Some [] \<Rightarrow> Inr None
     | Some s \<Rightarrow> bindR (parseBusinessDate s) (\<lambda>day. Inr (Some day)))"

definition wanted_statuses :: "string option \<Rightarrow> string list option" where
  "wanted_statuses q = (case q of None \<Rightarrow> None
     | Some s \<Rightarrow> if trim s = [] then None
         else Some (filter (\<lambda>x. x \<noteq> []) (map (\<lambda>x. to_upper (trim x)) (split_comma s))))"

definition listCloses ::
  "env \<Rightarrow> auth_ctx \<Rightarrow> string option \<Rightarrow> string option \<Rightarrow> string option \<Rightarrow> db \<Rightarrow> close_dto list result" where
  "listCloses e c from to st d =
     bindR (requirePrepare e c) (\<lambda>c.
     bindR (parse_bound from) (\<lambda>lo.
     bindR (parse_bound to) (\<lambda>hi.
       Inr (map mapClose (take 30 (sort_key (\<lambda>x. - dc_businessDate x)
         (filter (\<lambda>x. dc_branchId x = branch_of c \<and>
            (case lo of None \<Rightarrow> True | Some day \<Rightarrow> day \<le> dc_businessDate x) \<and>
            (case hi of None \<Rightarrow> True | Some day \<Rightarrow> dc_businessDate x \<le> day) \<and>
            (case wanted_statuses st of None \<Rightarrow> True | Some ss \<Rightarrow> List.member ss (dc_status x)))
           (daily_closes d))))))))"

definition getClose :: "env \<Rightarrow> auth_ctx \<Rightarrow> id \<Rightarrow> db \<Rightarrow> close_dto result" where
  "getClose e c i d =
     bindR (requirePrepare e c) (\<lambda>c. bindR (requireClose c i d) (\<lambda>_. toDtoFromId i d))"

section \<open>Create, refresh, approve\<close>

definition stored_totals :: "close_totals \<Rightarrow> close_totals" where
  "stored_totals t = \<lparr>ct_gross = dp2 (ct_gross t), ct_cancelled = dp2 (ct_cancelled t),
     ct_netBilled = dp2 (ct_netBilled t), ct_cashSales = dp2 (ct_cashSales t),
     ct_verifiedTransfers = dp2 (ct_verifiedTransfers t), ct_pendingTransfers = dp2 (ct_pendingTransfers t),
     ct_suspiciousTransfers = dp2 (ct_suspiciousTransfers t), ct_cashierExpected = dp2 (ct_cashierExpected t),
     ct_cashierCounted = dp2 (ct_cashierCounted t), ct_cashierVariance = dp2 (ct_cashierVariance t),
     ct_undropped = dp2 (ct_undropped t)\<rparr>"

definition readiness :: "day_snapshot \<Rightarrow> string" where
  "readiness s = (if hardBlockers (sp_blockers s) = [] then ''READY_FOR_REVIEW'' else ''DRAFT'')"

text \<open>The totals, counts and lines of a row, from a snapshot; \<open>replaceLines\<close> rewrites all lines.\<close>

definition with_snapshot :: "day_snapshot \<Rightarrow> blocker list \<Rightarrow> daily_close \<Rightarrow> daily_close" where
  "with_snapshot s bs x = x\<lparr>dc_totals := stored_totals (sp_totals s), dc_tableCount := sp_tableCount s,
     dc_orderCount := sp_orderCount s, dc_itemCount := sp_itemCount s, dc_blockers := bs,
     dc_waiterLines := sp_waiters s, dc_stationLines := sp_stations s\<rparr>"

definition new_close :: "auth_ctx \<Rightarrow> date \<Rightarrow> string \<Rightarrow> id \<Rightarrow> daily_close" where
  "new_close c day st i = \<lparr>dc_id = i, dc_branchId = branch_of c, dc_businessDate = day, dc_status = st,
     dc_generatedBy = staff_of c, dc_approvedAt = None, dc_approvedBy = None, dc_lockedAt = None, dc_lockedBy = None,
     dc_totals = \<lparr>ct_gross = 0, ct_cancelled = 0, ct_netBilled = 0, ct_cashSales = 0, ct_verifiedTransfers = 0,
       ct_pendingTransfers = 0, ct_suspiciousTransfers = 0, ct_cashierExpected = 0, ct_cashierCounted = 0,
       ct_cashierVariance = 0, ct_undropped = 0\<rparr>,
     dc_tableCount = 0, dc_orderCount = 0, dc_itemCount = 0, dc_blockers = [], dc_version = 1,
     dc_waiterLines = [], dc_stationLines = []\<rparr>"

definition createBody :: "env \<Rightarrow> auth_ctx \<Rightarrow> command_key \<Rightarrow> string \<Rightarrow> db \<Rightarrow> (response \<times> db) result" where
  "createBody e c k raw d =
     bindR (parseBusinessDate raw) (\<lambda>day.
       if close_of_day (branch_of c) day d \<noteq> None then Inl (Conflict ''DAILY_CLOSE_ALREADY_EXISTS'')
       else
         let s = buildSnapshot (branch_of c) day d;
             x = with_snapshot s (sp_blockers s) (new_close c day (readiness s) (next_id d));
             res = Res_Close (mapClose x)
         in bindR (commit (storeIdempotent (env_hash e) (dc_id x) k (Req_CreateClose raw) res
                (d\<lparr>daily_closes := daily_closes d @ [x], next_id := next_id d + 1\<rparr>))) (\<lambda>d1. Inr (res, d1)))"

definition createClose :: "env \<Rightarrow> auth_ctx \<Rightarrow> string \<Rightarrow> string option \<Rightarrow> db \<Rightarrow> (response \<times> db) result" where
  "createClose e c raw key d =
     bindR (requirePrepare e c) (\<lambda>c.
     bindR (requireIdempotencyKey key) (\<lambda>s.
       let k = command_key c ''daily_close.create'' s
       in guarded_command e k (Req_CreateClose raw) (createBody e c k raw) d))"

definition set_close :: "id \<Rightarrow> (daily_close \<Rightarrow> daily_close) \<Rightarrow> db \<Rightarrow> db" where
  "set_close i f d = d\<lparr>daily_closes := update_id dc_id i f (daily_closes d)\<rparr>"

definition refreshed :: "day_snapshot \<Rightarrow> daily_close \<Rightarrow> daily_close" where
  "refreshed s x = (with_snapshot s (sp_blockers s) x)
     \<lparr>dc_status := if dc_status x = ''APPROVED'' then ''APPROVED'' else readiness s, dc_version := dc_version x + 1\<rparr>"

definition refreshClose :: "env \<Rightarrow> auth_ctx \<Rightarrow> id \<Rightarrow> db \<Rightarrow> (close_dto \<times> db) result" where
  "refreshClose e c i d =
     bindR (requirePrepare e c) (\<lambda>c.
     bindR (requireClose c i d) (\<lambda>x.
       if dc_status x = ''LOCKED'' then Inl (Conflict ''DAILY_CLOSE_ALREADY_LOCKED'')
       else if dc_status x \<notin> set [''DRAFT'', ''READY_FOR_REVIEW'', ''APPROVED'']
       then Inl (Unprocessable ''DAILY_CLOSE_NOT_REFRESHABLE'')
       else
         bindR (commit (set_close i (refreshed (buildSnapshot (branch_of c) (dc_businessDate x) d)) d)) (\<lambda>d1.
         bindR (toDtoFromId i d1) (\<lambda>r. Inr (r, d1)))))"

definition approved :: "env \<Rightarrow> auth_ctx \<Rightarrow> daily_close \<Rightarrow> daily_close" where
  "approved e c x = x\<lparr>dc_status := ''APPROVED'', dc_approvedAt := Some (env_now e), dc_approvedBy := Some (staff_of c),
     dc_version := dc_version x + 1\<rparr>"

definition approveClose :: "env \<Rightarrow> auth_ctx \<Rightarrow> id \<Rightarrow> nat \<Rightarrow> db \<Rightarrow> (close_dto \<times> db) result" where
  "approveClose e c i v d =
     bindR (requireApprove e c) (\<lambda>c.
     bindR (requireClose c i d) (\<lambda>x.
       if dc_version x \<noteq> v then Inl (StaleVersion (dc_version x))
       else if dc_status x = ''LOCKED'' then Inl (Conflict ''DAILY_CLOSE_ALREADY_LOCKED'')
       else if dc_status x \<notin> set [''READY_FOR_REVIEW'', ''DRAFT'', ''APPROVED'']
       then Inl (Unprocessable ''DAILY_CLOSE_NOT_APPROVABLE'')
       else
         bindR (commit (set_close i (approved e c) d)) (\<lambda>d1.
         bindR (toDtoFromId i d1) (\<lambda>r. Inr (r, d1)))))"

section \<open>Lock\<close>

definition abandoned :: "env \<Rightarrow> auth_ctx \<Rightarrow> order_item \<Rightarrow> order_item" where
  "abandoned e c i = i\<lparr>oi_state := CANCELLED, oi_cancelledAt := Some (env_now e),
     oi_cancelledBy := Some (staff_of c), oi_cancellationReason := Some ''Day closed - abandoned kitchen ticket'',
     oi_version := oi_version i + 1\<rparr>"

definition abandon_item :: "env \<Rightarrow> auth_ctx \<Rightarrow> order_item \<Rightarrow> db \<Rightarrow> db result" where
  "abandon_item e c i d =
     reverseForOrderItem (oi_id i) (oi_tenantId i) (oi_branchId i)
       (d\<lparr>order_items := update_id oi_id (oi_id i) (abandoned e c) (order_items d)\<rparr>)"

definition reopen_session :: "id \<Rightarrow> db \<Rightarrow> db" where
  "reopen_session sid d =
     (if count_where (\<lambda>i. oi_tableSessionId i = Some sid \<and> oi_cancelledAt i = None \<and> oi_state i \<noteq> CANCELLED)
           (order_items d) = 0
      then d\<lparr>table_sessions := update_many (\<lambda>s. ts_id s = sid \<and> ts_status s = S_ACTIVE_ORDER)
              (\<lambda>s. s\<lparr>ts_status := S_OPEN, ts_version := ts_version s + 1\<rparr>) (table_sessions d)\<rparr>
      else d)"

text \<open>One transaction of its own, over at most 2000 items.\<close>

definition abandonOpenKitchenTickets :: "env \<Rightarrow> auth_ctx \<Rightarrow> db \<Rightarrow> db result" where
  "abandonOpenKitchenTickets e c d =
     (let its = take 2000 (filter (open_ticket (branch_of c)) (order_items d))
      in if its = [] then Inr d
         else
           bindR (foldR (abandon_item e c) its d) (\<lambda>d1.
             commit (fold reopen_session (remdups (List.map_filter oi_tableSessionId its)) d1)))"

definition locked :: "env \<Rightarrow> auth_ctx \<Rightarrow> daily_close \<Rightarrow> day_snapshot \<Rightarrow> daily_close \<Rightarrow> daily_close" where
  "locked e c seen s x = (with_snapshot s [] x)
     \<lparr>dc_status := ''LOCKED'', dc_lockedAt := Some (env_now e), dc_lockedBy := Some (staff_of c),
      dc_approvedAt := (case dc_approvedAt seen of Some t \<Rightarrow> Some t | None \<Rightarrow> Some (env_now e)),
      dc_approvedBy := (case dc_approvedBy seen of Some m \<Rightarrow> Some m | None \<Rightarrow> Some (staff_of c)),
      dc_version := dc_version x + 1\<rparr>"

definition lock_res :: "daily_close \<Rightarrow> response" where
  "lock_res x = Res_Lock (dc_id x) (dc_status x) (dc_businessDate x) (dc_lockedAt x) (dc_lockedBy x) (dc_version x)"

definition lockTx :: "env \<Rightarrow> auth_ctx \<Rightarrow> command_key \<Rightarrow> nat \<Rightarrow> daily_close \<Rightarrow> db \<Rightarrow> (response \<times> db) result" where
  "lockTx e c k v seen d =
     (let s = buildSnapshot (branch_of c) (dc_businessDate seen) d
      in if hardBlockers (sp_blockers s) \<noteq> [] then Inl (Conflict ''DAILY_CLOSE_BLOCKED'')
         else
           let d1 = set_close (dc_id seen) (locked e c seen s) d
           in (case row_by dc_id (dc_id seen) (daily_closes d1) of
                 None \<Rightarrow> Inl (DbError ''P2025'')
               | Some x \<Rightarrow>
                   bindR (commit (storeIdempotent (env_hash e) (dc_id x) k (Req_LockClose (dc_id seen) v) (lock_res x) d1))
                     (\<lambda>d2. Inr (lock_res x, d2))))"

definition checkLock :: "env \<Rightarrow> auth_ctx \<Rightarrow> id \<Rightarrow> nat \<Rightarrow> string option \<Rightarrow> db \<Rightarrow> (string \<times> response option) result" where
  "checkLock e c i v key d =
     bindR (requireLock e c) (\<lambda>c.
     bindR (requireIdempotencyKey key) (\<lambda>s.
     bindR (findIdempotent (env_hash e) (command_key c ''daily_close.lock'' s) (Req_LockClose i v) d) (\<lambda>r. Inr (s, r))))"

definition checkClose :: "auth_ctx \<Rightarrow> id \<Rightarrow> nat \<Rightarrow> db \<Rightarrow> daily_close result" where
  "checkClose c i v d =
     bindR (requireClose c i d) (\<lambda>x.
       if dc_version x \<noteq> v then Inl (StaleVersion (dc_version x))
       else if dc_status x = ''LOCKED'' then Inl (Conflict ''DAILY_CLOSE_ALREADY_LOCKED'') else Inr x)"

text \<open>The tickets are abandoned before the blockers are looked at, so a refused lock keeps that.\<close>

definition lockClose :: "env \<Rightarrow> auth_ctx \<Rightarrow> id \<Rightarrow> nat \<Rightarrow> string option \<Rightarrow> db \<Rightarrow> response result \<times> db" where
  "lockClose e c i v key d =
     (case checkLock e c i v key d of
        Inl x \<Rightarrow> (Inl x, d)
      | Inr (s, Some res) \<Rightarrow> (Inr res, d)
      | Inr (s, None) \<Rightarrow>
          (case checkClose c i v d of
             Inl x \<Rightarrow> (Inl x, d)
           | Inr seen \<Rightarrow>
               (case abandonOpenKitchenTickets e c d of
                  Inl x \<Rightarrow> (Inl x, d)
                | Inr d1 \<Rightarrow>
                    (case lockTx e c (command_key c ''daily_close.lock'' s) v seen d1 of
                       Inl x \<Rightarrow> (Inl x, d1)
                     | Inr (res, d2) \<Rightarrow> (Inr res, d2)))))"

section \<open>What the blockers say\<close>

definition day_settled :: "id \<Rightarrow> date \<Rightarrow> db \<Rightarrow> bool" where
  "day_settled b day d \<longleftrightarrow>
     (\<forall>s \<in> set (table_sessions d). \<not> open_seating b s) \<and> (\<forall>s \<in> set (room_sessions d). \<not> open_room b s) \<and>
     (\<forall>p \<in> set (payments_of_day b day d). \<not> pending_transfer p) \<and>
     (\<forall>x \<in> set (cash_drops d). cd_branchId x = b \<longrightarrow> cd_status x \<noteq> D_INITIATED \<and> cd_status x \<noteq> D_DISPUTED) \<and>
     (\<forall>f \<in> set (drawers_of_day b day d). \<exists>r. row_by rn_financialSession (fs_id f) (reconciliations d) = Some r \<and>
        rn_status r \<noteq> ''FLAGGED'') \<and>
     (\<forall>r \<in> set (reconciliations d). rn_branchId r = b \<and> rn_businessDate r = day \<longrightarrow> rn_status r \<noteq> ''FLAGGED'') \<and>
     (\<forall>s \<in> set (shifts_of_day b day d). wl_undropped (waiterLineForShift b day d s) \<le> 0)"

lemma hardBlockers_append [simp]: "hardBlockers (xs @ ys) = hardBlockers xs @ hardBlockers ys"
  by (simp add: hardBlockers_def)

lemma hardBlockers_concat: "hardBlockers (concat xss) = [] \<longleftrightarrow> (\<forall>xs \<in> set xss. hardBlockers xs = [])"
  by (induction xss) (auto simp: hardBlockers_def)

lemma blocker_lists [simp]:
  "hardBlockers (seating_blockers b day d) = [] \<longleftrightarrow> (\<forall>s \<in> set (table_sessions d). \<not> open_seating b s)"
  "hardBlockers (room_blockers b day d) = [] \<longleftrightarrow> (\<forall>s \<in> set (room_sessions d). \<not> open_room b s)"
  "hardBlockers (ticket_blockers b d) = []"
  "hardBlockers (transfer_blockers b day d) = [] \<longleftrightarrow> (\<forall>p \<in> set (payments_of_day b day d). \<not> pending_transfer p)"
  "hardBlockers (drop_blockers b d) = [] \<longleftrightarrow>
     (\<forall>x \<in> set (cash_drops d). cd_branchId x = b \<longrightarrow> cd_status x \<noteq> D_INITIATED \<and> cd_status x \<noteq> D_DISPUTED)"
  "hardBlockers (flagged_blockers b day d) = [] \<longleftrightarrow> (\<forall>r \<in> set (reconciliations d).
     rn_branchId r = b \<and> rn_businessDate r = day \<longrightarrow> rn_status r \<noteq> ''FLAGGED'')"
  "hardBlockers (pouch_blockers ws) = [] \<longleftrightarrow> (\<forall>w \<in> set ws. wl_undropped w \<le> 0)"
  "hardBlockers (drawer_blocker d f) = [] \<longleftrightarrow> (\<exists>r. row_by rn_financialSession (fs_id f) (reconciliations d) = Some r \<and>
     rn_status r \<noteq> ''FLAGGED'')"
  by (auto simp: hardBlockers_def seating_blockers_def room_blockers_def ticket_blockers_def transfer_blockers_def
      drop_blockers_def flagged_blockers_def pouch_blockers_def drawer_blocker_def filter_empty_conv not_less
      Let_def split: option.splits if_splits)

lemma ready_iff: "hardBlockers (sp_blockers (buildSnapshot b day d)) = [] \<longleftrightarrow> day_settled b day d"
  by (auto simp: buildSnapshot_def Let_def day_settled_def hardBlockers_concat)

lemma day_settled_cong:
  assumes "table_sessions d' = table_sessions d" "room_sessions d' = room_sessions d" "payments d' = payments d"
    "cash_drops d' = cash_drops d" "financial_sessions d' = financial_sessions d"
    "reconciliations d' = reconciliations d" "shift_sessions d' = shift_sessions d" "orders d' = orders d"
  shows "day_settled b day d' \<longleftrightarrow> day_settled b day d"
proof -
  have "wl_undropped (waiterLineForShift b day d' s) = wl_undropped (waiterLineForShift b day d s)" for s
    using assms by (simp add: waiterLineForShift_def Let_def)
  moreover have "shifts_of_day b day d' = shifts_of_day b day d" "drawers_of_day b day d' = drawers_of_day b day d"
    "payments_of_day b day d' = payments_of_day b day d"
    using assms by (simp_all add: shifts_of_day_def drawers_of_day_def payments_of_day_def)
  ultimately show ?thesis using assms by (simp add: day_settled_def)
qed

section \<open>What abandoning the tickets does\<close>

lemma abandon_item_effect:
  assumes "abandon_item e c i d = Inr d'"
  shows "stock_only (d\<lparr>order_items := update_id oi_id (oi_id i) (abandoned e c) (order_items d)\<rparr>) d'"
  using reverse_stock_only assms unfolding abandon_item_def by blast

lemma abandon_items_effect:
  assumes "foldR (abandon_item e c) its d = Inr d'"
  shows "order_items d' = fold (\<lambda>i. update_id oi_id (oi_id i) (abandoned e c)) its (order_items d) \<and>
     daily_closes d' = daily_closes d \<and> idempotency d' = idempotency d"
  using assms
proof (induction its arbitrary: d)
  case Nil
  then show ?case by simp
next
  case (Cons i its)
  then obtain d1 where i: "abandon_item e c i d = Inr d1" and its: "foldR (abandon_item e c) its d1 = Inr d'" by auto
  from Cons.IH [OF its] stock_only_frame [OF abandon_item_effect [OF i]] show ?case by simp
qed

lemma reopen_frame [simp]:
  "order_items (fold reopen_session ss d) = order_items d" "daily_closes (fold reopen_session ss d) = daily_closes d"
  "idempotency (fold reopen_session ss d) = idempotency d"
  by (induction ss arbitrary: d) (simp_all add: reopen_session_def)

lemma abandoned_row:
  "i \<in> set (update_id oi_id k (abandoned e c) is) \<Longrightarrow>
     (i \<in> set is \<and> oi_id i \<noteq> k) \<or> oi_cancelledAt i \<noteq> None"
  by (auto simp: update_id_def update_many_def abandoned_def)

lemma abandon_closes_tickets:
  "i \<in> set (fold (\<lambda>i. update_id oi_id (oi_id i) (abandoned e c)) its is) \<Longrightarrow>
     (i \<in> set is \<and> oi_id i \<notin> oi_id ` set its) \<or> oi_cancelledAt i \<noteq> None"
proof (induction its arbitrary: "is")
  case Nil
  then show ?case by simp
next
  case (Cons x its)
  from Cons.prems have "i \<in> set (fold (\<lambda>i. update_id oi_id (oi_id i) (abandoned e c)) its
      (update_id oi_id (oi_id x) (abandoned e c) is))" by (simp only: fold_simps)
  from Cons.IH [OF this] abandoned_row [of i "oi_id x" e c "is"] show ?case by auto
qed

lemma abandon_effect:
  assumes "abandonOpenKitchenTickets e c d = Inr d'"
  shows "daily_closes d' = daily_closes d" and "idempotency d' = idempotency d" and "db_ok d \<Longrightarrow> db_ok d'"
    and "length (filter (open_ticket (branch_of c)) (order_items d)) \<le> 2000 \<Longrightarrow>
       \<forall>i \<in> set (order_items d'). \<not> open_ticket (branch_of c) i"
proof -
  let ?open = "filter (open_ticket (branch_of c)) (order_items d)"
  have "daily_closes d' = daily_closes d \<and> idempotency d' = idempotency d \<and> (db_ok d \<longrightarrow> db_ok d') \<and> (length ?open \<le> 2000 \<longrightarrow>
       (\<forall>i \<in> set (order_items d'). \<not> open_ticket (branch_of c) i))" if "?open = []"
    using assms that by (auto simp: abandonOpenKitchenTickets_def filter_empty_conv)
  moreover have "daily_closes d' = daily_closes d \<and> idempotency d' = idempotency d \<and> (db_ok d \<longrightarrow> db_ok d') \<and> (length ?open \<le> 2000 \<longrightarrow>
       (\<forall>i \<in> set (order_items d'). \<not> open_ticket (branch_of c) i))" if ne: "?open \<noteq> []"
  proof -
    from assms ne obtain d1 where f: "foldR (abandon_item e c) (take 2000 ?open) d = Inr d1"
      and d': "d' = fold reopen_session (remdups (List.map_filter oi_tableSessionId (take 2000 ?open))) d1"
      and ok: "db_ok d'" by (auto simp: abandonOpenKitchenTickets_def Let_def inversion)
    note eff = abandon_items_effect [OF f]
    have "\<not> open_ticket (branch_of c) i" if "i \<in> set (order_items d')" and "length ?open \<le> 2000" for i
    proof
      assume o: "open_ticket (branch_of c) i"
      have all: "take 2000 ?open = ?open" using that(2) by simp
      have "i \<in> set (fold (\<lambda>i. update_id oi_id (oi_id i) (abandoned e c)) ?open (order_items d))"
        using that(1) eff unfolding d' reopen_frame all by simp
      moreover have "oi_cancelledAt i = None" using o by (simp add: open_ticket_def)
      ultimately have "i \<in> set (order_items d)" and no: "oi_id i \<notin> oi_id ` set ?open"
        using abandon_closes_tickets by blast+
      with o have "i \<in> set ?open" by simp
      then have "oi_id i \<in> oi_id ` set ?open" by (rule imageI)
      with no show False by contradiction
    qed
    moreover have "daily_closes d' = daily_closes d" "idempotency d' = idempotency d" using eff by (simp_all add: d')
    ultimately show ?thesis using ok by blast
  qed
  ultimately show "daily_closes d' = daily_closes d" and "idempotency d' = idempotency d" and "db_ok d \<Longrightarrow> db_ok d'"
    and "length ?open \<le> 2000 \<Longrightarrow> \<forall>i \<in> set (order_items d'). \<not> open_ticket (branch_of c) i" by blast+
qed

section \<open>What locking does\<close>

lemma closing_guards:
  "requirePrepare e c = Inr c' \<Longrightarrow> c' = c" "requireApprove e c = Inr c' \<Longrightarrow> c' = c"
  "requireLock e c = Inr c' \<Longrightarrow> c' = c"
  by (simp_all add: requirePrepare_def requireApprove_def requireLock_def inversion)

lemma requireClose_row:
  assumes "requireClose c i d = Inr x" and "db_ok d"
  shows "row_by dc_id i (daily_closes d) = Some x" and "dc_id x = i" and "dc_branchId x = branch_of c"
proof -
  from assms(1) have x: "x \<in> set (daily_closes d)" "dc_id x = i" "dc_branchId x = branch_of c"
    by (auto simp: requireClose_def dest: find_Some_in split: option.splits)
  have "distinct (map dc_id (daily_closes d))" using db_okD [OF assms(2)] by (blast dest: primary_keyD)
  with x show "row_by dc_id i (daily_closes d) = Some x" using row_by_distinct [of dc_id] by blast
  show "dc_id x = i" "dc_branchId x = branch_of c" by (fact x)+
qed

lemma locked_simps [simp]:
  "dc_id (locked e c seen s x) = dc_id x" "dc_branchId (locked e c seen s x) = dc_branchId x"
  "dc_businessDate (locked e c seen s x) = dc_businessDate x" "dc_status (locked e c seen s x) = ''LOCKED''"
  by (simp_all add: locked_def with_snapshot_def)

lemma lockTx_effect:
  assumes "lockTx e c k v seen d = Inr (res, d')"
  obtains s where "s = buildSnapshot (branch_of c) (dc_businessDate seen) d"
    and "day_settled (branch_of c) (dc_businessDate seen) d"
    and "daily_closes d' = update_id dc_id (dc_id seen) (locked e c seen s) (daily_closes d)" and "db_ok d'"
    and "day_settled (branch_of c) (dc_businessDate seen) d'" and "order_items d' = order_items d"
proof -
  let ?s = "buildSnapshot (branch_of c) (dc_businessDate seen) d"
  from assms have st: "day_settled (branch_of c) (dc_businessDate seen) d"
    by (auto simp: lockTx_def Let_def ready_iff split: if_splits)
  with assms obtain x where d': "d' = storeIdempotent (env_hash e) (dc_id x) k (Req_LockClose (dc_id seen) v) (lock_res x)
      (set_close (dc_id seen) (locked e c seen ?s) d)" and ok: "db_ok d'"
    by (auto simp: lockTx_def Let_def ready_iff inversion split: option.splits)
  have "day_settled (branch_of c) (dc_businessDate seen) d'"
    using st day_settled_cong [of d' d] by (simp add: d' set_close_def)
  from that [OF refl st _ ok this] show thesis by (simp add: d' set_close_def)
qed

lemma lockClose_effect:
  assumes "lockClose e c i v key d = (r, d')"
  obtains "d' = d"
  | seen where "checkClose c i v d = Inr seen" and "abandonOpenKitchenTickets e c d = Inr d'" and "\<not> is_ok r"
  | seen d1 k res where "checkClose c i v d = Inr seen" and "abandonOpenKitchenTickets e c d = Inr d1"
      and "lockTx e c k v seen d1 = Inr (res, d')" and "r = Inr res"
  using assms by (auto simp: lockClose_def split: sum.splits option.splits prod.splits)

lemma checkClose_eq_Inr [inversion]:
  "checkClose c i v d = Inr x \<longleftrightarrow> requireClose c i d = Inr x \<and> dc_version x = v \<and> dc_status x \<noteq> ''LOCKED''"
  by (auto simp: checkClose_def)

lemma day_locked_iff:
  assumes "db_ok d" and "x \<in> set (daily_closes d)"
  shows "day_locked (dc_branchId x) (dc_businessDate x) d \<longleftrightarrow> dc_status x = ''LOCKED''"
proof -
  have "distinct (map (\<lambda>c. (dc_branchId c, dc_businessDate c)) (daily_closes d))"
    using db_okD [OF assms(1)] by (blast dest: primary_keyD)
  from row_by_distinct [OF this assms(2)] show ?thesis
    by (auto simp: row_by_def day_locked_def assertBusinessDayNotLocked_def)
qed

section \<open>Runs\<close>

text \<open>Any sequence of creations, refreshes, approvals and locks, refused locks included.\<close>

inductive close_step :: "db \<Rightarrow> db \<Rightarrow> bool" where
  "createClose e c raw key d = Inr (res, d') \<Longrightarrow> close_step d d'"
| "refreshClose e c i d = Inr (dto, d') \<Longrightarrow> close_step d d'"
| "approveClose e c i v d = Inr (dto, d') \<Longrightarrow> close_step d d'"
| "lockClose e c i v key d = (r, d') \<Longrightarrow> close_step d d'"

abbreviation close_run :: "db \<Rightarrow> db \<Rightarrow> bool" where
  "close_run \<equiv> close_step\<^sup>*\<^sup>*"

definition locked_row :: "id \<Rightarrow> daily_close \<Rightarrow> db \<Rightarrow> bool" where
  "locked_row i x d \<longleftrightarrow> db_ok d \<and> row_by dc_id i (daily_closes d) = Some x \<and> dc_status x = ''LOCKED''"

lemma locked_row_update:
  assumes "locked_row i x d" and "requireClose c j d = Inr y" and "dc_status y \<noteq> ''LOCKED''"
    and "\<And>y. dc_id (f y) = dc_id y"
  shows "row_by dc_id i (update_id dc_id j f (daily_closes d)) = Some x"
proof -
  have "row_by dc_id j (daily_closes d) = Some y" using requireClose_row [OF assms(2)] assms(1) by (simp add: locked_row_def)
  with assms(1,3) have "i \<noteq> j" by (auto simp: locked_row_def)
  with assms(1,4) show ?thesis by (simp add: locked_row_def row_by_update_id)
qed

lemma createClose_locked:
  assumes "createClose e c raw key d = Inr (res, d')" and "locked_row i x d"
  shows "locked_row i x d'"
proof -
  from assms(1) obtain k where "guarded_command e k (Req_CreateClose raw) (createBody e c k raw) d = Inr (res, d')"
    by (auto simp: createClose_def Let_def inversion dest!: closing_guards)
  then consider "d' = d" | "createBody e c k raw d = Inr (res, d')" by (auto dest: guarded_fresh)
  then show ?thesis
  proof cases
    case 2
    then obtain y where "daily_closes d' = daily_closes d @ [y]" and "db_ok d'"
      by (auto simp: createBody_def Let_def inversion split: if_splits)
    with assms(2) show ?thesis by (simp add: locked_row_def row_by_append)
  qed (use assms(2) in simp)
qed

lemma refresh_approve_locked:
  assumes "locked_row i x d"
  shows "refreshClose e c j d = Inr (dto, d') \<Longrightarrow> locked_row i x d'"
    and "approveClose e c j v d = Inr (dto, d') \<Longrightarrow> locked_row i x d'"
proof -
  have step: "locked_row i x (set_close j f d)"
    if "requireClose c j d = Inr y" "dc_status y \<noteq> ''LOCKED''" "\<And>y. dc_id (f y) = dc_id y" "db_ok (set_close j f d)" for f y
    using locked_row_update [OF assms that(1-3)] assms that(4) by (simp add: locked_row_def set_close_def)
  have id: "dc_id (refreshed s y) = dc_id y" "dc_id (approved e c y) = dc_id y" for s y
    by (simp_all add: refreshed_def with_snapshot_def approved_def)
  show "refreshClose e c j d = Inr (dto, d') \<Longrightarrow> locked_row i x d'"
    using step id by (auto simp: refreshClose_def inversion dest!: closing_guards split: if_splits)
  show "approveClose e c j v d = Inr (dto, d') \<Longrightarrow> locked_row i x d'"
    using step id by (auto simp: approveClose_def inversion dest!: closing_guards split: if_splits)
qed

lemma lockClose_locked:
  assumes run: "lockClose e c j v key d = (r, d')" and lr: "locked_row i x d"
  shows "locked_row i x d'"
  using run
proof (cases rule: lockClose_effect)
  case 1
  with lr show ?thesis by simp
next
  case (2 seen)
  with lr abandon_effect [OF 2(2)] show ?thesis by (simp add: locked_row_def)
next
  case (3 seen d1 k res)
  then have c: "requireClose c j d = Inr seen" and nl: "dc_status seen \<noteq> ''LOCKED''" by (simp_all add: inversion)
  note ab = abandon_effect [OF 3(2)]
  have lr1: "locked_row i x d1" using lr ab by (simp add: locked_row_def)
  have c1: "requireClose c j d1 = Inr seen" using c ab(1) by (simp add: requireClose_def)
  have "dc_id seen = j" using requireClose_row [OF c] lr by (simp add: locked_row_def)
  with 3(3) obtain s where "daily_closes d' = update_id dc_id j (locked e c seen s) (daily_closes d1)" and "db_ok d'"
    by (auto elim: lockTx_effect)
  with locked_row_update [OF lr1 c1 nl] lr show ?thesis by (simp add: locked_row_def)
qed

lemma close_step_locked: "close_step d d' \<Longrightarrow> locked_row i x d \<Longrightarrow> locked_row i x d'"
  by (induction rule: close_step.induct)
    (blast intro: createClose_locked refresh_approve_locked lockClose_locked)+

lemma close_run_locked: "close_run d d' \<Longrightarrow> locked_row i x d \<Longrightarrow> locked_row i x d'"
  by (induction rule: rtranclp_induct) (auto intro: close_step_locked)

section \<open>Properties\<close>

text \<open>
  C8: when a daily close is locked, no table or room of the branch is seated, no cash drop of the
  branch is waiting or disputed, no transfer of the day is unverified, every drawer of the day is
  reconciled and unflagged, and each waiter shift of the day has dropped, into drops that were
  received or resolved, at least the cash its guests of the day paid (cash handed from waiter to
  waiter is not counted, neither to the giver nor to the taker); and the kitchen has no open ticket
  (if there were at most 2000, all of which are cancelled on the way). The day is closed for
  orders, payments and drops.
\<close>

theorem locked_day_is_settled:
  assumes "lockClose e c i v key d = (Inr res, d')" and "daily_closes d' \<noteq> daily_closes d" and "db_ok d"
  shows "\<exists>x. row_by dc_id i (daily_closes d') = Some x \<and> dc_status x = ''LOCKED'' \<and> dc_branchId x = branch_of c \<and>
     day_settled (branch_of c) (dc_businessDate x) d' \<and> day_locked (branch_of c) (dc_businessDate x) d' \<and>
     (length (filter (open_ticket (branch_of c)) (order_items d)) \<le> 2000 \<longrightarrow>
       (\<forall>t \<in> set (order_items d'). \<not> open_ticket (branch_of c) t))"
  using assms(1)
proof (cases rule: lockClose_effect)
  case 1
  with assms(2) show ?thesis by simp
next
  case (2 seen)
  then show ?thesis by simp
next
  case (3 seen d1 k res)
  then have c: "requireClose c i d = Inr seen" by (simp add: inversion)
  note row = requireClose_row [OF c assms(3)] and ab = abandon_effect [OF 3(2)]
  from 3(3) obtain s where dc: "daily_closes d' = update_id dc_id (dc_id seen) (locked e c seen s) (daily_closes d1)"
    and ok: "db_ok d'" and st: "day_settled (branch_of c) (dc_businessDate seen) d'"
    and its: "order_items d' = order_items d1" by (rule lockTx_effect)
  let ?x = "locked e c seen s seen"
  have x: "row_by dc_id i (daily_closes d') = Some ?x" using row ab(1) by (simp add: dc row_by_update_id)
  then have "?x \<in> set (daily_closes d')" by (auto dest: row_by_SomeD)
  from day_locked_iff [OF ok this] row have "day_locked (branch_of c) (dc_businessDate seen) d'" by simp
  with x st row ab(4) show ?thesis unfolding its by (intro exI [of _ ?x]) simp
qed

definition closing_manager :: auth_ctx where
  "closing_manager = staff_member 103 13 ''MANAGER'' None 33
     [''daily_close.prepare'', ''daily_close.approve'', ''daily_close.lock'']"

definition open_close :: daily_close where
  "open_close = locked_close\<lparr>dc_status := ''DRAFT'', dc_approvedAt := None, dc_approvedBy := None,
     dc_lockedAt := None, dc_lockedBy := None, dc_version := 1\<rparr>"

definition closing_db :: db where
  "closing_db = floor_db\<lparr>daily_closes := [open_close],
     table_sessions := [session_40\<lparr>ts_status := S_CLOSED, ts_closedAt := Some 900000\<rparr>]\<rparr>"

theorem locked_day_is_settled_witness:
  "\<exists>res d. lockClose later closing_manager 15 1 (Some ''k1'') closing_db = (Inr res, d) \<and> day_locked 2 0 d \<and>
     \<not> day_locked 2 0 closing_db \<and> open_ticket 2 item_42 \<and> (\<forall>t \<in> set (order_items d). \<not> open_ticket 2 t)"
proof -
  have "(case lockClose later closing_manager 15 1 (Some ''k1'') closing_db of (r, d) \<Rightarrow>
      (is_ok r, map dc_status (daily_closes d), map dc_businessDate (daily_closes d))) = (True, [''LOCKED''], [0])"
    by code_simp
  then obtain res d where run: "lockClose later closing_manager 15 1 (Some ''k1'') closing_db = (Inr res, d)"
    and st: "map dc_status (daily_closes d) = [''LOCKED'']" and day: "map dc_businessDate (daily_closes d) = [0]"
    by (auto simp: is_ok_iff split: prod.splits)
  have "map dc_status (daily_closes closing_db) = [''DRAFT'']" by code_simp
  with st have new: "daily_closes d \<noteq> daily_closes closing_db" by auto
  have ok: "db_ok closing_db" and few: "length (filter (open_ticket 2) (order_items closing_db)) \<le> 2000"
    and br: "branch_of closing_manager = 2" and nl: "\<not> day_locked 2 0 closing_db" and tk: "open_ticket 2 item_42"
    by code_simp+
  from locked_day_is_settled [OF run new ok] few obtain x where "row_by dc_id 15 (daily_closes d) = Some x"
    and "day_locked 2 (dc_businessDate x) d" and "\<forall>t \<in> set (order_items d). \<not> open_ticket 2 t"
    unfolding br by blast
  moreover from this(1) day have "dc_businessDate x = 0" by (auto dest!: row_by_SomeD)
  ultimately show ?thesis using run nl tk by auto
qed

text \<open>
  C18: a locked daily close is final: no sequence of creations, refreshes, approvals and locks by
  anyone changes its row, and its day stays locked.
\<close>

theorem locked_close_is_final:
  assumes "close_run d d'" and "db_ok d" and "row_by dc_id i (daily_closes d) = Some x" and "dc_status x = ''LOCKED''"
  shows "row_by dc_id i (daily_closes d') = Some x \<and> day_locked (dc_branchId x) (dc_businessDate x) d'"
proof -
  from assms(2-4) have "locked_row i x d" by (simp add: locked_row_def)
  with assms(1) have "locked_row i x d'" by (rule close_run_locked)
  then have "row_by dc_id i (daily_closes d') = Some x" and "db_ok d'" and "dc_status x = ''LOCKED''"
    by (simp_all add: locked_row_def)
  with day_locked_iff [of d' x] show ?thesis by (auto dest: row_by_SomeD)
qed

definition next_day_db :: db where
  "next_day_db = closing_db\<lparr>daily_closes := [locked_close]\<rparr>"

theorem locked_close_is_final_witness:
  "\<exists>d. close_run next_day_db d \<and> length (daily_closes d) = 2 \<and> row_by dc_id 15 (daily_closes d) = Some locked_close \<and>
     day_locked 2 0 d"
proof -
  have "bindR (createClose later closing_manager ''1970-01-02'' (Some ''k2'') next_day_db) (\<lambda>(r, d).
      Inr (length (daily_closes d))) = Inr 2" by code_simp
  then obtain r d where run: "createClose later closing_manager ''1970-01-02'' (Some ''k2'') next_day_db = Inr (r, d)"
    and n: "length (daily_closes d) = 2" by (elim run_pairE) simp
  have ok: "db_ok next_day_db" and row: "row_by dc_id 15 (daily_closes next_day_db) = Some locked_close"
    and st: "dc_status locked_close = ''LOCKED''" and b: "dc_branchId locked_close = 2" "dc_businessDate locked_close = 0"
    by code_simp+
  have "close_run next_day_db d" using close_step.intros(1) [OF run] by auto
  with locked_close_is_final [OF this ok row st] n show ?thesis unfolding b by blast
qed

text \<open>
  A lock that is refused, here because the table is still seated, has already cancelled the
  kitchen's tickets; and a waiter who handed the whole pouch to a colleague still blocks the day.
\<close>

lemma refused_lock_cancels_the_kitchen:
  "(case lockClose later closing_manager 15 1 (Some ''k1'') (floor_db\<lparr>daily_closes := [open_close]\<rparr>) of (r, d) \<Rightarrow>
      (r, map dc_status (daily_closes d), map oi_state (order_items d))) =
     (Inl (Conflict ''DAILY_CLOSE_BLOCKED''), [''DRAFT''], [CANCELLED, CANCELLED])"
  "map oi_state (order_items floor_db) = [QUEUED, CANCELLED]"
  by code_simp+

definition pouch_entry :: "id \<Rightarrow> string \<Rightarrow> decimal \<Rightarrow> string \<Rightarrow> ledger_entry" where
  "pouch_entry i ty q src = \<lparr>le_id = i, le_branchId = 2, le_businessDate = 0, le_holderType = WAITER_SHIFT,
     le_waiterShift = Some 30, le_financialSession = None, le_entryType = ty, le_amountDelta = q,
     le_sourceType = src, le_sourceId = 65, le_createdBy = Some 10\<rparr>"

definition handed_over_db :: db where
  "handed_over_db = closing_db\<lparr>payments := [\<lparr>py_id = 65, py_branchId = 2, py_businessDate = 0, py_billId = 60,
       py_method = CASH, py_transferChannel = None, py_status = ''SETTLED'', py_amount = 225, py_collector = 10,
       py_collectorShift = 30, py_cashTendered = Some 225, py_cashChange = Some 0, py_initiatedAt = 850000,
       py_collectedAt = Some 850000, py_verifiedAt = None, py_settledAt = Some 850000\<rparr>],
     cash_ledger := [pouch_entry 66 ''CASH_PAYMENT_COLLECTED'' 225 ''PAYMENT'',
       pouch_entry 67 ''WAITER_HANDOVER_OUT'' (- 225) ''WAITER_SHIFT_HANDOVER'']\<rparr>"

lemma handed_over_cash_blocks_the_day:
  "sum_list (map le_amountDelta (filter (\<lambda>x. le_waiterShift x = Some 30) (cash_ledger handed_over_db))) = 0"
  "wl_undropped (waiterLineForShift 2 0 handed_over_db (shift_of_staff 30 10 ''WAITER'')) = 225"
  "map bk_code (hardBlockers (sp_blockers (buildSnapshot 2 0 handed_over_db))) = [UNDROPPED_WAITER_CASH]"
  by code_simp+

end
