(* ===== verification/Warehouse.thy ===== *)
theory Warehouse
  imports Depletion Scenario Constraints
begin

text \<open>
  The stores of a restaurant group and what moves stock in one of them
  (\<open>src/inventory/inventory.service.ts\<close>): access, the main warehouse, receiving goods, waste and
  the physical count. A response is reduced to the rows it quotes; the ledger's columns that only
  annotate an entry (cost, vendor, note) are left out.
\<close>

section \<open>Access and locations\<close>

definition requireInventoryAccess :: "env \<Rightarrow> auth_ctx \<Rightarrow> bool \<Rightarrow> app_action \<Rightarrow> auth_ctx result" where
  "requireInventoryAccess e c needsBranch a =
     (if ax_tenantId c = None then Inl (Forbidden ''No restaurant on this account.'')
      else if needsBranch \<and> ax_branchId c = None
        then Inl (Forbidden ''No restaurant branch on this account.'')
      else if \<not> (can e c a Sub_Inventory \<or> can e c Act_manage Sub_Inventory \<or> can e c Act_manage Sub_all)
        then Inl (Forbidden ''Inventory is for managers, owners, and store managers.'')
      else Inr c)"

definition isCentralInventoryRole :: "auth_ctx \<Rightarrow> bool" where
  "isCentralInventoryRole c \<longleftrightarrow> ax_roleCode c = ''OWNER_ADMIN'' \<or> ax_roleCode c = ''STORE_MANAGER''"

definition assertCentralInventoryRole :: "auth_ctx \<Rightarrow> string \<Rightarrow> unit result" where
  "assertCentralInventoryRole c msg = (if \<not> isCentralInventoryRole c then Inl (Forbidden msg) else Inr ())"

lemma requireInventoryAccess_eq_Inr [inversion]:
  "requireInventoryAccess e c nb a = Inr c' \<longleftrightarrow> c' = c \<and> ax_tenantId c \<noteq> None \<and> (nb \<longrightarrow> ax_branchId c \<noteq> None) \<and>
     (can e c a Sub_Inventory \<or> can e c Act_manage Sub_Inventory \<or> can e c Act_manage Sub_all)"
  by (auto simp: requireInventoryAccess_def)

lemma assertCentral_eq_Inr [inversion]: "assertCentralInventoryRole c m = Inr u \<longleftrightarrow> isCentralInventoryRole c"
  by (simp add: assertCentralInventoryRole_def)

text \<open>Rows are kept in the order of their creation.\<close>

definition findMainWarehouse :: "id \<Rightarrow> db \<Rightarrow> inventory_location option" where
  "findMainWarehouse t d = find (\<lambda>l. lo_tenantId l = t \<and> lo_type l = ''MAIN_WAREHOUSE'' \<and>
     lo_status l = ''ACTIVE'') (locations d)"

definition active_location :: "auth_ctx \<Rightarrow> id \<Rightarrow> db \<Rightarrow> inventory_location option" where
  "active_location c i d = find (\<lambda>l. lo_id l = i \<and> lo_tenantId l = tenant_of c \<and> lo_status l = ''ACTIVE'') (locations d)"

definition defaulted :: "string option \<Rightarrow> string \<Rightarrow> string" where
  "defaulted s x = (case s of None \<Rightarrow> x | Some y \<Rightarrow> if trim y = [] then x else trim y)"

definition createMainWarehouse ::
  "env \<Rightarrow> auth_ctx \<Rightarrow> string option \<Rightarrow> string option \<Rightarrow> db \<Rightarrow> (inventory_location \<times> db) result" where
  "createMainWarehouse e c code0 name0 d =
     bindR (requireInventoryAccess e c False Act_manage) (\<lambda>c.
     bindR (assertCentralInventoryRole c ''Only owners or store managers can enable the main warehouse.'') (\<lambda>_.
       if findMainWarehouse (tenant_of c) d \<noteq> None
       then Inl (Conflict ''A main warehouse already exists for this restaurant group.'')
       else
         let code = take 40 (to_upper (defaulted code0 ''MAIN''));
             name = take 120 (defaulted name0 ''Main warehouse'')
         in case find (\<lambda>l. lo_tenantId l = tenant_of c \<and> lo_type l = ''MAIN_WAREHOUSE'' \<and>
                 lo_status l \<noteq> ''ACTIVE'') (locations d) of
              Some l \<Rightarrow>
                let l' = l\<lparr>lo_status := ''ACTIVE'', lo_name := name,
                           lo_code := if lo_code l = [] then code else lo_code l\<rparr>
                in bindR (commit (d\<lparr>locations := update_id lo_id (lo_id l) (\<lambda>_. l') (locations d)\<rparr>)) (\<lambda>d1.
                     Inr (l', d1))
            | None \<Rightarrow>
                if find (\<lambda>l. lo_tenantId l = tenant_of c \<and> lo_code l = code) (locations d) \<noteq> None
                then Inl (Conflict ''Location code is already in use.'')
                else
                  let l = \<lparr>lo_id = next_id d, lo_tenantId = tenant_of c, lo_branchId = None, lo_code = code,
                           lo_name = name, lo_type = ''MAIN_WAREHOUSE'', lo_isDefault = False,
                           lo_status = ''ACTIVE''\<rparr>
                  in bindR (commit (d\<lparr>locations := locations d @ [l], next_id := next_id d + 1\<rparr>)) (\<lambda>d1.
                       Inr (l, d1))))"

definition disableMainWarehouse :: "env \<Rightarrow> auth_ctx \<Rightarrow> db \<Rightarrow> (inventory_location \<times> db) result" where
  "disableMainWarehouse e c d =
     bindR (requireInventoryAccess e c False Act_manage) (\<lambda>c.
     bindR (assertCentralInventoryRole c ''Only owners or store managers can turn off the main warehouse.'') (\<lambda>_.
       case findMainWarehouse (tenant_of c) d of
         None \<Rightarrow> Inl (BadRequest ''Main warehouse is already off.'')
       | Some main \<Rightarrow>
           if count_where (\<lambda>t. it_tenantId t = tenant_of c \<and> it_from t = lo_id main \<and> it_status t = ''SENT'')
                (transfers d) > 0
           then Inl (BadRequest ''Cannot turn off main warehouse while transfers are waiting.'')
           else if sum_list (map sb_onHand (filter (\<lambda>b. sb_locationId b = lo_id main) (stock d))) > 0
           then Inl (BadRequest ''Main warehouse still has stock.'')
           else if count_where (\<lambda>q. sq_tenantId q = tenant_of c \<and> sq_to q = lo_id main \<and>
                sq_status q = ''SUBMITTED'') (supply_requests d) > 0
           then Inl (BadRequest ''Cannot turn off while supply requests are still pending.'')
           else
             let main' = main\<lparr>lo_status := ''INACTIVE''\<rparr>
             in bindR (commit (d\<lparr>locations := update_id lo_id (lo_id main) (\<lambda>_. main') (locations d)\<rparr>)) (\<lambda>d1.
                  Inr (main', d1))))"

definition updateLocation ::
  "env \<Rightarrow> auth_ctx \<Rightarrow> id \<Rightarrow> string option \<Rightarrow> string option \<Rightarrow> db \<Rightarrow> (inventory_location \<times> db) result" where
  "updateLocation e c i name0 code0 d =
     bindR (requireInventoryAccess e c False Act_manage) (\<lambda>c.
     bindR (assertCentralInventoryRole c ''Only owners or store managers can edit stores.'') (\<lambda>_.
       case active_location c i d of
         None \<Rightarrow> Inl (NotFound ''Inventory location not found.'')
       | Some l \<Rightarrow>
           let name = defaulted name0 []; code = take 40 (to_upper (defaulted code0 []))
           in if name = [] \<and> code = [] then Inl (BadRequest ''Provide a name or code to update.'')
              else if code \<noteq> [] \<and> code \<noteq> lo_code l \<and>
                find (\<lambda>x. lo_tenantId x = tenant_of c \<and> lo_code x = code \<and> lo_id x \<noteq> lo_id l) (locations d) \<noteq> None
              then Inl (Conflict ''Location code is already in use.'')
              else
                let l' = l\<lparr>lo_name := if name = [] then lo_name l else take 120 name,
                           lo_code := if code = [] then lo_code l else code\<rparr>
                in bindR (commit (d\<lparr>locations := update_id lo_id (lo_id l) (\<lambda>_. l') (locations d)\<rparr>)) (\<lambda>d1.
                     Inr (l', d1))))"

definition default_store :: "auth_ctx \<Rightarrow> id \<Rightarrow> db \<Rightarrow> (inventory_location \<times> db) result" where
  "default_store c b d =
     bindR (ensureDefaultLocation (tenant_of c) b d) (\<lambda>(i, d1).
       case row_by lo_id i (locations d1) of
         None \<Rightarrow> Inl (DbError ''P2025'')
       | Some l \<Rightarrow> Inr (l, d1))"

definition resolveLocationForWrite :: "auth_ctx \<Rightarrow> id option \<Rightarrow> db \<Rightarrow> (inventory_location \<times> db) result" where
  "resolveLocationForWrite c loc d =
     (if \<not> isCentralInventoryRole c then
        (case ax_branchId c of
           None \<Rightarrow> Inl (Forbidden ''No restaurant branch on this account.'')
         | Some b \<Rightarrow> bindR (default_store c b d) (\<lambda>(l, d1).
             if loc \<noteq> None \<and> loc \<noteq> Some (lo_id l)
             then Inl (Forbidden ''You can only stock your restaurant store.'') else Inr (l, d1)))
      else (case loc of
          Some i \<Rightarrow> (case active_location c i d of
              None \<Rightarrow> Inl (NotFound ''Inventory location not found.'') | Some l \<Rightarrow> Inr (l, d))
        | None \<Rightarrow> (case ax_branchId c of
            None \<Rightarrow>
              (case sort_key (\<lambda>l. if lo_type l = ''BRANCH_STORE'' then 0 else if lo_type l = ''MAIN_WAREHOUSE'' then 1 else 2 :: nat)
                 (filter (\<lambda>l. lo_tenantId l = tenant_of c \<and> lo_status l = ''ACTIVE'') (locations d)) of
                 l # _ \<Rightarrow> Inr (l, d)
               | [] \<Rightarrow> Inl (BadRequest ''No branch on this account. Pass locationId or assign a branch.''))
          | Some b \<Rightarrow> default_store c b d)))"

section \<open>Receiving and wasting\<close>

definition findIngredient :: "auth_ctx \<Rightarrow> id \<Rightarrow> db \<Rightarrow> ingredient result" where
  "findIngredient c i d =
     (case find (\<lambda>g. ig_id g = i \<and> ig_tenantId g = tenant_of c) (ingredients d) of
        None \<Rightarrow> Inl (NotFound ''Ingredient not found.'') | Some g \<Rightarrow> Inr g)"

definition checkVendor :: "auth_ctx \<Rightarrow> id option \<Rightarrow> db \<Rightarrow> unit result" where
  "checkVendor c v d =
     (case v of
        None \<Rightarrow> Inr ()
      | Some i \<Rightarrow> if find (\<lambda>x. vd_id x = i \<and> vd_tenantId x = tenant_of c \<and> vd_status x = ''ACTIVE'') (vendors d) = None
          then Inl (BadRequest ''Vendor not found or inactive.'') else Inr ())"

record receive_item =
  ri_ingredient :: id
  ri_quantity :: decimal
  ri_unit :: "string option"
  ri_unitCost :: "decimal option"

definition base_quantity :: "auth_ctx \<Rightarrow> decimal \<Rightarrow> string option \<Rightarrow> ingredient \<Rightarrow> db \<Rightarrow> decimal result" where
  "base_quantity c q u g d =
     bindR (toBaseQty d (tenant_of c) q u (ig_unit g)) (\<lambda>x. Inr (roundQty x))"

definition prepareReceive :: "auth_ctx \<Rightarrow> db \<Rightarrow> receive_item \<Rightarrow> (ingredient \<times> decimal \<times> receive_item) result" where
  "prepareReceive c d x =
     bindR (findIngredient c (ri_ingredient x) d) (\<lambda>g.
     bindR (base_quantity c (ri_quantity x) (ri_unit x) g d) (\<lambda>q. Inr (g, q, x)))"

definition plain_meta :: "string \<Rightarrow> delta_meta" where
  "plain_meta ty = \<lparr>dm_entryType = ty, dm_orderItemId = None, dm_countSessionId = None, dm_setAbsolute = None\<rparr>"

definition set_cost :: "id \<Rightarrow> decimal option \<Rightarrow> db \<Rightarrow> db" where
  "set_cost i cost d = (case cost of None \<Rightarrow> d
     | Some x \<Rightarrow> d\<lparr>ingredients := update_id ig_id i (\<lambda>g. g\<lparr>ig_unitCost := round_half_up 4 x\<rparr>) (ingredients d)\<rparr>)"

definition balance_branch :: "auth_ctx \<Rightarrow> inventory_location \<Rightarrow> id option" where
  "balance_branch c l = (if lo_type l = ''MAIN_WAREHOUSE'' then None
     else case lo_branchId l of Some b \<Rightarrow> Some b | None \<Rightarrow> ax_branchId c)"

fun receive_one ::
  "auth_ctx \<Rightarrow> inventory_location \<Rightarrow> ingredient \<times> decimal \<times> receive_item \<Rightarrow> db \<Rightarrow> db result" where
  "receive_one c l (g, q, x) d =
     bindR (applyDelta (tenant_of c) (balance_branch c l) (Some (lo_id l)) (ig_id g) q (plain_meta ''RECEIVE'') d)
       (\<lambda>d1. Inr (set_cost (ig_id g) (ri_unitCost x) d1))"

definition receiveStockTx ::
  "auth_ctx \<Rightarrow> id option \<Rightarrow> (ingredient \<times> decimal \<times> receive_item) list \<Rightarrow> db \<Rightarrow> (inventory_location \<times> db) result" where
  "receiveStockTx c loc xs d =
     bindR (resolveLocationForWrite c loc d) (\<lambda>(l, d1).
     bindR (foldR (receive_one c l) xs d1) (\<lambda>d2.
     bindR (commit d2) (\<lambda>d3. Inr (l, d3))))"

definition receive ::
  "env \<Rightarrow> auth_ctx \<Rightarrow> receive_item \<Rightarrow> id option \<Rightarrow> id option \<Rightarrow> db \<Rightarrow> (inventory_location \<times> db) result" where
  "receive e c x vendor loc d =
     bindR (requireInventoryAccess e c False Act_manage) (\<lambda>c.
     bindR (findIngredient c (ri_ingredient x) d) (\<lambda>_.
     bindR (checkVendor c vendor d) (\<lambda>_.
     bindR (prepareReceive c d x) (\<lambda>p. receiveStockTx c loc [p] d))))"

definition receiveBatch ::
  "env \<Rightarrow> auth_ctx \<Rightarrow> receive_item list \<Rightarrow> id option \<Rightarrow> id option \<Rightarrow> db \<Rightarrow> (nat \<times> db) result" where
  "receiveBatch e c xs vendor loc d =
     bindR (requireInventoryAccess e c False Act_manage) (\<lambda>c.
       if xs = [] then Inl (BadRequest ''At least one item must be received.'')
       else
         bindR (checkVendor c vendor d) (\<lambda>_.
         bindR (mapR (prepareReceive c d) xs) (\<lambda>ps.
         bindR (receiveStockTx c loc ps d) (\<lambda>(l, d1). Inr (length ps, d1)))))"

text \<open>
  Waste is one movement outside a transaction: the default store, the balance and the ledger entry
  are separate writes, so the operation returns the state also with an error. The entry is refused
  when its note, to which the conversion is appended, has more than 255 characters or its quantity
  more than 15 digits before the point; the balance is written by then. A number is printed as
  JavaScript prints it (below ten to the 21, not below a millionth); the arrow and the dot of the
  note, which are not ASCII, stand here as one character each.
\<close>

fun fraction_digits :: "nat \<Rightarrow> decimal \<Rightarrow> string" where
  "fraction_digits 0 x = []"
| "fraction_digits (Suc n) x =
     (if x = 0 then [] else let k = \<lfloor>x * 10\<rfloor> in char_of (48 + nat k) # fraction_digits n (x * 10 - of_int k))"

definition js_number :: "decimal \<Rightarrow> string" where
  "js_number x = (if x < 0 then ''-'' else []) @ show_nat (nat \<lfloor>\<bar>x\<bar>\<rfloor>) @
     (let r = \<bar>x\<bar> - of_int \<lfloor>\<bar>x\<bar>\<rfloor> in if r = 0 then [] else ''.'' @ fraction_digits 17 r)"

definition withConversionNote :: "string option \<Rightarrow> decimal \<Rightarrow> string option \<Rightarrow> decimal \<Rightarrow> string \<Rightarrow> string option" where
  "withConversionNote note q u b base =
     (let n = trim (case note of Some x \<Rightarrow> x | None \<Rightarrow> [])
      in if u = None \<or> u = Some [] \<or> u = Some base then (if n = [] then None else Some n)
         else let suffix = js_number q @ '' '' @ the u @ '' > '' @ js_number b @ '' '' @ base
              in Some (if n = [] then suffix else n @ '' . '' @ suffix))"

definition fits_quantity :: "decimal \<Rightarrow> bool" where
  "fits_quantity x \<longleftrightarrow> \<bar>round_half_up 4 x\<bar> < 10 ^ 15"

definition fits_note :: "string option \<Rightarrow> bool" where
  "fits_note n \<longleftrightarrow> (case n of None \<Rightarrow> True | Some x \<Rightarrow> length x \<le> 255)"

definition waste_entry :: "id \<Rightarrow> id \<Rightarrow> decimal \<Rightarrow> stock_entry" where
  "waste_entry l i delta = \<lparr>se_locationId = l, se_ingredientId = i, se_entryType = ''WASTE'',
     se_delta = round_half_up 4 delta, se_orderItemId = None, se_countSessionId = None\<rparr>"

definition prepareWaste ::
  "env \<Rightarrow> auth_ctx \<Rightarrow> id \<Rightarrow> decimal \<Rightarrow> string option \<Rightarrow> db \<Rightarrow> (auth_ctx \<times> ingredient \<times> decimal) result" where
  "prepareWaste e c i q u d =
     bindR (requireInventoryAccess e c True Act_manage) (\<lambda>c.
     bindR (findIngredient c i d) (\<lambda>g.
     bindR (base_quantity c q u g d) (\<lambda>b. Inr (c, g, b))))"

definition waste_store :: "auth_ctx \<Rightarrow> db \<Rightarrow> (id \<times> db) result" where
  "waste_store c d =
     (case ax_branchId c of
        None \<Rightarrow> Inl (BadRequest ''locationId is required when no branch store is available.'')
      | Some b \<Rightarrow> bindR (ensureDefaultLocation (tenant_of c) b d) (\<lambda>(l, d1).
          bindR (commit d1) (\<lambda>d2. Inr (l, d2))))"

definition waste ::
  "env \<Rightarrow> auth_ctx \<Rightarrow> id \<Rightarrow> decimal \<Rightarrow> string option \<Rightarrow> string option \<Rightarrow> db \<Rightarrow> unit result \<times> db" where
  "waste e c i q u note d =
     (case prepareWaste e c i q u d of
        Inl x \<Rightarrow> (Inl x, d)
      | Inr (c, g, b) \<Rightarrow>
          (case waste_store c d of
             Inl x \<Rightarrow> (Inl x, d)
           | Inr (l, d1) \<Rightarrow>
               if \<not> fits_quantity (on_hand (l, ig_id g) d1 - b) then (Inl (DbError ''P2020''), d1)
               else
                 let d2 = upsert_balance (l, ig_id g) (- b) None d1;
                     text = withConversionNote (Some (case note of Some n \<Rightarrow> n | None \<Rightarrow> ''Waste'')) q u b (ig_unit g)
                 in if \<not> fits_note text then (Inl (DbError ''P2000''), d2)
                    else if \<not> fits_quantity b then (Inl (DbError ''P2020''), d2)
                    else (Inr (), d2\<lparr>stock_ledger := stock_ledger d2 @ [waste_entry l (ig_id g) (- b)]\<rparr>)))"

section \<open>The physical count\<close>

definition pick_balance :: "id \<Rightarrow> id option \<Rightarrow> db \<Rightarrow> stock_balance option" where
  "pick_balance ing loc d =
     (let bs = filter (\<lambda>b. sb_ingredientId b = ing) (stock d)
      in case loc of
           Some l \<Rightarrow> find (\<lambda>b. sb_locationId b = l) bs
         | None \<Rightarrow> (case bs of [] \<Rightarrow> None | b # _ \<Rightarrow> Some b))"

definition book_snapshot :: "id \<Rightarrow> db \<Rightarrow> decimal" where
  "book_snapshot ing d = (case pick_balance ing None d of Some b \<Rightarrow> sb_onHand b | None \<Rightarrow> 0)"

definition startCount :: "env \<Rightarrow> auth_ctx \<Rightarrow> string option \<Rightarrow> db \<Rightarrow> (count_session \<times> db) result" where
  "startCount e c notes d =
     bindR (requireInventoryAccess e c True Act_manage) (\<lambda>c.
       if find (\<lambda>s. cs_branchId s = branch_of c \<and> cs_status s = ''DRAFT'') (counts d) \<noteq> None
       then Inl (Conflict ''A draft count already exists. Finish or use that session.'')
       else
         let igs = filter (\<lambda>g. ig_tenantId g = tenant_of c \<and> ig_branchId g = ax_branchId c \<and>
               ig_status g = ''ACTIVE'') (ingredients d);
             s = \<lparr>cs_id = next_id d, cs_tenantId = tenant_of c, cs_branchId = branch_of c, cs_status = ''DRAFT'',
                  cs_notes = (if defaulted notes [] = [] then None else Some (defaulted notes [])),
                  cs_createdBy = ax_staffMembershipId c, cs_postedAt = None,
                  cs_lines = map (\<lambda>g. \<lparr>cl_ingredientId = ig_id g, cl_bookQty = book_snapshot (ig_id g) d,
                    cl_countedQty = None, cl_countedUnit = None\<rparr>) igs\<rparr>
         in bindR (commit (d\<lparr>counts := counts d @ [s], next_id := next_id d + 1\<rparr>)) (\<lambda>d1. Inr (s, d1)))"

definition draft_count :: "auth_ctx \<Rightarrow> id \<Rightarrow> string \<Rightarrow> db \<Rightarrow> count_session result" where
  "draft_count c sid msg d =
     (case find (\<lambda>s. cs_id s = sid \<and> cs_tenantId s = tenant_of c \<and> cs_branchId s = branch_of c) (counts d) of
        None \<Rightarrow> Inl (NotFound ''Count session not found.'')
      | Some s \<Rightarrow> if cs_status s \<noteq> ''DRAFT'' then Inl (BadRequest msg) else Inr s)"

fun count_line_write :: "auth_ctx \<Rightarrow> id \<Rightarrow> id \<times> decimal \<times> string option \<Rightarrow> db \<Rightarrow> db result" where
  "count_line_write c sid (i, q, u) d =
     bindR (findIngredient c i d) (\<lambda>g.
       let unit = (case u of Some x \<Rightarrow> x | None \<Rightarrow> ig_unit g)
       in bindR (toBaseQty d (tenant_of c) q (Some unit) (ig_unit g)) (\<lambda>b.
            Inr (d\<lparr>counts := update_id cs_id sid (\<lambda>s. s\<lparr>cs_lines :=
              update_many (\<lambda>l. cl_ingredientId l = i)
                (\<lambda>l. l\<lparr>cl_countedQty := Some (roundQty b), cl_countedUnit := Some unit\<rparr>)
                (cs_lines s)\<rparr>) (counts d)\<rparr>)))"

definition updateCountLines ::
  "env \<Rightarrow> auth_ctx \<Rightarrow> id \<Rightarrow> (id \<times> decimal \<times> string option) list \<Rightarrow> db \<Rightarrow> (unit \<times> db) result" where
  "updateCountLines e c sid ls d =
     bindR (requireInventoryAccess e c True Act_manage) (\<lambda>c.
     bindR (draft_count c sid ''Only draft counts can be edited.'' d) (\<lambda>_.
     bindR (foldR (count_line_write c sid) ls d) (\<lambda>d1.
     bindR (commit d1) (\<lambda>d2. Inr ((), d2)))))"

definition count_meta :: "id \<Rightarrow> decimal \<Rightarrow> delta_meta" where
  "count_meta sid counted = \<lparr>dm_entryType = ''COUNT_ADJUST'', dm_orderItemId = None,
     dm_countSessionId = Some sid, dm_setAbsolute = Some counted\<rparr>"

definition post_line :: "auth_ctx \<Rightarrow> id \<Rightarrow> count_line \<Rightarrow> db \<Rightarrow> db result" where
  "post_line c sid l d =
     (let counted = the (cl_countedQty l); delta = counted - cl_bookQty l
      in if delta = 0 then Inr d
         else applyDelta (tenant_of c) (ax_branchId c) None (cl_ingredientId l) delta (count_meta sid counted) d)"

definition postCount :: "env \<Rightarrow> auth_ctx \<Rightarrow> id \<Rightarrow> db \<Rightarrow> (unit \<times> db) result" where
  "postCount e c sid d =
     bindR (requireInventoryAccess e c True Act_manage) (\<lambda>c.
     bindR (draft_count c sid ''Count already posted.'' d) (\<lambda>s.
       if filter (\<lambda>l. cl_countedQty l = None) (cs_lines s) \<noteq> []
       then Inl (BadRequest ''All count lines need a counted quantity before posting.'')
       else
         bindR (foldR (post_line c sid) (cs_lines s) d) (\<lambda>d1.
         bindR (commit (d1\<lparr>counts := update_id cs_id sid
             (\<lambda>s. s\<lparr>cs_status := ''POSTED'', cs_postedAt := Some (env_now e)\<rparr>) (counts d1)\<rparr>)) (\<lambda>d2.
           Inr ((), d2)))))"

end
