(* ===== verification/Transfers.thy ===== *)
theory Transfers
  imports Warehouse
begin

text \<open>
  Stock on its way between stores (\<open>src/inventory/inventory.service.ts\<close>): a transfer leaves the
  main warehouse when it is sent and reaches a branch store when it is accepted; in between it
  may be handed to a driver, start, arrive, or be rejected, which restores the warehouse. Supply
  requests are what branches ask for, push drops what the warehouse sends unasked; both send
  transfers. The stores are shared with \<open>Warehouse\<close>.
\<close>

section \<open>Sending\<close>

record send_line =
  xl_ingredient :: id
  xl_quantity :: decimal
  xl_typedUnit :: "string option"

definition convert_line :: "auth_ctx \<Rightarrow> db \<Rightarrow> send_line \<Rightarrow> (id \<times> decimal \<times> string) result" where
  "convert_line c d x =
     (case find (\<lambda>g. ig_id g = xl_ingredient x \<and> ig_tenantId g = tenant_of c) (ingredients d) of
        None \<Rightarrow> Inl (NotFound ''Ingredient not found.'')
      | Some g \<Rightarrow> bindR (base_quantity c (xl_quantity x) (xl_typedUnit x) g d) (\<lambda>q.
          Inr (xl_ingredient x, q, defaulted (xl_typedUnit x) (ig_unit g))))"

text \<open>A \<open>Map\<close> keeps its keys in the order of their first insertion.\<close>

fun add_to :: "id \<Rightarrow> decimal \<Rightarrow> (id \<times> decimal) list \<Rightarrow> (id \<times> decimal) list" where
  "add_to i q [] = [(i, q)]"
| "add_to i q ((j, x) # m) = (if j = i then (j, x + q) # m else (j, x) # add_to i q m)"

fun merge_lines :: "(id \<times> decimal) list \<Rightarrow> (id \<times> decimal) list \<Rightarrow> (id \<times> decimal) list result" where
  "merge_lines [] m = Inr m"
| "merge_lines ((i, q) # ls) m =
     (if \<not> 0 < q then Inl (BadRequest ''Each transfer line needs quantity > 0.'')
      else merge_lines ls (add_to i q m))"

definition mergeTransferLines :: "(id \<times> decimal) list \<Rightarrow> (id \<times> decimal) list result" where
  "mergeTransferLines ls = merge_lines ls []"

definition uniform_unit :: "(id \<times> decimal \<times> string) list \<Rightarrow> id \<Rightarrow> string option" where
  "uniform_unit ls i =
     (case map (\<lambda>(_, _, u). u) (filter (\<lambda>(j, _, _). j = i) ls) of
        [] \<Rightarrow> None
      | u # us \<Rightarrow> if list_all (\<lambda>v. v = u) us then Some u else None)"

fun check_stock :: "id \<Rightarrow> id \<times> decimal \<Rightarrow> db \<Rightarrow> unit result" where
  "check_stock l (i, q) d =
     (if on_hand (l, i) d < q then Inl (BadRequest ''Not enough at main warehouse'') else Inr ())"

fun check_stocks :: "id \<Rightarrow> (id \<times> decimal) list \<Rightarrow> db \<Rightarrow> unit result" where
  "check_stocks l [] d = Inr ()"
| "check_stocks l (x # xs) d = bindR (check_stock l x d) (\<lambda>_. check_stocks l xs d)"

definition sent_row ::
  "env \<Rightarrow> auth_ctx \<Rightarrow> inventory_location \<Rightarrow> inventory_location \<Rightarrow> (id \<times> decimal \<times> string) list \<Rightarrow>
     (id \<times> decimal) list \<Rightarrow> id option \<Rightarrow> id \<Rightarrow> transfer" where
  "sent_row e c src dst units lines pd i =
     \<lparr>it_id = i, it_tenantId = tenant_of c, it_from = lo_id src, it_to = lo_id dst, it_status = ''SENT'',
      it_supplyRequest = None, it_pushDrop = pd, it_driver = None, it_sentBy = ax_staffMembershipId c,
      it_receivedBy = None, it_dispatchedAt = None, it_sentAt = Some (env_now e), it_receivedAt = None,
      it_lines = map (\<lambda>(i, q). \<lparr>tl_ingredientId = i, tl_sent = round_half_up 4 q,
        tl_unitSent = uniform_unit units i, tl_received = None\<rparr>) lines\<rparr>"

fun send_out :: "auth_ctx \<Rightarrow> inventory_location \<Rightarrow> id \<times> decimal \<Rightarrow> db \<Rightarrow> db result" where
  "send_out c src (i, q) d =
     applyDelta (tenant_of c) (lo_branchId src) (Some (lo_id src)) i (- q) (plain_meta ''TRANSFER_OUT'') d"

definition sendTx ::
  "env \<Rightarrow> auth_ctx \<Rightarrow> inventory_location \<Rightarrow> inventory_location \<Rightarrow> (id \<times> decimal \<times> string) list \<Rightarrow>
     (id \<times> decimal) list \<Rightarrow> id option \<Rightarrow> db \<Rightarrow> (transfer \<times> db) result" where
  "sendTx e c src dst units lines pd d =
     bindR (check_stocks (lo_id src) lines d) (\<lambda>_.
       let t = sent_row e c src dst units lines pd (next_id d)
       in bindR (foldR (send_out c src) lines (d\<lparr>transfers := transfers d @ [t], next_id := next_id d + 1\<rparr>)) (\<lambda>d1.
          bindR (commit d1) (\<lambda>d2. Inr (t, d2))))"

record send_dto =
  cx_to :: id
  cx_from :: "id option"
  cx_lines :: "send_line list"
  cx_drop :: "id option"

definition checkRoute ::
  "auth_ctx \<Rightarrow> send_dto \<Rightarrow> db \<Rightarrow> (inventory_location \<times> inventory_location) result" where
  "checkRoute c dto d =
     (case findMainWarehouse (tenant_of c) d of
        None \<Rightarrow> Inl (BadRequest ''Enable a main warehouse before sending transfers.'')
      | Some main \<Rightarrow>
          (case active_location c (case cx_from dto of Some i \<Rightarrow> i | None \<Rightarrow> lo_id main) d of
             None \<Rightarrow> Inl (NotFound ''Source location not found.'')
           | Some src \<Rightarrow>
               if lo_type src \<noteq> ''MAIN_WAREHOUSE''
               then Inl (BadRequest ''Phase 2 transfers must ship from the main warehouse.'')
               else (case active_location c (cx_to dto) d of
                   None \<Rightarrow> Inl (NotFound ''Destination location not found.'')
                 | Some dst \<Rightarrow>
                     if lo_type dst \<noteq> ''BRANCH_STORE'' \<or> lo_branchId dst = None
                     then Inl (BadRequest ''Transfers must go to a restaurant branch store.'')
                     else if lo_id src = lo_id dst then Inl (BadRequest ''Source and destination must differ.'')
                     else Inr (src, dst))))"

definition createAndSendTransfer :: "env \<Rightarrow> auth_ctx \<Rightarrow> send_dto \<Rightarrow> db \<Rightarrow> (transfer \<times> db) result" where
  "createAndSendTransfer e c dto d =
     bindR (requireInventoryAccess e c False Act_initiate) (\<lambda>c.
     bindR (assertCentralInventoryRole c ''Only owners or store managers can send from the main warehouse.'') (\<lambda>_.
     bindR (checkRoute c dto d) (\<lambda>(src, dst).
     bindR (mapR (convert_line c d) (cx_lines dto)) (\<lambda>ls.
     bindR (mergeTransferLines (map (\<lambda>(i, q, _). (i, q)) ls)) (\<lambda>merged.
       sendTx e c src dst ls merged (cx_drop dto) d)))))"

section \<open>Receiving and rejecting\<close>

definition may_handle :: "auth_ctx \<Rightarrow> inventory_location option \<Rightarrow> bool" where
  "may_handle c dst \<longleftrightarrow> isCentralInventoryRole c \<or>
     (case Option.bind dst lo_branchId of None \<Rightarrow> True
      | Some b \<Rightarrow> ax_branchId c = None \<or> ax_branchId c = Some b)"

definition received_sum :: "send_line list \<Rightarrow> id \<Rightarrow> decimal option" where
  "received_sum ls i = (let xs = filter (\<lambda>x. xl_ingredient x = i) ls
     in if xs = [] then None else Some (sum_list (map xl_quantity xs)))"

definition received_unit :: "send_line list \<Rightarrow> id \<Rightarrow> string option" where
  "received_unit ls i = (case rev (filter (\<lambda>x. xl_ingredient x = i) ls) of
     [] \<Rightarrow> None | x # _ \<Rightarrow> if defaulted (xl_typedUnit x) [] = [] then None else Some (defaulted (xl_typedUnit x) []))"

definition received_base :: "auth_ctx \<Rightarrow> send_line list \<Rightarrow> transfer_line \<Rightarrow> db \<Rightarrow> decimal result" where
  "received_base c ls l d =
     (case row_by ig_id (tl_ingredientId l) (ingredients d) of
        None \<Rightarrow> Inl (DbError ''P2025'')
      | Some g \<Rightarrow>
          bindR (base_quantity c
            (case received_sum ls (tl_ingredientId l) of Some q \<Rightarrow> q | None \<Rightarrow> tl_sent l)
            (received_unit ls (tl_ingredientId l)) g d) (\<lambda>q.
            if q < 0 \<or> tl_sent l < q then Inl (BadRequest ''Received qty out of range'') else Inr q))"

definition shortage_entry :: "id \<Rightarrow> id \<Rightarrow> stock_entry" where
  "shortage_entry l i = \<lparr>se_locationId = l, se_ingredientId = i, se_entryType = ''TRANSFER_SHORTAGE'',
     se_delta = 0, se_orderItemId = None, se_countSessionId = None\<rparr>"

definition take_in ::
  "auth_ctx \<Rightarrow> inventory_location \<Rightarrow> id \<Rightarrow> id \<Rightarrow> decimal \<Rightarrow> decimal \<Rightarrow> db \<Rightarrow> db result" where
  "take_in c dst src i sent q d =
     bindR (if 0 < q then applyDelta (tenant_of c) (lo_branchId dst) (Some (lo_id dst)) i q (plain_meta ''TRANSFER_IN'') d
            else Inr d) (\<lambda>d1.
       Inr (if 0 < roundQty (sent - q) then d1\<lparr>stock_ledger := stock_ledger d1 @ [shortage_entry src i]\<rparr> else d1))"

fun accept_lines ::
  "auth_ctx \<Rightarrow> inventory_location \<Rightarrow> id \<Rightarrow> send_line list \<Rightarrow> transfer_line list \<Rightarrow> db \<Rightarrow>
     (transfer_line list \<times> db) result" where
  "accept_lines c dst src given [] d = Inr ([], d)"
| "accept_lines c dst src given (l # ls) d =
     bindR (received_base c given l d) (\<lambda>q.
     bindR (take_in c dst src (tl_ingredientId l) (tl_sent l) q d) (\<lambda>d1.
     bindR (accept_lines c dst src given ls d1) (\<lambda>(ls', d2).
       Inr (l\<lparr>tl_received := Some q\<rparr> # ls', d2))))"

definition inventory_notice :: "string \<Rightarrow> id \<Rightarrow> id option \<Rightarrow> id \<Rightarrow> notice" where
  "inventory_notice ty t b i = \<lparr>nt_type = ty, nt_recipient = None,
     nt_rooms = Tenant_room t # (case b of None \<Rightarrow> [] | Some x \<Rightarrow> [Branch_room x, Manager_room x]), nt_entity = i\<rparr>"

definition set_transfer :: "id \<Rightarrow> (transfer \<Rightarrow> transfer) \<Rightarrow> db \<Rightarrow> db" where
  "set_transfer i f d = d\<lparr>transfers := update_id it_id i f (transfers d)\<rparr>"

definition find_transfer :: "auth_ctx \<Rightarrow> id \<Rightarrow> db \<Rightarrow> transfer result" where
  "find_transfer c i d =
     (case find (\<lambda>t. it_id t = i \<and> it_tenantId t = tenant_of c) (transfers d) of
        None \<Rightarrow> Inl (NotFound ''Transfer not found.'') | Some t \<Rightarrow> Inr t)"

definition accepted_transfer :: "env \<Rightarrow> auth_ctx \<Rightarrow> transfer_line list \<Rightarrow> transfer \<Rightarrow> transfer" where
  "accepted_transfer e c ls t = t\<lparr>it_status := ''RECEIVED'', it_receivedAt := Some (env_now e),
     it_receivedBy := ax_staffMembershipId c, it_lines := ls\<rparr>"

definition acceptTransfer ::
  "env \<Rightarrow> auth_ctx \<Rightarrow> id \<Rightarrow> send_line list \<Rightarrow> db \<Rightarrow> (transfer \<times> db) result" where
  "acceptTransfer e c i given d =
     bindR (requireInventoryAccess e c False Act_receive) (\<lambda>c.
     bindR (find_transfer c i d) (\<lambda>t.
       if it_status t \<notin> set [''SENT'', ''IN_TRANSIT'', ''ARRIVED'']
       then Inl (BadRequest ''Only SENT, IN_TRANSIT, or ARRIVED transfers can be accepted'')
       else (case row_by lo_id (it_to t) (locations d) of
           None \<Rightarrow> Inl (DbError ''P2025'')
         | Some dst \<Rightarrow>
             if \<not> may_handle c (Some dst)
             then Inl (Forbidden ''You can only accept deliveries for your branch store.'')
             else
               bindR (accept_lines c dst (it_from t) given (it_lines t) d) (\<lambda>(ls, d1).
               bindR (commit (set_transfer i (accepted_transfer e c ls) d1)) (\<lambda>d2.
                 Inr (accepted_transfer e c ls t,
                   emit (Broadcast (inventory_notice ''inventory.transfer.received'' (tenant_of c) (lo_branchId dst) i)) d2))))))"

definition give_back :: "auth_ctx \<Rightarrow> inventory_location \<Rightarrow> transfer_line \<Rightarrow> db \<Rightarrow> db result" where
  "give_back c src l d =
     applyDelta (tenant_of c) (lo_branchId src) (Some (lo_id src)) (tl_ingredientId l) (tl_sent l)
       (plain_meta ''TRANSFER_RETURN'') d"

definition cancelled_transfer :: "env \<Rightarrow> auth_ctx \<Rightarrow> transfer \<Rightarrow> transfer" where
  "cancelled_transfer e c t = t\<lparr>it_status := ''CANCELLED'', it_receivedAt := Some (env_now e),
     it_receivedBy := ax_staffMembershipId c\<rparr>"

definition rejectTransfer :: "env \<Rightarrow> auth_ctx \<Rightarrow> id \<Rightarrow> db \<Rightarrow> (transfer \<times> db) result" where
  "rejectTransfer e c i d =
     bindR (requireInventoryAccess e c False Act_receive) (\<lambda>c.
     bindR (find_transfer c i d) (\<lambda>t.
       if it_status t \<notin> set [''SENT'', ''IN_TRANSIT'']
       then Inl (BadRequest ''Only SENT or IN_TRANSIT transfers can be rejected'')
       else if \<not> may_handle c (row_by lo_id (it_to t) (locations d))
       then Inl (Forbidden ''You can only reject deliveries for your branch store.'')
       else (case row_by lo_id (it_from t) (locations d) of
           None \<Rightarrow> Inl (DbError ''P2025'')
         | Some src \<Rightarrow>
             bindR (foldR (give_back c src) (it_lines t) d) (\<lambda>d1.
             bindR (commit (set_transfer i (cancelled_transfer e c) d1)) (\<lambda>d2.
               Inr (cancelled_transfer e c t,
                 emit (Broadcast (inventory_notice ''inventory.transfer.rejected'' (tenant_of c)
                   (Option.bind (row_by lo_id (it_to t) (locations d)) lo_branchId) i)) d2))))))"

section \<open>On the way\<close>

definition active_driver :: "auth_ctx \<Rightarrow> id \<Rightarrow> db \<Rightarrow> driver option" where
  "active_driver c i d = find (\<lambda>v. dv_id v = i \<and> dv_tenantId v = tenant_of c \<and> dv_status v = ''ACTIVE'') (drivers d)"

definition dispatchTransfer :: "env \<Rightarrow> auth_ctx \<Rightarrow> id \<Rightarrow> id \<Rightarrow> db \<Rightarrow> (unit \<times> db) result" where
  "dispatchTransfer e c i driver d =
     bindR (requireInventoryAccess e c False Act_manage) (\<lambda>c.
     bindR (assertCentralInventoryRole c ''Only owners or store managers can dispatch transfers.'') (\<lambda>_.
     bindR (find_transfer c i d) (\<lambda>t.
       if it_status t \<noteq> ''SENT'' then Inl (BadRequest ''Only SENT transfers can be dispatched to a driver'')
       else if active_driver c driver d = None then Inl (NotFound ''Active driver not found.'')
       else Inr ((), set_transfer i (\<lambda>t. t\<lparr>it_driver := Some driver, it_dispatchedAt := Some (env_now e)\<rparr>) d))))"

text \<open>
  The driver of a user is found by membership, phone or name; phone and name of the caller are
  arguments, as the identity service supplies them.
\<close>

definition driver_of :: "auth_ctx \<Rightarrow> string option \<Rightarrow> string \<Rightarrow> db \<Rightarrow> driver option" where
  "driver_of c phone name d = find (\<lambda>v. dv_tenantId v = tenant_of c \<and>
     ((ax_staffMembershipId c \<noteq> None \<and> dv_registeredBy v = ax_staffMembershipId c) \<or>
      (phone \<noteq> None \<and> phone \<noteq> Some [] \<and> dv_phone v = phone) \<or> dv_displayName v = name)) (drivers d)"

definition startDriverTrip ::
  "env \<Rightarrow> auth_ctx \<Rightarrow> string option \<Rightarrow> string \<Rightarrow> id \<Rightarrow> db \<Rightarrow> (unit \<times> db) result" where
  "startDriverTrip e c phone name i d =
     (if ax_tenantId c = None then Inl (Forbidden ''No restaurant on this account.'')
      else bindR (find_transfer c i d) (\<lambda>t.
        if it_status t \<noteq> ''SENT'' then Inl (BadRequest ''Cannot start trip'')
        else
          let driver = (case it_driver t of Some v \<Rightarrow> Some v | None \<Rightarrow> map_option dv_id (driver_of c phone name d))
          in Inr ((), set_transfer i (\<lambda>t. t\<lparr>it_status := ''IN_TRANSIT'', it_dispatchedAt := Some (env_now e),
                 it_driver := (case driver of Some v \<Rightarrow> Some v | None \<Rightarrow> it_driver t)\<rparr>) d)))"

definition markDriverArrived :: "auth_ctx \<Rightarrow> id \<Rightarrow> db \<Rightarrow> (unit \<times> db) result" where
  "markDriverArrived c i d =
     (if ax_tenantId c = None then Inl (Forbidden ''No restaurant on this account.'')
      else bindR (find_transfer c i d) (\<lambda>t.
        if it_status t \<noteq> ''IN_TRANSIT'' then Inl (BadRequest ''Transfer must be IN_TRANSIT before recording arrival'')
        else Inr ((), set_transfer i (\<lambda>t. t\<lparr>it_status := ''ARRIVED''\<rparr>) d)))"

section \<open>Books and flows\<close>

text \<open>
  The books agree when every balance is the sum of its ledger entries; the flow of an
  ingredient is the sum of the entries transfers made, and what is outstanding is what
  transfers took out of the warehouse and did not deliver: all of it while they are on the way,
  the shortage once they are received, nothing when they were rejected.
\<close>

definition books_agree :: "db \<Rightarrow> bool" where
  "books_agree d \<longleftrightarrow> stock_wf d \<and> (\<forall>k. on_hand k d = booked_qty k d)"

definition transfer_entries :: "string list" where
  "transfer_entries = [''TRANSFER_OUT'', ''TRANSFER_IN'', ''TRANSFER_RETURN'']"

definition transfer_flow :: "id \<Rightarrow> db \<Rightarrow> decimal" where
  "transfer_flow ing d = sum_list (map se_delta (filter (\<lambda>e. se_ingredientId e = ing \<and>
     se_entryType e \<in> set transfer_entries) (stock_ledger d)))"

definition on_the_way :: "string list" where
  "on_the_way = [''SENT'', ''IN_TRANSIT'', ''ARRIVED'']"

definition line_sum :: "(transfer_line \<Rightarrow> decimal) \<Rightarrow> id \<Rightarrow> transfer_line list \<Rightarrow> decimal" where
  "line_sum f ing ls = sum_list (map (\<lambda>l. if tl_ingredientId l = ing then f l else 0) ls)"

definition outstanding_of :: "id \<Rightarrow> transfer \<Rightarrow> decimal" where
  "outstanding_of ing t =
     (if it_status t \<in> set on_the_way then line_sum tl_sent ing (it_lines t)
      else if it_status t = ''RECEIVED''
        then line_sum (\<lambda>l. tl_sent l - (case tl_received l of Some q \<Rightarrow> q | None \<Rightarrow> 0)) ing (it_lines t)
      else 0)"

definition outstanding :: "id \<Rightarrow> db \<Rightarrow> decimal" where
  "outstanding ing d = sum_list (map (outstanding_of ing) (transfers d))"

lemma ensureDefaultLocation_transfers:
  "ensureDefaultLocation t b d = Inr (l, d') \<Longrightarrow>
     transfers d' = transfers d \<and> ingredients d' = ingredients d \<and> idempotency d' = idempotency d"
  by (auto simp: ensureDefaultLocation_def split: option.splits)

lemma applyDelta_transfers:
  assumes "applyDelta t b loc i q m d = Inr d'"
  shows "transfers d' = transfers d \<and> ingredients d' = ingredients d"
proof -
  have u: "transfers (upsert_balance k x sa d0) = transfers d0 \<and> ingredients (upsert_balance k x sa d0) = ingredients d0"
    for k x sa d0 by (simp add: upsert_balance_def split: option.splits)
  show ?thesis
    using assms ensureDefaultLocation_transfers [of t _ d]
    by (auto simp: applyDelta_def Let_def u split: option.splits)
qed

lemma applyDelta_flow:
  assumes "applyDelta t b loc i q m d = Inr d'" and "scaled 4 q"
  shows "transfer_flow ing d' = transfer_flow ing d +
     (if i = ing \<and> dm_entryType m \<in> set transfer_entries then q else 0)"
proof -
  from assms(1) obtain l where "stock_ledger d' = stock_ledger d @ [\<lparr>se_locationId = l, se_ingredientId = i,
      se_entryType = dm_entryType m, se_delta = round_half_up 4 q, se_orderItemId = dm_orderItemId m,
      se_countSessionId = dm_countSessionId m\<rparr>]" by (rule applyDelta_effect) blast
  with assms(2) show ?thesis by (simp add: transfer_flow_def round_scaled)
qed

lemma applyDelta_books:
  assumes "applyDelta t b loc i q m d = Inr d'" and "scaled 4 q" and "dm_setAbsolute m = None" and "books_agree d"
  shows "books_agree d'"
proof -
  from assms(4) have wf: "stock_wf d" and ag: "on_hand k d = booked_qty k d" for k
    unfolding books_agree_def by blast+
  have ex: "exact_move (t, b, loc, i, q, m)" and mv: "move (t, b, loc, i, q, m) d = Inr d'"
    using assms(1-3) by (simp_all add: exact_move_def move_def)
  have "on_hand k d' = booked_qty k d'" for k
    using stock.post_both [OF wf ex mv, of k] ag [of k] by simp
  with stock.post_wf [OF wf ex mv] show ?thesis by (simp add: books_agree_def)
qed

lemma books_cong: "stock d' = stock d \<Longrightarrow> stock_ledger d' = stock_ledger d \<Longrightarrow> books_agree d' \<longleftrightarrow> books_agree d"
  by (simp add: books_agree_def stock_wf_def on_hand_def booked_qty_def)

lemma flow_cong: "stock_ledger d' = stock_ledger d \<Longrightarrow> transfer_flow i d' = transfer_flow i d"
  by (simp add: transfer_flow_def)

lemma plain_meta_simps [simp]:
  "dm_entryType (plain_meta ty) = ty" "dm_setAbsolute (plain_meta ty) = None"
  by (simp_all add: plain_meta_def)

text \<open>The invariant: the books agree, quantities fit their columns, and transfers balance.\<close>

definition lines_wf :: "transfer \<Rightarrow> bool" where
  "lines_wf t \<longleftrightarrow> list_all (\<lambda>l. scaled 4 (tl_sent l)) (it_lines t)"

definition stores_inv :: "db \<Rightarrow> bool" where
  "stores_inv d \<longleftrightarrow> books_agree d \<and> primary_key it_id (transfers d) \<and> list_all lines_wf (transfers d) \<and>
     (\<forall>ing. transfer_flow ing d + outstanding ing d = 0)"

lemma stores_inv_cong:
  "stock d' = stock d \<Longrightarrow> stock_ledger d' = stock_ledger d \<Longrightarrow> transfers d' = transfers d \<Longrightarrow>
     stores_inv d' \<longleftrightarrow> stores_inv d"
  using books_cong [of d' d] flow_cong [of d' d] by (simp add: stores_inv_def outstanding_def)

text \<open>A movement that is not part of a transfer keeps it.\<close>

lemma applyDelta_inv:
  assumes "applyDelta t b loc i q m d = Inr d'" and "scaled 4 q" and "dm_setAbsolute m = None"
    and "dm_entryType m \<notin> set transfer_entries" and "stores_inv d"
  shows "stores_inv d'"
  using applyDelta_books [OF assms(1-3)] applyDelta_flow [OF assms(1,2)] applyDelta_transfers [OF assms(1)] assms(4,5)
  by (simp add: stores_inv_def outstanding_def)

lemma base_quantity_scaled: "base_quantity c q u g d = Inr x \<Longrightarrow> scaled 4 x"
  by (auto simp: base_quantity_def roundQty_scaled)

lemma set_cost_frame [frame, simp]:
  "stock (set_cost i x d) = stock d" "stock_ledger (set_cost i x d) = stock_ledger d"
  "transfers (set_cost i x d) = transfers d"
  by (simp_all add: set_cost_def split: option.splits)

lemma default_store_frame:
  "default_store c b d = Inr (l, d') \<Longrightarrow> stock d' = stock d \<and> stock_ledger d' = stock_ledger d \<and> transfers d' = transfers d"
proof -
  assume "default_store c b d = Inr (l, d')"
  then obtain i where "ensureDefaultLocation (tenant_of c) b d = Inr (i, d')"
    by (auto simp: default_store_def split: option.splits)
  then show ?thesis using ensureDefaultLocation_frame ensureDefaultLocation_transfers by blast
qed

lemma resolveLocation_frame:
  "resolveLocationForWrite c loc d = Inr (l, d') \<Longrightarrow>
     stock d' = stock d \<and> stock_ledger d' = stock_ledger d \<and> transfers d' = transfers d"
proof -
  assume r: "resolveLocationForWrite c loc d = Inr (l, d')"
  have "d' = d \<or> (\<exists>b l0. default_store c b d = Inr (l0, d'))"
  proof (cases "isCentralInventoryRole c")
    case False
    with r show ?thesis
      by (cases "ax_branchId c") (fastforce simp: resolveLocationForWrite_def split: if_splits)+
  next
    case True
    with r show ?thesis
      by (cases loc; cases "ax_branchId c")
        (auto simp: resolveLocationForWrite_def split: option.splits list.splits)
  qed
  then show ?thesis using default_store_frame by blast
qed

lemma receive_one_inv:
  assumes "receive_one c l x d = Inr d'" and "scaled 4 (fst (snd x))" and "stores_inv d"
  shows "stores_inv d'"
proof -
  obtain g q r where x: "x = (g, q, r)" by (cases x)
  with assms(1) obtain d1 where ap: "applyDelta (tenant_of c) (balance_branch c l) (Some (lo_id l)) (ig_id g) q
      (plain_meta ''RECEIVE'') d = Inr d1" and d': "d' = set_cost (ig_id g) (ri_unitCost r) d1" by auto
  from ap assms(2,3) x have "stores_inv d1"
    by (intro applyDelta_inv [OF ap]) (simp_all add: transfer_entries_def)
  then show ?thesis using stores_inv_cong [of d' d1] by (simp add: d')
qed

lemma receiveStockTx_inv:
  assumes run: "receiveStockTx c loc xs d = Inr (l, d')" and sc: "\<And>x. x \<in> set xs \<Longrightarrow> scaled 4 (fst (snd x))"
    and inv: "stores_inv d"
  shows "stores_inv d'"
proof -
  from run obtain d1 d2 where r: "resolveLocationForWrite c loc d = Inr (l, d1)"
    and f: "foldR (receive_one c l) xs d1 = Inr d2" and d': "d' = d2"
    by (auto simp: receiveStockTx_def inversion)
  from resolveLocation_frame [OF r] inv have "stores_inv d1" using stores_inv_cong by blast
  from f this show ?thesis
    unfolding d' by (rule foldR_invariant [where P = stores_inv]) (blast intro: receive_one_inv sc)
qed

lemma mapR_in: "mapR f xs = Inr ys \<Longrightarrow> y \<in> set ys \<Longrightarrow> \<exists>x \<in> set xs. f x = Inr y"
  by (induction xs arbitrary: ys) auto

lemma prepareReceive_scaled: "prepareReceive c d x = Inr p \<Longrightarrow> scaled 4 (fst (snd p))"
  by (auto simp: prepareReceive_def dest: base_quantity_scaled)

lemma receive_inv:
  assumes "receive e c x v loc d = Inr (l, d')" and "stores_inv d"
  shows "stores_inv d'"
proof -
  from assms(1) obtain p where "prepareReceive c d x = Inr p" and tx: "receiveStockTx c loc [p] d = Inr (l, d')"
    by (auto simp: receive_def inversion)
  then show ?thesis using receiveStockTx_inv [OF tx _ assms(2)] prepareReceive_scaled by simp
qed

lemma receiveBatch_inv:
  assumes "receiveBatch e c xs v loc d = Inr (n, d')" and "stores_inv d"
  shows "stores_inv d'"
proof -
  from assms(1) obtain ps l where ps: "mapR (prepareReceive c d) xs = Inr ps"
    and tx: "receiveStockTx c loc ps d = Inr (l, d')"
    by (auto simp: receiveBatch_def inversion split: if_splits)
  have "scaled 4 (fst (snd p))" if "p \<in> set ps" for p
    using mapR_in [OF ps that] prepareReceive_scaled by blast
  then show ?thesis using receiveStockTx_inv [OF tx _ assms(2)] by blast
qed

lemma prepareWaste_eq_Inr [inversion]:
  "prepareWaste e c i q u d = Inr (c', g, b) \<longleftrightarrow> c' = c \<and> requireInventoryAccess e c True Act_manage = Inr c \<and>
     findIngredient c i d = Inr g \<and> base_quantity c q u g d = Inr b"
  by (auto simp: prepareWaste_def inversion)

lemma waste_store_eq_Inr [inversion]:
  "waste_store c d = Inr (l, d1) \<longleftrightarrow>
     (\<exists>b. ax_branchId c = Some b \<and> ensureDefaultLocation (tenant_of c) b d = Inr (l, d1) \<and> db_ok d1)"
  by (auto simp: waste_store_def inversion split: option.splits)

text \<open>What a waste that is answered does is a movement; a refused one changes a balance at most.\<close>

lemma waste_booked:
  assumes "waste e c i q u note d = (Inr r, d')"
  obtains g b where "base_quantity c q u g d = Inr b"
    and "applyDelta (tenant_of c) (ax_branchId c) None (ig_id g) (- b) (plain_meta ''WASTE'') d = Inr d'"
proof -
  from assms obtain g b where p: "prepareWaste e c i q u d = Inr (c, g, b)"
    by (auto simp: waste_def inversion split: sum.splits prod.splits)
  with assms obtain l d1 where s: "waste_store c d = Inr (l, d1)"
    by (auto simp: waste_def split: sum.splits)
  from assms have "applyDelta (tenant_of c) (ax_branchId c) None (ig_id g) (- b) (plain_meta ''WASTE'') d = Inr d'"
    using s by (auto simp: waste_def p applyDelta_def inversion waste_entry_def plain_meta_def Let_def split: if_splits)
  moreover from p have "base_quantity c q u g d = Inr b" by (simp add: inversion)
  ultimately show ?thesis using that by blast
qed

lemma waste_inv:
  assumes "waste e c i q u note d = (Inr r, d')" and "stores_inv d"
  shows "stores_inv d'"
proof -
  from assms(1) obtain g b where b: "base_quantity c q u g d = Inr b"
    and ap: "applyDelta (tenant_of c) (ax_branchId c) None (ig_id g) (- b) (plain_meta ''WASTE'') d = Inr d'"
    by (rule waste_booked)
  from base_quantity_scaled [OF b] show ?thesis
    by (intro applyDelta_inv [OF ap _ _ _ assms(2)]) (simp_all add: scaled_minus transfer_entries_def)
qed

lemma refused_waste:
  assumes "waste e c i q u note d = (Inl x, d')"
  obtains "stock d' = stock d" and "stock_ledger d' = stock_ledger d" and "transfers d' = transfers d"
  | g b l where "findIngredient c i d = Inr g" and "base_quantity c q u g d = Inr b"
    and "x \<in> {DbError ''P2000'', DbError ''P2020''}"
    and "\<And>k. on_hand k d' = (if k = (l, ig_id g) then round_half_up 4 (on_hand k d - b) else on_hand k d)"
    and "\<And>k. booked_qty k d' = booked_qty k d"
    and "\<not> fits_quantity b \<or> \<not> fits_note (withConversionNote
       (Some (case note of Some n \<Rightarrow> n | None \<Rightarrow> ''Waste'')) q u b (ig_unit g))"
proof (cases "prepareWaste e c i q u d")
  case (Inl y)
  with assms show thesis by (auto simp: waste_def intro: that(1))
next
  case (Inr p)
  then obtain g b where p: "prepareWaste e c i q u d = Inr (c, g, b)" by (cases p) (auto simp: inversion)
  show thesis
  proof (cases "waste_store c d")
    case (Inl y)
    with assms p show thesis by (auto simp: waste_def intro: that(1))
  next
    case (Inr t)
    then obtain l d1 where s: "waste_store c d = Inr (l, d1)" by (cases t) auto
    then have fr: "stock d1 = stock d" "stock_ledger d1 = stock_ledger d" "transfers d1 = transfers d"
      using ensureDefaultLocation_frame ensureDefaultLocation_transfers by (auto simp: inversion)
    let ?text = "withConversionNote (Some (case note of Some n \<Rightarrow> n | None \<Rightarrow> ''Waste'')) q u b (ig_unit g)"
    let ?d2 = "upsert_balance (l, ig_id g) (- b) None d1"
    show thesis
    proof (cases "fits_quantity (on_hand (l, ig_id g) d1 - b)")
      case False
      with assms p s fr show thesis by (auto simp: waste_def intro: that(1))
    next
      case True
      with assms p s have "d' = ?d2" and "\<not> fits_quantity b \<or> \<not> fits_note ?text"
        and "x \<in> {DbError ''P2000'', DbError ''P2020''}"
        by (auto simp: waste_def Let_def split: if_splits)
      moreover have "on_hand k d1 = on_hand k d" for k using fr(1) by (rule on_hand_cong)
      then have "on_hand k ?d2 = (if k = (l, ig_id g) then round_half_up 4 (on_hand k d - b) else on_hand k d)" for k
        by (simp add: on_hand_upsert)
      moreover have "booked_qty k ?d2 = booked_qty k d" for k by (simp add: booked_qty_def fr)
      ultimately show thesis using p by (intro that(2) [of g b l]) (auto simp: inversion)
    qed
  qed
qed

section \<open>What a transfer moves\<close>

lemma applyDelta_Some: "applyDelta t b (Some l) i q m d = Inr (at_default l i i q m d)"
  by (simp add: applyDelta_def at_default_def Let_def)

lemma at_default_transfers [simp]:
  "transfers (at_default l x i q m d) = transfers d" "next_id (at_default l x i q m d) = next_id d"
  by (auto simp: at_default_def upsert_balance_def split: option.splits)

lemma post_deltas_transfers [simp]: "transfers (post_deltas l m xs d) = transfers d"
  by (induction l m xs d rule: post_deltas.induct) simp_all

lemma post_deltas_books:
  "books_agree d \<Longrightarrow> list_all (\<lambda>p. scaled 4 (snd p)) xs \<Longrightarrow> dm_setAbsolute m = None \<Longrightarrow>
     books_agree (post_deltas l m xs d)"
proof (induction l m xs d rule: post_deltas.induct)
  case (2 l m i x xs d)
  have "applyDelta 0 None (Some l) i x m d = Inr (at_default l i i x m d)" by (rule applyDelta_Some)
  from applyDelta_books [OF this] 2 show ?case by simp
qed simp

lemma post_deltas_flow:
  "list_all (\<lambda>p. scaled 4 (snd p)) xs \<Longrightarrow> transfer_flow ing (post_deltas l m xs d) =
     transfer_flow ing d + (if dm_entryType m \<in> set transfer_entries then delta_sum ing xs else 0)"
proof (induction l m xs d rule: post_deltas.induct)
  case (1 l m d)
  then show ?case by (simp add: delta_sum_def)
next
  case (2 l m i x xs d)
  have "applyDelta 0 None (Some l) i x m d = Inr (at_default l i i x m d)" by (rule applyDelta_Some)
  from applyDelta_flow [OF this, of ing] 2 show ?case by (auto simp: delta_sum_def)
qed

lemma delta_sum_simps [simp]:
  "delta_sum i [] = 0" "delta_sum i ((j, x) # xs) = (if j = i then x else 0) + delta_sum i xs"
  by (simp_all add: delta_sum_def)

text \<open>Merging keeps the quantities of every ingredient.\<close>

lemma add_to_sum: "delta_sum i (add_to j q m) = delta_sum i m + (if j = i then q else 0)"
  by (induction j q m rule: add_to.induct) auto

lemma add_to_keys: "set (map fst (add_to j q m)) = insert j (set (map fst m))"
  by (induction j q m rule: add_to.induct) auto

lemma add_to_distinct: "distinct (map fst m) \<Longrightarrow> distinct (map fst (add_to j q m))"
proof (induction j q m rule: add_to.induct)
  case (2 j q k x m)
  then show ?case using add_to_keys [of j q m] by auto
qed simp

lemma add_to_wf: "list_all (\<lambda>p. scaled 4 (snd p) \<and> 0 < snd p) m \<Longrightarrow> scaled 4 q \<Longrightarrow> 0 < q \<Longrightarrow>
    list_all (\<lambda>p. scaled 4 (snd p) \<and> 0 < snd p) (add_to j q m)"
  by (induction j q m rule: add_to.induct) (auto intro: scaled_add)

lemma merge_lines_effect:
  assumes "merge_lines ls m = Inr r" and "list_all (\<lambda>p. scaled 4 (snd p)) ls" and "distinct (map fst m)"
    and "list_all (\<lambda>p. scaled 4 (snd p) \<and> 0 < snd p) m"
  shows "distinct (map fst r) \<and> list_all (\<lambda>p. scaled 4 (snd p) \<and> 0 < snd p) r \<and>
     (\<forall>i. delta_sum i r = delta_sum i m + delta_sum i ls)"
  using assms
proof (induction ls m rule: merge_lines.induct)
  case (1 m)
  then show ?case by simp
next
  case (2 i q ls m)
  from 2(2) have q: "0 < q" and rest: "merge_lines ls (add_to i q m) = Inr r" by (auto split: if_splits)
  from 2(3) have "scaled 4 q" and ls: "list_all (\<lambda>p. scaled 4 (snd p)) ls" by simp_all
  from 2(1) [OF _ rest ls add_to_distinct [OF 2(4)] add_to_wf [OF 2(5) \<open>scaled 4 q\<close> q]] q
  show ?case by (auto simp: add_to_sum)
qed

lemma convert_line_scaled: "convert_line c d x = Inr p \<Longrightarrow> scaled 4 (fst (snd p))"
  by (auto simp: convert_line_def split: option.splits dest: base_quantity_scaled)

lemma merged_effect:
  assumes "mapR (convert_line c d) xs = Inr ls" and "mergeTransferLines (map (\<lambda>(i, q, _). (i, q)) ls) = Inr m"
  shows "distinct (map fst m) \<and> list_all (\<lambda>p. scaled 4 (snd p) \<and> 0 < snd p) m \<and>
     (\<forall>i. delta_sum i m = delta_sum i (map (\<lambda>(i, q, _). (i, q)) ls))"
proof -
  have "scaled 4 (fst (snd p))" if "p \<in> set ls" for p
    using mapR_in [OF assms(1) that] convert_line_scaled by blast
  then have "list_all (\<lambda>p. scaled 4 (snd p)) (map (\<lambda>(i, q, _). (i, q)) ls)"
    by (force simp: list_all_iff)
  from merge_lines_effect [OF assms(2) [unfolded mergeTransferLines_def] this] show ?thesis by simp
qed

lemma send_outs:
  "foldR (send_out c src) lines d =
     Inr (post_deltas (lo_id src) (plain_meta ''TRANSFER_OUT'') (map (\<lambda>(i, q). (i, - q)) lines) d)"
  by (induction lines arbitrary: d) (auto simp: applyDelta_Some)

lemma give_backs:
  "foldR (give_back c src) ls d =
     Inr (post_deltas (lo_id src) (plain_meta ''TRANSFER_RETURN'') (map (\<lambda>l. (tl_ingredientId l, tl_sent l)) ls) d)"
  by (induction ls arbitrary: d) (auto simp: give_back_def applyDelta_Some)

lemma delta_sum_uminus: "delta_sum i (map (\<lambda>(i, q). (i, - q)) xs) = - delta_sum i xs"
  by (induction xs) auto

lemma delta_sum_lines: "delta_sum i (map (\<lambda>l. (tl_ingredientId l, f l)) ls) = line_sum f i ls"
  by (induction ls) (auto simp: line_sum_def)

lemma line_sum_sent:
  "list_all (\<lambda>p. scaled 4 (snd p)) lines \<Longrightarrow>
     line_sum tl_sent ing (it_lines (sent_row e c src dst us lines pd i)) = delta_sum ing lines"
  by (induction lines) (auto simp: sent_row_def line_sum_def round_scaled)

lemma check_stocks_eq_Inr:
  "check_stocks l xs d = Inr u \<longleftrightarrow> list_all (\<lambda>(i, q). q \<le> on_hand (l, i) d) xs"
  by (induction l xs d rule: check_stocks.induct) (auto simp: not_less)

lemma sendTx_effect:
  assumes run: "sendTx e c src dst us lines pd d = Inr (t, d')" and sc: "list_all (\<lambda>p. scaled 4 (snd p)) lines"
  shows "t = sent_row e c src dst us lines pd (next_id d)" and "db_ok d'"
    and "transfers d' = transfers d @ [t]"
    and "list_all (\<lambda>(i, q). q \<le> on_hand (lo_id src, i) d) lines"
    and "d' = post_deltas (lo_id src) (plain_meta ''TRANSFER_OUT'') (map (\<lambda>(i, q). (i, - q)) lines)
       (d\<lparr>transfers := transfers d @ [t], next_id := next_id d + 1\<rparr>)"
    and "stock_wf d \<Longrightarrow> on_hand (l, i) d' = on_hand (l, i) d - (if l = lo_id src then delta_sum i lines else 0)"
    and "stores_inv d \<Longrightarrow> stores_inv d'"
proof -
  let ?xs = "map (\<lambda>(i, q). (i, - q)) lines"
  let ?d1 = "d\<lparr>transfers := transfers d @ [sent_row e c src dst us lines pd (next_id d)], next_id := next_id d + 1\<rparr>"
  from run show t: "t = sent_row e c src dst us lines pd (next_id d)" and ok: "db_ok d'"
    and d': "d' = post_deltas (lo_id src) (plain_meta ''TRANSFER_OUT'') ?xs
       (d\<lparr>transfers := transfers d @ [t], next_id := next_id d + 1\<rparr>)"
    and "list_all (\<lambda>(i, q). q \<le> on_hand (lo_id src, i) d) lines"
    by (auto simp: sendTx_def Let_def send_outs inversion check_stocks_eq_Inr)
  then show ts: "transfers d' = transfers d @ [t]" by simp
  have sc': "list_all (\<lambda>p. scaled 4 (snd p)) ?xs"
    using sc by (auto simp: list_all_iff split_beta intro: scaled_minus)
  have w: "stock_wf (d\<lparr>transfers := x, next_id := n\<rparr>) = stock_wf d"
    "on_hand k (d\<lparr>transfers := x, next_id := n\<rparr>) = on_hand k d" for k x n
    by (simp_all add: stock_wf_def on_hand_def)
  show "on_hand (l, i) d' = on_hand (l, i) d - (if l = lo_id src then delta_sum i lines else 0)" if "stock_wf d"
    using on_hand_post_deltas [of ?d1 ?xs "plain_meta ''TRANSFER_OUT''" l i "lo_id src"] that sc'
    by (simp add: d' t w delta_sum_uminus)
  show "stores_inv d'" if inv: "stores_inv d"
  proof -
    have "books_agree ?d1" using inv books_cong [of ?d1 d] by (simp add: stores_inv_def)
    from post_deltas_books [OF this sc'] have b: "books_agree d'" by (simp add: d' t)
    have f: "transfer_flow ing d' = transfer_flow ing d - delta_sum ing lines" for ing
      using post_deltas_flow [OF sc', of ing "lo_id src" "plain_meta ''TRANSFER_OUT''" ?d1] flow_cong [of ?d1 d ing]
      by (simp add: d' t delta_sum_uminus transfer_entries_def)
    have o: "outstanding ing d' = outstanding ing d + delta_sum ing lines" for ing
      using line_sum_sent [OF sc, of ing e c src dst us pd "next_id d"]
      by (simp add: outstanding_def ts t outstanding_of_def on_the_way_def) (simp add: sent_row_def)
    have lw: "lines_wf t" using sc by (auto simp: t lines_wf_def sent_row_def list_all_iff scaled_round)
    have pk: "primary_key it_id (transfers d')" using db_okD [OF ok] by blast
    from inv b f o lw pk show ?thesis by (simp add: stores_inv_def ts)
  qed
qed

definition received_qty :: "transfer_line \<Rightarrow> decimal" where
  "received_qty l = (case tl_received l of Some q \<Rightarrow> q | None \<Rightarrow> 0)"

lemma shortage_frame:
  "books_agree (d\<lparr>stock_ledger := stock_ledger d @ [shortage_entry s i]\<rparr>) \<longleftrightarrow> books_agree d"
  "transfer_flow ing (d\<lparr>stock_ledger := stock_ledger d @ [shortage_entry s i]\<rparr>) = transfer_flow ing d"
  by (simp_all add: books_agree_def stock_wf_def on_hand_def booked_qty_def shortage_entry_def transfer_flow_def)

lemma take_in_effect:
  assumes run: "take_in c dst src i sent q d = Inr d'" and q: "0 \<le> q" "scaled 4 q"
  shows "books_agree d \<Longrightarrow> books_agree d'"
    and "transfer_flow ing d' = transfer_flow ing d + (if i = ing then q else 0)"
    and "stock_wf d \<Longrightarrow> on_hand (l, j) d' = on_hand (l, j) d + (if l = lo_id dst \<and> j = i then q else 0)"
    and "stock_wf d \<Longrightarrow> stock_wf d'"
    and "transfers d' = transfers d" and "ingredients d' = ingredients d"
proof -
  define d1 where "d1 = (if 0 < q then at_default (lo_id dst) i i q (plain_meta ''TRANSFER_IN'') d else d)"
  from run have d': "d' = d1 \<or> d' = d1\<lparr>stock_ledger := stock_ledger d1 @ [shortage_entry src i]\<rparr>"
    by (auto simp: take_in_def d1_def applyDelta_Some split: if_splits)
  then have st: "stock d' = stock d1" and tr: "transfers d' = transfers d1" and ig: "ingredients d' = ingredients d1"
    by auto
  have post: "d1 = post_deltas (lo_id dst) (plain_meta ''TRANSFER_IN'') (if 0 < q then [(i, q)] else []) d"
    by (simp add: d1_def)
  have sc: "list_all (\<lambda>p. scaled 4 (snd p)) (if 0 < q then [(i, q)] else [])" using q by simp
  have wf: "stock_wf d' = stock_wf d1" and oh: "on_hand k d' = on_hand k d1" for k
    by (simp_all add: stock_wf_def on_hand_def st)
  show "books_agree d'" if "books_agree d"
    using post_deltas_books [OF that sc, of "plain_meta ''TRANSFER_IN''" "lo_id dst"] d'
    by (auto simp: post shortage_frame)
  have "transfer_flow ing d' = transfer_flow ing d1" using d' by (auto simp: shortage_frame)
  then show "transfer_flow ing d' = transfer_flow ing d + (if i = ing then q else 0)"
    using post_deltas_flow [OF sc, of ing "lo_id dst" "plain_meta ''TRANSFER_IN''" d] q
    by (auto simp: post transfer_entries_def)
  show "on_hand (l, j) d' = on_hand (l, j) d + (if l = lo_id dst \<and> j = i then q else 0)" if "stock_wf d"
    using on_hand_post_deltas [OF that sc, of "plain_meta ''TRANSFER_IN''" l j "lo_id dst"] q
    by (auto simp: oh post)
  show "stock_wf d'" if "stock_wf d" using post_deltas_wf [OF that] by (simp add: wf post)
  show "transfers d' = transfers d" "ingredients d' = ingredients d"
    using tr ig by (simp_all add: d1_def)
qed

lemma received_base_bounds:
  "received_base c given l d = Inr q \<Longrightarrow> 0 \<le> q \<and> q \<le> tl_sent l \<and> scaled 4 q"
  by (auto simp: received_base_def not_less dest: base_quantity_scaled split: option.splits if_splits)

definition line_done :: "transfer_line \<Rightarrow> transfer_line \<Rightarrow> bool" where
  "line_done l l' \<longleftrightarrow> tl_ingredientId l' = tl_ingredientId l \<and> tl_sent l' = tl_sent l \<and>
     tl_unitSent l' = tl_unitSent l \<and>
     (\<exists>q. tl_received l' = Some q \<and> 0 \<le> q \<and> q \<le> tl_sent l \<and> scaled 4 q)"

lemma accept_lines_effect:
  assumes "accept_lines c dst src given ls d = Inr (ls', d')"
  shows "list_all2 line_done ls ls' \<and> transfers d' = transfers d \<and>
     (books_agree d \<longrightarrow> books_agree d') \<and>
     (\<forall>ing. transfer_flow ing d' = transfer_flow ing d + line_sum received_qty ing ls') \<and>
     (stock_wf d \<longrightarrow> (\<forall>l i. on_hand (l, i) d' =
        on_hand (l, i) d + (if l = lo_id dst then line_sum received_qty i ls' else 0)))"
  using assms
proof (induction ls arbitrary: d ls')
  case Nil
  then show ?case by (auto simp: line_sum_def)
next
  case (Cons l ls)
  from Cons.prems obtain q d1 ls2 where q: "received_base c given l d = Inr q"
    and t: "take_in c dst src (tl_ingredientId l) (tl_sent l) q d = Inr d1"
    and r: "accept_lines c dst src given ls d1 = Inr (ls2, d')" and ls': "ls' = l\<lparr>tl_received := Some q\<rparr> # ls2"
    by auto
  note b = received_base_bounds [OF q]
  then have "0 \<le> q" and "scaled 4 q" by auto
  note te = take_in_effect [OF t this]
  have "line_done l (l\<lparr>tl_received := Some q\<rparr>)" using b by (simp add: line_done_def)
  then show ?case
    using Cons.IH [OF r] te by (auto simp: ls' line_sum_def received_qty_def)
qed

lemma line_done_sums:
  "list_all2 line_done ls ls' \<Longrightarrow> line_sum tl_sent ing ls' = line_sum tl_sent ing ls \<and>
     line_sum (\<lambda>l. tl_sent l - (case tl_received l of Some q \<Rightarrow> q | None \<Rightarrow> 0)) ing ls' =
       line_sum tl_sent ing ls - line_sum received_qty ing ls'"
  by (induction ls ls' rule: list_all2_induct) (auto simp: line_sum_def line_done_def received_qty_def)

lemma find_transfer_row:
  assumes "find_transfer c i d = Inr t" and "primary_key it_id (transfers d)"
  shows "row_by it_id i (transfers d) = Some t" and "it_id t = i"
proof -
  from assms(1) have f: "find (\<lambda>t. it_id t = i \<and> it_tenantId t = tenant_of c) (transfers d) = Some t"
    by (auto simp: find_transfer_def split: option.splits)
  from find_row_by [OF f] assms(2) show "row_by it_id i (transfers d) = Some t" by (auto dest: primary_keyD)
  from f show "it_id t = i" by (auto dest: find_Some_in)
qed

text \<open>Changing one transfer changes what is outstanding by the difference of that transfer.\<close>

lemma outstanding_set:
  assumes "row_by it_id i (transfers d) = Some t" and "primary_key it_id (transfers d)"
    and "\<And>t. it_id (f t) = it_id t"
  shows "outstanding ing (set_transfer i f d) = outstanding ing d + (outstanding_of ing (f t) - outstanding_of ing t)"
  using sum_list_update_id [of it_id "transfers d" i t f "outstanding_of ing"] assms
  by (simp add: outstanding_def set_transfer_def primary_keyD)

lemma set_transfer_inv:
  assumes inv: "stores_inv d0" and row: "row_by it_id i (transfers d0) = Some t"
    and tr: "transfers d = transfers d0" and b: "books_agree d"
    and f: "\<And>t. it_id (f t) = it_id t" "lines_wf (f t)"
    and bal: "\<And>ing. transfer_flow ing d - transfer_flow ing d0 = outstanding_of ing t - outstanding_of ing (f t)"
  shows "stores_inv (set_transfer i f d)"
proof -
  have pk: "primary_key it_id (transfers d)" using inv tr by (simp add: stores_inv_def)
  have st: "stock (set_transfer i f d) = stock d" "stock_ledger (set_transfer i f d) = stock_ledger d"
    by (simp_all add: set_transfer_def)
  have same: "outstanding ing d = outstanding ing d0" for ing by (simp add: outstanding_def tr)
  have "transfer_flow ing (set_transfer i f d) + outstanding ing (set_transfer i f d) = 0" for ing
  proof -
    have "outstanding ing (set_transfer i f d) = outstanding ing d + (outstanding_of ing (f t) - outstanding_of ing t)"
      by (rule outstanding_set) (use row pk f tr in simp_all)
    moreover have "transfer_flow ing d0 + outstanding ing d0 = 0" using inv by (simp add: stores_inv_def)
    ultimately show ?thesis using same [of ing] bal [of ing] flow_cong [OF st(2), of ing] by linarith
  qed
  moreover have "primary_key it_id (transfers (set_transfer i f d))"
    using pk f(1) by (simp add: set_transfer_def keyed_def map_update_id)
  moreover have "list_all lines_wf (transfers (set_transfer i f d))"
  proof -
    have "x = t" if "x \<in> set (transfers d)" "it_id x = i" for x
      using that row_by_distinct [of it_id "transfers d" x] pk row tr by (simp add: keyed_def)
    then show ?thesis using inv tr f(2)
      by (auto simp: stores_inv_def set_transfer_def list_all_iff update_id_def update_many_def)
  qed
  ultimately show ?thesis using b books_cong [OF st] by (simp add: stores_inv_def)
qed

lemma line_done_wf:
  "list_all2 line_done ls ls' \<Longrightarrow> list_all (\<lambda>l. scaled 4 (tl_sent l)) ls \<Longrightarrow> list_all (\<lambda>l. scaled 4 (tl_sent l)) ls'"
  by (induction ls ls' rule: list_all2_induct) (auto simp: line_done_def)

lemma row_lines_wf: "stores_inv d \<Longrightarrow> row_by it_id i (transfers d) = Some t \<Longrightarrow> lines_wf t"
  by (auto simp: stores_inv_def list_all_iff dest!: row_by_SomeD)

lemma acceptTransfer_effect:
  assumes run: "acceptTransfer e c i given d = Inr (t', d')" and pk: "primary_key it_id (transfers d)"
  obtains t dst ls where "row_by it_id i (transfers d) = Some t" and "it_status t \<in> set on_the_way"
    and "row_by lo_id (it_to t) (locations d) = Some dst" and "may_handle c (Some dst)"
    and "list_all2 line_done (it_lines t) ls" and "t' = accepted_transfer e c ls t"
    and "transfers d' = update_id it_id i (accepted_transfer e c ls) (transfers d)"
    and "stock_wf d \<Longrightarrow> \<forall>l j. on_hand (l, j) d' =
        on_hand (l, j) d + (if l = it_to t then line_sum received_qty j ls else 0)"
    and "stores_inv d \<Longrightarrow> stores_inv d'"
    and "\<exists>d1. accept_lines c dst (it_from t) given (it_lines t) d = Inr (ls, d1)"
proof -
  from run obtain t where t: "find_transfer c i d = Inr t" and st: "it_status t \<in> set on_the_way"
    by (auto simp: acceptTransfer_def inversion on_the_way_def split: if_splits)
  note row = find_transfer_row [OF t pk]
  from run t obtain dst where dst: "row_by lo_id (it_to t) (locations d) = Some dst"
    by (auto simp: acceptTransfer_def inversion split: if_splits option.splits)
  from run t dst obtain ls d1 where h: "may_handle c (Some dst)"
    and al: "accept_lines c dst (it_from t) given (it_lines t) d = Inr (ls, d1)"
    and t': "t' = accepted_transfer e c ls t"
    and d': "d' = emit (Broadcast (inventory_notice ''inventory.transfer.received'' (tenant_of c) (lo_branchId dst) i))
       (set_transfer i (accepted_transfer e c ls) d1)"
    by (auto simp: acceptTransfer_def inversion split: if_splits)
  note eff = accept_lines_effect [OF al]
  have to: "lo_id dst = it_to t" using dst by (auto dest: row_by_SomeD)
  have tr: "transfers d' = update_id it_id i (accepted_transfer e c ls) (transfers d)"
    using eff by (simp add: d' set_transfer_def)
  have st': "stock d' = stock d1" "stock_ledger d' = stock_ledger d1" by (simp_all add: d' set_transfer_def)
  have oh: "stock_wf d \<Longrightarrow> \<forall>l j. on_hand (l, j) d' =
        on_hand (l, j) d + (if l = it_to t then line_sum received_qty j ls else 0)"
    using eff to on_hand_cong [OF st'(1)] by simp
  have inv: "stores_inv d'" if inv: "stores_inv d"
  proof -
    have "stores_inv (set_transfer i (accepted_transfer e c ls) d1)"
    proof (rule set_transfer_inv [OF inv row(1)])
      show "lines_wf (accepted_transfer e c ls t)"
        using eff row_lines_wf [OF inv row(1)] line_done_wf [of "it_lines t" ls]
        by (simp add: lines_wf_def accepted_transfer_def)
      show "transfer_flow ing d1 - transfer_flow ing d = outstanding_of ing t - outstanding_of ing (accepted_transfer e c ls t)" for ing
        using eff line_done_sums [of "it_lines t" ls ing] st
        by (simp add: outstanding_of_def accepted_transfer_def on_the_way_def)
    qed (use eff inv in \<open>auto simp: accepted_transfer_def stores_inv_def\<close>)
    then show ?thesis using stores_inv_cong [of d' "set_transfer i (accepted_transfer e c ls) d1"] by (simp add: d')
  qed
  from that [OF row(1) st dst h _ t' tr oh inv] eff al show ?thesis by blast
qed

lemma rejectTransfer_effect:
  assumes run: "rejectTransfer e c i d = Inr (t', d')" and pk: "primary_key it_id (transfers d)"
  obtains t where "row_by it_id i (transfers d) = Some t" and "it_status t \<in> set [''SENT'', ''IN_TRANSIT'']"
    and "transfers d' = update_id it_id i (cancelled_transfer e c) (transfers d)"
    and "stock_wf d \<Longrightarrow> lines_wf t \<Longrightarrow> \<forall>l j. on_hand (l, j) d' =
        on_hand (l, j) d + (if l = it_from t then line_sum tl_sent j (it_lines t) else 0)"
    and "stores_inv d \<Longrightarrow> stores_inv d'"
proof -
  from run obtain t where t: "find_transfer c i d = Inr t" and st: "it_status t \<in> set [''SENT'', ''IN_TRANSIT'']"
    by (auto simp: rejectTransfer_def inversion split: if_splits)
  note row = find_transfer_row [OF t pk]
  from run t st obtain src where src: "row_by lo_id (it_from t) (locations d) = Some src"
    by (auto simp: rejectTransfer_def inversion split: if_splits option.splits)
  let ?xs = "map (\<lambda>l. (tl_ingredientId l, tl_sent l)) (it_lines t)"
  define d1 where "d1 = post_deltas (lo_id src) (plain_meta ''TRANSFER_RETURN'') ?xs d"
  from run t st src obtain b where
    d': "d' = emit b (set_transfer i (cancelled_transfer e c) d1)"
    by (auto simp: rejectTransfer_def inversion give_backs d1_def split: if_splits)
  have src_id: "lo_id src = it_from t" using src by (auto dest: row_by_SomeD)
  have sc: "lines_wf t \<Longrightarrow> list_all (\<lambda>p. scaled 4 (snd p)) ?xs" by (auto simp: lines_wf_def list_all_iff)
  have st': "stock d' = stock d1" by (simp add: d' set_transfer_def)
  have oh: "stock_wf d \<Longrightarrow> lines_wf t \<Longrightarrow> \<forall>l j. on_hand (l, j) d' =
        on_hand (l, j) d + (if l = it_from t then line_sum tl_sent j (it_lines t) else 0)"
    using on_hand_post_deltas [of d ?xs "plain_meta ''TRANSFER_RETURN''"] sc
    by (simp add: on_hand_cong [OF st'] d1_def src_id delta_sum_lines)
  have inv: "stores_inv d'" if inv: "stores_inv d"
  proof -
    note lw = row_lines_wf [OF inv row(1)]
    have "stores_inv (set_transfer i (cancelled_transfer e c) d1)"
    proof (rule set_transfer_inv [OF inv row(1)])
      show "books_agree d1" using inv post_deltas_books [OF _ sc [OF lw]] by (simp add: d1_def stores_inv_def)
      show "lines_wf (cancelled_transfer e c t)" using lw by (simp add: lines_wf_def cancelled_transfer_def)
      show "transfer_flow ing d1 - transfer_flow ing d = outstanding_of ing t - outstanding_of ing (cancelled_transfer e c t)" for ing
        using post_deltas_flow [OF sc [OF lw], of ing "lo_id src" "plain_meta ''TRANSFER_RETURN''" d] st
        by (auto simp: d1_def delta_sum_lines outstanding_of_def cancelled_transfer_def on_the_way_def transfer_entries_def)
    qed (auto simp: cancelled_transfer_def d1_def)
    then show ?thesis using stores_inv_cong [of d' "set_transfer i (cancelled_transfer e c) d1"] by (simp add: d')
  qed
  have "transfers d' = update_id it_id i (cancelled_transfer e c) (transfers d)"
    by (simp add: d' set_transfer_def d1_def)
  from that [OF row(1) st this oh inv] show ?thesis by blast
qed

text \<open>A step that changes a transfer on its way, but neither its lines nor any stock.\<close>

lemma on_the_way_step:
  assumes inv: "stores_inv d" and row: "row_by it_id i (transfers d) = Some t"
    and f: "\<And>t. it_id (f t) = it_id t" "\<And>t. it_lines (f t) = it_lines t"
    and st: "it_status t \<in> set on_the_way" "it_status (f t) \<in> set on_the_way"
  shows "stores_inv (set_transfer i f d)"
proof (rule set_transfer_inv [OF inv row])
  show "lines_wf (f t)" using row_lines_wf [OF inv row] f by (simp add: lines_wf_def)
qed (use inv f st in \<open>auto simp: stores_inv_def outstanding_of_def\<close>)

lemma trip_steps_inv:
  assumes "stores_inv d"
  shows "dispatchTransfer e c i v d = Inr (u, d') \<Longrightarrow> stores_inv d'"
    and "startDriverTrip e c ph nm i d = Inr (u, d') \<Longrightarrow> stores_inv d'"
    and "markDriverArrived c i d = Inr (u, d') \<Longrightarrow> stores_inv d'"
proof -
  have pk: "primary_key it_id (transfers d)" using assms by (simp add: stores_inv_def)
  show "stores_inv d'" if run: "dispatchTransfer e c i v d = Inr (u, d')"
  proof -
    from run obtain t where t: "find_transfer c i d = Inr t" and "it_status t = ''SENT''"
      and d': "d' = set_transfer i (\<lambda>t. t\<lparr>it_driver := Some v, it_dispatchedAt := Some (env_now e)\<rparr>) d"
      by (auto simp: dispatchTransfer_def inversion)
    then show ?thesis unfolding d'
      by (intro on_the_way_step [OF assms find_transfer_row(1) [OF t pk]]) (simp_all add: on_the_way_def)
  qed
  show "stores_inv d'" if run: "startDriverTrip e c ph nm i d = Inr (u, d')"
  proof -
    from run obtain t dr where t: "find_transfer c i d = Inr t" and "it_status t = ''SENT''"
      and d': "d' = set_transfer i (\<lambda>t. t\<lparr>it_status := ''IN_TRANSIT'', it_dispatchedAt := Some (env_now e),
           it_driver := (case dr of Some v \<Rightarrow> Some v | None \<Rightarrow> it_driver t)\<rparr>) d"
      by (auto simp: startDriverTrip_def Let_def split: if_splits)
    then show ?thesis unfolding d'
      by (intro on_the_way_step [OF assms find_transfer_row(1) [OF t pk]]) (simp_all add: on_the_way_def)
  qed
  show "stores_inv d'" if run: "markDriverArrived c i d = Inr (u, d')"
  proof -
    from run obtain t where t: "find_transfer c i d = Inr t" and "it_status t = ''IN_TRANSIT''"
      and d': "d' = set_transfer i (\<lambda>t. t\<lparr>it_status := ''ARRIVED''\<rparr>) d"
      by (auto simp: markDriverArrived_def split: if_splits)
    then show ?thesis unfolding d'
      by (intro on_the_way_step [OF assms find_transfer_row(1) [OF t pk]]) (simp_all add: on_the_way_def)
  qed
qed

lemma createAndSend_effect:
  assumes run: "createAndSendTransfer e c dto d = Inr (t, d')"
  obtains src dst ls lines where "checkRoute c dto d = Inr (src, dst)"
    and "mapR (convert_line c d) (cx_lines dto) = Inr ls"
    and "mergeTransferLines (map (\<lambda>(i, q, _). (i, q)) ls) = Inr lines"
    and "sendTx e c src dst ls lines (cx_drop dto) d = Inr (t, d')"
    and "list_all (\<lambda>p. scaled 4 (snd p)) lines"
proof -
  from run obtain src dst ls lines where *: "checkRoute c dto d = Inr (src, dst)"
    "mapR (convert_line c d) (cx_lines dto) = Inr ls"
    "mergeTransferLines (map (\<lambda>(i, q, _). (i, q)) ls) = Inr lines"
    "sendTx e c src dst ls lines (cx_drop dto) d = Inr (t, d')"
    by (auto simp: createAndSendTransfer_def inversion)
  from that [OF *] merged_effect [OF *(2,3)] show ?thesis by (auto simp: list_all_iff)
qed

lemma createAndSend_inv: "createAndSendTransfer e c dto d = Inr (t, d') \<Longrightarrow> stores_inv d \<Longrightarrow> stores_inv d'"
  by (erule createAndSend_effect) (rule sendTx_effect(7))

end
