(* ===== verification/Rounding.thy ===== *)
theory Rounding
  imports Prelude
begin

text \<open>
  The rounding of the services that compute with JavaScript numbers,
  \<open>Math.round(n * 10 ** k) / 10 ** k\<close>: halves go up, also below zero, where \<open>round_half_up\<close>
  (the decimals of the database) goes away from zero. The two agree from zero upwards. The
  numbers themselves are exact rationals here, so what a binary fraction may lose before it
  is rounded is not modelled.
\<close>

definition js_round :: "nat \<Rightarrow> decimal \<Rightarrow> decimal" where
  "js_round k n = of_int \<lfloor>n * 10 ^ k + 1 / 2\<rfloor> / 10 ^ k"

lemma js_round_scaled [intro, simp]: "scaled k (js_round k n)"
  by (simp add: js_round_def scaled_def)

lemma js_round_id: "scaled k n \<Longrightarrow> js_round k n = n"
proof -
  assume "scaled k n"
  then obtain m :: int where m: "n * 10 ^ k = of_int m"
    by (auto simp: scaled_def elim: Ints_cases)
  then have "\<lfloor>n * 10 ^ k + 1 / 2\<rfloor> = m" using floor_int_half [of m] by simp
  then have "js_round k n = of_int m / 10 ^ k" by (simp add: js_round_def)
  also have "\<dots> = n" using m [symmetric] by simp
  finally show ?thesis .
qed

lemma js_round_round [simp]: "js_round k (js_round k n) = js_round k n"
  by (rule js_round_id) simp

lemma js_round_nonneg [intro]: "0 \<le> n \<Longrightarrow> 0 \<le> js_round k n"
  by (simp add: js_round_def)

lemma js_round_eq: "0 \<le> n \<Longrightarrow> js_round k n = round_half_up k n"
  by (simp add: js_round_def round_half_up_def)

lemma js_round_error: "\<bar>js_round k n - n\<bar> \<le> 1 / (2 * 10 ^ k)"
proof -
  have "\<bar>of_int \<lfloor>n * 10 ^ k + 1 / 2\<rfloor> - n * 10 ^ k\<bar> \<le> 1 / 2"
    using floor_correct [of "n * 10 ^ k + 1 / 2"] by linarith
  then have "\<bar>of_int \<lfloor>n * 10 ^ k + 1 / 2\<rfloor> - n * 10 ^ k\<bar> / 10 ^ k \<le> 1 / 2 / 10 ^ k"
    by (rule divide_right_mono) simp
  moreover have "js_round k n - n = (of_int \<lfloor>n * 10 ^ k + 1 / 2\<rfloor> - n * 10 ^ k) / 10 ^ k"
    by (simp add: js_round_def field_simps)
  ultimately show ?thesis by (simp add: abs_divide)
qed

lemma js_round_mono: "m \<le> n \<Longrightarrow> js_round k m \<le> js_round k n"
  by (auto simp: js_round_def intro!: divide_right_mono floor_mono mult_right_mono)

lemma js_round_0 [simp]: "js_round k 0 = 0"
  by (simp add: js_round_id)

end
