(* ===== verification/Production.thy ===== *)
theory Production
  imports Transfers Rounding
begin

text \<open>
  Production (\<open>postProductionBatch\<close> of \<open>src/inventory/inventory.service.ts\<close>): a batch consumes
  inputs at one store and makes a quantity of an output there, whose unit cost becomes the cost
  of the inputs divided by what came out. The quantities arrive in any unit and are converted
  first. Notes and the ledger's cost column are left out, as in \<open>Warehouse\<close>.
\<close>

section \<open>Where production may happen\<close>

record batch_dto =
  bt_output :: id
  bt_quantity :: decimal
  bt_expected :: "decimal option"
  bt_kind :: "string option"
  bt_location :: "id option"
  bt_unit :: "string option"
  bt_inputs :: "send_line list"

definition production_store :: "auth_ctx \<Rightarrow> id option \<Rightarrow> db \<Rightarrow> inventory_location result" where
  "production_store c loc d =
     (let main = findMainWarehouse (tenant_of c) d
      in if main = None \<and> loc = None
         then Inl (BadRequest ''Pick a store location, or enable a main warehouse.'')
         else (case active_location c (case loc of Some i \<Rightarrow> i | None \<Rightarrow> lo_id (the main)) d of
             None \<Rightarrow> Inl (NotFound ''Production location not found.'')
           | Some l \<Rightarrow>
               if lo_type l \<noteq> ''MAIN_WAREHOUSE'' \<and> lo_type l \<noteq> ''BRANCH_STORE''
               then Inl (BadRequest ''Production is only allowed at main warehouse or a restaurant store.'')
               else if lo_type l = ''MAIN_WAREHOUSE''
               then bindR (assertCentralInventoryRole c
                      ''Only owners or store managers can post production at the main warehouse.'') (\<lambda>_. Inr l)
               else if ax_roleCode c \<noteq> ''OWNER_ADMIN'' \<and> ax_branchId c \<noteq> None \<and> lo_branchId l \<noteq> None \<and>
                  lo_branchId l \<noteq> ax_branchId c
               then Inl (Forbidden ''You can only post production at your restaurant store.'')
               else Inr l))"

section \<open>The batch\<close>

abbreviation roundMoney :: "decimal \<Rightarrow> decimal" where
  "roundMoney \<equiv> js_round 2"

abbreviation roundMoney4 :: "decimal \<Rightarrow> decimal" where
  "roundMoney4 \<equiv> js_round 4"

text \<open>Each input has to exist and to be on hand; its row carries the unit cost of the moment.\<close>

definition input_row :: "auth_ctx \<Rightarrow> id \<Rightarrow> db \<Rightarrow> id \<times> decimal \<Rightarrow> (id \<times> decimal \<times> decimal) result" where
  "input_row c l d x =
     (case find (\<lambda>g. ig_id g = fst x \<and> ig_tenantId g = tenant_of c) (ingredients d) of
        None \<Rightarrow> Inl (NotFound ''Input ingredient not found.'')
      | Some g \<Rightarrow>
          if on_hand (l, fst x) d < snd x then Inl (BadRequest ''Not enough of an input at the store'')
          else Inr (fst x, snd x, ig_unitCost g))"

definition input_cost :: "(id \<times> decimal \<times> decimal) list \<Rightarrow> decimal" where
  "input_cost rows = roundMoney (sum_list (map (\<lambda>(_, q, u). q * u) rows))"

definition output_unit_cost :: "decimal \<Rightarrow> decimal \<Rightarrow> decimal" where
  "output_unit_cost cost qty = (if 0 < qty then roundMoney4 (cost / qty) else 0)"

definition batch_yield :: "decimal \<Rightarrow> decimal option \<Rightarrow> (id \<times> decimal) list \<Rightarrow> decimal option" where
  "batch_yield qty expected inputs =
     (case expected of
        Some x \<Rightarrow> if 0 < x then Some (roundMoney (qty / x * 100))
                  else (case inputs of [(_, q)] \<Rightarrow> Some (roundMoney (qty / q * 100)) | _ \<Rightarrow> None)
      | None \<Rightarrow> (case inputs of [(_, q)] \<Rightarrow> Some (roundMoney (qty / q * 100)) | _ \<Rightarrow> None))"

definition batch_row ::
  "auth_ctx \<Rightarrow> inventory_location \<Rightarrow> batch_dto \<Rightarrow> decimal \<Rightarrow> decimal option \<Rightarrow> decimal \<Rightarrow> (id \<times> decimal) list \<Rightarrow>
     id \<Rightarrow> production_batch" where
  "batch_row c l dto qty expected cost inputs i =
     \<lparr>pb_id = i, pb_tenantId = tenant_of c, pb_locationId = lo_id l, pb_output = bt_output dto,
      pb_outputQty = round_half_up 4 qty, pb_expectedQty = map_option (round_half_up 4) expected,
      pb_yieldPercent = map_option dp2 (batch_yield qty expected inputs),
      pb_inputCostTotal = round_half_up 4 cost, pb_outputUnitCost = round_half_up 4 (output_unit_cost cost qty),
      pb_inputs = map (\<lambda>(i, q). (i, round_half_up 4 q)) inputs\<rparr>"

definition consume :: "auth_ctx \<Rightarrow> inventory_location \<Rightarrow> id \<times> decimal \<times> decimal \<Rightarrow> db \<Rightarrow> db result" where
  "consume c l x d = applyDelta (tenant_of c) (lo_branchId l) (Some (lo_id l)) (fst x) (- fst (snd x))
     (plain_meta ''PRODUCE_CONSUME'') d"

definition produced_ingredient :: "batch_dto \<Rightarrow> production_batch \<Rightarrow> ingredient \<Rightarrow> ingredient" where
  "produced_ingredient dto b g = g\<lparr>ig_unitCost := pb_outputUnitCost b,
     ig_itemKind := (case bt_kind dto of Some k \<Rightarrow> k | None \<Rightarrow> ''PRODUCED''),
     ig_yieldPercent := (case pb_yieldPercent b of Some y \<Rightarrow> Some y | None \<Rightarrow> ig_yieldPercent g)\<rparr>"

definition productionTx ::
  "auth_ctx \<Rightarrow> inventory_location \<Rightarrow> batch_dto \<Rightarrow> (id \<times> decimal) list \<Rightarrow> db \<Rightarrow> (production_batch \<times> db) result" where
  "productionTx c l dto inputs d =
     (case find (\<lambda>g. ig_id g = bt_output dto \<and> ig_tenantId g = tenant_of c) (ingredients d) of
        None \<Rightarrow> Inl (NotFound ''Output ingredient not found.'')
      | Some g \<Rightarrow>
          bindR (base_quantity c (bt_quantity dto) (bt_unit dto) g d) (\<lambda>qty.
          bindR (case bt_expected dto of None \<Rightarrow> Inr None
                 | Some x \<Rightarrow> bindR (base_quantity c x (bt_unit dto) g d) (\<lambda>y. Inr (Some y))) (\<lambda>expected.
          bindR (mapR (input_row c (lo_id l) d) inputs) (\<lambda>rows.
            let b = batch_row c l dto qty expected (input_cost rows) inputs (next_id d);
                d1 = d\<lparr>production_batches := production_batches d @ [b], next_id := next_id d + 1\<rparr>
            in bindR (foldR (consume c l) rows d1) (\<lambda>d2.
               bindR (applyDelta (tenant_of c) (lo_branchId l) (Some (lo_id l)) (bt_output dto) qty
                  (plain_meta ''PRODUCE_OUTPUT'') d2) (\<lambda>d3.
               bindR (commit (d3\<lparr>ingredients := update_id ig_id (ig_id g) (produced_ingredient dto b)
                  (ingredients d3)\<rparr>)) (\<lambda>d4. Inr (b, d4))))))))"

definition postProductionBatch ::
  "env \<Rightarrow> auth_ctx \<Rightarrow> batch_dto \<Rightarrow> db \<Rightarrow> (production_batch \<times> db) result" where
  "postProductionBatch e c dto d =
     bindR (requireInventoryAccess e c False Act_create) (\<lambda>c.
     bindR (production_store c (bt_location dto) d) (\<lambda>l.
     bindR (mapR (convert_line c d) (bt_inputs dto)) (\<lambda>ls.
     bindR (mergeTransferLines (map (\<lambda>(i, q, _). (i, q)) ls)) (\<lambda>merged.
       if List.member (map fst merged) (bt_output dto)
       then Inl (BadRequest ''Output ingredient cannot also be an input in the same batch.'')
       else productionTx c l dto merged d))))"

section \<open>What a batch does\<close>

lemma input_row_eq_Inr:
  "input_row c l d x = Inr r \<longleftrightarrow> (\<exists>g. find (\<lambda>g. ig_id g = fst x \<and> ig_tenantId g = tenant_of c) (ingredients d) = Some g \<and>
     snd x \<le> on_hand (l, fst x) d \<and> r = (fst x, snd x, ig_unitCost g))"
  by (auto simp: input_row_def split: option.splits)

lemma input_rows:
  assumes "mapR (input_row c l d) inputs = Inr rows"
  shows "map (\<lambda>(i, q, u). (i, q)) rows = inputs" and "list_all (\<lambda>(i, q). q \<le> on_hand (l, i) d) inputs"
proof -
  have "map (\<lambda>(i, q, u). (i, q)) rows = inputs \<and> list_all (\<lambda>(i, q). q \<le> on_hand (l, i) d) inputs"
    using assms by (induction inputs arbitrary: rows) (auto simp: input_row_eq_Inr)
  then show "map (\<lambda>(i, q, u). (i, q)) rows = inputs" and "list_all (\<lambda>(i, q). q \<le> on_hand (l, i) d) inputs"
    by blast+
qed

lemma consumes:
  "foldR (consume c l) rows d =
     Inr (post_deltas (lo_id l) (plain_meta ''PRODUCE_CONSUME'') (map (\<lambda>(i, q). (i, - q)) (map (\<lambda>(i, q, u). (i, q)) rows)) d)"
  by (induction rows arbitrary: d) (auto simp: consume_def applyDelta_Some)

definition after_batch ::
  "inventory_location \<Rightarrow> batch_dto \<Rightarrow> decimal \<Rightarrow> (id \<times> decimal) list \<Rightarrow> db \<Rightarrow> db" where
  "after_batch l dto qty inputs d =
     post_deltas (lo_id l) (plain_meta ''PRODUCE_OUTPUT'') [(bt_output dto, qty)]
       (post_deltas (lo_id l) (plain_meta ''PRODUCE_CONSUME'') (map (\<lambda>(i, q). (i, - q)) inputs) d)"

lemma postProductionBatch_effect:
  assumes "postProductionBatch e c dto d = Inr (b, d')"
  obtains l g qty expected inputs rows d1 where
    "production_store c (bt_location dto) d = Inr l"
    "find (\<lambda>g. ig_id g = bt_output dto \<and> ig_tenantId g = tenant_of c) (ingredients d) = Some g"
    "base_quantity c (bt_quantity dto) (bt_unit dto) g d = Inr qty"
    "\<forall>x \<in> set_option expected. scaled 4 x"
    "mapR (input_row c (lo_id l) d) inputs = Inr rows"
    "b = batch_row c l dto qty expected (input_cost rows) inputs (next_id d)"
    "d1 = after_batch l dto qty inputs (d\<lparr>production_batches := production_batches d @ [b], next_id := next_id d + 1\<rparr>)"
    "d' = d1\<lparr>ingredients := update_id ig_id (bt_output dto) (produced_ingredient dto b) (ingredients d1)\<rparr>"
    "db_ok d'" "distinct (map fst inputs)" "list_all (\<lambda>p. scaled 4 (snd p) \<and> 0 < snd p) inputs"
    "bt_output dto \<notin> fst ` set inputs"
proof -
  from assms obtain l ls inputs where l: "production_store c (bt_location dto) d = Inr l"
    and ls: "mapR (convert_line c d) (bt_inputs dto) = Inr ls"
    and m: "mergeTransferLines (map (\<lambda>(i, q, _). (i, q)) ls) = Inr inputs"
    and out: "\<not> List.member (map fst inputs) (bt_output dto)"
    and tx: "productionTx c l dto inputs d = Inr (b, d')"
    by (auto simp: postProductionBatch_def inversion)
  from tx obtain g where g: "find (\<lambda>g. ig_id g = bt_output dto \<and> ig_tenantId g = tenant_of c) (ingredients d) = Some g"
    by (auto simp: productionTx_def split: option.splits)
  from tx g obtain qty expected rows d2 d3 where q: "base_quantity c (bt_quantity dto) (bt_unit dto) g d = Inr qty"
    and x: "(case bt_expected dto of None \<Rightarrow> Inr None
       | Some x \<Rightarrow> bindR (base_quantity c x (bt_unit dto) g d) (\<lambda>y. Inr (Some y))) = Inr expected"
    and rows: "mapR (input_row c (lo_id l) d) inputs = Inr rows"
    and b: "b = batch_row c l dto qty expected (input_cost rows) inputs (next_id d)"
    and d2: "foldR (consume c l) rows (d\<lparr>production_batches := production_batches d @ [b], next_id := next_id d + 1\<rparr>) = Inr d2"
    and d3: "applyDelta (tenant_of c) (lo_branchId l) (Some (lo_id l)) (bt_output dto) qty (plain_meta ''PRODUCE_OUTPUT'') d2 = Inr d3"
    and d': "commit (d3\<lparr>ingredients := update_id ig_id (ig_id g) (produced_ingredient dto b) (ingredients d3)\<rparr>) = Inr d'"
    unfolding productionTx_def Let_def by auto
  from d2 d3 have d3': "d3 = after_batch l dto qty inputs (d\<lparr>production_batches := production_batches d @ [b], next_id := next_id d + 1\<rparr>)"
    unfolding consumes input_rows(1) [OF rows] applyDelta_Some after_batch_def by simp
  have "\<forall>y \<in> set_option expected. scaled 4 y" using x base_quantity_scaled by (auto split: option.splits)
  moreover have "ig_id g = bt_output dto" using find_Some_in [OF g] by simp
  ultimately show thesis
    using that [OF l g q _ rows b refl] d' merged_effect [OF ls m] out unfolding d3' by (auto simp: inversion)
qed

lemma after_batch_inv:
  assumes inv: "stores_inv d" and q: "scaled 4 qty" and xs: "list_all (\<lambda>p. scaled 4 (snd p) \<and> 0 < snd p) inputs"
  shows "stores_inv (after_batch l dto qty inputs d)"
    and "on_hand (k, i) (after_batch l dto qty inputs d) = on_hand (k, i) d +
      (if k = lo_id l then (if i = bt_output dto then qty else 0) - delta_sum i inputs else 0)"
proof -
  let ?neg = "map (\<lambda>(i, q). (i, - q)) inputs"
  let ?d1 = "post_deltas (lo_id l) (plain_meta ''PRODUCE_CONSUME'') ?neg d"
  have neg: "list_all (\<lambda>p. scaled 4 (snd p)) ?neg"
    using xs by (auto simp: list_all_iff split_beta intro: scaled_minus)
  have out: "list_all (\<lambda>p. scaled 4 (snd p)) [(bt_output dto, qty)]" using q by simp
  have books: "books_agree d" using inv by (simp add: stores_inv_def)
  have b1: "books_agree ?d1" using post_deltas_books [OF books neg] by simp
  have b2: "books_agree (after_batch l dto qty inputs d)"
    unfolding after_batch_def using post_deltas_books [OF b1 out] by simp
  have "transfer_flow ing (after_batch l dto qty inputs d) = transfer_flow ing d" for ing
    unfolding after_batch_def
    using post_deltas_flow [OF out, of ing "lo_id l" "plain_meta ''PRODUCE_OUTPUT''" ?d1]
      post_deltas_flow [OF neg, of ing "lo_id l" "plain_meta ''PRODUCE_CONSUME''" d]
    by (simp add: transfer_entries_def)
  moreover have "transfers (after_batch l dto qty inputs d) = transfers d"
    unfolding after_batch_def by simp
  ultimately show "stores_inv (after_batch l dto qty inputs d)"
    using inv b2 by (simp add: stores_inv_def outstanding_def)
  have wf: "stock_wf d" "stock_wf ?d1" using books b1 by (simp_all add: books_agree_def)
  show "on_hand (k, i) (after_batch l dto qty inputs d) = on_hand (k, i) d +
      (if k = lo_id l then (if i = bt_output dto then qty else 0) - delta_sum i inputs else 0)"
    unfolding after_batch_def
    using on_hand_post_deltas [OF wf(2) out, of "plain_meta ''PRODUCE_OUTPUT''" k i "lo_id l"]
      on_hand_post_deltas [OF wf(1) neg, of "plain_meta ''PRODUCE_CONSUME''" k i "lo_id l"]
    by (auto simp: delta_sum_uminus)
qed

lemma batch_row_simps [simp]:
  "pb_locationId (batch_row c l dto qty ex cost xs i) = lo_id l"
  "pb_output (batch_row c l dto qty ex cost xs i) = bt_output dto"
  by (simp_all add: batch_row_def)

lemma batch_row_scaled:
  assumes "scaled 4 qty" and "list_all (\<lambda>p. scaled 4 (snd p) \<and> 0 < snd p) xs" and "scaled 4 cost"
  shows "pb_outputQty (batch_row c l dto qty ex cost xs i) = qty"
    and "pb_inputs (batch_row c l dto qty ex cost xs i) = xs"
    and "pb_inputCostTotal (batch_row c l dto qty ex cost xs i) = cost"
    and "pb_outputUnitCost (batch_row c l dto qty ex cost xs i) = output_unit_cost cost qty"
proof -
  have "scaled 4 (output_unit_cost cost qty)" by (simp add: output_unit_cost_def)
  moreover have "map (\<lambda>(i, q). (i, round_half_up 4 q)) xs = xs"
    using assms(2) by (auto simp: list_all_iff round_scaled intro!: map_idI)
  ultimately show "pb_outputQty (batch_row c l dto qty ex cost xs i) = qty"
    and "pb_inputs (batch_row c l dto qty ex cost xs i) = xs"
    and "pb_inputCostTotal (batch_row c l dto qty ex cost xs i) = cost"
    and "pb_outputUnitCost (batch_row c l dto qty ex cost xs i) = output_unit_cost cost qty"
    using assms by (simp_all add: batch_row_def round_scaled)
qed

lemma cents_scaled4: "cents x \<Longrightarrow> scaled 4 x"
proof -
  assume "cents x"
  then obtain n :: int where "x * 10 ^ 2 = of_int n" by (auto simp: scaled_def elim: Ints_cases)
  then have "x * 10 ^ 4 = of_int (n * 100)" by simp
  then show ?thesis unfolding scaled_def by (simp only: Ints_of_int)
qed

lemma postProductionBatch_inv:
  assumes run: "postProductionBatch e c dto d = Inr (b, d')" and inv: "stores_inv d"
  shows "stores_inv d'"
proof -
  obtain l g qty expected inputs rows d1 where
    q: "base_quantity c (bt_quantity dto) (bt_unit dto) g d = Inr qty"
    and d1: "d1 = after_batch l dto qty inputs (d\<lparr>production_batches := production_batches d @ [b], next_id := next_id d + 1\<rparr>)"
    and d': "d' = d1\<lparr>ingredients := update_id ig_id (bt_output dto) (produced_ingredient dto b) (ingredients d1)\<rparr>"
    and xs: "list_all (\<lambda>p. scaled 4 (snd p) \<and> 0 < snd p) inputs"
    by (rule postProductionBatch_effect [OF run])
  have "stores_inv (d\<lparr>production_batches := production_batches d @ [b], next_id := next_id d + 1\<rparr>)"
    using inv by (subst stores_inv_cong [of _ d]) simp_all
  from after_batch_inv(1) [OF this base_quantity_scaled [OF q] xs] have "stores_inv d1" by (simp add: d1)
  then show ?thesis unfolding d' by (subst stores_inv_cong [of _ d1]) simp_all
qed

section \<open>Properties\<close>

text \<open>What an ingredient costs per unit of its stock, as the batch reads it.\<close>

definition unit_cost :: "auth_ctx \<Rightarrow> db \<Rightarrow> id \<Rightarrow> decimal" where
  "unit_cost c d i = (case find (\<lambda>g. ig_id g = i \<and> ig_tenantId g = tenant_of c) (ingredients d) of
     None \<Rightarrow> 0 | Some g \<Rightarrow> ig_unitCost g)"

lemma rows_cost:
  "mapR (input_row c l d) inputs = Inr rows \<Longrightarrow>
     map (\<lambda>(_, q, u). q * u) rows = map (\<lambda>(i, q). q * unit_cost c d i) inputs"
  by (induction inputs arbitrary: rows) (auto simp: input_row_eq_Inr unit_cost_def)

lemma output_unit_cost_error:
  "0 < qty \<Longrightarrow> \<bar>output_unit_cost cost qty * qty - cost\<bar> \<le> qty / 20000"
proof -
  assume q: "0 < qty"
  have "\<bar>js_round 4 (cost / qty) - cost / qty\<bar> \<le> 1 / 20000" using js_round_error [of 4 "cost / qty"] by simp
  then have "\<bar>js_round 4 (cost / qty) - cost / qty\<bar> * qty \<le> 1 / 20000 * qty" using q by (intro mult_right_mono) simp_all
  moreover have "output_unit_cost cost qty * qty - cost = (js_round 4 (cost / qty) - cost / qty) * qty"
    using q by (simp add: output_unit_cost_def left_diff_distrib)
  ultimately show ?thesis using q by (simp add: abs_mult)
qed

lemma post_deltas_ingredients: "ingredients (post_deltas l m xs d) = ingredients d"
proof (induction l m xs d rule: post_deltas.induct)
  case (2 l m i x xs d)
  have "applyDelta 0 None (Some l) i x m d = Inr (at_default l i i x m d)" by (rule applyDelta_Some)
  from applyDelta_transfers [OF this] 2 show ?case by simp
qed simp

lemma find_produced:
  "find (\<lambda>g. ig_id g = bt_output dto \<and> ig_tenantId g = t) gs = Some g \<Longrightarrow>
     find (\<lambda>g. ig_id g = bt_output dto \<and> ig_tenantId g = t)
       (update_id ig_id (bt_output dto) (produced_ingredient dto b) gs) = Some (produced_ingredient dto b g)"
  by (induction gs) (auto simp: update_id_def update_many_def produced_ingredient_def split: if_splits)

lemma find_other_ingredient:
  "i \<noteq> j \<Longrightarrow> find (\<lambda>g. ig_id g = i \<and> ig_tenantId g = t) (update_id ig_id j (produced_ingredient dto b) gs) =
     find (\<lambda>g. ig_id g = i \<and> ig_tenantId g = t) gs"
  by (induction gs) (auto simp: update_id_def update_many_def produced_ingredient_def)

text \<open>
  C13: a batch that is posted turns stock into stock of the same value. Every input was on hand at
  its store, exactly the inputs leave it and exactly the output enters it, no other store and no
  other ingredient changes, and every balance still is the sum of its ledger. The cost total is
  what the inputs cost, to the cent. When the output, rounded to the four decimals of stock, is
  more than nothing, its unit cost times what came out is that total, to half a ten thousandth per
  unit; an output that rounds to nothing is booked at no cost, and then the value of the inputs is
  lost. Either way the output ingredient has that unit cost from then on, and the unit cost of
  every other ingredient stays.
\<close>

theorem production_conserves_stock_and_value:
  assumes run: "postProductionBatch e c dto d = Inr (b, d')" and inv: "stores_inv d"
  shows "pb_output b = bt_output dto \<and> bt_output dto \<notin> fst ` set (pb_inputs b) \<and>
    list_all (\<lambda>(i, q). 0 < q \<and> q \<le> on_hand (pb_locationId b, i) d) (pb_inputs b) \<and>
    (\<forall>k i. on_hand (k, i) d' = on_hand (k, i) d +
       (if k = pb_locationId b then (if i = pb_output b then pb_outputQty b else 0) - delta_sum i (pb_inputs b) else 0)) \<and>
    (\<forall>k. on_hand k d' = booked_qty k d') \<and>
    \<bar>pb_inputCostTotal b - sum_list (map (\<lambda>(i, q). q * unit_cost c d i) (pb_inputs b))\<bar> \<le> 1 / 200 \<and>
    (0 < pb_outputQty b \<longrightarrow> \<bar>pb_outputUnitCost b * pb_outputQty b - pb_inputCostTotal b\<bar> \<le> pb_outputQty b / 20000) \<and>
    (\<not> 0 < pb_outputQty b \<longrightarrow> pb_outputUnitCost b = 0) \<and>
    unit_cost c d' (pb_output b) = pb_outputUnitCost b \<and>
    (\<forall>k i. i \<noteq> pb_output b \<longrightarrow> unit_cost k d' i = unit_cost k d i)"
proof -
  obtain l g qty expected inputs rows d1 where
    g: "find (\<lambda>g. ig_id g = bt_output dto \<and> ig_tenantId g = tenant_of c) (ingredients d) = Some g"
    and q: "base_quantity c (bt_quantity dto) (bt_unit dto) g d = Inr qty"
    and rows: "mapR (input_row c (lo_id l) d) inputs = Inr rows"
    and b: "b = batch_row c l dto qty expected (input_cost rows) inputs (next_id d)"
    and d1: "d1 = after_batch l dto qty inputs (d\<lparr>production_batches := production_batches d @ [b], next_id := next_id d + 1\<rparr>)"
    and d': "d' = d1\<lparr>ingredients := update_id ig_id (bt_output dto) (produced_ingredient dto b) (ingredients d1)\<rparr>"
    and xs: "list_all (\<lambda>p. scaled 4 (snd p) \<and> 0 < snd p) inputs"
    and out: "bt_output dto \<notin> fst ` set inputs"
    by (rule postProductionBatch_effect [OF run])
  let ?d0 = "d\<lparr>production_batches := production_batches d @ [b], next_id := next_id d + 1\<rparr>"
  have sq: "scaled 4 qty" by (rule base_quantity_scaled [OF q])
  have sc: "scaled 4 (input_cost rows)" by (simp add: input_cost_def cents_scaled4)
  note row = batch_row_scaled [OF sq xs sc, of c l dto expected "next_id d", folded b]
  have inv0: "stores_inv ?d0" using inv by (subst stores_inv_cong [of _ d]) simp_all
  have oh: "on_hand k d' = on_hand k d1" "on_hand k (d\<lparr>production_batches := x, next_id := n\<rparr>) = on_hand k d" for k x n
    by (simp_all add: d' on_hand_def)
  have hand: "on_hand (k, i) d' = on_hand (k, i) d +
      (if k = lo_id l then (if i = bt_output dto then qty else 0) - delta_sum i inputs else 0)" for k i
    using after_batch_inv(2) [OF inv0 sq xs, of k i l dto] by (simp add: oh d1)
  have cost: "\<bar>input_cost rows - sum_list (map (\<lambda>(i, q). q * unit_cost c d i) inputs)\<bar> \<le> 1 / 200"
    using js_round_error [of 2] by (simp add: input_cost_def rows_cost [OF rows])
  have ing: "ingredients d1 = ingredients d" by (simp add: d1 after_batch_def post_deltas_ingredients)
  have new: "unit_cost c d' (bt_output dto) = pb_outputUnitCost b"
    using find_produced [OF g, of b] by (simp add: unit_cost_def d' ing) (simp add: produced_ingredient_def)
  have other: "unit_cost k d' i = unit_cost k d i" if "i \<noteq> bt_output dto" for k i
    using find_other_ingredient [OF that] by (simp add: unit_cost_def d' ing)
  have zero: "output_unit_cost (input_cost rows) qty = 0" if "\<not> 0 < qty"
    using that by (simp add: output_unit_cost_def)
  have had: "list_all (\<lambda>(i, q). 0 < q \<and> q \<le> on_hand (lo_id l, i) d) inputs"
    using input_rows(2) [OF rows] xs by (auto simp: list_all_iff)
  have books: "on_hand k d' = booked_qty k d'" for k
    using postProductionBatch_inv [OF run inv] by (cases k) (simp add: stores_inv_def books_agree_def)
  have at: "pb_locationId b = lo_id l" "pb_output b = bt_output dto" by (simp_all add: b)
  show ?thesis
    unfolding at row using out had hand books cost output_unit_cost_error [of qty] new [unfolded row] other zero
    by (intro conjI allI impI) (rule refl | assumption)+
qed

text \<open>A warehouse and the store of a branch; the store's cook makes dough of flour.\<close>

definition main_200 :: inventory_location where
  "main_200 = \<lparr>lo_id = 200, lo_tenantId = 1, lo_branchId = None, lo_code = ''MAIN'', lo_name = ''Main warehouse'',
     lo_type = ''MAIN_WAREHOUSE'', lo_isDefault = False, lo_status = ''ACTIVE''\<rparr>"

definition store_201 :: inventory_location where
  "store_201 = \<lparr>lo_id = 201, lo_tenantId = 1, lo_branchId = Some 2, lo_code = ''BRANCH_BOLE'',
     lo_name = ''Bole store'', lo_type = ''BRANCH_STORE'', lo_isDefault = True, lo_status = ''ACTIVE''\<rparr>"

definition flour :: ingredient where
  "flour = \<lparr>ig_id = 210, ig_tenantId = 1, ig_branchId = Some 2, ig_name = ''Flour'', ig_unit = ''kg'',
     ig_itemKind = ''RAW'', ig_unitCost = 40, ig_yieldPercent = None, ig_status = ''ACTIVE''\<rparr>"

definition goods_in :: "id \<Rightarrow> decimal \<Rightarrow> stock_entry" where
  "goods_in l q = \<lparr>se_locationId = l, se_ingredientId = 210, se_entryType = ''RECEIVE'', se_delta = q,
     se_orderItemId = None, se_countSessionId = None\<rparr>"

definition network_db :: db where
  "network_db = floor_db\<lparr>locations := [main_200, store_201], ingredients := [flour],
     stock := [\<lparr>sb_locationId = 200, sb_ingredientId = 210, sb_onHand = 20\<rparr>,
       \<lparr>sb_locationId = 201, sb_ingredientId = 210, sb_onHand = 3\<rparr>],
     stock_ledger := [goods_in 200 20, goods_in 201 3]\<rparr>"

definition storekeeper :: auth_ctx where
  "storekeeper = staff_member 104 14 ''STORE_MANAGER'' None 34 [''inventory.manage'']"

lemma network_inv: "stores_inv network_db"
proof -
  have "on_hand k network_db = booked_qty k network_db" for k
    by (cases k) (simp add: network_db_def on_hand_def booked_qty_def row_by_Cons sb_key_def se_key_def goods_in_def)
  moreover have "stock_wf network_db" "primary_key it_id (transfers network_db)" "transfers network_db = []"
    by code_simp+
  moreover have "transfer_flow ing network_db = 0" for ing
    by (simp add: transfer_flow_def network_db_def goods_in_def transfer_entries_def)
  ultimately show ?thesis by (simp add: stores_inv_def books_agree_def outstanding_def)
qed

definition dough :: ingredient where
  "dough = flour\<lparr>ig_id := 211, ig_name := ''Dough'', ig_unitCost := 0\<rparr>"

definition bakery_db :: db where
  "bakery_db = network_db\<lparr>ingredients := [flour, dough]\<rparr>"

definition dough_batch :: batch_dto where
  "dough_batch = \<lparr>bt_output = 211, bt_quantity = 4, bt_expected = None, bt_kind = None, bt_location = Some 201,
     bt_unit = None, bt_inputs = [\<lparr>xl_ingredient = 210, xl_quantity = 2, xl_typedUnit = None\<rparr>,
       \<lparr>xl_ingredient = 210, xl_quantity = 500, xl_typedUnit = Some ''g''\<rparr>]\<rparr>"

lemma bakery_inv: "stores_inv bakery_db"
  using network_inv stores_inv_cong [of bakery_db network_db] by (simp add: bakery_db_def)

theorem production_conserves_stock_and_value_witness:
  "\<exists>b d'. postProductionBatch evening storekeeper dough_batch bakery_db = Inr (b, d') \<and>
     on_hand (201, 210) d' = 1 / 2 \<and> on_hand (201, 211) d' = 4 \<and> unit_cost storekeeper d' 211 = 25"
proof -
  have "bindR (postProductionBatch evening storekeeper dough_batch bakery_db) (\<lambda>(b, d').
      Inr (pb_locationId b, pb_output b, pb_outputQty b, delta_sum 210 (pb_inputs b), delta_sum 211 (pb_inputs b),
        pb_outputUnitCost b)) = Inr (201, 211, 4, 5 / 2, 0, 25)"
    by code_simp
  then obtain b d' where r: "postProductionBatch evening storekeeper dough_batch bakery_db = Inr (b, d')"
    and b: "pb_locationId b = 201" "pb_output b = 211" "pb_outputQty b = 4" "delta_sum 210 (pb_inputs b) = 5 / 2"
      "delta_sum 211 (pb_inputs b) = 0" "pb_outputUnitCost b = 25"
    by (elim run_pairE) auto
  have h: "on_hand (201, 210) bakery_db = 3" "on_hand (201, 211) bakery_db = 0" by code_simp+
  from production_conserves_stock_and_value [OF r bakery_inv]
  have "\<forall>k i. on_hand (k, i) d' = on_hand (k, i) bakery_db +
       (if k = pb_locationId b then (if i = pb_output b then pb_outputQty b else 0) - delta_sum i (pb_inputs b) else 0)"
    and "unit_cost storekeeper d' (pb_output b) = pb_outputUnitCost b" by blast+
  with r b h show ?thesis by (intro exI [of _ b] exI [of _ d'] conjI) simp_all
qed

text \<open>
  An output of a tenth of a milligram, stocked in kilograms, rounds to nothing: the batch is posted
  all the same, the flour, worth 100, is gone, there is no dough and its unit cost is 0.
\<close>

definition nothing_batch :: batch_dto where
  "nothing_batch = dough_batch\<lparr>bt_quantity := 1 / 10000, bt_unit := Some ''g''\<rparr>"

lemma batch_of_nothing_is_posted:
  "bindR (postProductionBatch evening storekeeper nothing_batch bakery_db) (\<lambda>(b, d').
      Inr (pb_outputQty b, pb_inputCostTotal b, pb_outputUnitCost b, on_hand (201, 210) d', on_hand (201, 211) d')) =
    Inr (0, 100, 0, 1 / 2, 0)"
  by code_simp

text \<open>
  What is produced shrinks twice. A batch with a yield below 100 percent writes the yield of its
  making on the output, whose stock already is what was left; a dish that then uses a quantity of
  the output takes that quantity divided by the yield from stock, as if the output were still
  raw.
\<close>

theorem produced_stock_is_shrunk_again:
  assumes run: "postProductionBatch e c dto d = Inr (b, d')" and y: "pb_yieldPercent b = Some y" "0 < y" "y < 100"
    and keys: "distinct (map ig_id (ingredients d))"
    and line: "rl_ingredientId l = pb_output b" "rl_unit l = None" "scaled 4 (rl_quantityPerServing l)"
  shows "line_delta t n d' l = Inr (- (rl_quantityPerServing l * (100 / y) * of_nat n))"
proof -
  obtain lo g qty expected inputs rows d1 where
    g: "find (\<lambda>g. ig_id g = bt_output dto \<and> ig_tenantId g = tenant_of c) (ingredients d) = Some g"
    and b: "b = batch_row c lo dto qty expected (input_cost rows) inputs (next_id d)"
    and d1: "d1 = after_batch lo dto qty inputs (d\<lparr>production_batches := production_batches d @ [b], next_id := next_id d + 1\<rparr>)"
    and d': "d' = d1\<lparr>ingredients := update_id ig_id (bt_output dto) (produced_ingredient dto b) (ingredients d1)\<rparr>"
    by (rule postProductionBatch_effect [OF run])
  have ing: "ingredients d1 = ingredients d" by (simp add: d1 after_batch_def post_deltas_ingredients)
  have "row_by ig_id (bt_output dto) (ingredients d) = Some g" by (rule find_row_by [OF g keys])
  then have "row_by ig_id (pb_output b) (ingredients d') = Some (produced_ingredient dto b g)"
    by (simp add: d' ing b row_by_update_id produced_ingredient_def)
  then show ?thesis
    using y line by (simp add: line_delta_def produced_ingredient_def toBaseQty_def roundQty_id Let_def)
qed

definition kneaded :: batch_dto where
  "kneaded = dough_batch\<lparr>bt_quantity := 2\<rparr>"

definition bread :: recipe_line where
  "bread = \<lparr>rl_menuItemId = 70, rl_ingredientId = 211, rl_quantityPerServing = 1 / 2, rl_unit = None\<rparr>"

theorem produced_stock_is_shrunk_again_witness:
  "\<exists>b d'. postProductionBatch evening storekeeper kneaded bakery_db = Inr (b, d') \<and>
     line_delta 1 4 d' bread = Inr (- 5 / 2)"
proof -
  have "bindR (postProductionBatch evening storekeeper kneaded bakery_db) (\<lambda>(b, d').
      Inr (pb_yieldPercent b, pb_output b)) = Inr (Some 80, 211)"
    by code_simp
  then obtain b d' where r: "postProductionBatch evening storekeeper kneaded bakery_db = Inr (b, d')"
    and b: "pb_yieldPercent b = Some 80" "pb_output b = 211"
    by (elim run_pairE) auto
  have "distinct (map ig_id (ingredients bakery_db))" "scaled 4 (1 / 2)" by code_simp+
  with produced_stock_is_shrunk_again [OF r b(1), of bread 1 4] r b(2) show ?thesis
    by (intro exI [of _ b] exI [of _ d'] conjI) (simp_all add: bread_def)
qed

end
