(* ===== verification/Supply.thy ===== *)
theory Supply
  imports Production
begin

text \<open>
  What branches ask of the main warehouse and what it sends unasked
  (\<open>src/inventory/inventory.service.ts\<close>): the life of a supply request from SUBMITTED to FULFILLED or
  REJECTED, whose dispatch sends a transfer, and push drops, one transfer per branch. A push drop is
  not one transaction: what was sent before an error stays sent, so its model returns the state
  also with an error. The steps of all operations on stores and the invariant of their runs close
  the theory.
\<close>

section \<open>Supply requests\<close>

text \<open>
  A request is created SUBMITTED and, under automatic approval, updated at once; the model writes the
  final row. A default store created on the way to a refused request is not kept by the model.
\<close>

definition auto_approve :: "auth_ctx \<Rightarrow> db \<Rightarrow> bool" where
  "auto_approve c d = (case row_by tn_tenantId (tenant_of c) (tenant_config d) of
     Some t \<Rightarrow> tn_autoApproveSupply t | None \<Rightarrow> False)"

definition require_driver :: "auth_ctx \<Rightarrow> db \<Rightarrow> bool" where
  "require_driver c d = (case row_by tn_tenantId (tenant_of c) (tenant_config d) of
     Some t \<Rightarrow> tn_requireDriver t | None \<Rightarrow> False)"

definition supply_notice :: "auth_ctx \<Rightarrow> string \<Rightarrow> id \<Rightarrow> id \<Rightarrow> db \<Rightarrow> effect" where
  "supply_notice c ty src i d = Broadcast (inventory_notice (''inventory.supply_request.'' @ ty) (tenant_of c)
     (Option.bind (row_by lo_id src (locations d)) lo_branchId) i)"

definition requesting_store :: "auth_ctx \<Rightarrow> id option \<Rightarrow> db \<Rightarrow> (id \<times> db) result" where
  "requesting_store c src d =
     (case src of
        Some i \<Rightarrow> Inr (i, d)
      | None \<Rightarrow> (case ax_branchId c of
          None \<Rightarrow> Inl (BadRequest ''Pass fromLocationId or use a branch-scoped account.'')
        | Some b \<Rightarrow> ensureDefaultLocation (tenant_of c) b d))"

definition supply_row ::
  "env \<Rightarrow> auth_ctx \<Rightarrow> id \<Rightarrow> id \<Rightarrow> (id \<times> decimal \<times> string) list \<Rightarrow> (id \<times> decimal) list \<Rightarrow> bool \<Rightarrow> id \<Rightarrow> supply_request" where
  "supply_row e c src main units lines auto i =
     \<lparr>sq_id = i, sq_tenantId = tenant_of c, sq_from = src, sq_to = main,
      sq_status = (if auto then ''APPROVED'' else ''SUBMITTED''), sq_autoApprove = auto,
      sq_requestedBy = ax_staffMembershipId c, sq_decidedBy = None, sq_submittedAt = Some (env_now e),
      sq_decidedAt = None,
      sq_lines = map (\<lambda>(i, q). \<lparr>sl_ingredientId = i, sl_quantity = round_half_up 4 q,
        sl_unit = uniform_unit units i\<rparr>) lines\<rparr>"

definition createSupplyRequest ::
  "env \<Rightarrow> auth_ctx \<Rightarrow> id option \<Rightarrow> send_line list \<Rightarrow> db \<Rightarrow> (supply_request \<times> db) result" where
  "createSupplyRequest e c src0 lines d =
     bindR (requireInventoryAccess e c False Act_request) (\<lambda>c.
       case findMainWarehouse (tenant_of c) d of
         None \<Rightarrow> Inl (BadRequest ''Enable a main warehouse before requesting supply.'')
       | Some main \<Rightarrow>
           bindR (requesting_store c src0 d) (\<lambda>(src, d1).
             case active_location c src d1 of
               None \<Rightarrow> Inl (BadRequest ''Supply requests must come from a restaurant branch store.'')
             | Some l \<Rightarrow>
                 if lo_type l \<noteq> ''BRANCH_STORE''
                 then Inl (BadRequest ''Supply requests must come from a restaurant branch store.'')
                 else
                   bindR (mapR (convert_line c d1) lines) (\<lambda>ls.
                   bindR (mergeTransferLines (map (\<lambda>(i, q, _). (i, q)) ls)) (\<lambda>merged.
                     let auto = auto_approve c d1;
                         r = supply_row e c src (lo_id main) ls merged auto (next_id d1)
                     in bindR (commit (d1\<lparr>supply_requests := supply_requests d1 @ [r], next_id := next_id d1 + 1\<rparr>)) (\<lambda>d2.
                          Inr (r, emit (supply_notice c (if auto then ''approved'' else ''created'') src (sq_id r) d2) d2))))))"

definition find_supply :: "auth_ctx \<Rightarrow> id \<Rightarrow> db \<Rightarrow> supply_request result" where
  "find_supply c i d =
     (case find (\<lambda>r. sq_id r = i \<and> sq_tenantId r = tenant_of c) (supply_requests d) of
        None \<Rightarrow> Inl (NotFound ''Supply request not found.'') | Some r \<Rightarrow> Inr r)"

definition set_supply :: "id \<Rightarrow> (supply_request \<Rightarrow> supply_request) \<Rightarrow> db \<Rightarrow> db" where
  "set_supply i f d = d\<lparr>supply_requests := update_id sq_id i f (supply_requests d)\<rparr>"

definition decider :: "env \<Rightarrow> auth_ctx \<Rightarrow> string \<Rightarrow> db \<Rightarrow> auth_ctx result" where
  "decider e c verb d =
     bindR (requireInventoryAccess e c False Act_approve) (\<lambda>c.
       if \<not> auto_approve c d \<and> ax_roleCode c \<noteq> ''OWNER_ADMIN''
       then Inl (Forbidden (''Only the restaurant owner can '' @ verb @ '' supply requests when Owner Approval is required.''))
       else bindR (assertCentralInventoryRole c (''Only owners or store managers can '' @ verb @ '' supply requests.'')) (\<lambda>_. Inr c))"

definition decided :: "env \<Rightarrow> auth_ctx \<Rightarrow> string \<Rightarrow> supply_request \<Rightarrow> supply_request" where
  "decided e c st r = r\<lparr>sq_status := st, sq_decidedAt := Some (env_now e), sq_decidedBy := ax_staffMembershipId c\<rparr>"

definition approveSupplyRequest :: "env \<Rightarrow> auth_ctx \<Rightarrow> id \<Rightarrow> db \<Rightarrow> (supply_request \<times> db) result" where
  "approveSupplyRequest e c i d =
     bindR (decider e c ''approve'' d) (\<lambda>c.
     bindR (find_supply c i d) (\<lambda>r.
       if sq_status r \<noteq> ''SUBMITTED'' then Inl (BadRequest ''Only SUBMITTED requests can be approved'')
       else Inr (decided e c ''APPROVED'' r,
              emit (supply_notice c ''approved'' (sq_from r) i d) (set_supply i (decided e c ''APPROVED'') d))))"

definition rejectSupplyRequest :: "env \<Rightarrow> auth_ctx \<Rightarrow> id \<Rightarrow> db \<Rightarrow> (supply_request \<times> db) result" where
  "rejectSupplyRequest e c i d =
     bindR (decider e c ''reject'' d) (\<lambda>c.
     bindR (find_supply c i d) (\<lambda>r.
       if sq_status r \<noteq> ''SUBMITTED'' \<and> sq_status r \<noteq> ''APPROVED''
       then Inl (BadRequest ''Only pending or approved requests can be rejected'')
       else Inr (decided e c ''REJECTED'' r,
              emit (supply_notice c ''rejected'' (sq_from r) i d) (set_supply i (decided e c ''REJECTED'') d))))"

definition startPreparingSupplyRequest :: "env \<Rightarrow> auth_ctx \<Rightarrow> id \<Rightarrow> db \<Rightarrow> (supply_request \<times> db) result" where
  "startPreparingSupplyRequest e c i d =
     bindR (requireInventoryAccess e c False Act_initiate) (\<lambda>c.
     bindR (assertCentralInventoryRole c ''Only owners or store managers can prepare supply requests.'') (\<lambda>_.
     bindR (find_supply c i d) (\<lambda>r.
       if sq_status r \<notin> set (if auto_approve c d then [''SUBMITTED'', ''APPROVED''] else [''APPROVED''])
       then Inl (BadRequest ''Cannot start preparing'')
       else Inr (r\<lparr>sq_status := ''PREPARING''\<rparr>,
              emit (supply_notice c ''preparing'' (sq_from r) i d)
                (set_supply i (\<lambda>r. r\<lparr>sq_status := ''PREPARING''\<rparr>) d)))))"

definition request_lines :: "supply_request \<Rightarrow> send_line list" where
  "request_lines r = map (\<lambda>l. \<lparr>xl_ingredient = sl_ingredientId l, xl_quantity = sl_quantity l, xl_typedUnit = None\<rparr>)
     (sq_lines r)"

definition linked_transfer :: "env \<Rightarrow> id \<Rightarrow> id option \<Rightarrow> bool \<Rightarrow> transfer \<Rightarrow> transfer" where
  "linked_transfer e req driver immediate t =
     (case driver of
        None \<Rightarrow> t\<lparr>it_supplyRequest := Some req\<rparr>
      | Some v \<Rightarrow> t\<lparr>it_supplyRequest := Some req, it_driver := Some v, it_dispatchedAt := Some (env_now e),
                    it_status := if immediate then ''IN_TRANSIT'' else ''SENT''\<rparr>)"

definition fulfilled :: "env \<Rightarrow> auth_ctx \<Rightarrow> supply_request \<Rightarrow> supply_request" where
  "fulfilled e c r = r\<lparr>sq_status := ''FULFILLED'',
     sq_decidedAt := (case sq_decidedAt r of Some x \<Rightarrow> Some x | None \<Rightarrow> Some (env_now e)),
     sq_decidedBy := (case sq_decidedBy r of Some x \<Rightarrow> Some x | None \<Rightarrow> ax_staffMembershipId c)\<rparr>"

definition usable_driver :: "auth_ctx \<Rightarrow> id option \<Rightarrow> db \<Rightarrow> id option" where
  "usable_driver c v d = Option.bind v (\<lambda>i. map_option (\<lambda>_. i) (active_driver c i d))"

text \<open>
  A dispatch is not one transaction: the transfer is sent and committed before it is linked to the
  request and the request is closed, so the operation returns the state also with an error, and
  what was sent then stays sent.
\<close>

definition checkDispatch :: "env \<Rightarrow> auth_ctx \<Rightarrow> id \<Rightarrow> id option \<Rightarrow> db \<Rightarrow> supply_request result" where
  "checkDispatch e c i driver d =
     bindR (requireInventoryAccess e c False Act_initiate) (\<lambda>c.
     bindR (assertCentralInventoryRole c ''Only owners or store managers can dispatch supply requests.'') (\<lambda>_.
     bindR (find_supply c i d) (\<lambda>r.
       if sq_status r \<noteq> ''PREPARING'' \<and> sq_status r \<noteq> ''APPROVED''
       then Inl (BadRequest ''Only PREPARING or APPROVED requests can be dispatched'')
       else if require_driver c d \<and> driver = None
       then Inl (BadRequest ''A driver is required for dispatch by restaurant policy.'')
       else Inr r)))"

definition dispatch_dto :: "supply_request \<Rightarrow> send_dto" where
  "dispatch_dto r = \<lparr>cx_to = sq_from r, cx_from = Some (sq_to r), cx_lines = request_lines r, cx_drop = None\<rparr>"

definition dispatchSupplyRequest ::
  "env \<Rightarrow> auth_ctx \<Rightarrow> id \<Rightarrow> id option \<Rightarrow> bool \<Rightarrow> db \<Rightarrow> transfer result \<times> db" where
  "dispatchSupplyRequest e c i driver immediate d =
     (case checkDispatch e c i driver d of
        Inl x \<Rightarrow> (Inl x, d)
      | Inr r \<Rightarrow>
          (case createAndSendTransfer e c (dispatch_dto r) d of
             Inl x \<Rightarrow> (Inl x, d)
           | Inr (t, d1) \<Rightarrow>
               (case commit (set_transfer (it_id t) (linked_transfer e i (usable_driver c driver d1) immediate) d1) of
                  Inl x \<Rightarrow> (Inl x, d1)
                | Inr d2 \<Rightarrow>
                    (Inr t, emit (supply_notice c ''dispatched'' (sq_from r) i d2) (set_supply i (fulfilled e c) d2)))))"

definition createSupplyRequestV2 ::
  "env \<Rightarrow> auth_ctx \<Rightarrow> id option \<Rightarrow> send_line list \<Rightarrow> bool \<Rightarrow> db \<Rightarrow> supply_request result \<times> db" where
  "createSupplyRequestV2 e c src lines approve d =
     (case createSupplyRequest e c src lines d of
        Inl x \<Rightarrow> (Inl x, d)
      | Inr (r, d1) \<Rightarrow>
          if \<not> approve then (Inr r, d1)
          else
            let d2 = set_supply (sq_id r) (\<lambda>r. r\<lparr>sq_autoApprove := True\<rparr>) d1
            in (case approveSupplyRequest e c (sq_id r) d2 of
                  Inl x \<Rightarrow> (Inl x, d2) | Inr (r', d3) \<Rightarrow> (Inr r', d3)))"

section \<open>Push drops\<close>

fun check_destinations :: "auth_ctx \<Rightarrow> id \<Rightarrow> (id \<times> send_line list) list \<Rightarrow> db \<Rightarrow> unit result" where
  "check_destinations c src [] d = Inr ()"
| "check_destinations c src ((to, ls) # bs) d =
     (case active_location c to d of
        None \<Rightarrow> Inl (BadRequest ''Destination is not an active branch store.'')
      | Some l \<Rightarrow>
          if lo_type l \<noteq> ''BRANCH_STORE'' then Inl (BadRequest ''Destination is not an active branch store.'')
          else if lo_id l = src then Inl (BadRequest ''Source and destination must differ.'')
          else check_destinations c src bs d)"

definition checkPushDrop ::
  "env \<Rightarrow> auth_ctx \<Rightarrow> id option \<Rightarrow> (id \<times> send_line list) list \<Rightarrow> id option \<Rightarrow> db \<Rightarrow> inventory_location result" where
  "checkPushDrop e c src0 bs driver d =
     bindR (requireInventoryAccess e c False Act_manage) (\<lambda>c.
     bindR (assertCentralInventoryRole c ''Only owners or store managers can create push drops.'') (\<lambda>_.
       case findMainWarehouse (tenant_of c) d of
         None \<Rightarrow> Inl (BadRequest ''Enable a main warehouse before creating push drops.'')
       | Some main \<Rightarrow>
           (case active_location c (case src0 of Some i \<Rightarrow> i | None \<Rightarrow> lo_id main) d of
              None \<Rightarrow> Inl (BadRequest ''Push drops must ship from the main warehouse.'')
            | Some src \<Rightarrow>
                if lo_type src \<noteq> ''MAIN_WAREHOUSE''
                then Inl (BadRequest ''Push drops must ship from the main warehouse.'')
                else
                  bindR (check_destinations c (lo_id src) bs d) (\<lambda>_.
                    if driver \<noteq> None \<and> active_driver c (the driver) d = None
                    then Inl (BadRequest ''Selected driver not found or inactive.'') else Inr src))))"

fun push_branches ::
  "env \<Rightarrow> auth_ctx \<Rightarrow> id \<Rightarrow> id \<Rightarrow> id option \<Rightarrow> (id \<times> send_line list) list \<Rightarrow> id list \<Rightarrow> db \<Rightarrow>
     id list result \<times> db" where
  "push_branches e c pd src driver [] done d = (Inr done, d)"
| "push_branches e c pd src driver ((to, ls) # bs) done d =
     (case createAndSendTransfer e c \<lparr>cx_to = to, cx_from = Some src, cx_lines = ls, cx_drop = Some pd\<rparr> d of
        Inl x \<Rightarrow> (Inl x, d)
      | Inr (t, d1) \<Rightarrow>
          push_branches e c pd src driver bs (done @ [it_id t])
            (case driver of None \<Rightarrow> d1
             | Some v \<Rightarrow> set_transfer (it_id t)
                 (\<lambda>t. t\<lparr>it_driver := Some v, it_dispatchedAt := Some (env_now e)\<rparr>) d1))"

definition createPushDrop ::
  "env \<Rightarrow> auth_ctx \<Rightarrow> id option \<Rightarrow> (id \<times> send_line list) list \<Rightarrow> id option \<Rightarrow> db \<Rightarrow> id list result \<times> db" where
  "createPushDrop e c src0 bs driver d =
     (case checkPushDrop e c src0 bs driver d of
        Inl x \<Rightarrow> (Inl x, d)
      | Inr src \<Rightarrow>
          let i = next_id d;
              d1 = d\<lparr>push_drops := push_drops d @
                    [\<lparr>pu_id = i, pu_tenantId = tenant_of c, pu_from = lo_id src, pu_status = ''DISPATCHED'',
                      pu_createdBy = ax_staffMembershipId c\<rparr>], next_id := i + 1\<rparr>
          in push_branches e c i (lo_id src) driver bs [] d1)"

section \<open>Runs over the stores\<close>

text \<open>
  The operations on stores, supply requests and transfers, in any order, by anyone, with any
  outcome; a push drop, a dispatch or a two-step request that fails on the way is a step too. Three
  things are not steps: a waste whose ledger entry is refused after its balance was written
  (\<open>waste_outcomes\<close>), the posting of a physical count (\<open>Counting\<close> says what it does to
  the books) and the movements of orders.
\<close>

inductive store_step :: "db \<Rightarrow> db \<Rightarrow> bool" where
  "receive e c x v loc d = Inr (r1, d') \<Longrightarrow> store_step d d'"
| "receiveBatch e c xs v loc d = Inr (r2, d') \<Longrightarrow> store_step d d'"
| "waste e c i q u note d = (Inr r3, d') \<Longrightarrow> store_step d d'"
| "waste e c i q u note d = (Inl x, d') \<Longrightarrow> x \<notin> {DbError ''P2000'', DbError ''P2020''} \<Longrightarrow> store_step d d'"
| "createAndSendTransfer e c dto d = Inr (r4, d') \<Longrightarrow> store_step d d'"
| "acceptTransfer e c i given d = Inr (r4, d') \<Longrightarrow> store_step d d'"
| "rejectTransfer e c i d = Inr (r4, d') \<Longrightarrow> store_step d d'"
| "dispatchTransfer e c i v' d = Inr (r3, d') \<Longrightarrow> store_step d d'"
| "startDriverTrip e c ph nm i d = Inr (r3, d') \<Longrightarrow> store_step d d'"
| "markDriverArrived c i d = Inr (r3, d') \<Longrightarrow> store_step d d'"
| "createSupplyRequest e c src given d = Inr (r5, d') \<Longrightarrow> store_step d d'"
| "approveSupplyRequest e c i d = Inr (r5, d') \<Longrightarrow> store_step d d'"
| "rejectSupplyRequest e c i d = Inr (r5, d') \<Longrightarrow> store_step d d'"
| "startPreparingSupplyRequest e c i d = Inr (r5, d') \<Longrightarrow> store_step d d'"
| "dispatchSupplyRequest e c i driver imm d = (r10, d') \<Longrightarrow> store_step d d'"
| "createSupplyRequestV2 e c src given ap d = (r6, d') \<Longrightarrow> store_step d d'"
| "createPushDrop e c src bs driver d = (r7, d') \<Longrightarrow> store_step d d'"
| "createMainWarehouse e c code name d = Inr (r1, d') \<Longrightarrow> store_step d d'"
| "disableMainWarehouse e c d = Inr (r1, d') \<Longrightarrow> store_step d d'"
| "updateLocation e c i name code d = Inr (r1, d') \<Longrightarrow> store_step d d'"
| "startCount e c notes d = Inr (r8, d') \<Longrightarrow> store_step d d'"
| "updateCountLines e c sid ls d = Inr (r3, d') \<Longrightarrow> store_step d d'"
| "postProductionBatch e c batch d = Inr (r9, d') \<Longrightarrow> store_step d d'"

abbreviation store_run :: "db \<Rightarrow> db \<Rightarrow> bool" where
  "store_run \<equiv> store_step\<^sup>*\<^sup>*"

text \<open>Steps that touch neither stock nor transfers.\<close>

definition same_stock :: "db \<Rightarrow> db \<Rightarrow> bool" where
  "same_stock d d' \<longleftrightarrow> stock d' = stock d \<and> stock_ledger d' = stock_ledger d \<and> transfers d' = transfers d"

lemma same_stock_inv: "same_stock d d' \<Longrightarrow> stores_inv d \<Longrightarrow> stores_inv d'"
  using stores_inv_cong [of d' d] by (simp add: same_stock_def)

lemma same_stock_simps [simp]:
  "same_stock d d" "same_stock d (set_supply i f d') \<longleftrightarrow> same_stock d d'"
  "same_stock d (emit x d') \<longleftrightarrow> same_stock d d'"
  by (simp_all add: same_stock_def set_supply_def)

lemma decide_same_stock:
  "approveSupplyRequest e c i d = Inr (r, d') \<Longrightarrow> same_stock d d'"
  "rejectSupplyRequest e c i d = Inr (r, d') \<Longrightarrow> same_stock d d'"
  "startPreparingSupplyRequest e c i d = Inr (r, d') \<Longrightarrow> same_stock d d'"
  by (auto simp: approveSupplyRequest_def rejectSupplyRequest_def startPreparingSupplyRequest_def)

lemma warehouse_same_stock:
  "createMainWarehouse e c code name d = Inr (l, d') \<Longrightarrow> same_stock d d'"
  "disableMainWarehouse e c d = Inr (l, d') \<Longrightarrow> same_stock d d'"
  "updateLocation e c i name code d = Inr (l, d') \<Longrightarrow> same_stock d d'"
  by (auto simp: createMainWarehouse_def disableMainWarehouse_def updateLocation_def Let_def same_stock_def
      inversion split: if_splits option.splits)

lemma count_line_write_same_stock: "count_line_write c sid x d = Inr d' \<Longrightarrow> same_stock d d'"
  by (cases x) (auto simp: same_stock_def Let_def)

lemma count_lines_same_stock: "foldR (count_line_write c sid) ls d = Inr d' \<Longrightarrow> same_stock d d'"
proof (induction ls arbitrary: d)
  case Nil
  then show ?case by simp
next
  case (Cons x xs)
  then obtain d1 where x: "count_line_write c sid x d = Inr d1"
    and xs: "foldR (count_line_write c sid) xs d1 = Inr d'" by auto
  from count_line_write_same_stock [OF x] Cons.IH [OF xs] show ?case by (simp add: same_stock_def)
qed

lemma count_same_stock:
  "startCount e c notes d = Inr (r, d') \<Longrightarrow> same_stock d d'"
  "updateCountLines e c sid ls d = Inr (u, d') \<Longrightarrow> same_stock d d'"
proof -
  show "same_stock d d'" if "startCount e c notes d = Inr (r, d')"
    using that by (auto simp: startCount_def Let_def inversion same_stock_def split: if_splits)
  show "same_stock d d'" if "updateCountLines e c sid ls d = Inr (u, d')"
    using that count_lines_same_stock by (auto simp: updateCountLines_def inversion)
qed

lemma createSupply_same_stock:
  assumes "createSupplyRequest e c src0 lines d = Inr (r, d')"
  shows "same_stock d d'"
proof -
  from assms obtain src d1 x s where req: "requesting_store c src0 d = Inr (src, d1)"
    and d': "d' = emit x (d1\<lparr>supply_requests := supply_requests d1 @ [s], next_id := next_id d1 + 1\<rparr>)"
    by (auto simp: createSupplyRequest_def Let_def inversion split: if_splits option.splits)
  have "same_stock d d1"
    using req ensureDefaultLocation_frame ensureDefaultLocation_transfers
    by (auto simp: requesting_store_def same_stock_def split: option.splits)
  then show ?thesis by (simp add: d' same_stock_def)
qed

lemma createSupplyV2_same_stock:
  assumes "createSupplyRequestV2 e c src lines ap d = (r, d')"
  shows "same_stock d d'"
proof (cases "createSupplyRequest e c src lines d")
  case (Inl x)
  with assms show ?thesis by (simp add: createSupplyRequestV2_def)
next
  case (Inr p)
  then obtain r1 d1 where p: "createSupplyRequest e c src lines d = Inr (r1, d1)" by (cases p) simp
  have s1: "same_stock d d1" by (rule createSupply_same_stock [OF p])
  let ?d2 = "set_supply (sq_id r1) (\<lambda>r. r\<lparr>sq_autoApprove := True\<rparr>) d1"
  show ?thesis
  proof (cases "approveSupplyRequest e c (sq_id r1) ?d2")
    case (Inl x)
    with assms p s1 show ?thesis by (auto simp: createSupplyRequestV2_def split: if_splits)
  next
    case (Inr q)
    then obtain r2 d3 where q: "approveSupplyRequest e c (sq_id r1) ?d2 = Inr (r2, d3)" by (cases q) simp
    from decide_same_stock(1) [OF q] s1 have "same_stock d d3" by (simp add: same_stock_def set_supply_def)
    with assms p q s1 show ?thesis by (auto simp: createSupplyRequestV2_def split: if_splits)
  qed
qed

lemma sent_row_of:
  assumes "createAndSendTransfer e c dto d = Inr (t, d')"
  shows "row_by it_id (it_id t) (transfers d') = Some t" and "it_status t = ''SENT''"
proof -
  from assms obtain src dst ls lines where tx: "sendTx e c src dst ls lines (cx_drop dto) d = Inr (t, d')"
    and sc: "list_all (\<lambda>p. scaled 4 (snd p)) lines" by (rule createAndSend_effect)
  note eff = sendTx_effect [OF tx sc]
  from eff(1) show "it_status t = ''SENT''" by (simp add: sent_row_def)
  have "distinct (map it_id (transfers d'))" using db_okD [OF eff(2)] by (blast dest: primary_keyD)
  then show "row_by it_id (it_id t) (transfers d') = Some t" by (rule row_by_distinct) (simp add: eff(3))
qed

text \<open>Handing a transfer that was just sent to a driver, or linking it to its request.\<close>

lemma sent_then_set_inv:
  assumes run: "createAndSendTransfer e c dto d = Inr (t, d1)" and inv: "stores_inv d"
    and f: "\<And>t. it_id (f t) = it_id t" "\<And>t. it_lines (f t) = it_lines t" "it_status (f t) \<in> set on_the_way"
  shows "stores_inv (set_transfer (it_id t) f d1)"
  by (rule on_the_way_step [OF createAndSend_inv [OF run inv] sent_row_of(1) [OF run]])
    (use f sent_row_of(2) [OF run] in \<open>simp_all add: on_the_way_def\<close>)

lemma linked_transfer_simps [simp]:
  "it_id (linked_transfer e r v im t) = it_id t" "it_lines (linked_transfer e r v im t) = it_lines t"
  "it_from (linked_transfer e r v im t) = it_from t" "it_to (linked_transfer e r v im t) = it_to t"
  "it_supplyRequest (linked_transfer e r v im t) = Some r"
  "it_status t = ''SENT'' \<Longrightarrow> it_status (linked_transfer e r v im t) \<in> {''SENT'', ''IN_TRANSIT''}"
  by (simp_all add: linked_transfer_def split: option.splits)

text \<open>A dispatch fails with the state it found or with the transfer sent and nothing else done.\<close>

lemma dispatchSupply_cases:
  assumes "dispatchSupplyRequest e c i driver imm d = (res, d')"
  obtains x where "res = Inl x" and "d' = d"
  | r t d1 x where "checkDispatch e c i driver d = Inr r"
    and "createAndSendTransfer e c (dispatch_dto r) d = Inr (t, d1)" and "res = Inl x" and "d' = d1"
  | r t d1 v b where "checkDispatch e c i driver d = Inr r"
    and "createAndSendTransfer e c (dispatch_dto r) d = Inr (t, d1)" and "res = Inr t"
    and "d' = emit b (set_supply i (fulfilled e c) (set_transfer (it_id t) (linked_transfer e i v imm) d1))"
    and "db_ok (set_transfer (it_id t) (linked_transfer e i v imm) d1)"
proof (cases "checkDispatch e c i driver d")
  case (Inl x)
  with assms show thesis by (auto simp: dispatchSupplyRequest_def intro: that(1))
next
  case chk: (Inr r)
  show thesis
  proof (cases "createAndSendTransfer e c (dispatch_dto r) d")
    case (Inl x)
    with assms chk show thesis by (auto simp: dispatchSupplyRequest_def intro: that(1))
  next
    case (Inr p)
    then obtain t d1 where s: "createAndSendTransfer e c (dispatch_dto r) d = Inr (t, d1)" by (cases p) simp
    let ?d2 = "set_transfer (it_id t) (linked_transfer e i (usable_driver c driver d1) imm) d1"
    show thesis
    proof (cases "commit ?d2")
      case (Inl x)
      with assms chk s show thesis by (auto simp: dispatchSupplyRequest_def intro: that(2))
    next
      case (Inr d2)
      then have "d2 = ?d2" and "db_ok ?d2" by (simp_all add: inversion)
      with assms chk s Inr show thesis by (auto simp: dispatchSupplyRequest_def intro!: that(3))
    qed
  qed
qed

lemma dispatchSupply_inv:
  assumes run: "dispatchSupplyRequest e c i driver imm d = (res, d')" and inv: "stores_inv d"
  shows "stores_inv d'"
  using run
proof (cases rule: dispatchSupply_cases)
  case (1 x)
  with inv show ?thesis by simp
next
  case (2 r t d1 x)
  with createAndSend_inv [OF 2(2) inv] show ?thesis by simp
next
  case (3 r t d1 v b)
  have "stores_inv (set_transfer (it_id t) (linked_transfer e i v imm) d1)"
    using linked_transfer_simps(6) [OF sent_row_of(2) [OF 3(2)], of e i v imm]
    by (intro sent_then_set_inv [OF 3(2) inv]) (auto simp: on_the_way_def)
  then show ?thesis by (rule same_stock_inv [rotated]) (simp add: 3(4))
qed

lemma push_branches_inv:
  "push_branches e c pd src driver bs done d = (r, d') \<Longrightarrow> stores_inv d \<Longrightarrow> stores_inv d'"
proof (induction e c pd src driver bs "done" d rule: push_branches.induct)
  case (1 e c pd src driver "done" d)
  then show ?case by simp
next
  case (2 e c pd src driver to ls bs "done" d)
  let ?dto = "\<lparr>cx_to = to, cx_from = Some src, cx_lines = ls, cx_drop = Some pd\<rparr>"
  show ?case
  proof (cases "createAndSendTransfer e c ?dto d")
    case (Inl x)
    with 2(2,3) show ?thesis by simp
  next
    case (Inr p)
    then obtain t d1 where s: "createAndSendTransfer e c ?dto d = Inr (t, d1)" by (cases p) simp
    let ?d2 = "case driver of None \<Rightarrow> d1 | Some v \<Rightarrow> set_transfer (it_id t)
       (\<lambda>t. t\<lparr>it_driver := Some v, it_dispatchedAt := Some (env_now e)\<rparr>) d1"
    have "stores_inv ?d2"
      using createAndSend_inv [OF s 2(3)] sent_row_of(2) [OF s]
      by (auto split: option.splits intro!: sent_then_set_inv [OF s 2(3)] simp: on_the_way_def)
    with 2(1) [OF s refl] 2(2) s show ?thesis by simp
  qed
qed

lemma createPushDrop_inv:
  assumes run: "createPushDrop e c src0 bs driver d = (r, d')" and inv: "stores_inv d"
  shows "stores_inv d'"
proof (cases "checkPushDrop e c src0 bs driver d")
  case (Inl x)
  with run inv show ?thesis by (simp add: createPushDrop_def)
next
  case (Inr src)
  let ?d1 = "d\<lparr>push_drops := push_drops d @ [\<lparr>pu_id = next_id d, pu_tenantId = tenant_of c, pu_from = lo_id src,
      pu_status = ''DISPATCHED'', pu_createdBy = ax_staffMembershipId c\<rparr>], next_id := next_id d + 1\<rparr>"
  from run Inr have "push_branches e c (next_id d) (lo_id src) driver bs [] ?d1 = (r, d')"
    by (simp add: createPushDrop_def Let_def)
  then show ?thesis
    by (rule push_branches_inv) (rule same_stock_inv [OF _ inv], simp add: same_stock_def)
qed

lemma accept_reject_inv:
  assumes "stores_inv d"
  shows "acceptTransfer e c i given d = Inr (t, d') \<Longrightarrow> stores_inv d'"
    and "rejectTransfer e c i d = Inr (t, d') \<Longrightarrow> stores_inv d'"
proof -
  have pk: "primary_key it_id (transfers d)" using assms by (simp add: stores_inv_def)
  show "acceptTransfer e c i given d = Inr (t, d') \<Longrightarrow> stores_inv d'"
    by (erule acceptTransfer_effect [OF _ pk]) (use assms in blast)
  show "rejectTransfer e c i d = Inr (t, d') \<Longrightarrow> stores_inv d'"
    by (erule rejectTransfer_effect [OF _ pk]) (use assms in blast)
qed

lemma refused_waste_inv:
  assumes "waste e c i q u note d = (Inl x, d')" and "x \<notin> {DbError ''P2000'', DbError ''P2020''}"
  shows "same_stock d d'"
  using assms(1) by (rule refused_waste) (use assms(2) in \<open>simp_all add: same_stock_def\<close>)

lemma store_step_inv: "store_step d d' \<Longrightarrow> stores_inv d \<Longrightarrow> stores_inv d'"
proof (induction rule: store_step.induct)
  case 1
  then show ?case by (rule receive_inv)
next
  case 2
  then show ?case by (rule receiveBatch_inv)
next
  case 3
  then show ?case by (rule waste_inv)
next
  case 4
  show ?case by (rule same_stock_inv [OF refused_waste_inv]) (fact 4)+
next
  case 5
  then show ?case by (rule createAndSend_inv)
next
  case 6
  then show ?case by (rule accept_reject_inv(1) [rotated])
next
  case 7
  then show ?case by (rule accept_reject_inv(2) [rotated])
next
  case 8
  then show ?case by (rule trip_steps_inv(1) [rotated])
next
  case 9
  then show ?case by (rule trip_steps_inv(2) [rotated])
next
  case 10
  then show ?case by (rule trip_steps_inv(3) [rotated])
next
  case 11
  then show ?case by (rule same_stock_inv [OF createSupply_same_stock])
next
  case 12
  then show ?case by (rule same_stock_inv [OF decide_same_stock(1)])
next
  case 13
  then show ?case by (rule same_stock_inv [OF decide_same_stock(2)])
next
  case 14
  then show ?case by (rule same_stock_inv [OF decide_same_stock(3)])
next
  case 15
  then show ?case by (rule dispatchSupply_inv)
next
  case 16
  then show ?case by (rule same_stock_inv [OF createSupplyV2_same_stock])
next
  case 17
  then show ?case by (rule createPushDrop_inv)
next
  case 18
  then show ?case by (rule same_stock_inv [OF warehouse_same_stock(1)])
next
  case 19
  then show ?case by (rule same_stock_inv [OF warehouse_same_stock(2)])
next
  case 20
  then show ?case by (rule same_stock_inv [OF warehouse_same_stock(3)])
next
  case 21
  then show ?case by (rule same_stock_inv [OF count_same_stock(1)])
next
  case 22
  then show ?case by (rule same_stock_inv [OF count_same_stock(2)])
next
  case 23
  then show ?case by (rule postProductionBatch_inv)
qed

lemma store_run_inv: "store_run d d' \<Longrightarrow> stores_inv d \<Longrightarrow> stores_inv d'"
  by (induction rule: rtranclp_induct) (auto intro: store_step_inv)

section \<open>Transfers that are settled\<close>

text \<open>A transfer that was received or cancelled is never written again.\<close>

definition keeps_settled :: "db \<Rightarrow> db \<Rightarrow> bool" where
  "keeps_settled d d' \<longleftrightarrow> (\<forall>i t. row_by it_id i (transfers d) = Some t \<and> it_status t \<notin> set on_the_way \<longrightarrow>
     row_by it_id i (transfers d') = Some t)"

lemma keeps_refl [simp]: "keeps_settled d d" and keeps_trans: "keeps_settled a b \<Longrightarrow> keeps_settled b d \<Longrightarrow> keeps_settled a d"
  by (auto simp: keeps_settled_def)

lemma keeps_same: "transfers d' = transfers d \<Longrightarrow> keeps_settled d d'"
  by (simp add: keeps_settled_def)

lemma same_stock_keeps: "same_stock d d' \<Longrightarrow> keeps_settled d d'"
  by (rule keeps_same) (simp add: same_stock_def)

lemma keeps_new: "transfers d' = transfers d @ ts \<Longrightarrow> keeps_settled d d'"
  by (simp add: keeps_settled_def row_by_append)

lemma keeps_set:
  assumes "row_by it_id i (transfers d) = Some t" and "it_status t \<in> set on_the_way" and "\<And>t. it_id (f t) = it_id t"
    and "transfers d' = update_id it_id i f (transfers d)"
  shows "keeps_settled d d'"
  using assms(1,2) unfolding keeps_settled_def assms(4) row_by_update_id [of it_id f, OF assms(3)] by auto

lemma receive_one_transfers: "receive_one c l x d = Inr d' \<Longrightarrow> transfers d' = transfers d"
  by (cases x) (auto simp: inversion set_cost_def dest!: applyDelta_transfers split: option.splits)

lemma receiveStockTx_transfers: "receiveStockTx c loc xs d = Inr (l, d') \<Longrightarrow> transfers d' = transfers d"
proof -
  assume "receiveStockTx c loc xs d = Inr (l, d')"
  then obtain d1 where r: "resolveLocationForWrite c loc d = Inr (l, d1)"
    and f: "foldR (receive_one c l) xs d1 = Inr d'" by (auto simp: receiveStockTx_def inversion)
  have "transfers d' = transfers d1"
    using f by (rule foldR_invariant [where P = "\<lambda>s. transfers s = transfers d1"]) (auto dest: receive_one_transfers)
  with resolveLocation_frame [OF r] show ?thesis by simp
qed

lemma stock_ops_transfers:
  "receive e c x v loc d = Inr (l, d') \<Longrightarrow> transfers d' = transfers d"
  "receiveBatch e c xs v loc d = Inr (n, d') \<Longrightarrow> transfers d' = transfers d"
  "waste e c i q u note d = (Inr r, d') \<Longrightarrow> transfers d' = transfers d"
  "postProductionBatch e c dto d = Inr (b, d') \<Longrightarrow> transfers d' = transfers d"
proof -
  show "receive e c x v loc d = Inr (l, d') \<Longrightarrow> transfers d' = transfers d"
    by (auto simp: receive_def inversion dest: receiveStockTx_transfers)
  show "receiveBatch e c xs v loc d = Inr (n, d') \<Longrightarrow> transfers d' = transfers d"
    by (auto simp: receiveBatch_def inversion dest: receiveStockTx_transfers split: if_splits)
  show "waste e c i q u note d = (Inr r, d') \<Longrightarrow> transfers d' = transfers d"
    by (erule waste_booked) (auto dest: applyDelta_transfers)
  show "postProductionBatch e c dto d = Inr (b, d') \<Longrightarrow> transfers d' = transfers d"
    by (erule postProductionBatch_effect) (simp add: after_batch_def)
qed

lemma sent_keeps: "createAndSendTransfer e c dto d = Inr (t, d') \<Longrightarrow> keeps_settled d d'"
  by (erule createAndSend_effect) (rule keeps_new [OF sendTx_effect(3)])

lemma sent_then_set_keeps:
  assumes run: "createAndSendTransfer e c dto d = Inr (t, d1)" and f: "\<And>t. it_id (f t) = it_id t"
    and "transfers d' = transfers (set_transfer (it_id t) f d1)"
  shows "keeps_settled d d'"
  by (rule keeps_trans [OF sent_keeps [OF run] keeps_set [OF sent_row_of(1) [OF run] _ f]])
    (use assms(3) sent_row_of(2) [OF run] in \<open>simp_all add: on_the_way_def set_transfer_def\<close>)

lemma push_branches_keeps: "push_branches e c pd src driver bs done d = (r, d') \<Longrightarrow> keeps_settled d d'"
proof (induction e c pd src driver bs "done" d rule: push_branches.induct)
  case (1 e c pd src driver "done" d)
  then show ?case by simp
next
  case (2 e c pd src driver to ls bs "done" d)
  let ?dto = "\<lparr>cx_to = to, cx_from = Some src, cx_lines = ls, cx_drop = Some pd\<rparr>"
  show ?case
  proof (cases "createAndSendTransfer e c ?dto d")
    case (Inl x)
    with 2(2) show ?thesis by simp
  next
    case (Inr p)
    then obtain t d1 where s: "createAndSendTransfer e c ?dto d = Inr (t, d1)" by (cases p) simp
    let ?d2 = "case driver of None \<Rightarrow> d1 | Some v \<Rightarrow> set_transfer (it_id t)
       (\<lambda>t. t\<lparr>it_driver := Some v, it_dispatchedAt := Some (env_now e)\<rparr>) d1"
    have "keeps_settled d ?d2"
      using sent_keeps [OF s] by (auto split: option.splits intro: sent_then_set_keeps [OF s _ refl])
    with 2(1) [OF s refl] 2(2) s show ?thesis by (auto intro: keeps_trans)
  qed
qed

lemma createPushDrop_keeps: "createPushDrop e c src0 bs driver d = (r, d') \<Longrightarrow> keeps_settled d d'"
  by (auto simp: createPushDrop_def Let_def keeps_settled_def dest!: push_branches_keeps split: sum.splits)

lemma dispatchSupply_keeps:
  assumes "dispatchSupplyRequest e c i driver imm d = (res, d')"
  shows "keeps_settled d d'"
  using assms
proof (cases rule: dispatchSupply_cases)
  case (3 r t d1 v b)
  show ?thesis by (rule sent_then_set_keeps [OF 3(2), of "linked_transfer e i v imm"]) (simp_all add: 3(4) set_supply_def)
qed (auto intro: sent_keeps)

lemma trip_steps_keep:
  assumes "stores_inv d"
  shows "acceptTransfer e c i given d = Inr (t, d') \<Longrightarrow> keeps_settled d d'"
    and "rejectTransfer e c i d = Inr (t, d') \<Longrightarrow> keeps_settled d d'"
    and "dispatchTransfer e c i v d = Inr (u, d') \<Longrightarrow> keeps_settled d d'"
    and "startDriverTrip e c ph nm i d = Inr (u, d') \<Longrightarrow> keeps_settled d d'"
    and "markDriverArrived c i d = Inr (u, d') \<Longrightarrow> keeps_settled d d'"
proof -
  have pk: "primary_key it_id (transfers d)" using assms by (simp add: stores_inv_def)
  note row = find_transfer_row(1) [OF _ pk]
  show "acceptTransfer e c i given d = Inr (t, d') \<Longrightarrow> keeps_settled d d'"
    by (erule acceptTransfer_effect [OF _ pk], erule keeps_set) (auto simp: accepted_transfer_def)
  show "rejectTransfer e c i d = Inr (t, d') \<Longrightarrow> keeps_settled d d'"
    by (erule rejectTransfer_effect [OF _ pk], erule keeps_set) (auto simp: cancelled_transfer_def on_the_way_def)
  have set: "keeps_settled d (set_transfer i f d)"
    if "find_transfer k i d = Inr t" "it_status t \<in> set on_the_way" "\<And>t. it_id (f t) = it_id t" for k t f
    by (rule keeps_set [OF row [OF that(1)] that(2,3)]) (simp add: set_transfer_def)
  show "keeps_settled d d'" if "dispatchTransfer e c i v d = Inr (u, d')"
  proof -
    from that obtain t where t: "find_transfer c i d = Inr t" "it_status t = ''SENT''"
      and d': "d' = set_transfer i (\<lambda>t. t\<lparr>it_driver := Some v, it_dispatchedAt := Some (env_now e)\<rparr>) d"
      by (auto simp: dispatchTransfer_def inversion)
    show ?thesis unfolding d' by (rule set [OF t(1)]) (simp_all add: t on_the_way_def)
  qed
  show "keeps_settled d d'" if "startDriverTrip e c ph nm i d = Inr (u, d')"
  proof -
    from that obtain t dr where t: "find_transfer c i d = Inr t" "it_status t = ''SENT''"
      and d': "d' = set_transfer i (\<lambda>t. t\<lparr>it_status := ''IN_TRANSIT'', it_dispatchedAt := Some (env_now e),
           it_driver := (case dr of Some v \<Rightarrow> Some v | None \<Rightarrow> it_driver t)\<rparr>) d"
      by (auto simp: startDriverTrip_def Let_def split: if_splits)
    show ?thesis unfolding d' by (rule set [OF t(1)]) (simp_all add: t on_the_way_def)
  qed
  show "keeps_settled d d'" if "markDriverArrived c i d = Inr (u, d')"
  proof -
    from that obtain t where t: "find_transfer c i d = Inr t" "it_status t = ''IN_TRANSIT''"
      and d': "d' = set_transfer i (\<lambda>t. t\<lparr>it_status := ''ARRIVED''\<rparr>) d"
      by (auto simp: markDriverArrived_def split: if_splits)
    show ?thesis unfolding d' by (rule set [OF t(1)]) (simp_all add: t on_the_way_def)
  qed
qed

lemma store_step_keeps: "store_step d d' \<Longrightarrow> stores_inv d \<Longrightarrow> keeps_settled d d'"
proof (induction rule: store_step.induct)
  case 1
  from 1(1) show ?case by (rule keeps_same [OF stock_ops_transfers(1)])
next
  case 2
  from 2(1) show ?case by (rule keeps_same [OF stock_ops_transfers(2)])
next
  case 3
  from 3(1) show ?case by (rule keeps_same [OF stock_ops_transfers(3)])
next
  case 4
  show ?case by (rule same_stock_keeps [OF refused_waste_inv]) (fact 4)+
next
  case 5
  from 5(1) show ?case by (rule sent_keeps)
next
  case 6
  then show ?case by (rule trip_steps_keep(1) [rotated])
next
  case 7
  then show ?case by (rule trip_steps_keep(2) [rotated])
next
  case 8
  then show ?case by (rule trip_steps_keep(3) [rotated])
next
  case 9
  then show ?case by (rule trip_steps_keep(4) [rotated])
next
  case 10
  then show ?case by (rule trip_steps_keep(5) [rotated])
next
  case 11
  from 11(1) show ?case by (rule same_stock_keeps [OF createSupply_same_stock])
next
  case 12
  from 12(1) show ?case by (rule same_stock_keeps [OF decide_same_stock(1)])
next
  case 13
  from 13(1) show ?case by (rule same_stock_keeps [OF decide_same_stock(2)])
next
  case 14
  from 14(1) show ?case by (rule same_stock_keeps [OF decide_same_stock(3)])
next
  case 15
  from 15(1) show ?case by (rule dispatchSupply_keeps)
next
  case 16
  from 16(1) show ?case by (rule same_stock_keeps [OF createSupplyV2_same_stock])
next
  case 17
  from 17(1) show ?case by (rule createPushDrop_keeps)
next
  case 18
  from 18(1) show ?case by (rule same_stock_keeps [OF warehouse_same_stock(1)])
next
  case 19
  from 19(1) show ?case by (rule same_stock_keeps [OF warehouse_same_stock(2)])
next
  case 20
  from 20(1) show ?case by (rule same_stock_keeps [OF warehouse_same_stock(3)])
next
  case 21
  from 21(1) show ?case by (rule same_stock_keeps [OF count_same_stock(1)])
next
  case 22
  from 22(1) show ?case by (rule same_stock_keeps [OF count_same_stock(2)])
next
  case 23
  from 23(1) show ?case by (rule keeps_same [OF stock_ops_transfers(4)])
qed

lemma store_run_keeps: "store_run d d' \<Longrightarrow> stores_inv d \<Longrightarrow> keeps_settled d d'"
proof (induction rule: rtranclp_induct)
  case (step d1 d2)
  from store_step_keeps [OF step(2) store_run_inv [OF step(1,4)]] step show ?case by (auto intro: keeps_trans)
qed simp

text \<open>Nothing can be done with it.\<close>

lemma settled_transfer_is_final:
  assumes "row_by it_id i (transfers d) = Some t" and "it_status t \<notin> set on_the_way"
    and "primary_key it_id (transfers d)"
  shows "\<not> is_ok (acceptTransfer e c i given d)" and "\<not> is_ok (rejectTransfer e c i d)"
    and "\<not> is_ok (dispatchTransfer e c i v d)" and "\<not> is_ok (startDriverTrip e c ph nm i d)"
    and "\<not> is_ok (markDriverArrived c i d)"
proof -
  have st: "x = t" if "find_transfer k i d = Inr x" for k x
    using find_transfer_row(1) [OF that assms(3)] assms(1) by simp
  show "\<not> is_ok (acceptTransfer e c i given d)" "\<not> is_ok (rejectTransfer e c i d)"
    using assms(2) by (auto simp: is_ok_iff acceptTransfer_def rejectTransfer_def inversion on_the_way_def
        dest!: st split: if_splits)
  show "\<not> is_ok (dispatchTransfer e c i v d)" "\<not> is_ok (startDriverTrip e c ph nm i d)" "\<not> is_ok (markDriverArrived c i d)"
    using assms(2) by (auto simp: is_ok_iff dispatchTransfer_def startDriverTrip_def markDriverArrived_def inversion
        on_the_way_def Let_def dest!: st split: if_splits)
qed

section \<open>Properties\<close>

definition all_booked :: "id \<Rightarrow> db \<Rightarrow> decimal" where
  "all_booked ing d = sum_list (map se_delta (filter (\<lambda>x. se_ingredientId x = ing) (stock_ledger d)))"

definition from_outside :: "id \<Rightarrow> db \<Rightarrow> decimal" where
  "from_outside ing d = sum_list (map se_delta (filter (\<lambda>x. se_ingredientId x = ing \<and>
     se_entryType x \<notin> set transfer_entries) (stock_ledger d)))"

lemma booked_split: "all_booked ing d = transfer_flow ing d + from_outside ing d"
proof -
  have "sum_list (map se_delta (filter P es)) =
      sum_list (map se_delta (filter (\<lambda>x. P x \<and> Q x) es)) + sum_list (map se_delta (filter (\<lambda>x. P x \<and> \<not> Q x) es))"
    for P Q and es :: "stock_entry list"
    by (induction es) auto
  then show ?thesis by (simp add: all_booked_def transfer_flow_def from_outside_def)
qed

text \<open>
  C3: no sequence of deliveries, waste, production batches, transfers, supply requests and push
  drops, refused and failed ones included (but for a waste whose ledger entry the database refuses:
  below), loses or invents stock. In every store the quantity on
  hand of every ingredient is the sum of its ledger entries; and what all stores hold together
  plus what transfers took out and have not delivered (all of it while they are on the way, the
  shortage when they were received) is what deliveries, waste and production booked.
\<close>

theorem stock_is_conserved:
  assumes "store_run d0 d" and "stores_inv d0"
  shows "(\<forall>k. on_hand k d = booked_qty k d) \<and>
     (\<forall>ing. all_booked ing d + outstanding ing d = from_outside ing d)"
proof -
  have inv: "stores_inv d" using assms by (rule store_run_inv)
  have "all_booked ing d + outstanding ing d = from_outside ing d" for ing
    using inv booked_split [of ing d] by (simp add: stores_inv_def add.commute eq_neg_iff_add_eq_0 algebra_simps)
  with inv show ?thesis by (simp add: stores_inv_def books_agree_def)
qed

definition send_5 :: send_dto where
  "send_5 = \<lparr>cx_to = 201, cx_from = None, cx_lines = [\<lparr>xl_ingredient = 210, xl_quantity = 4, xl_typedUnit = None\<rparr>,
     \<lparr>xl_ingredient = 210, xl_quantity = 1000, xl_typedUnit = Some ''g''\<rparr>], cx_drop = None\<rparr>"

definition sent_5 :: transfer where
  "sent_5 = \<lparr>it_id = 1000, it_tenantId = 1, it_from = 200, it_to = 201, it_status = ''SENT'', it_supplyRequest = None,
     it_pushDrop = None, it_driver = None, it_sentBy = Some 14, it_receivedBy = None, it_dispatchedAt = None,
     it_sentAt = Some 1000000, it_receivedAt = None,
     it_lines = [\<lparr>tl_ingredientId = 210, tl_sent = 5, tl_unitSent = None, tl_received = None\<rparr>]\<rparr>"

definition sent_db :: db where
  "sent_db = network_db\<lparr>transfers := [sent_5], next_id := 1001,
     stock := [\<lparr>sb_locationId = 200, sb_ingredientId = 210, sb_onHand = 15\<rparr>,
       \<lparr>sb_locationId = 201, sb_ingredientId = 210, sb_onHand = 3\<rparr>],
     stock_ledger := [goods_in 200 20, goods_in 201 3, (goods_in 200 (- 5))\<lparr>se_entryType := ''TRANSFER_OUT''\<rparr>]\<rparr>"

lemma send_5_run: "createAndSendTransfer evening storekeeper send_5 network_db = Inr (sent_5, sent_db)"
  by code_simp

theorem stock_is_conserved_witness:
  "\<exists>d. store_run network_db d \<and> on_hand (200, 210) d = 15 \<and> on_hand (201, 210) d = 15 / 2 \<and>
     outstanding 210 d = 1 / 2 \<and> all_booked 210 d + outstanding 210 d = 23"
proof -
  let ?got = "[\<lparr>xl_ingredient = 210, xl_quantity = 4500, xl_typedUnit = Some ''g''\<rparr>]"
  have "bindR (acceptTransfer later storekeeper 1000 ?got sent_db) (\<lambda>(t, d).
       Inr (on_hand (200, 210) d, on_hand (201, 210) d, outstanding 210 d, from_outside 210 d)) =
     Inr (15, 15 / 2, 1 / 2, 23)" by code_simp
  then obtain t d where a: "acceptTransfer later storekeeper 1000 ?got sent_db = Inr (t, d)"
    and q: "on_hand (200, 210) d = 15" "on_hand (201, 210) d = 15 / 2" "outstanding 210 d = 1 / 2"
      "from_outside 210 d = 23" by (elim run_pairE) auto
  have run: "store_run network_db d"
    using store_step.intros(5) [OF send_5_run] store_step.intros(6) [OF a] by auto
  from stock_is_conserved [OF run network_inv] run q show ?thesis by auto
qed

text \<open>
  C25: a transfer that is sent takes exactly the quantities of its lines out of its source store,
  where all of it was on hand, and touches no other store; when the branch then rejects it, every
  store holds what it held before.
\<close>

theorem rejection_undoes_the_sending:
  assumes "createAndSendTransfer e c dto d = Inr (t, d1)" and "rejectTransfer e' c' (it_id t) d1 = Inr (t', d2)"
    and "stores_inv d"
  shows "(\<forall>l i. on_hand (l, i) d1 = on_hand (l, i) d - (if l = it_from t then line_sum tl_sent i (it_lines t) else 0)) \<and>
     list_all (\<lambda>x. tl_sent x \<le> on_hand (it_from t, tl_ingredientId x) d) (it_lines t) \<and>
     (\<forall>k. on_hand k d2 = on_hand k d)"
proof -
  from assms(1) obtain src dst ls lines where tx: "sendTx e c src dst ls lines (cx_drop dto) d = Inr (t, d1)"
    and sc: "list_all (\<lambda>p. scaled 4 (snd p)) lines" by (rule createAndSend_effect)
  note eff = sendTx_effect [OF tx sc]
  have wf: "stock_wf d" using assms(3) by (simp add: stores_inv_def books_agree_def)
  have inv1: "stores_inv d1" by (rule eff(7) [OF assms(3)])
  have wf1: "stock_wf d1" and pk1: "primary_key it_id (transfers d1)"
    using inv1 by (simp_all add: stores_inv_def books_agree_def)
  have src: "lo_id src = it_from t" by (simp add: eff(1) sent_row_def)
  have sum: "line_sum tl_sent i (it_lines t) = delta_sum i lines" for i
    unfolding eff(1) by (rule line_sum_sent [OF sc])
  have out: "on_hand (l, i) d1 = on_hand (l, i) d - (if l = it_from t then line_sum tl_sent i (it_lines t) else 0)" for l i
    using eff(6) [OF wf] by (simp add: src sum)
  have enough: "list_all (\<lambda>x. tl_sent x \<le> on_hand (it_from t, tl_ingredientId x) d) (it_lines t)"
    using eff(4) sc by (auto simp: eff(1) sent_row_def list_all_iff round_scaled split_beta)
  from assms(2) pk1 obtain u where u: "row_by it_id (it_id t) (transfers d1) = Some u"
    and ret: "lines_wf u \<longrightarrow> (\<forall>l j. on_hand (l, j) d2 =
        on_hand (l, j) d1 + (if l = it_from u then line_sum tl_sent j (it_lines u) else 0))"
    by (rule rejectTransfer_effect) (use wf1 in blast)
  with sent_row_of(1) [OF assms(1)] have "u = t" by simp
  with ret row_lines_wf [OF inv1 u] out have "on_hand k d2 = on_hand k d" for k by (cases k) simp
  with out enough show ?thesis by simp
qed

lemma sent_inv: "stores_inv sent_db"
  by (rule createAndSend_inv [OF send_5_run network_inv])

theorem rejection_undoes_the_sending_witness:
  "\<exists>t d. rejectTransfer later storekeeper 1000 sent_db = Inr (t, d) \<and> on_hand (200, 210) sent_db = 15 \<and>
     on_hand (200, 210) d = 20 \<and> on_hand (200, 210) network_db = 20"
proof -
  have "bindR (rejectTransfer later storekeeper 1000 sent_db) (\<lambda>(t, d). Inr (it_status t)) = Inr ''CANCELLED''" by code_simp
  then obtain t d where r: "rejectTransfer later storekeeper 1000 sent_db = Inr (t, d)" by (elim run_pairE) auto
  have "rejectTransfer later storekeeper (it_id sent_5) sent_db = Inr (t, d)" using r by (simp add: sent_5_def)
  from rejection_undoes_the_sending [OF send_5_run this network_inv]
  have "on_hand (200, 210) d = on_hand (200, 210) network_db" by blast
  moreover have "on_hand (200, 210) network_db = 20" "on_hand (200, 210) sent_db = 15" by code_simp+
  ultimately show ?thesis using r by auto
qed

text \<open>
  C19: an accepted transfer was on its way; its store gets what was received of every line, never
  more than was sent, and no other store changes. And it is received once: whatever is done with
  stores, requests and transfers afterwards, its row stays as it was accepted, and it can be neither
  accepted nor rejected, nor given to a driver, nor driven, nor arrive, by anyone.
\<close>

theorem transfers_arrive_once:
  assumes "acceptTransfer e c i given d = Inr (t', d')" and "stores_inv d"
  shows "(\<exists>t. row_by it_id i (transfers d) = Some t \<and> it_status t \<in> {''SENT'', ''IN_TRANSIT'', ''ARRIVED''} \<and>
      list_all2 line_done (it_lines t) (it_lines t') \<and>
      (\<forall>l j. on_hand (l, j) d' = on_hand (l, j) d + (if l = it_to t then line_sum received_qty j (it_lines t') else 0))) \<and>
    it_status t' = ''RECEIVED'' \<and>
    (\<forall>d''. store_run d' d'' \<longrightarrow> row_by it_id i (transfers d'') = Some t' \<and>
       (\<forall>e c given v ph nm. \<not> is_ok (acceptTransfer e c i given d'') \<and> \<not> is_ok (rejectTransfer e c i d'') \<and>
          \<not> is_ok (dispatchTransfer e c i v d'') \<and> \<not> is_ok (startDriverTrip e c ph nm i d'') \<and>
          \<not> is_ok (markDriverArrived c i d'')))"
proof -
  have pk: "primary_key it_id (transfers d)" and wf: "stock_wf d"
    using assms(2) by (simp_all add: stores_inv_def books_agree_def)
  from assms(1) pk obtain t ls where row: "row_by it_id i (transfers d) = Some t" "it_status t \<in> set on_the_way"
    and recd: "list_all2 line_done (it_lines t) ls" and t': "t' = accepted_transfer e c ls t"
    and tr: "transfers d' = update_id it_id i (accepted_transfer e c ls) (transfers d)"
    and oh: "\<forall>l j. on_hand (l, j) d' = on_hand (l, j) d + (if l = it_to t then line_sum received_qty j ls else 0)"
    and inv: "stores_inv d'"
    by (rule acceptTransfer_effect) (use wf assms(2) in blast)
  have ls: "it_lines t' = ls" and st: "it_status t' = ''RECEIVED''" by (simp_all add: t' accepted_transfer_def)
  have "row_by it_id i (transfers d') = Some t'"
    unfolding tr t' by (subst row_by_update_id) (simp_all add: accepted_transfer_def row)
  then have kept: "row_by it_id i (transfers d'') = Some t'" and pk'': "primary_key it_id (transfers d'')"
    if "store_run d' d''" for d''
    using store_run_keeps [OF that inv] store_run_inv [OF that inv] st
    by (auto simp: keeps_settled_def on_the_way_def stores_inv_def)
  have off: "it_status t' \<notin> set on_the_way" by (simp add: st on_the_way_def)
  show ?thesis
    using row recd oh st kept settled_transfer_is_final [OF kept off pk'']
    unfolding ls by (auto simp: on_the_way_def)
qed

theorem transfers_arrive_once_witness:
  "\<exists>t d t' d'. acceptTransfer later storekeeper 1000 [] sent_db = Inr (t, d) \<and> on_hand (201, 210) d = 8 \<and>
     createAndSendTransfer later storekeeper send_5 d = Inr (t', d') \<and> row_by it_id 1000 (transfers d') = Some t \<and>
     \<not> is_ok (markDriverArrived storekeeper 1000 d')"
proof -
  have "bindR (acceptTransfer later storekeeper 1000 [] sent_db) (\<lambda>(t, d). Inr (on_hand (201, 210) d)) = Inr 8"
    by code_simp
  then obtain t d where r: "acceptTransfer later storekeeper 1000 [] sent_db = Inr (t, d)" and q: "on_hand (201, 210) d = 8"
    by (elim run_pairE) auto
  have "is_ok (bindR (acceptTransfer later storekeeper 1000 [] sent_db)
      (\<lambda>(t, d). createAndSendTransfer later storekeeper send_5 d))" by code_simp
  then obtain t2 d2 where s: "createAndSendTransfer later storekeeper send_5 d = Inr (t2, d2)"
    by (auto simp: r is_ok_iff)
  from s have "store_run d d2" by (intro r_into_rtranclp store_step.intros(5))
  with transfers_arrive_once [OF r sent_inv] have "row_by it_id 1000 (transfers d2) = Some t"
    and "\<not> is_ok (markDriverArrived storekeeper 1000 d2)" by blast+
  with r q s show ?thesis by blast
qed

lemma booked_waste:
  assumes "stock_ledger d' = stock_ledger d @ [waste_entry l i (- b)]" and "scaled 4 b"
  shows "booked_qty k d' = booked_qty k d - (if k = (l, i) then b else 0)"
  using assms scaled_minus [OF assms(2)] by (auto simp: booked_qty_def waste_entry_def se_key_def round_scaled)


definition long_note :: string where
  "long_note = replicate 250 (CHR ''x'')"

definition cook_manager :: auth_ctx where
  "cook_manager = staff_member 105 15 ''MANAGER'' (Some 2) 35 [''inventory.manage'']"

text \<open>
  A waste of 50 g of flour, stocked in kilograms, with a note of 250 characters is answered with an
  error: the store has lost the flour by then, and the ledger does not say so.
\<close>

lemma wasted_and_not_booked:
  "(case waste evening cook_manager 210 50 (Some ''g'') (Some long_note) network_db of
      (r, d) \<Rightarrow> (r, on_hand (201, 210) d, booked_qty (201, 210) d)) = (Inl (DbError ''P2000''), 59 / 20, 3)"
  by code_simp


text \<open>
  A push drop whose second transfer cannot be covered is answered with an error, but its first
  transfer has left the warehouse; and where the tenant approves requests by itself, a request
  that asks to be approved at once is stored and answered with an error.
\<close>

lemma failed_push_drop_keeps_first_transfer:
  "fst (createPushDrop evening storekeeper None
      [(201, [\<lparr>xl_ingredient = 210, xl_quantity = 12, xl_typedUnit = None\<rparr>]),
       (201, [\<lparr>xl_ingredient = 210, xl_quantity = 12, xl_typedUnit = None\<rparr>])] None network_db) =
     Inl (BadRequest ''Not enough at main warehouse'')"
  "on_hand (200, 210) (snd (createPushDrop evening storekeeper None
      [(201, [\<lparr>xl_ingredient = 210, xl_quantity = 12, xl_typedUnit = None\<rparr>]),
       (201, [\<lparr>xl_ingredient = 210, xl_quantity = 12, xl_typedUnit = None\<rparr>])] None network_db)) = 8"
  by code_simp+

definition auto_db :: db where
  "auto_db = network_db\<lparr>tenant_config := [\<lparr>tn_tenantId = 1, tn_defaultVipPercent = 0, tn_roomServiceEnabled = False, tn_breakfastEnabled = False,
     tn_breakfastFrom = '''', tn_breakfastTo = '''', tn_breakfastMenuItem = None, tn_autoApproveSupply = True,
     tn_requireDriver = False, tn_updatedBy = None, tn_version = 1\<rparr>]\<rparr>"

lemma auto_approved_request_is_answered_with_an_error:
  "(case createSupplyRequestV2 evening storekeeper (Some 201)
      [\<lparr>xl_ingredient = 210, xl_quantity = 2, xl_typedUnit = None\<rparr>] True auto_db of (r, d) \<Rightarrow>
      (r, map sq_status (supply_requests d))) =
    (Inl (BadRequest ''Only SUBMITTED requests can be approved''), [''APPROVED''])"
  by code_simp

text \<open>
  Accepting adds the quantities of an ingredient before it converts them, with the unit of the last
  line: 4 kg and 500 g arrive as 504 g. Sending the same lines converts first.
\<close>

lemma accepted_units_are_mixed:
  "received_base storekeeper [\<lparr>xl_ingredient = 210, xl_quantity = 4, xl_typedUnit = Some ''kg''\<rparr>,
     \<lparr>xl_ingredient = 210, xl_quantity = 500, xl_typedUnit = Some ''g''\<rparr>]
     \<lparr>tl_ingredientId = 210, tl_sent = 5, tl_unitSent = None, tl_received = None\<rparr> sent_db = Inr (63 / 125)"
  "bindR (mapR (convert_line storekeeper sent_db) [\<lparr>xl_ingredient = 210, xl_quantity = 4, xl_typedUnit = Some ''kg''\<rparr>,
       \<lparr>xl_ingredient = 210, xl_quantity = 500, xl_typedUnit = Some ''g''\<rparr>])
     (\<lambda>ls. mergeTransferLines (map (\<lambda>(i, q, _). (i, q)) ls)) = Inr [(210, 9 / 2)]"
  by code_simp+

end
