(* ===== verification/Counting.thy ===== *)
theory Counting
  imports Supply
begin

text \<open>
  What posting a physical count does to the books of a branch store (\<open>postCount\<close> of
  \<open>src/inventory/inventory.service.ts\<close>, modelled in \<open>Warehouse\<close>): each line sets the balance of
  the default store to the counted quantity and books the difference to the book quantity that
  was noted when the count was started, which need not be the balance any more, nor have been
  that store's.
\<close>

definition counted :: "count_line \<Rightarrow> decimal" where
  "counted x = the (cl_countedQty x)"

definition post_at :: "id \<Rightarrow> id \<Rightarrow> count_line \<Rightarrow> db \<Rightarrow> db" where
  "post_at l sid x d = (if counted x - cl_bookQty x = 0 then d
     else at_default l (cl_ingredientId x) (cl_ingredientId x) (counted x - cl_bookQty x) (count_meta sid (counted x)) d)"

lemma post_line_at:
  assumes "default_location (tenant_of c) b d = Some l" and "ax_branchId c = Some b"
  shows "post_line c sid x d = Inr (post_at l sid x d)"
  using applyDelta_at_default [OF assms(1)] assms(2) by (simp add: post_line_def post_at_def counted_def Let_def)

lemma post_at_location [simp]: "default_location t b (post_at l sid x d) = default_location t b d"
  by (simp add: post_at_def)

lemma count_meta_simps [simp]: "dm_setAbsolute (count_meta sid q) = Some q"
  by (simp add: count_meta_def)

lemma on_hand_post_at:
  assumes "scaled 4 (counted x)"
  shows "on_hand k (post_at l sid x d) =
     (if k = (l, cl_ingredientId x) \<and> counted x \<noteq> cl_bookQty x then counted x else on_hand k d)"
proof -
  let ?u = "upsert_balance (l, cl_ingredientId x) (counted x - cl_bookQty x) (Some (counted x)) d"
  have "on_hand k (at_default l (cl_ingredientId x) (cl_ingredientId x) (counted x - cl_bookQty x)
      (count_meta sid (counted x)) d) = on_hand k ?u"
    by (rule on_hand_cong) (simp add: at_default_def)
  also have "\<dots> = (if k = (l, cl_ingredientId x) then counted x else on_hand k d)"
    using assms by (simp add: on_hand_upsert round_scaled)
  finally show ?thesis by (cases "k = (l, cl_ingredientId x)") (simp_all add: post_at_def)
qed

lemma booked_post_at:
  assumes "scaled 4 (counted x)" and "scaled 4 (cl_bookQty x)"
  shows "booked_qty k (post_at l sid x d) =
     booked_qty k d + (if k = (l, cl_ingredientId x) then counted x - cl_bookQty x else 0)"
proof -
  have "scaled 4 (counted x - cl_bookQty x)" using scaled_add [OF assms(1) scaled_minus [OF assms(2)]] by simp
  then show ?thesis
    by (auto simp: post_at_def at_default_def booked_qty_def se_key_def round_scaled)
qed

definition count_line_wf :: "count_line \<Rightarrow> bool" where
  "count_line_wf x \<longleftrightarrow> scaled 4 (cl_bookQty x) \<and> scaled 4 (counted x)"

lemma post_lines_elsewhere:
  assumes "foldR (post_line c sid) xs d = Inr d'" and "default_location (tenant_of c) b d = Some l"
    and "ax_branchId c = Some b" and "\<forall>x \<in> set xs. count_line_wf x"
    and "fst k \<noteq> l \<or> snd k \<notin> cl_ingredientId ` set xs"
  shows "on_hand k d' = on_hand k d \<and> booked_qty k d' = booked_qty k d"
  using assms
proof (induction xs arbitrary: d)
  case Nil
  then show ?case by simp
next
  case (Cons x xs)
  then have "foldR (post_line c sid) xs (post_at l sid x d) = Inr d'" by (simp add: post_line_at)
  from Cons.IH [OF this] Cons.prems show ?case
    by (auto simp: on_hand_post_at booked_post_at count_line_wf_def)
qed

lemma post_lines_effect:
  assumes "foldR (post_line c sid) xs d = Inr d'" and "default_location (tenant_of c) b d = Some l"
    and "ax_branchId c = Some b" and "\<forall>x \<in> set xs. count_line_wf x" and "distinct (map cl_ingredientId xs)"
    and "x \<in> set xs"
  shows "on_hand (l, cl_ingredientId x) d' =
       (if counted x = cl_bookQty x then on_hand (l, cl_ingredientId x) d else counted x) \<and>
     booked_qty (l, cl_ingredientId x) d' = booked_qty (l, cl_ingredientId x) d + (counted x - cl_bookQty x)"
  using assms
proof (induction xs arbitrary: d)
  case Nil
  then show ?case by simp
next
  case (Cons y ys)
  then have ys: "foldR (post_line c sid) ys (post_at l sid y d) = Inr d'" by (simp add: post_line_at)
  have y: "scaled 4 (counted y)" "scaled 4 (cl_bookQty y)" using Cons.prems(4) by (simp_all add: count_line_wf_def)
  show ?case
  proof (cases "x = y")
    case True
    then have "cl_ingredientId x \<notin> cl_ingredientId ` set ys" using Cons.prems(5) by simp
    with post_lines_elsewhere [OF ys, of b l "(l, cl_ingredientId x)"] Cons.prems(2,3,4) y True show ?thesis
      by (simp add: on_hand_post_at booked_post_at)
  next
    case False
    with Cons.prems(6) have "x \<in> set ys" by simp
    moreover from this Cons.prems(5) have "cl_ingredientId x \<noteq> cl_ingredientId y"
      by (metis distinct.simps(2) imageI list.map(2) list.set_map)
    ultimately show ?thesis using Cons.IH [OF ys] Cons.prems(2-5) y by (simp add: on_hand_post_at booked_post_at)
  qed
qed

lemma postCount_effect:
  assumes "postCount e c sid d = Inr (u, d')" and "draft_count c sid m d = Inr s"
  obtains d1 b where "foldR (post_line c sid) (cs_lines s) d = Inr d1" and "ax_branchId c = Some b"
    and "stock d' = stock d1" and "stock_ledger d' = stock_ledger d1"
    and "\<forall>x \<in> set (cs_lines s). cl_countedQty x \<noteq> None"
proof -
  from assms have "draft_count c sid ''Count already posted.'' d = Inr s"
    by (auto simp: draft_count_def split: option.splits if_splits)
  with assms(1) that show ?thesis
    by (auto simp: postCount_def inversion filter_empty_conv split: if_splits)
qed

section \<open>Properties\<close>

text \<open>
  C35: posting a count in a branch that has a default store, with quantities as the database
  holds them (four decimals) and one line for each ingredient, does the following to each line
  and that store: a counted quantity that differs from the noted book quantity becomes the
  balance, and the difference to the noted quantity is booked in the ledger; a line without a
  difference changes neither. What is not on the count, and every other store, is as before. So
  the books of the ingredient agree afterwards exactly if the line has no difference and they
  agreed before, or it has one and the noted quantity is what the ledger says: posting repairs
  nothing that was noted wrong, and breaks books that agreed when the stock moved in between.
\<close>

theorem posted_count_sets_the_stock:
  assumes run: "postCount e c sid d = Inr (u, d')" and s: "draft_count c sid m d = Inr s"
    and store: "default_location (tenant_of c) (the (ax_branchId c)) d = Some l"
    and wf: "\<forall>x \<in> set (cs_lines s). count_line_wf x" and once: "distinct (map cl_ingredientId (cs_lines s))"
  shows "(\<forall>x \<in> set (cs_lines s).
      on_hand (l, cl_ingredientId x) d' =
        (if counted x = cl_bookQty x then on_hand (l, cl_ingredientId x) d else counted x) \<and>
      booked_qty (l, cl_ingredientId x) d' = booked_qty (l, cl_ingredientId x) d + (counted x - cl_bookQty x) \<and>
      (on_hand (l, cl_ingredientId x) d' = booked_qty (l, cl_ingredientId x) d' \<longleftrightarrow>
        (if counted x = cl_bookQty x then on_hand (l, cl_ingredientId x) d = booked_qty (l, cl_ingredientId x) d
         else cl_bookQty x = booked_qty (l, cl_ingredientId x) d))) \<and>
    (\<forall>k. fst k \<noteq> l \<or> snd k \<notin> cl_ingredientId ` set (cs_lines s) \<longrightarrow>
      on_hand k d' = on_hand k d \<and> booked_qty k d' = booked_qty k d)"
proof -
  from run s obtain d1 b where f: "foldR (post_line c sid) (cs_lines s) d = Inr d1" and b: "ax_branchId c = Some b"
    and st: "stock d' = stock d1" "stock_ledger d' = stock_ledger d1" by (rule postCount_effect)
  have cong: "on_hand k d' = on_hand k d1" "booked_qty k d' = booked_qty k d1" for k
    using st by (simp_all add: on_hand_def booked_qty_def)
  have l: "default_location (tenant_of c) b d = Some l" using store b by simp
  from post_lines_effect [OF f l b wf once] post_lines_elsewhere [OF f l b wf] show ?thesis
    unfolding cong by auto
qed

definition counting_db :: db where
  "counting_db = network_db\<lparr>counts := [\<lparr>cs_id = 1000, cs_tenantId = 1, cs_branchId = 2, cs_status = ''DRAFT'',
     cs_notes = None, cs_createdBy = Some 14, cs_postedAt = None,
     cs_lines = [\<lparr>cl_ingredientId = 210, cl_bookQty = 20, cl_countedQty = Some 3, cl_countedUnit = Some ''kg''\<rparr>]\<rparr>],
     next_id := 1001\<rparr>"

text \<open>
  The Bole store holds three kilos, as its books say, and three are counted. The book quantity
  noted for the count is the first balance of the ingredient, the twenty kilos of the main warehouse.
\<close>

lemma counting_runs:
  "bindR (startCount evening storekeeper None network_db) (\<lambda>(s, d1).
     updateCountLines evening storekeeper (cs_id s) [(210, 3, None)] d1) = Inr ((), counting_db)"
  by code_simp

theorem posted_count_sets_the_stock_witness:
  "\<exists>d. postCount later storekeeper 1000 counting_db = Inr ((), d) \<and> on_hand (201, 210) counting_db = 3 \<and>
     booked_qty (201, 210) counting_db = 3 \<and> on_hand (201, 210) d = 3 \<and> booked_qty (201, 210) d = - 14"
proof -
  have "bindR (postCount later storekeeper 1000 counting_db) (\<lambda>(u, d). Inr (map cs_status (counts d))) = Inr [''POSTED'']"
    by code_simp
  then obtain u d where run: "postCount later storekeeper 1000 counting_db = Inr (u, d)" by (elim run_pairE)
  obtain s where s: "draft_count storekeeper 1000 '''' counting_db = Inr s" and sd: "s = hd (counts counting_db)"
    by (simp add: draft_count_def counting_db_def storekeeper_def staff_member_def)
  have l: "default_location (tenant_of storekeeper) (the (ax_branchId storekeeper)) counting_db = Some 201" by code_simp
  have wf: "\<forall>x \<in> set (cs_lines s). count_line_wf x" and di: "distinct (map cl_ingredientId (cs_lines s))"
    and ln: "hd (cs_lines s) \<in> set (cs_lines s)" and x: "cl_ingredientId (hd (cs_lines s)) = 210"
      "cl_bookQty (hd (cs_lines s)) = 20" "counted (hd (cs_lines s)) = 3"
    unfolding sd by code_simp+
  have q: "on_hand (201, 210) counting_db = 3" "booked_qty (201, 210) counting_db = 3" by code_simp+
  from posted_count_sets_the_stock [OF run s l wf di] ln have
    "on_hand (201, 210) d = 3" "booked_qty (201, 210) d = 3 + (3 - 20)" using q x by auto
  with run q show ?thesis by simp
qed

end
