(* ===== verification/Payroll.thy ===== *)
theory Payroll
  imports Pricing Scenario Rounding
begin

text \<open>
  Payroll (\<open>src/hr/payroll.service.ts\<close>): a run pays the staff of a restaurant for a period, one
  line per member. \<open>computeLineAmounts\<close> is the arithmetic of a line, \<open>createRun\<close> makes a run
  with its lines from the hours worked, \<open>updateLine\<close> corrects one, \<open>approveRun\<close> and
  \<open>markPaid\<close> end it. The service keeps tables of its own, the record \<open>payroll_db\<close>; the shift
  sessions are those of \<open>Schema\<close>. None of its operations runs in a transaction: every error is
  raised before the first write.

  The invariant \<open>payroll_wf\<close> types the tables: every amount of a line is what its parts say, the
  totals of a run are the sums of its lines, and a paid run has no unpaid line. It holds after
  every sequence of operations (\<open>payroll_step\<close>), and a line that was paid never changes again.
\<close>

section \<open>Tables\<close>

datatype run_status = PR_DRAFT | PR_APPROVED | PR_PAID | PR_CANCELLED

record payroll_run =
  run_id :: id
  run_tenantId :: id
  run_branchId :: "id option"
  run_status :: run_status
  run_periodStart :: date
  run_periodEnd :: date
  run_label :: "string option"
  run_totalGross :: decimal
  run_totalOt :: decimal
  run_totalTips :: decimal
  run_totalDeductions :: decimal
  run_totalNet :: decimal
  run_approvedAt :: "time option"
  run_approvedBy :: "id option"
  run_paidAt :: "time option"
  run_paidBy :: "id option"
  run_createdAt :: time

record payroll_line =
  pln_id :: id
  pln_tenantId :: id
  pln_runId :: id
  pln_staff :: id
  pln_staffName :: string
  pln_roleCode :: "string option"
  pln_payType :: "string option"
  pln_basePay :: "decimal option"
  pln_regularHours :: "decimal option"
  pln_otHours :: decimal
  pln_otRate :: "decimal option"
  pln_otAmount :: decimal
  pln_tipAmount :: decimal
  pln_baseGross :: decimal
  pln_deductions :: decimal
  pln_gross :: decimal
  pln_net :: decimal
  pln_payMethod :: "string option"
  pln_paidAt :: "time option"
  pln_notes :: "string option"

text \<open>
  A membership with the columns payroll reads: the branches it is actively assigned to and the
  role that was granted last among its active ones.
\<close>

record payroll_member =
  pm_id :: id
  pm_tenantId :: id
  pm_status :: string
  pm_branches :: "id list"
  pm_name :: string
  pm_role :: "string option"
  pm_payType :: "string option"
  pm_basePay :: "decimal option"

record payroll_db =
  pay_runs :: "payroll_run list"
  pay_lines :: "payroll_line list"
  pay_members :: "payroll_member list"
  pay_shifts :: "shift_session list"
  pay_next :: id

section \<open>Guards\<close>

definition requireManage :: "env \<Rightarrow> auth_ctx \<Rightarrow> unit result" where
  "requireManage e c =
     (if ax_tenantId c = None then Inl (Forbidden ''No restaurant on this account.'')
      else if \<not> (can e c Act_manage Sub_Staff \<or> can e c Act_manage Sub_all)
      then Inl (Forbidden ''Payroll is for managers and owners.'')
      else Inr ())"

definition isOwner :: "auth_ctx \<Rightarrow> bool" where
  "isOwner c \<longleftrightarrow> ax_roleCode c = ''OWNER_ADMIN'' \<or> ax_roleCode c = ''OWNER''"

definition resolveBranchId :: "auth_ctx \<Rightarrow> id option \<Rightarrow> id option result" where
  "resolveBranchId c b =
     (if isOwner c \<and> b \<noteq> None then Inr b
      else if isOwner c \<and> b = None then Inr None
      else if ax_branchId c = None then Inl (Forbidden ''No branch on this account.'')
      else Inr (ax_branchId c))"

lemma requireManage_eq_Inr [inversion]:
  "requireManage e c = Inr u \<longleftrightarrow>
     ax_tenantId c \<noteq> None \<and> (can e c Act_manage Sub_Staff \<or> can e c Act_manage Sub_all)"
  by (auto simp: requireManage_def)

section \<open>The arithmetic of a line\<close>

abbreviation round2 :: "decimal \<Rightarrow> decimal" where
  "round2 \<equiv> js_round 2"

record line_input =
  lin_payType :: "string option"
  lin_basePay :: "decimal option"
  lin_regularHours :: "decimal option"
  lin_otHours :: decimal
  lin_otRate :: "decimal option"
  lin_otAmountOverride :: "decimal option"
  lin_tipAmount :: "decimal option"
  lin_deductions :: decimal

record line_amounts =
  la_baseGross :: decimal
  la_otRate :: "decimal option"
  la_otAmount :: decimal
  la_tipAmount :: decimal
  la_deductions :: decimal
  la_gross :: decimal
  la_net :: decimal

text \<open>\<open>x ?? 0\<close>.\<close>

definition or_zero :: "decimal option \<Rightarrow> decimal" where
  "or_zero x = (case x of None \<Rightarrow> 0 | Some y \<Rightarrow> y)"

definition base_gross :: "line_input \<Rightarrow> decimal" where
  "base_gross i =
     (if lin_payType i = Some ''HOURLY'' then round2 (or_zero (lin_regularHours i) * or_zero (lin_basePay i))
      else round2 (or_zero (lin_basePay i)))"

definition ot_rate :: "line_input \<Rightarrow> decimal option" where
  "ot_rate i =
     (if lin_otRate i = None \<and> lin_payType i = Some ''HOURLY'' \<and> 0 < or_zero (lin_basePay i)
      then Some (round2 (or_zero (lin_basePay i) * (3 / 2))) else lin_otRate i)"

definition ot_amount :: "line_input \<Rightarrow> decimal" where
  "ot_amount i =
     (case lin_otAmountOverride i of
        Some a \<Rightarrow> round2 a
      | None \<Rightarrow> (case ot_rate i of
            Some r \<Rightarrow> if 0 < lin_otHours i then round2 (lin_otHours i * r) else 0
          | None \<Rightarrow> 0))"

definition computeLineAmounts :: "line_input \<Rightarrow> line_amounts" where
  "computeLineAmounts i =
     (let baseGross = base_gross i; otAmount = ot_amount i;
          tipAmount = round2 (or_zero (lin_tipAmount i));
          deductions = round2 (lin_deductions i);
          gross = round2 (baseGross + otAmount + tipAmount);
          net = round2 (max 0 (gross - deductions))
      in \<lparr>la_baseGross = baseGross, la_otRate = ot_rate i, la_otAmount = otAmount,
          la_tipAmount = tipAmount, la_deductions = deductions, la_gross = gross, la_net = net\<rparr>)"

text \<open>The outer roundings change nothing: the parts are in cents already.\<close>

lemma base_gross_cents [simp]: "cents (base_gross i)"
  by (simp add: base_gross_def)

lemma ot_amount_cents [simp]: "cents (ot_amount i)"
  by (simp add: ot_amount_def split: option.splits)

lemma cents_max [intro]: "cents x \<Longrightarrow> cents y \<Longrightarrow> cents (max x y)"
  by (simp add: max_def)

lemma computeLineAmounts_parts:
  "la_gross (computeLineAmounts i) = base_gross i + ot_amount i + round2 (or_zero (lin_tipAmount i))"
  "la_net (computeLineAmounts i) =
     max 0 (la_gross (computeLineAmounts i) - round2 (lin_deductions i))"
proof -
  have g: "cents (base_gross i + ot_amount i + round2 (or_zero (lin_tipAmount i)))"
    by (intro scaled_add) simp_all
  then show 1: "la_gross (computeLineAmounts i) = base_gross i + ot_amount i + round2 (or_zero (lin_tipAmount i))"
    by (simp add: computeLineAmounts_def Let_def js_round_id)
  have "cents (max 0 (base_gross i + ot_amount i + round2 (or_zero (lin_tipAmount i)) - round2 (lin_deductions i)))"
    using g by (intro cents_max scaled_diff) simp_all
  then show "la_net (computeLineAmounts i) =
     max 0 (la_gross (computeLineAmounts i) - round2 (lin_deductions i))"
    using 1 g by (simp add: computeLineAmounts_def Let_def js_round_id)
qed

section \<open>Reading the tables\<close>

definition lines_of :: "id \<Rightarrow> payroll_db \<Rightarrow> payroll_line list" where
  "lines_of r d = filter (\<lambda>l. pln_runId l = r) (pay_lines d)"

definition find_run :: "auth_ctx \<Rightarrow> id \<Rightarrow> payroll_db \<Rightarrow> payroll_run option" where
  "find_run c r d = find (\<lambda>x. run_id x = r \<and> run_tenantId x = tenant_of c) (pay_runs d)"

text \<open>\<open>toRunDto\<close> and \<open>toLineDto\<close>: the row without its tenant, a run with the number of its lines.\<close>

record run_dto =
  rdt_id :: id
  rdt_status :: run_status
  rdt_periodStart :: date
  rdt_periodEnd :: date
  rdt_label :: "string option"
  rdt_branchId :: "id option"
  rdt_totals :: "decimal \<times> decimal \<times> decimal \<times> decimal \<times> decimal"
  rdt_approvedAt :: "time option"
  rdt_paidAt :: "time option"
  rdt_createdAt :: time
  rdt_lineCount :: nat

definition toRunDto :: "payroll_db \<Rightarrow> payroll_run \<Rightarrow> run_dto" where
  "toRunDto d r =
     \<lparr>rdt_id = run_id r, rdt_status = run_status r, rdt_periodStart = run_periodStart r,
      rdt_periodEnd = run_periodEnd r, rdt_label = run_label r, rdt_branchId = run_branchId r,
      rdt_totals = (run_totalGross r, run_totalOt r, run_totalTips r, run_totalDeductions r, run_totalNet r),
      rdt_approvedAt = run_approvedAt r, rdt_paidAt = run_paidAt r, rdt_createdAt = run_createdAt r,
      rdt_lineCount = length (lines_of (run_id r) d)\<rparr>"

record line_dto =
  ldt_id :: id
  ldt_runId :: id
  ldt_staff :: id
  ldt_staffName :: string
  ldt_roleCode :: "string option"
  ldt_payType :: "string option"
  ldt_basePay :: "decimal option"
  ldt_regularHours :: "decimal option"
  ldt_otHours :: decimal
  ldt_otRate :: "decimal option"
  ldt_otAmount :: decimal
  ldt_tipAmount :: decimal
  ldt_baseGross :: decimal
  ldt_deductions :: decimal
  ldt_gross :: decimal
  ldt_net :: decimal
  ldt_payMethod :: "string option"
  ldt_paidAt :: "time option"
  ldt_notes :: "string option"

definition toLineDto :: "payroll_line \<Rightarrow> line_dto" where
  "toLineDto l =
     \<lparr>ldt_id = pln_id l, ldt_runId = pln_runId l, ldt_staff = pln_staff l, ldt_staffName = pln_staffName l,
      ldt_roleCode = pln_roleCode l, ldt_payType = pln_payType l, ldt_basePay = pln_basePay l,
      ldt_regularHours = pln_regularHours l, ldt_otHours = pln_otHours l, ldt_otRate = pln_otRate l,
      ldt_otAmount = pln_otAmount l, ldt_tipAmount = pln_tipAmount l, ldt_baseGross = pln_baseGross l,
      ldt_deductions = pln_deductions l, ldt_gross = pln_gross l, ldt_net = pln_net l,
      ldt_payMethod = pln_payMethod l, ldt_paidAt = pln_paidAt l, ldt_notes = pln_notes l\<rparr>"

text \<open>The lines of a run are sorted by the name of the member; the collation of the database is left out.\<close>

definition getRun :: "env \<Rightarrow> auth_ctx \<Rightarrow> id \<Rightarrow> payroll_db \<Rightarrow> (run_dto \<times> line_dto list) result" where
  "getRun e c r d =
     bindR (requireManage e c) (\<lambda>_.
       case find_run c r d of
         None \<Rightarrow> Inl (NotFound ''Payroll run not found.'')
       | Some x \<Rightarrow> Inr (toRunDto d x, map toLineDto (lines_of (run_id x) d)))"

text \<open>\<open>listRuns\<close>: newest period first, then newest first.\<close>

definition listRuns :: "env \<Rightarrow> auth_ctx \<Rightarrow> id option \<Rightarrow> payroll_db \<Rightarrow> run_dto list result" where
  "listRuns e c b d =
     bindR (requireManage e c) (\<lambda>_. bindR (resolveBranchId c b) (\<lambda>scope.
       Inr (map (toRunDto d)
         (sort_key (\<lambda>r. - run_periodStart r) (sort_key (\<lambda>r. - run_createdAt r)
           (filter (\<lambda>r. run_tenantId r = tenant_of c \<and> (scope = None \<or> run_branchId r = scope) \<and>
              run_status r \<noteq> PR_CANCELLED) (pay_runs d)))))))"

text \<open>\<open>listStaffPayHistory\<close>: the fifty lines of a member that were paid last, with their runs.\<close>

definition listStaffPayHistory ::
  "env \<Rightarrow> auth_ctx \<Rightarrow> id \<Rightarrow> payroll_db \<Rightarrow> (line_dto \<times> payroll_run option) list result" where
  "listStaffPayHistory e c mid d =
     bindR (requireManage e c) (\<lambda>_.
       if \<not> list_ex (\<lambda>m. pm_id m = mid \<and> pm_tenantId m = tenant_of c) (pay_members d)
       then Inl (NotFound ''Staff member not found.'')
       else Inr (map (\<lambda>l. (toLineDto l, row_by run_id (pln_runId l) (pay_runs d)))
         (take 50 (sort_key (\<lambda>l. - the (pln_paidAt l))
           (filter (\<lambda>l. pln_tenantId l = tenant_of c \<and> pln_staff l = mid \<and> pln_paidAt l \<noteq> None)
              (pay_lines d))))))"

section \<open>Operations\<close>

text \<open>
  \<open>refreshRunTotals\<close>: the totals of a run become the sums over its lines (0 when it has none).
\<close>

definition refreshRunTotals :: "id \<Rightarrow> payroll_db \<Rightarrow> payroll_db" where
  "refreshRunTotals r d =
     (let total = (\<lambda>f. sum_list (map f (lines_of r d)))
      in d\<lparr>pay_runs := update_id run_id r (\<lambda>x. x
           \<lparr>run_totalGross := total pln_gross, run_totalOt := total pln_otAmount,
            run_totalTips := total pln_tipAmount, run_totalDeductions := total pln_deductions,
            run_totalNet := total pln_net\<rparr>) (pay_runs d)\<rparr>)"

text \<open>\<open>hoursForMember\<close>: an open shift counts up to now.\<close>

definition hoursForMember :: "env \<Rightarrow> id \<Rightarrow> time \<Rightarrow> time \<Rightarrow> payroll_db \<Rightarrow> decimal" where
  "hoursForMember e mid periodStart periodEnd d =
     (let endExclusive = periodEnd + ms_per_day;
          sessions = filter (\<lambda>s. sh_staff s = mid \<and> periodStart \<le> sh_clockInAt s \<and>
                                 sh_clockInAt s < endExclusive) (pay_shifts d);
          hours = (\<lambda>s. let out = (case sh_clockOutAt s of Some t \<Rightarrow> t | None \<Rightarrow> env_now e);
                          ms = out - sh_clockInAt s
                      in if 0 < ms then of_int ms / 3600000 else 0)
      in round2 (sum_list (map hours sessions)))"

definition paid_members :: "auth_ctx \<Rightarrow> id option \<Rightarrow> payroll_db \<Rightarrow> payroll_member list" where
  "paid_members c b d =
     filter (\<lambda>m. pm_tenantId m = tenant_of c \<and> pm_status m = ''ACTIVE'' \<and>
                 (case b of None \<Rightarrow> True | Some x \<Rightarrow> x \<in> set (pm_branches m))) (pay_members d)"

text \<open>One turn of the loop of \<open>generateLines\<close>: the line of a member.\<close>

definition member_line ::
  "env \<Rightarrow> auth_ctx \<Rightarrow> id \<Rightarrow> time \<Rightarrow> time \<Rightarrow> payroll_db \<Rightarrow> payroll_member \<Rightarrow> id \<Rightarrow> payroll_line" where
  "member_line e c r periodStart periodEnd d m i =
     (let payType = (case pm_payType m of None \<Rightarrow> ''SALARY'' | Some t \<Rightarrow> t);
          hourly = (payType = ''HOURLY'');
          regularHours = (if hourly then Some (hoursForMember e (pm_id m) periodStart periodEnd d) else None);
          amounts = computeLineAmounts
            \<lparr>lin_payType = Some payType, lin_basePay = pm_basePay m, lin_regularHours = regularHours,
             lin_otHours = 0,
             lin_otRate = (if hourly then map_option (\<lambda>b. round2 (b * (3 / 2))) (pm_basePay m) else None),
             lin_otAmountOverride = None, lin_tipAmount = None, lin_deductions = 0\<rparr>
      in \<lparr>pln_id = i, pln_tenantId = tenant_of c, pln_runId = r, pln_staff = pm_id m,
          pln_staffName = pm_name m, pln_roleCode = pm_role m, pln_payType = Some payType,
          pln_basePay = pm_basePay m, pln_regularHours = regularHours, pln_otHours = 0,
          pln_otRate = la_otRate amounts, pln_otAmount = 0, pln_tipAmount = 0,
          pln_baseGross = la_baseGross amounts, pln_deductions = 0, pln_gross = la_gross amounts,
          pln_net = la_net amounts, pln_payMethod = None, pln_paidAt = None, pln_notes = None\<rparr>)"

definition add_line ::
  "env \<Rightarrow> auth_ctx \<Rightarrow> id \<Rightarrow> time \<Rightarrow> time \<Rightarrow> payroll_member \<Rightarrow> payroll_db \<Rightarrow> payroll_db" where
  "add_line e c r periodStart periodEnd m d =
     d\<lparr>pay_lines := pay_lines d @ [member_line e c r periodStart periodEnd d m (pay_next d)],
       pay_next := pay_next d + 1\<rparr>"

definition generateLines ::
  "env \<Rightarrow> auth_ctx \<Rightarrow> id \<Rightarrow> time \<Rightarrow> time \<Rightarrow> id option \<Rightarrow> payroll_db \<Rightarrow> payroll_db" where
  "generateLines e c r periodStart periodEnd b d =
     refreshRunTotals r (fold (add_line e c r periodStart periodEnd) (paid_members c b d) d)"

text \<open>
  The two dates of the request are parsed by \<open>new Date\<close>; a text it cannot read is \<open>None\<close>.
\<close>

record create_run_dto =
  crd_periodStart :: "time option"
  crd_periodEnd :: "time option"
  crd_label :: "string option"
  crd_branchId :: "id option"

definition month_names :: "string list" where
  "month_names = [''January'', ''February'', ''March'', ''April'', ''May'', ''June'', ''July'',
     ''August'', ''September'', ''October'', ''November'', ''December'']"

definition month_label :: "time \<Rightarrow> string" where
  "month_label t =
     (let (y, m, _) = civil_from_days (t div ms_per_day)
      in month_names ! nat (m - 1) @ '' '' @ show_nat (nat y))"

definition new_run :: "env \<Rightarrow> auth_ctx \<Rightarrow> id option \<Rightarrow> time \<Rightarrow> time \<Rightarrow> string option \<Rightarrow> id \<Rightarrow> payroll_run" where
  "new_run e c b periodStart periodEnd label i =
     \<lparr>run_id = i, run_tenantId = tenant_of c, run_branchId = b, run_status = PR_DRAFT,
      run_periodStart = periodStart div ms_per_day, run_periodEnd = periodEnd div ms_per_day,
      run_label = Some (trim_or (month_label periodStart) label), run_totalGross = 0, run_totalOt = 0,
      run_totalTips = 0, run_totalDeductions = 0, run_totalNet = 0, run_approvedAt = None,
      run_approvedBy = None, run_paidAt = None, run_paidBy = None, run_createdAt = env_now e\<rparr>"

definition createRun ::
  "env \<Rightarrow> auth_ctx \<Rightarrow> create_run_dto \<Rightarrow> payroll_db \<Rightarrow> ((run_dto \<times> line_dto list) \<times> payroll_db) result" where
  "createRun e c dto d =
     bindR (requireManage e c) (\<lambda>_. bindR (resolveBranchId c (crd_branchId dto)) (\<lambda>b.
       case crd_periodStart dto of
         None \<Rightarrow> Inl (BadRequest ''Invalid periodStart.'')
       | Some ps \<Rightarrow> (case crd_periodEnd dto of
             None \<Rightarrow> Inl (BadRequest ''Invalid periodEnd.'')
           | Some pe \<Rightarrow>
               if pe < ps then Inl (BadRequest ''periodEnd must be on or after periodStart.'')
               else let r = pay_next d;
                        d1 = d\<lparr>pay_runs := pay_runs d @ [new_run e c b ps pe (crd_label dto) r],
                               pay_next := r + 1\<rparr>;
                        d2 = generateLines e c r ps pe b d1
                    in bindR (getRun e c r d2) (\<lambda>res. Inr (res, d2)))))"

text \<open>
  A correction of a line; a field that is left out keeps its value. The validation of the
  request admits no negative number (\<open>valid_update\<close>).
\<close>

record update_line_dto =
  uld_regularHours :: "decimal option"
  uld_otHours :: "decimal option"
  uld_otRate :: "decimal option"
  uld_otAmount :: "decimal option"
  uld_tipAmount :: "decimal option"
  uld_deductions :: "decimal option"
  uld_payMethod :: "string option"
  uld_notes :: "string option"

definition nonneg_opt :: "decimal option \<Rightarrow> bool" where
  "nonneg_opt x = (case x of None \<Rightarrow> True | Some y \<Rightarrow> 0 \<le> y)"

definition valid_update :: "update_line_dto \<Rightarrow> bool" where
  "valid_update u \<longleftrightarrow> list_all nonneg_opt
     [uld_regularHours u, uld_otHours u, uld_otRate u, uld_otAmount u, uld_tipAmount u, uld_deductions u]
   \<and> uld_payMethod u \<in> {None, Some ''CASH'', Some ''BANK''}"

text \<open>\<open>x !== undefined ? x : y\<close>.\<close>

definition or_else :: "'a option \<Rightarrow> 'a \<Rightarrow> 'a" where
  "or_else x y = (case x of None \<Rightarrow> y | Some z \<Rightarrow> z)"

definition update_input :: "update_line_dto \<Rightarrow> payroll_line \<Rightarrow> line_input" where
  "update_input u l =
     \<lparr>lin_payType = pln_payType l, lin_basePay = pln_basePay l,
      lin_regularHours = (if uld_regularHours u \<noteq> None then uld_regularHours u else pln_regularHours l),
      lin_otHours = or_else (uld_otHours u) (pln_otHours l),
      lin_otRate = (if uld_otRate u \<noteq> None then uld_otRate u else pln_otRate l),
      lin_otAmountOverride = uld_otAmount u,
      lin_tipAmount = Some (or_else (uld_tipAmount u) (pln_tipAmount l)),
      lin_deductions = or_else (uld_deductions u) (pln_deductions l)\<rparr>"

text \<open>
  The line as \<open>updateLine\<close> writes it. The amounts are computed twice, the second time with the
  overtime of the first as its override. The columns of hours and of the rate hold two decimals.
\<close>

definition updated_line :: "update_line_dto \<Rightarrow> payroll_line \<Rightarrow> payroll_line" where
  "updated_line u l =
     (let i = update_input u l;
          amounts = computeLineAmounts i;
          otAmount = (case uld_otAmount u of Some a \<Rightarrow> round2 a | None \<Rightarrow> la_otAmount amounts);
          recomputed = computeLineAmounts
            (i\<lparr>lin_otRate := la_otRate amounts, lin_otAmountOverride := Some otAmount\<rparr>)
      in l\<lparr>pln_regularHours := map_option dp2 (lin_regularHours i), pln_otHours := dp2 (lin_otHours i),
           pln_otRate := map_option dp2 (la_otRate recomputed), pln_otAmount := la_otAmount recomputed,
           pln_tipAmount := la_tipAmount recomputed, pln_baseGross := la_baseGross recomputed,
           pln_deductions := la_deductions recomputed, pln_gross := la_gross recomputed,
           pln_net := la_net recomputed,
           pln_payMethod := (if uld_payMethod u \<noteq> None then uld_payMethod u else pln_payMethod l),
           pln_notes := (case uld_notes u of None \<Rightarrow> pln_notes l | Some t \<Rightarrow> trim_or_null (Some t))\<rparr>)"

definition set_run :: "id \<Rightarrow> (payroll_run \<Rightarrow> payroll_run) \<Rightarrow> payroll_db \<Rightarrow> payroll_db" where
  "set_run r f d = d\<lparr>pay_runs := update_id run_id r f (pay_runs d)\<rparr>"

definition updateLine ::
  "env \<Rightarrow> auth_ctx \<Rightarrow> id \<Rightarrow> id \<Rightarrow> update_line_dto \<Rightarrow> payroll_db \<Rightarrow> (line_dto \<times> payroll_db) result" where
  "updateLine e c r lid u d =
     bindR (requireManage e c) (\<lambda>_.
       case find_run c r d of
         None \<Rightarrow> Inl (NotFound ''Payroll run not found.'')
       | Some x \<Rightarrow>
           if run_status x = PR_PAID \<or> run_status x = PR_CANCELLED
           then Inl (Conflict ''Cannot edit a paid or cancelled run.'')
           else (case find (\<lambda>l. pln_id l = lid \<and> pln_runId l = r \<and> pln_tenantId l = tenant_of c) (pay_lines d) of
               None \<Rightarrow> Inl (NotFound ''Payroll line not found.'')
             | Some l \<Rightarrow>
                 if pln_paidAt l \<noteq> None then Inl (Conflict ''Line already marked paid.'')
                 else let d1 = d\<lparr>pay_lines := update_id pln_id lid (updated_line u) (pay_lines d)\<rparr>;
                          d2 = (if run_status x = PR_APPROVED
                                then set_run r (\<lambda>y. y\<lparr>run_status := PR_DRAFT, run_approvedAt := None,
                                                      run_approvedBy := None\<rparr>) d1
                                else d1)
                      in Inr (toLineDto (updated_line u l), refreshRunTotals r d2)))"

definition approveRun :: "env \<Rightarrow> auth_ctx \<Rightarrow> id \<Rightarrow> payroll_db \<Rightarrow> (run_dto \<times> payroll_db) result" where
  "approveRun e c r d =
     bindR (requireManage e c) (\<lambda>_.
       case find_run c r d of
         None \<Rightarrow> Inl (NotFound ''Payroll run not found.'')
       | Some x \<Rightarrow>
           if run_status x = PR_PAID then Inl (Conflict ''Run already paid.'')
           else if lines_of r d = [] then Inl (BadRequest ''Run has no lines.'')
           else let d1 = set_run r (\<lambda>y. y\<lparr>run_status := PR_APPROVED, run_approvedAt := Some (env_now e),
                                          run_approvedBy := ax_staffMembershipId c\<rparr>) (refreshRunTotals r d)
                in (case row_by run_id r (pay_runs d1) of
                      None \<Rightarrow> Inl (DbError ''P2025'')
                    | Some y \<Rightarrow> Inr (toRunDto d1 y, d1)))"

text \<open>The lines \<open>markPaid\<close> pays: those named, or all, that are unpaid.\<close>

definition payable_line :: "auth_ctx \<Rightarrow> id \<Rightarrow> id list option \<Rightarrow> payroll_line \<Rightarrow> bool" where
  "payable_line c r ids l \<longleftrightarrow> pln_runId l = r \<and> pln_tenantId l = tenant_of c \<and> pln_paidAt l = None \<and>
     (case ids of None \<Rightarrow> True | Some is \<Rightarrow> is = [] \<or> pln_id l \<in> set is)"

definition paid_run :: "env \<Rightarrow> auth_ctx \<Rightarrow> payroll_run \<Rightarrow> payroll_run \<Rightarrow> payroll_run" where
  "paid_run e c x y =
     (let z = y\<lparr>run_status := PR_PAID, run_paidAt := Some (env_now e), run_paidBy := ax_staffMembershipId c\<rparr>
      in if run_status x = PR_DRAFT
         then z\<lparr>run_approvedAt := Some (env_now e), run_approvedBy := ax_staffMembershipId c\<rparr> else z)"

definition partly_paid_run :: "env \<Rightarrow> auth_ctx \<Rightarrow> payroll_run \<Rightarrow> payroll_run" where
  "partly_paid_run e c y = y\<lparr>run_status := PR_APPROVED, run_approvedAt := Some (env_now e),
     run_approvedBy := ax_staffMembershipId c\<rparr>"

definition markPaid ::
  "env \<Rightarrow> auth_ctx \<Rightarrow> id \<Rightarrow> id list option \<Rightarrow> string option \<Rightarrow> payroll_db \<Rightarrow>
     ((run_dto \<times> line_dto list) \<times> payroll_db) result" where
  "markPaid e c r ids payMethod d =
     bindR (requireManage e c) (\<lambda>_.
       case find_run c r d of
         None \<Rightarrow> Inl (NotFound ''Payroll run not found.'')
       | Some x \<Rightarrow>
           if run_status x = PR_CANCELLED then Inl (Conflict ''Run is cancelled.'')
           else if run_status x = PR_PAID then Inl (Conflict ''Run already paid.'')
           else let payMethod = or_else payMethod ''CASH'';
                    lines = filter (payable_line c r ids) (pay_lines d)
                in if lines = [] then Inl (BadRequest ''No unpaid lines to mark.'')
                   else let d1 = d\<lparr>pay_lines := update_many (\<lambda>l. pln_id l \<in> set (map pln_id lines))
                                     (\<lambda>l. l\<lparr>pln_paidAt := Some (env_now e), pln_payMethod := Some payMethod\<rparr>)
                                     (pay_lines d)\<rparr>;
                            remaining = count_where (\<lambda>l. pln_paidAt l = None) (lines_of r d1);
                            d2 = (if remaining = 0 then set_run r (paid_run e c x) d1
                                  else if run_status x = PR_DRAFT then set_run r (partly_paid_run e c) d1
                                  else d1)
                        in bindR (getRun e c r d2) (\<lambda>res. Inr (res, d2)))"

section \<open>What the tables always hold\<close>

text \<open>
  The type of a line: amounts in cents, none of its parts negative, the gross pay the sum of its
  parts and the net pay what is left after the deductions.
\<close>

definition line_wf :: "payroll_line \<Rightarrow> bool" where
  "line_wf l \<longleftrightarrow>
     list_all cents [pln_baseGross l, pln_otAmount l, pln_tipAmount l, pln_deductions l, pln_gross l, pln_net l] \<and>
     list_all (\<lambda>x. 0 \<le> x) [pln_otHours l, pln_baseGross l, pln_otAmount l, pln_tipAmount l, pln_deductions l] \<and>
     list_all nonneg_opt [pln_basePay l, pln_regularHours l, pln_otRate l] \<and>
     pln_gross l = pln_baseGross l + pln_otAmount l + pln_tipAmount l \<and>
     pln_net l = max 0 (pln_gross l - pln_deductions l)"

definition totals_match :: "payroll_line list \<Rightarrow> payroll_run \<Rightarrow> bool" where
  "totals_match ls x \<longleftrightarrow>
     (let total = (\<lambda>f. sum_list (map f (filter (\<lambda>l. pln_runId l = run_id x) ls)))
      in run_totalGross x = total pln_gross \<and> run_totalOt x = total pln_otAmount \<and>
         run_totalTips x = total pln_tipAmount \<and> run_totalDeductions x = total pln_deductions \<and>
         run_totalNet x = total pln_net)"

definition run_wf :: "payroll_line list \<Rightarrow> payroll_run \<Rightarrow> bool" where
  "run_wf ls x \<longleftrightarrow> totals_match ls x \<and>
     (\<forall>l \<in> set ls. pln_runId l = run_id x \<longrightarrow>
        pln_tenantId l = run_tenantId x \<and> (run_status x = PR_PAID \<longrightarrow> pln_paidAt l \<noteq> None))"

definition payroll_wf :: "payroll_db \<Rightarrow> bool" where
  "payroll_wf d \<longleftrightarrow>
     distinct (map run_id (pay_runs d)) \<and> distinct (map pln_id (pay_lines d)) \<and>
     list_all (\<lambda>x. run_id x < pay_next d) (pay_runs d) \<and>
     list_all (\<lambda>l. pln_id l < pay_next d \<and> pln_runId l < pay_next d \<and> line_wf l) (pay_lines d) \<and>
     list_all (run_wf (pay_lines d)) (pay_runs d) \<and>
     list_all (\<lambda>m. nonneg_opt (pm_basePay m)) (pay_members d)"

inductive payroll_step :: "payroll_db \<Rightarrow> payroll_db \<Rightarrow> bool" where
  create: "createRun e c dto d = Inr (res, d') \<Longrightarrow> payroll_step d d'"
| update: "valid_update u \<Longrightarrow> updateLine e c r lid u d = Inr (l, d') \<Longrightarrow> payroll_step d d'"
| approve: "approveRun e c r d = Inr (x, d') \<Longrightarrow> payroll_step d d'"
| pay: "markPaid e c r ids m d = Inr (res, d') \<Longrightarrow> payroll_step d d'"

lemma computeLineAmounts_simps [simp]:
  "la_baseGross (computeLineAmounts i) = base_gross i"
  "la_otRate (computeLineAmounts i) = ot_rate i"
  "la_otAmount (computeLineAmounts i) = ot_amount i"
  "la_tipAmount (computeLineAmounts i) = round2 (or_zero (lin_tipAmount i))"
  "la_deductions (computeLineAmounts i) = round2 (lin_deductions i)"
  by (simp_all add: computeLineAmounts_def Let_def)

lemma gross_net_cents [simp]:
  "cents (la_gross (computeLineAmounts i))" "cents (la_net (computeLineAmounts i))"
  by (simp_all add: computeLineAmounts_def Let_def)

lemma or_zero_nonneg: "nonneg_opt x \<Longrightarrow> 0 \<le> or_zero x"
  by (simp add: nonneg_opt_def or_zero_def split: option.splits)

lemma base_gross_nonneg:
  "nonneg_opt (lin_basePay i) \<Longrightarrow> nonneg_opt (lin_regularHours i) \<Longrightarrow> 0 \<le> base_gross i"
  by (auto simp: base_gross_def or_zero_nonneg)

lemma ot_rate_nonneg:
  "nonneg_opt (lin_basePay i) \<Longrightarrow> nonneg_opt (lin_otRate i) \<Longrightarrow> nonneg_opt (ot_rate i)"
  by (auto simp: ot_rate_def nonneg_opt_def)

lemma ot_amount_nonneg:
  "nonneg_opt (lin_basePay i) \<Longrightarrow> nonneg_opt (lin_otRate i) \<Longrightarrow> nonneg_opt (lin_otAmountOverride i) \<Longrightarrow>
     0 \<le> ot_amount i"
  using ot_rate_nonneg [of i]
  by (auto simp: ot_amount_def nonneg_opt_def split: option.splits intro!: js_round_nonneg)

lemma hoursForMember_nonneg: "0 \<le> hoursForMember e mid ps pe d"
  unfolding hoursForMember_def Let_def by (intro js_round_nonneg sum_list_nonneg) auto

lemma member_line_simps [simp]:
  "pln_id (member_line e c r ps pe d m i) = i"
  "pln_runId (member_line e c r ps pe d m i) = r"
  "pln_tenantId (member_line e c r ps pe d m i) = tenant_of c"
  "pln_paidAt (member_line e c r ps pe d m i) = None"
  by (simp_all add: member_line_def Let_def)

lemma member_line_wf:
  assumes "nonneg_opt (pm_basePay m)"
  shows "line_wf (member_line e c r ps pe d m i)"
proof -
  define inp where "inp = \<lparr>lin_payType = Some (case pm_payType m of None \<Rightarrow> ''SALARY'' | Some t \<Rightarrow> t), lin_basePay = pm_basePay m,
     lin_regularHours = (if (case pm_payType m of None \<Rightarrow> ''SALARY'' | Some t \<Rightarrow> t) = ''HOURLY''
        then Some (hoursForMember e (pm_id m) ps pe d) else None),
     lin_otHours = 0,
     lin_otRate = (if (case pm_payType m of None \<Rightarrow> ''SALARY'' | Some t \<Rightarrow> t) = ''HOURLY''
        then map_option (\<lambda>b. round2 (b * (3 / 2))) (pm_basePay m) else None),
     lin_otAmountOverride = None, lin_tipAmount = None, lin_deductions = 0\<rparr>"
  have nn: "nonneg_opt (lin_basePay inp)" "nonneg_opt (lin_regularHours inp)" "nonneg_opt (lin_otRate inp)"
    using assms hoursForMember_nonneg [of e "pm_id m" ps pe d]
    by (auto simp: inp_def nonneg_opt_def split: option.splits intro!: js_round_nonneg)
  have ot: "ot_amount inp = 0" by (auto simp: ot_amount_def inp_def split: option.splits)
  have "0 \<le> base_gross inp" "nonneg_opt (ot_rate inp)"
    using base_gross_nonneg [OF nn(1,2)] ot_rate_nonneg [OF nn(1,3)] by simp_all
  then show ?thesis
    using nn computeLineAmounts_parts [of inp] ot gross_net_cents [of inp] base_gross_cents [of inp]
    unfolding line_wf_def member_line_def Let_def inp_def [symmetric]
    by (simp add: inp_def or_zero_def del: gross_net_cents base_gross_cents)
qed

lemma updated_line_keys [simp]:
  "pln_id (updated_line u l) = pln_id l" "pln_runId (updated_line u l) = pln_runId l"
  "pln_tenantId (updated_line u l) = pln_tenantId l" "pln_paidAt (updated_line u l) = pln_paidAt l"
  by (simp_all add: updated_line_def Let_def)

lemma nonneg_opt_dp2: "nonneg_opt x \<Longrightarrow> nonneg_opt (map_option dp2 x)"
  by (auto simp: nonneg_opt_def round_nonneg split: option.splits)

lemma or_else_nonneg: "nonneg_opt x \<Longrightarrow> 0 \<le> y \<Longrightarrow> 0 \<le> or_else x y"
  by (simp add: nonneg_opt_def or_else_def split: option.splits)

lemma nonneg_opt_simps [simp]: "nonneg_opt None" "nonneg_opt (Some x) \<longleftrightarrow> 0 \<le> x"
  by (simp_all add: nonneg_opt_def)

lemma updated_line_wf:
  assumes l: "line_wf l" and u: "valid_update u"
  shows "line_wf (updated_line u l)"
proof -
  define i where "i = update_input u l"
  define j where "j = i\<lparr>lin_otRate := la_otRate (computeLineAmounts i), lin_otAmountOverride :=
     Some (case uld_otAmount u of Some a \<Rightarrow> round2 a | None \<Rightarrow> la_otAmount (computeLineAmounts i))\<rparr>"
  have i: "nonneg_opt (lin_basePay i)" "nonneg_opt (lin_regularHours i)" "nonneg_opt (lin_otRate i)"
    "nonneg_opt (lin_otAmountOverride i)" "0 \<le> lin_otHours i" "0 \<le> or_zero (lin_tipAmount i)" "0 \<le> lin_deductions i"
    using l u by (simp_all add: i_def update_input_def line_wf_def valid_update_def or_else_nonneg or_zero_def)
  have j: "nonneg_opt (lin_basePay j)" "nonneg_opt (lin_regularHours j)" "nonneg_opt (lin_otRate j)"
    "nonneg_opt (lin_otAmountOverride j)" "0 \<le> lin_otHours j" "0 \<le> or_zero (lin_tipAmount j)" "0 \<le> lin_deductions j"
    using i ot_rate_nonneg [OF i(1,3)] ot_amount_nonneg [OF i(1,3,4)] u
    by (cases "uld_otAmount u"; simp add: j_def valid_update_def js_round_nonneg)+
  have eq: "updated_line u l = l\<lparr>pln_regularHours := map_option dp2 (lin_regularHours i), pln_otHours := dp2 (lin_otHours i),
     pln_otRate := map_option dp2 (ot_rate j), pln_otAmount := ot_amount j, pln_tipAmount := round2 (or_zero (lin_tipAmount j)),
     pln_baseGross := base_gross j, pln_deductions := round2 (lin_deductions j),
     pln_gross := la_gross (computeLineAmounts j), pln_net := la_net (computeLineAmounts j),
     pln_payMethod := (if uld_payMethod u \<noteq> None then uld_payMethod u else pln_payMethod l),
     pln_notes := (case uld_notes u of None \<Rightarrow> pln_notes l | Some t \<Rightarrow> trim_or_null (Some t))\<rparr>"
    unfolding updated_line_def Let_def i_def [symmetric] j_def [symmetric] by simp
  have "nonneg_opt (pln_basePay l)" using l by (simp add: line_wf_def)
  moreover have "0 \<le> round2 (or_zero (lin_tipAmount j))" "0 \<le> round2 (lin_deductions j)" "0 \<le> dp2 (lin_otHours i)"
    using j(6,7) i(5) by (simp_all add: js_round_nonneg round_nonneg)
  ultimately show ?thesis
    using computeLineAmounts_parts [of j]
      base_gross_nonneg [OF j(1,2)] ot_amount_nonneg [OF j(1,3,4)]
      nonneg_opt_dp2 [OF i(2)] nonneg_opt_dp2 [OF ot_rate_nonneg [OF j(1,3)]]
    unfolding eq line_wf_def by (auto intro!: scaled_add scaled_diff cents_max)
qed

text \<open>How the steps change the tables.\<close>

lemma same_key: "distinct (map key rs) \<Longrightarrow> a \<in> set rs \<Longrightarrow> b \<in> set rs \<Longrightarrow> key a = key b \<Longrightarrow> a = b"
  by (auto simp: distinct_map dest: inj_onD)

lemma set_run_simps [simp]:
  "pay_lines (set_run r f d) = pay_lines d" "pay_next (set_run r f d) = pay_next d"
  "pay_members (set_run r f d) = pay_members d" "pay_runs (set_run r f d) = update_id run_id r f (pay_runs d)"
  by (simp_all add: set_run_def)

lemma refreshRunTotals_simps [simp]:
  "pay_lines (refreshRunTotals r d) = pay_lines d" "pay_next (refreshRunTotals r d) = pay_next d"
  "pay_members (refreshRunTotals r d) = pay_members d"
  by (simp_all add: refreshRunTotals_def Let_def)

definition with_totals :: "payroll_line list \<Rightarrow> payroll_run \<Rightarrow> payroll_run" where
  "with_totals ls x = (let total = (\<lambda>f. sum_list (map f (filter (\<lambda>l. pln_runId l = run_id x) ls)))
     in x\<lparr>run_totalGross := total pln_gross, run_totalOt := total pln_otAmount,
          run_totalTips := total pln_tipAmount, run_totalDeductions := total pln_deductions,
          run_totalNet := total pln_net\<rparr>)"

lemma refreshRunTotals_runs:
  "pay_runs (refreshRunTotals r d) = update_id run_id r (with_totals (pay_lines d)) (pay_runs d)"
  by (auto simp: refreshRunTotals_def with_totals_def lines_of_def update_id_def update_many_def Let_def)

lemma with_totals_simps [simp]:
  "run_id (with_totals ls x) = run_id x" "run_tenantId (with_totals ls x) = run_tenantId x"
  "run_status (with_totals ls x) = run_status x" "totals_match ls (with_totals ls x)"
  by (simp_all add: with_totals_def totals_match_def Let_def)

lemma find_run_Some:
  "find_run c r d = Some x \<Longrightarrow> x \<in> set (pay_runs d) \<and> run_id x = r \<and> run_tenantId x = tenant_of c"
  by (auto simp: find_run_def dest: find_Some_in)

text \<open>
  One shape covers the operations on an existing run: the lines of other runs stay, so do the
  other runs; what has to be shown is that the new row of the run fits the new lines.
\<close>

lemma payroll_wf_write:
  assumes wf: "payroll_wf d" and x: "x \<in> set (pay_runs d)" and r: "run_id x = r"
    and f: "run_id (f x) = r"
    and runs: "pay_runs d' = update_id run_id r f (pay_runs d)"
    and ids: "map pln_id (pay_lines d') = map pln_id (pay_lines d)"
    and rids: "map pln_runId (pay_lines d') = map pln_runId (pay_lines d)"
    and lines: "\<And>l. l \<in> set (pay_lines d') \<Longrightarrow> line_wf l"
    and others: "\<And>q. q \<noteq> r \<Longrightarrow> filter (\<lambda>l. pln_runId l = q) (pay_lines d') = filter (\<lambda>l. pln_runId l = q) (pay_lines d)"
    and new: "run_wf (pay_lines d') (f x)"
    and rest: "pay_next d' = pay_next d" "pay_members d' = pay_members d"
  shows "payroll_wf d'"
proof -
  have dr: "distinct (map run_id (pay_runs d))" using wf by (simp add: payroll_wf_def)
  have one: "y = x" if "y \<in> set (pay_runs d)" "run_id y = r" for y
    using same_key [OF dr that(1) x] that(2) r by simp
  have upd: "update_id run_id r f (pay_runs d) = update_id run_id r (\<lambda>y. f x) (pay_runs d)"
    unfolding update_id_def update_many_def by (rule map_cong) (auto dest: one)
  have keys: "map run_id (pay_runs d') = map run_id (pay_runs d)"
    unfolding runs upd using f by (auto simp: update_id_def update_many_def)
  have "run_wf (pay_lines d') y" if y: "y \<in> set (pay_runs d')" for y
  proof (cases "run_id y = r")
    case True
    then have "y = f x" using y f unfolding runs upd by (auto dest: set_update_id)
    with new show ?thesis by simp
  next
    case False
    then have "y \<in> set (pay_runs d)" using y f unfolding runs upd by (auto dest: set_update_id)
    then have old: "run_wf (pay_lines d) y" using wf by (auto simp: payroll_wf_def list_all_iff)
    have same: "l \<in> set (pay_lines d') \<and> pln_runId l = run_id y \<longleftrightarrow> l \<in> set (pay_lines d) \<and> pln_runId l = run_id y" for l
      using arg_cong [OF others [OF False], of set] by auto
    show ?thesis using old others [OF False] same by (auto simp: run_wf_def totals_match_def)
  qed
  moreover have "\<forall>l \<in> set (pay_lines d'). pln_id l < pay_next d \<and> pln_runId l < pay_next d"
  proof -
    have "\<forall>i \<in> set (map pln_id (pay_lines d)). i < pay_next d" "\<forall>i \<in> set (map pln_runId (pay_lines d)). i < pay_next d"
      using wf by (auto simp: payroll_wf_def list_all_iff)
    then show ?thesis unfolding ids [symmetric] rids [symmetric] by auto
  qed
  moreover have "\<forall>y \<in> set (pay_runs d'). run_id y < pay_next d"
  proof -
    have "\<forall>i \<in> set (map run_id (pay_runs d)). i < pay_next d" using wf by (auto simp: payroll_wf_def list_all_iff)
    then show ?thesis unfolding keys [symmetric] by auto
  qed
  ultimately show ?thesis using wf lines by (simp add: payroll_wf_def list_all_iff keys ids rest)
qed

lemma update_id_twice:
  "(\<And>x. key (f x) = key x) \<Longrightarrow> update_id key i g (update_id key i f rs) = update_id key i (\<lambda>x. g (f x)) rs"
  by (simp add: update_id_def update_many_def)

lemma filter_map_other:
  assumes "\<And>x. key (g x) = key x" and "\<And>x. x \<in> set xs \<Longrightarrow> key x = q \<Longrightarrow> g x = x"
  shows "filter (\<lambda>x. key x = q) (map g xs) = filter (\<lambda>x. key x = q) xs"
  using assms by (induction xs) auto

lemma totals_match_map:
  assumes "\<And>l. pln_runId (g l) = pln_runId l \<and> pln_gross (g l) = pln_gross l \<and> pln_otAmount (g l) = pln_otAmount l \<and>
     pln_tipAmount (g l) = pln_tipAmount l \<and> pln_deductions (g l) = pln_deductions l \<and> pln_net (g l) = pln_net l"
  shows "totals_match (map g ls) x = totals_match ls x"
  using assms by (simp add: totals_match_def filter_map comp_def)

lemma updateLine_inv:
  assumes "updateLine e c r lid u d = Inr (res, d')"
  obtains x l where "x \<in> set (pay_runs d)" "run_id x = r" "run_tenantId x = tenant_of c"
    "run_status x \<noteq> PR_PAID" "l \<in> set (pay_lines d)" "pln_id l = lid" "pln_runId l = r" "pln_paidAt l = None"
    "pay_lines d' = update_id pln_id lid (updated_line u) (pay_lines d)"
    "pay_runs d' = update_id run_id r (\<lambda>y. with_totals (pay_lines d')
       (if run_status x = PR_APPROVED then y\<lparr>run_status := PR_DRAFT, run_approvedAt := None, run_approvedBy := None\<rparr> else y))
       (pay_runs d)"
    "pay_next d' = pay_next d" "pay_members d' = pay_members d"
proof -
  obtain x where x: "find_run c r d = Some x" "run_status x \<noteq> PR_PAID"
    using assms by (auto simp: updateLine_def split: option.splits if_splits)
  obtain l where l: "find (\<lambda>l. pln_id l = lid \<and> pln_runId l = r \<and> pln_tenantId l = tenant_of c) (pay_lines d) = Some l"
    "pln_paidAt l = None"
    using assms by (auto simp: updateLine_def split: option.splits if_splits)
  let ?d1 = "d\<lparr>pay_lines := update_id pln_id lid (updated_line u) (pay_lines d)\<rparr>"
  have d': "d' = refreshRunTotals r (if run_status x = PR_APPROVED
      then set_run r (\<lambda>y. y\<lparr>run_status := PR_DRAFT, run_approvedAt := None, run_approvedBy := None\<rparr>) ?d1 else ?d1)"
    using assms x l by (auto simp: updateLine_def Let_def split: if_splits)
  show thesis
  proof (rule that [of x l])
    show "pay_runs d' = update_id run_id r (\<lambda>y. with_totals (pay_lines d')
       (if run_status x = PR_APPROVED then y\<lparr>run_status := PR_DRAFT, run_approvedAt := None, run_approvedBy := None\<rparr> else y))
       (pay_runs d)"
      by (simp add: d' refreshRunTotals_runs update_id_twice)
  qed (use find_run_Some [OF x(1)] find_Some_in [OF l(1)] x l in \<open>simp_all add: d'\<close>)
qed

lemma updateLine_wf:
  assumes wf: "payroll_wf d" and u: "valid_update u" and op: "updateLine e c r lid u d = Inr (res, d')"
  shows "payroll_wf d'"
proof -
  obtain x l where x: "x \<in> set (pay_runs d)" "run_id x = r" "run_tenantId x = tenant_of c" "run_status x \<noteq> PR_PAID"
    and l: "l \<in> set (pay_lines d)" "pln_id l = lid" "pln_runId l = r" "pln_paidAt l = None"
    and d': "pay_lines d' = update_id pln_id lid (updated_line u) (pay_lines d)"
      "pay_runs d' = update_id run_id r (\<lambda>y. with_totals (pay_lines d')
         (if run_status x = PR_APPROVED then y\<lparr>run_status := PR_DRAFT, run_approvedAt := None, run_approvedBy := None\<rparr> else y))
         (pay_runs d)"
      "pay_next d' = pay_next d" "pay_members d' = pay_members d"
    by (rule updateLine_inv [OF op])
  have dl: "distinct (map pln_id (pay_lines d))" and lw: "\<And>l. l \<in> set (pay_lines d) \<Longrightarrow> line_wf l"
    and xw: "run_wf (pay_lines d) x"
    using wf x(1) by (auto simp: payroll_wf_def list_all_iff)
  have one: "y = l" if "y \<in> set (pay_lines d)" "pln_id y = lid" for y
    using same_key [OF dl that(1) l(1)] that(2) l(2) by simp
  show ?thesis
  proof (rule payroll_wf_write [OF wf x(1,2) _ d'(2)])
    show "map pln_id (pay_lines d') = map pln_id (pay_lines d)"
      "map pln_runId (pay_lines d') = map pln_runId (pay_lines d)"
      by (auto simp: d'(1) update_id_def update_many_def)
    show "filter (\<lambda>l. pln_runId l = q) (pay_lines d') = filter (\<lambda>l. pln_runId l = q) (pay_lines d)" if "q \<noteq> r" for q
      unfolding d'(1) update_id_def update_many_def
      by (rule filter_map_other [where key = pln_runId]) (use one l(3) that in auto)
    show "line_wf y" if "y \<in> set (pay_lines d')" for y
      using that lw updated_line_wf [OF _ u] unfolding d'(1) by (auto dest: set_update_id)
    have "pln_tenantId y = tenant_of c" if "y \<in> set (pay_lines d')" "pln_runId y = r" for y
      using that xw x unfolding d'(1) by (auto simp: run_wf_def dest!: set_update_id)
    then show "run_wf (pay_lines d') (with_totals (pay_lines d')
         (if run_status x = PR_APPROVED then x\<lparr>run_status := PR_DRAFT, run_approvedAt := None, run_approvedBy := None\<rparr> else x))"
      using x by (simp add: run_wf_def)
  qed (use x d' in simp_all)
qed

lemma approveRun_wf:
  assumes wf: "payroll_wf d" and op: "approveRun e c r d = Inr (res, d')"
  shows "payroll_wf d'"
proof -
  obtain x where x: "find_run c r d = Some x" "run_status x \<noteq> PR_PAID"
    and d': "d' = set_run r (\<lambda>y. y\<lparr>run_status := PR_APPROVED, run_approvedAt := Some (env_now e),
       run_approvedBy := ax_staffMembershipId c\<rparr>) (refreshRunTotals r d)"
    using op by (simp add: approveRun_def Let_def split: option.splits if_splits)
  note x' = find_run_Some [OF x(1)]
  have lw: "\<And>l. l \<in> set (pay_lines d) \<Longrightarrow> line_wf l" and xw: "run_wf (pay_lines d) x"
    using wf x' by (auto simp: payroll_wf_def list_all_iff)
  have m: "totals_match ls (y\<lparr>run_status := s, run_approvedAt := a, run_approvedBy := b\<rparr>) = totals_match ls y" for ls y s a b
    by (simp add: totals_match_def)
  show ?thesis
  proof (rule payroll_wf_write [OF wf, where r = r and x = x and
      f = "\<lambda>y. (with_totals (pay_lines d) y)\<lparr>run_status := PR_APPROVED, run_approvedAt := Some (env_now e), run_approvedBy := ax_staffMembershipId c\<rparr>"])
    show "run_wf (pay_lines d') ((with_totals (pay_lines d) x)\<lparr>run_status := PR_APPROVED,
        run_approvedAt := Some (env_now e), run_approvedBy := ax_staffMembershipId c\<rparr>)"
      using xw by (simp add: run_wf_def d' m)
  qed (use x' lw in \<open>simp_all add: d' refreshRunTotals_runs update_id_twice\<close>)
qed

lemma paid_run_simps [simp]:
  "run_id (paid_run e c x y) = run_id y" "run_tenantId (paid_run e c x y) = run_tenantId y"
  "run_totalGross (paid_run e c x y) = run_totalGross y" "run_totalOt (paid_run e c x y) = run_totalOt y"
  "run_totalTips (paid_run e c x y) = run_totalTips y" "run_totalDeductions (paid_run e c x y) = run_totalDeductions y"
  "run_totalNet (paid_run e c x y) = run_totalNet y" "run_status (paid_run e c x y) = PR_PAID"
  "run_id (partly_paid_run e c y) = run_id y" "run_tenantId (partly_paid_run e c y) = run_tenantId y"
  "run_totalGross (partly_paid_run e c y) = run_totalGross y" "run_totalOt (partly_paid_run e c y) = run_totalOt y"
  "run_totalTips (partly_paid_run e c y) = run_totalTips y"
  "run_totalDeductions (partly_paid_run e c y) = run_totalDeductions y"
  "run_totalNet (partly_paid_run e c y) = run_totalNet y" "run_status (partly_paid_run e c y) = PR_APPROVED"
  by (simp_all add: paid_run_def partly_paid_run_def Let_def)

lemma markPaid_inv:
  assumes "markPaid e c r ids m d = Inr (res, d')"
  obtains x S f where "x \<in> set (pay_runs d)" "run_id x = r" "run_tenantId x = tenant_of c"
    "run_status x \<noteq> PR_PAID" "\<forall>l \<in> set (pay_lines d). pln_id l \<in> S \<longrightarrow> (\<exists>k \<in> set (pay_lines d). pln_id k = pln_id l \<and> pln_runId k = r \<and> pln_paidAt k = None)"
    "pay_lines d' = map (\<lambda>l. if pln_id l \<in> S then l\<lparr>pln_paidAt := Some (env_now e), pln_payMethod := Some (or_else m ''CASH'')\<rparr> else l) (pay_lines d)"
    "pay_runs d' = update_id run_id r f (pay_runs d)" "pay_next d' = pay_next d" "pay_members d' = pay_members d"
    "f \<in> {paid_run e c x, partly_paid_run e c, \<lambda>y. y}"
    "(\<exists>l \<in> set (pay_lines d'). pln_runId l = r \<and> pln_paidAt l = None) \<longrightarrow> f \<noteq> paid_run e c x"
proof -
  obtain x where x: "find_run c r d = Some x" "run_status x \<noteq> PR_PAID" "run_status x \<noteq> PR_CANCELLED"
    using assms by (auto simp: markPaid_def split: option.splits if_splits)
  let ?S = "pln_id ` set (filter (payable_line c r ids) (pay_lines d))"
  let ?L = "map (\<lambda>l. if pln_id l \<in> ?S then l\<lparr>pln_paidAt := Some (env_now e), pln_payMethod := Some (or_else m ''CASH'')\<rparr> else l) (pay_lines d)"
  let ?d1 = "d\<lparr>pay_lines := ?L\<rparr>"
  let ?rem = "count_where (\<lambda>l. pln_paidAt l = None) (lines_of r ?d1)"
  define f where "f = (if ?rem = 0 then paid_run e c x else if run_status x = PR_DRAFT then partly_paid_run e c else (\<lambda>y. y))"
  have d': "d' = (if ?rem = 0 then set_run r (paid_run e c x) ?d1
      else if run_status x = PR_DRAFT then set_run r (partly_paid_run e c) ?d1 else ?d1)"
    using assms x by (auto simp: markPaid_def Let_def update_many_def split: if_splits)
  have idid: "update_id run_id r (\<lambda>y. y) rs = rs" for rs
    by (simp add: update_id_def update_many_def)
  show thesis
  proof (rule that [of x ?S f])
    show "pay_runs d' = update_id run_id r f (pay_runs d)" by (simp add: d' f_def idid)
    show "(\<exists>l \<in> set (pay_lines d'). pln_runId l = r \<and> pln_paidAt l = None) \<longrightarrow> f \<noteq> paid_run e c x"
    proof
      assume that: "\<exists>l \<in> set (pay_lines d'). pln_runId l = r \<and> pln_paidAt l = None"
      have "pay_lines d' = ?L" by (simp add: d')
      with that have "\<exists>l \<in> set ?L. pln_runId l = r \<and> pln_paidAt l = None" by (simp only:)
      then obtain l where "l \<in> set ?L" "pln_runId l = r" "pln_paidAt l = None" by (elim bexE conjE)
      then have "l \<in> set (filter (\<lambda>l. pln_paidAt l = None) (lines_of r ?d1))"
        by (simp add: lines_of_def del: set_map)
      then have ne: "?rem \<noteq> 0" by (auto simp: count_where_def simp del: set_filter)
      have "paid_run e c x x \<noteq> partly_paid_run e c x \<and> paid_run e c x x \<noteq> x"
        using x(2) by (auto dest: arg_cong [where f = run_status])
      with ne show "f \<noteq> paid_run e c x" by (auto simp: f_def dest: fun_cong [where x = x])
    qed
  qed (use find_run_Some [OF x(1)] x in \<open>auto simp: d' f_def payable_line_def\<close>)
qed

lemma line_wf_pay: "line_wf (l\<lparr>pln_paidAt := t, pln_payMethod := m\<rparr>) = line_wf l"
  by (simp add: line_wf_def)

lemma markPaid_wf:
  assumes wf: "payroll_wf d" and op: "markPaid e c r ids m d = Inr (res, d')"
  shows "payroll_wf d'"
proof -
  obtain x S f where x: "x \<in> set (pay_runs d)" "run_id x = r" "run_tenantId x = tenant_of c"
    "run_status x \<noteq> PR_PAID" and S: "\<forall>l \<in> set (pay_lines d). pln_id l \<in> S \<longrightarrow> (\<exists>k \<in> set (pay_lines d). pln_id k = pln_id l \<and> pln_runId k = r \<and> pln_paidAt k = None)"
    and d': "pay_lines d' = map (\<lambda>l. if pln_id l \<in> S then l\<lparr>pln_paidAt := Some (env_now e), pln_payMethod := Some (or_else m ''CASH'')\<rparr> else l) (pay_lines d)"
      "pay_runs d' = update_id run_id r f (pay_runs d)" "pay_next d' = pay_next d" "pay_members d' = pay_members d"
    and f: "f \<in> {paid_run e c x, partly_paid_run e c, \<lambda>y. y}"
      "(\<exists>l \<in> set (pay_lines d'). pln_runId l = r \<and> pln_paidAt l = None) \<longrightarrow> f \<noteq> paid_run e c x"
    by (rule markPaid_inv [OF op])
  have dl: "distinct (map pln_id (pay_lines d))" and lw: "\<And>l. l \<in> set (pay_lines d) \<Longrightarrow> line_wf l"
    and xw: "run_wf (pay_lines d) x"
    using wf x(1) by (auto simp: payroll_wf_def list_all_iff)
  have run: "pln_runId l = r" if "l \<in> set (pay_lines d)" "pln_id l \<in> S" for l
    using S that same_key [OF dl _ that(1)] by blast
  have tm: "totals_match ls (f y) = totals_match ls y" "run_id (f y) = run_id y" "run_tenantId (f y) = run_tenantId y" for ls y
    using f(1) by (auto simp: totals_match_def)
  have tl: "totals_match (pay_lines d') y = totals_match (pay_lines d) y" for y
    unfolding d'(1) by (rule totals_match_map) simp
  show ?thesis
  proof (rule payroll_wf_write [OF wf x(1,2) _ d'(2)])
    show "map pln_id (pay_lines d') = map pln_id (pay_lines d)"
      "map pln_runId (pay_lines d') = map pln_runId (pay_lines d)"
      by (auto simp: d'(1))
    show "filter (\<lambda>l. pln_runId l = q) (pay_lines d') = filter (\<lambda>l. pln_runId l = q) (pay_lines d)" if "q \<noteq> r" for q
      unfolding d'(1) by (rule filter_map_other [where key = pln_runId]) (use run that in auto)
    show "line_wf y" if "y \<in> set (pay_lines d')" for y
      using that lw line_wf_pay unfolding d'(1) by auto
    have ten: "pln_tenantId y = tenant_of c" if "y \<in> set (pay_lines d')" "pln_runId y = r" for y
      using that xw x unfolding d'(1) by (auto simp: run_wf_def split: if_splits)
    have "(\<exists>l \<in> set (pay_lines d'). pln_runId l = r \<and> pln_paidAt l = None) \<longrightarrow> run_status (f x) \<noteq> PR_PAID"
      using f x(4) by auto
    then have "\<forall>l \<in> set (pay_lines d'). pln_runId l = r \<longrightarrow> run_status (f x) = PR_PAID \<longrightarrow> pln_paidAt l \<noteq> None"
      by auto
    then show "run_wf (pay_lines d') (f x)"
      using xw ten x(2,3) by (simp add: run_wf_def tm tl)
  qed (use x d' tm in simp_all)
qed

text \<open>A new run has its own lines only, all of them unpaid.\<close>

definition new_line :: "id \<Rightarrow> id \<Rightarrow> payroll_line \<Rightarrow> bool" where
  "new_line r t l \<longleftrightarrow> pln_runId l = r \<and> pln_tenantId l = t \<and> pln_paidAt l = None \<and> line_wf l"

lemma fold_add_line:
  assumes "list_all (\<lambda>m. nonneg_opt (pm_basePay m)) ms"
  obtains ls where
    "fold (add_line e c r ps pe) ms d = d\<lparr>pay_lines := pay_lines d @ ls, pay_next := pay_next d + length ls\<rparr>"
    "map pln_id ls = [pay_next d ..< pay_next d + length ls]" "list_all (new_line r (tenant_of c)) ls"
  using assms
proof (induction ms arbitrary: d thesis)
  case Nil
  from Nil.prems(1) [of "[]"] show ?case by simp
next
  case (Cons m ms)
  let ?l = "member_line e c r ps pe d m (pay_next d)"
  obtain ls where ls: "fold (add_line e c r ps pe) ms (add_line e c r ps pe m d) =
      (add_line e c r ps pe m d)\<lparr>pay_lines := pay_lines (add_line e c r ps pe m d) @ ls,
         pay_next := pay_next (add_line e c r ps pe m d) + length ls\<rparr>"
    "map pln_id ls = [pay_next (add_line e c r ps pe m d) ..< pay_next (add_line e c r ps pe m d) + length ls]"
    "list_all (new_line r (tenant_of c)) ls"
    using Cons.IH [of "add_line e c r ps pe m d"] Cons.prems(2) by auto
  show ?case
  proof (rule Cons.prems(1) [of "?l # ls"])
    show "list_all (new_line r (tenant_of c)) (?l # ls)"
      using ls(3) Cons.prems(2) by (simp add: new_line_def member_line_wf)
    show "map pln_id (?l # ls) = [pay_next d ..< pay_next d + length (?l # ls)]"
      using ls(2) by (simp add: add_line_def upt_conv_Cons del: upt_Suc)
    show "fold (add_line e c r ps pe) (m # ms) d =
       d\<lparr>pay_lines := pay_lines d @ ?l # ls, pay_next := pay_next d + length (?l # ls)\<rparr>"
      using ls(1) by (simp add: add_line_def)
  qed
qed

lemma createRun_inv:
  assumes wf: "payroll_wf d" and op: "createRun e c dto d = Inr (res, d')"
  obtains x ls where "pay_runs d' = pay_runs d @ [with_totals (pay_lines d') x]" "run_id x = pay_next d"
    "run_status x = PR_DRAFT" "run_tenantId x = tenant_of c"
    "pay_lines d' = pay_lines d @ ls" "map pln_id ls = [Suc (pay_next d) ..< Suc (pay_next d) + length ls]"
    "list_all (new_line (pay_next d) (tenant_of c)) ls" "pay_next d' = Suc (pay_next d) + length ls"
    "pay_members d' = pay_members d"
proof -
  obtain b ps pe where d': "d' = generateLines e c (pay_next d) ps pe b
      (d\<lparr>pay_runs := pay_runs d @ [new_run e c b ps pe (crd_label dto) (pay_next d)], pay_next := pay_next d + 1\<rparr>)"
    using op by (cases "crd_periodStart dto"; cases "crd_periodEnd dto")
      (auto simp: createRun_def Let_def split: if_splits)
  let ?x = "new_run e c b ps pe (crd_label dto) (pay_next d)"
  let ?d1 = "d\<lparr>pay_runs := pay_runs d @ [?x], pay_next := pay_next d + 1\<rparr>"
  have "list_all (\<lambda>m. nonneg_opt (pm_basePay m)) (paid_members c b ?d1)"
    using wf by (auto simp: payroll_wf_def paid_members_def list_all_iff)
  then obtain ls where ls: "fold (add_line e c (pay_next d) ps pe) (paid_members c b ?d1) ?d1 =
      ?d1\<lparr>pay_lines := pay_lines ?d1 @ ls, pay_next := pay_next ?d1 + length ls\<rparr>"
    "map pln_id ls = [pay_next ?d1 ..< pay_next ?d1 + length ls]" "list_all (new_line (pay_next d) (tenant_of c)) ls"
    by (rule fold_add_line)
  have d'': "d' = refreshRunTotals (pay_next d) (?d1\<lparr>pay_lines := pay_lines ?d1 @ ls, pay_next := pay_next ?d1 + length ls\<rparr>)"
    unfolding d' generateLines_def ls(1) ..
  have new: "run_id ?x = pay_next d" by (simp add: new_run_def)
  have "pay_next d \<notin> run_id ` set (pay_runs d)" using wf by (auto simp: payroll_wf_def list_all_iff)
  then have "update_id run_id (pay_next d) f (pay_runs d) = pay_runs d" for f by (rule update_id_id)
  then have "pay_runs d' = pay_runs d @ [with_totals (pay_lines d') ?x]"
    using new unfolding d'' refreshRunTotals_runs by (simp add: update_id_def update_many_def)
  then show thesis
    by (rule that) (use new ls in \<open>simp_all add: d'' new_run_def\<close>)
qed

lemma createRun_wf:
  assumes wf: "payroll_wf d" and op: "createRun e c dto d = Inr (res, d')"
  shows "payroll_wf d'"
proof -
  obtain x ls where x: "pay_runs d' = pay_runs d @ [with_totals (pay_lines d') x]" "run_id x = pay_next d"
    "run_status x = PR_DRAFT" "run_tenantId x = tenant_of c"
    and ls: "pay_lines d' = pay_lines d @ ls" "map pln_id ls = [Suc (pay_next d) ..< Suc (pay_next d) + length ls]"
    "list_all (new_line (pay_next d) (tenant_of c)) ls"
    and d': "pay_next d' = Suc (pay_next d) + length ls" "pay_members d' = pay_members d"
    by (rule createRun_inv [OF assms])
  have old: "\<forall>y \<in> set (pay_runs d). run_id y < pay_next d"
    "\<forall>l \<in> set (pay_lines d). pln_id l < pay_next d \<and> pln_runId l < pay_next d \<and> line_wf l"
    "\<forall>y \<in> set (pay_runs d). run_wf (pay_lines d) y"
    using wf by (simp_all add: payroll_wf_def list_all_iff)
  have ids: "pln_id ` set ls = {Suc (pay_next d) ..< Suc (pay_next d) + length ls}"
    using arg_cong [OF ls(2), of set] by (simp del: upt_Suc)
  have "pln_id l < pay_next d'" if "l \<in> set ls" for l
    using imageI [OF that, of pln_id] unfolding ids d'(1) by simp
  then have lines: "list_all (\<lambda>l. pln_id l < pay_next d' \<and> pln_runId l < pay_next d' \<and> line_wf l) (pay_lines d')"
    using old(2) ls(3) by (fastforce simp: ls(1) d'(1) list_all_iff new_line_def)
  have dist: "distinct (map pln_id (pay_lines d'))"
    using wf old(2) ids ls(2) by (auto simp: ls(1) payroll_wf_def simp flip: distinct_map)
  have "run_wf (pay_lines d') y" if "y \<in> set (pay_runs d)" for y
    using old that ls(3) by (fastforce simp: run_wf_def totals_match_def ls(1) list_all_iff new_line_def filter_empty_conv)
  moreover have "run_wf (pay_lines d') (with_totals (pay_lines d') x)"
    using x old(2) ls(3) by (fastforce simp: run_wf_def ls(1) list_all_iff new_line_def)
  ultimately show ?thesis
    using wf old(1) x(1,2) lines dist d' by (auto simp: payroll_wf_def list_all_iff)
qed

lemma payroll_step_wf: "payroll_step d d' \<Longrightarrow> payroll_wf d \<Longrightarrow> payroll_wf d'"
  by (induction rule: payroll_step.induct)
     (blast intro: createRun_wf updateLine_wf approveRun_wf markPaid_wf)+

lemma payroll_steps_wf: "payroll_step\<^sup>*\<^sup>* d d' \<Longrightarrow> payroll_wf d \<Longrightarrow> payroll_wf d'"
  by (induction rule: rtranclp_induct) (blast intro: payroll_step_wf)+

text \<open>What was paid is left alone: the line itself, and the run all of whose lines are paid.\<close>

definition paid_line_in :: "payroll_line \<Rightarrow> payroll_db \<Rightarrow> bool" where
  "paid_line_in l d \<longleftrightarrow> l \<in> set (pay_lines d) \<and> pln_paidAt l \<noteq> None"

definition paid_run_in :: "payroll_run \<Rightarrow> payroll_db \<Rightarrow> bool" where
  "paid_run_in x d \<longleftrightarrow> x \<in> set (pay_runs d) \<and> run_status x = PR_PAID"

lemma update_id_keeps: "y \<in> set rs \<Longrightarrow> key y \<noteq> i \<Longrightarrow> y \<in> set (update_id key i f rs)"
  by (force simp: update_id_def update_many_def)

lemma other_run_kept:
  assumes "payroll_wf d" "x \<in> set (pay_runs d)" "run_id x = r" "run_status x \<noteq> PR_PAID" "paid_run_in y d"
    "pay_runs d' = update_id run_id r f (pay_runs d)"
  shows "paid_run_in y d'"
proof -
  have "distinct (map run_id (pay_runs d))" using assms(1) by (simp add: payroll_wf_def)
  then have "run_id y \<noteq> r"
    using assms(2-5) same_key [of run_id "pay_runs d" y x] by (auto simp: paid_run_in_def)
  then show ?thesis using assms(5,6) by (simp add: paid_run_in_def update_id_keeps)
qed

lemma payroll_step_keeps:
  assumes "payroll_step d d'" and wf: "payroll_wf d"
  shows "(paid_line_in l d \<longrightarrow> paid_line_in l d') \<and> (paid_run_in y d \<longrightarrow> paid_run_in y d')"
  using assms(1)
proof cases
  case (create e c dto res)
  then show ?thesis by (elim createRun_inv [OF wf]) (simp add: paid_line_in_def paid_run_in_def)
next
  case (update u e c r lid res)
  obtain x k where x: "x \<in> set (pay_runs d)" "run_id x = r" "run_tenantId x = tenant_of c" "run_status x \<noteq> PR_PAID"
    and k: "k \<in> set (pay_lines d)" "pln_id k = lid" "pln_runId k = r" "pln_paidAt k = None"
    and d': "pay_lines d' = update_id pln_id lid (updated_line u) (pay_lines d)"
      "pay_runs d' = update_id run_id r (\<lambda>y. with_totals (pay_lines d')
         (if run_status x = PR_APPROVED then y\<lparr>run_status := PR_DRAFT, run_approvedAt := None, run_approvedBy := None\<rparr> else y))
         (pay_runs d)"
      "pay_next d' = pay_next d" "pay_members d' = pay_members d"
    by (rule updateLine_inv [OF update(2)])
  have "distinct (map pln_id (pay_lines d))" using wf by (simp add: payroll_wf_def)
  then have "pln_id l \<noteq> lid" if "paid_line_in l d"
    using that k same_key [of pln_id "pay_lines d" l k] by (auto simp: paid_line_in_def)
  then show ?thesis
    using other_run_kept [OF wf x(1,2,4) _ d'(2)] by (auto simp: paid_line_in_def d'(1) update_id_keeps)
next
  case (approve e c r res)
  obtain x where x: "find_run c r d = Some x" "run_status x \<noteq> PR_PAID"
    and d': "d' = set_run r (\<lambda>y. y\<lparr>run_status := PR_APPROVED, run_approvedAt := Some (env_now e),
       run_approvedBy := ax_staffMembershipId c\<rparr>) (refreshRunTotals r d)"
    using approve by (auto simp: approveRun_def Let_def split: option.splits if_splits)
  have runs: "pay_runs d' = update_id run_id r (\<lambda>y. (with_totals (pay_lines d) y)\<lparr>run_status := PR_APPROVED,
       run_approvedAt := Some (env_now e), run_approvedBy := ax_staffMembershipId c\<rparr>) (pay_runs d)"
    by (simp add: d' refreshRunTotals_runs update_id_twice)
  show ?thesis using find_run_Some [OF x(1)] other_run_kept [OF wf _ _ x(2) _ runs]
    by (auto simp: d' paid_line_in_def)
next
  case (pay e c r ids m res)
  obtain x S f where x: "x \<in> set (pay_runs d)" "run_id x = r" "run_tenantId x = tenant_of c"
    "run_status x \<noteq> PR_PAID" and S: "\<forall>l \<in> set (pay_lines d). pln_id l \<in> S \<longrightarrow> (\<exists>k \<in> set (pay_lines d). pln_id k = pln_id l \<and> pln_runId k = r \<and> pln_paidAt k = None)"
    and d': "pay_lines d' = map (\<lambda>l. if pln_id l \<in> S then l\<lparr>pln_paidAt := Some (env_now e), pln_payMethod := Some (or_else m ''CASH'')\<rparr> else l) (pay_lines d)"
      "pay_runs d' = update_id run_id r f (pay_runs d)" "pay_next d' = pay_next d" "pay_members d' = pay_members d"
    and f: "f \<in> {paid_run e c x, partly_paid_run e c, \<lambda>y. y}"
      "(\<exists>l \<in> set (pay_lines d'). pln_runId l = r \<and> pln_paidAt l = None) \<longrightarrow> f \<noteq> paid_run e c x"
    by (rule markPaid_inv [OF pay])
  have dl: "distinct (map pln_id (pay_lines d))" using wf by (simp add: payroll_wf_def)
  have "pln_id l \<notin> S" if "paid_line_in l d"
  proof
    assume "pln_id l \<in> S"
    with that S obtain k where "k \<in> set (pay_lines d)" "pln_id k = pln_id l" "pln_paidAt k = None"
      by (auto simp: paid_line_in_def)
    with same_key [OF dl, of k l] that show False by (auto simp: paid_line_in_def)
  qed
  then have "paid_line_in l d'" if "paid_line_in l d"
    using that by (force simp: paid_line_in_def d'(1))
  then show ?thesis using other_run_kept [OF wf x(1,2,4) _ d'(2)] by blast
qed

lemma payroll_steps_keep:
  assumes "payroll_step\<^sup>*\<^sup>* d d'" and "payroll_wf d"
  shows "(paid_line_in l d \<longrightarrow> paid_line_in l d') \<and> (paid_run_in y d \<longrightarrow> paid_run_in y d')"
  using assms(1)
proof (induction rule: rtranclp_induct)
  case (step a b)
  then show ?case using payroll_step_keeps [OF step.hyps(2) payroll_steps_wf [OF step.hyps(1) assms(2)]] by blast
qed simp

section \<open>A month of payroll\<close>

text \<open>An owner, a cook on a salary and a waiter paid by the hour, with two evenings worked.\<close>

definition payroll_owner :: auth_ctx where
  "payroll_owner = staff_member 100 9 ''OWNER_ADMIN'' None 30 []"

definition payroll_day :: env where
  "payroll_day = evening\<lparr>env_now := 30 * ms_per_day\<rparr>"

definition worked :: "id \<Rightarrow> id \<Rightarrow> time \<Rightarrow> time \<Rightarrow> shift_session" where
  "worked i m from to = \<lparr>sh_id = i, sh_branchId = 2, sh_staff = m, sh_roleCode = None, sh_assignment = None,
     sh_scheduledStart = None, sh_scheduledEnd = None, sh_graceMinutes = 0, sh_clockInAt = from,
     sh_clockOutAt = Some to, sh_lateByMinutes = 0, sh_state = ''CLOSED'', sh_businessDate = 0, sh_version = 1\<rparr>"

definition staff_books :: payroll_db where
  "staff_books = \<lparr>pay_runs = [], pay_lines = [],
     pay_members =
       [\<lparr>pm_id = 12, pm_tenantId = 1, pm_status = ''ACTIVE'', pm_branches = [2], pm_name = ''Abebe'',
         pm_role = Some ''STATION'', pm_payType = None, pm_basePay = Some 9000\<rparr>,
        \<lparr>pm_id = 10, pm_tenantId = 1, pm_status = ''ACTIVE'', pm_branches = [2], pm_name = ''Sara'',
         pm_role = Some ''WAITER'', pm_payType = Some ''HOURLY'', pm_basePay = Some (61 / 2)\<rparr>],
     pay_shifts = [worked 1 10 (2 * ms_per_day) (2 * ms_per_day + 27000000),
                   worked 2 10 (3 * ms_per_day) (3 * ms_per_day + 25000000)],
     pay_next = 500\<rparr>"

definition this_month :: create_run_dto where
  "this_month = \<lparr>crd_periodStart = Some 0, crd_periodEnd = Some (29 * ms_per_day), crd_label = None, crd_branchId = None\<rparr>"

definition overtime :: update_line_dto where
  "overtime = \<lparr>uld_regularHours = None, uld_otHours = Some 3, uld_otRate = None, uld_otAmount = None,
     uld_tipAmount = None, uld_deductions = Some 20, uld_payMethod = None, uld_notes = None\<rparr>"

text \<open>The month that is made, corrected, approved and paid in two payments.\<close>

definition month_of_pay :: "payroll_db result" where
  "month_of_pay =
     bindR (createRun payroll_day payroll_owner this_month staff_books) (\<lambda>(_, d1).
     bindR (updateLine payroll_day payroll_owner 500 502 overtime d1) (\<lambda>(_, d2).
     bindR (approveRun payroll_day payroll_owner 500 d2) (\<lambda>(_, d3).
     bindR (markPaid payroll_day payroll_owner 500 (Some [501]) None d3) (\<lambda>(_, d4). Inr d4))))"

lemma month_of_pay_runs: "is_ok month_of_pay \<and> valid_update overtime"
  by code_simp

lemma month_of_pay_steps: "month_of_pay = Inr d \<Longrightarrow> payroll_step\<^sup>*\<^sup>* staff_books d"
  unfolding month_of_pay_def
  by (elim run_pairE, insert month_of_pay_runs, simp)
     (blast intro: payroll_step.intros converse_rtranclp_into_rtranclp rtranclp.rtrancl_refl)

lemma staff_books_wf: "payroll_wf staff_books"
  by code_simp

section \<open>Properties\<close>

text \<open>
  C9: the tables of payroll are well typed after every sequence of creations, corrections (with the
  numbers the validation admits), approvals and payments by anyone, from books without runs:
  the amounts of a line are in cents and not negative, its gross pay is base pay plus overtime
  plus tips, its net pay is what is left after the deductions and never negative, the totals of
  a run are the sums over its lines, and a run that counts as paid has no unpaid line.
\<close>

theorem payroll_stays_well_typed:
  assumes "pay_runs d = []" and "pay_lines d = []" and "\<forall>m \<in> set (pay_members d). nonneg_opt (pm_basePay m)"
    and "payroll_step\<^sup>*\<^sup>* d d'"
  shows "payroll_wf d' \<and>
    (\<forall>x \<in> set (pay_runs d'). run_totalNet x = sum_list (map pln_net (lines_of (run_id x) d')) \<and>
       (run_status x = PR_PAID \<longrightarrow> (\<forall>l \<in> set (lines_of (run_id x) d'). pln_paidAt l \<noteq> None)))"
proof -
  have "payroll_wf d" using assms(1-3) by (simp add: payroll_wf_def list_all_iff)
  then have wf: "payroll_wf d'" using assms(4) by (rule payroll_steps_wf [rotated])
  then have "\<forall>x \<in> set (pay_runs d'). run_wf (pay_lines d') x" by (simp add: payroll_wf_def list_all_iff)
  then show ?thesis using wf by (auto simp: run_wf_def totals_match_def lines_of_def Let_def)
qed

theorem payroll_stays_well_typed_witness:
  "\<exists>d. month_of_pay = Inr d \<and> payroll_wf d"
proof -
  obtain d where d: "month_of_pay = Inr d" using month_of_pay_runs by (auto simp: is_ok_iff)
  have "payroll_wf d"
    using payroll_stays_well_typed [OF _ _ _ month_of_pay_steps [OF d]] by (simp add: staff_books_def nonneg_opt_def)
  with d show ?thesis by blast
qed

text \<open>
  C20: what was paid stays as it was paid. Once a line is marked paid no later operation changes
  anything of it, not its amounts and not the time or the method of its payment; once a run is
  paid its row stays the same.
\<close>

theorem paid_wages_are_final:
  assumes "payroll_wf d" and "payroll_step\<^sup>*\<^sup>* d d'"
  shows "(l \<in> set (pay_lines d) \<and> pln_paidAt l \<noteq> None \<longrightarrow> l \<in> set (pay_lines d')) \<and>
         (x \<in> set (pay_runs d) \<and> run_status x = PR_PAID \<longrightarrow> x \<in> set (pay_runs d'))"
  using payroll_steps_keep [OF assms(2,1), of l x] by (auto simp: paid_line_in_def paid_run_in_def)

text \<open>The cook is paid first; then the rest of the run is, and the cook's line is as it was.\<close>

theorem paid_wages_are_final_witness:
  "\<exists>d a d' l. month_of_pay = Inr d \<and> markPaid payroll_day payroll_owner 500 None (Some ''BANK'') d = Inr (a, d') \<and>
     l \<in> set (pay_lines d) \<and> pln_paidAt l \<noteq> None \<and> l \<in> set (pay_lines d')"
proof -
  have run: "bindR month_of_pay (\<lambda>d. bindR (markPaid payroll_day payroll_owner 500 None (Some ''BANK'') d) (\<lambda>(a, d').
      Inr (list_ex (\<lambda>l. pln_paidAt l \<noteq> None) (pay_lines d), map run_status (pay_runs d')))) = Inr (True, [PR_PAID])"
    by code_simp
  then obtain d where d: "month_of_pay = Inr d" by (cases month_of_pay) auto
  have "bindR (markPaid payroll_day payroll_owner 500 None (Some ''BANK'') d) (\<lambda>(a, d').
      Inr (list_ex (\<lambda>l. pln_paidAt l \<noteq> None) (pay_lines d), map run_status (pay_runs d'))) = Inr (True, [PR_PAID])"
    using run unfolding d bindR_Inr .
  then obtain a d' where d': "markPaid payroll_day payroll_owner 500 None (Some ''BANK'') d = Inr (a, d')"
    and "list_ex (\<lambda>l. pln_paidAt l \<noteq> None) (pay_lines d)"
    by (elim run_pairE) simp
  then obtain l where l: "l \<in> set (pay_lines d)" "pln_paidAt l \<noteq> None" by (auto simp: list_ex_iff)
  have "payroll_wf d" using payroll_steps_wf [OF month_of_pay_steps [OF d] staff_books_wf] .
  moreover have "payroll_step\<^sup>*\<^sup>* d d'" using payroll_step.pay [OF d'] by (rule r_into_rtranclp)
  ultimately have "l \<in> set (pay_lines d')" using l paid_wages_are_final by blast
  then show ?thesis
    using d d' l by (intro exI [of _ d] exI [of _ a] exI [of _ d'] exI [of _ l] conjI)
qed

end
