(* ===== verification/Leave.thy ===== *)
theory Leave
  imports Payroll
begin

text \<open>
  Leave (\<open>src/hr/hr.service.ts\<close>): the leave types of a restaurant with the days everyone gets,
  the overrides of single members, the requests and the decisions on them, and the list of
  attendance. The service keeps its tables in \<open>leave_db\<close>; members and shift sessions are those of
  \<open>Schema\<close>. \<open>isOwner\<close> and \<open>resolveBranchId\<close> are the same as in \<open>Payroll\<close>. Most operations create
  the type ``Manual'' for a restaurant without types first; on a refused operation its creation
  is not shown.
\<close>

section \<open>Tables\<close>

datatype leave_status = L_PENDING | L_APPROVED | L_REJECTED | L_CANCELLED

record leave_type =
  lt_id :: id
  lt_tenantId :: id
  lt_name :: string
  lt_tracksBalance :: bool
  lt_defaultDays :: decimal
  lt_isDefault :: bool
  lt_isActive :: bool
  lt_sortOrder :: nat

record leave_balance =
  lb_tenantId :: id
  lb_staff :: id
  lb_type :: id
  lb_entitlement :: "decimal option"
  lb_balance :: decimal

record leave_request =
  lq_id :: id
  lq_tenantId :: id
  lq_branchId :: id
  lq_staff :: id
  lq_typeId :: "id option"
  lq_typeName :: string
  lq_startDate :: date
  lq_endDate :: date
  lq_days :: decimal
  lq_reason :: "string option"
  lq_status :: leave_status
  lq_decidedBy :: "id option"
  lq_decidedAt :: "time option"
  lq_decisionNote :: "string option"
  lq_createdAt :: time

record leave_db =
  lv_types :: "leave_type list"
  lv_balances :: "leave_balance list"
  lv_requests :: "leave_request list"
  lv_members :: "membership list"
  lv_shifts :: "shift_session list"
  lv_notices :: "(string \<times> id) list"
  lv_next :: id

section \<open>Guards and leave types\<close>

definition requireStaffManage :: "env \<Rightarrow> auth_ctx \<Rightarrow> unit result" where
  "requireStaffManage e c =
     (if ax_tenantId c = None then Inl (Forbidden ''No restaurant on this account.'')
      else if \<not> (can e c Act_manage Sub_Staff \<or> can e c Act_manage Sub_all)
      then Inl (Forbidden ''Staff HR is for managers and owners.'')
      else Inr ())"

definition requireStaffMember :: "auth_ctx \<Rightarrow> unit result" where
  "requireStaffMember c =
     (if ax_tenantId c = None \<or> ax_staffMembershipId c = None
      then Inl (Forbidden ''Staff account required.'') else Inr ())"

definition manual_type :: "id \<Rightarrow> id \<Rightarrow> leave_type" where
  "manual_type t i = \<lparr>lt_id = i, lt_tenantId = t, lt_name = ''Manual'', lt_tracksBalance = True,
     lt_defaultDays = 0, lt_isDefault = True, lt_isActive = True, lt_sortOrder = 0\<rparr>"

definition ensureLeaveTypes :: "id \<Rightarrow> leave_db \<Rightarrow> leave_db" where
  "ensureLeaveTypes t d =
     (if list_ex (\<lambda>y. lt_tenantId y = t) (lv_types d) then d
      else d\<lparr>lv_types := lv_types d @ [manual_type t (lv_next d)], lv_next := lv_next d + 1\<rparr>)"

text \<open>Types are listed by their order; among equals the collation of the name is left out.\<close>

definition types_of :: "auth_ctx \<Rightarrow> bool \<Rightarrow> leave_db \<Rightarrow> leave_type list" where
  "types_of c activeOnly d = sort_key lt_sortOrder
     (filter (\<lambda>y. lt_tenantId y = tenant_of c \<and> (activeOnly \<longrightarrow> lt_isActive y)) (lv_types d))"

definition listLeaveTypes :: "auth_ctx \<Rightarrow> bool \<Rightarrow> leave_db \<Rightarrow> (leave_type list \<times> leave_db) result" where
  "listLeaveTypes c activeOnly d =
     (if ax_tenantId c = None then Inl (Forbidden ''No restaurant on this account.'')
      else let d1 = ensureLeaveTypes (tenant_of c) d in Inr (types_of c activeOnly d1, d1))"

text \<open>The unique index on restaurant and name.\<close>

definition name_taken :: "id \<Rightarrow> string \<Rightarrow> id option \<Rightarrow> leave_db \<Rightarrow> bool" where
  "name_taken t n self d = list_ex (\<lambda>y. lt_tenantId y = t \<and> lt_name y = n \<and> Some (lt_id y) \<noteq> self) (lv_types d)"

definition createLeaveType ::
  "env \<Rightarrow> auth_ctx \<Rightarrow> string \<Rightarrow> decimal option \<Rightarrow> bool option \<Rightarrow> nat option \<Rightarrow> leave_db \<Rightarrow> (leave_type \<times> leave_db) result" where
  "createLeaveType e c name0 days0 tracks order d0 =
     bindR (requireStaffManage e c) (\<lambda>_.
       let d = ensureLeaveTypes (tenant_of c) d0; name = trim name0; defaultDays = or_zero days0
       in if name = [] then Inl (BadRequest ''Leave type name is required.'')
          else if name_taken (tenant_of c) name None d
          then Inl (Conflict ''A leave type with this name already exists.'')
          else let y = \<lparr>lt_id = lv_next d, lt_tenantId = tenant_of c, lt_name = name,
                        lt_tracksBalance = (case tracks of Some b \<Rightarrow> b | None \<Rightarrow> 0 < defaultDays),
                        lt_defaultDays = dp2 defaultDays, lt_isDefault = False, lt_isActive = True,
                        lt_sortOrder = (case order of Some n \<Rightarrow> n | None \<Rightarrow> 100)\<rparr>
               in Inr (y, d\<lparr>lv_types := lv_types d @ [y], lv_next := lv_next d + 1\<rparr>))"

record type_update =
  yu_name :: "string option"
  yu_defaultDays :: "decimal option"
  yu_tracksBalance :: "bool option"
  yu_isActive :: "bool option"
  yu_sortOrder :: "nat option"

definition updated_type :: "type_update \<Rightarrow> leave_type \<Rightarrow> leave_type" where
  "updated_type u y = y\<lparr>
     lt_name := (case yu_name u of Some n \<Rightarrow> trim n | None \<Rightarrow> lt_name y),
     lt_defaultDays := (case yu_defaultDays u of Some x \<Rightarrow> dp2 x | None \<Rightarrow> lt_defaultDays y),
     lt_tracksBalance := (case yu_tracksBalance u of Some b \<Rightarrow> b | None \<Rightarrow> lt_tracksBalance y),
     lt_isActive := (case yu_isActive u of Some b \<Rightarrow> b | None \<Rightarrow> lt_isActive y),
     lt_sortOrder := (case yu_sortOrder u of Some n \<Rightarrow> n | None \<Rightarrow> lt_sortOrder y)\<rparr>"

definition find_type :: "auth_ctx \<Rightarrow> id \<Rightarrow> leave_db \<Rightarrow> leave_type result" where
  "find_type c i d = (case find (\<lambda>y. lt_id y = i \<and> lt_tenantId y = tenant_of c) (lv_types d) of
     None \<Rightarrow> Inl (NotFound ''Leave type not found.'') | Some y \<Rightarrow> Inr y)"

definition updateLeaveType :: "env \<Rightarrow> auth_ctx \<Rightarrow> id \<Rightarrow> type_update \<Rightarrow> leave_db \<Rightarrow> (leave_type \<times> leave_db) result" where
  "updateLeaveType e c i u d =
     bindR (requireStaffManage e c) (\<lambda>_. bindR (find_type c i d) (\<lambda>y.
       if lt_isDefault y \<and> yu_isActive u = Some False
       then Inl (BadRequest ''Cannot deactivate the default Manual type.'')
       else if name_taken (tenant_of c) (lt_name (updated_type u y)) (Some i) d
       then Inl (Conflict ''A leave type with this name already exists.'')
       else Inr (updated_type u y, d\<lparr>lv_types := update_id lt_id i (updated_type u) (lv_types d)\<rparr>)))"

text \<open>A type with requests is only deactivated (\<open>False\<close> in the answer), otherwise deleted.\<close>

definition deleteLeaveType :: "env \<Rightarrow> auth_ctx \<Rightarrow> id \<Rightarrow> leave_db \<Rightarrow> (bool \<times> leave_db) result" where
  "deleteLeaveType e c i d =
     bindR (requireStaffManage e c) (\<lambda>_. bindR (find_type c i d) (\<lambda>y.
       if lt_isDefault y then Inl (BadRequest ''Cannot delete the default Manual type.'')
       else if 0 < count_where (\<lambda>q. lq_typeId q = Some i \<and> lq_tenantId q = tenant_of c) (lv_requests d)
       then Inr (False, d\<lparr>lv_types := update_id lt_id i (\<lambda>y. y\<lparr>lt_isActive := False\<rparr>) (lv_types d)\<rparr>)
       else Inr (True, d\<lparr>
         lv_balances := filter (\<lambda>b. \<not> (lb_type b = i \<and> lb_tenantId b = tenant_of c)) (lv_balances d),
         lv_types := filter (\<lambda>y. lt_id y \<noteq> i) (lv_types d)\<rparr>)))"

section \<open>Entitlements\<close>

definition balance_row :: "id \<Rightarrow> id \<Rightarrow> leave_db \<Rightarrow> leave_balance option" where
  "balance_row m y d = find (\<lambda>b. lb_staff b = m \<and> lb_type b = y) (lv_balances d)"

text \<open>The override of a member, if there is one that is not cleared; otherwise what everyone gets.\<close>

definition entitlementFor :: "id \<Rightarrow> leave_type \<Rightarrow> leave_db \<Rightarrow> decimal" where
  "entitlementFor m y d = (case Option.bind (balance_row m (lt_id y) d) lb_entitlement of
     Some x \<Rightarrow> x | None \<Rightarrow> lt_defaultDays y)"

definition usedLeaveDays :: "id \<Rightarrow> id \<Rightarrow> id \<Rightarrow> leave_db \<Rightarrow> decimal" where
  "usedLeaveDays t m y d = sum_list (map lq_days (filter (\<lambda>q. lq_tenantId q = t \<and> lq_staff q = m \<and>
     lq_status q = L_APPROVED \<and> lq_typeId q = Some y) (lv_requests d)))"

definition remainingDays :: "id \<Rightarrow> id \<Rightarrow> leave_type \<Rightarrow> leave_db \<Rightarrow> decimal" where
  "remainingDays t m y d = max 0 (entitlementFor m y d - usedLeaveDays t m (lt_id y) d)"

record balance_view =
  bv_type :: id
  bv_tracksBalance :: bool
  bv_defaultDays :: decimal
  bv_entitlement :: decimal
  bv_override :: "decimal option"
  bv_balance :: decimal
  bv_used :: decimal

definition view_balance :: "id \<Rightarrow> id \<Rightarrow> leave_db \<Rightarrow> leave_type \<Rightarrow> balance_view" where
  "view_balance t m d y =
     \<lparr>bv_type = lt_id y, bv_tracksBalance = lt_tracksBalance y, bv_defaultDays = lt_defaultDays y,
      bv_entitlement = entitlementFor m y d, bv_override = Option.bind (balance_row m (lt_id y) d) lb_entitlement,
      bv_balance = remainingDays t m y d, bv_used = usedLeaveDays t m (lt_id y) d\<rparr>"

definition member_exists :: "auth_ctx \<Rightarrow> id \<Rightarrow> leave_db \<Rightarrow> bool" where
  "member_exists c m d = list_ex (\<lambda>x. mb_id x = m \<and> mb_tenantId x = tenant_of c) (lv_members d)"

definition listStaffLeaveBalances ::
  "env \<Rightarrow> auth_ctx \<Rightarrow> id \<Rightarrow> leave_db \<Rightarrow> (balance_view list \<times> leave_db) result" where
  "listStaffLeaveBalances e c m d0 =
     bindR (requireStaffManage e c) (\<lambda>_.
       let d = ensureLeaveTypes (tenant_of c) d0
       in if \<not> member_exists c m d then Inl (NotFound ''Staff member not found.'')
          else Inr (map (view_balance (tenant_of c) m d) (types_of c True d), d))"

definition put_balance :: "id \<Rightarrow> id \<Rightarrow> id \<Rightarrow> (leave_balance \<Rightarrow> leave_balance) \<Rightarrow> leave_balance \<Rightarrow> leave_db \<Rightarrow> leave_db" where
  "put_balance t m y upd new d = d\<lparr>lv_balances :=
     (if balance_row m y d = None then lv_balances d @ [new]
      else update_many (\<lambda>b. lb_staff b = m \<and> lb_type b = y) upd (lv_balances d))\<rparr>"

text \<open>One override: \<open>None\<close> clears it, and the member gets what everyone gets.\<close>

definition put_override :: "id \<Rightarrow> id \<Rightarrow> (id \<Rightarrow> decimal) \<Rightarrow> id \<times> decimal option \<Rightarrow> leave_db \<Rightarrow> leave_db" where
  "put_override t m used x d =
     (let y = row_by lt_id (fst x) (lv_types d);
          entitlement = (case snd x of Some v \<Rightarrow> v | None \<Rightarrow> (case y of Some z \<Rightarrow> lt_defaultDays z | None \<Rightarrow> 0));
          remaining = max 0 (entitlement - used (fst x));
          override = (if snd x = None then None else Some (dp2 entitlement))
      in put_balance t m (fst x) (\<lambda>b. b\<lparr>lb_entitlement := override, lb_balance := dp2 remaining\<rparr>)
           \<lparr>lb_tenantId = t, lb_staff = m, lb_type = fst x, lb_entitlement = override, lb_balance = dp2 remaining\<rparr> d)"

definition setStaffLeaveOverrides ::
  "env \<Rightarrow> auth_ctx \<Rightarrow> id \<Rightarrow> (id \<times> decimal option) list \<Rightarrow> leave_db \<Rightarrow> (balance_view list \<times> leave_db) result" where
  "setStaffLeaveOverrides e c m xs d0 =
     bindR (requireStaffManage e c) (\<lambda>_.
       let d = ensureLeaveTypes (tenant_of c) d0
       in if \<not> member_exists c m d then Inl (NotFound ''Staff member not found.'')
          else if length (filter (\<lambda>y. lt_tenantId y = tenant_of c \<and> lt_id y \<in> set (map fst xs)) (lv_types d)) \<noteq> length xs
          then Inl (BadRequest ''One or more leave types are invalid.'')
          else let used = (\<lambda>y. usedLeaveDays (tenant_of c) m y d)
               in listStaffLeaveBalances e c m (fold (put_override (tenant_of c) m used) xs d))"

section \<open>Requests\<close>

text \<open>Dates are parsed by \<open>new Date\<close>; a text it cannot read reaches the database as an invalid date.\<close>

record leave_dto =
  ld_typeId :: id
  ld_membershipId :: "id option"
  ld_startDate :: "time option"
  ld_endDate :: "time option"
  ld_reason :: "string option"
  ld_branchId :: "id option"

definition may_manage :: "env \<Rightarrow> auth_ctx \<Rightarrow> bool" where
  "may_manage e c \<longleftrightarrow> can e c Act_manage Sub_Staff \<or> can e c Act_manage Sub_all"

definition leave_branch :: "auth_ctx \<Rightarrow> leave_dto \<Rightarrow> membership \<Rightarrow> id option" where
  "leave_branch c dto x = (case ld_branchId dto of Some b \<Rightarrow> Some b | None \<Rightarrow>
     (case mb_branches x of b # _ \<Rightarrow> Some b | [] \<Rightarrow> ax_branchId c))"

definition leave_row :: "env \<Rightarrow> auth_ctx \<Rightarrow> leave_dto \<Rightarrow> id \<Rightarrow> id \<Rightarrow> leave_type \<Rightarrow> time \<Rightarrow> time \<Rightarrow> id \<Rightarrow> leave_request" where
  "leave_row e c dto m b y start fin i =
     \<lparr>lq_id = i, lq_tenantId = tenant_of c, lq_branchId = b, lq_staff = m, lq_typeId = Some (lt_id y),
      lq_typeName = lt_name y, lq_startDate = start div ms_per_day, lq_endDate = fin div ms_per_day,
      lq_days = of_int ((fin - start) div ms_per_day + 1), lq_reason = trim_or_null (ld_reason dto),
      lq_status = L_PENDING, lq_decidedBy = None, lq_decidedAt = None, lq_decisionNote = None,
      lq_createdAt = env_now e\<rparr>"

definition createLeaveForMembership ::
  "env \<Rightarrow> auth_ctx \<Rightarrow> leave_dto \<Rightarrow> id \<Rightarrow> leave_db \<Rightarrow> (leave_request \<times> leave_db) result" where
  "createLeaveForMembership e c dto m d0 =
     (let d = ensureLeaveTypes (tenant_of c) d0 in
      case find (\<lambda>y. lt_id y = ld_typeId dto \<and> lt_tenantId y = tenant_of c \<and> lt_isActive y) (lv_types d) of
        None \<Rightarrow> Inl (BadRequest ''Leave type not found or inactive.'')
      | Some y \<Rightarrow>
          (case find (\<lambda>x. mb_id x = m \<and> mb_tenantId x = tenant_of c) (lv_members d) of
             None \<Rightarrow> Inl (NotFound ''Staff member not found.'')
           | Some x \<Rightarrow>
               (case leave_branch c dto x of
                  None \<Rightarrow> Inl (BadRequest ''Branch is required for leave.'')
                | Some b \<Rightarrow>
                    if may_manage e c \<and> \<not> isOwner c \<and> Some b \<noteq> ax_branchId c
                    then Inl (Forbidden ''Leave must be for your branch.'')
                    else if \<not> may_manage e c \<and> Some m \<noteq> ax_staffMembershipId c
                    then Inl (Forbidden ''You can only request leave for yourself.'')
                    else (case (ld_startDate dto, ld_endDate dto) of
                        (Some start, Some fin) \<Rightarrow>
                          if fin < start then Inl (BadRequest ''End date must be on or after start date.'')
                          else let q = leave_row e c dto m b y start fin (lv_next d)
                               in Inr (q, d\<lparr>lv_requests := lv_requests d @ [q], lv_next := lv_next d + 1,
                                    lv_notices := lv_notices d @ [(''LEAVE_REQUEST_CREATED'', lq_id q)]\<rparr>)
                      | _ \<Rightarrow> Inl (DbError ''invalid date'')))))"

definition requestMyLeave :: "env \<Rightarrow> auth_ctx \<Rightarrow> leave_dto \<Rightarrow> leave_db \<Rightarrow> (leave_request \<times> leave_db) result" where
  "requestMyLeave e c dto d =
     bindR (requireStaffMember c) (\<lambda>_. createLeaveForMembership e c dto (staff_of c) d)"

definition createLeave :: "env \<Rightarrow> auth_ctx \<Rightarrow> leave_dto \<Rightarrow> leave_db \<Rightarrow> (leave_request \<times> leave_db) result" where
  "createLeave e c dto d =
     bindR (requireStaffManage e c) (\<lambda>_.
       case (case ld_membershipId dto of Some m \<Rightarrow> Some m | None \<Rightarrow> ax_staffMembershipId c) of
         None \<Rightarrow> Inl (BadRequest ''Pick a staff member for this leave.'')
       | Some m \<Rightarrow> createLeaveForMembership e c dto m d)"

definition set_request :: "id \<Rightarrow> (leave_request \<Rightarrow> leave_request) \<Rightarrow> leave_db \<Rightarrow> leave_db" where
  "set_request i f d = d\<lparr>lv_requests := update_id lq_id i f (lv_requests d)\<rparr>"

definition cancelMyLeave :: "auth_ctx \<Rightarrow> id \<Rightarrow> leave_db \<Rightarrow> (leave_request \<times> leave_db) result" where
  "cancelMyLeave c i d =
     bindR (requireStaffMember c) (\<lambda>_.
       case find (\<lambda>q. lq_id q = i \<and> lq_tenantId q = tenant_of c \<and> lq_staff q = staff_of c) (lv_requests d) of
         None \<Rightarrow> Inl (NotFound ''Leave request not found.'')
       | Some q \<Rightarrow>
           if lq_status q \<noteq> L_PENDING then Inl (BadRequest ''Only pending leave can be cancelled.'')
           else Inr (q\<lparr>lq_status := L_CANCELLED\<rparr>, set_request i (\<lambda>q. q\<lparr>lq_status := L_CANCELLED\<rparr>) d))"

section \<open>Decisions\<close>

definition decided :: "env \<Rightarrow> auth_ctx \<Rightarrow> leave_status \<Rightarrow> string option \<Rightarrow> leave_request \<Rightarrow> leave_request" where
  "decided e c st note q = q\<lparr>lq_status := st, lq_decidedAt := Some (env_now e),
     lq_decidedBy := ax_staffMembershipId c, lq_decisionNote := trim_or_null note\<rparr>"

text \<open>
  An approval takes the days off the cached balance, if the type counts its days; a request whose
  type is gone has none to count.
\<close>

definition book_days :: "id \<Rightarrow> leave_request \<Rightarrow> leave_db \<Rightarrow> leave_db" where
  "book_days t q d =
     (case lq_typeId q of
        None \<Rightarrow> d
      | Some y \<Rightarrow>
          let ty = row_by lt_id y (lv_types d);
              tracks = (case ty of Some x \<Rightarrow> lt_tracksBalance x | None \<Rightarrow> True);
              override = Option.bind (balance_row (lq_staff q) y d) lb_entitlement;
              entitlement = (case override of Some x \<Rightarrow> x
                | None \<Rightarrow> (case ty of Some x \<Rightarrow> lt_defaultDays x | None \<Rightarrow> 0))
          in if tracks \<and> 0 < lq_days q
             then put_balance t (lq_staff q) y (\<lambda>b. b\<lparr>lb_balance := lb_balance b - lq_days q\<rparr>)
               \<lparr>lb_tenantId = t, lb_staff = lq_staff q, lb_type = y, lb_entitlement = override,
                lb_balance = entitlement - lq_days q\<rparr> d
             else d)"

text \<open>\<open>st\<close> is \<open>L_APPROVED\<close> or \<open>L_REJECTED\<close>: the validation admits no other decision.\<close>

definition decideLeave ::
  "env \<Rightarrow> auth_ctx \<Rightarrow> id \<Rightarrow> leave_status \<Rightarrow> string option \<Rightarrow> leave_db \<Rightarrow> (leave_request \<times> leave_db) result" where
  "decideLeave e c i st note d =
     bindR (requireStaffManage e c) (\<lambda>_.
       case find (\<lambda>q. lq_id q = i \<and> lq_tenantId q = tenant_of c) (lv_requests d) of
         None \<Rightarrow> Inl (NotFound ''Leave request not found.'')
       | Some q \<Rightarrow>
           if lq_status q \<noteq> L_PENDING then Inl (BadRequest ''Only pending leave can be decided.'')
           else if \<not> isOwner c \<and> Some (lq_branchId q) \<noteq> ax_branchId c
           then Inl (Forbidden ''Leave is for another branch.'')
           else let d1 = set_request i (decided e c st note) d;
                    d2 = (if st = L_APPROVED then book_days (tenant_of c) q d1 else d1)
                in Inr (decided e c st note q,
                     d2\<lparr>lv_notices := lv_notices d2 @ [(''LEAVE_REQUEST_DECIDED'', i)]\<rparr>))"

section \<open>Lists\<close>

record leave_query =
  lx_from :: "time option"
  lx_to :: "time option"
  lx_branchId :: "id option"
  lx_membershipId :: "id option"
  lx_status :: "leave_status option"

definition listLeave :: "env \<Rightarrow> auth_ctx \<Rightarrow> leave_query \<Rightarrow> leave_db \<Rightarrow> (leave_request list \<times> leave_db) result" where
  "listLeave e c x d0 =
     bindR (requireStaffManage e c) (\<lambda>_.
       let d = ensureLeaveTypes (tenant_of c) d0
       in bindR (resolveBranchId c (lx_branchId x)) (\<lambda>b.
            Inr (take 100 (sort_key (\<lambda>q. - lq_createdAt q) (filter (\<lambda>q. lq_tenantId q = tenant_of c \<and>
              (b = None \<or> Some (lq_branchId q) = b) \<and>
              (case lx_membershipId x of None \<Rightarrow> True | Some m \<Rightarrow> lq_staff q = m) \<and>
              (case lx_status x of None \<Rightarrow> True | Some s \<Rightarrow> lq_status q = s) \<and>
              (case lx_from x of None \<Rightarrow> True | Some t \<Rightarrow> t \<le> lq_startDate q * ms_per_day) \<and>
              (case lx_to x of None \<Rightarrow> True | Some t \<Rightarrow> lq_startDate q * ms_per_day \<le> t)) (lv_requests d))), d)))"

record my_leave =
  my_types :: "leave_type list"
  my_balances :: "balance_view list"
  my_defaultType :: "id option"
  my_annualBalance :: decimal
  my_requests :: "leave_request list"

definition default_type :: "leave_type list \<Rightarrow> leave_type option" where
  "default_type ys = (case find lt_isDefault ys of Some y \<Rightarrow> Some y
     | None \<Rightarrow> (case ys of [] \<Rightarrow> None | y # _ \<Rightarrow> Some y))"

definition listMyLeave :: "auth_ctx \<Rightarrow> leave_db \<Rightarrow> (my_leave \<times> leave_db) result" where
  "listMyLeave c d0 =
     bindR (requireStaffMember c) (\<lambda>_.
       let d = ensureLeaveTypes (tenant_of c) d0; ys = types_of c True d; m = staff_of c
       in Inr (\<lparr>my_types = ys, my_balances = map (view_balance (tenant_of c) m d) ys,
                my_defaultType = map_option lt_id (default_type ys),
                my_annualBalance = (case default_type ys of None \<Rightarrow> 0 | Some y \<Rightarrow> remainingDays (tenant_of c) m y d),
                my_requests = take 50 (sort_key (\<lambda>q. - lq_createdAt q)
                  (filter (\<lambda>q. lq_tenantId q = tenant_of c \<and> lq_staff q = m) (lv_requests d)))\<rparr>, d))"

text \<open>
  Attendance: the window runs from the start of the first day to the end of the last, days of the
  server's clock, and covers two weeks when no start is given.
\<close>

definition server_midnight :: "env \<Rightarrow> time \<Rightarrow> time" where
  "server_midnight e t = (t + env_tzOffset e) div ms_per_day * ms_per_day - env_tzOffset e"

definition attendance_window :: "env \<Rightarrow> leave_query \<Rightarrow> time \<times> time" where
  "attendance_window e x =
     (let to = server_midnight e (case lx_to x of Some t \<Rightarrow> t | None \<Rightarrow> env_now e) + (ms_per_day - 1);
          from = server_midnight e (case lx_from x of Some t \<Rightarrow> t | None \<Rightarrow> to - 13 * ms_per_day)
      in (from, to))"

definition hours_worked :: "shift_session \<Rightarrow> decimal option" where
  "hours_worked s = map_option (\<lambda>t. dp2 (of_int (t - sh_clockInAt s) / 3600000)) (sh_clockOutAt s)"

definition listAttendance ::
  "env \<Rightarrow> auth_ctx \<Rightarrow> (id \<Rightarrow> id option) \<Rightarrow> leave_query \<Rightarrow> leave_db \<Rightarrow> (shift_session \<times> decimal option) list result" where
  "listAttendance e c tenant_of_branch x d =
     bindR (requireStaffManage e c) (\<lambda>_. bindR (resolveBranchId c (lx_branchId x)) (\<lambda>b.
       let (from, to) = attendance_window e x
       in Inr (map (\<lambda>s. (s, hours_worked s)) (take 200
            (sort_key (\<lambda>s. - sh_businessDate s) (sort_key (\<lambda>s. - sh_clockInAt s)
              (filter (\<lambda>s. tenant_of_branch (sh_branchId s) = ax_tenantId c \<and>
                (b = None \<or> Some (sh_branchId s) = b) \<and>
                (case lx_membershipId x of None \<Rightarrow> True | Some m \<Rightarrow> sh_staff s = m) \<and>
                from \<le> sh_businessDate s * ms_per_day \<and> sh_businessDate s * ms_per_day \<le> to) (lv_shifts d))))))))"

section \<open>What a decision does\<close>

lemma set_request_used:
  assumes keys: "distinct (map lq_id (lv_requests d))" and q: "q \<in> set (lv_requests d)" "lq_status q = L_PENDING"
    and f: "\<And>r. lq_days (f r) = lq_days r" "\<And>r. lq_tenantId (f r) = lq_tenantId r"
      "\<And>r. lq_staff (f r) = lq_staff r" "\<And>r. lq_typeId (f r) = lq_typeId r" "\<And>r. lq_id (f r) = lq_id r"
  shows "usedLeaveDays t m y (set_request (lq_id q) f d) = usedLeaveDays t m y d +
     (if lq_status (f q) = L_APPROVED \<and> lq_tenantId q = t \<and> lq_staff q = m \<and> lq_typeId q = Some y then lq_days q else 0)"
proof -
  let ?g = "\<lambda>r. if lq_tenantId r = t \<and> lq_staff r = m \<and> lq_status r = L_APPROVED \<and> lq_typeId r = Some y
     then lq_days r else 0"
  have sum: "usedLeaveDays t m y d' = sum_list (map ?g (lv_requests d'))" for d'
    unfolding usedLeaveDays_def by (induction "lv_requests d'" rule: rev_induct)
      (simp_all add: sum_list_map_filter')
  have "row_by lq_id (lq_id q) (lv_requests d) = Some q" by (rule row_by_distinct [OF keys q(1)])
  from sum_list_update_id [OF keys this f(5), of ?g] q(2) show ?thesis
    by (simp add: sum set_request_def f)
qed

lemma book_days_requests [simp]: "lv_requests (book_days t q d) = lv_requests d" "lv_types (book_days t q d) = lv_types d"
  by (simp_all add: book_days_def put_balance_def Let_def split: option.splits)

lemma find_append_case: "find P (xs @ ys) = (case find P xs of Some x \<Rightarrow> Some x | None \<Rightarrow> find P ys)"
  by (induction xs) auto

lemma balance_row_put:
  assumes "\<And>b. lb_staff (upd b) = lb_staff b \<and> lb_type (upd b) = lb_type b" "lb_staff new = m" "lb_type new = y"
  shows "balance_row m' y' (put_balance t m y upd new d) =
     (if m' = m \<and> y' = y then Some (case balance_row m y d of None \<Rightarrow> new | Some b \<Rightarrow> upd b) else balance_row m' y' d)"
proof (cases "balance_row m y d")
  case None
  then show ?thesis using assms(2,3)
    by (auto simp: balance_row_def put_balance_def find_append_case split: option.splits)
next
  case (Some b)
  have "find (\<lambda>b. lb_staff b = m' \<and> lb_type b = y') (update_many (\<lambda>b. lb_staff b = m \<and> lb_type b = y) upd bs) =
     (if m' = m \<and> y' = y then map_option upd (find (\<lambda>b. lb_staff b = m \<and> lb_type b = y) bs)
      else find (\<lambda>b. lb_staff b = m' \<and> lb_type b = y') bs)" for bs
    using assms(1) by (induction bs) (auto simp: update_many_def)
  with Some show ?thesis by (simp add: balance_row_def put_balance_def)
qed

lemma book_days_entitlement:
  "Option.bind (balance_row m y (book_days t q d)) lb_entitlement = Option.bind (balance_row m y d) lb_entitlement"
  by (auto simp: book_days_def Let_def balance_row_put split: option.splits)

lemma decideLeave_inv:
  assumes "decideLeave e c i st note d = Inr (a, d')"
  shows "\<exists>q. find (\<lambda>q. lq_id q = i \<and> lq_tenantId q = tenant_of c) (lv_requests d) = Some q \<and> lq_status q = L_PENDING \<and>
     a = decided e c st note q \<and> lv_requests d' = lv_requests (set_request i (decided e c st note) d) \<and>
     lv_balances d' = lv_balances (if st = L_APPROVED then book_days (tenant_of c) q d else d)"
  using assms by (auto simp: decideLeave_def Let_def set_request_def book_days_def put_balance_def balance_row_def
    split: option.splits if_splits)

lemma decided_status: "lq_status (decided e c st note q) = st"
  by (simp add: decided_def)

lemma decided_twice:
  assumes "row_by lq_id i (lv_requests d) = Some q" and "lq_status q \<noteq> L_PENDING" and "primary_key lq_id (lv_requests d)"
  shows "\<not> is_ok (decideLeave e c i st note d)" and "\<not> is_ok (cancelMyLeave c i d)"
proof -
  have the_row: "find (\<lambda>r. lq_id r = i \<and> P r) (lv_requests d) = Some r \<Longrightarrow> r = q" for P r
    using find_row_by [of lq_id i P] assms(1,3) find_Some_in by (fastforce simp: keyed_def)
  show "\<not> is_ok (decideLeave e c i st note d)"
    using the_row [of "\<lambda>r. lq_tenantId r = tenant_of c"] assms(2)
    by (auto simp: is_ok_iff decideLeave_def split: option.splits if_splits)
  show "\<not> is_ok (cancelMyLeave c i d)"
    using the_row [of "\<lambda>r. lq_tenantId r = tenant_of c \<and> lq_staff r = staff_of c"] assms(2)
    by (auto simp: is_ok_iff cancelMyLeave_def split: option.splits if_splits)
qed

text \<open>
  C29: a decision books the days of a leave, once. A request that is approved adds its days to the
  used days of that member and that type and of nobody else, a rejected one adds none; what
  anybody is entitled to stays the same; and the request can then neither be decided again nor
  taken back by the member.
\<close>

theorem decision_books_the_days:
  assumes "decideLeave e c i st note d = Inr (a, d')" and "primary_key lq_id (lv_requests d)" and "st \<noteq> L_PENDING"
  shows "\<exists>q. row_by lq_id i (lv_requests d) = Some q \<and> lq_status q = L_PENDING \<and>
     row_by lq_id i (lv_requests d') = Some a \<and> lq_status a = st \<and>
     (\<forall>m y. usedLeaveDays (tenant_of c) m y d' = usedLeaveDays (tenant_of c) m y d +
        (if st = L_APPROVED \<and> lq_staff q = m \<and> lq_typeId q = Some y then lq_days q else 0)) \<and>
     (\<forall>m y. entitlementFor m y d' = entitlementFor m y d) \<and>
     (\<forall>e' c' st' note'. \<not> is_ok (decideLeave e' c' i st' note' d')) \<and> (\<forall>c'. \<not> is_ok (cancelMyLeave c' i d'))"
proof -
  let ?f = "decided e c st note"
  obtain q where q: "find (\<lambda>q. lq_id q = i \<and> lq_tenantId q = tenant_of c) (lv_requests d) = Some q"
      "lq_status q = L_PENDING" and a: "a = ?f q"
    and req: "lv_requests d' = lv_requests (set_request i ?f d)"
    and bal: "lv_balances d' = lv_balances (if st = L_APPROVED then book_days (tenant_of c) q d else d)"
    using decideLeave_inv [OF assms(1)] by blast
  have keys: "distinct (map lq_id (lv_requests d))" using assms(2) by (simp add: keyed_def)
  have f: "\<And>r. lq_days (?f r) = lq_days r" "\<And>r. lq_tenantId (?f r) = lq_tenantId r" "\<And>r. lq_staff (?f r) = lq_staff r"
      "\<And>r. lq_typeId (?f r) = lq_typeId r" "\<And>r. lq_id (?f r) = lq_id r"
    by (simp_all add: decided_def)
  have in_d: "q \<in> set (lv_requests d)" "lq_id q = i" "lq_tenantId q = tenant_of c" using find_Some_in [OF q(1)] by auto
  have row: "row_by lq_id i (lv_requests d) = Some q" by (rule find_row_by [OF q(1) keys])
  have row': "row_by lq_id i (lv_requests d') = Some a"
    using row by (simp add: req set_request_def row_by_update_id f a)
  have keys': "primary_key lq_id (lv_requests d')"
    using assms(2) by (simp add: req set_request_def update_id_def keyed_def update_many_map f)
  have used: "usedLeaveDays (tenant_of c) m y d' = usedLeaveDays (tenant_of c) m y d +
      (if st = L_APPROVED \<and> lq_staff q = m \<and> lq_typeId q = Some y then lq_days q else 0)" for m y
  proof -
    have "usedLeaveDays (tenant_of c) m y d' = usedLeaveDays (tenant_of c) m y (set_request (lq_id q) ?f d)"
      by (simp add: usedLeaveDays_def req in_d(2))
    also have "\<dots> = usedLeaveDays (tenant_of c) m y d +
        (if st = L_APPROVED \<and> lq_staff q = m \<and> lq_typeId q = Some y then lq_days q else 0)"
      using set_request_used [OF keys in_d(1) q(2) f, of "tenant_of c" m y] in_d(3) by (simp only: decided_status) simp
    finally show ?thesis .
  qed
  have "balance_row m y d' = balance_row m y (if st = L_APPROVED then book_days (tenant_of c) q d else d)" for m y
    by (simp add: balance_row_def bal)
  then have ent: "entitlementFor m y d' = entitlementFor m y d" for m y
    by (simp add: entitlementFor_def book_days_entitlement)
  have st: "lq_status a = st" by (simp add: a decided_def)
  have "\<not> is_ok (decideLeave e' c' i st' note' d')" "\<not> is_ok (cancelMyLeave c' i d')" for e' c' st' note'
    using decided_twice [OF row' _ keys'] st assms(3) by simp_all
  then show ?thesis using row q(2) row' st used ent by blast
qed

text \<open>
  The cook has a right to two days and asks for five. The approval does not compare the two: the
  leave is granted, the cached balance falls below zero and the balance on the screen shows none.
\<close>

definition leave_cook :: auth_ctx where
  "leave_cook = staff_member 100 7 ''KITCHEN'' (Some 2) 31 []"

definition leave_books :: leave_db where
  "leave_books = \<lparr>lv_types = [], lv_balances = [], lv_requests = [],
     lv_members = [\<lparr>mb_id = 7, mb_tenantId = 1, mb_status = ''ACTIVE'', mb_branches = [2], mb_roles = [''KITCHEN''], mb_pastRoles = [],
       mb_hasUser = True, mb_passwordHash = None, mb_displayName = ''Abel'', mb_userName = ''abel''\<rparr>],
     lv_shifts = [], lv_notices = [], lv_next = 600\<rparr>"

definition five_days :: leave_dto where
  "five_days = \<lparr>ld_typeId = 601, ld_membershipId = None, ld_startDate = Some (40 * ms_per_day),
     ld_endDate = Some (44 * ms_per_day), ld_reason = None, ld_branchId = None\<rparr>"

definition five_days_asked :: "leave_db result" where
  "five_days_asked =
     bindR (createLeaveType payroll_day payroll_owner ''Annual'' (Some 2) None None leave_books) (\<lambda>(_, d1).
     bindR (requestMyLeave payroll_day leave_cook five_days d1) (\<lambda>(_, d2). Inr d2))"

theorem decision_books_the_days_witness:
  "\<exists>d a d'. five_days_asked = Inr d \<and> decideLeave payroll_day payroll_owner 602 L_APPROVED None d = Inr (a, d') \<and>
     usedLeaveDays 1 7 601 d = 0 \<and> usedLeaveDays 1 7 601 d' = 5 \<and> \<not> is_ok (cancelMyLeave leave_cook 602 d')"
proof -
  have run: "bindR five_days_asked (\<lambda>d. bindR (decideLeave payroll_day payroll_owner 602 L_APPROVED None d) (\<lambda>(a, d').
      Inr (map lq_id (lv_requests d), map_option (\<lambda>q. (lq_staff q, lq_typeId q, lq_days q)) (row_by lq_id 602 (lv_requests d)),
        usedLeaveDays 1 7 601 d))) = Inr ([602], Some (7, Some 601, 5), 0)"
    by code_simp
  then obtain d where d: "five_days_asked = Inr d" by (cases five_days_asked) auto
  have "bindR (decideLeave payroll_day payroll_owner 602 L_APPROVED None d) (\<lambda>(a, d').
      Inr (map lq_id (lv_requests d), map_option (\<lambda>q. (lq_staff q, lq_typeId q, lq_days q)) (row_by lq_id 602 (lv_requests d)),
        usedLeaveDays 1 7 601 d)) = Inr ([602], Some (7, Some 601, 5), 0)"
    using run unfolding d bindR_Inr .
  then obtain a d' where d': "decideLeave payroll_day payroll_owner 602 L_APPROVED None d = Inr (a, d')"
    and now: "map lq_id (lv_requests d) = [602]" "usedLeaveDays 1 7 601 d = 0"
      "map_option (\<lambda>q. (lq_staff q, lq_typeId q, lq_days q)) (row_by lq_id 602 (lv_requests d)) = Some (7, Some 601, 5)"
    by (elim run_pairE) simp
  have "tenant_of payroll_owner = 1" by code_simp
  moreover have "primary_key lq_id (lv_requests d)" using now(1) by (simp add: keyed_def)
  ultimately have "usedLeaveDays 1 7 601 d' = 5" "\<not> is_ok (cancelMyLeave leave_cook 602 d')"
    using decision_books_the_days [OF d'] now by auto
  then show ?thesis using d d' now(2) by (intro exI [of _ d] exI [of _ a] exI [of _ d'] conjI)
qed

lemma overdrawn_leave_is_approved:
  "bindR five_days_asked (\<lambda>d. bindR (decideLeave payroll_day payroll_owner 602 L_APPROVED None d) (\<lambda>(a, d').
     Inr (lq_status a, map lb_balance (lv_balances d'), map (\<lambda>y. remainingDays 1 7 y d') (lv_types d')))) =
     Inr (L_APPROVED, [- 3], [0, 0])"
  by code_simp

end
