(* ===== verification/Roster.thy ===== *)
theory Roster
  imports Floor Shifts
begin

text \<open>
  Who works when and at which tables (\<open>src/floor/staff-coverage.service.ts\<close>): the shift
  definitions of a branch, the weekly plan of a staff member, the tables a waiter covers, the
  removal of a staff member and the reset of credentials. \<open>Floor\<close> decides by these tables who
  may open one, \<open>Shifts\<close> who may clock in.

  Accounts (e-mail, phone, photo, sessions) and station assignments are not in the database of
  the model; creating and editing staff, which is about them, is left out, except for the rules
  on roles. A password is stored as the argument \<open>hash\<close> (bcrypt) makes it.
\<close>

section \<open>Days and roles\<close>

definition weekday_order :: "string list" where
  "weekday_order = [''Mon'', ''Tue'', ''Wed'', ''Thu'', ''Fri'', ''Sat'', ''Sun'']"

definition default_working_days :: "string list" where
  "default_working_days = [''Mon'', ''Tue'', ''Wed'', ''Thu'', ''Fri'', ''Sat'']"

definition normalizeWorkingDays :: "string list option \<Rightarrow> string list" where
  "normalizeWorkingDays days =
     (case days of
        None \<Rightarrow> default_working_days
      | Some ds \<Rightarrow> if ds = [] then default_working_days else filter (\<lambda>d. d \<in> set ds) weekday_order)"

text \<open>The last row of a day counts; a day that is not one of the week is dropped.\<close>

definition normalizeExplicitDayShifts :: "(string \<times> id) list \<Rightarrow> (string \<times> id) list" where
  "normalizeExplicitDayShifts rows =
     List.map_filter (\<lambda>day. map_option (\<lambda>(_, f). (day, f)) (find (\<lambda>(d, _). d = day) (rev rows))) weekday_order"

definition dayShiftsFromLegacy :: "string list option \<Rightarrow> id option \<Rightarrow> (string \<times> id) list" where
  "dayShiftsFromLegacy days f =
     (case f of None \<Rightarrow> [] | Some i \<Rightarrow> map (\<lambda>d. (d, i)) (normalizeWorkingDays days))"

definition lower_char :: "char \<Rightarrow> char" where
  "lower_char c = (let n = (of_char c :: nat) in if 65 \<le> n \<and> n \<le> 90 then char_of (n + 32) else c)"

definition ui_role_to_code :: "(string \<times> string) list" where
  "ui_role_to_code =
     [(''waiter'', ''WAITER''), (''manager'', ''MANAGER''), (''cashier'', ''CASHIER''), (''owner'', ''OWNER_ADMIN''),
      (''kitchen'', ''STATION_OPERATOR''), (''barista'', ''STATION_OPERATOR''), (''cakes'', ''STATION_OPERATOR''),
      (''soft_drinks'', ''STATION_OPERATOR''), (''dispatcher'', ''DISPATCHER''), (''store_manager'', ''STORE_MANAGER''),
      (''storeManager'', ''STORE_MANAGER''), (''driver'', ''DRIVER''), (''DRIVER'', ''DRIVER''), (''WAITER'', ''WAITER''),
      (''MANAGER'', ''MANAGER''), (''CASHIER'', ''CASHIER''), (''OWNER_ADMIN'', ''OWNER_ADMIN''),
      (''STATION_OPERATOR'', ''STATION_OPERATOR''), (''DISPATCHER'', ''DISPATCHER''),
      (''STORE_MANAGER'', ''STORE_MANAGER''), (''receptionist'', ''RECEPTIONIST''), (''RECEPTIONIST'', ''RECEPTIONIST'')]"

definition resolveRoleCode :: "string \<Rightarrow> string result" where
  "resolveRoleCode role =
     (case map_of ui_role_to_code role of
        Some c \<Rightarrow> Inr c
      | None \<Rightarrow> (case map_of ui_role_to_code (map lower_char role) of
            Some c \<Rightarrow> Inr c | None \<Rightarrow> Inl (Unprocessable ''role: invalid'')))"

definition assertCanAssignRole :: "string \<Rightarrow> string \<Rightarrow> unit result" where
  "assertCanAssignRole actor target =
     (if actor = ''MANAGER'' \<and> target = ''OWNER_ADMIN'' then Inl (Forbidden ''owner_forbidden'')
      else if actor = ''MANAGER'' \<and> target = ''MANAGER'' then Inl (Forbidden ''manager_forbidden'')
      else Inr ())"

section \<open>Guards\<close>

definition requireAdmin :: "env \<Rightarrow> auth_ctx \<Rightarrow> auth_ctx result" where
  "requireAdmin e c =
     (if ax_tenantId c = None \<or> ax_branchId c = None
      then Inl (Forbidden ''No restaurant branch on this account.'')
      else bindR (assertCan e c Act_manage Sub_Staff ''Staff coverage is for managers.'') (\<lambda>_. Inr c))"

lemma requireAdmin_eq_Inr [inversion]:
  "requireAdmin e c = Inr c' \<longleftrightarrow> c' = c \<and> ax_tenantId c \<noteq> None \<and> ax_branchId c \<noteq> None \<and> can e c Act_manage Sub_Staff"
  by (auto simp: requireAdmin_def inversion)

definition find_member :: "auth_ctx \<Rightarrow> id \<Rightarrow> db \<Rightarrow> membership option" where
  "find_member c m d = find (\<lambda>x. mb_id x = m \<and> mb_tenantId x = tenant_of c) (memberships d)"

definition requireTenantStaffAccess :: "auth_ctx \<Rightarrow> id \<Rightarrow> db \<Rightarrow> unit result" where
  "requireTenantStaffAccess c m d =
     (let found = (if ax_roleCode c = ''OWNER_ADMIN'' then find_member c m d
        else find (\<lambda>x. mb_id x = m \<and> mb_tenantId x = tenant_of c \<and> branch_of c \<in> set (mb_branches x)) (memberships d))
      in if found = None then Inl (NotFound ''Staff member not found.'') else Inr ())"

text \<open>The branches of a member are listed in the order of assignment.\<close>

definition resolveMembershipBranchId :: "auth_ctx \<Rightarrow> id \<Rightarrow> db \<Rightarrow> id" where
  "resolveMembershipBranchId c m d =
     (if ax_roleCode c \<noteq> ''OWNER_ADMIN'' then branch_of c
      else case row_by mb_id m (memberships d) of
          None \<Rightarrow> branch_of c
        | Some x \<Rightarrow>
            (case filter (\<lambda>b. list_ex (\<lambda>r. bc_id r = b \<and> bc_tenantId r = tenant_of c) (branches d)) (mb_branches x) of
               [] \<Rightarrow> branch_of c | b # _ \<Rightarrow> b))"

definition requireCoverageWaiter :: "auth_ctx \<Rightarrow> id \<Rightarrow> id \<Rightarrow> db \<Rightarrow> unit result" where
  "requireCoverageWaiter c m b d =
     (case find (\<lambda>x. mb_id x = m \<and> mb_tenantId x = tenant_of c \<and> mb_status x = ''ACTIVE'' \<and> b \<in> set (mb_branches x) \<and>
          ''WAITER'' \<in> set (mb_roles x)) (memberships d) of
        None \<Rightarrow> Inl (Unprocessable ''waiterMembershipId: invalid'') | Some _ \<Rightarrow> Inr ())"

section \<open>Shift definitions\<close>

text \<open>
  \<open>timeToDate\<close> reads ``HH:MM'' (the validation admits two digits each) into minutes; what is past
  midnight wraps in a column of type time. \<open>formatTime\<close> writes it back.
\<close>

definition timeToDate :: "string \<Rightarrow> nat" where
  "timeToDate s = (60 * read_digits (take 2 s) + read_digits (drop 3 s)) mod 1440"

definition formatTime :: "nat \<Rightarrow> string" where
  "formatTime m = pad_start 2 (show_nat (m div 60)) @ '':'' @ pad_start 2 (show_nat (m mod 60))"

record shift_dto =
  sf_id :: id
  sf_name :: string
  sf_start :: string
  sf_end :: string
  sf_grace :: int
  sf_status :: string

definition toShiftDto :: "shift_definition \<Rightarrow> shift_dto" where
  "toShiftDto f = \<lparr>sf_id = df_id f, sf_name = df_name f, sf_start = formatTime (df_start f),
     sf_end = formatTime (df_end f), sf_grace = df_graceMinutes f, sf_status = df_status f\<rparr>"

definition listShifts :: "env \<Rightarrow> auth_ctx \<Rightarrow> db \<Rightarrow> shift_dto list result" where
  "listShifts e c d =
     bindR (requireAdmin e c) (\<lambda>c. Inr (map toShiftDto (sort_key df_start
       (filter (\<lambda>f. df_branchId f = branch_of c \<and> df_status f = ''ACTIVE'') (shift_definitions d)))))"

definition createShift ::
  "env \<Rightarrow> auth_ctx \<Rightarrow> string \<Rightarrow> string \<Rightarrow> string \<Rightarrow> int option \<Rightarrow> db \<Rightarrow> (shift_dto \<times> db) result" where
  "createShift e c name from to grace d =
     bindR (requireAdmin e c) (\<lambda>c.
       let f = \<lparr>df_id = next_id d, df_branchId = branch_of c, df_name = trim name, df_start = timeToDate from,
                df_end = timeToDate to, df_graceMinutes = (case grace of Some g \<Rightarrow> g | None \<Rightarrow> 15),
                df_status = ''ACTIVE''\<rparr>
       in Inr (toShiftDto f, d\<lparr>shift_definitions := shift_definitions d @ [f], next_id := next_id d + 1\<rparr>))"

record shift_update =
  sx_name :: "string option"
  sx_start :: "string option"
  sx_end :: "string option"
  sx_grace :: "int option"

definition updated_shift :: "shift_update \<Rightarrow> shift_definition \<Rightarrow> shift_definition" where
  "updated_shift u f = f\<lparr>
     df_name := (case sx_name u of Some n \<Rightarrow> trim n | None \<Rightarrow> df_name f),
     df_start := (case sx_start u of Some s \<Rightarrow> timeToDate s | None \<Rightarrow> df_start f),
     df_end := (case sx_end u of Some s \<Rightarrow> timeToDate s | None \<Rightarrow> df_end f),
     df_graceMinutes := (case sx_grace u of Some g \<Rightarrow> g | None \<Rightarrow> df_graceMinutes f)\<rparr>"

definition find_shift :: "auth_ctx \<Rightarrow> id \<Rightarrow> db \<Rightarrow> shift_definition result" where
  "find_shift c i d =
     (case find (\<lambda>f. df_id f = i \<and> df_branchId f = branch_of c) (shift_definitions d) of
        None \<Rightarrow> Inl (NotFound ''Shift not found.'') | Some f \<Rightarrow> Inr f)"

definition updateShift :: "env \<Rightarrow> auth_ctx \<Rightarrow> id \<Rightarrow> shift_update \<Rightarrow> db \<Rightarrow> (shift_dto \<times> db) result" where
  "updateShift e c i u d =
     bindR (requireAdmin e c) (\<lambda>c. bindR (find_shift c i d) (\<lambda>f.
       Inr (toShiftDto (updated_shift u f),
            d\<lparr>shift_definitions := update_id df_id i (updated_shift u) (shift_definitions d)\<rparr>)))"

text \<open>
  Deleting a definition deletes what refers to it: the coverages by the service, the weekly plans
  by the foreign key; assignments and room coverages keep their row without it.
\<close>

definition delete_where :: "('r \<Rightarrow> bool) \<Rightarrow> 'r list \<Rightarrow> 'r list" where
  "delete_where P rs = filter (\<lambda>r. \<not> P r) rs"

definition deleteShift :: "env \<Rightarrow> auth_ctx \<Rightarrow> id \<Rightarrow> db \<Rightarrow> (unit \<times> db) result" where
  "deleteShift e c i d =
     bindR (requireAdmin e c) (\<lambda>c. bindR (find_shift c i d) (\<lambda>f.
     bindR (commit (d\<lparr>
         table_coverages := delete_where (\<lambda>r. tc_definition r = i) (table_coverages d),
         shift_definitions := delete_where (\<lambda>f. df_id f = i) (shift_definitions d),
         staff_day_shifts := delete_where (\<lambda>r. dy_definition r = i) (staff_day_shifts d),
         shift_assignments := update_many (\<lambda>a. sa_definition a = Some i) (\<lambda>a. a\<lparr>sa_definition := None\<rparr>) (shift_assignments d),
         room_coverages := update_many (\<lambda>r. fc_definition r = Some i) (\<lambda>r. r\<lparr>fc_definition := None\<rparr>) (room_coverages d)\<rparr>))
       (\<lambda>d1. Inr ((), d1))))"

section \<open>Tables a waiter covers\<close>

record coverage_dto =
  cg_definition :: id
  cg_dayCode :: "string option"
  cg_applyToAllDays :: bool
  cg_tableIds :: "id list"

text \<open>\<open>[...new Set(ids)]\<close>: each once, in the order of the first.\<close>

definition distinct_ids :: "id list \<Rightarrow> id list" where
  "distinct_ids is = rev (remdups (rev is))"

definition target_days :: "id \<Rightarrow> coverage_dto \<Rightarrow> db \<Rightarrow> string list" where
  "target_days w dto d =
     (if cg_applyToAllDays dto \<or> cg_dayCode dto = None
      then (let scheduled = map dy_dayCode (filter (\<lambda>r. dy_staff r = w \<and> dy_definition r = cg_definition dto) (staff_day_shifts d))
            in if scheduled = [] then weekday_order else scheduled)
      else [the (cg_dayCode dto)])"

definition coverage_rows :: "id \<Rightarrow> id \<Rightarrow> id \<Rightarrow> string list \<Rightarrow> id list \<Rightarrow> table_coverage list" where
  "coverage_rows b f w days tables =
     concat (map (\<lambda>day. map (\<lambda>t. \<lparr>tc_branchId = b, tc_tableId = t, tc_definition = f, tc_dayCode = day, tc_waiter = w\<rparr>)
       tables) days)"

definition coverageTx :: "id \<Rightarrow> id \<Rightarrow> id \<Rightarrow> string list \<Rightarrow> id list \<Rightarrow> db \<Rightarrow> db result" where
  "coverageTx b f w days tables d =
     (let own = delete_where (\<lambda>r. tc_branchId r = b \<and> tc_definition r = f \<and> tc_waiter r = w \<and> tc_dayCode r \<in> set days)
            (table_coverages d);
          rows = (if tables = [] then own
            else delete_where (\<lambda>r. tc_branchId r = b \<and> tc_definition r = f \<and> tc_tableId r \<in> set tables \<and> tc_dayCode r \<in> set days) own
              @ coverage_rows b f w days tables)
      in commit (d\<lparr>table_coverages := rows\<rparr>))"

definition setWaiterCoverage ::
  "env \<Rightarrow> auth_ctx \<Rightarrow> id \<Rightarrow> coverage_dto \<Rightarrow> db \<Rightarrow> ((id \<times> id \<times> string option \<times> id list) \<times> db) result" where
  "setWaiterCoverage e c w dto d =
     bindR (requireAdmin e c) (\<lambda>c.
       let b = resolveMembershipBranchId c w d
       in bindR (requireCoverageWaiter c w b d) (\<lambda>_.
          case find (\<lambda>f. df_id f = cg_definition dto \<and> df_branchId f = b \<and> df_status f = ''ACTIVE'') (shift_definitions d) of
            None \<Rightarrow> Inl (Unprocessable ''shiftDefinitionId: invalid'')
          | Some f \<Rightarrow>
              let tables = distinct_ids (cg_tableIds dto);
                  found = filter (\<lambda>t. dt_id t \<in> set tables \<and> dt_branchId t = b \<and> dt_archivedAt t = None) (dining_tables d)
              in if tables \<noteq> [] \<and> length found \<noteq> length tables
                 then Inl (Unprocessable ''tableIds: invalid'')
                 else bindR (coverageTx b (df_id f) w (target_days w dto d) tables d) (\<lambda>d1.
                   Inr ((w, df_id f, cg_dayCode dto, tables), d1))))"

text \<open>
  \<open>shiftFloor\<close>: the tables of the branch with the waiter who covers them on a day, if that waiter
  works the shift on that day. The rooms of the floor (locations) are left out.
\<close>

definition scheduled :: "id \<Rightarrow> string \<Rightarrow> id \<Rightarrow> db \<Rightarrow> bool" where
  "scheduled w day f d \<longleftrightarrow> list_ex (\<lambda>m. mb_id m = w \<and> mb_status m = ''ACTIVE'') (memberships d) \<and>
     list_ex (\<lambda>r. dy_staff r = w \<and> dy_dayCode r = day \<and> dy_definition r = f) (staff_day_shifts d)"

definition shiftFloor ::
  "env \<Rightarrow> auth_ctx \<Rightarrow> id \<Rightarrow> string option \<Rightarrow> db \<Rightarrow> (string \<times> (id \<times> id option) list) result" where
  "shiftFloor e c i day0 d =
     bindR (requireAdmin e c) (\<lambda>c.
       case find (\<lambda>f. df_id f = i \<and> df_branchId f = branch_of c \<and> df_status f = ''ACTIVE'') (shift_definitions d) of
         None \<Rightarrow> Inl (NotFound ''Shift not found.'')
       | Some f \<Rightarrow>
           let day = (case day0 of Some x \<Rightarrow> if x \<in> set weekday_order then x else server_day_code e
                                 | None \<Rightarrow> server_day_code e);
               cover = filter (\<lambda>r. tc_branchId r = branch_of c \<and> tc_definition r = df_id f \<and> tc_dayCode r = day \<and>
                  scheduled (tc_waiter r) day (df_id f) d) (table_coverages d);
               tables = sort_key dt_sortOrder
                  (filter (\<lambda>t. dt_branchId t = branch_of c \<and> dt_archivedAt t = None) (dining_tables d))
           in Inr (day, map (\<lambda>t. (dt_id t, map_option tc_waiter (row_by tc_tableId (dt_id t) (rev cover)))) tables))"

section \<open>The weekly plan of a member\<close>

text \<open>The window of an assignment: today's UTC day with the times of the definition read as UTC.\<close>

definition computeShiftWindowDates :: "env \<Rightarrow> nat \<Rightarrow> nat \<Rightarrow> time \<times> time" where
  "computeShiftWindowDates e from to =
     (let midnight = (env_now e div ms_per_day) * ms_per_day;
          startAt = midnight + int from * 60000;
          endAt = midnight + int to * 60000
      in (startAt, if endAt \<le> startAt then endAt + ms_per_day else endAt))"

definition assignment_row :: "env \<Rightarrow> id \<Rightarrow> id \<Rightarrow> string option \<Rightarrow> shift_definition \<Rightarrow> id \<Rightarrow> shift_assignment" where
  "assignment_row e b m role f i =
     (let (startAt, endAt) = computeShiftWindowDates e (df_start f) (df_end f)
      in \<lparr>sa_id = i, sa_branchId = b, sa_staff = m, sa_definition = Some (df_id f), sa_roleCode = role,
          sa_start = startAt, sa_end = endAt, sa_graceMinutes = df_graceMinutes f, sa_status = ''SCHEDULED''\<rparr>)"

definition add_assignment :: "env \<Rightarrow> id \<Rightarrow> id \<Rightarrow> string option \<Rightarrow> shift_definition \<Rightarrow> db \<Rightarrow> db" where
  "add_assignment e b m role f d =
     d\<lparr>shift_assignments := shift_assignments d @ [assignment_row e b m role f (next_id d)], next_id := next_id d + 1\<rparr>"

text \<open>The new plan replaces the old one, cancels its assignments and the coverages it no longer carries.\<close>

definition replan :: "id \<Rightarrow> id \<Rightarrow> (string \<times> id) list \<Rightarrow> db \<Rightarrow> db" where
  "replan m b planned d = d\<lparr>
     staff_day_shifts := delete_where (\<lambda>r. dy_staff r = m) (staff_day_shifts d) @
       map (\<lambda>(day, f). \<lparr>dy_staff = m, dy_dayCode = day, dy_definition = f\<rparr>) planned,
     shift_assignments := update_many (\<lambda>a. sa_staff a = m \<and> sa_branchId a = b \<and> sa_status a = ''SCHEDULED'')
       (\<lambda>a. a\<lparr>sa_status := ''CANCELLED''\<rparr>) (shift_assignments d),
     table_coverages := delete_where (\<lambda>r. tc_waiter r = m \<and> (tc_dayCode r, tc_definition r) \<notin> set planned)
       (table_coverages d)\<rparr>"

definition replaceStaffDayShifts ::
  "env \<Rightarrow> id \<Rightarrow> id \<Rightarrow> (string \<times> id) list \<Rightarrow> string option \<Rightarrow> db \<Rightarrow> db result" where
  "replaceStaffDayShifts e m b planned role d =
     (let ids = distinct_ids (map snd planned);
          valid = filter (\<lambda>f. df_id f \<in> set ids \<and> df_branchId f = b \<and> df_status f = ''ACTIVE'') (shift_definitions d)
      in if ids \<noteq> [] \<and> length valid \<noteq> length ids
         then Inl (Unprocessable ''dayShifts: invalid_shift'')
         else let d1 = replan m b planned d
              in if ids = [] then Inr d1
                 else Inr (fold (add_assignment e b m role)
                   (filter (\<lambda>f. df_id f \<in> set ids) (shift_definitions d1)) d1))"

section \<open>Removing a member\<close>

text \<open>\<open>hasHistory\<close>: orders, payments, drawers, shifts, sessions or bills of the member.\<close>

definition has_history :: "id \<Rightarrow> db \<Rightarrow> bool" where
  "has_history m d \<longleftrightarrow>
     list_ex (\<lambda>r. od_createdBy r = m) (orders d) \<or> list_ex (\<lambda>r. py_collector r = m) (payments d) \<or>
     list_ex (\<lambda>r. fs_cashier r = m) (financial_sessions d) \<or> list_ex (\<lambda>r. sh_staff r = m) (shift_sessions d) \<or>
     list_ex (\<lambda>r. ts_primaryWaiter r = m) (table_sessions d) \<or> list_ex (\<lambda>r. bl_generatedBy r = m) (bills d)"

text \<open>The rows whose foreign key to the membership is \<open>onDelete: Restrict\<close>, in the tables of the model.\<close>

definition restricting_rows :: "id \<Rightarrow> db \<Rightarrow> bool" where
  "restricting_rows m d \<longleftrightarrow> has_history m d \<or>
     list_ex (\<lambda>r. sa_staff r = m) (shift_assignments d) \<or> list_ex (\<lambda>r. ta_waiter r = m) (table_assignments d) \<or>
     list_ex (\<lambda>r. sy_checkedInBy r = m) (room_stays d) \<or> list_ex (\<lambda>r. rs_primaryWaiter r = m) (room_sessions d) \<or>
     list_ex (\<lambda>r. fc_waiter r = m) (room_coverages d) \<or> list_ex (\<lambda>r. oo_createdBy r = m) (outside_orders d) \<or>
     list_ex (\<lambda>r. ch_requestedBy r = m) (change_requests d) \<or>
     list_ex (\<lambda>r. cr_requestedBy r = m) (cancellation_requests d) \<or>
     list_ex (\<lambda>r. px_reportedBy r = m) (production_exceptions d) \<or>
     list_ex (\<lambda>r. br_requestedBy r = m) (bill_requests d) \<or> list_ex (\<lambda>r. cd_waiter r = m) (cash_drops d) \<or>
     list_ex (\<lambda>r. dc_generatedBy r = m) (daily_closes d)"

definition deleteStaff :: "env \<Rightarrow> auth_ctx \<Rightarrow> id \<Rightarrow> db \<Rightarrow> (unit \<times> db) result" where
  "deleteStaff e c m d =
     bindR (requireAdmin e c) (\<lambda>c. bindR (requireTenantStaffAccess c m d) (\<lambda>_.
       if find_member c m d = None then Inl (NotFound ''Staff member not found.'')
       else
         let d1 = d\<lparr>
               table_coverages := delete_where (\<lambda>r. tc_waiter r = m) (table_coverages d),
               dining_tables := update_many (\<lambda>t. dt_assignedWaiter t = Some m) (\<lambda>t. t\<lparr>dt_assignedWaiter := None\<rparr>) (dining_tables d),
               memberships := update_id mb_id m (\<lambda>x. x\<lparr>mb_branches := [], mb_roles := [],
                 mb_pastRoles := mb_pastRoles x @ mb_roles x\<rparr>) (memberships d),
               staff_day_shifts := delete_where (\<lambda>r. dy_staff r = m) (staff_day_shifts d)\<rparr>
         in if \<not> has_history m d
            then if restricting_rows m d1 then Inl (DbError ''tenant_staff_memberships_fkey'')
                 else Inr ((), d1\<lparr>memberships := delete_where (\<lambda>x. mb_id x = m) (memberships d1)\<rparr>)
            else Inr ((), d1\<lparr>memberships := update_id mb_id m (\<lambda>x. x\<lparr>mb_status := ''INACTIVE''\<rparr>) (memberships d1)\<rparr>)))"

section \<open>Credentials\<close>

definition has_char :: "nat \<Rightarrow> nat \<Rightarrow> string \<Rightarrow> bool" where
  "has_char lo hi s \<longleftrightarrow> list_ex (\<lambda>c. lo \<le> (of_char c :: nat) \<and> (of_char c :: nat) \<le> hi) s"

definition validateStrongPassword :: "string \<Rightarrow> string option" where
  "validateStrongPassword p =
     (if length p < 8 then Some ''Password must be at least 8 characters long.''
      else if \<not> has_char 65 90 p then Some ''Password must contain at least one uppercase letter (A-Z).''
      else if \<not> has_char 97 122 p then Some ''Password must contain at least one lowercase letter (a-z).''
      else if \<not> has_char 48 57 p then Some ''Password must contain at least one number (0-9).''
      else None)"

text \<open>A PIN is the login of a member of the floor staff: no other active member may have it.\<close>

definition verifyPinUniqueInTenant :: "env \<Rightarrow> auth_ctx \<Rightarrow> string \<Rightarrow> id \<Rightarrow> db \<Rightarrow> unit result" where
  "verifyPinUniqueInTenant e c pin m d =
     (if trim pin = [] then Inr ()
      else if list_ex (\<lambda>x. mb_tenantId x = tenant_of c \<and> mb_status x = ''ACTIVE'' \<and> mb_id x \<noteq> m \<and>
          (case mb_passwordHash x of None \<Rightarrow> False | Some h \<Rightarrow> env_pinOk e (trim pin) h)) (memberships d)
      then Inl (Conflict ''pin: already_exists'') else Inr ())"

definition set_credential :: "auth_ctx \<Rightarrow> id \<Rightarrow> string \<Rightarrow> string \<Rightarrow> db \<Rightarrow> db" where
  "set_credential c m h action d =
     d\<lparr>memberships := update_id mb_id m (\<lambda>x. x\<lparr>mb_passwordHash := Some h\<rparr>) (memberships d),
       audits := audits d @ [\<lparr>ae_action = action, ae_entityId = m, ae_actorUser = Some (ax_userId c)\<rparr>]\<rparr>"

text \<open>
  \<open>granted\<close> are the roles a member was ever given: \<open>resetStaffPin\<close> reads the revoked assignments
  too, which the model does not keep. A user has one membership in a restaurant.
\<close>

definition resetStaffPin ::
  "(string \<Rightarrow> string) \<Rightarrow> (id \<Rightarrow> string list) \<Rightarrow> env \<Rightarrow> auth_ctx \<Rightarrow> id \<Rightarrow> string \<Rightarrow> db \<Rightarrow> (unit \<times> db) result" where
  "resetStaffPin hash granted e c m pin d =
     bindR (requireAdmin e c) (\<lambda>c. bindR (requireTenantStaffAccess c m d) (\<lambda>_.
       case find_member c m d of
         None \<Rightarrow> Inl (NotFound ''Staff member not found'')
       | Some _ \<Rightarrow>
           if ''MANAGER'' \<in> set (granted m) \<or> ''OWNER_ADMIN'' \<in> set (granted m)
           then Inl (Unprocessable ''PIN login is for floor staff. Managers and Owners must use password.'')
           else bindR (verifyPinUniqueInTenant e c pin m d) (\<lambda>_.
             Inr ((), set_credential c m (hash (take 72 (trim pin))) ''STAFF_PIN_RESET'' d))))"

definition resetStaffPassword ::
  "(string \<Rightarrow> string) \<Rightarrow> env \<Rightarrow> auth_ctx \<Rightarrow> id \<Rightarrow> string \<Rightarrow> db \<Rightarrow> (unit \<times> db) result" where
  "resetStaffPassword hash e c m password d =
     bindR (requireAdmin e c) (\<lambda>c. bindR (requireTenantStaffAccess c m d) (\<lambda>_.
       if trim password = [] then Inl (Unprocessable ''Password cannot be empty.'')
       else (case validateStrongPassword (trim password) of
           Some err \<Rightarrow> Inl (Unprocessable err)
         | None \<Rightarrow>
             if find_member c m d = None then Inl (NotFound ''Staff member not found'')
             else Inr ((), set_credential c m (hash (take 72 (trim password))) ''STAFF_PASSWORD_RESET'' d))))"

section \<open>What happens to the roster\<close>

text \<open>
  The commands of this service, by whoever and on whichever member; whatever the other services
  do leaves the shift assignments alone.
\<close>

inductive roster_step :: "db \<Rightarrow> db \<Rightarrow> bool" where
  Create_shift: "createShift e c label starts ends grace d = Inr (r, d') \<Longrightarrow> roster_step d d'"
| Update_shift: "updateShift e c i u d = Inr (r, d') \<Longrightarrow> roster_step d d'"
| Delete_shift: "deleteShift e c i d = Inr (r, d') \<Longrightarrow> roster_step d d'"
| Cover: "setWaiterCoverage e c w dto d = Inr (x, d') \<Longrightarrow> roster_step d d'"
| Plan: "replaceStaffDayShifts e m b planned role d = Inr d' \<Longrightarrow> roster_step d d'"
| Remove: "deleteStaff e c m d = Inr (r, d') \<Longrightarrow> roster_step d d'"
| Reset_pin: "resetStaffPin hash granted e c m pin d = Inr (r, d') \<Longrightarrow> roster_step d d'"
| Reset_password: "resetStaffPassword hash e c m pw d = Inr (r, d') \<Longrightarrow> roster_step d d'"
| Elsewhere: "shift_assignments d' = shift_assignments d \<Longrightarrow> roster_step d d'"

abbreviation roster_run :: "db \<Rightarrow> db \<Rightarrow> bool" where
  "roster_run \<equiv> roster_step\<^sup>*\<^sup>*"

section \<open>Properties\<close>

lemma set_distinct_ids [simp]: "set (distinct_ids is) = set is"
  by (simp add: distinct_ids_def)

lemma delete_where_set [simp]: "r \<in> set (delete_where P rs) \<longleftrightarrow> r \<in> set rs \<and> \<not> P r"
  by (simp add: delete_where_def)

lemma coverage_rows_set:
  "r \<in> set (coverage_rows b f w days tables) \<longleftrightarrow>
     (\<exists>day \<in> set days. \<exists>t \<in> set tables. r = \<lparr>tc_branchId = b, tc_tableId = t, tc_definition = f, tc_dayCode = day, tc_waiter = w\<rparr>)"
  by (auto simp: coverage_rows_def)

lemma coverage_rows_table: "r \<in> set (coverage_rows b f w days tables) \<Longrightarrow> tc_tableId r \<in> set tables"
  by (auto simp: coverage_rows_set)

lemma filter_delete_where: "(\<And>r. Q r \<Longrightarrow> \<not> P r) \<Longrightarrow> filter Q (delete_where P rs) = filter Q rs"
  by (induction rs) (auto simp: delete_where_def)

lemma setWaiterCoverage_effect:
  assumes "setWaiterCoverage e c w dto d = Inr (r, d')"
  defines "b \<equiv> resolveMembershipBranchId c w d" and "f \<equiv> cg_definition dto" and "days \<equiv> target_days w dto d"
    and "tables \<equiv> distinct_ids (cg_tableIds dto)"
  obtains rows where "d' = d\<lparr>table_coverages := rows\<rparr>" and "db_ok d'"
    and "set rows = {r \<in> set (table_coverages d). \<not> (tc_branchId r = b \<and> tc_definition r = f \<and> tc_dayCode r \<in> set days \<and>
           (tc_waiter r = w \<or> tc_tableId r \<in> set tables))} \<union> set (coverage_rows b f w days tables)"
    and "filter (\<lambda>r. tc_definition r \<noteq> f \<or> tc_dayCode r \<notin> set days) rows =
         filter (\<lambda>r. tc_definition r \<noteq> f \<or> tc_dayCode r \<notin> set days) (table_coverages d)"
proof -
  let ?own = "delete_where (\<lambda>r. tc_branchId r = b \<and> tc_definition r = f \<and> tc_waiter r = w \<and> tc_dayCode r \<in> set days)
     (table_coverages d)"
  let ?rows = "if tables = [] then ?own
     else delete_where (\<lambda>r. tc_branchId r = b \<and> tc_definition r = f \<and> tc_tableId r \<in> set tables \<and> tc_dayCode r \<in> set days) ?own
       @ coverage_rows b f w days tables"
  from assms(1) have "coverageTx b f w days tables d = Inr d'"
    unfolding b_def f_def days_def tables_def
    by (auto simp: setWaiterCoverage_def Let_def inversion find_Some_iff split: option.splits if_splits)
  then have d': "d' = d\<lparr>table_coverages := ?rows\<rparr>" and ok: "db_ok d'"
    by (auto simp: coverageTx_def Let_def inversion)
  have "filter (\<lambda>r. tc_definition r \<noteq> f \<or> tc_dayCode r \<notin> set days) (coverage_rows b f w days tables) = []"
    by (auto simp: filter_empty_conv coverage_rows_set)
  then have "filter (\<lambda>r. tc_definition r \<noteq> f \<or> tc_dayCode r \<notin> set days) ?rows =
     filter (\<lambda>r. tc_definition r \<noteq> f \<or> tc_dayCode r \<notin> set days) (table_coverages d)"
    by (simp add: filter_delete_where)
  moreover have "set ?rows = {r \<in> set (table_coverages d). \<not> (tc_branchId r = b \<and> tc_definition r = f \<and> tc_dayCode r \<in> set days \<and>
      (tc_waiter r = w \<or> tc_tableId r \<in> set tables))} \<union> set (coverage_rows b f w days tables)"
    by (cases "tables = []") (auto simp: coverage_rows_set)
  ultimately show thesis using that [OF d' ok] by blast
qed

text \<open>Whoever opened a table for guests was admitted by the coverage, or by the table itself.\<close>

lemma dine_in_opening:
  assumes "startSession e c dto key d = Inr (res, d')" and "d' \<noteq> d" and "db_ok d"
    and "row_by dt_id (sg_tableId dto) (dining_tables d) = Some t" and "\<not> is_call_pickup dto t"
  shows "canWaiterOpenTable e c t d"
  using assms(1)
proof (cases rule: startSession_fresh)
  case 1
  with assms(2) show ?thesis by simp
next
  case (2 k)
  from 2(1) assms(3) obtain t2 where "row_by dt_id (sg_tableId dto) (dining_tables d) = Some t2"
    and "checkOpener e c dto t2 d = Inr ()" by (rule startBody_effect)
  with assms(4,5) show ?thesis by (simp add: checkOpener_def split: if_splits)
qed

text \<open>
  C28: setting the coverage of a waiter decides who seats guests at the tables. On every day the
  coverage applies to, while the shift is the active one and as long as the coverages stay as
  they are, a request to open a table of the list for guests at the table (not as a call pickup,
  which is the dispatchers') passes the check of who may open it exactly for that waiter, and
  every session such a request makes was asked for by that waiter and by nobody else, whoever
  covered the table before and whoever is its fixed waiter. The waiter covers exactly the tables
  of the list then; and other days and other shifts are as before.
\<close>

theorem coverage_decides_who_opens:
  assumes run: "setWaiterCoverage e c w dto d = Inr (r, d')"
  shows "(\<forall>later e' c' t dto'. table_coverages later = table_coverages d' \<and>
       dt_id t \<in> set (cg_tableIds dto) \<and> server_day_code e' \<in> set (target_days w dto d) \<and>
       resolveActiveShiftDefinitionId e' c' later = Some (cg_definition dto) \<and> \<not> is_call_pickup dto' t \<longrightarrow>
         (checkOpener e' c' dto' t later = Inr () \<longleftrightarrow>
            ax_staffMembershipId c' = Some w \<and> ax_roleCode c' \<noteq> ''DISPATCHER'') \<and>
         (\<forall>key res d2. startSession e' c' dto' key later = Inr (res, d2) \<and> d2 \<noteq> later \<and> db_ok later \<and>
            row_by dt_id (sg_tableId dto') (dining_tables later) = Some t \<longrightarrow> ax_staffMembershipId c' = Some w)) \<and>
    (\<forall>day \<in> set (target_days w dto d). tc_tableId ` {r \<in> set (table_coverages d'). tc_waiter r = w \<and>
       tc_branchId r = resolveMembershipBranchId c w d \<and> tc_definition r = cg_definition dto \<and> tc_dayCode r = day} =
       set (cg_tableIds dto)) \<and>
    filter (\<lambda>r. tc_definition r \<noteq> cg_definition dto \<or> tc_dayCode r \<notin> set (target_days w dto d)) (table_coverages d') =
    filter (\<lambda>r. tc_definition r \<noteq> cg_definition dto \<or> tc_dayCode r \<notin> set (target_days w dto d)) (table_coverages d)"
proof -
  let ?b = "resolveMembershipBranchId c w d" and ?f = "cg_definition dto" and ?days = "target_days w dto d"
  let ?t = "distinct_ids (cg_tableIds dto)"
  obtain rows where d': "d' = d\<lparr>table_coverages := rows\<rparr>" and ok: "db_ok d'"
    and rows: "set rows = {r \<in> set (table_coverages d). \<not> (tc_branchId r = ?b \<and> tc_definition r = ?f \<and> tc_dayCode r \<in> set ?days \<and>
           (tc_waiter r = w \<or> tc_tableId r \<in> set ?t))} \<union> set (coverage_rows ?b ?f w ?days ?t)"
    and rest: "filter (\<lambda>r. tc_definition r \<noteq> ?f \<or> tc_dayCode r \<notin> set ?days) rows =
         filter (\<lambda>r. tc_definition r \<noteq> ?f \<or> tc_dayCode r \<notin> set ?days) (table_coverages d)"
    by (rule setWaiterCoverage_effect [OF run])
  have key: "distinct (map (\<lambda>r. (tc_tableId r, tc_definition r, tc_dayCode r)) rows)"
    using db_okD(29) [OF ok] by (simp add: d' keyed_def)
  have covered: "canWaiterOpenTable e' c' t later = (ax_staffMembershipId c' = Some w)"
    if same: "table_coverages later = rows" and t: "dt_id t \<in> set (cg_tableIds dto)"
      and day: "server_day_code e' \<in> set ?days"
      and act: "resolveActiveShiftDefinitionId e' c' later = Some ?f" for later e' c' t
  proof -
    let ?r = "\<lparr>tc_branchId = ?b, tc_tableId = dt_id t, tc_definition = ?f, tc_dayCode = server_day_code e', tc_waiter = w\<rparr>"
    have "?r \<in> set rows" using t day by (simp add: rows coverage_rows_set)
    from row_by_distinct [OF key this]
    have "find (\<lambda>r. tc_tableId r = dt_id t \<and> tc_definition r = ?f \<and> tc_dayCode r = server_day_code e') rows = Some ?r"
      by (simp add: row_by_def)
    then have "coverage_of e' c' (dt_id t) later = Some ?r" using act by (simp add: coverage_of_def same)
    then show ?thesis by (auto simp: canWaiterOpenTable_def)
  qed
  have "checkOpener e' c' dto' t later = Inr () \<longleftrightarrow> ax_staffMembershipId c' = Some w \<and> ax_roleCode c' \<noteq> ''DISPATCHER''"
    if "table_coverages later = rows" and "dt_id t \<in> set (cg_tableIds dto)" and "server_day_code e' \<in> set ?days"
      and "resolveActiveShiftDefinitionId e' c' later = Some ?f" and "\<not> is_call_pickup dto' t" for later e' c' t dto'
    using covered [OF that(1-4)] that(5) by (auto simp: checkOpener_def)
  moreover have "ax_staffMembershipId c' = Some w"
    if "table_coverages later = rows" and "dt_id t \<in> set (cg_tableIds dto)" and "server_day_code e' \<in> set ?days"
      and "resolveActiveShiftDefinitionId e' c' later = Some ?f" and "\<not> is_call_pickup dto' t"
      and "startSession e' c' dto' k later = Inr (res, d2)" and "d2 \<noteq> later" and "db_ok later"
      and "row_by dt_id (sg_tableId dto') (dining_tables later) = Some t" for later e' c' t dto' k res d2
    using covered [OF that(1-4)] dine_in_opening [OF that(6-9) that(5)] by simp
  moreover have "tc_tableId ` {r \<in> set rows. tc_waiter r = w \<and> tc_branchId r = ?b \<and> tc_definition r = ?f \<and> tc_dayCode r = day} =
      set (cg_tableIds dto)" if "day \<in> set ?days" for day
  proof (intro subset_antisym subsetI)
    fix i assume "i \<in> tc_tableId ` {r \<in> set rows. tc_waiter r = w \<and> tc_branchId r = ?b \<and> tc_definition r = ?f \<and> tc_dayCode r = day}"
    then obtain r where "r \<in> set rows" "tc_waiter r = w" "tc_branchId r = ?b" "tc_definition r = ?f" "tc_dayCode r = day" "i = tc_tableId r"
      by blast
    then show "i \<in> set (cg_tableIds dto)" using that by (auto simp: rows dest: coverage_rows_table)
  next
    fix i assume i: "i \<in> set (cg_tableIds dto)"
    let ?r = "\<lparr>tc_branchId = ?b, tc_tableId = i, tc_definition = ?f, tc_dayCode = day, tc_waiter = w\<rparr>"
    have "?r \<in> set rows" using i that by (simp add: rows coverage_rows_set)
    then show "i \<in> tc_tableId ` {r \<in> set rows. tc_waiter r = w \<and> tc_branchId r = ?b \<and> tc_definition r = ?f \<and> tc_dayCode r = day}"
      by (intro image_eqI [where x = ?r]) simp_all
  qed
  ultimately show ?thesis using rest by (simp add: d') blast
qed

text \<open>An owner makes the plan of the night: Sara (16) gets table 20, which waiter 10 had.\<close>

definition roster_db :: db where
  "roster_db = floor_db\<lparr>memberships := [colleague 14 ''WAITER'', colleague 16 ''WAITER'', (colleague 9 ''OWNER_ADMIN'')\<lparr>mb_passwordHash := Some ''Secret99''\<rparr>],
     shift_definitions := [evening_plan], branches := [bole],
     table_coverages := [\<lparr>tc_branchId = 2, tc_tableId = 20, tc_definition = 200, tc_dayCode = ''Thu'', tc_waiter = 10\<rparr>]\<rparr>"

definition planner :: auth_ctx where
  "planner = staff_member 103 13 ''MANAGER'' None 33 [''staff.manage'']"

definition sara :: auth_ctx where
  "sara = staff_member 116 16 ''WAITER'' None 36 [''table.view_assigned'']"

definition table_20_for_sara :: coverage_dto where
  "table_20_for_sara = \<lparr>cg_definition = 200, cg_dayCode = None, cg_applyToAllDays = True, cg_tableIds = [20, 20]\<rparr>"

definition seat_at_20 :: start_session_dto where
  "seat_at_20 = \<lparr>sg_tableId = 20, sg_callPickup = False, sg_customerName = None, sg_customerPhone = None,
     sg_guestCount = Some 4\<rparr>"

theorem coverage_decides_who_opens_witness:
  "\<exists>r d'. setWaiterCoverage evening planner 16 table_20_for_sara roster_db = Inr (r, d') \<and>
     checkOpener evening waiter seat_at_20 table_20 roster_db = Inr () \<and>
     checkOpener evening sara seat_at_20 table_20 d' = Inr () \<and>
     checkOpener evening waiter seat_at_20 table_20 d' \<noteq> Inr ()"
proof -
  have "bindR (setWaiterCoverage evening planner 16 table_20_for_sara roster_db) (\<lambda>(r, d').
      Inr (resolveActiveShiftDefinitionId evening sara d', resolveActiveShiftDefinitionId evening waiter d')) = Inr (Some 200, Some 200)"
    by code_simp
  then obtain r d' where run: "setWaiterCoverage evening planner 16 table_20_for_sara roster_db = Inr (r, d')"
    and act: "resolveActiveShiftDefinitionId evening sara d' = Some 200" "resolveActiveShiftDefinitionId evening waiter d' = Some 200"
    by (elim run_pairE) auto
  have at: "dt_id table_20 \<in> set (cg_tableIds table_20_for_sara)" "cg_definition table_20_for_sara = 200"
    "server_day_code evening \<in> set (target_days 16 table_20_for_sara roster_db)"
    "ax_staffMembershipId sara = Some 16" "ax_staffMembershipId waiter = Some 10" "ax_roleCode sara \<noteq> ''DISPATCHER''"
    "\<not> is_call_pickup seat_at_20 table_20"
    "checkOpener evening waiter seat_at_20 table_20 roster_db = Inr ()" by code_simp+
  from coverage_decides_who_opens [OF run] act at
  have "checkOpener evening sara seat_at_20 table_20 d' = Inr ()" "checkOpener evening waiter seat_at_20 table_20 d' \<noteq> Inr ()"
    by auto
  with run at(8) show ?thesis by blast
qed

text \<open>
  The coverage counts even on days for which the waiter is not planned: the plan of the floor
  then shows the table without a waiter, and nobody but that waiter may open it.
\<close>

lemma unplanned_coverage_is_not_shown:
  "bindR (setWaiterCoverage evening planner 16 table_20_for_sara roster_db) (\<lambda>(r, d').
     bindR (shiftFloor evening planner 200 None d') (\<lambda>v. Inr (v, canWaiterOpenTable evening sara table_20 d'))) =
   Inr ((''Thu'', [(20, None)]), True)"
  by code_simp

text \<open>
  Planning a member for any shift makes an assignment row, which is cancelled later but never
  deleted.
\<close>

lemma fold_assignments:
  "shift_assignments (fold (add_assignment e b m role) fs d) = shift_assignments d @
     map (\<lambda>(f, i). assignment_row e b m role f i) (zip fs [next_id d ..< next_id d + length fs])"
proof (induction fs arbitrary: d)
  case (Cons f fs)
  have "[next_id d ..< next_id d + length (f # fs)] = next_id d # [Suc (next_id d) ..< Suc (next_id d) + length fs]"
    by (simp add: upt_conv_Cons del: upt_Suc)
  then show ?case using Cons [of "add_assignment e b m role f d"]
    by (simp add: add_assignment_def del: upt_Suc)
qed simp

lemma assignment_row_staff [simp]: "sa_staff (assignment_row e b m role f i) = m"
  by (simp add: assignment_row_def split: prod.split)

lemma planned_has_assignment:
  assumes "replaceStaffDayShifts e m b planned role d = Inr d'" and "planned \<noteq> []"
  shows "\<exists>a \<in> set (shift_assignments d'). sa_staff a = m"
proof -
  let ?ids = "distinct_ids (map snd planned)"
  let ?fs = "filter (\<lambda>f. df_id f \<in> set ?ids) (shift_definitions d)"
  have "set ?ids \<noteq> {}" using assms(2) by simp
  then have ne: "?ids \<noteq> []" by (metis list.set(1))
  with assms(1) have "length (filter (\<lambda>f. df_id f \<in> set ?ids \<and> df_branchId f = b \<and> df_status f = ''ACTIVE'') (shift_definitions d)) = length ?ids"
    by (auto simp: replaceStaffDayShifts_def Let_def split: if_splits)
  with ne have "filter (\<lambda>f. df_id f \<in> set ?ids \<and> df_branchId f = b \<and> df_status f = ''ACTIVE'') (shift_definitions d) \<noteq> []"
    by (metis length_0_conv)
  then obtain f fs where fs: "?fs = f # fs" by (cases ?fs) (auto simp: filter_empty_conv)
  let ?d1 = "replan m b planned d"
  have "shift_definitions ?d1 = shift_definitions d" by (simp add: replan_def)
  then have "d' = fold (add_assignment e b m role) ?fs ?d1"
    using assms(1) ne by (simp add: replaceStaffDayShifts_def Let_def split: if_splits)
  then have "assignment_row e b m role f (next_id ?d1) \<in> set (shift_assignments d')"
    unfolding fs by (simp add: fold_assignments upt_conv_Cons del: upt_Suc fold.simps)
  then show ?thesis by force
qed

text \<open>No command of the service deletes an assignment: who has one keeps one.\<close>

definition assigned_staff :: "db \<Rightarrow> id set" where
  "assigned_staff d = sa_staff ` set (shift_assignments d)"

lemma assigned_update_many [simp]:
  "(\<And>a. sa_staff (f a) = sa_staff a) \<Longrightarrow> sa_staff ` set (update_many P f as) = sa_staff ` set as"
  by (induction as) (auto simp: update_many_def)

lemma replan_keeps_assigned: "assigned_staff (replan m b planned d) = assigned_staff d"
  by (simp add: assigned_staff_def replan_def)

lemma plan_keeps_assigned:
  "replaceStaffDayShifts e m b planned role d = Inr d' \<Longrightarrow> assigned_staff d \<subseteq> assigned_staff d'"
  using replan_keeps_assigned [of m b planned d]
  by (auto simp: replaceStaffDayShifts_def Let_def assigned_staff_def fold_assignments image_Un split: if_splits)

lemma roster_step_keeps_assigned: "roster_step d d' \<Longrightarrow> assigned_staff d \<subseteq> assigned_staff d'"
proof (induction rule: roster_step.induct)
  case (Create_shift e c label starts ends grace d r d')
  then show ?case by (auto simp: createShift_def Let_def inversion assigned_staff_def)
next
  case (Update_shift e c i u d r d')
  then show ?case by (auto simp: updateShift_def inversion assigned_staff_def)
next
  case (Delete_shift e c i d r d')
  then show ?case by (auto simp: deleteShift_def inversion assigned_staff_def)
next
  case (Cover e c w dto d x d')
  then show ?case by (auto elim!: setWaiterCoverage_effect simp: assigned_staff_def)
next
  case (Plan e m b planned role d d')
  then show ?case by (rule plan_keeps_assigned)
next
  case (Remove e c m d r d')
  then show ?case by (auto simp: deleteStaff_def Let_def inversion assigned_staff_def split: if_splits)
next
  case (Reset_pin hash granted e c m pin d r d')
  then show ?case
    by (auto simp: resetStaffPin_def set_credential_def inversion assigned_staff_def split: option.splits if_splits)
next
  case (Reset_password hash e c m pw d r d')
  then show ?case
    by (auto simp: resetStaffPassword_def set_credential_def inversion assigned_staff_def split: option.splits if_splits)
next
  case (Elsewhere d' d)
  then show ?case by (simp add: assigned_staff_def)
qed

lemma roster_run_keeps_assigned: "roster_run d d' \<Longrightarrow> assigned_staff d \<subseteq> assigned_staff d'"
  by (induction rule: rtranclp_induct) (auto dest: roster_step_keeps_assigned)

lemma assigned_is_not_deleted:
  assumes "m \<in> assigned_staff d" and "\<not> has_history m d"
  shows "\<not> is_ok (deleteStaff e c m d)"
proof -
  have "restricting_rows m (d\<lparr>table_coverages := tc, dining_tables := dt, memberships := ms, staff_day_shifts := ds\<rparr>)" for tc dt ms ds
    using assms(1) by (auto simp: restricting_rows_def list_ex_iff assigned_staff_def)
  with assms(2) show ?thesis by (auto simp: is_ok_iff deleteStaff_def Let_def inversion split: if_splits)
qed

lemma in_update_id: "y \<in> set rs \<Longrightarrow> key y = i \<Longrightarrow> f y \<in> set (update_id key i f rs)"
  by (force simp: update_id_def update_many_def)

lemma updated_member:
  assumes "y \<in> set rs" and "mb_id y = m" and "\<And>x. mb_id (f x) = mb_id x"
  shows "\<exists>x \<in> set (update_id mb_id m (\<lambda>x. x\<lparr>mb_status := st\<rparr>) (update_id mb_id m f rs)). mb_id x = m \<and> mb_status x = st"
proof -
  let ?g = "\<lambda>x. x\<lparr>mb_status := st\<rparr>"
  have "f y \<in> set (update_id mb_id m f rs)" using assms(1,2) by (rule in_update_id)
  then have "?g (f y) \<in> set (update_id mb_id m ?g (update_id mb_id m f rs))"
    using assms(2,3) by (intro in_update_id [where f = ?g]) simp_all
  moreover have "mb_id (?g (f y)) = m" "mb_status (?g (f y)) = st" using assms(2,3) by simp_all
  ultimately show ?thesis by blast
qed

lemma removed_with_history_stays:
  assumes "deleteStaff e c m d = Inr (u, d')" and "has_history m d"
  shows "\<exists>x \<in> set (memberships d'). mb_id x = m \<and> mb_status x = ''INACTIVE''"
proof -
  from assms obtain y where "y \<in> set (memberships d)" "mb_id y = m"
    by (auto simp: deleteStaff_def Let_def inversion find_member_def dest!: find_Some_in split: if_splits)
  with assms show ?thesis
    by (auto simp: deleteStaff_def Let_def inversion intro!: updated_member split: if_splits)
qed

text \<open>
  C40: whoever was ever planned for a shift cannot be removed from the staff any more, however
  the plans, the shifts, the coverages and the staff were changed since. Replanning cancels the
  assignments but deletes none, so the member keeps one; it is not counted as history, and its
  foreign key refuses to delete the membership: the removal of a member without history fails,
  whoever asks, and a removal that goes through (of a member with history) keeps the row of the
  membership and only makes it INACTIVE.
\<close>

theorem planned_staff_cannot_be_removed:
  assumes plan: "replaceStaffDayShifts e m b planned role d = Inr d1" and some: "planned \<noteq> []"
    and later: "roster_run d1 d2"
  shows "(\<exists>a \<in> set (shift_assignments d2). sa_staff a = m) \<and>
    (\<not> has_history m d2 \<longrightarrow> \<not> is_ok (deleteStaff e' c m d2)) \<and>
    (\<forall>u d3. deleteStaff e' c m d2 = Inr (u, d3) \<longrightarrow>
       (\<exists>x \<in> set (memberships d3). mb_id x = m \<and> mb_status x = ''INACTIVE''))"
proof -
  from planned_has_assignment [OF plan some] have "m \<in> assigned_staff d1" by (auto simp: assigned_staff_def)
  with roster_run_keeps_assigned [OF later] have m: "m \<in> assigned_staff d2" by blast
  then have "\<not> has_history m d2 \<longrightarrow> \<not> is_ok (deleteStaff e' c m d2)" by (simp add: assigned_is_not_deleted)
  with m show ?thesis by (auto simp: assigned_staff_def intro: removed_with_history_stays)
qed

theorem planned_staff_cannot_be_removed_witness:
  "\<exists>d1 d2. replaceStaffDayShifts evening 16 2 [(''Mon'', 200)] None roster_db = Inr d1 \<and>
     replaceStaffDayShifts evening 16 2 [] None d1 = Inr d2 \<and>
     is_ok (deleteStaff evening planner 16 roster_db) \<and> \<not> is_ok (deleteStaff evening planner 16 d2)"
proof -
  have "bindR (replaceStaffDayShifts evening 16 2 [(''Mon'', 200)] None roster_db) (\<lambda>d1.
      bindR (replaceStaffDayShifts evening 16 2 [] None d1) (\<lambda>d2. Inr (has_history 16 d2))) = Inr False"
    and ok: "is_ok (deleteStaff evening planner 16 roster_db)" by code_simp+
  then obtain d1 d2 where r: "replaceStaffDayShifts evening 16 2 [(''Mon'', 200)] None roster_db = Inr d1"
    and r2: "replaceStaffDayShifts evening 16 2 [] None d1 = Inr d2" and h: "\<not> has_history 16 d2"
    by auto
  from r2 have "roster_run d1 d2" by (blast intro: roster_step.Plan)
  from planned_staff_cannot_be_removed [OF r _ this, of evening planner] h r r2 ok show ?thesis by auto
qed

text \<open>
  The reset of a password looks at no role. Whoever may manage the staff of a branch sets the
  password of any member assigned to it, of the owner too, and then knows it, while the same
  caller can neither make an owner nor give an owner a PIN.
\<close>

theorem password_reset_ignores_roles:
  assumes "ax_tenantId c = Some (mb_tenantId x)" and "ax_branchId c = Some b" and "b \<in> set (mb_branches x)"
    and "can e c Act_manage Sub_Staff" and "row_by mb_id m (memberships d) = Some x"
    and "validateStrongPassword (trim p) = None" and "env_pinOk e q (hash q)" and "q = take 72 (trim p)"
  shows "\<exists>d'. resetStaffPassword hash e c m p d = Inr ((), d') \<and>
      (\<exists>y h. row_by mb_id m (memberships d') = Some y \<and> mb_roles y = mb_roles x \<and> mb_passwordHash y = Some h \<and> env_pinOk e q h)"
proof -
  have x: "x \<in> set (memberships d)" "mb_id x = m" using row_by_SomeD [OF assms(5)] by simp_all
  have "find (\<lambda>y. mb_id y = m \<and> mb_tenantId y = mb_tenantId x \<and> b \<in> set (mb_branches y)) (memberships d) \<noteq> None"
    "find_member c m d \<noteq> None"
    using x assms(1,3) by (auto simp: find_member_def find_None_iff)
  then have acc: "requireTenantStaffAccess c m d = Inr ()" using assms(1,2) by (auto simp: requireTenantStaffAccess_def Let_def)
  have adm: "requireAdmin e c = Inr c" using assms(1,2,4) by (simp add: inversion)
  have "trim p \<noteq> []" using assms(6) by (auto simp: validateStrongPassword_def)
  then have "resetStaffPassword hash e c m p d = Inr ((), set_credential c m (hash (take 72 (trim p))) ''STAFF_PASSWORD_RESET'' d)"
    using adm acc \<open>find_member c m d \<noteq> None\<close> assms(6) by (simp add: resetStaffPassword_def)
  moreover have "row_by mb_id m (memberships (set_credential c m h a d)) = Some (x\<lparr>mb_passwordHash := Some h\<rparr>)" for h a
    using assms(5) by (simp add: set_credential_def row_by_update_id)
  ultimately show ?thesis using assms(7,8) by auto
qed

theorem password_reset_ignores_roles_witness:
  "\<exists>d' y. resetStaffPassword (\<lambda>s. s) evening planner 9 ''Manager1'' roster_db = Inr ((), d') \<and>
     row_by mb_id 9 (memberships d') = Some y \<and> mb_roles y = [''OWNER_ADMIN''] \<and> mb_passwordHash y = Some ''Manager1'' \<and>
     assertCanAssignRole (ax_roleCode planner) ''OWNER_ADMIN'' \<noteq> Inr () \<and>
     \<not> is_ok (resetStaffPin (\<lambda>s. s) (\<lambda>_. [''OWNER_ADMIN'']) evening planner 9 ''4321'' roster_db)"
proof -
  let ?x = "(colleague 9 ''OWNER_ADMIN'')\<lparr>mb_passwordHash := Some ''Secret99''\<rparr>"
  have h: "ax_tenantId planner = Some (mb_tenantId ?x)" "ax_branchId planner = Some 2" "2 \<in> set (mb_branches ?x)"
    "can evening planner Act_manage Sub_Staff" "row_by mb_id 9 (memberships roster_db) = Some ?x"
    "validateStrongPassword (trim ''Manager1'') = None" "env_pinOk evening ''Manager1'' ''Manager1''"
    "''Manager1'' = take 72 (trim ''Manager1'')" "mb_roles ?x = [''OWNER_ADMIN'']"
    "assertCanAssignRole (ax_roleCode planner) ''OWNER_ADMIN'' \<noteq> Inr ()"
    "\<not> is_ok (resetStaffPin (\<lambda>s. s) (\<lambda>_. [''OWNER_ADMIN'']) evening planner 9 ''4321'' roster_db)"
    by code_simp+
  from password_reset_ignores_roles [where hash = "\<lambda>s. s", OF h(1-8)] h(9-11) show ?thesis
    by (auto simp: evening_def)
qed

text \<open>
  The windows of assignments are three hours late: the times of a definition are local times
  (UTC+3), as \<open>Shifts.computeShiftWindowForDay\<close> reads them, but are set here as UTC times.
\<close>

lemma assignment_window_is_late:
  assumes "env_now e mod ms_per_day < ms_per_day - addis_offset"
  shows "computeShiftWindowDates e s t =
    (case computeShiftWindowForDay s t (env_now e) of (a, z) \<Rightarrow> (a + addis_offset, z + addis_offset))"
proof -
  have "(env_now e + addis_offset) div ms_per_day = env_now e div ms_per_day"
    using assms mult_div_mod_eq [of ms_per_day "env_now e"] by (intro int_div_pos_eq [where r = "env_now e mod ms_per_day + addis_offset"])
      (auto simp: ms_per_day_def addis_offset_def)
  then show ?thesis
    by (simp add: computeShiftWindowDates_def computeShiftWindowForDay_def local_time_def businessDateUtc_def Let_def algebra_simps)
qed

text \<open>A time of day is read and written without loss.\<close>

lemma formatTime_roundtrip: "m < 1440 \<Longrightarrow> timeToDate (formatTime m) = m"
proof -
  assume "m < 1440"
  have two: "length (pad_start 2 (show_nat n)) = 2" if "n < 100" for n
  proof -
    have "n div 10 < 10" using that by simp
    then show ?thesis
      by (cases "n < 10") (simp_all add: pad_start_def show_nat.simps [of n] show_nat.simps [of "n div 10"])
  qed
  have rd: "read_digits (pad_start 2 (show_nat n)) = n" for n
    by (simp add: pad_start_def read_digits_zeros read_show_nat)
  from \<open>m < 1440\<close> have "m div 60 < 100" "m mod 60 < 100" by simp_all
  then show ?thesis using \<open>m < 1440\<close> two [of "m div 60"]
    by (simp add: timeToDate_def formatTime_def rd)
qed

end
