(* ===== verification/Materials.thy ===== *)
theory Materials
  imports Warehouse
begin

text \<open>
  Catering orders and the materials that leave the house with them
  (\<open>src/outside-orders/outside-orders.service.ts\<close>, the materials of \<open>src/inventory/inventory.service.ts\<close>).
  The kitchen issues trays and plates for an order, the waiter returns them, the kitchen approves
  or disputes the return; a balance per store says how many are on hand, out and lost. The
  tables of materials are kept beside the operational database \<open>md_ops\<close>, which has the catering
  orders, their orders and the stores. Of a catering order the texts of the destination and the
  customer are left out, and so are the copies of an event that are stored for single members.
\<close>

section \<open>Tables\<close>

datatype issue_status = M_PENDING | M_ISSUED | M_RETURNED | M_APPROVED | M_DISPUTED | M_CANCELLED

record material =
  mt_id :: id
  mt_tenantId :: id
  mt_name :: string
  mt_amharicName :: "string option"
  mt_code :: string
  mt_category :: string
  mt_unit :: string
  mt_isReusable :: bool
  mt_imageUrl :: "string option"
  mt_description :: "string option"
  mt_sortOrder :: nat
  mt_status :: string

record material_balance =
  ml_id :: id
  ml_tenantId :: id
  ml_branchId :: "id option"
  ml_locationId :: id
  ml_materialId :: id
  ml_onHand :: decimal
  ml_issued :: decimal
  ml_lost :: decimal
  ml_version :: nat

record issue_line =
  mx_id :: id
  mx_materialId :: id
  mx_name :: string
  mx_issued :: decimal
  mx_returned :: decimal
  mx_shortfall :: decimal
  mx_condition :: string
  mx_note :: "string option"

record material_issue =
  mq_id :: id
  mq_tenantId :: id
  mq_branchId :: id
  mq_businessDate :: date
  mq_orderId :: id
  mq_issuedBy :: id
  mq_waiter :: id
  mq_waiterShift :: id
  mq_status :: issue_status
  mq_note :: "string option"
  mq_issuedAt :: time
  mq_returnedAt :: "time option"
  mq_approvedBy :: "id option"
  mq_approvedAt :: "time option"
  mq_disputeReason :: "string option"
  mq_version :: nat
  mq_lines :: "issue_line list"

record material_db =
  md_ops :: db
  md_materials :: "material list"
  md_balances :: "material_balance list"
  md_issues :: "material_issue list"
  md_events :: "(string \<times> id) list"
  md_next :: id

definition event :: "string \<Rightarrow> id \<Rightarrow> material_db \<Rightarrow> material_db" where
  "event t i d = d\<lparr>md_events := md_events d @ [(t, i)]\<rparr>"

section \<open>Catering orders\<close>

definition requireStaffContext :: "auth_ctx \<Rightarrow> unit result" where
  "requireStaffContext c =
     (if ax_tenantId c = None \<or> ax_branchId c = None then Inl (Forbidden ''Branch access required.'') else Inr ())"

definition requireWaiterShift :: "auth_ctx \<Rightarrow> unit result" where
  "requireWaiterShift c = bindR (requireStaffContext c) (\<lambda>_.
     if ax_staffMembershipId c = None \<or> ax_shiftSessionId c = None then Inl (Forbidden ''SHIFT_REQUIRED'') else Inr ())"

definition createOutsideOrder :: "auth_ctx \<Rightarrow> bool option \<Rightarrow> material_db \<Rightarrow> (outside_order \<times> material_db) result" where
  "createOutsideOrder c requiresReturn d =
     bindR (requireWaiterShift c) (\<lambda>_.
       case row_by sh_id (shift_of c) (shift_sessions (md_ops d)) of
         None \<Rightarrow> Inl (NotFound ''Shift session not found.'')
       | Some s \<Rightarrow>
           let o' = \<lparr>oo_id = md_next d, oo_branchId = branch_of c, oo_businessDate = sh_businessDate s,
                     oo_createdBy = staff_of c, oo_requiresReturn = (requiresReturn \<noteq> Some False), oo_status = S_OPEN,
                     oo_closedAt = None, oo_version = 1\<rparr>
           in Inr (o', event ''OUTSIDE_ORDER_OPENED'' (oo_id o')
                (d\<lparr>md_ops := (md_ops d)\<lparr>outside_orders := outside_orders (md_ops d) @ [o']\<rparr>, md_next := md_next d + 1\<rparr>)))"

definition find_outside :: "auth_ctx \<Rightarrow> id \<Rightarrow> material_db \<Rightarrow> outside_order result" where
  "find_outside c i d =
     (case find (\<lambda>o'. oo_id o' = i \<and> oo_branchId o' = branch_of c) (outside_orders (md_ops d)) of
        None \<Rightarrow> Inl (NotFound ''Outside order not found.'') | Some o' \<Rightarrow> Inr o')"

definition set_outside :: "id \<Rightarrow> (outside_order \<Rightarrow> outside_order) \<Rightarrow> material_db \<Rightarrow> material_db" where
  "set_outside i f d = d\<lparr>md_ops := (md_ops d)\<lparr>outside_orders := update_id oo_id i f (outside_orders (md_ops d))\<rparr>\<rparr>"

text \<open>The status of an update is any text; those that are none of the model's are left out.\<close>

definition updated_outside :: "session_status option \<Rightarrow> outside_order \<Rightarrow> outside_order" where
  "updated_outside st o' = o'\<lparr>oo_status := (case st of Some s \<Rightarrow> s | None \<Rightarrow> oo_status o'), oo_version := oo_version o' + 1\<rparr>"

definition updateOutsideOrder ::
  "auth_ctx \<Rightarrow> id \<Rightarrow> session_status option \<Rightarrow> material_db \<Rightarrow> (outside_order \<times> material_db) result" where
  "updateOutsideOrder c i st d =
     bindR (requireStaffContext c) (\<lambda>_. bindR (find_outside c i d) (\<lambda>o'.
       if oo_status o' = S_CLOSED then Inl (BadRequest ''Cannot modify closed outside orders.'')
       else Inr (updated_outside st o', set_outside i (updated_outside st) d)))"

definition orders_outside :: "id \<Rightarrow> material_db \<Rightarrow> order_row list" where
  "orders_outside i d = filter (\<lambda>r. od_outsideOrderId r = Some i) (orders (md_ops d))"

definition still_out :: "issue_status \<Rightarrow> bool" where
  "still_out s \<longleftrightarrow> s \<in> set [M_PENDING, M_ISSUED, M_RETURNED, M_DISPUTED]"

definition closed_outside :: "env \<Rightarrow> outside_order \<Rightarrow> outside_order" where
  "closed_outside e o' = o'\<lparr>oo_status := S_CLOSED, oo_closedAt := Some (env_now e), oo_version := oo_version o' + 1\<rparr>"

definition closeOutsideOrder :: "env \<Rightarrow> auth_ctx \<Rightarrow> id \<Rightarrow> material_db \<Rightarrow> (outside_order \<times> material_db) result" where
  "closeOutsideOrder e c i d =
     bindR (requireStaffContext c) (\<lambda>_. bindR (find_outside c i d) (\<lambda>o'.
       if oo_status o' = S_CLOSED then Inr (o', d)
       else if oo_requiresReturn o' \<and>
          0 < count_where (\<lambda>q. mq_orderId q \<in> set (map od_id (orders_outside i d)) \<and> still_out (mq_status q)) (md_issues d)
       then Inl (BadRequest ''MATERIALS_OUTSTANDING'')
       else Inr (closed_outside e o', set_outside i (closed_outside e) d)))"

definition requestMaterials :: "auth_ctx \<Rightarrow> id \<Rightarrow> material_db \<Rightarrow> (unit \<times> material_db) result" where
  "requestMaterials c i d =
     bindR (requireStaffContext c) (\<lambda>_. bindR (find_outside c i d) (\<lambda>_.
       Inr ((), event ''material.issue.requested'' i d)))"

record materials_summary =
  su_issued :: decimal
  su_returned :: decimal
  su_shortfall :: decimal
  su_hasDispute :: bool
  su_issuesCount :: nat
  su_allReturned :: bool

definition materials_summary_of :: "material_issue list \<Rightarrow> materials_summary" where
  "materials_summary_of qs =
     (let ls = concat (map mq_lines qs); i = sum_list (map mx_issued ls); r = sum_list (map mx_returned ls);
          s = sum_list (map mx_shortfall ls)
      in \<lparr>su_issued = i, su_returned = r, su_shortfall = s, su_hasDispute = list_ex (\<lambda>q. mq_status q = M_DISPUTED) qs,
          su_issuesCount = length qs, su_allReturned = (0 < i \<and> i \<le> r + s)\<rparr>)"

definition issues_outside :: "id \<Rightarrow> material_db \<Rightarrow> material_issue list" where
  "issues_outside i d = concat (map (\<lambda>r. filter (\<lambda>q. mq_orderId q = od_id r) (md_issues d)) (orders_outside i d))"

text \<open>Rows are in the order of their creation, which is that of \<open>openedAt\<close>.\<close>

definition listOutsideOrders ::
  "auth_ctx \<Rightarrow> session_status option \<Rightarrow> date option \<Rightarrow> nat option \<Rightarrow> material_db \<Rightarrow> (outside_order \<times> nat \<times> materials_summary) list result" where
  "listOutsideOrders c st day limit d =
     bindR (requireStaffContext c) (\<lambda>_.
       Inr (map (\<lambda>o'. (o', length (orders_outside (oo_id o') d), materials_summary_of (issues_outside (oo_id o') d)))
         (take (case limit of None \<Rightarrow> 50 | Some n \<Rightarrow> if n = 0 then 50 else min 100 n)
           (rev (filter (\<lambda>o'. oo_branchId o' = branch_of c \<and> (case st of None \<Rightarrow> True | Some s \<Rightarrow> oo_status o' = s) \<and>
              (case day of None \<Rightarrow> True | Some x \<Rightarrow> oo_businessDate o' = x)) (outside_orders (md_ops d)))))))"

definition getOutsideOrder ::
  "auth_ctx \<Rightarrow> id \<Rightarrow> material_db \<Rightarrow> (outside_order \<times> order_row list \<times> material_issue list) result" where
  "getOutsideOrder c i d =
     bindR (requireStaffContext c) (\<lambda>_. bindR (find_outside c i d) (\<lambda>o'.
       Inr (o', sort_key od_confirmedAt (orders_outside i d),
         sort_key (\<lambda>q. - mq_issuedAt q) (filter (\<lambda>q. mq_orderId q \<in> set (map od_id (orders_outside i d))) (md_issues d)))))"

section \<open>Issue, return, approval\<close>

record issue_dto =
  iu_orderId :: "id option"
  iu_outsideOrderId :: "id option"
  iu_lines :: "(id \<times> decimal \<times> string option) list"
  iu_note :: "string option"

definition latest_order :: "auth_ctx \<Rightarrow> id \<Rightarrow> material_db \<Rightarrow> order_row option" where
  "latest_order c i d = (case sort_key (\<lambda>r. - od_confirmedAt r)
     (filter (\<lambda>r. od_branchId r = branch_of c) (orders_outside i d)) of [] \<Rightarrow> None | r # _ \<Rightarrow> Some r)"

definition issue_order :: "auth_ctx \<Rightarrow> issue_dto \<Rightarrow> material_db \<Rightarrow> order_row result" where
  "issue_order c dto d =
     bindR (case (iu_orderId dto, iu_outsideOrderId dto) of
         (Some i, _) \<Rightarrow> Inr i
       | (None, Some x) \<Rightarrow> (case latest_order c x d of
           None \<Rightarrow> Inl (NotFound ''No active order found for this outside order container.'') | Some r \<Rightarrow> Inr (od_id r))
       | (None, None) \<Rightarrow> Inl (BadRequest ''Either orderId or outsideOrderId is required.'')) (\<lambda>i.
     case find (\<lambda>r. od_id r = i \<and> od_branchId r = branch_of c) (orders (md_ops d)) of
       None \<Rightarrow> Inl (NotFound ''Order not found.'') | Some r \<Rightarrow> Inr r)"

definition find_material :: "auth_ctx \<Rightarrow> id \<Rightarrow> material_db \<Rightarrow> material option" where
  "find_material c i d = find (\<lambda>m. mt_id m = i \<and> mt_tenantId m = tenant_of c) (md_materials d)"

text \<open>\<open>Decimal(14, 3)\<close>.\<close>

abbreviation qty3 :: "decimal \<Rightarrow> decimal" where
  "qty3 \<equiv> round_half_up 3"

definition new_issue_line :: "auth_ctx \<Rightarrow> material_db \<Rightarrow> id \<Rightarrow> nat \<Rightarrow> id \<times> decimal \<times> string option \<Rightarrow> issue_line" where
  "new_issue_line c d i k x =
     (case x of (m, q, note) \<Rightarrow>
        \<lparr>mx_id = i + 1 + k, mx_materialId = m, mx_name = (case find_material c m d of Some y \<Rightarrow> mt_name y | None \<Rightarrow> []),
         mx_issued = qty3 q, mx_returned = 0, mx_shortfall = 0, mx_condition = ''OK'', mx_note = trim_or_null note\<rparr>)"

text \<open>The balance an issue or an approval books on: the first of the branch for that material.\<close>

definition branch_balance :: "auth_ctx \<Rightarrow> id \<Rightarrow> material_balance \<Rightarrow> bool" where
  "branch_balance c m b \<longleftrightarrow> ml_tenantId b = tenant_of c \<and> ml_branchId b = ax_branchId c \<and> ml_materialId b = m"

definition book_balance :: "auth_ctx \<Rightarrow> id \<Rightarrow> (material_balance \<Rightarrow> material_balance) \<Rightarrow> material_db \<Rightarrow> material_db" where
  "book_balance c m f d =
     (case find (branch_balance c m) (md_balances d) of
        None \<Rightarrow> d
      | Some b \<Rightarrow> d\<lparr>md_balances := update_id ml_id (ml_id b) (\<lambda>b. (f b)\<lparr>ml_version := ml_version b + 1\<rparr>) (md_balances d)\<rparr>)"

definition hand_out :: "decimal \<Rightarrow> material_balance \<Rightarrow> material_balance" where
  "hand_out q b = b\<lparr>ml_onHand := qty3 (ml_onHand b - q), ml_issued := qty3 (ml_issued b + q)\<rparr>"

definition new_issue :: "env \<Rightarrow> auth_ctx \<Rightarrow> issue_dto \<Rightarrow> order_row \<Rightarrow> material_db \<Rightarrow> material_issue" where
  "new_issue e c dto r d =
     \<lparr>mq_id = md_next d, mq_tenantId = tenant_of c, mq_branchId = branch_of c, mq_businessDate = od_businessDate r,
      mq_orderId = od_id r, mq_issuedBy = staff_of c, mq_waiter = od_createdBy r, mq_waiterShift = od_waiterShift r,
      mq_status = M_ISSUED, mq_note = trim_or_null (iu_note dto), mq_issuedAt = env_now e, mq_returnedAt = None,
      mq_approvedBy = None, mq_approvedAt = None, mq_disputeReason = None, mq_version = 1,
      mq_lines = map (\<lambda>(k, x). new_issue_line c d (md_next d) k x) (List.enumerate 0 (iu_lines dto))\<rparr>"

definition issueMaterials :: "env \<Rightarrow> auth_ctx \<Rightarrow> issue_dto \<Rightarrow> material_db \<Rightarrow> (material_issue \<times> material_db) result" where
  "issueMaterials e c dto d =
     bindR (requireStaffContext c) (\<lambda>_. bindR (issue_order c dto d) (\<lambda>r.
       if list_ex (\<lambda>(m, _). find_material c m d = None) (iu_lines dto) then Inl (NotFound ''Material not found.'')
       else if ax_staffMembershipId c = None then Inl (DbError ''issued_by_chef_membership_id'')
       else
         let q = new_issue e c dto r d;
             d1 = d\<lparr>md_issues := md_issues d @ [q], md_next := md_next d + 1 + length (iu_lines dto)\<rparr>
         in Inr (q, event ''MATERIAL_ISSUE_ISSUED'' (mq_id q)
              (fold (\<lambda>(m, x, _). book_balance c m (hand_out x)) (iu_lines dto) d1))))"

definition find_issue :: "auth_ctx \<Rightarrow> id \<Rightarrow> material_db \<Rightarrow> material_issue option" where
  "find_issue c i d = find (\<lambda>q. mq_id q = i \<and> mq_tenantId q = tenant_of c \<and> mq_branchId q = branch_of c) (md_issues d)"

record return_line =
  rt_lineId :: id
  rt_qtyReturned :: decimal
  rt_condition :: "string option"
  rt_note :: "string option"

definition returned_line :: "return_line \<Rightarrow> issue_line \<Rightarrow> issue_line" where
  "returned_line x l =
     (let r = min (mx_issued l) (rt_qtyReturned x)
      in l\<lparr>mx_returned := qty3 r, mx_shortfall := qty3 (max 0 (mx_issued l - r)),
           mx_condition := (case rt_condition x of None \<Rightarrow> ''OK'' | Some s \<Rightarrow> if s = [] then ''OK'' else s),
           mx_note := (case trim_or_null (rt_note x) of None \<Rightarrow> mx_note l | Some s \<Rightarrow> Some s)\<rparr>)"

text \<open>Each returned line is computed from the line as it was read; the last of a line counts.\<close>

definition return_lines :: "return_line list \<Rightarrow> issue_line list \<Rightarrow> issue_line list" where
  "return_lines xs ls = map (\<lambda>l. case find (\<lambda>x. rt_lineId x = mx_id l) (rev xs) of
     None \<Rightarrow> l | Some x \<Rightarrow> returned_line x l) ls"

definition returned_issue :: "env \<Rightarrow> return_line list \<Rightarrow> string option \<Rightarrow> material_issue \<Rightarrow> material_issue" where
  "returned_issue e xs note q =
     q\<lparr>mq_lines := return_lines xs (mq_lines q), mq_status := M_RETURNED, mq_returnedAt := Some (env_now e),
       mq_note := (case note of
           None \<Rightarrow> mq_note q
         | Some s \<Rightarrow> if s = [] then mq_note q
             else Some ((case mq_note q of None \<Rightarrow> [] | Some n \<Rightarrow> if n = [] then [] else n @ '' | '') @ ''Return: '' @ s)),
       mq_version := mq_version q + 1\<rparr>"

definition set_issue :: "id \<Rightarrow> (material_issue \<Rightarrow> material_issue) \<Rightarrow> material_db \<Rightarrow> material_db" where
  "set_issue i f d = d\<lparr>md_issues := update_id mq_id i f (md_issues d)\<rparr>"

definition returnMaterials ::
  "env \<Rightarrow> auth_ctx \<Rightarrow> id \<Rightarrow> return_line list \<Rightarrow> string option \<Rightarrow> material_db \<Rightarrow> (unit \<times> material_db) result" where
  "returnMaterials e c i xs note d =
     bindR (requireStaffContext c) (\<lambda>_.
       case find_issue c i d of
         None \<Rightarrow> Inl (NotFound ''Material issue record not found.'')
       | Some q \<Rightarrow>
           if mq_status q \<in> set [M_APPROVED, M_CANCELLED]
           then Inl (BadRequest ''This material issue is already completed or cancelled.'')
           else Inr ((), event ''MATERIAL_ISSUE_RETURNED'' i (set_issue i (returned_issue e xs note) d)))"

datatype audit_action = Approve | Dispute "string option"

definition approved_issue :: "env \<Rightarrow> auth_ctx \<Rightarrow> material_issue \<Rightarrow> material_issue" where
  "approved_issue e c q = q\<lparr>mq_status := M_APPROVED, mq_approvedBy := ax_staffMembershipId c,
     mq_approvedAt := Some (env_now e), mq_version := mq_version q + 1\<rparr>"

definition disputed_issue :: "string option \<Rightarrow> material_issue \<Rightarrow> material_issue" where
  "disputed_issue why q = q\<lparr>mq_status := M_DISPUTED,
     mq_disputeReason := Some (case why of None \<Rightarrow> ''Items missing or damaged upon inspection.''
       | Some s \<Rightarrow> if s = [] then ''Items missing or damaged upon inspection.'' else s),
     mq_version := mq_version q + 1\<rparr>"

definition take_back :: "issue_line \<Rightarrow> material_balance \<Rightarrow> material_balance" where
  "take_back l b = b\<lparr>ml_issued := qty3 (ml_issued b - mx_issued l), ml_onHand := qty3 (ml_onHand b + mx_returned l),
     ml_lost := qty3 (ml_lost b + mx_shortfall l)\<rparr>"

definition auditMaterialIssue ::
  "env \<Rightarrow> auth_ctx \<Rightarrow> id \<Rightarrow> audit_action \<Rightarrow> material_db \<Rightarrow> (material_issue \<times> material_db) result" where
  "auditMaterialIssue e c i a d =
     bindR (requireStaffContext c) (\<lambda>_.
       case find_issue c i d of
         None \<Rightarrow> Inl (NotFound ''Material issue not found.'')
       | Some q \<Rightarrow>
           (case a of
              Dispute why \<Rightarrow> Inr (disputed_issue why q,
                event ''MATERIAL_ISSUE_DISPUTED'' i (set_issue i (disputed_issue why) d))
            | Approve \<Rightarrow> Inr (approved_issue e c q, event ''MATERIAL_ISSUE_APPROVED'' i
                (fold (\<lambda>l. book_balance c (mx_materialId l) (take_back l)) (mq_lines q)
                  (set_issue i (approved_issue e c) d)))))"

definition listActiveMaterialIssues :: "auth_ctx \<Rightarrow> material_db \<Rightarrow> material_issue list result" where
  "listActiveMaterialIssues c d =
     bindR (requireStaffContext c) (\<lambda>_.
       Inr (sort_key (\<lambda>q. - mq_issuedAt q) (filter (\<lambda>q. mq_tenantId q = tenant_of c \<and> mq_branchId q = branch_of c \<and>
         still_out (mq_status q)) (md_issues d))))"

section \<open>The catalogue of materials\<close>

definition requireMaterialAccess :: "env \<Rightarrow> auth_ctx \<Rightarrow> app_action \<Rightarrow> unit result" where
  "requireMaterialAccess e c a =
     (if ax_tenantId c = None then Inl (Forbidden ''No restaurant on this account.'')
      else if \<not> (can e c a Sub_InventoryMaterial \<or> can e c Act_manage Sub_InventoryMaterial \<or>
         can e c Act_issue Sub_InventoryMaterial \<or> can e c Act_approve Sub_InventoryMaterial \<or>
         can e c Act_return Sub_InventoryMaterial \<or> can e c Act_manage Sub_Inventory \<or> can e c Act_manage Sub_all)
      then Inl (Forbidden ''Materials access requires kitchen or inventory permissions.'')
      else Inr ())"

text \<open>\<open>replace(/[^A-Z0-9]+/g, '_')\<close>: a run of other characters becomes one underscore.\<close>

definition code_char :: "char \<Rightarrow> bool" where
  "code_char ch \<longleftrightarrow> (let n = (of_char ch :: nat) in (48 \<le> n \<and> n \<le> 57) \<or> (65 \<le> n \<and> n \<le> 90))"

fun underscored :: "bool \<Rightarrow> string \<Rightarrow> string" where
  "underscored run [] = []"
| "underscored run (ch # s) =
     (if code_char ch then ch # underscored False s
      else if run then underscored True s else CHR ''_'' # underscored True s)"

definition strip_underscores :: "string \<Rightarrow> string" where
  "strip_underscores s = rev (dropWhile (\<lambda>ch. ch = CHR ''_'') (rev (dropWhile (\<lambda>ch. ch = CHR ''_'') s)))"

definition base_code :: "string \<Rightarrow> string" where
  "base_code raw = (let s = take 50 (strip_underscores (underscored False (to_upper (trim raw))))
     in if s = [] then ''MATERIAL'' else s)"

text \<open>
  The search for a code nobody has: the base, then the base with 2, 3 and so on. The loop has no
  bound of its own, and \<open>slice(0, 60)\<close> could make it repeat itself.
\<close>

partial_function (option) free_code :: "string list \<Rightarrow> string \<Rightarrow> nat \<Rightarrow> string \<Rightarrow> string option" where
  "free_code taken base n code =
     (if List.member taken code then free_code taken base (n + 1) (take 60 (base @ ''_'' @ show_nat n))
      else Some code)"

declare free_code.simps [code]

definition taken_codes :: "id \<Rightarrow> id option \<Rightarrow> material_db \<Rightarrow> string list" where
  "taken_codes t self d =
     map mt_code (filter (\<lambda>m. mt_tenantId m = t \<and> Some (mt_id m) \<noteq> self) (md_materials d))"

definition resolveMaterialCode :: "id \<Rightarrow> string \<Rightarrow> id option \<Rightarrow> material_db \<Rightarrow> string option" where
  "resolveMaterialCode t raw self d = free_code (taken_codes t self d) (base_code raw) 2 (base_code raw)"

text \<open>A search that does not end never answers; \<open>DbError ''timeout''\<close> stands for it.\<close>

definition resolved_code :: "id \<Rightarrow> string \<Rightarrow> id option \<Rightarrow> material_db \<Rightarrow> string result" where
  "resolved_code t raw self d = (case resolveMaterialCode t raw self d of
     None \<Rightarrow> Inl (DbError ''timeout'') | Some s \<Rightarrow> Inr s)"

record material_dto =
  my_name :: string
  my_code :: "string option"
  my_category :: "string option"
  my_unit :: "string option"
  my_isReusable :: "bool option"
  my_imageUrl :: "string option"
  my_description :: "string option"
  my_amharicName :: "string option"
  my_sortOrder :: "nat option"

text \<open>\<open>mode: 'insensitive'\<close>, for the Latin letters.\<close>

definition same_name :: "string \<Rightarrow> string \<Rightarrow> bool" where
  "same_name a b \<longleftrightarrow> to_upper a = to_upper b"

definition createMaterial :: "env \<Rightarrow> auth_ctx \<Rightarrow> material_dto \<Rightarrow> material_db \<Rightarrow> (material \<times> material_db) result" where
  "createMaterial e c dto d =
     bindR (requireInventoryAccess e c False Act_manage) (\<lambda>_.
     let name = trim (my_name dto)
     in bindR (resolved_code (tenant_of c) (trim_or name (my_code dto)) None d) (\<lambda>code.
        if list_ex (\<lambda>m. mt_tenantId m = tenant_of c \<and> (mt_code m = code \<or> same_name (mt_name m) name)) (md_materials d)
        then Inl (Conflict ''A material with this name or code already exists.'')
        else
          let m = \<lparr>mt_id = md_next d, mt_tenantId = tenant_of c, mt_name = name,
                   mt_amharicName = trim_or_null (my_amharicName dto), mt_code = code,
                   mt_category = to_upper (case my_category dto of None \<Rightarrow> ''OTHER'' | Some s \<Rightarrow> if s = [] then ''OTHER'' else s),
                   mt_unit = trim_or ''pcs'' (my_unit dto), mt_isReusable = (my_isReusable dto \<noteq> Some False),
                   mt_imageUrl = trim_or_null (my_imageUrl dto), mt_description = trim_or_null (my_description dto),
                   mt_sortOrder = (case my_sortOrder dto of None \<Rightarrow> 0 | Some n \<Rightarrow> n), mt_status = ''ACTIVE''\<rparr>
          in Inr (m, event ''inventory.material.created'' (mt_id m)
               (d\<lparr>md_materials := md_materials d @ [m], md_next := md_next d + 1\<rparr>))))"

text \<open>In an update every field may be absent; \<open>my_amharicName = Some ''''\<close> clears the column.\<close>

record material_update =
  mu_name :: "string option"
  mu_code :: "string option"
  mu_category :: "string option"
  mu_unit :: "string option"
  mu_isReusable :: "bool option"
  mu_imageUrl :: "string option"
  mu_description :: "string option"
  mu_amharicName :: "string option"
  mu_sortOrder :: "nat option"
  mu_status :: "string option"

definition filled :: "string option \<Rightarrow> string option" where
  "filled s = (case s of Some [] \<Rightarrow> None | _ \<Rightarrow> s)"

definition updated_text :: "string option \<Rightarrow> string option \<Rightarrow> string option" where
  "updated_text s old = (case s of None \<Rightarrow> old | Some t \<Rightarrow> trim_or_null (Some t))"

definition updated_material :: "material_update \<Rightarrow> string option \<Rightarrow> material \<Rightarrow> material" where
  "updated_material u code m = m\<lparr>
     mt_name := (case trim_or_null (mu_name u) of Some s \<Rightarrow> s | None \<Rightarrow> mt_name m),
     mt_amharicName := updated_text (mu_amharicName u) (mt_amharicName m),
     mt_code := (case code of Some s \<Rightarrow> s | None \<Rightarrow> mt_code m),
     mt_category := (case filled (mu_category u) of Some s \<Rightarrow> to_upper s | None \<Rightarrow> mt_category m),
     mt_unit := (case mu_unit u of Some s \<Rightarrow> trim_or ''pcs'' (Some s) | None \<Rightarrow> mt_unit m),
     mt_isReusable := (case mu_isReusable u of Some b \<Rightarrow> b | None \<Rightarrow> mt_isReusable m),
     mt_imageUrl := updated_text (mu_imageUrl u) (mt_imageUrl m),
     mt_description := updated_text (mu_description u) (mt_description m),
     mt_sortOrder := (case mu_sortOrder u of Some n \<Rightarrow> n | None \<Rightarrow> mt_sortOrder m),
     mt_status := (case filled (mu_status u) of Some s \<Rightarrow> to_upper s | None \<Rightarrow> mt_status m)\<rparr>"

definition updateMaterial ::
  "env \<Rightarrow> auth_ctx \<Rightarrow> id \<Rightarrow> material_update \<Rightarrow> material_db \<Rightarrow> (material \<times> material_db) result" where
  "updateMaterial e c i u d =
     bindR (requireInventoryAccess e c False Act_manage) (\<lambda>_.
     case find_material c i d of
       None \<Rightarrow> Inl (NotFound ''Material not found.'')
     | Some m \<Rightarrow>
         (let nextName = trim_or_null (mu_name u); rawCode = trim_or_null (mu_code u) in
          if nextName \<noteq> None \<and> the nextName \<noteq> mt_name m \<and>
             list_ex (\<lambda>x. mt_tenantId x = tenant_of c \<and> same_name (mt_name x) (the nextName) \<and> mt_id x \<noteq> i) (md_materials d)
          then Inl (Conflict ''A material with that name already exists.'')
          else bindR (if rawCode \<noteq> None \<and> to_upper (the rawCode) \<noteq> mt_code m
                      then bindR (resolved_code (tenant_of c) (the rawCode) (Some i) d) (\<lambda>s. Inr (Some s))
                      else Inr None) (\<lambda>code.
            Inr (updated_material u code m,
              d\<lparr>md_materials := update_id mt_id i (updated_material u code) (md_materials d)\<rparr>))))"

definition deleteMaterial :: "env \<Rightarrow> auth_ctx \<Rightarrow> id \<Rightarrow> material_db \<Rightarrow> (unit \<times> material_db) result" where
  "deleteMaterial e c i d =
     bindR (requireInventoryAccess e c False Act_manage) (\<lambda>_.
       if find_material c i d = None then Inl (NotFound ''Material not found.'')
       else if 0 < sum_list (map (\<lambda>q. if still_out (mq_status q)
            then count_where (\<lambda>l. mx_materialId l = i) (mq_lines q) else 0) (md_issues d))
       then Inl (BadRequest ''This material is still out on an open issue. Archive it after all returns are approved.'')
       else Inr ((), d\<lparr>md_materials := update_id mt_id i (\<lambda>m. m\<lparr>mt_status := ''ARCHIVED''\<rparr>) (md_materials d)\<rparr>))"

text \<open>The opening or counted quantity of a material at a store; issued and lost stay.\<close>

definition put_on_hand :: "auth_ctx \<Rightarrow> id \<Rightarrow> decimal option \<Rightarrow> id \<Rightarrow> material_db \<Rightarrow> material_db" where
  "put_on_hand c m qty l d =
     (case find (\<lambda>b. ml_locationId b = l \<and> ml_materialId b = m) (md_balances d) of
        Some b \<Rightarrow> d\<lparr>md_balances := update_id ml_id (ml_id b)
          (\<lambda>b. case qty of Some q \<Rightarrow> b\<lparr>ml_onHand := qty3 q\<rparr> | None \<Rightarrow> b) (md_balances d)\<rparr>
      | None \<Rightarrow> d\<lparr>md_balances := md_balances d @
          [\<lparr>ml_id = md_next d, ml_tenantId = tenant_of c, ml_branchId = ax_branchId c, ml_locationId = l, ml_materialId = m,
            ml_onHand = qty3 (case qty of Some q \<Rightarrow> q | None \<Rightarrow> 0), ml_issued = 0, ml_lost = 0, ml_version = 1\<rparr>],
          md_next := md_next d + 1\<rparr>)"

definition upsertMaterialBalance ::
  "env \<Rightarrow> auth_ctx \<Rightarrow> id \<Rightarrow> decimal option \<Rightarrow> id option \<Rightarrow> material_db \<Rightarrow> (unit \<times> material_db) result" where
  "upsertMaterialBalance e c m qty loc d =
     bindR (requireInventoryAccess e c True Act_manage) (\<lambda>_.
       if find_material c m d = None then Inl (NotFound ''Material not found.'')
       else bindR (case loc of
           Some l \<Rightarrow> if list_ex (\<lambda>r. lo_id r = l) (locations (md_ops d)) then Inr (l, md_ops d)
             else Inl (DbError ''inventory_material_balances_location_id_fkey'')
         | None \<Rightarrow> ensureDefaultLocation (tenant_of c) (branch_of c) (md_ops d))
         (\<lambda>(l, ops). Inr ((), put_on_hand c m qty l (d\<lparr>md_ops := ops\<rparr>))))"

record material_totals =
  mo_onHand :: decimal
  mo_issued :: decimal
  mo_lost :: decimal

text \<open>What \<open>listMaterials\<close> shows of a material; its search and paging are left out.\<close>

definition totals_of :: "auth_ctx \<Rightarrow> id \<Rightarrow> material_db \<Rightarrow> material_totals" where
  "totals_of c m d =
     (let bs = filter (\<lambda>b. ml_tenantId b = tenant_of c \<and> ml_materialId b = m \<and>
            (ax_branchId c = None \<or> ml_branchId b = ax_branchId c)) (md_balances d)
      in \<lparr>mo_onHand = sum_list (map ml_onHand bs), mo_issued = sum_list (map ml_issued bs),
          mo_lost = sum_list (map ml_lost bs)\<rparr>)"

section \<open>The search for a code\<close>

lemma show_nat_length: "n < 10 ^ Suc k \<Longrightarrow> length (show_nat n) \<le> Suc k"
proof (induction k arbitrary: n)
  case 0
  then show ?case by (subst show_nat.simps) simp
next
  case (Suc k)
  show ?case
  proof (cases "n < 10")
    case False
    have "n div 10 < 10 ^ Suc k" using Suc.prems by (simp add: div_less_iff_less_mult)
    with Suc.IH [of "n div 10"] False show ?thesis by (subst show_nat.simps) simp
  qed (subst show_nat.simps, simp)
qed

definition candidate :: "string \<Rightarrow> nat \<Rightarrow> string" where
  "candidate base k = (if k = 0 then base else base @ ''_'' @ show_nat (k + 1))"

lemma candidate_inj: "candidate base j = candidate base k \<Longrightarrow> j = k"
proof -
  have "m = n" if "show_nat m = show_nat n" for m n using read_show_nat that by metis
  then show "candidate base j = candidate base k \<Longrightarrow> j = k"
    by (auto simp: candidate_def split: if_splits)
qed

lemma free_code_finds:
  assumes "\<And>j. j < m \<Longrightarrow> c j \<in> set taken" and "c m \<notin> set taken"
    and "\<And>j. j < m \<Longrightarrow> c (Suc j) = take 60 (base @ ''_'' @ show_nat (n + j))"
  shows "free_code taken base n (c 0) = Some (c m)"
  using assms
proof (induction m arbitrary: n c)
  case 0
  then show ?case by (subst free_code.simps) simp
next
  case (Suc m)
  have "free_code taken base (n + 1) (c (Suc 0)) = Some (c (Suc m))"
    using Suc.IH [of "\<lambda>j. c (Suc j)" "n + 1"] Suc.prems by fastforce
  with Suc.prems(1) [of 0] Suc.prems(3) [of 0] show ?case
    by (subst free_code.simps) simp
qed

lemma base_code_length: "length (base_code raw) \<le> 50" and base_code_nonempty: "base_code raw \<noteq> []"
  by (auto simp: base_code_def Let_def)

lemma free_code_total:
  assumes "length taken < 999999998" and "length base \<le> 50"
  shows "\<exists>k \<le> length taken. free_code taken base 2 base = Some (candidate base k) \<and> candidate base k \<notin> set taken \<and>
     (\<forall>j < k. candidate base j \<in> set taken)"
proof -
  have "\<exists>k \<le> length taken. candidate base k \<notin> set taken"
  proof (rule ccontr)
    assume "\<not> ?thesis"
    then have "candidate base ` {..length taken} \<subseteq> set taken" by auto
    then have "card (candidate base ` {..length taken}) \<le> length taken"
      using card_mono [of "set taken"] card_length [of taken] by (meson List.finite_set le_trans)
    moreover have "card (candidate base ` {..length taken}) = Suc (length taken)"
      using candidate_inj by (subst card_image) (auto simp: inj_on_def)
    ultimately show False by simp
  qed
  then obtain k0 where k0: "k0 \<le> length taken" "candidate base k0 \<notin> set taken" by blast
  define k where "k = (LEAST k. candidate base k \<notin> set taken)"
  have k: "candidate base k \<notin> set taken" unfolding k_def by (rule LeastI [of _ k0]) (rule k0(2))
  have low: "candidate base j \<in> set taken" if "j < k" for j using that not_less_Least unfolding k_def by blast
  have le: "k \<le> length taken" using Least_le [of "\<lambda>k. candidate base k \<notin> set taken", OF k0(2)] k0(1) unfolding k_def by simp
  have "candidate base (Suc j) = take 60 (base @ ''_'' @ show_nat (2 + j))" if "j < k" for j
  proof -
    have "length (show_nat (2 + j)) \<le> Suc 8" using that le assms(1) by (intro show_nat_length) simp
    with assms(2) show ?thesis by (simp add: candidate_def)
  qed
  with low k have "free_code taken base 2 (candidate base 0) = Some (candidate base k)"
    by (intro free_code_finds) auto
  moreover have "candidate base 0 = base" by (simp add: candidate_def)
  ultimately show ?thesis using le k low by (intro exI [of _ k]) simp
qed

text \<open>
  C32: creating a material always ends, and with a code of its own. Whatever name or code is typed
  and whatever codes are taken (short of a thousand million materials), the search for a free
  code stops, and a material whose name is new gets a code nobody in the restaurant has, which is
  the typed one if that is free, is not empty and fits its column.
\<close>

theorem new_material_gets_a_free_code:
  assumes "ax_tenantId c \<noteq> None" and "can e c Act_manage Sub_Inventory" and "length (md_materials d) < 999999998"
    and "\<not> list_ex (\<lambda>m. mt_tenantId m = tenant_of c \<and> same_name (mt_name m) (trim (my_name dto))) (md_materials d)"
  shows "\<exists>m d'. createMaterial e c dto d = Inr (m, d') \<and> md_materials d' = md_materials d @ [m] \<and>
     mt_code m \<notin> set (taken_codes (tenant_of c) None d) \<and> mt_code m \<noteq> [] \<and> length (mt_code m) \<le> 60 \<and>
     (let typed = base_code (trim_or (trim (my_name dto)) (my_code dto))
      in typed \<notin> set (taken_codes (tenant_of c) None d) \<longrightarrow> mt_code m = typed)"
proof -
  let ?taken = "taken_codes (tenant_of c) None d"
  let ?base = "base_code (trim_or (trim (my_name dto)) (my_code dto))"
  have "length ?taken < 999999998" using assms(3) le_less_trans [OF length_filter_le] by (simp add: taken_codes_def)
  from free_code_total [OF this base_code_length] obtain k where
    k: "k \<le> length ?taken" "free_code ?taken ?base 2 ?base = Some (candidate ?base k)" "candidate ?base k \<notin> set ?taken"
      "\<forall>j < k. candidate ?base j \<in> set ?taken" by blast
  have short: "length (show_nat (k + 1)) \<le> Suc 8"
    using k(1) \<open>length ?taken < 999999998\<close> by (intro show_nat_length) simp
  have len: "candidate ?base k \<noteq> [] \<and> length (candidate ?base k) \<le> 60"
    using base_code_length [of "trim_or (trim (my_name dto)) (my_code dto)"] base_code_nonempty short
    by (auto simp: candidate_def)
  have typed: "?base \<notin> set ?taken \<longrightarrow> candidate ?base k = ?base"
    using k(4) by (cases k) (auto simp: candidate_def)
  have "\<not> list_ex (\<lambda>m. mt_tenantId m = tenant_of c \<and> (mt_code m = candidate ?base k \<or> same_name (mt_name m) (trim (my_name dto)))) (md_materials d)"
    using k(3) assms(4) by (fastforce simp: list_ex_iff taken_codes_def image_iff)
  then obtain m d' where "createMaterial e c dto d = Inr (m, d')" "mt_code m = candidate ?base k"
      "md_materials d' = md_materials d @ [m]"
    using assms(1,2) k(2)
    by (auto simp: createMaterial_def requireInventoryAccess_def resolved_code_def resolveMaterialCode_def Let_def event_def)
  with len typed k(3) show ?thesis by (auto simp: Let_def)
qed

text \<open>Two stainless forks: the second gets another name and, its code being taken, the next number.\<close>

definition fork :: "string \<Rightarrow> material_dto" where
  "fork n = \<lparr>my_name = n, my_code = Some ''Fork / steel'', my_category = None, my_unit = None, my_isReusable = None,
     my_imageUrl = None, my_description = None, my_amharicName = None, my_sortOrder = None\<rparr>"

definition pantry :: material_db where
  "pantry = \<lparr>md_ops = floor_db, md_materials = [], md_balances = [], md_issues = [], md_events = [], md_next = 700\<rparr>"

theorem new_material_gets_a_free_code_witness:
  "\<exists>m1 d1 m2 d2. createMaterial evening manager (fork ''Fork'') pantry = Inr (m1, d1) \<and>
     createMaterial evening manager (fork ''Old fork'') d1 = Inr (m2, d2) \<and>
     mt_code m1 = ''FORK_STEEL'' \<and> mt_code m2 \<noteq> ''FORK_STEEL'' \<and> length (mt_code m2) \<le> 60"
proof -
  have may: "ax_tenantId manager \<noteq> None" "can evening manager Act_manage Sub_Inventory" by code_simp+
  have "\<not> list_ex (\<lambda>m. mt_tenantId m = tenant_of manager \<and> same_name (mt_name m) (trim (my_name (fork ''Fork'')))) (md_materials pantry)"
    by (simp add: pantry_def)
  from new_material_gets_a_free_code [OF may _ this] obtain m1 d1 where
    r1: "createMaterial evening manager (fork ''Fork'') pantry = Inr (m1, d1)"
    and d1: "md_materials d1 = md_materials pantry @ [m1]"
    and c1: "let typed = base_code (trim_or (trim (my_name (fork ''Fork''))) (my_code (fork ''Fork'')))
      in typed \<notin> set (taken_codes (tenant_of manager) None pantry) \<longrightarrow> mt_code m1 = typed"
    by (auto simp: pantry_def)
  have base: "base_code (trim_or (trim (my_name (fork ''Fork''))) (my_code (fork ''Fork''))) = ''FORK_STEEL''" by code_simp
  have code1: "mt_code m1 = ''FORK_STEEL''" using c1 unfolding base by (simp add: taken_codes_def pantry_def)
  have m1: "mt_tenantId m1 = 1 \<and> mt_name m1 = ''Fork''"
  proof -
    have "bindR (createMaterial evening manager (fork ''Fork'') pantry) (\<lambda>(m, d). Inr (mt_tenantId m, mt_name m)) = Inr (1, ''Fork'')"
      by code_simp
    then show ?thesis using r1 by simp
  qed
  have "to_upper ''Fork'' \<noteq> to_upper (trim (my_name (fork ''Old fork'')))" by code_simp
  then have "\<not> list_ex (\<lambda>m. mt_tenantId m = tenant_of manager \<and> same_name (mt_name m) (trim (my_name (fork ''Old fork'')))) (md_materials d1)"
    using m1 by (simp add: d1 pantry_def same_name_def)
  from new_material_gets_a_free_code [OF may _ this] obtain m2 d2 where
    "createMaterial evening manager (fork ''Old fork'') d1 = Inr (m2, d2)"
    "mt_code m2 \<notin> set (taken_codes (tenant_of manager) None d1)" "length (mt_code m2) \<le> 60"
    by (auto simp: d1 pantry_def)
  moreover have "''FORK_STEEL'' \<in> set (taken_codes (tenant_of manager) None d1)"
    using code1 m1 by (simp add: d1 taken_codes_def manager_def staff_member_def)
  ultimately show ?thesis using r1 code1
    by (intro exI [of _ m1] exI [of _ d1] exI [of _ m2] exI [of _ d2] conjI) auto
qed

section \<open>The books of the materials\<close>

text \<open>
  What a branch has of a material in its stores, by column, and what its issues have out: what was
  issued and never approved, whatever their status, which a dispute may change at any time.
\<close>

definition balance_sum :: "(material_balance \<Rightarrow> decimal) \<Rightarrow> id \<Rightarrow> id \<Rightarrow> id \<Rightarrow> material_balance list \<Rightarrow> decimal" where
  "balance_sum g t b m bs =
     sum_list (map (\<lambda>x. if ml_tenantId x = t \<and> ml_branchId x = Some b \<and> ml_materialId x = m then g x else 0) bs)"

definition line_sum :: "(issue_line \<Rightarrow> decimal) \<Rightarrow> id \<Rightarrow> issue_line list \<Rightarrow> decimal" where
  "line_sum g m ls = sum_list (map (\<lambda>l. if mx_materialId l = m then g l else 0) ls)"

definition issue_out :: "id \<Rightarrow> id \<Rightarrow> id \<Rightarrow> material_issue \<Rightarrow> decimal" where
  "issue_out t b m q = (if mq_tenantId q = t \<and> mq_branchId q = b \<and> mq_approvedAt q = None
     then line_sum mx_issued m (mq_lines q) else 0)"

definition out_sum :: "id \<Rightarrow> id \<Rightarrow> id \<Rightarrow> material_db \<Rightarrow> decimal" where
  "out_sum t b m d = sum_list (map (issue_out t b m) (md_issues d))"

definition held :: "material_balance \<Rightarrow> decimal" where
  "held b = ml_onHand b + ml_issued b + ml_lost b"

definition balance_wf :: "material_balance \<Rightarrow> bool" where
  "balance_wf b \<longleftrightarrow> scaled 3 (ml_onHand b) \<and> scaled 3 (ml_issued b) \<and> scaled 3 (ml_lost b)"

definition line_wf :: "issue_line \<Rightarrow> bool" where
  "line_wf l \<longleftrightarrow> scaled 3 (mx_issued l) \<and> scaled 3 (mx_returned l) \<and> scaled 3 (mx_shortfall l)"

definition issue_wf :: "material_balance list \<Rightarrow> material_issue \<Rightarrow> bool" where
  "issue_wf bs q \<longleftrightarrow> list_all line_wf (mq_lines q) \<and>
     list_all (\<lambda>l. list_ex (\<lambda>b. ml_tenantId b = mq_tenantId q \<and> ml_branchId b = Some (mq_branchId q) \<and>
       ml_materialId b = mx_materialId l) bs) (mq_lines q)"

definition materials_inv :: "material_db \<Rightarrow> bool" where
  "materials_inv d \<longleftrightarrow> distinct (map ml_id (md_balances d)) \<and> distinct (map mq_id (md_issues d)) \<and>
     list_all (\<lambda>b. ml_id b < md_next d) (md_balances d) \<and> list_all (\<lambda>q. mq_id q < md_next d) (md_issues d) \<and>
     list_all balance_wf (md_balances d) \<and> list_all (issue_wf (md_balances d)) (md_issues d) \<and>
     (\<forall>t b m. balance_sum ml_issued t b m (md_balances d) = out_sum t b m d)"

lemma balance_sum_append [simp]: "balance_sum g t b m (xs @ ys) = balance_sum g t b m xs + balance_sum g t b m ys"
  by (simp add: balance_sum_def)

text \<open>A booking keeps the keys of the balances; \<open>booking\<close> says what it adds to a column.\<close>

definition same_row :: "material_balance \<Rightarrow> material_balance \<Rightarrow> bool" where
  "same_row b b' \<longleftrightarrow> ml_id b' = ml_id b \<and> ml_tenantId b' = ml_tenantId b \<and> ml_branchId b' = ml_branchId b \<and>
     ml_materialId b' = ml_materialId b"

definition booking :: "(material_balance \<Rightarrow> decimal) \<Rightarrow> (material_balance \<Rightarrow> material_balance) \<Rightarrow> decimal \<Rightarrow> bool" where
  "booking g f x \<longleftrightarrow> (\<forall>b. same_row b (f b) \<and> (balance_wf b \<longrightarrow> balance_wf (f b) \<and> g (f b) = g b + x)) \<and>
     (\<forall>b v. g (b\<lparr>ml_version := v\<rparr>) = g b)"

lemma book_balance_effect:
  assumes "distinct (map ml_id (md_balances d))" and "list_all balance_wf (md_balances d)" and "booking g f x"
    and "list_ex (branch_balance c m) (md_balances d)"
  shows "list_all2 same_row (md_balances d) (md_balances (book_balance c m f d))"
    and "list_all balance_wf (md_balances (book_balance c m f d))"
    and "balance_sum g t b m' (md_balances (book_balance c m f d)) =
      balance_sum g t b m' (md_balances d) + (if t = tenant_of c \<and> ax_branchId c = Some b \<and> m' = m then x else 0)"
    and "md_issues (book_balance c m f d) = md_issues d" "md_next (book_balance c m f d) = md_next d"
proof -
  from assms(4) obtain r where r: "find (branch_balance c m) (md_balances d) = Some r"
    by (metis find_None_iff list_ex_iff option.exhaust)
  let ?u = "\<lambda>b. (f b)\<lparr>ml_version := ml_version b + 1\<rparr>"
  have d': "book_balance c m f d = d\<lparr>md_balances := update_id ml_id (ml_id r) ?u (md_balances d)\<rparr>"
    by (simp add: book_balance_def r)
  have u: "same_row y (?u y)" "balance_wf y \<Longrightarrow> balance_wf (?u y)" "balance_wf y \<Longrightarrow> g (?u y) = g y + x" for y
    using assms(3) by (auto simp: booking_def same_row_def balance_wf_def)
  show "list_all2 same_row (md_balances d) (md_balances (book_balance c m f d))"
    using u(1) by (auto simp: d' update_id_def update_many_def list_all2_conv_all_nth same_row_def)
  show "list_all balance_wf (md_balances (book_balance c m f d))"
    using assms(2) u(2) by (auto simp: d' update_id_def update_many_def list_all_iff)
  have rin: "r \<in> set (md_balances d)" "branch_balance c m r" using find_Some_in [OF r] by auto
  have row: "row_by ml_id (ml_id r) (md_balances d) = Some r" by (rule row_by_distinct [OF assms(1) rin(1)])
  have wf: "balance_wf r" using assms(2) rin(1) by (simp add: list_all_iff)
  show "balance_sum g t b m' (md_balances (book_balance c m f d)) =
      balance_sum g t b m' (md_balances d) + (if t = tenant_of c \<and> ax_branchId c = Some b \<and> m' = m then x else 0)"
    unfolding balance_sum_def d' using u rin(2) wf
    by (simp add: sum_list_update_id [OF assms(1) row] same_row_def branch_balance_def)
  show "md_issues (book_balance c m f d) = md_issues d" "md_next (book_balance c m f d) = md_next d" by (simp_all add: d')
qed

lemma list_ex_branch_same:
  assumes "list_all2 same_row bs bs'"
  shows "list_ex (branch_balance c m) bs' \<longleftrightarrow> list_ex (branch_balance c m) bs"
  using assms by (induction rule: list_all2_induct) (auto simp: same_row_def branch_balance_def)

lemma same_rows_ids: "list_all2 same_row bs bs' \<Longrightarrow> map ml_id bs' = map ml_id bs"
  by (induction rule: list_all2_induct) (auto simp: same_row_def)

lemma same_rows_trans: "list_all2 same_row as bs \<Longrightarrow> list_all2 same_row bs cs \<Longrightarrow> list_all2 same_row as cs"
  by (erule (1) list_all2_trans [rotated]) (auto simp: same_row_def)

lemma same_rows_refl: "list_all2 same_row bs bs"
  by (rule list_all2_refl) (simp add: same_row_def)

lemma book_balances_effect:
  assumes "distinct (map ml_id (md_balances d))" and "list_all balance_wf (md_balances d)"
    and "\<And>x. x \<in> set xs \<Longrightarrow> booking g (f x) (\<delta> x)" and "\<And>x. x \<in> set xs \<Longrightarrow> list_ex (branch_balance c (k x)) (md_balances d)"
    and "d' = fold (\<lambda>x. book_balance c (k x) (f x)) xs d"
  shows "list_all2 same_row (md_balances d) (md_balances d') \<and> list_all balance_wf (md_balances d') \<and>
     balance_sum g t b m (md_balances d') = balance_sum g t b m (md_balances d) +
       (if t = tenant_of c \<and> ax_branchId c = Some b then sum_list (map (\<lambda>x. if k x = m then \<delta> x else 0) xs) else 0) \<and>
     md_issues d' = md_issues d \<and> md_next d' = md_next d"
  using assms
proof (induction xs arbitrary: d)
  case Nil
  then show ?case by (simp add: same_rows_refl)
next
  case (Cons x xs)
  let ?d = "book_balance c (k x) (f x) d"
  note one = book_balance_effect [OF Cons.prems(1,2), of g "f x" "\<delta> x" c "k x"]
  have s: "list_all2 same_row (md_balances d) (md_balances ?d)" "list_all balance_wf (md_balances ?d)"
    and e: "md_issues ?d = md_issues d" "md_next ?d = md_next d"
    and sum: "balance_sum g t b m (md_balances ?d) =
      balance_sum g t b m (md_balances d) + (if t = tenant_of c \<and> ax_branchId c = Some b \<and> m = k x then \<delta> x else 0)"
    using one Cons.prems(3,4) by simp_all
  have "distinct (map ml_id (md_balances ?d))" using Cons.prems(1) same_rows_ids [OF s(1)] by simp
  from Cons.IH [OF this s(2)] Cons.prems(3-5) list_ex_branch_same [OF s(1)] e sum same_rows_trans [OF s(1)]
  show ?case by (auto simp: algebra_simps)
qed

text \<open>
  The columns round to thousandths, and a half is rounded away from zero. Taking a quantity from
  one column and adding it to another agree unless it lies exactly between two thousandths.
\<close>

definition clear_cut :: "decimal \<Rightarrow> bool" where
  "clear_cut q \<longleftrightarrow> \<not> scaled 3 (q + 1 / 2000)"

lemma qty3_nearest: "clear_cut q \<Longrightarrow> qty3 q = of_int \<lfloor>q * 1000 + 1 / 2\<rfloor> / 1000"
proof (cases "q < 0")
  case True
  assume "clear_cut q"
  then have "q * 1000 + 1 / 2 \<notin> \<int>" by (simp add: clear_cut_def scaled_def distrib_right)
  moreover have "q * 1000 + 1 / 2 = (q * 1000 - 1 / 2) + 1" by simp
  ultimately have "q * 1000 - 1 / 2 \<notin> \<int>" by (metis Ints_1 Ints_add)
  then have no: "q * 1000 - 1 / 2 \<noteq> of_int \<lfloor>q * 1000 - 1 / 2\<rfloor>" by (metis Ints_of_int)
  have "- \<lfloor>- q * 1000 + 1 / 2\<rfloor> = \<lceil>q * 1000 - 1 / 2\<rceil>" by (simp add: ceiling_def)
  also have "\<dots> = \<lfloor>q * 1000 - 1 / 2\<rfloor> + 1" using no by (simp add: ceiling_altdef)
  also have "\<dots> = \<lfloor>q * 1000 + 1 / 2\<rfloor>" by linarith
  finally show ?thesis using True by (simp add: round_half_up_def flip: of_int_minus)
qed (simp add: round_half_up_def)

lemma qty3_add: "scaled 3 a \<Longrightarrow> clear_cut q \<Longrightarrow> qty3 (a + q) = a + qty3 q"
proof -
  assume a: "scaled 3 a" and q: "clear_cut q"
  from a obtain n :: int where n: "a * 1000 = of_int n" by (auto simp: scaled_def elim: Ints_cases)
  have "\<not> scaled 3 (a + q + 1 / 2000)"
  proof
    assume "scaled 3 (a + q + 1 / 2000)"
    from scaled_diff [OF this a] q show False by (simp add: clear_cut_def)
  qed
  then have "clear_cut (a + q)" by (simp add: clear_cut_def)
  from qty3_nearest [OF this] qty3_nearest [OF q] show ?thesis
    using n by (simp add: distrib_right add.assoc add_divide_distrib)
qed

lemma qty3_minus: "qty3 (- q) = - qty3 q"
proof (cases "q = 0")
  case True
  then show ?thesis using round_scaled [of 3 0] by (simp add: scaled_def)
qed (auto simp: round_half_up_def)

lemma clear_cut_minus: "clear_cut q \<Longrightarrow> clear_cut (- q)"
proof -
  assume q: "clear_cut q"
  have one: "scaled 3 (1 / 1000)" by (simp add: scaled_def)
  have "\<not> scaled 3 (- q + 1 / 2000)"
  proof
    assume "scaled 3 (- q + 1 / 2000)"
    from scaled_add [OF scaled_minus [OF this] one] have "scaled 3 (q + 1 / 2000)" by (simp add: algebra_simps)
    with q show False by (simp add: clear_cut_def)
  qed
  then show ?thesis by (simp add: clear_cut_def)
qed

lemma qty3_diff: "scaled 3 a \<Longrightarrow> clear_cut q \<Longrightarrow> qty3 (a - q) = a - qty3 q"
  using qty3_add [of a "- q"] clear_cut_minus [of q] by (simp add: qty3_minus)

lemma hand_out_booking:
  assumes "clear_cut q"
  shows "booking ml_issued (hand_out q) (qty3 q)" and "booking held (hand_out q) 0"
  using assms by (auto simp: booking_def same_row_def hand_out_def balance_wf_def held_def scaled_round qty3_add qty3_diff)

lemma take_back_booking:
  assumes "line_wf l"
  shows "booking ml_issued (take_back l) (- mx_issued l)"
    and "booking held (take_back l) (mx_returned l + mx_shortfall l - mx_issued l)"
  using assms by (auto simp: booking_def same_row_def take_back_def balance_wf_def held_def line_wf_def
    round_scaled scaled_add scaled_diff)

text \<open>
  The runs in which people do what the code leaves to them: an issue is made of materials the
  branch has a balance of, in quantities that are not exactly between two thousandths, and it is
  approved once, when all of its lines were returned. Disputes and returns are those of the code,
  in any status, catering orders and the catalogue may change in any way. Stocktaking is not among
  the steps: it sets what is on hand.
\<close>

definition settled_line :: "issue_line \<Rightarrow> bool" where
  "settled_line l \<longleftrightarrow> mx_returned l + mx_shortfall l = mx_issued l"

inductive custody_step :: "material_db \<Rightarrow> material_db \<Rightarrow> bool" where
  open_order: "createOutsideOrder c r d = Inr (x, d') \<Longrightarrow> custody_step d d'"
| update_order: "updateOutsideOrder c i st d = Inr (x, d') \<Longrightarrow> custody_step d d'"
| close_order: "closeOutsideOrder e c i d = Inr (x, d') \<Longrightarrow> custody_step d d'"
| request: "requestMaterials c i d = Inr (u, d') \<Longrightarrow> custody_step d d'"
| issue: "issueMaterials e c dto d = Inr (x, d') \<Longrightarrow>
    \<forall>(m, q, _) \<in> set (iu_lines dto). clear_cut q \<and> list_ex (branch_balance c m) (md_balances d) \<Longrightarrow> custody_step d d'"
| return: "returnMaterials e c i xs note d = Inr (u, d') \<Longrightarrow> custody_step d d'"
| dispute: "auditMaterialIssue e c i (Dispute why) d = Inr (x, d') \<Longrightarrow> custody_step d d'"
| approve: "auditMaterialIssue e c i Approve d = Inr (x, d') \<Longrightarrow> find_issue c i d = Some q \<Longrightarrow>
    mq_approvedAt q = None \<Longrightarrow> list_all settled_line (mq_lines q) \<Longrightarrow> custody_step d d'"
| new_material: "createMaterial e c new d = Inr (x, d') \<Longrightarrow> custody_step d d'"
| change_material: "updateMaterial e c i u d = Inr (x, d') \<Longrightarrow> custody_step d d'"
| archive_material: "deleteMaterial e c i d = Inr (v, d') \<Longrightarrow> custody_step d d'"

definition total_held :: "id \<Rightarrow> id \<Rightarrow> id \<Rightarrow> material_db \<Rightarrow> decimal" where
  "total_held t b m d = balance_sum held t b m (md_balances d)"

lemma inv_same_tables:
  assumes "materials_inv d" and "md_balances d' = md_balances d" "md_issues d' = md_issues d" "md_next d \<le> md_next d'"
  shows "materials_inv d'" and "total_held t b m d' = total_held t b m d"
  using assms by (auto simp: materials_inv_def out_sum_def total_held_def list_all_iff intro: less_le_trans)

lemma issue_wf_same_rows:
  assumes "list_all2 same_row bs bs'"
  shows "issue_wf bs' q \<longleftrightarrow> issue_wf bs q"
proof -
  have "list_ex (\<lambda>b. ml_tenantId b = t \<and> ml_branchId b = Some r \<and> ml_materialId b = m) bs' \<longleftrightarrow>
      list_ex (\<lambda>b. ml_tenantId b = t \<and> ml_branchId b = Some r \<and> ml_materialId b = m) bs" for t r m
    using assms by (induction rule: list_all2_induct) (auto simp: same_row_def)
  then show ?thesis by (simp add: issue_wf_def)
qed

lemma same_rows_less: "list_all2 same_row bs bs' \<Longrightarrow> list_all (\<lambda>b. ml_id b < n) bs' \<longleftrightarrow> list_all (\<lambda>b. ml_id b < n) bs"
  by (induction rule: list_all2_induct) (auto simp: same_row_def)

text \<open>An update of one issue changes what is out by the difference of that issue.\<close>

lemma out_sum_set_issue:
  assumes "distinct (map mq_id (md_issues d))" and "find_issue c i d = Some q" and "\<And>q. mq_id (f q) = mq_id q"
  shows "out_sum t b m (set_issue i f d) = out_sum t b m d + (issue_out t b m (f q) - issue_out t b m q)"
  unfolding out_sum_def set_issue_def
  using sum_list_update_id [OF assms(1) find_row_by [OF assms(2) [unfolded find_issue_def] assms(1)] assms(3), where g = "issue_out t b m"]
  by simp

lemma list_all_update_rows: "list_all P rs \<Longrightarrow> (\<And>r. P r \<Longrightarrow> P (f r)) \<Longrightarrow> list_all P (update_id key i f rs)"
  by (auto simp: list_all_iff update_id_def update_many_def)

lemma inv_set_issue:
  assumes inv: "materials_inv d" and q: "find_issue c i d = Some q"
    and f: "\<And>r. mq_id (f r) = mq_id r" "\<And>r. issue_wf (md_balances d) r \<Longrightarrow> issue_wf (md_balances d) (f r)"
      "\<And>t b m. issue_out t b m (f q) = issue_out t b m q"
  shows "materials_inv (set_issue i f d)" and "total_held t b m (set_issue i f d) = total_held t b m d"
proof -
  have "out_sum t b m (set_issue i f d) = out_sum t b m d" for t b m
    using out_sum_set_issue [OF _ q f(1)] inv f(3) by (simp add: materials_inv_def)
  then show "materials_inv (set_issue i f d)"
    using inv f(1,2) by (auto simp: materials_inv_def set_issue_def map_update_id intro!: list_all_update_rows)
  show "total_held t b m (set_issue i f d) = total_held t b m d" by (simp add: total_held_def set_issue_def)
qed

lemma event_same [simp]:
  "md_balances (event t i d) = md_balances d" "md_issues (event t i d) = md_issues d" "md_next (event t i d) = md_next d"
  by (simp_all add: event_def)

lemma inv_event: "materials_inv d \<Longrightarrow> materials_inv (event t i d)" "total_held t' b m (event t i d) = total_held t' b m d"
  by (simp_all add: materials_inv_def out_sum_def total_held_def)

lemma return_lines_wf:
  "list_all line_wf ls \<Longrightarrow> list_all line_wf (return_lines xs ls)"
  "line_sum mx_issued m (return_lines xs ls) = line_sum mx_issued m ls"
  "list_all (\<lambda>l. P (mx_materialId l)) (return_lines xs ls) \<longleftrightarrow> list_all (\<lambda>l. P (mx_materialId l)) ls"
  by (induction ls) (auto simp: return_lines_def returned_line_def line_wf_def line_sum_def Let_def scaled_round split: option.splits)

lemma return_keeps_books:
  assumes inv: "materials_inv d" and run: "returnMaterials e c i xs note d = Inr (u, d')"
  shows "materials_inv d'" and "total_held t b m d' = total_held t b m d"
proof -
  obtain q where q: "find_issue c i d = Some q" "mq_status q \<notin> set [M_APPROVED, M_CANCELLED]"
    and d': "d' = event ''MATERIAL_ISSUE_RETURNED'' i (set_issue i (returned_issue e xs note) d)"
    using run by (auto simp: returnMaterials_def split: option.splits if_splits)
  have out: "issue_out t b m (returned_issue e xs note q) = issue_out t b m q" for t b m
    by (simp add: issue_out_def returned_issue_def return_lines_wf(2))
  have wf: "issue_wf bs r \<Longrightarrow> issue_wf bs (returned_issue e xs note r)" for bs r
    using return_lines_wf(1) return_lines_wf(3) [where P = "\<lambda>m. list_ex (\<lambda>b. ml_tenantId b = mq_tenantId r \<and>
      ml_branchId b = Some (mq_branchId r) \<and> ml_materialId b = m) bs" and xs = xs and ls = "mq_lines r"]
    by (simp add: issue_wf_def returned_issue_def)
  note k = inv_set_issue [OF inv q(1), of "returned_issue e xs note", OF _ wf out]
  show "materials_inv d'" and "total_held t b m d' = total_held t b m d"
    unfolding d' using k by (auto simp: inv_event returned_issue_def)
qed

lemma dispute_keeps_books:
  assumes inv: "materials_inv d" and run: "auditMaterialIssue e c i (Dispute why) d = Inr (x, d')"
  shows "materials_inv d'" and "total_held t b m d' = total_held t b m d"
proof -
  obtain q where q: "find_issue c i d = Some q"
    and d': "d' = event ''MATERIAL_ISSUE_DISPUTED'' i (set_issue i (disputed_issue why) d)"
    using run by (auto simp: auditMaterialIssue_def split: option.splits)
  have out: "issue_out t b m (disputed_issue why q) = issue_out t b m q" for t b m
    by (simp add: issue_out_def disputed_issue_def)
  have wf: "issue_wf bs r \<Longrightarrow> issue_wf bs (disputed_issue why r)" for bs r
    by (simp add: issue_wf_def disputed_issue_def)
  note k = inv_set_issue [OF inv q, of "disputed_issue why", OF _ wf out]
  show "materials_inv d'" and "total_held t b m d' = total_held t b m d"
    unfolding d' using k by (auto simp: inv_event disputed_issue_def)
qed

lemma approve_keeps_books:
  assumes inv: "materials_inv d" and run: "auditMaterialIssue e c i Approve d = Inr (x, d')"
    and q: "find_issue c i d = Some q" "mq_approvedAt q = None" "list_all settled_line (mq_lines q)"
  shows "materials_inv d'" and "total_held t b m d' = total_held t b m d"
proof -
  let ?d1 = "set_issue i (approved_issue e c) d"
  let ?d2 = "fold (\<lambda>l. book_balance c (mx_materialId l) (take_back l)) (mq_lines q) ?d1"
  have d': "d' = event ''MATERIAL_ISSUE_APPROVED'' i ?d2" and c: "ax_tenantId c \<noteq> None" "ax_branchId c \<noteq> None"
    using run q(1) by (auto simp: auditMaterialIssue_def requireStaffContext_def)
  have same: "md_balances ?d1 = md_balances d" "md_next ?d1 = md_next d" by (simp_all add: set_issue_def)
  have d: "distinct (map ml_id (md_balances d))" "list_all balance_wf (md_balances d)" "distinct (map mq_id (md_issues d))"
    "list_all (issue_wf (md_balances d)) (md_issues d)" using inv by (simp_all add: materials_inv_def)
  have qin: "q \<in> set (md_issues d)" "mq_tenantId q = tenant_of c" "mq_branchId q = branch_of c"
    using find_Some_in [OF q(1) [unfolded find_issue_def]] by auto
  then have qwf: "issue_wf (md_balances d) q" using d(4) by (simp add: list_all_iff)
  have has: "list_ex (branch_balance c (mx_materialId l)) (md_balances ?d1)" if "l \<in> set (mq_lines q)" for l
    using qwf that qin(2,3) c by (auto simp: same issue_wf_def list_all_iff list_ex_iff branch_balance_def)
  have lwf: "line_wf l" if "l \<in> set (mq_lines q)" for l using qwf that by (simp add: issue_wf_def list_all_iff)
  have dist: "distinct (map ml_id (md_balances ?d1))" "list_all balance_wf (md_balances ?d1)" using d by (simp_all add: same)
  note book = book_balances_effect [OF dist _ has refl]
  note issued = book [where g = ml_issued and f = take_back and \<delta> = "\<lambda>l. - mx_issued l", OF take_back_booking(1) [OF lwf]]
  note held = book [where g = held and f = take_back and \<delta> = "\<lambda>l. mx_returned l + mx_shortfall l - mx_issued l", OF take_back_booking(2) [OF lwf]]
  have rows: "list_all2 same_row (md_balances d) (md_balances ?d2)" "list_all balance_wf (md_balances ?d2)"
    "md_issues ?d2 = md_issues ?d1" "md_next ?d2 = md_next d" using issued by (simp_all add: same)
  have minus: "sum_list (map (\<lambda>l. if mx_materialId l = m then - mx_issued l else 0) ls) = - line_sum mx_issued m ls" for m ls
    by (induction ls) (auto simp: line_sum_def)
  have "out_sum t b m ?d1 = out_sum t b m d - issue_out t b m q" for t b m
    using out_sum_set_issue [OF d(3) q(1), of "approved_issue e c"]
    by (simp add: approved_issue_def issue_out_def)
  moreover have "balance_sum ml_issued t b m (md_balances ?d2) = balance_sum ml_issued t b m (md_balances d) - issue_out t b m q" for t b m
    using issued [where t = t and b = b and m = m] c q(2) qin(2,3) by (auto simp: same minus issue_out_def)
  ultimately have "balance_sum ml_issued t b m (md_balances ?d2) = out_sum t b m ?d2" for t b m
    using inv rows(3) by (simp add: materials_inv_def out_sum_def)
  moreover have "list_all (issue_wf (md_balances ?d2)) (md_issues ?d2)"
  proof -
    have eq: "issue_wf (md_balances ?d2) = issue_wf (md_balances d)" by (rule ext) (rule issue_wf_same_rows [OF rows(1)])
    show ?thesis using d(4) unfolding rows(3) eq unfolding set_issue_def
      by (auto simp: approved_issue_def issue_wf_def intro!: list_all_update_rows)
  qed
  moreover have "distinct (map mq_id (md_issues ?d2)) \<and> list_all (\<lambda>q. mq_id q < md_next d) (md_issues ?d2)"
    using inv unfolding rows(3) unfolding set_issue_def
    by (auto simp: materials_inv_def approved_issue_def map_update_id intro!: list_all_update_rows)
  ultimately have "materials_inv ?d2"
    using inv rows same_rows_ids [OF rows(1)] by (simp add: materials_inv_def same_rows_less [OF rows(1)])
  then show "materials_inv d'" by (simp add: d' inv_event)
  have "sum_list (map (\<lambda>l. if mx_materialId l = m then mx_returned l + mx_shortfall l - mx_issued l else 0) ls) = 0"
    if "list_all settled_line ls" for m ls using that by (induction ls) (auto simp: settled_line_def)
  from this [OF q(3)] have "balance_sum held t b m (md_balances ?d2) = balance_sum held t b m (md_balances d)"
    using held [where t = t and b = b and m = m] by (simp add: same)
  then show "total_held t b m d' = total_held t b m d" by (simp add: d' total_held_def)
qed

lemma map_new_lines:
  "(\<And>k x. g (new_issue_line c d i k x) = h x) \<Longrightarrow>
     map g (map (\<lambda>(k, x). new_issue_line c d i k x) (List.enumerate n xs)) = map h xs"
  by (induction xs arbitrary: n) simp_all

lemma new_issue_lines:
  "line_sum mx_issued m (mq_lines (new_issue e c dto r d)) =
     sum_list (map (\<lambda>x. if fst x = m then qty3 (fst (snd x)) else 0) (iu_lines dto))"
  "list_all line_wf (mq_lines (new_issue e c dto r d))"
  "list_all (\<lambda>l. P (mx_materialId l)) (mq_lines (new_issue e c dto r d)) \<longleftrightarrow> list_all (\<lambda>x. P (fst x)) (iu_lines dto)"
proof -
  note en = map_new_lines [where c = c and d = d]
  let ?ls = "mq_lines (new_issue e c dto r d)"
  have ls: "?ls = map (\<lambda>(k, x). new_issue_line c d (md_next d) k x) (List.enumerate 0 (iu_lines dto))"
    by (simp add: new_issue_def)
  show "line_sum mx_issued m ?ls = sum_list (map (\<lambda>x. if fst x = m then qty3 (fst (snd x)) else 0) (iu_lines dto))"
    unfolding line_sum_def ls by (subst en [where h = "\<lambda>x. if fst x = m then qty3 (fst (snd x)) else 0"])
      (auto simp: new_issue_line_def split: prod.splits)
  have "list_all id (map line_wf ?ls)"
    unfolding ls by (subst en [where h = "\<lambda>x. True"])
      (auto simp: new_issue_line_def line_wf_def scaled_round list_all_iff split: prod.splits)
  then show "list_all line_wf ?ls" by (simp add: list_all_iff)
  have "map (\<lambda>l. P (mx_materialId l)) ?ls = map (\<lambda>x. P (fst x)) (iu_lines dto)"
    unfolding ls by (rule en) (auto simp: new_issue_line_def split: prod.splits)
  then show "list_all (\<lambda>l. P (mx_materialId l)) ?ls \<longleftrightarrow> list_all (\<lambda>x. P (fst x)) (iu_lines dto)"
    by (metis (mono_tags, lifting) list.pred_map list.pred_set id_comp comp_apply list_all_iff image_eqI image_iff set_map)
qed

lemma issue_keeps_books:
  assumes inv: "materials_inv d" and run: "issueMaterials e c dto d = Inr (x, d')"
    and ok: "\<forall>(m, q, _) \<in> set (iu_lines dto). clear_cut q \<and> list_ex (branch_balance c m) (md_balances d)"
  shows "materials_inv d'" and "total_held t b m d' = total_held t b m d"
proof -
  obtain r where c: "ax_tenantId c \<noteq> None" "ax_branchId c \<noteq> None"
    and d': "d' = event ''MATERIAL_ISSUE_ISSUED'' (md_next d) (fold (\<lambda>(m, x, _). book_balance c m (hand_out x)) (iu_lines dto)
      (d\<lparr>md_issues := md_issues d @ [new_issue e c dto r d], md_next := md_next d + 1 + length (iu_lines dto)\<rparr>))"
    using run by (auto simp: issueMaterials_def requireStaffContext_def Let_def new_issue_def)
  let ?q = "new_issue e c dto r d"
  let ?d1 = "d\<lparr>md_issues := md_issues d @ [?q], md_next := md_next d + 1 + length (iu_lines dto)\<rparr>"
  let ?d2 = "fold (\<lambda>x. book_balance c (fst x) (hand_out (fst (snd x)))) (iu_lines dto) ?d1"
  have d2: "fold (\<lambda>(m, x, _). book_balance c m (hand_out x)) (iu_lines dto) ?d1 = ?d2"
    by (rule arg_cong [where f = "\<lambda>g. fold g (iu_lines dto) ?d1"]) auto
  have d: "distinct (map ml_id (md_balances ?d1))" "list_all balance_wf (md_balances ?d1)"
    using inv by (simp_all add: materials_inv_def)
  have sc: "clear_cut (fst (snd y))" and has: "list_ex (branch_balance c (fst y)) (md_balances ?d1)"
    if "y \<in> set (iu_lines dto)" for y using bspec [OF ok that] by (cases y; simp)+
  note book = book_balances_effect [OF d _ has refl]
  note issued = book [where g = ml_issued and f = "\<lambda>y. hand_out (fst (snd y))" and \<delta> = "\<lambda>y. qty3 (fst (snd y))", OF hand_out_booking(1) [OF sc]]
  note held = book [where g = held and f = "\<lambda>y. hand_out (fst (snd y))" and \<delta> = "\<lambda>_. 0", OF hand_out_booking(2) [OF sc]]
  have rows: "list_all2 same_row (md_balances d) (md_balances ?d2)" "list_all balance_wf (md_balances ?d2)"
    "md_issues ?d2 = md_issues ?d1" "md_next ?d2 = md_next ?d1" using issued by simp_all
  have key: "mq_id ?q = md_next d" "mq_tenantId ?q = tenant_of c" "mq_branchId ?q = branch_of c" "mq_approvedAt ?q = None"
    by (simp_all add: new_issue_def)
  have "balance_sum ml_issued t b m (md_balances ?d2) = out_sum t b m ?d2" for t b m
    using issued [where t = t and b = b and m = m] inv c key new_issue_lines(1) [of m e c dto r d]
    by (auto simp: rows(3) materials_inv_def out_sum_def issue_out_def)
  moreover have "issue_wf (md_balances ?d2) = issue_wf (md_balances d)"
    by (rule ext) (rule issue_wf_same_rows [OF rows(1)])
  moreover have "issue_wf (md_balances d) ?q"
  proof -
    have "list_all (\<lambda>y. list_ex (\<lambda>b. ml_tenantId b = mq_tenantId ?q \<and> ml_branchId b = Some (mq_branchId ?q) \<and> ml_materialId b = fst y)
        (md_balances d)) (iu_lines dto)"
      using has c by (auto simp: list_all_iff list_ex_iff branch_balance_def key)
    then show ?thesis
      using new_issue_lines(2) [of e c dto r d] new_issue_lines(3) [where P = "\<lambda>m. list_ex (\<lambda>b. ml_tenantId b = mq_tenantId ?q \<and> ml_branchId b = Some (mq_branchId ?q) \<and>
        ml_materialId b = m) (md_balances d)" and e = e and c = c and dto = dto and r = r and d = d]
      by (simp add: issue_wf_def)
  qed
  moreover have "distinct (map mq_id (md_issues ?d2))" "list_all (\<lambda>q. mq_id q < md_next ?d2) (md_issues ?d2)"
    "list_all (\<lambda>b. ml_id b < md_next ?d2) (md_balances ?d2)"
    using inv unfolding rows(3,4) same_rows_less [OF rows(1)]
    by (auto simp: materials_inv_def key list_all_iff)
  ultimately have "materials_inv ?d2"
    using inv rows same_rows_ids [OF rows(1)] by (simp add: materials_inv_def)
  then show "materials_inv d'" unfolding d' d2 by (rule inv_event(1))
  show "total_held t b m d' = total_held t b m d"
    using held [where t = t and b = b and m = m] unfolding d' d2 by (simp add: total_held_def)
qed

lemma custody_step_keeps_books:
  assumes "custody_step d d'" and "materials_inv d"
  shows "materials_inv d'" and "total_held t b m d' = total_held t b m d"
proof -
  have "materials_inv d' \<and> total_held t b m d' = total_held t b m d"
    using assms
  proof cases
    case (open_order c r x)
    then show ?thesis using inv_same_tables [OF assms(2), of d']
      by (auto simp: createOutsideOrder_def Let_def split: option.splits)
  next
    case (update_order c i st x)
    then show ?thesis using inv_same_tables [OF assms(2), of d'] by (auto simp: updateOutsideOrder_def set_outside_def)
  next
    case (close_order e c i x)
    then show ?thesis using inv_same_tables [OF assms(2), of d']
      by (auto simp: closeOutsideOrder_def set_outside_def split: if_splits)
  next
    case (request c i u)
    then show ?thesis using inv_same_tables [OF assms(2), of d'] by (auto simp: requestMaterials_def)
  next
    case (issue e c dto x)
    then show ?thesis using issue_keeps_books [OF assms(2)] by blast
  next
    case (return e c i xs nt u)
    then show ?thesis using return_keeps_books [OF assms(2)] by blast
  next
    case (dispute e c i why x)
    then show ?thesis using dispute_keeps_books [OF assms(2)] by blast
  next
    case (approve e c i x q)
    then show ?thesis using approve_keeps_books [OF assms(2)] by blast
  next
    case (new_material e c new x)
    then show ?thesis using inv_same_tables [OF assms(2), of d']
      by (auto simp: createMaterial_def Let_def split: if_splits)
  next
    case (change_material e c i u x)
    then show ?thesis using inv_same_tables [OF assms(2), of d']
      by (auto simp: updateMaterial_def Let_def split: option.splits if_splits)
  next
    case (archive_material e c i v)
    then show ?thesis using inv_same_tables [OF assms(2), of d']
      by (auto simp: deleteMaterial_def split: if_splits)
  qed
  then show "materials_inv d'" and "total_held t b m d' = total_held t b m d" by simp_all
qed

lemma balance_sum_set_on_hand:
  "balance_sum ml_issued t b m (update_id ml_id i (\<lambda>x. case qty of Some q \<Rightarrow> x\<lparr>ml_onHand := qty3 q\<rparr> | None \<Rightarrow> x) bs) =
     balance_sum ml_issued t b m bs"
  by (induction bs) (auto simp: balance_sum_def update_id_def update_many_def split: option.splits)

lemma issue_wf_more: "issue_wf bs q \<Longrightarrow> issue_wf (bs @ cs) q"
  by (auto simp: issue_wf_def list_all_iff)

lemma put_on_hand_keeps_books:
  assumes inv: "materials_inv d"
  shows "materials_inv (put_on_hand c m qty l d)"
proof (cases "find (\<lambda>b. ml_locationId b = l \<and> ml_materialId b = m) (md_balances d)")
  case None
  then show ?thesis using inv
    by (auto simp: put_on_hand_def materials_inv_def out_sum_def balance_sum_def balance_wf_def scaled_round issue_wf_more list_all_iff)
next
  case (Some b)
  let ?set = "\<lambda>x. case qty of Some q \<Rightarrow> x\<lparr>ml_onHand := qty3 q\<rparr> | None \<Rightarrow> x"
  let ?bs = "update_id ml_id (ml_id b) ?set (md_balances d)"
  have rows: "list_all2 same_row (md_balances d) ?bs"
    by (auto simp: update_id_def update_many_def list_all2_conv_all_nth same_row_def split: option.split)
  have "list_all balance_wf ?bs" using inv unfolding materials_inv_def
    by (auto simp: balance_wf_def scaled_round split: option.splits intro!: list_all_update_rows)
  moreover have "issue_wf ?bs = issue_wf (md_balances d)" by (rule ext) (rule issue_wf_same_rows [OF rows])
  ultimately show ?thesis using inv same_rows_ids [OF rows] same_rows_less [OF rows] Some
    by (simp add: put_on_hand_def materials_inv_def out_sum_def balance_sum_set_on_hand)
qed

text \<open>Stocktaking changes what a branch holds, but never what its open issues have out.\<close>

lemma stocktaking_keeps_books:
  assumes inv: "materials_inv d" and run: "upsertMaterialBalance e c m qty loc d = Inr (u, d')"
  shows "materials_inv d'"
proof -
  obtain l ops where "d' = put_on_hand c m qty l (d\<lparr>md_ops := ops\<rparr>)"
  proof (cases loc)
    case None
    then show ?thesis using run that by (auto simp: upsertMaterialBalance_def split: if_splits)
  next
    case (Some k)
    then have "d' = put_on_hand c m qty k (d\<lparr>md_ops := md_ops d\<rparr>)"
      using run by (auto simp: upsertMaterialBalance_def split: if_splits)
    then show ?thesis by (rule that)
  qed
  moreover have "materials_inv (d\<lparr>md_ops := ops\<rparr>)" using inv by (simp add: materials_inv_def out_sum_def)
  ultimately show ?thesis by (simp add: put_on_hand_keeps_books)
qed

text \<open>
  C4: the materials of a restaurant are accounted for between two stocktakings. As long as each
  issue is made from balances of the branch, in quantities that are not exactly between two
  thousandths, and is approved once, after all of its lines were returned, what a branch has booked
  as issued is at every moment exactly what its issues that were not approved have out, and nothing
  appears or vanishes: what is on hand, out and lost together stays the same, through any sequence
  of issues, partial and repeated returns, disputes (of approved issues, too), approvals and changes
  of orders and catalogue.
\<close>

theorem materials_are_accounted_for:
  assumes "custody_step\<^sup>*\<^sup>* d d'" and "materials_inv d"
  shows "(\<forall>t b m. balance_sum ml_issued t b m (md_balances d') = out_sum t b m d') \<and>
    (\<forall>t b m. total_held t b m d' = total_held t b m d)"
proof -
  have "materials_inv d' \<and> (\<forall>t b m. total_held t b m d' = total_held t b m d)"
    using assms by (induction rule: rtranclp_induct) (auto dest: custody_step_keeps_books)
  then show ?thesis by (simp add: materials_inv_def)
qed

text \<open>Ten forks are laid in; four leave with order 41, three come back, one is lost.\<close>

definition laid_in :: "material_db result" where
  "laid_in = bindR (createMaterial evening manager (fork ''Fork'') pantry) (\<lambda>(_, d).
     bindR (upsertMaterialBalance evening manager 700 (Some 10) None d) (\<lambda>(_, d). Inr d))"

definition four_forks :: issue_dto where
  "four_forks = \<lparr>iu_orderId = Some 41, iu_outsideOrderId = None, iu_lines = [(700, 4, None)], iu_note = None\<rparr>"

definition three_back :: return_line where
  "three_back = \<lparr>rt_lineId = 703, rt_qtyReturned = 3, rt_condition = None, rt_note = None\<rparr>"

lemma laid_in_books: "laid_in = Inr d \<Longrightarrow> materials_inv d"
proof -
  assume "laid_in = Inr d"
  then obtain m d1 u where 1: "createMaterial evening manager (fork ''Fork'') pantry = Inr (m, d1)"
    and 2: "upsertMaterialBalance evening manager 700 (Some 10) None d1 = Inr (u, d)"
    by (auto simp: laid_in_def)
  have "materials_inv pantry" by (simp add: materials_inv_def pantry_def balance_sum_def out_sum_def)
  then have "materials_inv d1" by (rule custody_step_keeps_books(1) [OF new_material [OF 1]])
  then show ?thesis by (rule stocktaking_keeps_books [OF _ 2])
qed

theorem materials_are_accounted_for_witness:
  "\<exists>d q d1 u d2 q' d3. laid_in = Inr d \<and> issueMaterials evening waiter four_forks d = Inr (q, d1) \<and>
     returnMaterials evening waiter 702 [three_back] None d1 = Inr (u, d2) \<and>
     auditMaterialIssue later cook 702 Approve d2 = Inr (q', d3) \<and>
     total_held 1 2 700 d3 = 10 \<and> map ml_lost (md_balances d3) = [1]"
proof -
  have run: "bindR laid_in (\<lambda>d. bindR (issueMaterials evening waiter four_forks d) (\<lambda>(q, d1).
      bindR (returnMaterials evening waiter 702 [three_back] None d1) (\<lambda>(u, d2).
      bindR (auditMaterialIssue later cook 702 Approve d2) (\<lambda>(q', d3).
        Inr (total_held 1 2 700 d, list_ex (branch_balance waiter 700) (md_balances d),
          map_option (\<lambda>q. mq_approvedAt q = None \<and> list_all settled_line (mq_lines q)) (find_issue cook 702 d2),
          map ml_lost (md_balances d3)))))) = Inr (10, True, Some True, [1])"
    by code_simp
  then obtain d where d: "laid_in = Inr d" by (cases laid_in) auto
  from run obtain q d1 u d2 q' d3 where r: "issueMaterials evening waiter four_forks d = Inr (q, d1)"
      "returnMaterials evening waiter 702 [three_back] None d1 = Inr (u, d2)"
      "auditMaterialIssue later cook 702 Approve d2 = Inr (q', d3)"
    and h: "total_held 1 2 700 d = 10" "list_ex (branch_balance waiter 700) (md_balances d)" "map ml_lost (md_balances d3) = [1]"
      "map_option (\<lambda>q. mq_approvedAt q = None \<and> list_all settled_line (mq_lines q)) (find_issue cook 702 d2) = Some True"
    unfolding d bindR_Inr by (elim run_pairE) auto
  have "clear_cut 4" by code_simp
  then have "custody_step d d1" using h(2) by (intro issue [OF r(1)]) (simp add: four_forks_def)
  moreover have "custody_step d1 d2" using r(2) by (rule return)
  moreover obtain p where p: "find_issue cook 702 d2 = Some p" "mq_approvedAt p = None" "list_all settled_line (mq_lines p)"
    using h(4) by auto
  have "custody_step d2 d3" using r(3) p by (rule approve)
  ultimately have "custody_step\<^sup>*\<^sup>* d d3" by (meson converse_rtranclp_into_rtranclp rtranclp.rtrancl_refl)
  from materials_are_accounted_for [OF this laid_in_books [OF d]] h(1) have "total_held 1 2 700 d3 = 10" by simp
  with d r h(3) show ?thesis
    by (intro exI [of _ d] exI [of _ q] exI [of _ d1] exI [of _ u] exI [of _ d2] exI [of _ q'] exI [of _ d3] conjI)
qed

section \<open>What the code leaves to people\<close>

text \<open>The waiter who took the forks can approve the return, twice: then fewer than none are out.\<close>

lemma approval_can_be_repeated:
  "bindR laid_in (\<lambda>d. bindR (issueMaterials evening waiter four_forks d) (\<lambda>(_, d1).
     bindR (returnMaterials evening waiter 702 [three_back] None d1) (\<lambda>(_, d2).
     bindR (auditMaterialIssue later waiter 702 Approve d2) (\<lambda>(_, d3).
     bindR (auditMaterialIssue later waiter 702 Approve d3) (\<lambda>(_, d4).
       Inr (map (\<lambda>b. (ml_onHand b, ml_issued b, ml_lost b)) (md_balances d4))))))) = Inr [(12, - 4, 2)]"
  by code_simp

text \<open>An approval before any return makes the forks vanish from the books.\<close>

lemma unreturned_materials_vanish:
  "bindR laid_in (\<lambda>d. bindR (issueMaterials evening waiter four_forks d) (\<lambda>(_, d1).
     bindR (auditMaterialIssue later cook 702 Approve d1) (\<lambda>(_, d2).
       Inr (total_held 1 2 700 d, total_held 1 2 700 d2)))) = Inr (10, 6)"
  by code_simp

text \<open>
  An issue that was approved can be disputed: it is listed as out again, though nothing is.
\<close>

lemma disputed_after_approval_is_listed_as_out:
  "bindR laid_in (\<lambda>d. bindR (issueMaterials evening waiter four_forks d) (\<lambda>(_, d1).
     bindR (returnMaterials evening waiter 702 [three_back] None d1) (\<lambda>(_, d2).
     bindR (auditMaterialIssue later cook 702 Approve d2) (\<lambda>(_, d3).
     bindR (auditMaterialIssue later cook 702 (Dispute None) d3) (\<lambda>(_, d4).
     bindR (listActiveMaterialIssues cook d4) (\<lambda>qs.
       Inr (map mq_id qs, out_sum 1 2 700 d4, map ml_issued (md_balances d4)))))))) = Inr ([702], 0, [0])"
  by code_simp

text \<open>
  One kilogram and half a gram of something stocked in thousandths of a kilogram: the balance
  gives the kilogram and books a gram more as issued.
\<close>

lemma half_a_thousandth_appears:
  "bindR laid_in (\<lambda>d. bindR (issueMaterials evening waiter (four_forks\<lparr>iu_lines := [(700, 1 + 5 / 10000, None)]\<rparr>) d) (\<lambda>(_, d1).
       Inr (total_held 1 2 700 d, map ml_onHand (md_balances d1), map ml_issued (md_balances d1), total_held 1 2 700 d1))) =
     Inr (10, [9], [1001 / 1000], 10001 / 1000)"
  by code_simp

text \<open>
  A catering order that has materials out cannot be closed, but its status can be set to closed.
\<close>

definition catering :: "material_db \<Rightarrow> material_db" where
  "catering d = d\<lparr>md_ops := (md_ops d)\<lparr>outside_orders := [\<lparr>oo_id = 45, oo_branchId = 2, oo_businessDate = 0, oo_createdBy = 10,
     oo_requiresReturn = True, oo_status = S_ACTIVE_ORDER, oo_closedAt = None, oo_version = 1\<rparr>],
     orders := map (\<lambda>r. r\<lparr>od_outsideOrderId := Some 45\<rparr>) (orders (md_ops d))\<rparr>\<rparr>"

lemma update_closes_with_materials_out:
  "bindR laid_in (\<lambda>d. bindR (issueMaterials evening waiter four_forks (catering d)) (\<lambda>(_, d1).
     bindR (updateOutsideOrder waiter 45 (Some S_CLOSED) d1) (\<lambda>(o', d2).
       Inr (is_ok (closeOutsideOrder evening waiter 45 d1), oo_status o', map mq_status (md_issues d2))))) =
   Inr (False, S_CLOSED, [M_ISSUED])"
  by code_simp

lemma closing_leaves_nothing_out:
  assumes "closeOutsideOrder e c i d = Inr (o', d')" and "find_outside c i d = Inr o1" and "oo_requiresReturn o1"
    and "oo_status o1 \<noteq> S_CLOSED" and "r \<in> set (orders_outside i d)" and "q \<in> set (md_issues d)" and "mq_orderId q = od_id r"
  shows "mq_status q = M_APPROVED \<or> mq_status q = M_CANCELLED"
proof -
  have "\<not> still_out (mq_status q)"
    using assms by (auto simp: closeOutsideOrder_def count_where_def filter_empty_conv split: if_splits)
  then show ?thesis by (cases "mq_status q") (auto simp: still_out_def)
qed

end
