(* ===== verification/Spec2Isabelle.thy ===== *)
theory Spec2Isabelle
  imports Settlement Lifecycle Shifts Rooms DailyClose Counting Leave Roster Materials
begin

text \<open>
  A development for the back end of the Fanaye restaurant system, a NestJS application over a
  PostgreSQL database reached through Prisma (\<open>src/\<close>, \<open>prisma/schema.prisma\<close>). A waiter opens a
  table or a hotel room and confirms orders; the items travel through preparation stations and
  are served, changed or cancelled; stock follows the recipes; the cashier turns the served
  seating into a bill and collects cash or checks a bank transfer; waiters hand their cash to
  drawers, drawers are reconciled, shifts end; the day is closed and locked. Behind the floor,
  goods are received, produced, counted and sent between stores, trays and plates go out with
  catering orders and come back, and the staff is planned, paid and given leave.

  \<^bold>\<open>The model.\<close> A service method is a function from the caller's context, the arguments and the
  state to \<open>err + 'a\<close>: every \<open>throw\<close> and every constraint of the database that refuses a write is
  an \<open>Inl\<close>, and an \<open>Inl\<close> leaves the state as it was, as an aborted transaction does. The few
  methods that write before they fail return the state with the error (\<open>Warehouse.waste\<close>,
  \<open>Supply.dispatchSupplyRequest\<close>, \<open>Supply.createSupplyRequestV2\<close>, \<open>Supply.createPushDrop\<close>,
  \<open>DailyClose.lockClose\<close>). The state is the record \<open>db\<close> of \<open>Database\<close>: the tables as lists of
  rows in the order of their creation, and the effects that were emitted. A row is a record of
  \<open>Schema\<close> with the columns the modelled code reads or writes; \<open>commit\<close> checks the constraints
  (\<open>db_constraints\<close>: keys, partial unique indexes, checks of the migrations) that a transaction
  could violate. Ids are numbers handed out by \<open>next_id\<close>. Whatever is not in \<open>src/\<close> or cannot be
  computed is a field of \<open>env\<close>, an argument of the operations: the clock and the server's time
  zone, the hash of a body, the comparison of a PIN, the reading of a decimal text, the answers
  of the bank verification. \<open>Scenario\<close> instantiates it with concrete functions, and the witnesses
  run the operations there.

  \<^bold>\<open>Numbers.\<close> \<open>Prisma.Decimal\<close> and \<open>Decimal(p, s)\<close> columns are exact rationals with their rounding
  written out (\<open>dp2\<close>, \<open>round_half_up\<close>); where the code computes with JavaScript numbers the model
  computes exactly and applies the code's \<open>Math.round\<close> (\<open>Rounding.js_round\<close>), so the error of
  binary fractions is not modelled. The precision and the length of the columns are bounds only of
  a waste, which is not a transaction; the limits the code states itself are modelled everywhere
  (pages of 50 to 200 rows in the lists, grace minutes, portions).

  \<^bold>\<open>Time.\<close> Times are milliseconds since 1970, dates are days. The restaurant's day is that of
  Addis Ababa, three hours ahead; where the code asks the server's clock instead, so does the model.

  \<^bold>\<open>Interleaving.\<close> One call of an operation is one step of the model. Sequences of calls by anybody
  are the step relations below. Inside one call, reads before a transaction and the transaction
  itself see the same state; \<open>Settlement.stale_read_loses_a_payment\<close> splits the two where it matters.

  \<^bold>\<open>Theories.\<close>
  \<^item> \<open>Prelude\<close>: results and their sequencing, tables, decimals, the string helpers of JavaScript; the
    collections \<open>inversion\<close> (what a successful run says) and \<open>frame\<close> (what an operation leaves alone).
  \<^item> \<open>Schema\<close>, \<open>Database\<close>: rows, tables, constraints, effects. \<open>Constraints\<close>: how writes keep them.
    \<open>Scenario\<close>: one evening as a concrete state.
  \<^item> \<open>Access\<close> (\<open>casl/casl-ability.factory.ts\<close>, \<open>casl.service.ts\<close>): abilities by role and permission, the
    guards for branch, shift and a locked day. The locale \<open>ability_service\<close> is what the services rely on.
  \<^item> \<open>Idempotency\<close>: the table of stored responses and its locale \<open>idempotency_store\<close>: a repeated
    command answers as before, another body under the same key is refused.
  \<^item> \<open>Versions\<close>: optimistic locking as the locale \<open>optimistic\<close>, interpreted for bills in \<open>Settlement\<close>
    and for order items in \<open>Lifecycle\<close>: of two requests that name one version, one succeeds.
  \<^item> \<open>Pricing\<close> (\<open>orders/vip-pricing.util.ts\<close>, totals and numbers of bills), \<open>Stock\<close> (\<open>inventory/units.ts\<close>,
    \<open>applyDelta\<close>; the locale \<open>double_book\<close>: a balance is the sum of its ledger), \<open>Depletion\<close> (recipes).
  \<^item> \<open>Seating\<close>, \<open>BillRequests\<close>, \<open>Payments\<close> (\<open>billing/billing.service.ts\<close>): tables and rooms as seatings, bill
    requests, bills, counter sales, payments. \<open>Settlement\<close>: \<open>billing_step\<close> and the books of a bill along it.
  \<^item> \<open>Orders\<close> (\<open>orders/orders.service.ts\<close>), \<open>ItemMutations\<close> (\<open>orders/order-item-mutations.service.ts\<close>), \<open>Stations\<close>
    (\<open>stations/stations.service.ts\<close>): the life of an order item. \<open>Lifecycle\<close>: \<open>floor_step\<close>, the abstract
    automaton \<open>item_edge\<close> the three services refine, and the requests that wait for a decision.
  \<^item> \<open>CashCustody\<close> (\<open>cash-custody/\<close>), \<open>Drawer\<close> (\<open>reconciliation/\<close>), \<open>Shifts\<close> (\<open>shifts/shifts.service.ts\<close>): cash from
    the pouch of a waiter to the drawer, its reconciliation, clocking in and out, the handovers.
  \<^item> \<open>Floor\<close> (\<open>floor/floor.service.ts\<close>, \<open>session-idle-monitor.service.ts\<close>), \<open>Rooms\<close> (\<open>rooms/rooms.service.ts\<close>;
    \<open>room_step\<close>), \<open>DailyClose\<close> (\<open>daily-close/daily-close.service.ts\<close>; \<open>close_step\<close>).
  \<^item> \<open>Warehouse\<close>, \<open>Transfers\<close>, \<open>Production\<close>, \<open>Supply\<close>, \<open>Counting\<close> (\<open>inventory/inventory.service.ts\<close>): stores,
    receiving and waste, transfers, production batches, supply requests and push drops, physical
    counts. \<open>Supply.store_step\<close> has one case per operation that moves stock between or in stores.
  \<^item> \<open>Rounding\<close>, \<open>Payroll\<close> (\<open>hr/payroll.service.ts\<close>; \<open>payroll_step\<close>), \<open>Leave\<close> (\<open>hr/hr.service.ts\<close>), \<open>Roster\<close>
    (\<open>floor/staff-coverage.service.ts\<close>): pay runs, leave, shift plans, who covers which table, credentials.
    Payroll and leave keep their tables in records of their own.
  \<^item> \<open>Materials\<close> (\<open>outside-orders/outside-orders.service.ts\<close> and the materials of \<open>inventory\<close>): catering orders,
    the materials that leave with them, their return and its approval; \<open>custody_step\<close>.

  \<^bold>\<open>What is shown.\<close> Invariants along the step relations: paid amounts and bill states agree with the
  payments (C1), item versions count the transitions (C2), stock is conserved over stores and what
  is on the way (C3), totals of pay runs are those of their lines, room service, requests and
  handovers keep their books. Functional statements say what a successful call has done, on the
  whole state: the price of an order is what the menu shows, a bill charges the seating, a
  payment settles, a count sets stock, a batch keeps value, a decision books leave. Safety: one
  payment per version, one bill per bank reference, one session per table, served items, locked
  days and paid wages stay as they are, transfers arrive once. Two computations agree: the
  estimate with the total, the expected cash of a drawer in three services. Round trips: what a
  rejection or a cancellation gives back. The loop over the nights of a stay ends (its measure is
  the number of nights left). Statements that name an error say which calls fail and why.

  \<^bold>\<open>Bounds.\<close> No definition has fuel: loops over rows are list recursion, the nights are a \<open>function\<close>
  with its termination proof. The search for a free material code has no bound in the code, so it
  is a \<open>partial_function (option)\<close>, and \<open>Materials.new_material_gets_a_free_code\<close> shows that it ends.

  \<^bold>\<open>Not modelled.\<close> Texts for people (messages with names, titles of notifications, labels) are left
  out or shortened; where two errors have one class the message still tells them apart. Reports
  and dashboards (\<open>finance\<close>, \<open>manager-dashboard\<close>, \<open>menu-engineering\<close>, waiter performance, the analytics of
  \<open>inventory\<close>, the views of \<open>floor\<close> and \<open>staff-coverage\<close>) only read what the modelled services write. The
  administration of menus, branches, tenants, plans and staff profiles (\<open>menu\<close>, \<open>branches\<close>, \<open>super-admin\<close>,
  \<open>site\<close>, \<open>qr-menu\<close>, \<open>createStaff\<close>, \<open>updateStaff\<close>, categories and units of \<open>inventory\<close>) edits rows the model
  takes as given. Authentication, biometrics, the language model, the bank's verification, mail,
  files and backups are calls to libraries and services outside \<open>src/\<close>; what the modelled code
  relies on of them is a field of \<open>env\<close>. The socket gateway is I/O; the notices are values here.
  Seeds and migrations are data; the constraints of the migrations that the services run into are
  in \<open>Database\<close>.
\<close>

end
